(* ===== verification/Prelude.thy ===== *)
theory Prelude
  imports Main "HOL-Library.Word" "HOL-Library.Char_ord"
begin

text \<open>
  Shared vocabulary of the development.

  \<^item> Types: a Rust \<open>u8\<close>, \<open>u32\<close> and \<open>u64\<close> is a word of that width, \<open>Vec<u8>\<close> and
    \<open>&[u8]\<close> a list of bytes.  A Rust \<open>String\<close> is the list of its UTF-8 bytes; a HOL
    character is exactly one byte, so \<open>s.len()\<close> is \<open>length s\<close>.
  \<^item> Results: \<open>Result<T, E>\<close> is the sum \<open>E + T\<close>, with \<open>Ok\<close> and \<open>Err\<close> as names of its
    injections, and three combinators for the question-mark operator: \<open>tryR\<close> in code that
    only reads, \<open>tryE\<close> for a pure result inside code that threads a store, \<open>tryS\<close> for a
    call that itself changes the store.  The state survives an error, as the \<open>&mut\<close>
    argument of the source does.
  \<^item> Saturating arithmetic of the Rust standard library, decimal formatting, and the
    iterator idioms the engine uses on vectors.
\<close>

type_synonym byte = "8 word"
type_synonym bytes = "8 word list"
type_synonym u32 = "32 word"
type_synonym u64 = "64 word"

named_theorems result_simps \<open>rewriting of the question-mark combinators on known results\<close>
named_theorems result_elims \<open>what a successful chain of question marks says of its steps\<close>

section \<open>Results\<close>

abbreviation Ok :: "'a \<Rightarrow> 'e + 'a" where "Ok \<equiv> Inr"
abbreviation Err :: "'e \<Rightarrow> 'e + 'a" where "Err \<equiv> Inl"

definition is_ok :: "'e + 'a \<Rightarrow> bool" where
  "is_ok r = (case r of Ok _ \<Rightarrow> True | Err _ \<Rightarrow> False)"

definition ok_opt :: "'e + 'a \<Rightarrow> 'a option" where
  "ok_opt r = (case r of Ok a \<Rightarrow> Some a | Err _ \<Rightarrow> None)"

definition map_err :: "('e \<Rightarrow> 'f) \<Rightarrow> 'e + 'a \<Rightarrow> 'f + 'a" where
  "map_err g r = (case r of Ok a \<Rightarrow> Ok a | Err e \<Rightarrow> Err (g e))"

definition ok_or :: "'e \<Rightarrow> 'a option \<Rightarrow> 'e + 'a" where
  "ok_or e x = (case x of Some a \<Rightarrow> Ok a | None \<Rightarrow> Err e)"

definition tryR :: "'e + 'a \<Rightarrow> ('a \<Rightarrow> 'e + 'b) \<Rightarrow> 'e + 'b" where
  "tryR r f = (case r of Ok a \<Rightarrow> f a | Err e \<Rightarrow> Err e)"

definition tryE :: "'e + 'a \<Rightarrow> 's \<Rightarrow> ('a \<Rightarrow> ('e + 'b) \<times> 's) \<Rightarrow> ('e + 'b) \<times> 's" where
  "tryE r s f = (case r of Ok a \<Rightarrow> f a | Err e \<Rightarrow> (Err e, s))"

definition tryS :: "('e + 'a) \<times> 's \<Rightarrow> ('a \<Rightarrow> 's \<Rightarrow> ('e + 'b) \<times> 's) \<Rightarrow> ('e + 'b) \<times> 's" where
  "tryS rs f = (case fst rs of Ok a \<Rightarrow> f a (snd rs) | Err e \<Rightarrow> (Err e, snd rs))"

definition map_errS :: "('e \<Rightarrow> 'f) \<Rightarrow> ('e + 'a) \<times> 's \<Rightarrow> ('f + 'a) \<times> 's" where
  "map_errS g rs = (map_err g (fst rs), snd rs)"

lemma is_ok_simps [simp]: "is_ok (Ok a)" "\<not> is_ok (Err e)"
  by (simp_all add: is_ok_def)

lemma is_ok_iff: "is_ok r \<longleftrightarrow> (\<exists>a. r = Ok a)"
  by (cases r) simp_all

lemma ok_opt_simps [simp]: "ok_opt (Ok a) = Some a" "ok_opt (Err e) = None"
  by (simp_all add: ok_opt_def)

lemma ok_opt_Some [simp]: "ok_opt r = Some a \<longleftrightarrow> r = Ok a"
  by (cases r) simp_all

lemma map_err_simps [simp]: "map_err g (Ok a) = Ok a" "map_err g (Err e) = Err (g e)"
  by (simp_all add: map_err_def)

lemma map_err_Ok_iff [simp]: "map_err g r = Ok a \<longleftrightarrow> r = Ok a"
  by (cases r) simp_all

lemma is_ok_map_err [simp]: "is_ok (map_err g r) = is_ok r"
  by (cases r) simp_all

lemma ok_or_simps [simp]: "ok_or e (Some a) = Ok a" "ok_or e None = Err e"
  by (simp_all add: ok_or_def)

lemma ok_or_Ok_iff [simp]: "ok_or e x = Ok a \<longleftrightarrow> x = Some a"
  by (cases x) simp_all

lemma tryR_simps [simp, result_simps]:
  "tryR (Ok a) f = f a" "tryR (Err e) f = Err e"
  by (simp_all add: tryR_def)

lemma tryE_simps [simp, result_simps]:
  "tryE (Ok a) s h = h a" "tryE (Err e) s h = (Err e, s)"
  by (simp_all add: tryE_def)

lemma tryS_simps [simp, result_simps]:
  "tryS (Ok a, s) h = h a s" "tryS (Err e, s) h = (Err e, s)"
  by (simp_all add: tryS_def)

lemma map_errS_simps [simp, result_simps]:
  "map_errS g (Ok a, s) = (Ok a, s)" "map_errS g (Err e, s) = (Err (g e), s)"
  by (simp_all add: map_errS_def)

lemma snd_map_errS [simp]: "snd (map_errS g rs) = snd rs"
  by (simp add: map_errS_def)

lemma fst_map_errS [simp]: "fst (map_errS g rs) = map_err g (fst rs)"
  by (simp add: map_errS_def)

lemma tryR_Ok [result_elims]: "tryR r f = Ok b \<longleftrightarrow> (\<exists>a. r = Ok a \<and> f a = Ok b)"
  by (cases r) simp_all

lemma tryE_Ok [result_elims]: "tryE r s h = (Ok b, t) \<longleftrightarrow> (\<exists>a. r = Ok a \<and> h a = (Ok b, t))"
  by (cases r) simp_all

lemma tryS_Ok [result_elims]:
  "tryS rs h = (Ok b, t) \<longleftrightarrow> (\<exists>a s. rs = (Ok a, s) \<and> h a s = (Ok b, t))"
  by (cases rs; cases "fst rs") (auto simp: tryS_def)

lemma map_errS_Ok [result_elims]: "map_errS g rs = (Ok a, s) \<longleftrightarrow> rs = (Ok a, s)"
  by (cases rs; cases "fst rs") auto

lemma tryR_cong [fundef_cong]:
  "r = r' \<Longrightarrow> (\<And>a. r' = Ok a \<Longrightarrow> f a = f' a) \<Longrightarrow> tryR r f = tryR r' f'"
  by (cases r') simp_all

lemma tryE_cong [fundef_cong]:
  "r = r' \<Longrightarrow> s = s' \<Longrightarrow> (\<And>a. r' = Ok a \<Longrightarrow> h a = h' a) \<Longrightarrow> tryE r s h = tryE r' s' h'"
  by (cases r') simp_all

lemma tryS_cong [fundef_cong]:
  "rs = rs' \<Longrightarrow> (\<And>a s. rs' = (Ok a, s) \<Longrightarrow> h a s = h' a s) \<Longrightarrow> tryS rs h = tryS rs' h'"
  by (cases rs'; cases "fst rs'") auto

section \<open>Saturating arithmetic\<close>

definition saturating_add :: "'w::len word \<Rightarrow> 'w word \<Rightarrow> 'w word" where
  "saturating_add a b = (if unat a + unat b < 2 ^ LENGTH('w) then a + b else - 1)"

definition saturating_sub :: "'w::len word \<Rightarrow> 'w word \<Rightarrow> 'w word" where
  "saturating_sub a b = (if b \<le> a then a - b else 0)"

definition saturating_mul :: "'w::len word \<Rightarrow> 'w word \<Rightarrow> 'w word" where
  "saturating_mul a b = (if unat a * unat b < 2 ^ LENGTH('w) then a * b else - 1)"

lemma unat_saturating_add:
  "unat (saturating_add a b :: 'w::len word) = min (unat a + unat b) (2 ^ LENGTH('w) - 1)"
proof (cases "unat a + unat b < 2 ^ LENGTH('w)")
  case True
  then show ?thesis
    by (simp add: saturating_add_def unat_word_ariths)
next
  case False
  then show ?thesis
    by (simp add: saturating_add_def unsigned_minus_1_eq_mask mask_eq_exp_minus_1)
qed

lemma unat_saturating_sub: "unat (saturating_sub a b) = unat a - unat b"
  by (auto simp: saturating_sub_def unat_sub word_le_nat_alt)

lemma unat_saturating_mul:
  "unat (saturating_mul a b :: 'w::len word) = min (unat a * unat b) (2 ^ LENGTH('w) - 1)"
proof (cases "unat a * unat b < 2 ^ LENGTH('w)")
  case True
  then show ?thesis
    by (simp add: saturating_mul_def unat_word_ariths)
next
  case False
  then show ?thesis
    by (simp add: saturating_mul_def unsigned_minus_1_eq_mask mask_eq_exp_minus_1)
qed

lemma saturating_add_ge: "a \<le> saturating_add a b"
proof -
  have "unat a < 2 ^ LENGTH('a)" by (rule unsigned_less)
  then have "unat a \<le> 2 ^ LENGTH('a) - 1" by linarith
  then show ?thesis by (simp add: word_le_nat_alt unat_saturating_add)
qed

section \<open>Strings and bytes\<close>

definition str_bytes :: "string \<Rightarrow> bytes" where
  "str_bytes s = map of_char s"

lemma unat_of_char_byte: "unat (of_char c :: byte) = of_char c"
proof -
  have "(of_char c :: byte) = of_nat (of_char c)"
    by (simp add: of_nat_of_char)
  then show ?thesis
    using nat_of_char_less_256 [of c] by (simp add: unat_of_nat)
qed

lemma inj_of_char_byte: "inj (of_char :: char \<Rightarrow> byte)"
proof (rule injI)
  fix c d :: char
  assume "(of_char c :: byte) = of_char d"
  then have "(of_char c :: nat) = of_char d"
    by (metis unat_of_char_byte)
  then show "c = d" by simp
qed

lemma str_bytes_inject [simp]: "str_bytes s = str_bytes t \<longleftrightarrow> s = t"
  using inj_of_char_byte by (simp add: str_bytes_def inj_map_eq_map)

lemma str_bytes_append [simp]: "str_bytes (s @ t) = str_bytes s @ str_bytes t"
  by (simp add: str_bytes_def)

lemma length_str_bytes [simp]: "length (str_bytes s) = length s"
  by (simp add: str_bytes_def)

text \<open>The lexicographic order of byte slices and arrays.\<close>

fun bytes_less :: "bytes \<Rightarrow> bytes \<Rightarrow> bool" where
  "bytes_less xs [] = False"
| "bytes_less [] (y # ys) = True"
| "bytes_less (x # xs) (y # ys) = (x < y \<or> (x = y \<and> bytes_less xs ys))"

lemma bytes_less_irrefl [simp]: "\<not> bytes_less xs xs"
  by (induction xs) auto

lemma bytes_less_linear: "bytes_less xs ys \<or> xs = ys \<or> bytes_less ys xs"
  by (induction xs ys rule: bytes_less.induct) (auto, case_tac xs, auto)

lemma bytes_less_asym: "bytes_less xs ys \<Longrightarrow> \<not> bytes_less ys xs"
  by (induction xs ys rule: bytes_less.induct) auto

definition quoted :: "string \<Rightarrow> string" where
  "quoted s = CHR 0x27 # s @ [CHR 0x27]"

definition hex_digit :: "nat \<Rightarrow> char" where
  "hex_digit n = ''0123456789abcdef'' ! n"

definition digit_char :: "nat \<Rightarrow> char" where
  "digit_char n = char_of (48 + n)"

fun nat_decimal :: "nat \<Rightarrow> string" where
  "nat_decimal n = (if n < 10 then [digit_char n] else nat_decimal (n div 10) @ [digit_char (n mod 10)])"

declare nat_decimal.simps [simp del]

definition zero_padded :: "nat \<Rightarrow> nat \<Rightarrow> string" where
  "zero_padded w n = replicate (w - length (nat_decimal n)) (CHR ''0'') @ nat_decimal n"

definition to_be_bytes32 :: "u32 \<Rightarrow> bytes" where
  "to_be_bytes32 n = [ucast (drop_bit 24 n), ucast (drop_bit 16 n), ucast (drop_bit 8 n), ucast n]"

definition to_le_bytes32 :: "u32 \<Rightarrow> bytes" where
  "to_le_bytes32 n = [ucast n, ucast (drop_bit 8 n), ucast (drop_bit 16 n), ucast (drop_bit 24 n)]"

fun le_value :: "bytes \<Rightarrow> nat" where
  "le_value [] = 0"
| "le_value (b # bs) = unat b + 256 * le_value bs"

definition from_le_bytes32 :: "bytes \<Rightarrow> u32" where
  "from_le_bytes32 bs = of_nat (le_value bs)"

lemma length_to_le_bytes32 [simp]: "length (to_le_bytes32 n) = 4"
  by (simp add: to_le_bytes32_def)

lemma le_value_to_le_bytes32: "le_value (to_le_bytes32 n) = unat n"
proof -
  have byte: "unat (ucast m :: byte) = unat m mod 256" for m :: u32
    by (simp add: unsigned_ucast_eq take_bit_eq_mod)
  have small: "unat n < 4294967296" using unsigned_less [of n, where ?'a = nat] by simp
  let ?a = "unat n div 256" and ?b = "unat n div 65536" and ?c = "unat n div 16777216"
  have "?c < 256" using small by (simp add: less_mult_imp_div_less)
  moreover have "?b = ?b mod 256 + 256 * ?c" "?a = ?a mod 256 + 256 * ?b"
    by (simp_all add: div_mult2_eq [of "unat n" 65536 256, simplified] div_mult2_eq [of "unat n" 256 256, simplified])
  ultimately show ?thesis
    by (simp add: to_le_bytes32_def byte drop_bit_eq_div unat_div)
qed

lemma from_le_to_le_bytes32 [simp]: "from_le_bytes32 (to_le_bytes32 n) = n"
  by (simp add: from_le_bytes32_def le_value_to_le_bytes32)

section \<open>Ordered maps keyed by byte strings\<close>

text \<open>A \<open>BTreeMap<Vec<u8>, V>\<close> is the list of its entries in key order.\<close>

fun bt_insert :: "bytes \<Rightarrow> 'v \<Rightarrow> (bytes \<times> 'v) list \<Rightarrow> (bytes \<times> 'v) list" where
  "bt_insert k v [] = [(k, v)]"
| "bt_insert k v ((k', v') # xs) =
     (if k = k' then (k, v) # xs
      else if bytes_less k k' then (k, v) # (k', v') # xs
      else (k', v') # bt_insert k v xs)"

definition bt_remove :: "bytes \<Rightarrow> (bytes \<times> 'v) list \<Rightarrow> (bytes \<times> 'v) list" where
  "bt_remove k xs = filter (\<lambda>e. fst e \<noteq> k) xs"

definition bt_sorted :: "(bytes \<times> 'v) list \<Rightarrow> bool" where
  "bt_sorted xs \<longleftrightarrow> sorted_wrt bytes_less (map fst xs)"

lemma map_of_bt_insert [simp]: "map_of (bt_insert k v xs) = (map_of xs)(k \<mapsto> v)"
  by (induction xs) (auto simp: fun_upd_twist)

lemma map_of_bt_remove [simp]: "map_of (bt_remove k xs) = (map_of xs)(k := None)"
  by (induction xs) (auto simp: bt_remove_def)

lemma fst_bt_insert [simp]: "fst ` set (bt_insert k v xs) = insert k (fst ` set xs)"
  by (induction k v xs rule: bt_insert.induct) (simp_all add: insert_commute)

lemma bytes_less_trans: "bytes_less xs ys \<Longrightarrow> bytes_less ys zs \<Longrightarrow> bytes_less xs zs"
proof (induction xs zs arbitrary: ys rule: bytes_less.induct)
  case (1 xs)
  then show ?case by (cases ys) auto
next
  case (2 z zs)
  then show ?case by simp
next
  case (3 x xs z zs)
  then show ?case by (cases ys) auto
qed

lemma bt_sorted_insert: "bt_sorted xs \<Longrightarrow> bt_sorted (bt_insert k v xs)"
proof (induction xs)
  case (Cons e xs)
  obtain k' v' where e: "e = (k', v')" by fastforce
  show ?case
  proof (cases "k = k' \<or> bytes_less k k'")
    case True
    with Cons.prems e show ?thesis by (auto simp: bt_sorted_def intro: bytes_less_trans)
  next
    case False
    then have "bytes_less k' k" using bytes_less_linear [of k k'] by blast
    moreover have "fst ` set (bt_insert k v xs) = insert k (fst ` set xs)" by simp
    ultimately show ?thesis using False Cons e by (auto simp: bt_sorted_def simp del: fst_bt_insert)
  qed
qed (simp add: bt_sorted_def)

lemma bt_sorted_remove: "bt_sorted xs \<Longrightarrow> bt_sorted (bt_remove k xs)"
  by (induction xs) (auto simp: bt_sorted_def bt_remove_def)

lemma bt_insert_last: "\<forall>e \<in> set xs. bytes_less (fst e) k \<Longrightarrow> bt_insert k v xs = xs @ [(k, v)]"
  by (induction xs) (auto dest: bytes_less_asym)

lemma bt_rebuild:
  assumes "bt_sorted xs"
  shows "fold (\<lambda>(k, v). bt_insert k v) xs [] = xs"
  using assms
proof (induction xs rule: rev_induct)
  case (snoc e xs)
  then have "bt_sorted xs" and last: "\<forall>d \<in> set xs. bytes_less (fst d) (fst e)"
    by (auto simp: bt_sorted_def sorted_wrt_append)
  with snoc.IH bt_insert_last [OF last] show ?case by (cases e) simp
qed simp

section \<open>Iterator idioms\<close>

fun upd_first :: "('a \<Rightarrow> bool) \<Rightarrow> ('a \<Rightarrow> 'a) \<Rightarrow> 'a list \<Rightarrow> 'a list" where
  "upd_first p f [] = []"
| "upd_first p f (x # xs) = (if p x then f x # xs else x # upd_first p f xs)"

lemma length_upd_first [simp]: "length (upd_first p f xs) = length xs"
  by (induction xs) auto

lemma find_None_upd_first: "List.find p xs = None \<Longrightarrow> upd_first p f xs = xs"
  by (induction xs) (auto split: if_splits)

lemma map_upd_first_same: "(\<And>x. g (f x) = g x) \<Longrightarrow> map g (upd_first p f xs) = map g xs"
  by (induction xs) auto

lemma find_upd_first:
  "List.find p xs = Some y \<Longrightarrow> p (f y) \<Longrightarrow> List.find p (upd_first p f xs) = Some (f y)"
  by (induction xs) (auto split: if_splits)

lemma find_upd_first_other:
  "(\<And>x. p x \<Longrightarrow> \<not> q x \<and> \<not> q (f x)) \<Longrightarrow> List.find q (upd_first p f xs) = List.find q xs"
  by (induction xs) auto

lemma set_upd_first: "x \<in> set (upd_first p f xs) \<Longrightarrow> x \<in> set xs \<or> (\<exists>y \<in> set xs. p y \<and> x = f y)"
  by (induction xs) (auto split: if_splits)

lemma find_append: "List.find p (xs @ ys) = (case List.find p xs of None \<Rightarrow> List.find p ys | Some y \<Rightarrow> Some y)"
  by (induction xs) auto

lemma find_Some_prop: "List.find p xs = Some y \<Longrightarrow> y \<in> set xs \<and> p y"
  by (induction xs) (auto split: if_splits)

lemma find_None_all: "List.find p xs = None \<longleftrightarrow> (\<forall>x \<in> set xs. \<not> p x)"
  by (induction xs) auto

lemma split_list_suffix: "length bs = length ds \<Longrightarrow> as @ bs = cs @ ds \<longleftrightarrow> as = cs \<and> bs = ds"
  by simp

end
