(* ===== verification/Wire.thy ===== *)
theory Wire
  imports Prelude
begin

text \<open>
  Errors of the core crate and the versioned wire encoding
  (\<open>mycellium-core/src/error.rs\<close>, \<open>wire.rs\<close>).

  The byte format itself is the third-party crate \<open>postcard\<close>: a \<open>codec\<close> is the pair of its
  serialiser and deserialiser at one type and is an argument of every definition that stores
  or sends a value of that type.  What the program relies on is \<open>codec_ok\<close>: a value that was
  serialised deserialises to itself.
\<close>

datatype error =
    InvalidHandle
  | BadSignature
  | Malformed
  | DecryptFailed
  | TooManySkipped
  | WeakKey

definition error_display :: "error \<Rightarrow> string" where
  "error_display e = (case e of
      InvalidHandle \<Rightarrow> ''invalid handle''
    | BadSignature \<Rightarrow> ''signature verification failed''
    | Malformed \<Rightarrow> ''malformed encoding''
    | DecryptFailed \<Rightarrow> ''decryption failed''
    | TooManySkipped \<Rightarrow> ''too many skipped messages''
    | WeakKey \<Rightarrow> ''low-order key rejected'')"

record 'a codec =
  to_allocvec :: "'a \<Rightarrow> bytes"
  from_bytes :: "bytes \<Rightarrow> 'a option"

definition codec_ok :: "'a codec \<Rightarrow> bool" where
  "codec_ok c \<longleftrightarrow> (\<forall>v. from_bytes c (to_allocvec c v) = Some v)"

text \<open>A pair of \<open>serde_json\<close> functions at one type; serializing may be refused.\<close>

record 'a json =
  json_to_vec :: "'a \<Rightarrow> bytes option"
  json_from_slice :: "bytes \<Rightarrow> 'a option"

definition json_ok :: "'a json \<Rightarrow> bool" where
  "json_ok j \<longleftrightarrow> (\<forall>v. \<exists>b. json_to_vec j v = Some b \<and> json_from_slice j b = Some v)"

definition VERSION :: byte where
  "VERSION = 1"

definition canonical :: "'a codec \<Rightarrow> 'a \<Rightarrow> bytes" where
  "canonical c value = to_allocvec c value"

definition wire_encode :: "'a codec \<Rightarrow> 'a \<Rightarrow> bytes" where
  "wire_encode c value = VERSION # canonical c value"

definition wire_decode :: "'a codec \<Rightarrow> bytes \<Rightarrow> error + 'a" where
  "wire_decode c bs = (case bs of
      [] \<Rightarrow> Err Malformed
    | v # body \<Rightarrow> (if v = VERSION then ok_or Malformed (from_bytes c body) else Err Malformed))"

lemma codec_okD [simp]: "codec_ok c \<Longrightarrow> from_bytes c (to_allocvec c v) = Some v"
  by (simp add: codec_ok_def)

lemma canonical_inject: "codec_ok c \<Longrightarrow> canonical c v = canonical c w \<longleftrightarrow> v = w"
  by (metis canonical_def codec_okD option.inject)

lemma wire_decode_encode [simp]: "codec_ok c \<Longrightarrow> wire_decode c (wire_encode c v) = Ok v"
  by (simp add: wire_decode_def wire_encode_def canonical_def)

lemma wire_encode_inject: "codec_ok c \<Longrightarrow> wire_encode c v = wire_encode c w \<longleftrightarrow> v = w"
  by (simp add: wire_encode_def canonical_inject)

lemma wire_decode_Err: "wire_decode c bs = Err e \<Longrightarrow> e = Malformed"
  by (auto simp: wire_decode_def ok_or_def split: list.splits if_splits option.splits)

lemma wire_decode_Ok_version: "wire_decode c bs = Ok v \<Longrightarrow> \<exists>body. bs = VERSION # body"
  by (auto simp: wire_decode_def split: list.splits if_splits)

end
