(* ===== verification/Crypto.thy ===== *)
theory Crypto
  imports Wire
begin

text \<open>
  Cryptographic primitives and the shared symmetric layer
  (\<open>mycellium-core/src/cipher.rs\<close>, \<open>platform.rs\<close>).

  The primitives are third-party crates (\<open>sha2\<close>, \<open>hmac\<close>, \<open>hkdf\<close>, \<open>chacha20poly1305\<close>,
  \<open>k256\<close>, \<open>ed25519-dalek\<close>, \<open>x25519-dalek\<close>): the record \<open>crypto\<close> collects them and is an
  argument of every definition that uses one.  The named hypotheses below state the
  documented correctness of these crates, never a hardness assumption.  AEAD encryption is a
  total function: the crate refuses only messages beyond the cipher's length limit, which the
  source itself treats as impossible.

  The platform capability supplies randomness and the clock; each draw and each clock reading
  is numbered, so two readings may differ.
\<close>

record crypto =
  sha256 :: "bytes \<Rightarrow> bytes"
  sha512 :: "bytes \<Rightarrow> bytes"
  hmac_sha256 :: "bytes \<Rightarrow> bytes \<Rightarrow> bytes"
  hkdf_sha256 :: "bytes \<Rightarrow> bytes \<Rightarrow> bytes \<Rightarrow> nat \<Rightarrow> bytes"
  hkdf_sha512 :: "bytes \<Rightarrow> bytes \<Rightarrow> nat \<Rightarrow> bytes"
  chacha_encrypt :: "bytes \<Rightarrow> bytes \<Rightarrow> bytes \<Rightarrow> bytes \<Rightarrow> bytes"
  chacha_decrypt :: "bytes \<Rightarrow> bytes \<Rightarrow> bytes \<Rightarrow> bytes \<Rightarrow> bytes option"
  k256_secret_ok :: "bytes \<Rightarrow> bool"
  k256_public :: "bytes \<Rightarrow> bytes"
  k256_public_ok :: "bytes \<Rightarrow> bool"
  k256_signature_ok :: "bytes \<Rightarrow> bool"
  k256_sign :: "bytes \<Rightarrow> bytes \<Rightarrow> bytes"
  k256_verify :: "bytes \<Rightarrow> bytes \<Rightarrow> bytes \<Rightarrow> bool"
  ed_public :: "bytes \<Rightarrow> bytes"
  ed_public_ok :: "bytes \<Rightarrow> bool"
  ed_sign :: "bytes \<Rightarrow> bytes \<Rightarrow> bytes"
  ed_verify :: "bytes \<Rightarrow> bytes \<Rightarrow> bytes \<Rightarrow> bool"
  ed_verify_strict :: "bytes \<Rightarrow> bytes \<Rightarrow> bytes \<Rightarrow> bool"
  x25519_public :: "bytes \<Rightarrow> bytes"
  x25519_dh :: "bytes \<Rightarrow> bytes \<Rightarrow> bytes"

section \<open>Documented behaviour of the crates\<close>

definition aead_ok :: "crypto \<Rightarrow> bool" where
  "aead_ok C \<longleftrightarrow> (\<forall>k n m a. chacha_decrypt C k n (chacha_encrypt C k n m a) a = Some m)"

definition k256_ok :: "crypto \<Rightarrow> bool" where
  "k256_ok C \<longleftrightarrow> (\<forall>s m. k256_secret_ok C s \<longrightarrow>
      k256_public_ok C (k256_public C s) \<and> k256_signature_ok C (k256_sign C s m) \<and>
      k256_verify C (k256_public C s) m (k256_sign C s m))"

definition ed_ok :: "crypto \<Rightarrow> bool" where
  "ed_ok C \<longleftrightarrow> (\<forall>s m. ed_public_ok C (ed_public C s) \<and> length (ed_sign C s m) = 64 \<and>
      ed_verify C (ed_public C s) m (ed_sign C s m) \<and>
      ed_verify_strict C (ed_public C s) m (ed_sign C s m))"

definition dh_ok :: "crypto \<Rightarrow> bool" where
  "dh_ok C \<longleftrightarrow> (\<forall>a b. x25519_dh C a (x25519_public C b) = x25519_dh C b (x25519_public C a))"

definition sha256_len :: "crypto \<Rightarrow> bool" where
  "sha256_len C \<longleftrightarrow> (\<forall>m. length (sha256 C m) = 32)"

definition sha512_len :: "crypto \<Rightarrow> bool" where
  "sha512_len C \<longleftrightarrow> (\<forall>m. length (sha512 C m) = 64)"

lemma aead_okD: "aead_ok C \<Longrightarrow> chacha_decrypt C k n (chacha_encrypt C k n m a) a = Some m"
  by (simp add: aead_ok_def)

lemma k256_okD:
  assumes "k256_ok C" "k256_secret_ok C s"
  shows "k256_public_ok C (k256_public C s)" "k256_signature_ok C (k256_sign C s m)"
    "k256_verify C (k256_public C s) m (k256_sign C s m)"
  using assms by (simp_all add: k256_ok_def)

lemma ed_okD:
  assumes "ed_ok C"
  shows "ed_public_ok C (ed_public C s)" "length (ed_sign C s m) = 64"
    "ed_verify C (ed_public C s) m (ed_sign C s m)"
    "ed_verify_strict C (ed_public C s) m (ed_sign C s m)"
  using assms by (simp_all add: ed_ok_def)

lemma dh_okD: "dh_ok C \<Longrightarrow> x25519_dh C a (x25519_public C b) = x25519_dh C b (x25519_public C a)"
  by (simp add: dh_ok_def)

section \<open>The platform capability\<close>

record platform =
  entropy :: "nat \<Rightarrow> nat \<Rightarrow> bytes"
  draws :: nat
  clock :: "nat \<Rightarrow> u64"
  reads :: nat

definition fill_random :: "platform \<Rightarrow> nat \<Rightarrow> bytes \<times> platform" where
  "fill_random p len = (entropy p (draws p) len, p\<lparr>draws := Suc (draws p)\<rparr>)"

definition now_unix_secs :: "platform \<Rightarrow> u64 \<times> platform" where
  "now_unix_secs p = (clock p (reads p), p\<lparr>reads := Suc (reads p)\<rparr>)"

section \<open>Chain keys and message encryption\<close>

definition kdf_ck :: "crypto \<Rightarrow> bytes \<Rightarrow> bytes \<times> bytes" where
  "kdf_ck C ck =
     (let mk = hmac_sha256 C ck [0x01];
          ck_next = hmac_sha256 C ck [0x02]
      in (ck_next, mk))"

definition message_keys :: "crypto \<Rightarrow> bytes \<Rightarrow> bytes \<times> bytes" where
  "message_keys C mk =
     (let okm = hkdf_sha256 C (replicate 32 0) mk (str_bytes ''Mycellium-Msg'') 44
      in (take 32 okm, drop 32 okm))"

definition aead_encrypt :: "crypto \<Rightarrow> bytes \<Rightarrow> bytes \<Rightarrow> bytes \<Rightarrow> bytes" where
  "aead_encrypt C mk plaintext aad =
     (let (key, nonce) = message_keys C mk in chacha_encrypt C key nonce plaintext aad)"

definition aead_decrypt :: "crypto \<Rightarrow> bytes \<Rightarrow> bytes \<Rightarrow> bytes \<Rightarrow> error + bytes" where
  "aead_decrypt C mk ciphertext aad =
     (let (key, nonce) = message_keys C mk
      in ok_or DecryptFailed (chacha_decrypt C key nonce ciphertext aad))"

lemma aead_decrypt_encrypt:
  "aead_ok C \<Longrightarrow> aead_decrypt C mk (aead_encrypt C mk m aad) aad = Ok m"
  by (simp add: aead_decrypt_def aead_encrypt_def Let_def split_def aead_okD)

lemma aead_decrypt_Err: "aead_decrypt C mk ct aad = Err e \<Longrightarrow> e = DecryptFailed"
  by (auto simp: aead_decrypt_def Let_def split_def ok_or_def split: option.splits)

end
