(* ===== verification/Storage.thy ===== *)
theory Storage
  imports Wire
begin

text \<open>
  The storage capability (\<open>mycellium-core/src/storage.rs\<close>) and the engine's rule for reading
  persisted state (\<open>mycellium-engine/src/lib.rs\<close>).

  The Rust trait is a record of operations that every client receives as an argument, so that
  the engine is generic over the store exactly as the source is.  Its contract is the locale
  \<open>kv_store\<close>: what a successful call promises about later reads.  A call that fails promises
  nothing, as in the source.  The contract is discharged in the theory \<open>FileStore\<close> for the
  encrypted file store and for its transactions.
\<close>

datatype io_error =
    NotFound
  | WouldBlock string
  | InvalidData string
  | IoOther string

datatype any_error = AnyMsg string | AnyIo io_error | AnyCore error

definition any_display :: "any_error \<Rightarrow> string" where
  "any_display e = (case e of
      AnyMsg m \<Rightarrow> m
    | AnyCore c \<Rightarrow> error_display c
    | AnyIo NotFound \<Rightarrow> ''entity not found''
    | AnyIo (WouldBlock m) \<Rightarrow> m
    | AnyIo (InvalidData m) \<Rightarrow> m
    | AnyIo (IoOther m) \<Rightarrow> m)"

datatype storage_mutation = Put bytes bytes | Delete bytes

record 's storage =
  st_get :: "'s \<Rightarrow> bytes \<Rightarrow> io_error + bytes option"
  st_put :: "'s \<Rightarrow> bytes \<Rightarrow> bytes \<Rightarrow> (io_error + unit) \<times> 's"
  st_delete :: "'s \<Rightarrow> bytes \<Rightarrow> (io_error + unit) \<times> 's"
  st_apply_batch :: "'s \<Rightarrow> storage_mutation list \<Rightarrow> (io_error + unit) \<times> 's"

text \<open>The trait's default \<open>apply_batch\<close>: one operation after the other, stopping at an error.\<close>

fun default_apply_batch ::
    "('s \<Rightarrow> bytes \<Rightarrow> bytes \<Rightarrow> (io_error + unit) \<times> 's) \<Rightarrow>
     ('s \<Rightarrow> bytes \<Rightarrow> (io_error + unit) \<times> 's) \<Rightarrow> 's \<Rightarrow> storage_mutation list \<Rightarrow>
     (io_error + unit) \<times> 's" where
  "default_apply_batch put delete st [] = (Ok (), st)"
| "default_apply_batch put delete st (mutation # ms) =
     tryS (case mutation of Put key value \<Rightarrow> put st key value | Delete key \<Rightarrow> delete st key)
       (\<lambda>_ st. default_apply_batch put delete st ms)"

text \<open>The view of a batch: what each key reads after the mutations, in order.\<close>

fun apply_mutation :: "storage_mutation \<Rightarrow> (bytes \<Rightarrow> io_error + bytes option) \<Rightarrow> bytes \<Rightarrow> io_error + bytes option" where
  "apply_mutation (Put k v) view = view(k := Ok (Some v))"
| "apply_mutation (Delete k) view = view(k := Ok None)"

definition apply_mutations :: "storage_mutation list \<Rightarrow> (bytes \<Rightarrow> io_error + bytes option) \<Rightarrow> bytes \<Rightarrow> io_error + bytes option" where
  "apply_mutations ms view = fold apply_mutation ms view"

lemma apply_mutations_simps [simp]:
  "apply_mutations [] view = view"
  "apply_mutations (m # ms) view = apply_mutations ms (apply_mutation m view)"
  by (simp_all add: apply_mutations_def)

fun mutation_key :: "storage_mutation \<Rightarrow> bytes" where
  "mutation_key (Put k v) = k"
| "mutation_key (Delete k) = k"

lemma apply_mutation_other: "k \<noteq> mutation_key m \<Longrightarrow> apply_mutation m view k = view k"
  by (cases m) auto

lemma apply_mutations_other:
  "k \<notin> mutation_key ` set ms \<Longrightarrow> apply_mutations ms view k = view k"
  by (induction ms arbitrary: view) (auto simp: apply_mutation_other)

lemma apply_mutations_append [simp]:
  "apply_mutations (ms @ ns) view = apply_mutations ns (apply_mutations ms view)"
  by (simp add: apply_mutations_def)

section \<open>The contract of a store\<close>

locale kv_store =
  fixes S :: "'s storage"
    and inv :: "'s \<Rightarrow> bool"
  assumes put_ok: "inv st \<Longrightarrow> st_put S st k v = (Ok (), st') \<Longrightarrow>
      inv st' \<and> st_get S st' = (st_get S st)(k := Ok (Some v))"
    and delete_ok: "inv st \<Longrightarrow> st_delete S st k = (Ok (), st') \<Longrightarrow>
      inv st' \<and> st_get S st' = (st_get S st)(k := Ok None)"
    and batch_ok: "inv st \<Longrightarrow> st_apply_batch S st ms = (Ok (), st') \<Longrightarrow>
      inv st' \<and> st_get S st' = apply_mutations ms (st_get S st)"
begin

lemma put_inv: "inv st \<Longrightarrow> st_put S st k v = (Ok (), st') \<Longrightarrow> inv st'"
  using put_ok by blast

lemma put_get: "inv st \<Longrightarrow> st_put S st k v = (Ok (), st') \<Longrightarrow>
    st_get S st' = (st_get S st)(k := Ok (Some v))"
  using put_ok by blast

lemma delete_inv: "inv st \<Longrightarrow> st_delete S st k = (Ok (), st') \<Longrightarrow> inv st'"
  using delete_ok by blast

lemma delete_get: "inv st \<Longrightarrow> st_delete S st k = (Ok (), st') \<Longrightarrow>
    st_get S st' = (st_get S st)(k := Ok None)"
  using delete_ok by blast

lemma batch_inv: "inv st \<Longrightarrow> st_apply_batch S st ms = (Ok (), st') \<Longrightarrow> inv st'"
  using batch_ok by blast

lemma batch_get: "inv st \<Longrightarrow> st_apply_batch S st ms = (Ok (), st') \<Longrightarrow>
    st_get S st' = apply_mutations ms (st_get S st)"
  using batch_ok by blast

end

section \<open>Reading persisted state\<close>

definition io_get :: "'s storage \<Rightarrow> 's \<Rightarrow> bytes \<Rightarrow> any_error + bytes option" where
  "io_get S st k = map_err AnyIo (st_get S st k)"

definition io_put :: "'s storage \<Rightarrow> 's \<Rightarrow> bytes \<Rightarrow> bytes \<Rightarrow> (any_error + unit) \<times> 's" where
  "io_put S st k v = map_errS AnyIo (st_put S st k v)"

definition io_delete :: "'s storage \<Rightarrow> 's \<Rightarrow> bytes \<Rightarrow> (any_error + unit) \<times> 's" where
  "io_delete S st k = map_errS AnyIo (st_delete S st k)"

definition io_batch :: "'s storage \<Rightarrow> 's \<Rightarrow> storage_mutation list \<Rightarrow> (any_error + unit) \<times> 's" where
  "io_batch S st ms = map_errS AnyIo (st_apply_batch S st ms)"

definition decode_state :: "'a \<Rightarrow> 'a codec \<Rightarrow> bytes option \<Rightarrow> string \<Rightarrow> any_error + 'a" where
  "decode_state dflt c bs what = (case bs of
      None \<Rightarrow> Ok dflt
    | Some b \<Rightarrow> map_err (\<lambda>_. AnyMsg (''local '' @ what @ '' is corrupt'')) (wire_decode c b))"

definition load_state :: "'a codec \<Rightarrow> bytes option \<Rightarrow> string \<Rightarrow> any_error + 'a option" where
  "load_state c bs what = (case bs of
      None \<Rightarrow> Ok None
    | Some b \<Rightarrow> (case wire_decode c b of
          Ok v \<Rightarrow> Ok (Some v)
        | Err _ \<Rightarrow> Err (AnyMsg (''local '' @ what @ '' is corrupt''))))"

lemma io_get_Ok [simp]: "io_get S st k = Ok v \<longleftrightarrow> st_get S st k = Ok v"
  by (simp add: io_get_def)

lemma io_put_Ok [simp]: "io_put S st k v = (Ok (), st') \<longleftrightarrow> st_put S st k v = (Ok (), st')"
  by (simp add: io_put_def map_errS_Ok)

lemma io_delete_Ok [simp]: "io_delete S st k = (Ok (), st') \<longleftrightarrow> st_delete S st k = (Ok (), st')"
  by (simp add: io_delete_def map_errS_Ok)

lemma io_batch_Ok [simp]: "io_batch S st ms = (Ok (), st') \<longleftrightarrow> st_apply_batch S st ms = (Ok (), st')"
  by (simp add: io_batch_def map_errS_Ok)

lemma decode_state_simps [simp]:
  "decode_state d c None what = Ok d"
  "codec_ok c \<Longrightarrow> decode_state d c (Some (wire_encode c v)) what = Ok v"
  by (simp_all add: decode_state_def)

lemma load_state_simps [simp]:
  "load_state c None what = Ok None"
  "codec_ok c \<Longrightarrow> load_state c (Some (wire_encode c v)) what = Ok (Some v)"
  by (simp_all add: load_state_def)

end
