(* ===== verification/Samples.thy ===== *)
theory Samples
  imports Crypto Storage
begin

text \<open>
  Concrete instances of the parameters, for the witnesses: a self-delimiting codec built from
  combinators, which satisfies \<open>codec_ok\<close> at every type it is built for, a set of primitives
  that satisfies every hypothesis of the cryptographic record, and a platform.  Nothing here
  models the program.
\<close>

section \<open>Self-delimiting codecs\<close>

record 'a scodec =
  s_put :: "'a \<Rightarrow> bytes"
  s_take :: "bytes \<Rightarrow> ('a \<times> bytes) option"

definition scodec_ok :: "'a scodec \<Rightarrow> bool" where
  "scodec_ok s \<longleftrightarrow> (\<forall>v rest. s_take s (s_put s v @ rest) = Some (v, rest))"

definition sample_codec :: "'a scodec \<Rightarrow> 'a codec" where
  "sample_codec s = \<lparr>to_allocvec = s_put s,
     from_bytes = (\<lambda>bs. case s_take s bs of Some (v, []) \<Rightarrow> Some v | _ \<Rightarrow> None)\<rparr>"

definition s_byte :: "byte scodec" where
  "s_byte = \<lparr>s_put = (\<lambda>b. [b]), s_take = (\<lambda>bs. case bs of b # rest \<Rightarrow> Some (b, rest) | [] \<Rightarrow> None)\<rparr>"

definition s_unit :: "unit scodec" where
  "s_unit = \<lparr>s_put = (\<lambda>_. []), s_take = (\<lambda>bs. Some ((), bs))\<rparr>"

definition s_pair :: "'a scodec \<Rightarrow> 'b scodec \<Rightarrow> ('a \<times> 'b) scodec" where
  "s_pair s t = \<lparr>s_put = (\<lambda>(a, b). s_put s a @ s_put t b),
     s_take = (\<lambda>bs. case s_take s bs of None \<Rightarrow> None
        | Some (a, rest) \<Rightarrow> (case s_take t rest of None \<Rightarrow> None | Some (b, rest) \<Rightarrow> Some ((a, b), rest)))\<rparr>"

definition s_sum :: "'a scodec \<Rightarrow> 'b scodec \<Rightarrow> ('a + 'b) scodec" where
  "s_sum s t = \<lparr>s_put = (\<lambda>x. case x of Inl a \<Rightarrow> 0 # s_put s a | Inr b \<Rightarrow> 1 # s_put t b),
     s_take = (\<lambda>bs. case bs of [] \<Rightarrow> None
        | tag # rest \<Rightarrow> (if tag = 0 then map_option (apfst Inl) (s_take s rest)
                        else map_option (apfst Inr) (s_take t rest)))\<rparr>"

definition s_iso :: "('b \<Rightarrow> 'a) \<Rightarrow> ('a \<Rightarrow> 'b) \<Rightarrow> 'a scodec \<Rightarrow> 'b scodec" where
  "s_iso f g s = \<lparr>s_put = s_put s \<circ> f, s_take = (\<lambda>bs. map_option (apfst g) (s_take s bs))\<rparr>"

fun take_list :: "(bytes \<Rightarrow> ('a \<times> bytes) option) \<Rightarrow> nat \<Rightarrow> bytes \<Rightarrow> ('a list \<times> bytes) option" where
  "take_list tk 0 bs = Some ([], bs)"
| "take_list tk (Suc n) bs = (case tk bs of None \<Rightarrow> None
    | Some (x, rest) \<Rightarrow> map_option (apfst ((#) x)) (take_list tk n rest))"

fun take_unary :: "bytes \<Rightarrow> (nat \<times> bytes) option" where
  "take_unary [] = None"
| "take_unary (b # bs) = (if b = 0 then Some (0, bs) else map_option (apfst Suc) (take_unary bs))"

definition s_nat :: "nat scodec" where
  "s_nat = \<lparr>s_put = (\<lambda>n. replicate n 1 @ [0]), s_take = take_unary\<rparr>"

definition s_list :: "'a scodec \<Rightarrow> 'a list scodec" where
  "s_list s = \<lparr>s_put = (\<lambda>xs. s_put s_nat (length xs) @ concat (map (s_put s) xs)),
     s_take = (\<lambda>bs. case take_unary bs of None \<Rightarrow> None | Some (n, rest) \<Rightarrow> take_list (s_take s) n rest)\<rparr>"

definition s_word :: "'w::len word scodec" where
  "s_word = s_iso unat of_nat s_nat"

definition s_string :: "string scodec" where
  "s_string = s_list (s_iso of_char char_of s_nat)"

definition s_bytes :: "bytes scodec" where
  "s_bytes = s_list s_byte"

definition s_option :: "'a scodec \<Rightarrow> 'a option scodec" where
  "s_option s = s_iso (\<lambda>x. case x of None \<Rightarrow> Inl () | Some a \<Rightarrow> Inr a)
     (\<lambda>x. case x of Inl _ \<Rightarrow> None | Inr a \<Rightarrow> Some a) (s_sum s_unit s)"

definition s_bool :: "bool scodec" where
  "s_bool = s_iso (\<lambda>b. if b then Inr () else Inl ()) (\<lambda>x. case x of Inl _ \<Rightarrow> False | Inr _ \<Rightarrow> True) (s_sum s_unit s_unit)"

definition s_mutation :: "storage_mutation scodec" where
  "s_mutation = s_iso (\<lambda>m. case m of Put k v \<Rightarrow> Inl (k, v) | Delete k \<Rightarrow> Inr k)
     (\<lambda>x. case x of Inl (k, v) \<Rightarrow> Put k v | Inr k \<Rightarrow> Delete k) (s_sum (s_pair s_bytes s_bytes) s_bytes)"

named_theorems sample_ok \<open>the sample codecs and primitives satisfy their hypotheses\<close>

lemma sample_codec_ok [sample_ok]: "scodec_ok s \<Longrightarrow> codec_ok (sample_codec s)"
proof -
  assume "scodec_ok s"
  then have "s_take s (s_put s v @ []) = Some (v, [])" for v by (simp only: scodec_ok_def)
  then show ?thesis by (simp add: codec_ok_def sample_codec_def)
qed

lemma s_byte_ok [sample_ok]: "scodec_ok s_byte" and s_unit_ok [sample_ok]: "scodec_ok s_unit"
  by (simp_all add: scodec_ok_def s_byte_def s_unit_def)

lemma s_pair_ok [sample_ok]: "scodec_ok s \<Longrightarrow> scodec_ok t \<Longrightarrow> scodec_ok (s_pair s t)"
  by (simp add: scodec_ok_def s_pair_def)

lemma s_sum_ok [sample_ok]: "scodec_ok s \<Longrightarrow> scodec_ok t \<Longrightarrow> scodec_ok (s_sum s t)"
  by (simp add: scodec_ok_def s_sum_def split: sum.split)

lemma s_iso_ok: "(\<And>b. g (f b) = b) \<Longrightarrow> scodec_ok s \<Longrightarrow> scodec_ok (s_iso f g s)"
  by (simp add: scodec_ok_def s_iso_def)

lemma s_nat_ok [sample_ok]: "scodec_ok s_nat"
proof -
  have "take_unary (replicate n 1 @ 0 # rest) = Some (n, rest)" for n rest
    by (induction n) simp_all
  then show ?thesis by (simp add: scodec_ok_def s_nat_def)
qed

lemma s_list_ok [sample_ok]: "scodec_ok s \<Longrightarrow> scodec_ok (s_list s)"
proof -
  assume s: "scodec_ok s"
  have "take_list (s_take s) (length xs) (concat (map (s_put s) xs) @ rest) = Some (xs, rest)" for xs rest
    using s by (induction xs) (simp_all add: scodec_ok_def)
  moreover have "take_unary (s_put s_nat n @ rest) = Some (n, rest)" for n rest
    using s_nat_ok by (simp add: scodec_ok_def s_nat_def)
  ultimately show ?thesis by (simp add: scodec_ok_def s_list_def)
qed

lemma s_word_ok [sample_ok]: "scodec_ok s_word"
  unfolding s_word_def by (rule s_iso_ok) (simp_all add: sample_ok)

lemma s_string_ok [sample_ok]: "scodec_ok s_string"
  unfolding s_string_def by (intro s_list_ok s_iso_ok) (simp_all add: sample_ok)

lemma s_bytes_ok [sample_ok]: "scodec_ok s_bytes"
  by (simp add: s_bytes_def sample_ok)

lemma s_option_ok [sample_ok]: "scodec_ok s \<Longrightarrow> scodec_ok (s_option s)"
  unfolding s_option_def by (rule s_iso_ok) (simp_all add: sample_ok split: option.split)

lemma s_bool_ok [sample_ok]: "scodec_ok s_bool"
  unfolding s_bool_def by (rule s_iso_ok) (simp_all add: sample_ok)

lemma s_mutation_ok [sample_ok]: "scodec_ok s_mutation"
  unfolding s_mutation_def by (rule s_iso_ok) (simp_all add: sample_ok split: storage_mutation.split)

section \<open>Sample primitives\<close>

definition sample_tag :: "bytes \<Rightarrow> bytes \<Rightarrow> bytes \<Rightarrow> byte" where
  "sample_tag k n a = sum_list k + sum_list n + sum_list a"

definition sample_crypto :: crypto where
  "sample_crypto = \<lparr>
     sha256 = (\<lambda>m. replicate 32 (sum_list m)),
     sha512 = (\<lambda>m. replicate 64 (sum_list m)),
     hmac_sha256 = (\<lambda>k m. replicate 32 (sum_list k + sum_list m)),
     hkdf_sha256 = (\<lambda>salt ikm info n. replicate n (sum_list salt + sum_list ikm + sum_list info)),
     hkdf_sha512 = (\<lambda>ikm info n. replicate n (sum_list ikm + sum_list info)),
     chacha_encrypt = (\<lambda>k n m a. sample_tag k n a # m),
     chacha_decrypt = (\<lambda>k n c a. case c of [] \<Rightarrow> None | t # m \<Rightarrow> (if t = sample_tag k n a then Some m else None)),
     k256_secret_ok = (\<lambda>s. length s = 32),
     k256_public = (\<lambda>s. 2 # s),
     k256_public_ok = (\<lambda>p. length p = 33),
     k256_signature_ok = (\<lambda>s. length s = 64),
     k256_sign = (\<lambda>s m. replicate 64 (sum_list s + sum_list m)),
     k256_verify = (\<lambda>p m sig. sig = replicate 64 (sum_list (tl p) + sum_list m)),
     ed_public = (\<lambda>s. s),
     ed_public_ok = (\<lambda>p. True),
     ed_sign = (\<lambda>s m. replicate 64 (sum_list s + sum_list m)),
     ed_verify = (\<lambda>p m sig. sig = replicate 64 (sum_list p + sum_list m)),
     ed_verify_strict = (\<lambda>p m sig. sig = replicate 64 (sum_list p + sum_list m)),
     x25519_public = (\<lambda>s. replicate 32 (sum_list s)),
     x25519_dh = (\<lambda>s p. replicate 32 (sum_list s + hd p))\<rparr>"

lemma sample_aead_ok [sample_ok]: "aead_ok sample_crypto"
  by (simp add: aead_ok_def sample_crypto_def)

lemma sample_k256_ok [sample_ok]: "k256_ok sample_crypto"
  by (simp add: k256_ok_def sample_crypto_def)

lemma sample_ed_ok [sample_ok]: "ed_ok sample_crypto"
  by (simp add: ed_ok_def sample_crypto_def)

lemma sample_dh_ok [sample_ok]: "dh_ok sample_crypto"
  by (simp add: dh_ok_def sample_crypto_def add.commute)

lemma sample_sha_len [sample_ok]: "sha256_len sample_crypto" "sha512_len sample_crypto"
  by (simp_all add: sha256_len_def sha512_len_def sample_crypto_def)

definition sample_platform :: platform where
  "sample_platform = \<lparr>entropy = (\<lambda>i n. replicate n (of_nat i + 1)), draws = 0, clock = (\<lambda>i. 1000 + of_nat i), reads = 0\<rparr>"

end
