(* ===== verification/Hex.thy ===== *)
theory Hex
  imports Prelude
begin

text \<open>
  Lowercase hexadecimal, as the core (\<open>userid.rs\<close>), the engine (\<open>wireops.rs\<close>), the client
  (\<open>runtime.rs\<close>), the registry (\<open>lib.rs\<close>) and the file store (\<open>filestore.rs\<close>) each write it.
  The two styles in the source (a sixteen-entry table, \<open>char::from_digit\<close>) are shown equal,
  and the rendering is injective with only lowercase hexadecimal digits in its image.
\<close>

unbundle bit_operations_syntax

definition hex_high :: "byte \<Rightarrow> nat" where
  "hex_high b = unat (drop_bit 4 b)"

definition hex_low :: "byte \<Rightarrow> nat" where
  "hex_low b = unat (b AND 0x0f)"

fun hex :: "bytes \<Rightarrow> string" where
  "hex [] = ''''"
| "hex (byte # bs) = hex_digit (hex_high byte) # hex_digit (hex_low byte) # hex bs"

text \<open>\<open>char::from_digit(d, 16)\<close> of the Rust standard library.\<close>

definition from_digit16 :: "nat \<Rightarrow> char option" where
  "from_digit16 d = (if d < 10 then Some (char_of (48 + d)) else if d < 16 then Some (char_of (87 + d)) else None)"

fun wireops_hex :: "bytes \<Rightarrow> string" where
  "wireops_hex [] = ''''"
| "wireops_hex (b # bs) =
     the (from_digit16 (unat (drop_bit 4 b))) # the (from_digit16 (unat (b AND 0x0f))) # wireops_hex bs"

definition is_lower_hex :: "char \<Rightarrow> bool" where
  "is_lower_hex c = ((CHR ''0'' \<le> c \<and> c \<le> CHR ''9'') \<or> (CHR ''a'' \<le> c \<and> c \<le> CHR ''f''))"

lemma hex_high_div: "hex_high b = unat b div 16"
  by (simp add: hex_high_def drop_bit_eq_div unat_div)

lemma hex_low_mod: "hex_low b = unat b mod 16"
proof -
  have "b AND 0x0f = take_bit 4 b"
    by (simp add: take_bit_eq_mask mask_eq_exp_minus_1)
  then show ?thesis
    by (simp add: hex_low_def take_bit_eq_mod unat_mod)
qed

lemma hex_high_less: "hex_high b < 16"
  using unsigned_less [of b, where ?'a = nat] by (simp add: hex_high_div)

lemma hex_low_less: "hex_low b < 16"
  by (simp add: hex_low_mod)

lemma less_16_cases:
  fixes n :: nat
  assumes "n < 16"
  shows "n \<in> {0,1,2,3,4,5,6,7,8,9,10,11,12,13,14,15}"
  using assms by (auto simp: numeral_eq_Suc less_Suc_eq)

lemma hex_digit_lower: "n < 16 \<Longrightarrow> is_lower_hex (hex_digit n)"
  by (drule less_16_cases) (auto simp: hex_digit_def is_lower_hex_def less_eq_char_def)

lemma hex_digit_inject: "m < 16 \<Longrightarrow> n < 16 \<Longrightarrow> hex_digit m = hex_digit n \<longleftrightarrow> m = n"
  by (drule less_16_cases, drule less_16_cases) (auto simp: hex_digit_def)

lemma from_digit16_hex_digit: "n < 16 \<Longrightarrow> from_digit16 n = Some (hex_digit n)"
  by (drule less_16_cases) (auto simp: hex_digit_def from_digit16_def char_of_eq_iff take_bit_eq_mod)

lemma nibbles_inject: "hex_high a = hex_high b \<and> hex_low a = hex_low b \<longleftrightarrow> a = b"
proof
  assume "hex_high a = hex_high b \<and> hex_low a = hex_low b"
  then have "unat a = unat b"
    unfolding hex_high_div hex_low_mod by (metis div_mult_mod_eq)
  then show "a = b" by (rule unsigned_word_eqI)
qed simp

lemma hex_inject [simp]: "hex xs = hex ys \<longleftrightarrow> xs = ys"
proof (induction xs arbitrary: ys)
  case Nil
  then show ?case by (cases ys) auto
next
  case (Cons a xs)
  then show ?case
    by (cases ys)
      (auto simp: hex_digit_inject hex_high_less hex_low_less simp flip: nibbles_inject)
qed

lemma length_hex [simp]: "length (hex bs) = 2 * length bs"
  by (induction bs) auto

lemma hex_lower: "list_all is_lower_hex (hex bs)"
  by (induction bs) (auto simp: hex_digit_lower hex_high_less hex_low_less)

lemma wireops_hex_eq: "wireops_hex bs = hex bs"
  by (induction bs)
    (simp_all add: from_digit16_hex_digit hex_high_less hex_low_less flip: hex_high_def hex_low_def)

end
