(* ===== verification/FileStore.thy ===== *)
theory FileStore
  imports Samples Hex
begin

text \<open>
  The encrypted, file-backed store and its write-ahead journal
  (\<open>mycellium-storage/src/filestore.rs\<close>, and \<open>atomic_write\<close> of \<open>lib.rs\<close>).

  A store is a directory (file names to contents), its key, and a counter that numbers the
  calls into the operating system.  What the operating system does at each of them is the
  environment \<open>fs_env\<close>: the random bytes it returns, and whether a write fails before it took
  effect, fails after it (the rename happened, the directory sync did not), or succeeds.  A
  failed write ends the operation that issued it, so a process that dies between two writes
  is the same schedule with the fault at the next write.  \<open>atomic_write\<close> is one such call: the
  temporary file it renames has a name that is no entry of the store.

  The main results: the store abstracts to a map on which a batch is atomic under every fault
  schedule (\<open>fs_logical\<close>), recovery preserves that map and completes the batch, and both the
  store and its transactions satisfy the storage contract \<open>kv_store\<close>.
\<close>

datatype fault = NoFault | FaultBefore | FaultAfter

record fs_env =
  getrandom :: "nat \<Rightarrow> nat \<Rightarrow> bytes option"
  fault_at :: "nat \<Rightarrow> fault"
  unreadable :: "string \<Rightarrow> bool"

record file_store =
  fs_dir :: "string \<Rightarrow> bytes option"
  fs_key :: bytes
  fs_tick :: nat

definition JOURNAL_FILE :: string where
  "JOURNAL_FILE = ''.transaction-v1''"

definition JOURNAL_AAD :: bytes where
  "JOURNAL_AAD = str_bytes ''mycellium-storage-transaction-v1''"

section \<open>The file system calls\<close>

definition tick :: "file_store \<Rightarrow> file_store" where
  "tick st = st\<lparr>fs_tick := Suc (fs_tick st)\<rparr>"

definition fs_write :: "fs_env \<Rightarrow> file_store \<Rightarrow> (file_store \<Rightarrow> file_store) \<Rightarrow> (io_error + unit) \<times> file_store" where
  "fs_write E st effect = (case fault_at E (fs_tick st) of
      NoFault \<Rightarrow> (Ok (), tick (effect st))
    | FaultBefore \<Rightarrow> (Err (IoOther ''write failed''), tick st)
    | FaultAfter \<Rightarrow> (Err (IoOther ''sync failed''), tick (effect st)))"

definition atomic_write :: "fs_env \<Rightarrow> file_store \<Rightarrow> string \<Rightarrow> bytes \<Rightarrow> (io_error + unit) \<times> file_store" where
  "atomic_write E st path bs = fs_write E st (\<lambda>st. st\<lparr>fs_dir := (fs_dir st)(path \<mapsto> bs)\<rparr>)"

definition fs_read :: "fs_env \<Rightarrow> file_store \<Rightarrow> string \<Rightarrow> io_error + bytes" where
  "fs_read E st path = (if unreadable E path then Err (IoOther ''read failed'')
     else ok_or NotFound (fs_dir st path))"

section \<open>The store\<close>

definition fs_path :: "bytes \<Rightarrow> string" where
  "fs_path key = hex key"

definition ensure_ready :: "file_store \<Rightarrow> io_error + unit" where
  "ensure_ready st = (if fs_dir st JOURNAL_FILE \<noteq> None
     then Err (IoOther ''transaction recovery required; reopen the store'') else Ok ())"

definition fs_encrypt :: "crypto \<Rightarrow> fs_env \<Rightarrow> file_store \<Rightarrow> bytes \<Rightarrow> bytes \<Rightarrow> (io_error + bytes) \<times> file_store" where
  "fs_encrypt C E st aad value = (case getrandom E (fs_tick st) 12 of
      None \<Rightarrow> (Err (IoOther ''RNG failure''), tick st)
    | Some nonce \<Rightarrow> (Ok (nonce @ chacha_encrypt C (fs_key st) nonce value aad), tick st))"

definition fs_decrypt :: "crypto \<Rightarrow> bytes \<Rightarrow> bytes \<Rightarrow> bytes \<Rightarrow> io_error + bytes" where
  "fs_decrypt C key aad blob =
     (if length blob < 12 then Err (InvalidData ''corrupt store entry'')
      else ok_or (InvalidData ''decryption failed'')
             (chacha_decrypt C key (take 12 blob) (drop 12 blob) aad))"

definition put_raw :: "crypto \<Rightarrow> fs_env \<Rightarrow> file_store \<Rightarrow> bytes \<Rightarrow> bytes \<Rightarrow> (io_error + unit) \<times> file_store" where
  "put_raw C E st key value =
     tryS (fs_encrypt C E st key value) (\<lambda>blob st. atomic_write E st (fs_path key) blob)"

definition delete_raw :: "fs_env \<Rightarrow> file_store \<Rightarrow> bytes \<Rightarrow> (io_error + unit) \<times> file_store" where
  "delete_raw E st key =
     (if fs_dir st (fs_path key) = None then (Ok (), st)
      else fs_write E st (\<lambda>st. st\<lparr>fs_dir := (fs_dir st)(fs_path key := None)\<rparr>))"

definition fs_apply :: "crypto \<Rightarrow> fs_env \<Rightarrow> file_store \<Rightarrow> storage_mutation list \<Rightarrow> (io_error + unit) \<times> file_store" where
  "fs_apply C E st mutations = default_apply_batch (put_raw C E) (delete_raw E) st mutations"

definition finish_transaction :: "fs_env \<Rightarrow> file_store \<Rightarrow> (io_error + unit) \<times> file_store" where
  "finish_transaction E st =
     (if fs_dir st JOURNAL_FILE = None then (Ok (), st)
      else fs_write E st (\<lambda>st. st\<lparr>fs_dir := (fs_dir st)(JOURNAL_FILE := None)\<rparr>))"

definition recover_transaction ::
    "crypto \<Rightarrow> fs_env \<Rightarrow> storage_mutation list codec \<Rightarrow> file_store \<Rightarrow> (io_error + unit) \<times> file_store" where
  "recover_transaction C E M st = (case fs_read E st JOURNAL_FILE of
      Err NotFound \<Rightarrow> (Ok (), st)
    | Err err \<Rightarrow> (Err err, st)
    | Ok blob \<Rightarrow>
        tryE (fs_decrypt C (fs_key st) JOURNAL_AAD blob) st (\<lambda>plaintext.
        tryE (map_err (\<lambda>_. InvalidData ''corrupt transaction'') (wire_decode M plaintext)) st (\<lambda>mutations.
        tryS (fs_apply C E st mutations) (\<lambda>_ st.
        finish_transaction E st))))"

datatype try_lock = LockAcquired | LockWouldBlock | LockUnsupported | LockError io_error

text \<open>
  Opening returns the store, and the directory as the attempt left it: a recovery that fails
  half-way leaves its journal for the next attempt.
\<close>

definition fs_open ::
    "crypto \<Rightarrow> fs_env \<Rightarrow> storage_mutation list codec \<Rightarrow> try_lock \<Rightarrow> (string \<Rightarrow> bytes option) \<Rightarrow> bytes \<Rightarrow> nat \<Rightarrow>
     (io_error + file_store) \<times> (string \<Rightarrow> bytes option)" where
  "fs_open C E M lock dir key start =
     (let store = \<lparr>fs_dir = dir, fs_key = key, fs_tick = start\<rparr>;
          opened = (case recover_transaction C E M store of
              (Ok _, st) \<Rightarrow> (Ok st, fs_dir st)
            | (Err e, st) \<Rightarrow> (Err e, fs_dir st))
      in case lock of
          LockAcquired \<Rightarrow> opened
        | LockWouldBlock \<Rightarrow> (Err (WouldBlock ''this local store is already open in another app instance''), dir)
        | LockUnsupported \<Rightarrow> opened
        | LockError e \<Rightarrow> (Err e, dir))"

definition fs_get :: "crypto \<Rightarrow> fs_env \<Rightarrow> file_store \<Rightarrow> bytes \<Rightarrow> io_error + bytes option" where
  "fs_get C E st key =
     tryR (ensure_ready st) (\<lambda>_.
       case fs_read E st (fs_path key) of
         Err NotFound \<Rightarrow> Ok None
       | Err e \<Rightarrow> Err e
       | Ok blob \<Rightarrow> tryR (fs_decrypt C (fs_key st) key blob) (\<lambda>plaintext. Ok (Some plaintext)))"

definition fs_put :: "crypto \<Rightarrow> fs_env \<Rightarrow> file_store \<Rightarrow> bytes \<Rightarrow> bytes \<Rightarrow> (io_error + unit) \<times> file_store" where
  "fs_put C E st key value = tryE (ensure_ready st) st (\<lambda>_. put_raw C E st key value)"

definition fs_delete :: "fs_env \<Rightarrow> file_store \<Rightarrow> bytes \<Rightarrow> (io_error + unit) \<times> file_store" where
  "fs_delete E st key = tryE (ensure_ready st) st (\<lambda>_. delete_raw E st key)"

definition fs_apply_batch ::
    "crypto \<Rightarrow> fs_env \<Rightarrow> storage_mutation list codec \<Rightarrow> file_store \<Rightarrow> storage_mutation list \<Rightarrow>
     (io_error + unit) \<times> file_store" where
  "fs_apply_batch C E M st mutations =
     tryE (ensure_ready st) st (\<lambda>_.
     if mutations = [] then (Ok (), st)
     else tryS (fs_encrypt C E st JOURNAL_AAD (wire_encode M mutations)) (\<lambda>journal st.
          tryS (atomic_write E st JOURNAL_FILE journal) (\<lambda>_ st.
          tryS (fs_apply C E st mutations) (\<lambda>_ st.
          finish_transaction E st))))"

definition file_ops :: "crypto \<Rightarrow> fs_env \<Rightarrow> storage_mutation list codec \<Rightarrow> file_store storage" where
  "file_ops C E M = \<lparr>st_get = fs_get C E, st_put = fs_put C E, st_delete = fs_delete E,
     st_apply_batch = fs_apply_batch C E M\<rparr>"

section \<open>Transactions\<close>

text \<open>
  The overlay is a \<open>BTreeMap\<close>; its in-order traversal at commit is the list of staged keys,
  kept sorted by \<open>ins_key\<close>.
\<close>

record file_tx =
  tx_store :: file_store
  tx_keys :: "bytes list"
  tx_changes :: "bytes \<Rightarrow> bytes option option"

fun ins_key :: "bytes \<Rightarrow> bytes list \<Rightarrow> bytes list" where
  "ins_key k [] = [k]"
| "ins_key k (x # xs) = (if k = x then x # xs else if bytes_less k x then k # x # xs else x # ins_key k xs)"

definition fs_transaction :: "file_store \<Rightarrow> file_tx" where
  "fs_transaction st = \<lparr>tx_store = st, tx_keys = [], tx_changes = (\<lambda>_. None)\<rparr>"

definition tx_insert :: "file_tx \<Rightarrow> bytes \<Rightarrow> bytes option \<Rightarrow> file_tx" where
  "tx_insert tx key value =
     tx\<lparr>tx_keys := ins_key key (tx_keys tx), tx_changes := (tx_changes tx)(key \<mapsto> value)\<rparr>"

definition tx_get :: "crypto \<Rightarrow> fs_env \<Rightarrow> file_tx \<Rightarrow> bytes \<Rightarrow> io_error + bytes option" where
  "tx_get C E tx key = (case tx_changes tx key of
      Some value \<Rightarrow> Ok value
    | None \<Rightarrow> fs_get C E (tx_store tx) key)"

definition tx_put :: "file_tx \<Rightarrow> bytes \<Rightarrow> bytes \<Rightarrow> (io_error + unit) \<times> file_tx" where
  "tx_put tx key value = (Ok (), tx_insert tx key (Some value))"

definition tx_delete :: "file_tx \<Rightarrow> bytes \<Rightarrow> (io_error + unit) \<times> file_tx" where
  "tx_delete tx key = (Ok (), tx_insert tx key None)"

fun tx_stage :: "file_tx \<Rightarrow> storage_mutation list \<Rightarrow> file_tx" where
  "tx_stage tx [] = tx"
| "tx_stage tx (Put key value # ms) = tx_stage (tx_insert tx key (Some value)) ms"
| "tx_stage tx (Delete key # ms) = tx_stage (tx_insert tx key None) ms"

definition tx_apply_batch :: "file_tx \<Rightarrow> storage_mutation list \<Rightarrow> (io_error + unit) \<times> file_tx" where
  "tx_apply_batch tx mutations = (Ok (), tx_stage tx mutations)"

definition tx_ops :: "crypto \<Rightarrow> fs_env \<Rightarrow> file_tx storage" where
  "tx_ops C E = \<lparr>st_get = tx_get C E, st_put = tx_put, st_delete = tx_delete,
     st_apply_batch = tx_apply_batch\<rparr>"

definition tx_mutations :: "file_tx \<Rightarrow> storage_mutation list" where
  "tx_mutations tx = map (\<lambda>key. case tx_changes tx key of
      Some (Some value) \<Rightarrow> Put key value
    | _ \<Rightarrow> Delete key) (tx_keys tx)"

definition tx_commit ::
    "crypto \<Rightarrow> fs_env \<Rightarrow> storage_mutation list codec \<Rightarrow> file_tx \<Rightarrow> (io_error + unit) \<times> file_store" where
  "tx_commit C E M tx =
     (let st = tx_store tx; mutations = tx_mutations tx in
      tryE (ensure_ready st) st (\<lambda>_.
      if mutations = [] then (Ok (), st)
      else tryS (fs_encrypt C E st JOURNAL_AAD (wire_encode M mutations)) (\<lambda>journal st.
           tryS (atomic_write E st JOURNAL_FILE journal) (\<lambda>_ st.
           tryS (fs_apply C E st mutations) (\<lambda>_ st.
           finish_transaction E st)))))"

section \<open>What is stored\<close>

definition rng_ok :: "fs_env \<Rightarrow> bool" where
  "rng_ok E \<longleftrightarrow> (\<forall>t n bs. getrandom E t n = Some bs \<longrightarrow> length bs = n)"

text \<open>The entries on disk, and the map they stand for once a pending journal is replayed.\<close>

definition fs_view :: "crypto \<Rightarrow> file_store \<Rightarrow> bytes \<Rightarrow> io_error + bytes option" where
  "fs_view C st k = (case fs_dir st (fs_path k) of
      None \<Rightarrow> Ok None
    | Some blob \<Rightarrow> tryR (fs_decrypt C (fs_key st) k blob) (\<lambda>v. Ok (Some v)))"

definition journal_entry :: "crypto \<Rightarrow> storage_mutation list codec \<Rightarrow> bytes \<Rightarrow> bytes \<Rightarrow> storage_mutation list option" where
  "journal_entry C M key blob = (case fs_decrypt C key JOURNAL_AAD blob of
      Err _ \<Rightarrow> None
    | Ok plaintext \<Rightarrow> ok_opt (wire_decode M plaintext))"

definition fs_pending :: "crypto \<Rightarrow> storage_mutation list codec \<Rightarrow> file_store \<Rightarrow> storage_mutation list" where
  "fs_pending C M st = (case fs_dir st JOURNAL_FILE of
      None \<Rightarrow> []
    | Some blob \<Rightarrow> (case journal_entry C M (fs_key st) blob of None \<Rightarrow> [] | Some ms \<Rightarrow> ms))"

definition fs_logical :: "crypto \<Rightarrow> storage_mutation list codec \<Rightarrow> file_store \<Rightarrow> bytes \<Rightarrow> io_error + bytes option" where
  "fs_logical C M st = apply_mutations (fs_pending C M st) (fs_view C st)"

definition fs_inv :: "crypto \<Rightarrow> fs_env \<Rightarrow> storage_mutation list codec \<Rightarrow> file_store \<Rightarrow> bool" where
  "fs_inv C E M st \<longleftrightarrow> aead_ok C \<and> rng_ok E \<and> codec_ok M \<and> (\<forall>n. \<not> unreadable E n) \<and> fs_dir st JOURNAL_FILE = None"

lemma is_lower_hex_dot: "\<not> is_lower_hex (CHR ''.'')"
  by (simp add: is_lower_hex_def less_eq_char_def)

lemma journal_not_path [simp]: "fs_path k \<noteq> JOURNAL_FILE" "JOURNAL_FILE \<noteq> fs_path k"
proof -
  have "\<not> list_all is_lower_hex JOURNAL_FILE" by (simp add: JOURNAL_FILE_def is_lower_hex_dot)
  moreover have "list_all is_lower_hex (fs_path k)" by (simp add: fs_path_def hex_lower)
  ultimately show "fs_path k \<noteq> JOURNAL_FILE" "JOURNAL_FILE \<noteq> fs_path k" by metis+
qed

lemma fs_path_inject [simp]: "fs_path k = fs_path k' \<longleftrightarrow> k = k'"
  by (simp add: fs_path_def)

lemma tick_simps [simp]: "fs_dir (tick st) = fs_dir st" "fs_key (tick st) = fs_key st"
  by (simp_all add: tick_def)

lemma fs_view_cong: "fs_dir st' = fs_dir st \<Longrightarrow> fs_key st' = fs_key st \<Longrightarrow> fs_view C st' = fs_view C st"
  by (rule ext) (simp add: fs_view_def split: option.split)

lemma fs_view_journal [simp]:
  "fs_view C (st\<lparr>fs_dir := (fs_dir st)(JOURNAL_FILE := x)\<rparr>) = fs_view C st"
  by (rule ext) (simp add: fs_view_def split: option.split)

lemma fs_view_tick [simp]: "fs_view C (tick st) = fs_view C st"
  by (rule fs_view_cong) simp_all

lemma fs_get_view: "fs_inv C E M st \<Longrightarrow> fs_get C E st = fs_view C st"
  by (rule ext) (simp add: fs_get_def fs_view_def fs_inv_def ensure_ready_def fs_read_def split: option.split)

lemma fs_decrypt_encrypt:
  "aead_ok C \<Longrightarrow> length nonce = 12 \<Longrightarrow>
   fs_decrypt C key aad (nonce @ chacha_encrypt C key nonce v aad) = Ok v"
  by (simp add: fs_decrypt_def aead_okD)

section \<open>Every call changes the view by at most its own mutation\<close>

lemma fs_write_cases:
  assumes "fs_write E st effect = (r, st')"
  obtains "r = Ok ()" "st' = tick (effect st)"
  | e where "r = Err e" "st' = tick st"
  | e where "r = Err e" "st' = tick (effect st)"
  using assms by (auto simp: fs_write_def split: fault.splits)

lemma put_raw_view:
  assumes "aead_ok C" "rng_ok E" and run: "put_raw C E st k v = (r, st')"
  shows "fs_key st' = fs_key st" "fs_dir st' JOURNAL_FILE = fs_dir st JOURNAL_FILE"
    "fs_view C st' = fs_view C st \<or> fs_view C st' = (fs_view C st)(k := Ok (Some v))"
    "r = Ok () \<Longrightarrow> fs_view C st' = (fs_view C st)(k := Ok (Some v))"
proof -
  have "fs_key st' = fs_key st \<and> fs_dir st' JOURNAL_FILE = fs_dir st JOURNAL_FILE
     \<and> (fs_view C st' = fs_view C st \<or> fs_view C st' = (fs_view C st)(k := Ok (Some v)))
     \<and> (r = Ok () \<longrightarrow> fs_view C st' = (fs_view C st)(k := Ok (Some v)))"
  proof (cases "getrandom E (fs_tick st) 12")
    case None
    with run show ?thesis by (auto simp: put_raw_def fs_encrypt_def)
  next
    case (Some nonce)
    with assms(2) have len: "length nonce = 12" by (simp add: rng_ok_def)
    let ?blob = "nonce @ chacha_encrypt C (fs_key st) nonce v k"
    let ?eff = "\<lambda>st. st\<lparr>fs_dir := (fs_dir st)(fs_path k \<mapsto> ?blob)\<rparr>"
    have view: "fs_view C (?eff (tick st)) = (fs_view C st)(k := Ok (Some v))"
      by (rule ext) (simp add: fs_view_def fs_decrypt_encrypt [OF assms(1) len] split: option.split)
    from run Some have "fs_write E (tick st) ?eff = (r, st')"
      by (simp add: put_raw_def fs_encrypt_def atomic_write_def)
    then show ?thesis
      by (cases rule: fs_write_cases) (simp_all add: view [simplified])
  qed
  then show "fs_key st' = fs_key st" "fs_dir st' JOURNAL_FILE = fs_dir st JOURNAL_FILE"
    "fs_view C st' = fs_view C st \<or> fs_view C st' = (fs_view C st)(k := Ok (Some v))"
    "r = Ok () \<Longrightarrow> fs_view C st' = (fs_view C st)(k := Ok (Some v))"
    by blast+
qed

lemma delete_raw_view:
  fixes C :: crypto
  assumes run: "delete_raw E st k = (r, st')"
  shows "fs_key st' = fs_key st" "fs_dir st' JOURNAL_FILE = fs_dir st JOURNAL_FILE"
    "fs_view C st' = fs_view C st \<or> fs_view C st' = (fs_view C st)(k := Ok None)"
    "r = Ok () \<Longrightarrow> fs_view C st' = (fs_view C st)(k := Ok None)"
proof -
  let ?eff = "\<lambda>st. st\<lparr>fs_dir := (fs_dir st)(fs_path k := None)\<rparr>"
  have view: "fs_view C (?eff st) = (fs_view C st)(k := Ok None)"
    by (rule ext) (simp add: fs_view_def split: option.split)
  have "fs_key st' = fs_key st \<and> fs_dir st' JOURNAL_FILE = fs_dir st JOURNAL_FILE
     \<and> (fs_view C st' = fs_view C st \<or> fs_view C st' = (fs_view C st)(k := Ok None))
     \<and> (r = Ok () \<longrightarrow> fs_view C st' = (fs_view C st)(k := Ok None))"
  proof (cases "fs_dir st (fs_path k)")
    case None
    then have "fs_view C st k = Ok None" by (simp add: fs_view_def)
    then have "(fs_view C st)(k := Ok None) = fs_view C st" by (metis fun_upd_triv)
    with run None show ?thesis by (simp add: delete_raw_def)
  next
    case (Some b)
    with run have "fs_write E st ?eff = (r, st')" by (simp add: delete_raw_def)
    then show ?thesis by (cases rule: fs_write_cases) (simp_all add: view)
  qed
  then show "fs_key st' = fs_key st" "fs_dir st' JOURNAL_FILE = fs_dir st JOURNAL_FILE"
    "fs_view C st' = fs_view C st \<or> fs_view C st' = (fs_view C st)(k := Ok None)"
    "r = Ok () \<Longrightarrow> fs_view C st' = (fs_view C st)(k := Ok None)"
    by blast+
qed

definition fs_mutate :: "crypto \<Rightarrow> fs_env \<Rightarrow> file_store \<Rightarrow> storage_mutation \<Rightarrow> (io_error + unit) \<times> file_store" where
  "fs_mutate C E st m = (case m of Put k v \<Rightarrow> put_raw C E st k v | Delete k \<Rightarrow> delete_raw E st k)"

lemma fs_mutate_view:
  assumes "aead_ok C" "rng_ok E" and "fs_mutate C E st m = (r, st')"
  shows "fs_key st' = fs_key st" "fs_dir st' JOURNAL_FILE = fs_dir st JOURNAL_FILE"
    "fs_view C st' = fs_view C st \<or> fs_view C st' = apply_mutation m (fs_view C st)"
    "r = Ok () \<Longrightarrow> fs_view C st' = apply_mutation m (fs_view C st)"
proof -
  have "fs_key st' = fs_key st \<and> fs_dir st' JOURNAL_FILE = fs_dir st JOURNAL_FILE
     \<and> (fs_view C st' = fs_view C st \<or> fs_view C st' = apply_mutation m (fs_view C st))
     \<and> (r = Ok () \<longrightarrow> fs_view C st' = apply_mutation m (fs_view C st))"
  proof (cases m)
    case (Put k v)
    with assms(3) have "put_raw C E st k v = (r, st')" by (simp add: fs_mutate_def)
    from put_raw_view [OF assms(1,2) this] Put show ?thesis by simp
  next
    case (Delete k)
    with assms(3) have "delete_raw E st k = (r, st')" by (simp add: fs_mutate_def)
    from delete_raw_view(1,2) [OF this] delete_raw_view(3,4) [OF this, of C] Delete show ?thesis by simp
  qed
  then show "fs_key st' = fs_key st" "fs_dir st' JOURNAL_FILE = fs_dir st JOURNAL_FILE"
    "fs_view C st' = fs_view C st \<or> fs_view C st' = apply_mutation m (fs_view C st)"
    "r = Ok () \<Longrightarrow> fs_view C st' = apply_mutation m (fs_view C st)"
    by blast+
qed

lemma fs_apply_simps [simp]:
  "fs_apply C E st [] = (Ok (), st)"
  "fs_apply C E st (m # ms) = tryS (fs_mutate C E st m) (\<lambda>_ st. fs_apply C E st ms)"
  by (simp_all add: fs_apply_def fs_mutate_def)

lemma fs_apply_view:
  assumes "aead_ok C" "rng_ok E" and "fs_apply C E st ms = (r, st')"
  shows "fs_key st' = fs_key st \<and> fs_dir st' JOURNAL_FILE = fs_dir st JOURNAL_FILE \<and>
    (\<exists>n \<le> length ms. fs_view C st' = apply_mutations (take n ms) (fs_view C st) \<and> (r = Ok () \<longrightarrow> n = length ms))"
  using assms(3)
proof (induction ms arbitrary: st)
  case Nil
  then show ?case by simp
next
  case (Cons m ms)
  obtain r1 st1 where step: "fs_mutate C E st m = (r1, st1)" by fastforce
  note mv = fs_mutate_view [OF assms(1,2) step]
  show ?case
  proof (cases r1)
    case (Inl e)
    with Cons.prems step have "r = Err e" "st' = st1" by auto
    moreover from mv(3) have "fs_view C st1 = apply_mutations (take 0 (m # ms)) (fs_view C st)
        \<or> fs_view C st1 = apply_mutations (take (Suc 0) (m # ms)) (fs_view C st)" by simp
    then have "\<exists>n \<le> length (m # ms). fs_view C st1 = apply_mutations (take n (m # ms)) (fs_view C st)"
      by (metis Suc_le_mono length_Cons zero_le)
    ultimately show ?thesis using mv(1,2) by auto
  next
    case (Inr u)
    with Cons.prems step have "fs_apply C E st1 ms = (r, st')" by simp
    from Cons.IH [OF this] obtain n where "n \<le> length ms"
      "fs_view C st' = apply_mutations (take n ms) (fs_view C st1)" "r = Ok () \<longrightarrow> n = length ms"
      "fs_key st' = fs_key st1" "fs_dir st' JOURNAL_FILE = fs_dir st1 JOURNAL_FILE" by auto
    moreover from Inr mv(4) have "fs_view C st1 = apply_mutation m (fs_view C st)" by simp
    ultimately have "Suc n \<le> length (m # ms)" "fs_view C st' = apply_mutations (take (Suc n) (m # ms)) (fs_view C st)"
      "r = Ok () \<longrightarrow> Suc n = length (m # ms)" "fs_key st' = fs_key st" "fs_dir st' JOURNAL_FILE = fs_dir st JOURNAL_FILE"
      using mv by auto
    then show ?thesis by blast
  qed
qed

section \<open>Replaying a journal is idempotent\<close>

lemma apply_mutations_determined:
  "k \<in> mutation_key ` set ms \<Longrightarrow> apply_mutations ms view k = apply_mutations ms view' k"
proof (induction ms arbitrary: view view')
  case (Cons m ms)
  show ?case
  proof (cases "k \<in> mutation_key ` set ms")
    case True
    then show ?thesis using Cons.IH by simp
  next
    case False
    with Cons.prems have "k = mutation_key m" by auto
    with False show ?thesis by (cases m) (simp_all add: apply_mutations_other)
  qed
qed simp

lemma apply_mutations_replay:
  "apply_mutations ms (apply_mutations (take n ms) view) = apply_mutations ms view"
proof
  fix k
  show "apply_mutations ms (apply_mutations (take n ms) view) k = apply_mutations ms view k"
  proof (cases "k \<in> mutation_key ` set ms")
    case True
    then show ?thesis by (rule apply_mutations_determined)
  next
    case False
    then have "k \<notin> mutation_key ` set (take n ms)" by (meson image_mono set_take_subset subsetD)
    with False show ?thesis by (simp add: apply_mutations_other)
  qed
qed

section \<open>The journal makes a batch atomic\<close>

lemma finish_transaction_view:
  assumes "finish_transaction E st = (r, st')"
  shows "fs_key st' = fs_key st" "fs_view C st' = fs_view C st"
    "fs_dir st' JOURNAL_FILE = fs_dir st JOURNAL_FILE \<or> fs_dir st' JOURNAL_FILE = None"
    "r = Ok () \<Longrightarrow> fs_dir st' JOURNAL_FILE = None"
proof -
  have "fs_key st' = fs_key st \<and> fs_view C st' = fs_view C st
     \<and> (fs_dir st' JOURNAL_FILE = fs_dir st JOURNAL_FILE \<or> fs_dir st' JOURNAL_FILE = None)
     \<and> (r = Ok () \<longrightarrow> fs_dir st' JOURNAL_FILE = None)"
  proof (cases "fs_dir st JOURNAL_FILE")
    case None
    with assms show ?thesis by (simp add: finish_transaction_def)
  next
    case (Some b)
    with assms have "fs_write E st (\<lambda>st. st\<lparr>fs_dir := (fs_dir st)(JOURNAL_FILE := None)\<rparr>) = (r, st')"
      by (simp add: finish_transaction_def)
    then show ?thesis by (cases rule: fs_write_cases) simp_all
  qed
  then show "fs_key st' = fs_key st" "fs_view C st' = fs_view C st"
    "fs_dir st' JOURNAL_FILE = fs_dir st JOURNAL_FILE \<or> fs_dir st' JOURNAL_FILE = None"
    "r = Ok () \<Longrightarrow> fs_dir st' JOURNAL_FILE = None"
    by auto
qed

lemma fs_logical_cong:
  "fs_dir st' JOURNAL_FILE = fs_dir st JOURNAL_FILE \<Longrightarrow> fs_key st' = fs_key st \<Longrightarrow>
   fs_view C st' = fs_view C st \<Longrightarrow> fs_logical C M st' = fs_logical C M st"
  by (simp add: fs_logical_def fs_pending_def split: option.split)

lemma fs_logical_settled:
  "fs_dir st JOURNAL_FILE = None \<Longrightarrow> fs_logical C M st = fs_view C st"
  by (simp add: fs_logical_def fs_pending_def)

lemma fs_logical_journal:
  "fs_dir st JOURNAL_FILE = Some blob \<Longrightarrow> journal_entry C M (fs_key st) blob = Some ms \<Longrightarrow>
   fs_logical C M st = apply_mutations ms (fs_view C st)"
  by (simp add: fs_logical_def fs_pending_def)

lemma journal_replay:
  assumes "aead_ok C" "rng_ok E"
    and blob: "fs_dir st JOURNAL_FILE = Some blob" "journal_entry C M (fs_key st) blob = Some ms"
    and run: "tryS (fs_apply C E st ms) (\<lambda>_ st. finish_transaction E st) = (r, st')"
  shows "fs_logical C M st' = apply_mutations ms (fs_view C st)"
    and "r = Ok () \<Longrightarrow> fs_dir st' JOURNAL_FILE = None"
    and "fs_key st' = fs_key st"
proof -
  obtain r1 st1 where ap: "fs_apply C E st ms = (r1, st1)" by fastforce
  from fs_apply_view [OF assms(1,2) ap] obtain n where
    n: "fs_view C st1 = apply_mutations (take n ms) (fs_view C st)" "r1 = Ok () \<longrightarrow> n = length ms"
    and key: "fs_key st1 = fs_key st" and dir: "fs_dir st1 JOURNAL_FILE = fs_dir st JOURNAL_FILE" by auto
  have log1: "fs_logical C M st1 = apply_mutations ms (fs_view C st)"
    using blob by (simp add: fs_logical_journal [of _ blob] key dir n(1) apply_mutations_replay)
  have "fs_logical C M st' = apply_mutations ms (fs_view C st) \<and> (r = Ok () \<longrightarrow> fs_dir st' JOURNAL_FILE = None)
     \<and> fs_key st' = fs_key st"
  proof (cases r1)
    case (Inl e)
    with ap run log1 key show ?thesis by auto
  next
    case (Inr u)
    with ap run have fin: "finish_transaction E st1 = (r, st')" by simp
    note fv = finish_transaction_view [OF fin]
    from Inr n have view1: "fs_view C st1 = apply_mutations ms (fs_view C st)" by simp
    from fv(3) have "fs_logical C M st' = apply_mutations ms (fs_view C st)"
    proof
      assume "fs_dir st' JOURNAL_FILE = fs_dir st1 JOURNAL_FILE"
      then have "fs_logical C M st' = fs_logical C M st1"
        by (rule fs_logical_cong) (simp_all add: fv(1,2))
      with log1 show ?thesis by simp
    qed (simp add: fs_logical_settled fv(2) view1)
    with fv key show ?thesis by simp
  qed
  then show "fs_logical C M st' = apply_mutations ms (fs_view C st)"
    "r = Ok () \<Longrightarrow> fs_dir st' JOURNAL_FILE = None" "fs_key st' = fs_key st" by auto
qed

lemma journal_entry_encrypt:
  "aead_ok C \<Longrightarrow> codec_ok M \<Longrightarrow> length nonce = 12 \<Longrightarrow>
   journal_entry C M key (nonce @ chacha_encrypt C key nonce (wire_encode M ms) JOURNAL_AAD) = Some ms"
  by (simp add: journal_entry_def fs_decrypt_encrypt)

lemma fs_apply_batch_atomic:
  assumes "aead_ok C" "rng_ok E" "codec_ok M"
    and run: "fs_apply_batch C E M st ms = (r, st')"
  shows "fs_logical C M st' = fs_logical C M st
       \<or> fs_dir st JOURNAL_FILE = None \<and> fs_logical C M st' = apply_mutations ms (fs_logical C M st)"
    and "r = Ok () \<Longrightarrow> fs_dir st JOURNAL_FILE = None \<and> fs_dir st' JOURNAL_FILE = None
       \<and> fs_logical C M st' = apply_mutations ms (fs_logical C M st)"
    and "fs_key st' = fs_key st"
proof -
  have "(fs_logical C M st' = fs_logical C M st
       \<or> fs_dir st JOURNAL_FILE = None \<and> fs_logical C M st' = apply_mutations ms (fs_logical C M st))
    \<and> (r = Ok () \<longrightarrow> fs_dir st JOURNAL_FILE = None \<and> fs_dir st' JOURNAL_FILE = None
       \<and> fs_logical C M st' = apply_mutations ms (fs_logical C M st)) \<and> fs_key st' = fs_key st"
  proof (cases "fs_dir st JOURNAL_FILE \<noteq> None \<or> ms = [] \<or> getrandom E (fs_tick st) 12 = None")
    case True
    with run show ?thesis
      by (auto simp: fs_apply_batch_def ensure_ready_def fs_encrypt_def fs_logical_def fs_pending_def
        split: if_splits)
  next
    case False
    then obtain nonce where jn: "fs_dir st JOURNAL_FILE = None" and ne: "ms \<noteq> []"
      and g: "getrandom E (fs_tick st) 12 = Some nonce" by auto
    from g assms(2) have len: "length nonce = 12" by (simp add: rng_ok_def)
    let ?blob = "nonce @ chacha_encrypt C (fs_key st) nonce (wire_encode M ms) JOURNAL_AAD"
    let ?eff = "\<lambda>st. st\<lparr>fs_dir := (fs_dir st)(JOURNAL_FILE \<mapsto> ?blob)\<rparr>"
    note entry = journal_entry_encrypt [OF assms(1,3) len, of "fs_key st" ms]
    let ?st1 = "tick (?eff (tick st))"
    have log1: "fs_logical C M ?st1 = apply_mutations ms (fs_view C st)"
      by (subst fs_logical_journal [of _ ?blob _ _ ms]) (simp_all add: entry fs_view_journal [of C "tick st", simplified])
    obtain r1 st1 where wr: "fs_write E (tick st) ?eff = (r1, st1)" by fastforce
    from wr show ?thesis
    proof (cases rule: fs_write_cases)
      case 1
      with run jn ne g wr have "tryS (fs_apply C E ?st1 ms) (\<lambda>_ st. finish_transaction E st) = (r, st')"
        by (simp add: fs_apply_batch_def ensure_ready_def fs_encrypt_def atomic_write_def)
      from journal_replay [OF assms(1,2) _ _ this, of ?blob M] entry show ?thesis
        by (simp add: jn fs_logical_settled fs_view_journal [of C "tick st", simplified])
    next
      case (2 e)
      with run jn ne g wr have "r = Err e" "st' = st1"
        by (auto simp: fs_apply_batch_def ensure_ready_def fs_encrypt_def atomic_write_def)
      with 2 show ?thesis by (simp add: fs_logical_cong [of "tick (tick st)" st])
    next
      case (3 e)
      with run jn ne g wr have "r = Err e" "st' = ?st1"
        by (auto simp: fs_apply_batch_def ensure_ready_def fs_encrypt_def atomic_write_def)
      with log1 jn show ?thesis by (simp add: fs_logical_settled)
    qed
  qed
  then show "fs_logical C M st' = fs_logical C M st
       \<or> fs_dir st JOURNAL_FILE = None \<and> fs_logical C M st' = apply_mutations ms (fs_logical C M st)"
    "r = Ok () \<Longrightarrow> fs_dir st JOURNAL_FILE = None \<and> fs_dir st' JOURNAL_FILE = None
       \<and> fs_logical C M st' = apply_mutations ms (fs_logical C M st)" "fs_key st' = fs_key st"
    by auto
qed

lemma fs_put_atomic:
  assumes "aead_ok C" "rng_ok E" and run: "fs_put C E st k v = (r, st')"
  shows "fs_logical C M st' = fs_logical C M st
      \<or> fs_dir st JOURNAL_FILE = None \<and> fs_logical C M st' = apply_mutations [Put k v] (fs_logical C M st)"
    and "r = Ok () \<Longrightarrow> fs_dir st JOURNAL_FILE = None \<and> fs_dir st' JOURNAL_FILE = None
      \<and> fs_logical C M st' = apply_mutations [Put k v] (fs_logical C M st)"
    and "fs_key st' = fs_key st"
proof -
  have "(fs_logical C M st' = fs_logical C M st
      \<or> fs_dir st JOURNAL_FILE = None \<and> fs_logical C M st' = apply_mutations [Put k v] (fs_logical C M st))
    \<and> (r = Ok () \<longrightarrow> fs_dir st JOURNAL_FILE = None \<and> fs_dir st' JOURNAL_FILE = None
      \<and> fs_logical C M st' = apply_mutations [Put k v] (fs_logical C M st)) \<and> fs_key st' = fs_key st"
  proof (cases "fs_dir st JOURNAL_FILE")
    case None
    with run have "put_raw C E st k v = (r, st')" by (simp add: fs_put_def ensure_ready_def)
    from put_raw_view [OF assms(1,2) this] None show ?thesis by (simp add: fs_logical_settled)
  next
    case (Some b)
    with run show ?thesis by (auto simp: fs_put_def ensure_ready_def)
  qed
  then show "fs_logical C M st' = fs_logical C M st
      \<or> fs_dir st JOURNAL_FILE = None \<and> fs_logical C M st' = apply_mutations [Put k v] (fs_logical C M st)"
    "r = Ok () \<Longrightarrow> fs_dir st JOURNAL_FILE = None \<and> fs_dir st' JOURNAL_FILE = None
      \<and> fs_logical C M st' = apply_mutations [Put k v] (fs_logical C M st)" "fs_key st' = fs_key st"
    by auto
qed

lemma fs_delete_atomic:
  assumes run: "fs_delete E st k = (r, st')"
  shows "fs_logical C M st' = fs_logical C M st
      \<or> fs_dir st JOURNAL_FILE = None \<and> fs_logical C M st' = apply_mutations [Delete k] (fs_logical C M st)"
    and "r = Ok () \<Longrightarrow> fs_dir st JOURNAL_FILE = None \<and> fs_dir st' JOURNAL_FILE = None
      \<and> fs_logical C M st' = apply_mutations [Delete k] (fs_logical C M st)"
    and "fs_key st' = fs_key st"
proof -
  have "(fs_logical C M st' = fs_logical C M st
      \<or> fs_dir st JOURNAL_FILE = None \<and> fs_logical C M st' = apply_mutations [Delete k] (fs_logical C M st))
    \<and> (r = Ok () \<longrightarrow> fs_dir st JOURNAL_FILE = None \<and> fs_dir st' JOURNAL_FILE = None
      \<and> fs_logical C M st' = apply_mutations [Delete k] (fs_logical C M st)) \<and> fs_key st' = fs_key st"
  proof (cases "fs_dir st JOURNAL_FILE")
    case None
    with run have d: "delete_raw E st k = (r, st')" by (simp add: fs_delete_def ensure_ready_def)
    from delete_raw_view(1,2) [OF d] delete_raw_view(3,4) [OF d, of C] None show ?thesis
      by (simp add: fs_logical_settled)
  next
    case (Some b)
    with run show ?thesis by (auto simp: fs_delete_def ensure_ready_def)
  qed
  then show "fs_logical C M st' = fs_logical C M st
      \<or> fs_dir st JOURNAL_FILE = None \<and> fs_logical C M st' = apply_mutations [Delete k] (fs_logical C M st)"
    "r = Ok () \<Longrightarrow> fs_dir st JOURNAL_FILE = None \<and> fs_dir st' JOURNAL_FILE = None
      \<and> fs_logical C M st' = apply_mutations [Delete k] (fs_logical C M st)" "fs_key st' = fs_key st"
    by auto
qed

lemma recover_transaction_journal:
  assumes "recover_transaction C E M st = (r, st')"
  obtains "fs_dir st JOURNAL_FILE = None" "r = Ok ()" "st' = st"
  | e where "r = Err e" "st' = st"
  | blob ms where "fs_dir st JOURNAL_FILE = Some blob" "journal_entry C M (fs_key st) blob = Some ms"
      "tryS (fs_apply C E st ms) (\<lambda>_ st. finish_transaction E st) = (r, st')"
proof (cases "unreadable E JOURNAL_FILE \<or> fs_dir st JOURNAL_FILE = None")
  case True
  show thesis
  proof (cases "unreadable E JOURNAL_FILE")
    case True
    with assms have "r = Err (IoOther ''read failed'')" "st' = st"
      by (simp_all add: recover_transaction_def fs_read_def)
    then show thesis by (rule that(2))
  next
    case False
    with True have "fs_dir st JOURNAL_FILE = None" by simp
    moreover from this False assms have "r = Ok ()" "st' = st"
      by (simp_all add: recover_transaction_def fs_read_def)
    ultimately show thesis by (rule that(1))
  qed
next
  case False
  then obtain blob where ur: "\<not> unreadable E JOURNAL_FILE" and blob: "fs_dir st JOURNAL_FILE = Some blob" by auto
  show thesis
  proof (cases "fs_decrypt C (fs_key st) JOURNAL_AAD blob")
    case (Inl e)
    with ur blob assms have "r = Err e" "st' = st" by (simp_all add: recover_transaction_def fs_read_def)
    then show thesis by (rule that(2))
  next
    case (Inr pt)
    note step = ur blob Inr assms
    show thesis
    proof (cases "wire_decode M pt")
      case (Inl e)
      with step have "r = Err (InvalidData ''corrupt transaction'')" "st' = st"
        by (simp_all add: recover_transaction_def fs_read_def)
      then show thesis by (rule that(2))
    next
      case (Inr ms)
      with step have "journal_entry C M (fs_key st) blob = Some ms"
        "tryS (fs_apply C E st ms) (\<lambda>_ st. finish_transaction E st) = (r, st')"
        by (simp_all add: recover_transaction_def fs_read_def journal_entry_def)
      with blob show thesis by (rule that(3))
    qed
  qed
qed

lemma recover_transaction_logical:
  assumes "aead_ok C" "rng_ok E" and run: "recover_transaction C E M st = (r, st')"
  shows "fs_logical C M st' = fs_logical C M st" and "r = Ok () \<Longrightarrow> fs_dir st' JOURNAL_FILE = None"
    and "fs_key st' = fs_key st"
proof -
  from run have "fs_logical C M st' = fs_logical C M st \<and> (r = Ok () \<longrightarrow> fs_dir st' JOURNAL_FILE = None)
    \<and> fs_key st' = fs_key st"
  proof (cases rule: recover_transaction_journal)
    case (3 blob ms)
    from journal_replay [OF assms(1,2) 3] 3(1,2) show ?thesis
      by (simp add: fs_logical_journal)
  qed simp_all
  then show "fs_logical C M st' = fs_logical C M st" "r = Ok () \<Longrightarrow> fs_dir st' JOURNAL_FILE = None"
    "fs_key st' = fs_key st" by auto
qed

section \<open>The store contract\<close>

interpretation fs: kv_store "file_ops C E M" "fs_inv C E M" for C E M
proof
  fix st st' k v
  assume inv: "fs_inv C E M st" and run: "st_put (file_ops C E M) st k v = (Ok (), st')"
  then have ok: "aead_ok C" "rng_ok E" and "fs_put C E st k v = (Ok (), st')"
    by (simp_all add: fs_inv_def file_ops_def)
  from fs_put_atomic(2) [OF this, of M] inv have "fs_inv C E M st'" "fs_view C st' = (fs_view C st)(k := Ok (Some v))"
    by (auto simp: fs_inv_def fs_logical_settled)
  with inv show "fs_inv C E M st' \<and> st_get (file_ops C E M) st' = (st_get (file_ops C E M) st)(k := Ok (Some v))"
    by (simp add: file_ops_def fs_get_view)
next
  fix st st' k
  assume inv: "fs_inv C E M st" and run: "st_delete (file_ops C E M) st k = (Ok (), st')"
  then have "fs_delete E st k = (Ok (), st')" by (simp add: file_ops_def)
  from fs_delete_atomic(2) [OF this, of C M] inv have "fs_inv C E M st'" "fs_view C st' = (fs_view C st)(k := Ok None)"
    by (auto simp: fs_inv_def fs_logical_settled)
  with inv show "fs_inv C E M st' \<and> st_get (file_ops C E M) st' = (st_get (file_ops C E M) st)(k := Ok None)"
    by (simp add: file_ops_def fs_get_view)
next
  fix st st' ms
  assume inv: "fs_inv C E M st" and run: "st_apply_batch (file_ops C E M) st ms = (Ok (), st')"
  then have ok: "aead_ok C" "rng_ok E" "codec_ok M" and "fs_apply_batch C E M st ms = (Ok (), st')"
    by (simp_all add: fs_inv_def file_ops_def)
  from fs_apply_batch_atomic(2) [OF this] inv have "fs_inv C E M st'" "fs_view C st' = apply_mutations ms (fs_view C st)"
    by (auto simp: fs_inv_def fs_logical_settled)
  with inv show "fs_inv C E M st' \<and> st_get (file_ops C E M) st' = apply_mutations ms (st_get (file_ops C E M) st)"
    by (simp add: file_ops_def fs_get_view)
qed

section \<open>Transactions\<close>

definition tx_inv :: "crypto \<Rightarrow> fs_env \<Rightarrow> file_tx \<Rightarrow> bool" where
  "tx_inv C E tx \<longleftrightarrow> set (tx_keys tx) = dom (tx_changes tx)"

lemma set_ins_key [simp]: "set (ins_key k ks) = insert k (set ks)"
  by (induction ks) auto

lemma tx_insert_inv: "tx_inv C E tx \<Longrightarrow> tx_inv C E (tx_insert tx k v)"
  by (auto simp: tx_inv_def tx_insert_def)

lemma tx_insert_get: "tx_get C E (tx_insert tx k v) = (tx_get C E tx)(k := Ok v)"
  by (rule ext) (simp add: tx_get_def tx_insert_def split: option.split)

lemma tx_insert_store [simp]: "tx_store (tx_insert tx k v) = tx_store tx"
  by (simp add: tx_insert_def)

lemma tx_stage_spec:
  "tx_inv C E tx \<Longrightarrow> tx_inv C E (tx_stage tx ms) \<and> tx_get C E (tx_stage tx ms) = apply_mutations ms (tx_get C E tx)"
  by (induction tx ms rule: tx_stage.induct) (simp_all add: tx_insert_inv tx_insert_get)

interpretation tx: kv_store "tx_ops C E" "tx_inv C E" for C E
  by unfold_locales (auto simp: tx_ops_def tx_put_def tx_delete_def tx_apply_batch_def
    tx_insert_inv tx_insert_get tx_stage_spec)

lemma tx_commit_batch: "tx_commit C E M tx = fs_apply_batch C E M (tx_store tx) (tx_mutations tx)"
  by (simp add: tx_commit_def fs_apply_batch_def Let_def)

lemma apply_mutations_map:
  assumes "\<And>key. mutation_key (f key) = key"
  shows "apply_mutations (map f ks) view k = (if k \<in> set ks then apply_mutation (f k) view k else view k)"
proof (cases "k \<in> set ks")
  case True
  have last: "apply_mutation (f k) w k = apply_mutation (f k) view k" for w
    using assms [of k] by (cases "f k") auto
  from True have "apply_mutations (map f ks) view k = apply_mutation (f k) view k"
  proof (induction ks rule: rev_induct)
    case (snoc x xs)
    show ?case
    proof (cases "x = k")
      case True
      then show ?thesis using last by simp
    next
      case False
      with snoc show ?thesis by (simp add: apply_mutation_other assms)
    qed
  qed simp
  with True show ?thesis by simp
next
  case False
  then show ?thesis by (simp add: apply_mutations_other image_image assms)
qed

lemma tx_mutations_view:
  assumes "tx_inv C E tx" "fs_inv C E M (tx_store tx)"
  shows "apply_mutations (tx_mutations tx) (fs_view C (tx_store tx)) = tx_get C E tx"
proof
  fix k
  show "apply_mutations (tx_mutations tx) (fs_view C (tx_store tx)) k = tx_get C E tx k"
    unfolding tx_mutations_def using assms(1) fs_get_view [OF assms(2)]
    by (subst apply_mutations_map) (auto simp: tx_get_def tx_inv_def split: option.split)
qed

section \<open>Runs of the store under faults\<close>

text \<open>
  A run is any sequence of operations and reopenings, each under its own environment, so every
  operation may fail at any of its writes; the log records each operation's mutations and
  whether it was acknowledged.
\<close>

inductive fs_run :: "crypto \<Rightarrow> storage_mutation list codec \<Rightarrow> file_store \<Rightarrow> file_store \<Rightarrow>
    (bool \<times> storage_mutation list) list \<Rightarrow> bool" for C M st0 where
  run_start: "fs_run C M st0 st0 []"
| run_put: "fs_run C M st0 st log \<Longrightarrow> rng_ok E \<Longrightarrow> fs_put C E st k v = (r, st') \<Longrightarrow>
    fs_run C M st0 st' (log @ [(is_ok r, [Put k v])])"
| run_delete: "fs_run C M st0 st log \<Longrightarrow> fs_delete E st k = (r, st') \<Longrightarrow>
    fs_run C M st0 st' (log @ [(is_ok r, [Delete k])])"
| run_batch: "fs_run C M st0 st log \<Longrightarrow> rng_ok E \<Longrightarrow> fs_apply_batch C E M st ms = (r, st') \<Longrightarrow>
    fs_run C M st0 st' (log @ [(is_ok r, ms)])"
| run_reopen: "fs_run C M st0 st log \<Longrightarrow> rng_ok E \<Longrightarrow>
    fs_open C E M lock (fs_dir st) (fs_key st) (fs_tick st) = (r, dir) \<Longrightarrow>
    fs_run C M st0 (st\<lparr>fs_dir := dir\<rparr>) log"

definition kept :: "(bool \<times> storage_mutation list) list \<Rightarrow> bool list \<Rightarrow> storage_mutation list" where
  "kept log ks = concat (map (snd \<circ> fst) (filter snd (zip log ks)))"

definition honours :: "(bool \<times> storage_mutation list) list \<Rightarrow> bool list \<Rightarrow> bool" where
  "honours log ks \<longleftrightarrow> list_all2 (\<lambda>entry keep. fst entry \<longrightarrow> keep) log ks"

lemma honours_snoc [simp]: "honours log ks \<Longrightarrow> honours (log @ [e]) (ks @ [b]) \<longleftrightarrow> (fst e \<longrightarrow> b)"
  using list_all2_lengthD [of _ log ks] by (auto simp: honours_def list_all2_append)

lemma kept_snoc [simp]: "honours log ks \<Longrightarrow> kept (log @ [e]) (ks @ [b]) = kept log ks @ (if b then snd e else [])"
  by (auto simp: kept_def honours_def dest: list_all2_lengthD)

lemma logged_step:
  fixes new old start :: "bytes \<Rightarrow> io_error + bytes option"
  assumes "\<exists>ks. honours log ks \<and> old = apply_mutations (kept log ks) start"
    and "new = old \<or> new = apply_mutations ms old" "ack \<Longrightarrow> new = apply_mutations ms old"
  shows "\<exists>ks. honours (log @ [(ack, ms)]) ks \<and> new = apply_mutations (kept (log @ [(ack, ms)]) ks) start"
proof -
  from assms(1) obtain ks where ks: "honours log ks" "old = apply_mutations (kept log ks) start" by blast
  show ?thesis
  proof (cases "new = apply_mutations ms old")
    case True
    with ks show ?thesis by (intro exI [of _ "ks @ [True]"]) simp
  next
    case False
    with ks assms(2,3) show ?thesis by (intro exI [of _ "ks @ [False]"]) auto
  qed
qed

lemma fs_open_logical:
  assumes "aead_ok C" "rng_ok E" and "fs_open C E M lock (fs_dir st) (fs_key st) t = (r, dir)"
  shows "fs_logical C M (st\<lparr>fs_dir := dir\<rparr>) = fs_logical C M st"
    and "r = Ok st' \<Longrightarrow> fs_dir st' JOURNAL_FILE = None \<and> fs_logical C M st' = fs_logical C M st"
proof -
  let ?st = "\<lparr>fs_dir = fs_dir st, fs_key = fs_key st, fs_tick = t\<rparr>"
  have same: "fs_logical C M s = fs_logical C M s'" if "fs_dir s = fs_dir s'" "fs_key s = fs_key s'" for s s'
    using that fs_view_cong [of s s'] by (intro fs_logical_cong) simp_all
  obtain q st1 where rec: "recover_transaction C E M ?st = (q, st1)" by fastforce
  note rl = recover_transaction_logical [OF assms(1,2) rec]
  have st1: "fs_logical C M st1 = fs_logical C M st" using rl(1) same [of ?st st] by simp
  have "dir = fs_dir st \<or> dir = fs_dir st1" and "r = Ok st' \<Longrightarrow> st' = st1 \<and> q = Ok ()"
    using assms(3) rec by (auto simp: fs_open_def Let_def split: try_lock.splits sum.splits)
  then show "fs_logical C M (st\<lparr>fs_dir := dir\<rparr>) = fs_logical C M st"
    and "r = Ok st' \<Longrightarrow> fs_dir st' JOURNAL_FILE = None \<and> fs_logical C M st' = fs_logical C M st"
    using st1 rl same [of "st\<lparr>fs_dir := dir\<rparr>" st] same [of "st\<lparr>fs_dir := dir\<rparr>" st1] by auto
qed

lemma fs_run_logical:
  assumes "fs_run C M st0 st log" "aead_ok C" "codec_ok M"
  shows "\<exists>ks. honours log ks \<and> fs_logical C M st = apply_mutations (kept log ks) (fs_logical C M st0)"
  using assms
proof induction
  case run_start
  then show ?case by (intro exI [of _ "[]"]) (simp add: honours_def kept_def)
next
  case (run_put st log E k v r st')
  from fs_put_atomic(1,2) [OF run_put.prems(1) run_put.hyps(2,3), of M] run_put.IH [OF run_put.prems] show ?case
    by (intro logged_step) (auto simp: is_ok_iff)
next
  case (run_delete st log E k r st')
  from fs_delete_atomic(1,2) [OF run_delete.hyps(2), of C M] run_delete.IH [OF run_delete.prems] show ?case
    by (intro logged_step) (auto simp: is_ok_iff)
next
  case (run_batch st log E ms r st')
  from fs_apply_batch_atomic [OF run_batch.prems(1) run_batch.hyps(2) run_batch.prems(2) run_batch.hyps(3)]
    run_batch.IH [OF run_batch.prems] show ?case
    by (intro logged_step) (auto simp: is_ok_iff)
next
  case (run_reopen st log E lock r dir)
  from fs_open_logical(1) [OF run_reopen.prems(1) run_reopen.hyps(2,3)] run_reopen.IH [OF run_reopen.prems]
  show ?case by simp
qed

lemma fs_run_open_reads:
  assumes "aead_ok C" "codec_ok M" "fs_run C M st0 st log" "rng_ok E" "\<forall>n. \<not> unreadable E n"
    and "fs_open C E M lock (fs_dir st) (fs_key st) t = (Ok st', dir)"
  shows "\<exists>ks. honours log ks \<and> fs_get C E st' = apply_mutations (kept log ks) (fs_logical C M st0)"
proof -
  from fs_open_logical(2) [OF assms(1,4,6)] have
    j: "fs_dir st' JOURNAL_FILE = None" and log: "fs_logical C M st' = fs_logical C M st" by auto
  with assms have "fs_get C E st' = fs_logical C M st'"
    by (simp add: fs_get_view [of C E M] fs_inv_def fs_logical_settled)
  with log fs_run_logical [OF assms(3,1,2)] show ?thesis by simp
qed

definition no_faults :: "fs_env \<Rightarrow> bool" where
  "no_faults E \<longleftrightarrow> (\<forall>t. fault_at E t = NoFault) \<and> (\<forall>n. \<not> unreadable E n) \<and>
     (\<forall>t n. \<exists>bs. getrandom E t n = Some bs \<and> length bs = n)"

lemma fs_apply_no_faults:
  assumes "no_faults E"
  shows "fst (fs_apply C E st ms) = Ok ()"
proof (induction ms arbitrary: st)
  case (Cons m ms)
  have "\<exists>st'. fs_mutate C E st m = (Ok (), st')"
  proof (cases m)
    case (Put k v)
    from assms obtain nonce where "getrandom E (fs_tick st) 12 = Some nonce" unfolding no_faults_def by blast
    with assms Put show ?thesis
      by (simp add: fs_mutate_def put_raw_def fs_encrypt_def atomic_write_def fs_write_def no_faults_def)
  next
    case (Delete k)
    with assms show ?thesis by (simp add: fs_mutate_def delete_raw_def fs_write_def no_faults_def)
  qed
  then obtain st' where "fs_mutate C E st m = (Ok (), st')" by blast
  with Cons.IH [of st'] show ?case by simp
qed simp

lemma recover_transaction_completes:
  assumes "no_faults E"
    and "\<And>blob. fs_dir st JOURNAL_FILE = Some blob \<Longrightarrow> journal_entry C M (fs_key st) blob \<noteq> None"
  shows "fst (recover_transaction C E M st) = Ok ()"
proof (cases "fs_dir st JOURNAL_FILE")
  case None
  with assms(1) show ?thesis by (simp add: recover_transaction_def fs_read_def no_faults_def)
next
  case (Some blob)
  with assms(2) obtain pt ms where "fs_decrypt C (fs_key st) JOURNAL_AAD blob = Ok pt" "wire_decode M pt = Ok ms"
    by (fastforce simp: journal_entry_def split: sum.splits)
  moreover from fs_apply_no_faults [OF assms(1), of C st ms] obtain st1 where "fs_apply C E st ms = (Ok (), st1)"
    by (cases "fs_apply C E st ms") auto
  ultimately show ?thesis using Some assms(1)
    by (simp add: recover_transaction_def fs_read_def finish_transaction_def fs_write_def no_faults_def)
qed

definition sample_env :: "(nat \<Rightarrow> fault) \<Rightarrow> fs_env" where
  "sample_env f = \<lparr>getrandom = (\<lambda>t n. Some (replicate n (of_nat t))), fault_at = f, unreadable = (\<lambda>_. False)\<rparr>"

definition sample_store :: file_store where
  "sample_store = \<lparr>fs_dir = (\<lambda>_. None), fs_key = [7], fs_tick = 0\<rparr>"

definition sample_batch :: "storage_mutation list codec" where
  "sample_batch = sample_codec (s_list s_mutation)"

lemma sample_env_ok [sample_ok]: "rng_ok (sample_env f)" "no_faults (sample_env (\<lambda>_. NoFault))"
  "\<not> unreadable (sample_env f) n"
  by (simp_all add: rng_ok_def no_faults_def sample_env_def)

lemma sample_batch_ok [sample_ok]: "codec_ok sample_batch"
  by (simp add: sample_batch_def sample_ok)

lemma sample_fs_inv [sample_ok]: "fs_inv sample_crypto (sample_env f) sample_batch sample_store"
  by (simp add: fs_inv_def sample_ok sample_store_def)

section \<open>Properties\<close>

text \<open>
  C1: the encrypted store is crash-safe.  Take any sequence of puts, deletes, batches and
  reopenings, each hit by an arbitrary fault at any of its writes.  Once the store opens
  again, what it reads is the starting contents changed by some of the operations in their
  order, each of them entirely or not at all, among them every operation that was acknowledged.
\<close>

theorem fs_run_durable:
  assumes "aead_ok C" "codec_ok M" "fs_run C M st0 st log" "rng_ok E" "\<forall>n. \<not> unreadable E n"
    and "fs_open C E M lock (fs_dir st) (fs_key st) t = (Ok st', dir)"
  shows "\<exists>ks. honours log ks \<and> fs_get C E st' = apply_mutations (kept log ks) (fs_logical C M st0)"
  using assms by (rule fs_run_open_reads)

definition crash_env :: fs_env where
  "crash_env = sample_env (\<lambda>t. if t = 1 then FaultAfter else NoFault)"

definition crashed_store :: file_store where
  "crashed_store = snd (fs_apply_batch sample_crypto crash_env sample_batch sample_store [Put [1] [2]])"

lemma crashed_store_eq:
  "fs_apply_batch sample_crypto crash_env sample_batch sample_store [Put [1] [2]] = (Err (IoOther ''sync failed''), crashed_store)"
  by (simp add: crashed_store_def fs_apply_batch_def ensure_ready_def fs_encrypt_def atomic_write_def fs_write_def
    crash_env_def sample_env_def sample_store_def tick_def)

lemma crashed_store_journal:
  "fs_dir crashed_store JOURNAL_FILE = Some (replicate 12 0 @
     chacha_encrypt sample_crypto [7] (replicate 12 0) (wire_encode sample_batch [Put [1] [2]]) JOURNAL_AAD)"
  "fs_key crashed_store = [7]"
  by (simp_all add: crashed_store_def fs_apply_batch_def ensure_ready_def fs_encrypt_def atomic_write_def fs_write_def
    crash_env_def sample_env_def sample_store_def tick_def)

lemma crashed_store_run: "fs_run sample_crypto sample_batch sample_store crashed_store [(False, [Put [1] [2]])]"
  using run_batch [OF run_start _ crashed_store_eq] by (simp add: crash_env_def sample_ok)

theorem fs_run_durable_witness:
  "\<exists>st' dir ks. fs_open sample_crypto (sample_env (\<lambda>_. NoFault)) sample_batch LockAcquired
      (fs_dir crashed_store) (fs_key crashed_store) 9 = (Ok st', dir) \<and>
    honours [(False, [Put [1] [2]])] ks \<and>
    fs_get sample_crypto (sample_env (\<lambda>_. NoFault)) st' =
      apply_mutations (kept [(False, [Put [1] [2]])] ks) (fs_logical sample_crypto sample_batch sample_store)"
proof -
  let ?E = "sample_env (\<lambda>_. NoFault)"
  let ?st = "\<lparr>fs_dir = fs_dir crashed_store, fs_key = fs_key crashed_store, fs_tick = 9\<rparr>"
  have "fst (recover_transaction sample_crypto ?E sample_batch ?st) = Ok ()"
    using crashed_store_journal
    by (intro recover_transaction_completes)
      (auto simp: sample_ok journal_entry_encrypt)
  then obtain st' where op: "fs_open sample_crypto ?E sample_batch LockAcquired (fs_dir crashed_store) (fs_key crashed_store) 9
      = (Ok st', fs_dir st')"
    by (cases "recover_transaction sample_crypto ?E sample_batch ?st") (auto simp: fs_open_def)
  from fs_run_durable [OF _ _ crashed_store_run _ _ op] op show ?thesis by (auto simp: sample_ok)
qed

text \<open>
  C2: recovery terminates with a usable store.  If the journal on disk is one that
  \<open>apply_batch\<close> wrote (or there is none), an open with working disk and random source succeeds,
  removes the journal and leaves exactly the contents the journal promised.
\<close>

theorem fs_open_recovers:
  assumes "aead_ok C" "codec_ok M" "no_faults E"
    and "\<forall>blob. fs_dir st JOURNAL_FILE = Some blob \<longrightarrow> journal_entry C M (fs_key st) blob \<noteq> None"
  shows "\<exists>st'. fs_open C E M LockAcquired (fs_dir st) (fs_key st) t = (Ok st', fs_dir st')
     \<and> fs_dir st' JOURNAL_FILE = None \<and> fs_get C E st' = fs_logical C M st"
proof -
  let ?st = "\<lparr>fs_dir = fs_dir st, fs_key = fs_key st, fs_tick = t\<rparr>"
  from assms(4) recover_transaction_completes [OF assms(3), of ?st C M]
  obtain st' where "recover_transaction C E M ?st = (Ok (), st')"
    by (cases "recover_transaction C E M ?st") auto
  then have op: "fs_open C E M LockAcquired (fs_dir st) (fs_key st) t = (Ok st', fs_dir st')"
    by (simp add: fs_open_def)
  from assms(3) have rng: "rng_ok E" and rd: "\<forall>n. \<not> unreadable E n"
    unfolding rng_ok_def no_faults_def by (metis option.inject)+
  from fs_open_logical(2) [OF assms(1) rng op, of st'] have "fs_dir st' JOURNAL_FILE = None"
    "fs_logical C M st' = fs_logical C M st" by auto
  with op assms rng rd show ?thesis
    by (auto simp: fs_get_view [of C E M] fs_inv_def fs_logical_settled)
qed

theorem fs_open_recovers_witness:
  "\<exists>st'. fs_open sample_crypto (sample_env (\<lambda>_. NoFault)) sample_batch LockAcquired
        (fs_dir crashed_store) (fs_key crashed_store) 0 = (Ok st', fs_dir st')
     \<and> fs_dir st' JOURNAL_FILE = None
     \<and> fs_get sample_crypto (sample_env (\<lambda>_. NoFault)) st' = fs_logical sample_crypto sample_batch crashed_store"
  using fs_open_recovers [of sample_crypto sample_batch "sample_env (\<lambda>_. NoFault)" crashed_store 0]
  by (simp add: sample_ok crashed_store_journal journal_entry_encrypt)

text \<open>
  C3: a transaction reads its own writes and commits all of them or none.  Whatever faults hit
  the commit, the durable contents are those before the transaction or those the transaction
  reads; an acknowledged commit leaves no journal and the store then reads what the
  transaction read.
\<close>

theorem tx_commit_all_or_nothing:
  assumes "fs_inv C E0 M (tx_store tx)" "tx_inv C E0 tx" "rng_ok E"
    and "tx_commit C E M tx = (r, st')"
  shows "(fs_logical C M st' = fs_get C E0 (tx_store tx) \<or> fs_logical C M st' = tx_get C E0 tx)
     \<and> (r = Ok () \<longrightarrow> fs_dir st' JOURNAL_FILE = None \<and> fs_get C E0 st' = tx_get C E0 tx)"
proof -
  from assms(1) have ok: "aead_ok C" "codec_ok M" and log: "fs_logical C M (tx_store tx) = fs_get C E0 (tx_store tx)"
    by (simp_all add: fs_inv_def fs_logical_settled fs_get_view [OF assms(1)])
  from assms(4) have run: "fs_apply_batch C E M (tx_store tx) (tx_mutations tx) = (r, st')"
    by (simp add: tx_commit_batch)
  note at = fs_apply_batch_atomic(1,2) [OF ok(1) assms(3) ok(2) run]
  have new: "apply_mutations (tx_mutations tx) (fs_logical C M (tx_store tx)) = tx_get C E0 tx"
    using tx_mutations_view [OF assms(2,1)] by (simp add: log fs_get_view [OF assms(1)])
  have "fs_get C E0 st' = fs_logical C M st'" if "fs_dir st' JOURNAL_FILE = None"
    using that assms(1) by (simp add: fs_get_view [of C E0 M] fs_inv_def fs_logical_settled)
  with at new log show ?thesis by auto
qed

definition sample_tx :: file_tx where
  "sample_tx = tx_insert (tx_insert (fs_transaction sample_store) [1] (Some [2])) [3] None"

theorem tx_commit_all_or_nothing_witness:
  "\<exists>st'. tx_commit sample_crypto (sample_env (\<lambda>_. NoFault)) sample_batch sample_tx = (Ok (), st')
     \<and> fs_dir st' JOURNAL_FILE = None
     \<and> fs_get sample_crypto (sample_env (\<lambda>_. NoFault)) st' = tx_get sample_crypto (sample_env (\<lambda>_. NoFault)) sample_tx"
proof -
  let ?E = "sample_env (\<lambda>_. NoFault)"
  have st: "tx_store sample_tx = sample_store" by (simp add: sample_tx_def fs_transaction_def)
  have inv: "tx_inv sample_crypto ?E sample_tx"
    by (auto simp: tx_inv_def sample_tx_def tx_insert_def fs_transaction_def)
  obtain st' where run: "tx_commit sample_crypto ?E sample_batch sample_tx = (Ok (), st')"
    by (simp add: tx_commit_def tx_mutations_def sample_tx_def tx_insert_def fs_transaction_def sample_store_def Let_def
      ensure_ready_def fs_encrypt_def atomic_write_def fs_write_def sample_env_def tick_def fs_mutate_def put_raw_def
      delete_raw_def finish_transaction_def)
  from tx_commit_all_or_nothing [OF _ inv _ run] run show ?thesis by (simp add: st sample_ok)
qed

end
