(* ===== verification/Ident.thy ===== *)
theory Ident
  imports Samples Hex
begin

text \<open>
  Handles, user ids, and the local secret identity
  (\<open>mycellium-core/src/identity.rs\<close>, \<open>userid.rs\<close>).

  Public keys, addresses and signatures are the byte arrays the source wraps.  A handle and a
  user id are strings; \<open>handle_new\<close> and \<open>user_id_new\<close> are the only ways to make one.  The
  identity keeps the account secret and the device seed with the keys derived from them.
\<close>

type_synonym wallet_public_key = bytes
type_synonym device_public_key = bytes
type_synonym messaging_public_key = bytes
type_synonym signature = bytes
type_synonym handle = string
type_synonym user_id = string

section \<open>Handles and user ids\<close>

definition HANDLE_MAX_LEN :: nat where
  "HANDLE_MAX_LEN = 32"

definition is_ascii_lowercase :: "char \<Rightarrow> bool" where
  "is_ascii_lowercase b = (CHR ''a'' \<le> b \<and> b \<le> CHR ''z'')"

definition is_ascii_digit :: "char \<Rightarrow> bool" where
  "is_ascii_digit b = (CHR ''0'' \<le> b \<and> b \<le> CHR ''9'')"

definition handle_new :: "string \<Rightarrow> error + handle" where
  "handle_new s =
     (if s = [] \<or> length s > HANDLE_MAX_LEN then Err InvalidHandle
      else if \<not> list_all (\<lambda>b. is_ascii_lowercase b \<or> is_ascii_digit b \<or> b = CHR ''_'') s
      then Err InvalidHandle
      else Ok s)"

definition USER_ID_LEN :: nat where
  "USER_ID_LEN = 64"

definition user_id_new :: "string \<Rightarrow> error + user_id" where
  "user_id_new value =
     (if length value \<noteq> USER_ID_LEN \<or> \<not> list_all is_lower_hex value then Err Malformed else Ok value)"

definition user_id_from_wallet :: "crypto \<Rightarrow> wallet_public_key \<Rightarrow> user_id" where
  "user_id_from_wallet C wallet = hex (sha256 C (str_bytes ''mycellium-user-id-v1:'' @ wallet))"

section \<open>Public keys\<close>

definition wallet_verify :: "crypto \<Rightarrow> wallet_public_key \<Rightarrow> bytes \<Rightarrow> signature \<Rightarrow> error + unit" where
  "wallet_verify C vk msg sig =
     (if \<not> k256_public_ok C vk then Err Malformed
      else if \<not> k256_signature_ok C sig then Err BadSignature
      else if k256_verify C vk msg sig then Ok () else Err BadSignature)"

definition device_verify :: "crypto \<Rightarrow> device_public_key \<Rightarrow> bytes \<Rightarrow> signature \<Rightarrow> error + unit" where
  "device_verify C key msg sig =
     (if \<not> ed_public_ok C key then Err Malformed
      else if length sig \<noteq> 64 then Err BadSignature
      else if ed_verify C key msg sig then Ok () else Err BadSignature)"

definition device_peer_id :: "device_public_key \<Rightarrow> bytes" where
  "device_peer_id key = [0x00, 0x24, 0x08, 0x01, 0x12, 0x20] @ key"

definition reticulum_address :: "crypto \<Rightarrow> bytes \<Rightarrow> bytes \<Rightarrow> bytes" where
  "reticulum_address C encryption_key signing_key =
     (let identity_hash = sha256 C (encryption_key @ signing_key);
          identity_address = take 16 identity_hash;
          name_hash = sha256 C (str_bytes ''mycellium'' @ str_bytes ''.'' @ str_bytes ''delivery'');
          address = sha256 C (take 10 name_hash @ identity_address)
      in take 16 address)"

record reticulum_public_identity =
  encryption_key :: bytes
  signing_key :: bytes
  address :: bytes

definition derived_address :: "crypto \<Rightarrow> reticulum_public_identity \<Rightarrow> bytes" where
  "derived_address C r = reticulum_address C (encryption_key r) (signing_key r)"

definition reticulum_verify :: "crypto \<Rightarrow> reticulum_public_identity \<Rightarrow> bool" where
  "reticulum_verify C r \<longleftrightarrow> address r = derived_address C r"

section \<open>The local identity\<close>

definition derive_key :: "crypto \<Rightarrow> bytes \<Rightarrow> string \<Rightarrow> bytes" where
  "derive_key C ikm info = hkdf_sha512 C ikm (str_bytes info) 32"

record identity =
  wallet_secret :: bytes
  device_seed :: bytes
  wallet_key :: bytes
  device_secret :: bytes
  messaging_secret :: bytes
  signed_pre_key_secret :: bytes

definition identity_build :: "crypto \<Rightarrow> bytes \<Rightarrow> bytes \<Rightarrow> error + identity" where
  "identity_build C ws seed =
     (if \<not> k256_secret_ok C ws then Err Malformed
      else Ok \<lparr>wallet_secret = ws, device_seed = seed, wallet_key = ws,
        device_secret = derive_key C seed ''mycellium:device:ed25519:v1'',
        messaging_secret = derive_key C seed ''mycellium:messaging:x25519:v1'',
        signed_pre_key_secret = derive_key C seed ''mycellium:spk:x25519:v1:0''\<rparr>)"

text \<open>The rejection-sampling loop; \<open>None\<close> is a loop that never ends.\<close>

partial_function (option) draw_wallet_secret :: "crypto \<Rightarrow> platform \<Rightarrow> (bytes \<times> platform) option" where
  "draw_wallet_secret C p =
     (let (ws, p) = fill_random p 32 in
      if k256_secret_ok C ws then Some (ws, p) else draw_wallet_secret C p)"

definition identity_generate :: "crypto \<Rightarrow> platform \<Rightarrow> ((error + identity) \<times> platform) option" where
  "identity_generate C p = (case draw_wallet_secret C p of
      None \<Rightarrow> None
    | Some (ws, p) \<Rightarrow>
        (let (seed, p) = fill_random p 32 in Some (identity_build C ws seed, p)))"

definition identity_adopt :: "crypto \<Rightarrow> platform \<Rightarrow> bytes \<Rightarrow> (error + identity) \<times> platform" where
  "identity_adopt C p ws =
     (let (seed, p) = fill_random p 32 in (identity_build C ws seed, p))"

definition from_wallet_secret :: "crypto \<Rightarrow> bytes \<Rightarrow> bytes \<Rightarrow> error + identity" where
  "from_wallet_secret C ws seed = identity_build C ws seed"

definition wallet_public :: "crypto \<Rightarrow> identity \<Rightarrow> wallet_public_key" where
  "wallet_public C i = k256_public C (wallet_key i)"

definition device_public :: "crypto \<Rightarrow> identity \<Rightarrow> device_public_key" where
  "device_public C i = ed_public C (device_secret i)"

definition storage_key :: "crypto \<Rightarrow> identity \<Rightarrow> bytes" where
  "storage_key C i = hkdf_sha512 C (device_secret i) (str_bytes ''mycellium:local-storage:v1'') 32"

definition reticulum_private_bytes :: "crypto \<Rightarrow> identity \<Rightarrow> bytes" where
  "reticulum_private_bytes C i =
     derive_key C (device_seed i) ''mycellium:reticulum:x25519:v1'' @
     derive_key C (device_seed i) ''mycellium:reticulum:ed25519:v1''"

definition reticulum_public :: "crypto \<Rightarrow> identity \<Rightarrow> reticulum_public_identity" where
  "reticulum_public C i =
     (let private = reticulum_private_bytes C i;
          enc_key = x25519_public C (take 32 private);
          sig_key = ed_public C (drop 32 private)
      in \<lparr>encryption_key = enc_key, signing_key = sig_key,
          address = reticulum_address C enc_key sig_key\<rparr>)"

definition messaging_public :: "crypto \<Rightarrow> identity \<Rightarrow> messaging_public_key" where
  "messaging_public C i = x25519_public C (messaging_secret i)"

definition signed_pre_key_public :: "crypto \<Rightarrow> identity \<Rightarrow> messaging_public_key" where
  "signed_pre_key_public C i = x25519_public C (signed_pre_key_secret i)"

definition dh_identity :: "crypto \<Rightarrow> identity \<Rightarrow> messaging_public_key \<Rightarrow> bytes" where
  "dh_identity C i peer = x25519_dh C (messaging_secret i) peer"

definition dh_signed_pre_key :: "crypto \<Rightarrow> identity \<Rightarrow> messaging_public_key \<Rightarrow> bytes" where
  "dh_signed_pre_key C i peer = x25519_dh C (signed_pre_key_secret i) peer"

definition identity_peer_id :: "crypto \<Rightarrow> identity \<Rightarrow> bytes" where
  "identity_peer_id C i = device_peer_id (device_public C i)"

definition identity_sign :: "crypto \<Rightarrow> identity \<Rightarrow> bytes \<Rightarrow> signature" where
  "identity_sign C i msg = k256_sign C (wallet_key i) msg"

definition sign_device :: "crypto \<Rightarrow> identity \<Rightarrow> bytes \<Rightarrow> signature" where
  "sign_device C i msg = ed_sign C (device_secret i) msg"

section \<open>Facts\<close>

lemma handle_new_Ok:
  "handle_new s = Ok h \<longleftrightarrow> h = s \<and> 0 < length s \<and> length s \<le> 32 \<and>
     list_all (\<lambda>b. is_ascii_lowercase b \<or> is_ascii_digit b \<or> b = CHR ''_'') s"
  by (auto simp: handle_new_def HANDLE_MAX_LEN_def)

lemma user_id_from_wallet_valid:
  "sha256_len C \<Longrightarrow> user_id_new (user_id_from_wallet C w) = Ok (user_id_from_wallet C w)"
  by (simp add: user_id_new_def user_id_from_wallet_def USER_ID_LEN_def sha256_len_def hex_lower)

lemma wallet_verify_Ok: "wallet_verify C vk m sig = Ok u \<longleftrightarrow>
    k256_public_ok C vk \<and> k256_signature_ok C sig \<and> k256_verify C vk m sig"
  by (auto simp: wallet_verify_def)

lemma device_verify_Ok: "device_verify C key m sig = Ok u \<longleftrightarrow>
    ed_public_ok C key \<and> length sig = 64 \<and> ed_verify C key m sig"
  by (auto simp: device_verify_def)

lemma identity_build_Ok:
  "identity_build C ws seed = Ok i \<Longrightarrow> k256_secret_ok C (wallet_key i) \<and> wallet_secret i = ws \<and> device_seed i = seed"
  by (auto simp: identity_build_def split: if_splits)

text \<open>The identities the program can hold: those \<open>build\<close> returns.\<close>

definition identity_ok :: "crypto \<Rightarrow> identity \<Rightarrow> bool" where
  "identity_ok C i \<longleftrightarrow> identity_build C (wallet_secret i) (device_seed i) = Ok i"

lemma identity_build_identity_ok: "identity_build C ws seed = Ok i \<Longrightarrow> identity_ok C i"
  by (auto simp: identity_ok_def identity_build_def split: if_splits)

lemma identity_ok_key: "identity_ok C i \<Longrightarrow> k256_secret_ok C (wallet_key i)"
  unfolding identity_ok_def by (drule identity_build_Ok) simp

lemma identity_sign_verifies:
  "k256_ok C \<Longrightarrow> identity_ok C i \<Longrightarrow> wallet_verify C (wallet_public C i) m (identity_sign C i m) = Ok ()"
  by (simp add: wallet_verify_Ok wallet_public_def identity_sign_def identity_ok_key k256_okD)

lemma sign_device_verifies:
  "ed_ok C \<Longrightarrow> device_verify C (device_public C i) m (sign_device C i m) = Ok ()"
  by (simp add: device_verify_Ok device_public_def sign_device_def ed_okD)

lemma reticulum_public_verifies: "reticulum_verify C (reticulum_public C i)"
  by (simp add: reticulum_verify_def derived_address_def reticulum_public_def Let_def)

lemma draw_wallet_secret_returns:
  assumes "k256_secret_ok C (entropy p (draws p + n) 32)"
  shows "\<exists>ws p'. draw_wallet_secret C p = Some (ws, p') \<and> k256_secret_ok C ws"
  using assms
proof (induction n arbitrary: p)
  case 0
  then show ?case by (subst draw_wallet_secret.simps) (simp add: fill_random_def)
next
  case (Suc n)
  show ?case
  proof (cases "k256_secret_ok C (entropy p (draws p) 32)")
    case True
    then show ?thesis by (subst draw_wallet_secret.simps) (simp add: fill_random_def)
  next
    case False
    from Suc.prems Suc.IH [of "p\<lparr>draws := Suc (draws p)\<rparr>"] False show ?thesis
      by (subst draw_wallet_secret.simps) (simp add: fill_random_def)
  qed
qed

lemma identity_generate_returns:
  assumes "k256_secret_ok C (entropy p (draws p + n) 32)"
  shows "\<exists>i p'. identity_generate C p = Some (Ok i, p') \<and> identity_ok C i"
proof -
  from draw_wallet_secret_returns [OF assms] obtain ws p' where
    "draw_wallet_secret C p = Some (ws, p')" and ws: "k256_secret_ok C ws" by blast
  moreover from ws have "\<exists>i. identity_build C ws seed = Ok i" for seed by (simp add: identity_build_def)
  ultimately show ?thesis
    using identity_build_identity_ok by (fastforce simp: identity_generate_def fill_random_def)
qed

definition sample_identity :: "byte \<Rightarrow> identity" where
  "sample_identity b = \<lparr>wallet_secret = replicate 32 b, device_seed = [b], wallet_key = replicate 32 b,
     device_secret = derive_key sample_crypto [b] ''mycellium:device:ed25519:v1'',
     messaging_secret = derive_key sample_crypto [b] ''mycellium:messaging:x25519:v1'',
     signed_pre_key_secret = derive_key sample_crypto [b] ''mycellium:spk:x25519:v1:0''\<rparr>"

lemma sample_identity_ok [sample_ok]: "identity_ok sample_crypto (sample_identity b)"
  by (simp add: identity_ok_def sample_identity_def identity_build_def) (simp add: sample_crypto_def)

section \<open>Properties\<close>

text \<open>
  C4: account creation ends and yields a working identity.  As soon as the random source
  produces one valid secp256k1 scalar, the rejection loop stops; the identity it builds signs
  with keys that verify under its own public keys, carries a Reticulum destination that
  matches its keys, and is rebuilt identically from its persisted secret and seed.
\<close>

theorem identity_generate_correct:
  assumes "k256_ok C" "ed_ok C" "k256_secret_ok C (entropy p (draws p + n) 32)"
  shows "\<exists>i p'. identity_generate C p = Some (Ok i, p')
     \<and> from_wallet_secret C (wallet_secret i) (device_seed i) = Ok i
     \<and> (\<forall>m. wallet_verify C (wallet_public C i) m (identity_sign C i m) = Ok ())
     \<and> (\<forall>m. device_verify C (device_public C i) m (sign_device C i m) = Ok ())
     \<and> reticulum_verify C (reticulum_public C i)"
proof -
  from identity_generate_returns [OF assms(3)] obtain i p' where
    gen: "identity_generate C p = Some (Ok i, p')" and ok: "identity_ok C i" by blast
  from ok have "from_wallet_secret C (wallet_secret i) (device_seed i) = Ok i"
    by (simp add: from_wallet_secret_def identity_ok_def)
  with gen identity_sign_verifies [OF assms(1) ok] sign_device_verifies [OF assms(2)]
    reticulum_public_verifies show ?thesis by blast
qed

theorem identity_generate_correct_witness:
  "\<exists>i p'. identity_generate sample_crypto sample_platform = Some (Ok i, p')
     \<and> from_wallet_secret sample_crypto (wallet_secret i) (device_seed i) = Ok i
     \<and> (\<forall>m. wallet_verify sample_crypto (wallet_public sample_crypto i) m (identity_sign sample_crypto i m) = Ok ())
     \<and> (\<forall>m. device_verify sample_crypto (device_public sample_crypto i) m (sign_device sample_crypto i m) = Ok ())
     \<and> reticulum_verify sample_crypto (reticulum_public sample_crypto i)"
  using identity_generate_correct [of sample_crypto sample_platform 2]
  by (simp add: sample_ok) (simp add: sample_crypto_def sample_platform_def)

end
