(* ===== verification/Safety.thy ===== *)
theory Safety
  imports Ident
begin

text \<open>
  Safety numbers (\<open>mycellium-core/src/safety.rs\<close>): the short code two peers read to each
  other.  The loops over the digest and over the digits are the source's, on words of the
  source's widths; the results are that both peers compute the same code and that it always
  has six groups of five digits.
\<close>

unbundle bit_operations_syntax

definition GROUPS :: nat where
  "GROUPS = 6"

text \<open>The five slots are filled from the last to the first.\<close>

fun push_digits :: "nat \<Rightarrow> u32 \<Rightarrow> string" where
  "push_digits 0 value = []"
| "push_digits (Suc slots) value = push_digits slots (value div 10) @ [digit_char (unat (value mod 10))]"

definition push_5 :: "string \<Rightarrow> u32 \<Rightarrow> string" where
  "push_5 out value = out @ push_digits 5 value"

fun chunk_value :: "bytes \<Rightarrow> u64 \<Rightarrow> u64" where
  "chunk_value [] value = value"
| "chunk_value (byte # bs) value = chunk_value bs (push_bit 8 value OR ucast byte)"

fun safety_groups :: "bytes \<Rightarrow> nat list \<Rightarrow> string \<Rightarrow> string" where
  "safety_groups digest [] out = out"
| "safety_groups digest (i # is) out =
     (let chunk = take 5 (drop (i * 5) digest);
          value = chunk_value chunk 0;
          out = (if i > 0 then out @ '' '' else out)
      in safety_groups digest is (push_5 out (ucast (value mod 100000))))"

definition safety_number :: "crypto \<Rightarrow> wallet_public_key \<Rightarrow> wallet_public_key \<Rightarrow> string" where
  "safety_number C a b =
     (let (lo, hi) = (if a = b \<or> bytes_less a b then (a, b) else (b, a));
          digest = sha512 C (str_bytes ''mycellium-safety-number-v1'' @ lo @ hi)
      in safety_groups digest [0 ..< GROUPS] '''')"

section \<open>The shape of a safety number\<close>

definition is_digit :: "char \<Rightarrow> bool" where
  "is_digit c \<longleftrightarrow> c \<in> set ''0123456789''"

lemma digit_char_is_digit:
  assumes "n < 10"
  shows "is_digit (digit_char n)"
proof -
  from assms from_digit16_hex_digit [of n] have "digit_char n = hex_digit n"
    by (simp add: from_digit16_def digit_char_def)
  moreover from assms have "n \<in> {0,1,2,3,4,5,6,7,8,9}" using less_16_cases [of n] by auto
  ultimately show ?thesis by (auto simp: is_digit_def hex_digit_def)
qed

lemma length_push_digits [simp]: "length (push_digits n v) = n"
  by (induction n arbitrary: v) auto

lemma push_digits_digits: "list_all is_digit (push_digits n v)"
proof (induction n arbitrary: v)
  case (Suc n)
  have "unat (v mod 10) < 10" by (simp add: unat_mod)
  with Suc show ?case by (simp add: digit_char_is_digit)
qed simp

definition join_groups :: "string list \<Rightarrow> string" where
  "join_groups gs = concat (map (\<lambda>(i, g). (if i > 0 then '' '' else '''') @ g) (enumerate 0 gs))"

lemma safety_groups_join:
  "safety_groups digest [m ..< n] out =
     out @ concat (map (\<lambda>i. (if i > 0 then '' '' else '''') @
       push_digits 5 (ucast (chunk_value (take 5 (drop (i * 5) digest)) 0 mod 100000))) [m ..< n])"
proof (induction "n - m" arbitrary: m out)
  case (Suc k)
  then have "m < n" by simp
  with Suc show ?case by (simp add: upt_conv_Cons Let_def push_5_def)
qed simp

lemma safety_number_join:
  "\<exists>gs. length gs = 6 \<and> list_all (\<lambda>g. length g = 5 \<and> list_all is_digit g) gs \<and> safety_number C a b = join_groups gs"
proof -
  define digest where "digest = sha512 C (str_bytes ''mycellium-safety-number-v1'' @
      fst (if a = b \<or> bytes_less a b then (a, b) else (b, a)) @ snd (if a = b \<or> bytes_less a b then (a, b) else (b, a)))"
  define g where "g i = push_digits 5 (ucast (chunk_value (take 5 (drop (i * 5) digest)) 0 mod 100000))" for i
  have "safety_number C a b = join_groups (map g [0 ..< 6])"
    by (simp add: safety_number_def GROUPS_def Let_def split_def safety_groups_join join_groups_def g_def digest_def
      enumerate_eq_zip zip_map2 comp_def)
       (simp add: upt_rec numeral_eq_Suc)
  moreover have "list_all (\<lambda>g. length g = 5 \<and> list_all is_digit g) (map g [0 ..< 6])"
    by (simp add: list_all_iff g_def push_digits_digits [unfolded list_all_iff])
  ultimately show ?thesis by (intro exI [of _ "map g [0 ..< 6]"]) simp
qed

section \<open>Properties\<close>

text \<open>
  C5: both peers read the same safety number whoever computes it, and it always consists of six
  groups of exactly five decimal digits separated by single spaces.
\<close>

theorem safety_number_symmetric_shape:
  "safety_number C a b = safety_number C b a \<and>
   (\<exists>gs. length gs = 6 \<and> list_all (\<lambda>g. length g = 5 \<and> list_all is_digit g) gs \<and>
      safety_number C a b = join_groups gs)"
  using safety_number_join [of C a b] bytes_less_linear [of a b] bytes_less_asym [of a b]
  by (auto simp: safety_number_def)

end
