(* ===== verification/Records.thy ===== *)
theory Records
  imports Ident
begin

text \<open>
  Self-certifying identity and device records (\<open>mycellium-core/src/record.rs\<close>).

  The structs are records with the source's fields.  The canonical encodings that are signed
  are three codecs, one per signed claim type.  The results: what an identity signs verifies,
  a transport refresh keeps the wallet-authorized part and still verifies, verification binds
  every claim to the wallet, and two different signed statements never share their bytes.
\<close>

record signed_pre_key =
  pk_public :: messaging_public_key
  pk_signature :: signature

record device_record =
  dr_device_key :: device_public_key
  dr_id_key :: messaging_public_key
  dr_signed_pre_key :: signed_pre_key
  dr_seq :: u64

record signed_device_record =
  sd_record :: device_record
  sd_signature :: signature

record reachability_record =
  rr_device_key :: device_public_key
  rr_reticulum :: reticulum_public_identity
  rr_seq :: u64

record signed_reachability_record =
  sr_record :: reachability_record
  sr_signature :: signature

record device =
  dev_signed :: signed_device_record
  dev_reachability :: signed_reachability_record

record peer_record =
  rec_user_id :: user_id
  rec_handle :: handle
  rec_name :: string
  rec_wallet :: wallet_public_key
  rec_device :: device
  rec_seq :: u64

record signed_record =
  s_record :: peer_record
  s_signature :: signature

text \<open>The \<open>IdentityClaim\<close> of \<open>signing_bytes\<close>, field by field.\<close>

type_synonym identity_claim = "user_id \<times> handle \<times> string \<times> wallet_public_key \<times> device_public_key \<times> u64"

record claim_codecs =
  c_identity_claim :: "identity_claim codec"
  c_device_claim :: "(wallet_public_key \<times> device_record) codec"
  c_reachability :: "reachability_record codec"

definition claim_codecs_ok :: "claim_codecs \<Rightarrow> bool" where
  "claim_codecs_ok K \<longleftrightarrow> codec_ok (c_identity_claim K) \<and> codec_ok (c_device_claim K) \<and> codec_ok (c_reachability K)"

definition MAX_NAME_LEN :: nat where
  "MAX_NAME_LEN = 128"

definition RECORD_DOMAIN :: bytes where
  "RECORD_DOMAIN = str_bytes (''mycellium-identity-record-v5'' @ [CHR 0x00])"

definition DEVICE_DOMAIN :: bytes where
  "DEVICE_DOMAIN = str_bytes (''mycellium-device-record-v1'' @ [CHR 0x00])"

definition REACHABILITY_DOMAIN :: bytes where
  "REACHABILITY_DOMAIN = str_bytes (''mycellium-reachability-record-v2'' @ [CHR 0x00])"

definition PREKEY_DOMAIN :: bytes where
  "PREKEY_DOMAIN = str_bytes (''mycellium-prekey-v1'' @ [CHR 0x00])"

definition prekey_signing_bytes :: "messaging_public_key \<Rightarrow> bytes" where
  "prekey_signing_bytes public = PREKEY_DOMAIN @ public"

definition device_signing_bytes :: "claim_codecs \<Rightarrow> wallet_public_key \<Rightarrow> device_record \<Rightarrow> bytes" where
  "device_signing_bytes K wallet r = DEVICE_DOMAIN @ canonical (c_device_claim K) (wallet, r)"

definition reachability_signing_bytes :: "claim_codecs \<Rightarrow> reachability_record \<Rightarrow> bytes" where
  "reachability_signing_bytes K r = REACHABILITY_DOMAIN @ canonical (c_reachability K) r"

definition signed_pre_key_create :: "crypto \<Rightarrow> messaging_public_key \<Rightarrow> identity \<Rightarrow> signed_pre_key" where
  "signed_pre_key_create C public owner =
     \<lparr>pk_public = public, pk_signature = identity_sign C owner (prekey_signing_bytes public)\<rparr>"

text \<open>The \<open>Deref\<close> of a device: its wallet-authorized record.\<close>

definition device_key :: "device \<Rightarrow> device_public_key" where
  "device_key d = dr_device_key (sd_record (dev_signed d))"

definition device_create :: "crypto \<Rightarrow> claim_codecs \<Rightarrow> identity \<Rightarrow> u64 \<Rightarrow> device" where
  "device_create C K owner seq =
     (let r = \<lparr>dr_device_key = device_public C owner, dr_id_key = messaging_public C owner,
            dr_signed_pre_key = signed_pre_key_create C (signed_pre_key_public C owner) owner, dr_seq = seq\<rparr>;
          signed = \<lparr>sd_record = r,
            sd_signature = identity_sign C owner (device_signing_bytes K (wallet_public C owner) r)\<rparr>;
          rr = \<lparr>rr_device_key = device_public C owner, rr_reticulum = reticulum_public C owner, rr_seq = seq\<rparr>;
          reachability = \<lparr>sr_record = rr, sr_signature = sign_device C owner (reachability_signing_bytes K rr)\<rparr>
      in \<lparr>dev_signed = signed, dev_reachability = reachability\<rparr>)"

definition device_reticulum :: "device \<Rightarrow> reticulum_public_identity" where
  "device_reticulum d = rr_reticulum (sr_record (dev_reachability d))"

definition refresh_reticulum :: "crypto \<Rightarrow> claim_codecs \<Rightarrow> device \<Rightarrow> identity \<Rightarrow> u64 \<Rightarrow> error + device" where
  "refresh_reticulum C K d owner seq =
     (if device_public C owner \<noteq> device_key d \<or> seq \<le> rr_seq (sr_record (dev_reachability d))
      then Err Malformed
      else let r = \<lparr>rr_device_key = device_key d, rr_reticulum = reticulum_public C owner, rr_seq = seq\<rparr>
           in Ok \<lparr>dev_signed = dev_signed d,
                dev_reachability = \<lparr>sr_record = r, sr_signature = sign_device C owner (reachability_signing_bytes K r)\<rparr>\<rparr>)"

definition device_freshness :: "device \<Rightarrow> u64" where
  "device_freshness d = max (dr_seq (sd_record (dev_signed d))) (rr_seq (sr_record (dev_reachability d)))"

definition record_primary :: "peer_record \<Rightarrow> device" where
  "record_primary r = rec_device r"

definition record_device :: "peer_record \<Rightarrow> device_public_key \<Rightarrow> device option" where
  "record_device r key = (if device_key (rec_device r) = key then Some (rec_device r) else None)"

definition record_signing_bytes :: "claim_codecs \<Rightarrow> peer_record \<Rightarrow> bytes" where
  "record_signing_bytes K r = RECORD_DOMAIN @ canonical (c_identity_claim K)
     (rec_user_id r, rec_handle r, rec_name r, rec_wallet r, device_key (rec_device r), rec_seq r)"

definition signed_record_sign :: "crypto \<Rightarrow> claim_codecs \<Rightarrow> peer_record \<Rightarrow> identity \<Rightarrow> signed_record" where
  "signed_record_sign C K r owner = \<lparr>s_record = r, s_signature = identity_sign C owner (record_signing_bytes K r)\<rparr>"

definition signed_record_verify :: "crypto \<Rightarrow> claim_codecs \<Rightarrow> signed_record \<Rightarrow> error + unit" where
  "signed_record_verify C K sr =
     (let r = s_record sr; wallet = rec_wallet r; device = rec_device r in
      tryR (wallet_verify C wallet (record_signing_bytes K r) (s_signature sr)) (\<lambda>_.
      if rec_user_id r \<noteq> user_id_from_wallet C wallet then Err Malformed
      else if length (rec_name r) > MAX_NAME_LEN then Err Malformed
      else if rr_device_key (sr_record (dev_reachability device)) \<noteq> device_key device
        \<or> \<not> reticulum_verify C (device_reticulum device) then Err Malformed
      else
        tryR (wallet_verify C wallet (device_signing_bytes K wallet (sd_record (dev_signed device)))
               (sd_signature (dev_signed device))) (\<lambda>_.
        tryR (wallet_verify C wallet
               (prekey_signing_bytes (pk_public (dr_signed_pre_key (sd_record (dev_signed device)))))
               (pk_signature (dr_signed_pre_key (sd_record (dev_signed device))))) (\<lambda>_.
        tryR (device_verify C (device_key device)
               (reachability_signing_bytes K (sr_record (dev_reachability device)))
               (sr_signature (dev_reachability device))) (\<lambda>_. Ok ())))))"

definition record_freshness :: "signed_record \<Rightarrow> u64 \<times> u64 \<times> u64" where
  "record_freshness sr =
     (let stable = dr_seq (sd_record (dev_signed (rec_device (s_record sr))));
          reachability = rr_seq (sr_record (dev_reachability (rec_device (s_record sr))))
      in (rec_seq (s_record sr), stable, reachability))"

text \<open>The derived order of the freshness triple.\<close>

definition freshness_less :: "u64 \<times> u64 \<times> u64 \<Rightarrow> u64 \<times> u64 \<times> u64 \<Rightarrow> bool" where
  "freshness_less x y = (case (x, y) of ((a, b, c), (a', b', c')) \<Rightarrow>
     a < a' \<or> a = a' \<and> (b < b' \<or> b = b' \<and> c < c'))"

text \<open>The four kinds of statement a wallet or a device signs, with their signed bytes and contents.\<close>

datatype statement =
    IdentityStatement peer_record
  | DeviceStatement wallet_public_key device_record
  | ReachabilityStatement reachability_record
  | PreKeyStatement messaging_public_key

fun statement_bytes :: "claim_codecs \<Rightarrow> statement \<Rightarrow> bytes" where
  "statement_bytes K (IdentityStatement r) = record_signing_bytes K r"
| "statement_bytes K (DeviceStatement w r) = device_signing_bytes K w r"
| "statement_bytes K (ReachabilityStatement r) = reachability_signing_bytes K r"
| "statement_bytes K (PreKeyStatement p) = prekey_signing_bytes p"

fun statement_claim :: "statement \<Rightarrow> identity_claim option \<times> (wallet_public_key \<times> device_record) option
    \<times> reachability_record option \<times> messaging_public_key option" where
  "statement_claim (IdentityStatement r) =
     (Some (rec_user_id r, rec_handle r, rec_name r, rec_wallet r, device_key (rec_device r), rec_seq r), None, None, None)"
| "statement_claim (DeviceStatement w r) = (None, Some (w, r), None, None)"
| "statement_claim (ReachabilityStatement r) = (None, None, Some r, None)"
| "statement_claim (PreKeyStatement p) = (None, None, None, Some p)"

section \<open>Facts\<close>

lemma signed_record_verify_Ok:
  "signed_record_verify C K sr = Ok u \<longleftrightarrow>
    (let r = s_record sr; wallet = rec_wallet r; d = rec_device r in
     wallet_verify C wallet (record_signing_bytes K r) (s_signature sr) = Ok ()
     \<and> rec_user_id r = user_id_from_wallet C wallet \<and> length (rec_name r) \<le> MAX_NAME_LEN
     \<and> rr_device_key (sr_record (dev_reachability d)) = device_key d \<and> reticulum_verify C (device_reticulum d)
     \<and> wallet_verify C wallet (device_signing_bytes K wallet (sd_record (dev_signed d))) (sd_signature (dev_signed d)) = Ok ()
     \<and> wallet_verify C wallet (prekey_signing_bytes (pk_public (dr_signed_pre_key (sd_record (dev_signed d)))))
          (pk_signature (dr_signed_pre_key (sd_record (dev_signed d)))) = Ok ()
     \<and> device_verify C (device_key d) (reachability_signing_bytes K (sr_record (dev_reachability d)))
          (sr_signature (dev_reachability d)) = Ok ())"
  by (auto simp: signed_record_verify_def Let_def result_elims)

lemma freshness_less_trans: "freshness_less x y \<Longrightarrow> freshness_less y z \<Longrightarrow> freshness_less x z"
  by (auto simp: freshness_less_def split: prod.splits)

lemma freshness_less_irrefl [simp]: "\<not> freshness_less x x"
  by (auto simp: freshness_less_def split: prod.splits)

lemma freshness_less_linear: "freshness_less x y \<or> x = y \<or> freshness_less y x"
  by (auto simp: freshness_less_def split: prod.splits)

text \<open>The records an owner can publish: its own wallet and id, a device it created.\<close>

definition own_record :: "crypto \<Rightarrow> identity \<Rightarrow> peer_record \<Rightarrow> bool" where
  "own_record C owner r \<longleftrightarrow> rec_wallet r = wallet_public C owner
     \<and> rec_user_id r = user_id_from_wallet C (wallet_public C owner) \<and> length (rec_name r) \<le> MAX_NAME_LEN"

lemma device_create_simps [simp]:
  "device_key (device_create C K owner seq) = device_public C owner"
  "rr_device_key (sr_record (dev_reachability (device_create C K owner seq))) = device_public C owner"
  "rr_seq (sr_record (dev_reachability (device_create C K owner seq))) = seq"
  "dr_seq (sd_record (dev_signed (device_create C K owner seq))) = seq"
  by (simp_all add: device_create_def device_key_def Let_def)

lemma signed_record_sign_verifies:
  assumes "k256_ok C" "ed_ok C" "identity_ok C owner" "own_record C owner r" "rec_device r = device_create C K owner seq"
  shows "signed_record_verify C K (signed_record_sign C K r owner) = Ok ()"
  using assms unfolding signed_record_verify_Ok
  by (simp add: Let_def signed_record_sign_def own_record_def identity_sign_verifies device_create_def
    device_key_def device_reticulum_def reticulum_public_verifies signed_pre_key_create_def sign_device_verifies)

lemma refresh_reticulum_Ok:
  "refresh_reticulum C K d owner seq = Ok d' \<longleftrightarrow>
     device_public C owner = device_key d \<and> rr_seq (sr_record (dev_reachability d)) < seq \<and>
     dev_signed d' = dev_signed d \<and>
     dev_reachability d' = (let r = \<lparr>rr_device_key = device_key d, rr_reticulum = reticulum_public C owner, rr_seq = seq\<rparr>
       in \<lparr>sr_record = r, sr_signature = sign_device C owner (reachability_signing_bytes K r)\<rparr>)"
  by (cases d') (auto simp: refresh_reticulum_def Let_def)

lemma refresh_keeps_signed_bytes:
  "refresh_reticulum C K (rec_device r) owner seq = Ok d' \<Longrightarrow>
   record_signing_bytes K (r\<lparr>rec_device := d'\<rparr>) = record_signing_bytes K r"
  by (simp add: refresh_reticulum_Ok record_signing_bytes_def device_key_def)

lemma refresh_record_verifies:
  assumes "ed_ok C" "signed_record_verify C K sr = Ok ()"
    and "refresh_reticulum C K (rec_device (s_record sr)) owner seq = Ok d'"
  shows "signed_record_verify C K (sr\<lparr>s_record := (s_record sr)\<lparr>rec_device := d'\<rparr>\<rparr>) = Ok ()"
  using assms refresh_keeps_signed_bytes [OF assms(3)] sign_device_verifies [OF assms(1), of owner]
  unfolding signed_record_verify_Ok
  by (auto simp: Let_def refresh_reticulum_Ok device_key_def device_reticulum_def reticulum_public_verifies)

lemma domains_differ:
  "RECORD_DOMAIN @ x \<noteq> DEVICE_DOMAIN @ y" "RECORD_DOMAIN @ x \<noteq> REACHABILITY_DOMAIN @ y"
  "RECORD_DOMAIN @ x \<noteq> PREKEY_DOMAIN @ y" "DEVICE_DOMAIN @ x \<noteq> REACHABILITY_DOMAIN @ y"
  "DEVICE_DOMAIN @ x \<noteq> PREKEY_DOMAIN @ y" "REACHABILITY_DOMAIN @ x \<noteq> PREKEY_DOMAIN @ y"
  by (simp_all add: RECORD_DOMAIN_def DEVICE_DOMAIN_def REACHABILITY_DOMAIN_def PREKEY_DOMAIN_def str_bytes_def)

lemma statement_bytes_claim:
  assumes "claim_codecs_ok K" "statement_bytes K a = statement_bytes K b"
  shows "statement_claim a = statement_claim b"
  using assms by (cases a; cases b)
    (simp_all add: claim_codecs_ok_def canonical_inject record_signing_bytes_def device_signing_bytes_def
      reachability_signing_bytes_def prekey_signing_bytes_def domains_differ domains_differ [symmetric])

section \<open>Sample claims\<close>

definition s_device_record :: "device_record scodec" where
  "s_device_record = s_iso (\<lambda>r. (dr_device_key r, dr_id_key r,
       (pk_public (dr_signed_pre_key r), pk_signature (dr_signed_pre_key r)), dr_seq r))
     (\<lambda>(k, i, (p, s), q). \<lparr>dr_device_key = k, dr_id_key = i, dr_signed_pre_key = \<lparr>pk_public = p, pk_signature = s\<rparr>, dr_seq = q\<rparr>)
     (s_pair s_bytes (s_pair s_bytes (s_pair (s_pair s_bytes s_bytes) s_word)))"

definition s_reachability :: "reachability_record scodec" where
  "s_reachability = s_iso (\<lambda>r. (rr_device_key r, (encryption_key (rr_reticulum r), signing_key (rr_reticulum r),
       address (rr_reticulum r)), rr_seq r))
     (\<lambda>(k, (e, s, a), q). \<lparr>rr_device_key = k, rr_reticulum = \<lparr>encryption_key = e, signing_key = s, address = a\<rparr>, rr_seq = q\<rparr>)
     (s_pair s_bytes (s_pair (s_pair s_bytes (s_pair s_bytes s_bytes)) s_word))"

definition sample_claims :: claim_codecs where
  "sample_claims = \<lparr>
     c_identity_claim = sample_codec (s_pair s_string (s_pair s_string (s_pair s_string (s_pair s_bytes (s_pair s_bytes s_word))))),
     c_device_claim = sample_codec (s_pair s_bytes s_device_record),
     c_reachability = sample_codec s_reachability\<rparr>"

lemma s_device_record_ok [sample_ok]: "scodec_ok s_device_record" and s_reachability_ok [sample_ok]: "scodec_ok s_reachability"
  unfolding s_device_record_def s_reachability_def by (auto intro!: s_iso_ok simp: sample_ok)

lemma sample_claims_ok [sample_ok]: "claim_codecs_ok sample_claims"
  by (simp add: claim_codecs_ok_def sample_claims_def sample_ok)

definition sample_record :: "byte \<Rightarrow> u64 \<Rightarrow> peer_record" where
  "sample_record b seq = \<lparr>rec_user_id = user_id_from_wallet sample_crypto (wallet_public sample_crypto (sample_identity b)),
     rec_handle = ''ari'', rec_name = ''Ari'', rec_wallet = wallet_public sample_crypto (sample_identity b),
     rec_device = device_create sample_crypto sample_claims (sample_identity b) seq, rec_seq = seq\<rparr>"

lemma sample_record_own [sample_ok]: "own_record sample_crypto (sample_identity b) (sample_record b seq)"
  by (simp add: own_record_def sample_record_def MAX_NAME_LEN_def)

section \<open>Properties\<close>

text \<open>
  C6: what an identity publishes, everyone accepts.  A record that names the owner's wallet and
  user id, has a name within the limit and carries the owner's freshly created device verifies
  after signing; after a transport refresh with a larger sequence it still verifies under the
  unchanged identity signature, the wallet-authorized device record is untouched, and the
  record is strictly fresher.
\<close>

theorem record_publish_and_refresh:
  assumes "k256_ok C" "ed_ok C" "identity_ok C owner" "own_record C owner r"
    and "rec_device r = device_create C K owner seq" "seq < seq'"
  shows "\<exists>d'. refresh_reticulum C K (rec_device r) owner seq' = Ok d' \<and>
    (let sr = signed_record_sign C K r owner; sr' = sr\<lparr>s_record := r\<lparr>rec_device := d'\<rparr>\<rparr> in
       signed_record_verify C K sr = Ok () \<and> signed_record_verify C K sr' = Ok ()
       \<and> dev_signed d' = dev_signed (rec_device r)
       \<and> freshness_less (record_freshness sr) (record_freshness sr'))"
proof -
  from assms(5,6) obtain d' where d': "refresh_reticulum C K (rec_device r) owner seq' = Ok d'"
    by (simp add: refresh_reticulum_def Let_def not_le [symmetric])
  let ?sr = "signed_record_sign C K r owner"
  have rec: "s_record ?sr = r" by (simp add: signed_record_sign_def)
  note v = signed_record_sign_verifies [OF assms(1-5)]
  from refresh_record_verifies [OF assms(2) v] d'
  have "signed_record_verify C K (?sr\<lparr>s_record := r\<lparr>rec_device := d'\<rparr>\<rparr>) = Ok ()" by (simp add: rec)
  with v d' assms(5,6) show ?thesis
    by (auto simp: Let_def rec refresh_reticulum_Ok record_freshness_def freshness_less_def)
qed

theorem record_publish_and_refresh_witness:
  "\<exists>d'. refresh_reticulum sample_crypto sample_claims (rec_device (sample_record 3 1)) (sample_identity 3) 2 = Ok d' \<and>
    (let sr = signed_record_sign sample_crypto sample_claims (sample_record 3 1) (sample_identity 3);
         sr' = sr\<lparr>s_record := (sample_record 3 1)\<lparr>rec_device := d'\<rparr>\<rparr> in
       signed_record_verify sample_crypto sample_claims sr = Ok () \<and> signed_record_verify sample_crypto sample_claims sr' = Ok ()
       \<and> dev_signed d' = dev_signed (rec_device (sample_record 3 1))
       \<and> freshness_less (record_freshness sr) (record_freshness sr'))"
  by (rule record_publish_and_refresh [where seq = 1]) (simp_all add: sample_ok, simp add: sample_record_def)

text \<open>
  C7: the four signed statement kinds are domain separated and each encoding is injective, so a
  signature over one statement is never a signature over a different statement: equal signed
  bytes mean the same kind of statement with the same contents.
\<close>

theorem statement_bytes_injective:
  assumes "claim_codecs_ok K" "statement_bytes K a = statement_bytes K b"
  shows "statement_claim a = statement_claim b"
  using assms by (rule statement_bytes_claim)

theorem statement_bytes_injective_witness:
  "statement_claim (PreKeyStatement (replicate 32 5)) = statement_claim (PreKeyStatement (replicate 16 5 @ replicate 16 5))"
  by (rule statement_bytes_injective [where K = sample_claims])
    (simp_all add: sample_ok replicate_add [symmetric])

end
