(* ===== verification/X3dh.thy ===== *)
theory X3dh
  imports Records
begin

text \<open>
  The initial key agreement, the one-shot encryption it keys, and the deferred-delivery
  envelope (\<open>mycellium-core/src/x3dh.rs\<close>, \<open>one_shot.rs\<close>, \<open>offline.rs\<close>).
\<close>

definition contributory :: "bytes \<Rightarrow> error + unit" where
  "contributory dh = (if list_all (\<lambda>b. b = 0) dh then Err WeakKey else Ok ())"

definition KDF_INFO :: bytes where
  "KDF_INFO = str_bytes ''Mycellium-X3DH-v1''"

definition x3dh_kdf :: "crypto \<Rightarrow> bytes \<Rightarrow> bytes \<Rightarrow> bytes \<Rightarrow> bytes" where
  "x3dh_kdf C dh1 dh2 dh3 = hkdf_sha256 C (replicate 32 0) (dh1 @ dh2 @ dh3) KDF_INFO 32"

record handshake_init =
  initiator_ik :: messaging_public_key
  initiator_ek :: messaging_public_key

record initiated =
  shared_secret :: bytes
  hs_init :: handshake_init

definition x3dh_initiate ::
    "crypto \<Rightarrow> platform \<Rightarrow> identity \<Rightarrow> messaging_public_key \<Rightarrow> messaging_public_key \<Rightarrow> (error + initiated) \<times> platform" where
  "x3dh_initiate C p initiator responder_ik responder_spk =
     (let (ephemeral, p) = fill_random p 32;
          ephemeral_public = x25519_public C ephemeral;
          dh1 = dh_identity C initiator responder_spk;
          dh2 = x25519_dh C ephemeral responder_ik;
          dh3 = x25519_dh C ephemeral responder_spk
      in tryE (contributory dh1) p (\<lambda>_.
         tryE (contributory dh2) p (\<lambda>_.
         tryE (contributory dh3) p (\<lambda>_.
           (Ok \<lparr>shared_secret = x3dh_kdf C dh1 dh2 dh3,
              hs_init = \<lparr>initiator_ik = messaging_public C initiator, initiator_ek = ephemeral_public\<rparr>\<rparr>, p)))))"

definition x3dh_respond :: "crypto \<Rightarrow> identity \<Rightarrow> handshake_init \<Rightarrow> error + bytes" where
  "x3dh_respond C responder ini =
     (let dh1 = dh_signed_pre_key C responder (initiator_ik ini);
          dh2 = dh_identity C responder (initiator_ek ini);
          dh3 = dh_signed_pre_key C responder (initiator_ek ini)
      in tryR (contributory dh1) (\<lambda>_. tryR (contributory dh2) (\<lambda>_. tryR (contributory dh3) (\<lambda>_.
           Ok (x3dh_kdf C dh1 dh2 dh3)))))"

section \<open>One-shot encryption and the envelope\<close>

datatype one_shot_message = X3dhChaCha20Poly1305V1 (ciphertext: bytes)

definition one_shot_seal :: "crypto \<Rightarrow> bytes \<Rightarrow> bytes \<Rightarrow> bytes \<Rightarrow> one_shot_message" where
  "one_shot_seal C shared plaintext ad = X3dhChaCha20Poly1305V1 (aead_encrypt C shared plaintext ad)"

definition one_shot_open :: "crypto \<Rightarrow> bytes \<Rightarrow> one_shot_message \<Rightarrow> bytes \<Rightarrow> error + bytes" where
  "one_shot_open C shared message ad = (case message of
     X3dhChaCha20Poly1305V1 ct \<Rightarrow> aead_decrypt C shared ct ad)"

record envelope =
  env_from :: handle
  env_sender_record :: signed_record
  env_init :: handshake_init
  env_message :: one_shot_message
  env_timestamp :: u64

section \<open>Facts\<close>

lemma contributory_Ok: "contributory dh = Ok u \<longleftrightarrow> (\<exists>b \<in> set dh. b \<noteq> 0)"
  by (auto simp: contributory_def list_all_iff)

lemma contributory_Err: "contributory dh = Err e \<longleftrightarrow> e = WeakKey \<and> (\<forall>b \<in> set dh. b = 0)"
  by (auto simp: contributory_def list_all_iff)

lemma one_shot_open_seal: "aead_ok C \<Longrightarrow> one_shot_open C sk (one_shot_seal C sk m ad) ad = Ok m"
  by (simp add: one_shot_open_def one_shot_seal_def aead_decrypt_encrypt)

lemma x3dh_agreement:
  assumes "dh_ok C"
    and "x3dh_initiate C p alice (messaging_public C bob) (signed_pre_key_public C bob) = (Ok ini, p')"
  shows "x3dh_respond C bob (hs_init ini) = Ok (shared_secret ini)"
proof -
  note dh = dh_okD [OF assms(1)]
  from assms(2) show ?thesis
    by (auto simp: x3dh_initiate_def x3dh_respond_def Let_def fill_random_def result_elims
      dh_identity_def dh_signed_pre_key_def messaging_public_def signed_pre_key_public_def
      dh [of "messaging_secret alice"] dh [of "entropy p (draws p) 32"])
qed

text \<open>A low-order public key: every agreement with it is all zero.\<close>

definition low_order :: "crypto \<Rightarrow> messaging_public_key \<Rightarrow> bool" where
  "low_order C pk \<longleftrightarrow> (\<forall>s. list_all (\<lambda>b. b = 0) (x25519_dh C s pk))"

lemma x3dh_respond_low_order:
  "low_order C (initiator_ik ini) \<or> low_order C (initiator_ek ini) \<Longrightarrow> x3dh_respond C bob ini = Err WeakKey"
  by (auto simp: x3dh_respond_def Let_def low_order_def dh_identity_def dh_signed_pre_key_def contributory_def tryR_def)

lemma x3dh_initiate_low_order:
  "low_order C ik \<or> low_order C spk \<Longrightarrow> fst (x3dh_initiate C p alice ik spk) = Err WeakKey"
  by (auto simp: x3dh_initiate_def Let_def low_order_def dh_identity_def contributory_def tryE_def fill_random_def)

section \<open>Properties\<close>

text \<open>
  Key agreement.  When the initiator runs the handshake against the keys a responder
  publishes, the responder derives exactly the initiator's secret from the handshake message,
  and whatever either side seals under it with some associated data the other opens.
\<close>

theorem x3dh_sealed_message_opens:
  assumes "dh_ok C" "aead_ok C"
    and "x3dh_initiate C p alice (messaging_public C bob) (signed_pre_key_public C bob) = (Ok ini, p')"
  shows "\<exists>sk. x3dh_respond C bob (hs_init ini) = Ok sk \<and>
     (\<forall>m ad. one_shot_open C sk (one_shot_seal C (shared_secret ini) m ad) ad = Ok m)"
  using x3dh_agreement [OF assms(1,3)] one_shot_open_seal [OF assms(2)] by auto

theorem x3dh_sealed_message_opens_witness:
  "\<exists>ini p' sk. x3dh_initiate sample_crypto sample_platform (sample_identity 3)
        (messaging_public sample_crypto (sample_identity 4)) (signed_pre_key_public sample_crypto (sample_identity 4)) = (Ok ini, p')
     \<and> x3dh_respond sample_crypto (sample_identity 4) (hs_init ini) = Ok sk
     \<and> one_shot_open sample_crypto sk (one_shot_seal sample_crypto (shared_secret ini) [1, 2] [9]) [9] = Ok [1, 2]"
proof -
  let ?run = "x3dh_initiate sample_crypto sample_platform (sample_identity 3)
        (messaging_public sample_crypto (sample_identity 4)) (signed_pre_key_public sample_crypto (sample_identity 4))"
  have "is_ok (fst ?run)" by code_simp
  then obtain ini p' where run: "?run = (Ok ini, p')" by (cases ?run) (auto simp: is_ok_iff)
  from x3dh_sealed_message_opens [OF _ _ run] run show ?thesis by (auto simp: sample_ok)
qed

text \<open>
  Degenerate keys are refused on both sides.  If a published or received key is a low-order
  point, initiating and responding both fail with \<open>WeakKey\<close> before any secret is derived.
\<close>

theorem x3dh_rejects_low_order:
  "(low_order C ik \<or> low_order C spk \<longrightarrow> fst (x3dh_initiate C p alice ik spk) = Err WeakKey) \<and>
   (low_order C (initiator_ik ini) \<or> low_order C (initiator_ek ini) \<longrightarrow> x3dh_respond C bob ini = Err WeakKey)"
  using x3dh_initiate_low_order x3dh_respond_low_order by blast

definition zero_crypto :: crypto where
  "zero_crypto = sample_crypto\<lparr>x25519_dh := (\<lambda>s p. if p = replicate 32 0 then replicate 32 0 else replicate 32 1)\<rparr>"

theorem x3dh_rejects_low_order_witness:
  "low_order zero_crypto (replicate 32 0) \<and>
   fst (x3dh_initiate zero_crypto sample_platform (sample_identity 3) [5] (replicate 32 0)) = Err WeakKey \<and>
   x3dh_respond zero_crypto (sample_identity 4) \<lparr>initiator_ik = replicate 32 0, initiator_ek = [5]\<rparr> = Err WeakKey"
  using x3dh_rejects_low_order [of zero_crypto "[5]" "replicate 32 0" sample_platform "sample_identity 3"
      "\<lparr>initiator_ik = replicate 32 0, initiator_ek = [5]\<rparr>" "sample_identity 4"]
  by (simp add: low_order_def zero_crypto_def list_all_iff)

end
