(* ===== verification/Delivery.thy ===== *)
theory Delivery
  imports Records
begin

text \<open>
  Recipient-signed acceptance acknowledgements (\<open>mycellium-core/src/delivery.rs\<close>).
  The codec of the signed body is a parameter.
\<close>

type_synonym ack_codec = "(string \<times> bytes \<times> device_public_key) codec"

definition ACK_DOMAIN :: bytes where
  "ACK_DOMAIN = str_bytes (''mycellium-delivery-ack-v1'' @ [CHR 0x00])"

definition MAX_DELIVERY_ID_LEN :: nat where
  "MAX_DELIVERY_ID_LEN = 64"

definition payload_digest :: "crypto \<Rightarrow> bytes \<Rightarrow> bytes" where
  "payload_digest C payload = sha256 C payload"

definition ack_signing_bytes :: "ack_codec \<Rightarrow> string \<Rightarrow> bytes \<Rightarrow> device_public_key \<Rightarrow> bytes" where
  "ack_signing_bytes A delivery_id digest recipient_device =
     ACK_DOMAIN @ canonical A (delivery_id, digest, recipient_device)"

record delivery_ack =
  ack_delivery_id :: string
  ack_payload_digest :: bytes
  ack_recipient_device :: device_public_key
  ack_signature :: signature

definition ack_accepted :: "crypto \<Rightarrow> ack_codec \<Rightarrow> identity \<Rightarrow> string \<Rightarrow> bytes \<Rightarrow> delivery_ack" where
  "ack_accepted C A identity delivery_id payload =
     (let digest = payload_digest C payload;
          recipient = device_public C identity;
          sig = sign_device C identity (ack_signing_bytes A delivery_id digest recipient)
      in \<lparr>ack_delivery_id = delivery_id, ack_payload_digest = digest, ack_recipient_device = recipient, ack_signature = sig\<rparr>)"

definition ack_verify :: "crypto \<Rightarrow> ack_codec \<Rightarrow> delivery_ack \<Rightarrow> string \<Rightarrow> bytes \<Rightarrow> device_public_key \<Rightarrow> error + unit" where
  "ack_verify C A ack expected_delivery_id expected_payload expected_device =
     (if ack_delivery_id ack = [] \<or> length (ack_delivery_id ack) > MAX_DELIVERY_ID_LEN
        \<or> ack_delivery_id ack \<noteq> expected_delivery_id \<or> ack_recipient_device ack \<noteq> expected_device
        \<or> ack_payload_digest ack \<noteq> payload_digest C expected_payload
      then Err Malformed
      else device_verify C (ack_recipient_device ack)
             (ack_signing_bytes A (ack_delivery_id ack) (ack_payload_digest ack) (ack_recipient_device ack))
             (ack_signature ack))"

lemma ack_verify_Ok:
  "ack_verify C A ack did payload dev = Ok () \<longleftrightarrow>
     did \<noteq> [] \<and> length did \<le> MAX_DELIVERY_ID_LEN \<and> ack_delivery_id ack = did \<and> ack_recipient_device ack = dev
     \<and> ack_payload_digest ack = payload_digest C payload
     \<and> device_verify C dev (ack_signing_bytes A did (payload_digest C payload) dev) (ack_signature ack) = Ok ()"
  by (auto simp: ack_verify_def)

lemma ack_accepted_verifies:
  assumes "ed_ok C" "delivery_id \<noteq> []" "length delivery_id \<le> MAX_DELIVERY_ID_LEN"
  shows "ack_verify C A (ack_accepted C A i delivery_id payload) delivery_id payload (device_public C i) = Ok ()"
  using assms by (simp add: ack_verify_Ok ack_accepted_def Let_def sign_device_verifies)

lemma ack_domain_differs: "ACK_DOMAIN @ x \<noteq> REACHABILITY_DOMAIN @ y"
  by (simp add: ACK_DOMAIN_def REACHABILITY_DOMAIN_def str_bytes_def)

text \<open>
  C10: an acknowledgement proves acceptance of one exact delivery.  What a device signs for a
  delivery id within the length limit verifies for exactly that id, a payload with that
  digest, and that device, and for nothing else; and the signed bytes are never those of a
  device's reachability claim, nor of an acknowledgement with other contents.
\<close>

theorem ack_binds_delivery:
  assumes "ed_ok C" "codec_ok A" "0 < length did" "length did \<le> MAX_DELIVERY_ID_LEN"
  shows "(ack_verify C A (ack_accepted C A i did payload) did' payload' dev' = Ok () \<longleftrightarrow>
      did' = did \<and> payload_digest C payload' = payload_digest C payload \<and> dev' = device_public C i)
    \<and> (ack_signing_bytes A did d dev = ack_signing_bytes A did2 d2 dev2 \<longrightarrow> did = did2 \<and> d = d2 \<and> dev = dev2)
    \<and> ack_signing_bytes A did d dev \<noteq> reachability_signing_bytes K r"
proof -
  have "ack_verify C A (ack_accepted C A i did payload) did' payload' dev' = Ok () \<longleftrightarrow>
      did' = did \<and> payload_digest C payload' = payload_digest C payload \<and> dev' = device_public C i"
    using assms ack_accepted_verifies [of C did A i payload]
    by (auto simp: ack_verify_Ok)
  then show ?thesis using assms(2) ack_domain_differs
    by (auto simp: ack_signing_bytes_def reachability_signing_bytes_def canonical_inject)
qed

definition sample_ack_codec :: ack_codec where
  "sample_ack_codec = sample_codec (s_pair s_string (s_pair s_bytes s_bytes))"

lemma sample_ack_codec_ok [sample_ok]: "codec_ok sample_ack_codec"
  by (simp add: sample_ack_codec_def sample_ok)

theorem ack_binds_delivery_witness:
  "ack_verify sample_crypto sample_ack_codec (ack_accepted sample_crypto sample_ack_codec (sample_identity 3) ''d1'' [1, 2])
     ''d1'' [1, 2] (device_public sample_crypto (sample_identity 3)) = Ok () \<and>
   ack_verify sample_crypto sample_ack_codec (ack_accepted sample_crypto sample_ack_codec (sample_identity 3) ''d1'' [1, 2])
     ''d2'' [1, 2] (device_public sample_crypto (sample_identity 3)) \<noteq> Ok ()"
  using ack_binds_delivery [of sample_crypto sample_ack_codec "''d1''"] by (simp add: sample_ok MAX_DELIVERY_ID_LEN_def)

end
