(* ===== verification/Message.thy ===== *)
theory Message
  imports Samples
begin

text \<open>
  The application message (\<open>mycellium-core/src/message.rs\<close>).  The pictographs of the rendering
  are written as their UTF-8 bytes.
\<close>

datatype body =
    Text string
  | Reply string string
  | Reaction string string
  | Receipt string bool
  | File string string bytes
  | Edit string string
  | BodyDelete string

record app_message =
  msg_id :: string
  msg_timestamp :: u64
  msg_expires_at :: "u64 option"
  msg_body :: body

definition is_expired :: "app_message \<Rightarrow> u64 \<Rightarrow> bool" where
  "is_expired msg now = (case msg_expires_at msg of Some at \<Rightarrow> now \<ge> at | None \<Rightarrow> False)"

definition app_encode :: "app_message codec \<Rightarrow> app_message \<Rightarrow> bytes" where
  "app_encode c msg = wire_encode c msg"

definition app_decode :: "app_message codec \<Rightarrow> bytes \<Rightarrow> error + app_message" where
  "app_decode c bs = wire_decode c bs"

text \<open>
  The twenty-slot buffer of the source is filled from its end; \<open>itoa_loop n slots\<close> is the
  digits written from \<open>n\<close> with \<open>slots\<close> slots left, and \<open>None\<close> the index underflow.
\<close>

function itoa_loop :: "nat \<Rightarrow> nat \<Rightarrow> string \<Rightarrow> string option" where
  "itoa_loop n i digits =
     (if n = 0 then Some digits
      else if i = 0 then None
      else itoa_loop (n div 10) (i - 1) (digit_char (n mod 10) # digits))"
  by pat_completeness auto
termination by (relation "measure fst") auto

declare itoa_loop.simps [simp del]

definition itoa :: "nat \<Rightarrow> string option" where
  "itoa n = (if n = 0 then Some ''0'' else itoa_loop n 20 [])"

definition utf8 :: "nat list \<Rightarrow> string" where
  "utf8 bs = map char_of bs"

definition summary :: "app_message \<Rightarrow> string" where
  "summary msg = (case msg_body msg of
      Text text \<Rightarrow> text
    | Reply to text \<Rightarrow> utf8 [0xE2, 0x86, 0xAA] @ '' (re '' @ to @ '') '' @ text
    | Reaction to emoji \<Rightarrow> ''reacted '' @ emoji @ '' to '' @ to
    | Receipt message_id read \<Rightarrow>
        (if read then utf8 [0xE2, 0x9C, 0x93, 0xE2, 0x9C, 0x93] @ '' read ''
         else utf8 [0xE2, 0x9C, 0x93] @ '' delivered '') @ message_id
    | File name mime data \<Rightarrow>
        utf8 [0xF0, 0x9F, 0x93, 0x8E] @ '' '' @ name @ '' ('' @ the (itoa (length data)) @ '' bytes)''
    | Edit to text \<Rightarrow> utf8 [0xE2, 0x9C, 0x8E] @ '' (edit '' @ to @ '') '' @ text
    | BodyDelete to \<Rightarrow> utf8 [0xF0, 0x9F, 0x97, 0x91] @ '' deleted '' @ to)"

section \<open>Facts\<close>

lemma itoa_loop_decimal:
  "0 < n \<Longrightarrow> n < 10 ^ i \<Longrightarrow> itoa_loop n i ds = Some (nat_decimal n @ ds)"
proof (induction n i ds rule: itoa_loop.induct)
  case (1 n i ds)
  then have i: "i \<noteq> 0" by (cases i) auto
  show ?case
  proof (cases "n < 10")
    case True
    with 1 i show ?thesis
      by (subst itoa_loop.simps, subst itoa_loop.simps) (simp add: nat_decimal.simps [of n])
  next
    case False
    from i obtain j where j: "i = Suc j" by (cases i) auto
    from 1 j have "n div 10 < 10 ^ j" by (simp add: less_mult_imp_div_less mult.commute)
    with False 1 i j show ?thesis
      by (subst itoa_loop.simps) (simp add: nat_decimal.simps [of n])
  qed
qed

lemma itoa_decimal: "n < 2 ^ 64 \<Longrightarrow> itoa n = Some (nat_decimal n)"
proof -
  assume "n < 2 ^ 64"
  then have "n < 10 ^ 20" by simp
  then show ?thesis by (simp add: itoa_def itoa_loop_decimal nat_decimal.simps [of 0] digit_char_def char_of_def bit_0)
qed

end
