(* ===== verification/GroupSession.thy ===== *)
theory GroupSession
  imports Ident
begin

text \<open>
  Group messaging with sender keys (\<open>mycellium-core/src/group.rs\<close>).

  A sender key and a receiver key are records with the source's fields; iterations are 32-bit
  words, and the increment wraps as in the release build.  The member table is the ordered map
  of the prelude.  The results: the retained skipped keys never exceed their cap, a failed
  decryption changes nothing, a sender's messages decrypt in any order exactly once, and the
  exported state restores the same group.
\<close>

definition MAX_SKIP :: u32 where
  "MAX_SKIP = 1024"

record group_message =
  gm_sender :: bytes
  gm_iteration :: u32
  gm_ciphertext :: bytes
  gm_signature :: bytes

record sender_key_distribution =
  skd_iteration :: u32
  skd_chain_key :: bytes
  skd_signing_public :: bytes

record sender_key =
  sk_chain_key :: bytes
  sk_iteration :: u32
  sk_signing :: bytes

record receiver_key =
  rk_chain_key :: bytes
  rk_iteration :: u32
  rk_signing_public :: bytes
  rk_skipped :: "(u32 \<times> bytes) list"

definition signed_bytes :: "u32 \<Rightarrow> bytes \<Rightarrow> bytes" where
  "signed_bytes iteration ciphertext = to_be_bytes32 iteration @ ciphertext"

section \<open>Sender keys\<close>

definition sender_generate :: "platform \<Rightarrow> sender_key \<times> platform" where
  "sender_generate p =
     (let (chain_key, p) = fill_random p 32; (signing_seed, p) = fill_random p 32
      in (\<lparr>sk_chain_key = chain_key, sk_iteration = 0, sk_signing = signing_seed\<rparr>, p))"

definition sender_distribution :: "crypto \<Rightarrow> sender_key \<Rightarrow> sender_key_distribution" where
  "sender_distribution C sk = \<lparr>skd_iteration = sk_iteration sk, skd_chain_key = sk_chain_key sk,
     skd_signing_public = ed_public C (sk_signing sk)\<rparr>"

definition sender_encrypt :: "crypto \<Rightarrow> sender_key \<Rightarrow> bytes \<Rightarrow> bytes \<Rightarrow> bytes \<Rightarrow> group_message \<times> sender_key" where
  "sender_encrypt C sk sender plaintext ad =
     (let (next, mk) = kdf_ck C (sk_chain_key sk);
          iteration = sk_iteration sk;
          sk = sk\<lparr>sk_chain_key := next, sk_iteration := iteration + 1\<rparr>;
          ciphertext = aead_encrypt C mk plaintext ad
      in (\<lparr>gm_sender = sender, gm_iteration = iteration, gm_ciphertext = ciphertext,
           gm_signature = ed_sign C (sk_signing sk) (signed_bytes iteration ciphertext)\<rparr>, sk))"

section \<open>Receiver keys\<close>

definition receiver_from_distribution :: "crypto \<Rightarrow> sender_key_distribution \<Rightarrow> error + receiver_key" where
  "receiver_from_distribution C dist =
     (if \<not> ed_public_ok C (skd_signing_public dist) then Err Malformed
      else Ok \<lparr>rk_chain_key = skd_chain_key dist, rk_iteration = skd_iteration dist,
             rk_signing_public = skd_signing_public dist, rk_skipped = []\<rparr>)"

fun evict_oldest :: "(u32 \<times> bytes) list \<Rightarrow> (u32 \<times> bytes) list" where
  "evict_oldest [] = []"
| "evict_oldest (x # xs) = (if length (x # xs) \<ge> unat MAX_SKIP then evict_oldest xs else x # xs)"

definition bank_skipped :: "receiver_key \<Rightarrow> u32 \<Rightarrow> bytes \<Rightarrow> receiver_key" where
  "bank_skipped rk iteration mk = rk\<lparr>rk_skipped := evict_oldest (rk_skipped rk) @ [(iteration, mk)]\<rparr>"

fun take_skipped :: "u32 \<Rightarrow> (u32 \<times> bytes) list \<Rightarrow> (bytes \<times> (u32 \<times> bytes) list) option" where
  "take_skipped target [] = None"
| "take_skipped target ((i, mk) # xs) =
     (if i = target then Some (mk, xs)
      else map_option (\<lambda>(mk', ys). (mk', (i, mk) # ys)) (take_skipped target xs))"

function ratchet_to :: "crypto \<Rightarrow> receiver_key \<Rightarrow> u32 \<Rightarrow> receiver_key" where
  "ratchet_to C rk target =
     (if rk_iteration rk < target then
        let (next, mk) = kdf_ck C (rk_chain_key rk);
            rk = bank_skipped rk (rk_iteration rk) mk
        in ratchet_to C (rk\<lparr>rk_chain_key := next, rk_iteration := rk_iteration rk + 1\<rparr>) target
      else rk)"
  by pat_completeness auto

definition message_key :: "crypto \<Rightarrow> receiver_key \<Rightarrow> u32 \<Rightarrow> error + (bytes \<times> receiver_key)" where
  "message_key C rk target = (case take_skipped target (rk_skipped rk) of
      Some (mk, rest) \<Rightarrow> Ok (mk, rk\<lparr>rk_skipped := rest\<rparr>)
    | None \<Rightarrow>
        if target < rk_iteration rk then Err DecryptFailed
        else if target - rk_iteration rk > MAX_SKIP then Err TooManySkipped
        else let rk = ratchet_to C rk target;
                 (next, mk) = kdf_ck C (rk_chain_key rk)
             in Ok (mk, rk\<lparr>rk_chain_key := next, rk_iteration := rk_iteration rk + 1\<rparr>))"

definition receiver_decrypt :: "crypto \<Rightarrow> receiver_key \<Rightarrow> group_message \<Rightarrow> bytes \<Rightarrow> (error + bytes) \<times> receiver_key" where
  "receiver_decrypt C rk msg ad =
     (if length (gm_signature msg) \<noteq> 64 then (Err BadSignature, rk)
      else if \<not> ed_verify_strict C (rk_signing_public rk) (signed_bytes (gm_iteration msg) (gm_ciphertext msg)) (gm_signature msg)
      then (Err BadSignature, rk)
      else tryE (message_key C rk (gm_iteration msg)) rk (\<lambda>(mk, next).
           tryE (aead_decrypt C mk (gm_ciphertext msg) ad) rk (\<lambda>plaintext. (Ok plaintext, next))))"

section \<open>Groups\<close>

record group =
  g_own_id :: bytes
  g_own :: sender_key
  g_members :: "(bytes \<times> receiver_key) list"

definition group_new :: "platform \<Rightarrow> bytes \<Rightarrow> group \<times> platform" where
  "group_new p own_id = (let (own, p) = sender_generate p in (\<lparr>g_own_id = own_id, g_own = own, g_members = []\<rparr>, p))"

definition group_distribution :: "crypto \<Rightarrow> group \<Rightarrow> sender_key_distribution" where
  "group_distribution C g = sender_distribution C (g_own g)"

definition add_member :: "crypto \<Rightarrow> group \<Rightarrow> bytes \<Rightarrow> sender_key_distribution \<Rightarrow> (error + unit) \<times> group" where
  "add_member C g mid dist = tryE (receiver_from_distribution C dist) g (\<lambda>rk.
     (Ok (), g\<lparr>g_members := bt_insert mid rk (g_members g)\<rparr>))"

definition group_rotate :: "platform \<Rightarrow> group \<Rightarrow> group \<times> platform" where
  "group_rotate p g = (let (own, p) = sender_generate p in (g\<lparr>g_own := own\<rparr>, p))"

definition remove_member :: "group \<Rightarrow> bytes \<Rightarrow> group" where
  "remove_member g mid = g\<lparr>g_members := bt_remove mid (g_members g)\<rparr>"

definition group_encrypt :: "crypto \<Rightarrow> group \<Rightarrow> bytes \<Rightarrow> bytes \<Rightarrow> group_message \<times> group" where
  "group_encrypt C g plaintext ad =
     (let (msg, own) = sender_encrypt C (g_own g) (g_own_id g) plaintext ad in (msg, g\<lparr>g_own := own\<rparr>))"

definition group_decrypt :: "crypto \<Rightarrow> group \<Rightarrow> group_message \<Rightarrow> bytes \<Rightarrow> (error + bytes) \<times> group" where
  "group_decrypt C g msg ad = (case map_of (g_members g) (gm_sender msg) of
      None \<Rightarrow> (Err Malformed, g)
    | Some member \<Rightarrow> (let (r, member) = receiver_decrypt C member msg ad
        in (r, g\<lparr>g_members := bt_insert (gm_sender msg) member (g_members g)\<rparr>)))"

record member_state =
  ms_id :: bytes
  ms_chain :: bytes
  ms_iteration :: u32
  ms_signing_public :: bytes
  ms_skipped :: "(u32 \<times> bytes) list"

record group_state =
  gs_own_id :: bytes
  gs_own_chain :: bytes
  gs_own_iteration :: u32
  gs_own_signing :: bytes
  gs_members :: "member_state list"

definition group_export :: "group \<Rightarrow> group_state" where
  "group_export g = \<lparr>gs_own_id = g_own_id g, gs_own_chain = sk_chain_key (g_own g),
     gs_own_iteration = sk_iteration (g_own g), gs_own_signing = sk_signing (g_own g),
     gs_members = map (\<lambda>(mid, rk). \<lparr>ms_id = mid, ms_chain = rk_chain_key rk, ms_iteration = rk_iteration rk,
        ms_signing_public = rk_signing_public rk, ms_skipped = rk_skipped rk\<rparr>) (g_members g)\<rparr>"

fun import_members :: "crypto \<Rightarrow> member_state list \<Rightarrow> (bytes \<times> receiver_key) list \<Rightarrow> error + (bytes \<times> receiver_key) list" where
  "import_members C [] members = Ok members"
| "import_members C (m # ms) members =
     (if \<not> ed_public_ok C (ms_signing_public m) then Err Malformed
      else import_members C ms (bt_insert (ms_id m)
        \<lparr>rk_chain_key = ms_chain m, rk_iteration = ms_iteration m,
         rk_signing_public = ms_signing_public m, rk_skipped = ms_skipped m\<rparr> members))"

definition group_import :: "crypto \<Rightarrow> group_state \<Rightarrow> error + group" where
  "group_import C state =
     (let own = \<lparr>sk_chain_key = gs_own_chain state, sk_iteration = gs_own_iteration state, sk_signing = gs_own_signing state\<rparr>
      in tryR (import_members C (gs_members state) []) (\<lambda>members.
         Ok \<lparr>g_own_id = gs_own_id state, g_own = own, g_members = members\<rparr>))"

section \<open>The ratchet loop ends\<close>

lemma word_less_Suc: "(a :: 'w::len word) < b \<Longrightarrow> unat (a + 1) = Suc (unat a)"
proof -
  assume ab: "a < b"
  have "unat b < 2 ^ LENGTH('w)" by (rule unsigned_less)
  moreover from ab have "unat a < unat b" by (simp add: word_less_nat_alt)
  ultimately have "Suc (unat a) < 2 ^ LENGTH('w)" by linarith
  then show ?thesis by (simp add: unat_word_ariths)
qed

termination ratchet_to
proof (relation "measure (\<lambda>(C, rk, target). unat target - unat (rk_iteration rk))", goal_cases)
  case (2 C rk target x xa y xb)
  then show ?case by (auto simp: bank_skipped_def word_less_Suc word_less_nat_alt)
qed simp

declare ratchet_to.simps [simp del]

section \<open>The cap on retained keys\<close>

lemma unat_MAX_SKIP [simp]: "unat MAX_SKIP = 1024"
  by (simp add: MAX_SKIP_def)

lemma evict_oldest_length: "length (evict_oldest xs) < 1024"
  by (induction xs) auto

lemma evict_oldest_id: "length xs < 1024 \<Longrightarrow> evict_oldest xs = xs"
  by (cases xs) auto

lemma take_skipped_length: "take_skipped t xs = Some (mk, ys) \<Longrightarrow> length xs = Suc (length ys)"
  by (induction xs arbitrary: ys) (auto split: if_splits)

lemma ratchet_to_length:
  "length (rk_skipped rk) \<le> 1024 \<Longrightarrow> length (rk_skipped (ratchet_to C rk target)) \<le> 1024"
proof (induction C rk target rule: ratchet_to.induct)
  case (1 C rk target)
  show ?case
  proof (cases "rk_iteration rk < target")
    case True
    have "length (rk_skipped (bank_skipped rk (rk_iteration rk) mk)) \<le> 1024" for mk
      using evict_oldest_length [of "rk_skipped rk"] by (simp add: bank_skipped_def)
    with 1 True show ?thesis by (subst ratchet_to.simps) (simp add: split_def Let_def)
  next
    case False
    with 1 show ?thesis by (subst ratchet_to.simps) simp
  qed
qed

lemma message_key_length:
  "length (rk_skipped rk) \<le> 1024 \<Longrightarrow> message_key C rk target = Ok (mk, rk') \<Longrightarrow> length (rk_skipped rk') \<le> 1024"
  using ratchet_to_length [of rk C target]
  by (auto simp: message_key_def Let_def split_def split: option.splits if_splits dest: take_skipped_length)

lemma receiver_decrypt_cases:
  assumes "receiver_decrypt C rk msg ad = (r, rk')"
  obtains e where "r = Err e" "rk' = rk"
  | mk pt where "r = Ok pt" "message_key C rk (gm_iteration msg) = Ok (mk, rk')"
      "aead_decrypt C mk (gm_ciphertext msg) ad = Ok pt"
      "ed_verify_strict C (rk_signing_public rk) (signed_bytes (gm_iteration msg) (gm_ciphertext msg)) (gm_signature msg)"
proof (cases "message_key C rk (gm_iteration msg)")
  case (Inl e)
  with assms that(1) show thesis by (auto simp: receiver_decrypt_def split: if_splits)
next
  case (Inr x)
  obtain mk rk1 where x: "x = (mk, rk1)" by fastforce
  show thesis
  proof (cases "aead_decrypt C mk (gm_ciphertext msg) ad")
    case (Inl e)
    with Inr x have "receiver_decrypt C rk msg ad \<in> {(Err e, rk), (Err BadSignature, rk)}"
      by (simp add: receiver_decrypt_def)
    with assms that(1) show thesis by auto
  next
    case (Inr pt)
    with \<open>message_key C rk (gm_iteration msg) = Ok x\<close> x
    have "receiver_decrypt C rk msg ad = (Err BadSignature, rk) \<or> receiver_decrypt C rk msg ad = (Ok pt, rk1) \<and>
      ed_verify_strict C (rk_signing_public rk) (signed_bytes (gm_iteration msg) (gm_ciphertext msg)) (gm_signature msg)"
      by (simp add: receiver_decrypt_def)
    with assms that Inr \<open>message_key C rk (gm_iteration msg) = Ok x\<close> x show thesis by auto
  qed
qed

text \<open>The group invariant: an ordered member table, every receiver within the cap.\<close>

definition group_inv :: "group \<Rightarrow> bool" where
  "group_inv g \<longleftrightarrow> bt_sorted (g_members g) \<and> (\<forall>(mid, rk) \<in> set (g_members g). length (rk_skipped rk) \<le> 1024)"

lemma set_bt_insert: "set (bt_insert k v xs) \<subseteq> insert (k, v) (set xs)"
  by (induction k v xs rule: bt_insert.induct) auto

lemma group_inv_insert:
  "group_inv g \<Longrightarrow> length (rk_skipped rk) \<le> 1024 \<Longrightarrow> group_inv (g\<lparr>g_members := bt_insert k rk (g_members g)\<rparr>)"
  using set_bt_insert [of k rk "g_members g"] by (auto simp: group_inv_def bt_sorted_insert)

lemma add_member_inv: "group_inv g \<Longrightarrow> group_inv (snd (add_member C g mid dist))"
  by (auto simp: add_member_def receiver_from_distribution_def intro: group_inv_insert)

lemma remove_member_inv: "group_inv g \<Longrightarrow> group_inv (remove_member g mid)"
  by (auto simp: group_inv_def remove_member_def bt_sorted_remove bt_remove_def)
     (auto simp: bt_sorted_remove [unfolded bt_remove_def])

lemma group_decrypt_inv:
  assumes "group_inv g"
  shows "group_inv (snd (group_decrypt C g msg ad))"
proof (cases "map_of (g_members g) (gm_sender msg)")
  case (Some rk)
  obtain r rk' where dec: "receiver_decrypt C rk msg ad = (r, rk')" by fastforce
  from Some assms have len: "length (rk_skipped rk) \<le> 1024"
    by (auto simp: group_inv_def dest: map_of_SomeD)
  from dec len have "length (rk_skipped rk') \<le> 1024"
    by (cases rule: receiver_decrypt_cases) (auto dest: message_key_length)
  with Some dec assms show ?thesis by (simp add: group_decrypt_def group_inv_insert)
qed (simp add: group_decrypt_def assms)

lemma group_encrypt_rotate_inv:
  "group_inv g \<Longrightarrow> group_inv (snd (group_encrypt C g m ad))"
  "group_inv g \<Longrightarrow> group_inv (fst (group_rotate p g))"
  "group_inv (fst (group_new p own_id))"
  by (simp_all add: group_inv_def group_encrypt_def group_rotate_def group_new_def split_def Let_def bt_sorted_def)

lemma bt_insert_same: "map_of xs k = Some v \<Longrightarrow> bt_sorted xs \<Longrightarrow> bt_insert k v xs = xs"
proof (induction xs)
  case (Cons e xs)
  obtain k' v' where e: "e = (k', v')" by fastforce
  show ?case
  proof (cases "k = k'")
    case True
    with Cons.prems e show ?thesis by simp
  next
    case False
    with Cons.prems e have m: "map_of xs k = Some v" and s: "bt_sorted xs" by (auto simp: bt_sorted_def)
    from m have "k \<in> fst ` set xs" by (metis map_of_eq_None_iff option.distinct(1))
    with Cons.prems e have "bytes_less k' k" by (auto simp: bt_sorted_def)
    then have "\<not> bytes_less k k'" by (rule bytes_less_asym)
    with False e Cons.IH [OF m s] show ?thesis by simp
  qed
qed simp

lemma group_decrypt_failed:
  assumes "group_inv g" "fst (group_decrypt C g msg ad) = Err e"
  shows "snd (group_decrypt C g msg ad) = g"
proof (cases "map_of (g_members g) (gm_sender msg)")
  case (Some rk)
  obtain r rk' where dec: "receiver_decrypt C rk msg ad = (r, rk')" by fastforce
  with Some assms(2) have r: "r = Err e" by (simp add: group_decrypt_def)
  from dec r have "rk' = rk" by (cases rule: receiver_decrypt_cases) auto
  with Some dec assms(1) show ?thesis by (simp add: group_decrypt_def group_inv_def bt_insert_same)
qed (simp add: group_decrypt_def)

lemma receiver_key_eta [simp]:
  "\<lparr>rk_chain_key = rk_chain_key rk, rk_iteration = rk_iteration rk, rk_signing_public = rk_signing_public rk,
     rk_skipped = rk_skipped rk\<rparr> = rk"
  by simp

lemma group_import_export:
  assumes "bt_sorted (g_members g)" "\<forall>(mid, rk) \<in> set (g_members g). ed_public_ok C (rk_signing_public rk)"
  shows "group_import C (group_export g) = Ok g"
proof -
  have "import_members C (map (\<lambda>(mid, rk). \<lparr>ms_id = mid, ms_chain = rk_chain_key rk, ms_iteration = rk_iteration rk,
      ms_signing_public = rk_signing_public rk, ms_skipped = rk_skipped rk\<rparr>) xs) acc = Ok (fold (\<lambda>(k, v). bt_insert k v) xs acc)"
    if "\<forall>(mid, rk) \<in> set xs. ed_public_ok C (rk_signing_public rk)" for xs acc
    using that by (induction xs arbitrary: acc) auto
  with assms show ?thesis by (simp add: group_import_def group_export_def bt_rebuild)
qed

section \<open>Sender and receiver chains\<close>

fun chain_at :: "crypto \<Rightarrow> bytes \<Rightarrow> nat \<Rightarrow> bytes" where
  "chain_at C ck 0 = ck"
| "chain_at C ck (Suc n) = fst (kdf_ck C (chain_at C ck n))"

definition key_at :: "crypto \<Rightarrow> bytes \<Rightarrow> nat \<Rightarrow> bytes" where
  "key_at C ck n = snd (kdf_ck C (chain_at C ck n))"

definition key_slot :: "crypto \<Rightarrow> bytes \<Rightarrow> nat \<Rightarrow> nat \<Rightarrow> u32 \<times> bytes" where
  "key_slot C ck base j = (of_nat (base + j), key_at C ck j)"

text \<open>
  A receiver that started at position \<open>base\<close> of the chain from \<open>ck\<close>, has ratcheted \<open>p\<close> positions
  and consumed the positions \<open>dn\<close>.
\<close>

definition tracks :: "crypto \<Rightarrow> bytes \<Rightarrow> nat \<Rightarrow> receiver_key \<Rightarrow> nat \<Rightarrow> nat set \<Rightarrow> bool" where
  "tracks C ck base rk p dn \<longleftrightarrow> rk_chain_key rk = chain_at C ck p \<and> rk_iteration rk = of_nat (base + p)
     \<and> dn \<subseteq> {..<p} \<and> (\<exists>js. rk_skipped rk = map (key_slot C ck base) js \<and> distinct js \<and> set js = {..<p} - dn)"

lemma of_nat_u32_eq: "m < 2 ^ 32 \<Longrightarrow> n < 2 ^ 32 \<Longrightarrow> (of_nat m :: u32) = of_nat n \<longleftrightarrow> m = n"
proof -
  assume small: "m < 2 ^ 32" "n < 2 ^ 32"
  have "m = n" if "(of_nat m :: u32) = of_nat n"
  proof -
    from that have "unat (of_nat m :: u32) = unat (of_nat n :: u32)" by simp
    with small show ?thesis by (simp add: unat_of_nat)
  qed
  then show ?thesis by auto
qed

lemma of_nat_u32_less: "m < 2 ^ 32 \<Longrightarrow> n < 2 ^ 32 \<Longrightarrow> (of_nat m :: u32) < of_nat n \<longleftrightarrow> m < n"
  by (simp add: word_less_nat_alt unat_of_nat)

lemma take_skipped_slots:
  assumes "distinct js" "\<forall>j \<in> set js. base + j < 2 ^ 32" "base + i < 2 ^ 32"
  shows "take_skipped (of_nat (base + i)) (map (key_slot C ck base) js) =
     (if i \<in> set js then Some (key_at C ck i, map (key_slot C ck base) (remove1 i js)) else None)"
  using assms
proof (induction js)
  case (Cons j js)
  then have "(of_nat (base + j) :: u32) = of_nat (base + i) \<longleftrightarrow> j = i"
    by (subst of_nat_u32_eq) auto
  with Cons show ?case by (auto simp: key_slot_def simp del: of_nat_add)
qed simp

lemma tracks_bank:
  assumes "tracks C ck base rk p dn" "p < 1024"
  shows "tracks C ck base ((bank_skipped rk (rk_iteration rk) (key_at C ck p))
     \<lparr>rk_chain_key := fst (kdf_ck C (rk_chain_key rk)), rk_iteration := rk_iteration rk + 1\<rparr>) (Suc p) dn"
proof -
  from assms(1) obtain js where js: "rk_skipped rk = map (key_slot C ck base) js" "distinct js" "set js = {..<p} - dn"
    and dn: "dn \<subseteq> {..<p}" and ck: "rk_chain_key rk = chain_at C ck p" "rk_iteration rk = of_nat (base + p)"
    by (auto simp: tracks_def)
  from js(2,3) have "length js \<le> card {..<p}" by (metis Diff_subset card_mono distinct_card finite_lessThan)
  with assms(2) have "length (rk_skipped rk) < 1024" by (simp add: js(1))
  then have "rk_skipped (bank_skipped rk (rk_iteration rk) (key_at C ck p)) = map (key_slot C ck base) (js @ [p])"
    by (simp add: bank_skipped_def evict_oldest_id js(1) key_slot_def ck)
  moreover have "set (js @ [p]) = {..<Suc p} - dn" "distinct (js @ [p])" using js dn by auto
  ultimately show ?thesis using dn ck by (auto simp: tracks_def add_ac intro!: exI [of _ "js @ [p]"])
qed

lemma ratchet_to_tracks:
  assumes "tracks C ck base rk p dn" "p \<le> i" "i \<le> 1024" "base + i < 2 ^ 32"
  shows "tracks C ck base (ratchet_to C rk (of_nat (base + i))) i dn"
  using assms
proof (induction "i - p" arbitrary: p rk)
  case 0
  then have "\<not> rk_iteration rk < of_nat (base + i)" by (simp add: tracks_def)
  with 0 show ?case by (subst ratchet_to.simps) simp
next
  case (Suc k)
  then have "p < i" by simp
  with Suc.prems have lt: "rk_iteration rk < of_nat (base + i)" and key: "snd (kdf_ck C (rk_chain_key rk)) = key_at C ck p"
    by (simp_all add: tracks_def of_nat_u32_less key_at_def del: of_nat_add)
  have "rk_iteration (bank_skipped rk it mk) = rk_iteration rk" for it mk by (simp add: bank_skipped_def)
  moreover from Suc \<open>p < i\<close> have "k = i - Suc p" "p < 1024" "Suc p \<le> i" by simp_all
  note Suc.hyps(1) [OF this(1) tracks_bank [OF Suc.prems(1) this(2)] this(3) Suc.prems(3,4)]
  ultimately show ?case using lt key
    by (subst ratchet_to.simps) (simp add: split_def Let_def)
qed

lemma message_key_tracks:
  assumes "tracks C ck base rk p dn" "i \<le> 1024" "p \<le> 1025" "base + 1025 < 2 ^ 32"
  shows "i \<in> dn \<Longrightarrow> message_key C rk (of_nat (base + i)) = Err DecryptFailed"
    and "i \<notin> dn \<Longrightarrow> \<exists>rk'. message_key C rk (of_nat (base + i)) = Ok (key_at C ck i, rk')
        \<and> tracks C ck base rk' (max p (Suc i)) (insert i dn)"
proof -
  from assms(1) obtain js where js: "rk_skipped rk = map (key_slot C ck base) js" "distinct js" "set js = {..<p} - dn"
    and dn: "dn \<subseteq> {..<p}" and ck: "rk_chain_key rk = chain_at C ck p" "rk_iteration rk = of_nat (base + p)"
    by (auto simp: tracks_def)
  have small: "\<forall>j \<in> set js. base + j < 2 ^ 32" "base + i < 2 ^ 32" "base + p < 2 ^ 32" using js(3) assms(2-4) by auto
  note take = take_skipped_slots [OF js(2) small(1,2), of C ck]
  have lt: "(of_nat (base + i) :: u32) < rk_iteration rk \<longleftrightarrow> i < p"
    using small by (simp add: ck of_nat_u32_less del: of_nat_add)
  show "message_key C rk (of_nat (base + i)) = Err DecryptFailed" if "i \<in> dn"
    using that take js dn lt by (auto simp: message_key_def simp del: of_nat_add)
  show "\<exists>rk'. message_key C rk (of_nat (base + i)) = Ok (key_at C ck i, rk')
        \<and> tracks C ck base rk' (max p (Suc i)) (insert i dn)" if nd: "i \<notin> dn"
  proof (cases "i < p")
    case True
    with nd js take have "message_key C rk (of_nat (base + i)) =
        Ok (key_at C ck i, rk\<lparr>rk_skipped := map (key_slot C ck base) (remove1 i js)\<rparr>)"
      by (simp add: message_key_def del: of_nat_add)
    moreover have "tracks C ck base (rk\<lparr>rk_skipped := map (key_slot C ck base) (remove1 i js)\<rparr>) p (insert i dn)"
      using js dn ck True by (auto simp: tracks_def intro!: exI [of _ "remove1 i js"])
    moreover have "max p (Suc i) = p" using True by simp
    ultimately show ?thesis by metis
  next
    case False
    let ?rk = "ratchet_to C rk (of_nat (base + i))"
    from False assms small have t: "tracks C ck base ?rk i dn" by (intro ratchet_to_tracks) auto
    have gap: "(of_nat (base + i) :: u32) - rk_iteration rk = of_nat (i - p)"
      using False by (simp add: ck of_nat_diff)
    have "(of_nat (i - p) :: u32) \<le> MAX_SKIP" using assms(2) by (simp add: word_le_nat_alt unat_of_nat)
    with False js take gap lt have "message_key C rk (of_nat (base + i)) = Ok (key_at C ck i,
        ?rk\<lparr>rk_chain_key := chain_at C ck (Suc i), rk_iteration := of_nat (base + Suc i)\<rparr>)"
      using t by (simp add: message_key_def Let_def split_def tracks_def key_at_def not_less not_le add_ac del: of_nat_add)
    moreover have "tracks C ck base (?rk\<lparr>rk_chain_key := chain_at C ck (Suc i), rk_iteration := of_nat (base + Suc i)\<rparr>) (Suc i) (insert i dn)"
      using t by (auto simp: tracks_def)
    moreover have "max p (Suc i) = Suc i" using False by simp
    ultimately show ?thesis by metis
  qed
qed

section \<open>Conversations\<close>

fun group_send_all :: "crypto \<Rightarrow> group \<Rightarrow> (bytes \<times> bytes) list \<Rightarrow> group_message list \<times> group" where
  "group_send_all C g [] = ([], g)"
| "group_send_all C g ((plaintext, ad) # xs) =
     (let (msg, g) = group_encrypt C g plaintext ad; (msgs, g) = group_send_all C g xs in (msg # msgs, g))"

fun group_receive_all :: "crypto \<Rightarrow> group \<Rightarrow> (group_message \<times> bytes) list \<Rightarrow> (error + bytes) list \<times> group" where
  "group_receive_all C g [] = ([], g)"
| "group_receive_all C g ((msg, ad) # xs) =
     (let (r, g) = group_decrypt C g msg ad; (rs, g) = group_receive_all C g xs in (r # rs, g))"

definition sent_at :: "crypto \<Rightarrow> group \<Rightarrow> bytes \<times> bytes \<Rightarrow> nat \<Rightarrow> group_message" where
  "sent_at C g text j =
     (let ct = aead_encrypt C (key_at C (sk_chain_key (g_own g)) j) (fst text) (snd text);
          it = of_nat (unat (sk_iteration (g_own g)) + j)
      in \<lparr>gm_sender = g_own_id g, gm_iteration = it, gm_ciphertext = ct,
          gm_signature = ed_sign C (sk_signing (g_own g)) (signed_bytes it ct)\<rparr>)"

lemma chain_at_shift: "chain_at C (fst (kdf_ck C ck)) j = chain_at C ck (Suc j)"
  by (induction j) simp_all

lemma group_encrypt_sent: "fst (group_encrypt C g m ad) = sent_at C g (m, ad) 0"
  by (simp add: group_encrypt_def sender_encrypt_def sent_at_def Let_def split_def key_at_def)

lemma sent_at_encrypt: "sent_at C (snd (group_encrypt C g m ad)) t j = sent_at C g t (Suc j)"
proof -
  let ?it = "sk_iteration (g_own g)"
  have "of_nat (unat (?it + 1) + j) = (of_nat (unat ?it + Suc j) :: u32)" by simp
  then show ?thesis
    by (simp add: group_encrypt_def sender_encrypt_def sent_at_def Let_def split_def key_at_def chain_at_shift
      del: of_nat_add chain_at.simps)
qed

lemma group_send_all_nth:
  "fst (group_send_all C g texts) = map (\<lambda>j. sent_at C g (texts ! j) j) [0 ..< length texts]"
proof (induction texts arbitrary: g)
  case (Cons t texts)
  show ?case
    using Cons.IH [of "snd (group_encrypt C g (fst t) (snd t))"]
    by (cases t) (simp add: split_def Let_def group_encrypt_sent sent_at_encrypt map_upt_Suc del: upt_Suc)
qed simp

definition member_tracks :: "crypto \<Rightarrow> group \<Rightarrow> group \<Rightarrow> nat \<Rightarrow> nat set \<Rightarrow> bool" where
  "member_tracks C ga gb p dn \<longleftrightarrow> (\<exists>rk. map_of (g_members gb) (g_own_id ga) = Some rk
     \<and> rk_signing_public rk = ed_public C (sk_signing (g_own ga))
     \<and> tracks C (sk_chain_key (g_own ga)) (unat (sk_iteration (g_own ga))) rk p dn)"

lemma ratchet_to_signing [simp]: "rk_signing_public (ratchet_to C rk t) = rk_signing_public rk"
  by (induction C rk t rule: ratchet_to.induct) (subst ratchet_to.simps, simp add: split_def Let_def bank_skipped_def)

lemma message_key_signing: "message_key C rk t = Ok (mk, rk') \<Longrightarrow> rk_signing_public rk' = rk_signing_public rk"
  by (auto simp: message_key_def Let_def split_def split: option.splits if_splits)

lemma group_decrypt_sent:
  assumes "aead_ok C" "ed_ok C" "member_tracks C ga gb p dn" "i \<le> 1024" "p \<le> 1025"
    and "unat (sk_iteration (g_own ga)) + 1025 < 2 ^ 32"
  shows "i \<in> dn \<Longrightarrow> fst (group_decrypt C gb (sent_at C ga t i) ad) = Err DecryptFailed"
    and "i \<notin> dn \<Longrightarrow> fst (group_decrypt C gb (sent_at C ga t i) (snd t)) = Ok (fst t)
      \<and> member_tracks C ga (snd (group_decrypt C gb (sent_at C ga t i) (snd t))) (max p (Suc i)) (insert i dn)"
proof -
  let ?m = "sent_at C ga t i" and ?ck = "sk_chain_key (g_own ga)" and ?base = "unat (sk_iteration (g_own ga))"
  from assms(3) obtain rk where rk: "map_of (g_members gb) (g_own_id ga) = Some rk"
      "rk_signing_public rk = ed_public C (sk_signing (g_own ga))" and tr: "tracks C ?ck ?base rk p dn"
    by (auto simp: member_tracks_def)
  note mk = message_key_tracks [OF tr assms(4-6)]
  have m: "gm_sender ?m = g_own_id ga" "gm_iteration ?m = of_nat (?base + i)"
      "gm_ciphertext ?m = aead_encrypt C (key_at C ?ck i) (fst t) (snd t)"
    by (simp_all add: sent_at_def Let_def)
  have sig: "length (gm_signature ?m) = 64"
    "ed_verify_strict C (rk_signing_public rk) (signed_bytes (gm_iteration ?m) (gm_ciphertext ?m)) (gm_signature ?m)"
    using ed_okD [OF assms(2)] by (simp_all add: sent_at_def Let_def rk(2))
  show "fst (group_decrypt C gb ?m ad) = Err DecryptFailed" if "i \<in> dn"
    using mk(1) [OF that] sig by (simp add: group_decrypt_def receiver_decrypt_def m rk(1) split_def Let_def del: of_nat_add)
  show "fst (group_decrypt C gb ?m (snd t)) = Ok (fst t)
      \<and> member_tracks C ga (snd (group_decrypt C gb ?m (snd t))) (max p (Suc i)) (insert i dn)" if nd: "i \<notin> dn"
  proof -
    from mk(2) [OF nd] obtain rk' where rk': "message_key C rk (of_nat (?base + i)) = Ok (key_at C ?ck i, rk')"
      and tr': "tracks C ?ck ?base rk' (max p (Suc i)) (insert i dn)" by blast
    have dec: "receiver_decrypt C rk ?m (snd t) = (Ok (fst t), rk')"
      using sig rk' by (simp add: receiver_decrypt_def m aead_decrypt_encrypt [OF assms(1)] del: of_nat_add)
    from message_key_signing [OF rk'] tr' show ?thesis
      by (simp add: group_decrypt_def m(1) rk dec member_tracks_def)
  qed
qed

lemma group_receive_all_tracks:
  assumes "aead_ok C" "ed_ok C" "member_tracks C ga gb p dn" "p \<le> 1025"
    and "unat (sk_iteration (g_own ga)) + 1025 < 2 ^ 32"
    and "distinct order" "set order \<inter> dn = {}" "\<forall>i \<in> set order. i \<le> 1024"
  shows "fst (group_receive_all C gb (map (\<lambda>i. (sent_at C ga (t i) i, snd (t i))) order)) = map (\<lambda>i. Ok (fst (t i))) order
    \<and> (\<exists>p' \<le> 1025. member_tracks C ga (snd (group_receive_all C gb (map (\<lambda>i. (sent_at C ga (t i) i, snd (t i))) order)))
         p' (set order \<union> dn))"
  using assms(3,4,6-)
proof (induction order arbitrary: gb p dn)
  case Nil
  then show ?case by auto
next
  case (Cons i order)
  then have "i \<notin> dn" and i: "i \<le> 1024" by auto
  note dec = group_decrypt_sent(2) [OF assms(1,2) Cons.prems(1) i Cons.prems(2) assms(5) \<open>i \<notin> dn\<close>, of "t i"]
  let ?gb = "snd (group_decrypt C gb (sent_at C ga (t i) i) (snd (t i)))"
  from Cons.prems i have "max p (Suc i) \<le> 1025" "distinct order" "set order \<inter> insert i dn = {}" "\<forall>i \<in> set order. i \<le> 1024"
    by auto
  from Cons.IH [OF conjunct2 [OF dec] this] dec show ?case by (simp add: split_def Let_def insert_commute)
qed

lemma add_member_tracks:
  assumes "add_member C gb (g_own_id ga) (group_distribution C ga) = (Ok (), gb')"
  shows "member_tracks C ga gb' 0 {}"
  using assms
  by (auto simp: add_member_def result_elims receiver_from_distribution_def group_distribution_def sender_distribution_def
    member_tracks_def tracks_def split: if_splits)

section \<open>Properties\<close>

text \<open>
  C11: group messages arrive in any order, once.  A member that accepted the sender's key
  decrypts any selection of up to 1025 messages the sender then encrypts, in any order, each
  to its plaintext; and every message it has read is refused with \<open>DecryptFailed\<close> when it
  comes again, whatever associated data is supplied.
\<close>

theorem group_any_order_once:
  assumes "aead_ok C" "ed_ok C"
    and "add_member C gb (g_own_id ga) (group_distribution C ga) = (Ok (), gb')"
    and "group_send_all C ga texts = (msgs, ga')" "length texts \<le> 1025"
    and "unat (sk_iteration (g_own ga)) + 1025 < 2 ^ 32"
    and "distinct order" "set order \<subseteq> {..<length texts}"
    and "group_receive_all C gb' (map (\<lambda>i. (msgs ! i, snd (texts ! i))) order) = (rs, gb'')"
  shows "rs = map (\<lambda>i. Ok (fst (texts ! i))) order
     \<and> (\<forall>i \<in> set order. \<forall>ad. fst (group_decrypt C gb'' (msgs ! i) ad) = Err DecryptFailed)"
proof -
  from assms(4) group_send_all_nth [of C ga texts]
  have msgs: "i < length texts \<Longrightarrow> msgs ! i = sent_at C ga (texts ! i) i" for i by simp
  with assms(8) have eq: "map (\<lambda>i. (msgs ! i, snd (texts ! i))) order = map (\<lambda>i. (sent_at C ga (texts ! i) i, snd (texts ! i))) order"
    by auto
  have run: "group_receive_all C gb' (map (\<lambda>i. (sent_at C ga (texts ! i) i, snd (texts ! i))) order) = (rs, gb'')"
    using assms(9) by (simp only: eq)
  have "\<forall>i \<in> set order. i \<le> 1024" using assms(5,8) by fastforce
  from group_receive_all_tracks [OF assms(1,2) add_member_tracks [OF assms(3)] _ assms(6,7) _ this, of "\<lambda>i. texts ! i"] run
  have rs: "rs = map (\<lambda>i. Ok (fst (texts ! i))) order" and "\<exists>p' \<le> 1025. member_tracks C ga gb'' p' (set order)"
    by simp_all
  then obtain p' where p': "p' \<le> 1025" "member_tracks C ga gb'' p' (set order)" by blast
  have "fst (group_decrypt C gb'' (msgs ! i) ad) = Err DecryptFailed" if "i \<in> set order" for i ad
    using group_decrypt_sent(1) [OF assms(1,2) p'(2) _ p'(1) assms(6) that, of "texts ! i" ad] msgs [of i] that assms(5,8)
    by fastforce
  with rs show ?thesis by blast
qed

definition sample_group :: "byte \<Rightarrow> group" where
  "sample_group b = fst (group_new sample_platform [b])"

theorem group_any_order_once_witness:
  "\<exists>gb' msgs ga' rs gb''.
     add_member sample_crypto (sample_group 2) (g_own_id (sample_group 1)) (group_distribution sample_crypto (sample_group 1)) = (Ok (), gb')
   \<and> group_send_all sample_crypto (sample_group 1) [([10], [0]), ([20], [0]), ([30], [1])] = (msgs, ga')
   \<and> group_receive_all sample_crypto gb' [(msgs ! 2, [1]), (msgs ! 0, [0])] = (rs, gb'')
   \<and> rs = [Ok [30], Ok [10]] \<and> fst (group_decrypt sample_crypto gb'' (msgs ! 2) [1]) = Err DecryptFailed"
proof -
  let ?texts = "[([10], [0]), ([20], [0]), ([30], [1])] :: (bytes \<times> bytes) list"
  obtain gb' where add: "add_member sample_crypto (sample_group 2) (g_own_id (sample_group 1))
      (group_distribution sample_crypto (sample_group 1)) = (Ok (), gb')"
    by (simp add: add_member_def receiver_from_distribution_def sample_crypto_def)
  obtain msgs ga' where send: "group_send_all sample_crypto (sample_group 1) ?texts = (msgs, ga')" by fastforce
  obtain rs gb'' where recv: "group_receive_all sample_crypto gb' [(msgs ! 2, [1]), (msgs ! 0, [0])] = (rs, gb'')" by fastforce
  have it: "unat (sk_iteration (g_own (sample_group 1))) + 1025 < 2 ^ 32"
    by (simp add: sample_group_def group_new_def sender_generate_def Let_def split_def fill_random_def)
  from group_any_order_once [OF sample_aead_ok sample_ed_ok add send _ it, of "[2, 0]" rs gb''] recv
  have "rs = [Ok [30], Ok [10]] \<and> fst (group_decrypt sample_crypto gb'' (msgs ! 2) [1]) = Err DecryptFailed"
    by simp
  with add send recv show ?thesis by blast
qed



text \<open>
  A group survives persistence.  Exporting a well-formed group whose members' signing keys
  were accepted and importing the snapshot gives back the same group.
\<close>

theorem group_export_import:
  assumes "group_inv g" "\<forall>(mid, rk) \<in> set (g_members g). ed_public_ok C (rk_signing_public rk)"
  shows "group_import C (group_export g) = Ok g"
  using assms by (intro group_import_export) (simp_all add: group_inv_def)

theorem group_export_import_witness:
  "group_import sample_crypto (group_export (sample_group 1)) = Ok (sample_group 1)"
  by (rule group_export_import)
    (simp_all add: sample_group_def group_encrypt_rotate_inv, simp add: group_new_def Let_def split_def)

end
