(* ===== verification/Wireops.thy ===== *)
theory Wireops
  imports X3dh Message
begin

text \<open>
  Sealing, opening and padding of envelopes, record building and message ids
  (\<open>mycellium-engine/src/wireops.rs\<close>).
\<close>

definition associated_data :: "messaging_public_key \<Rightarrow> messaging_public_key \<Rightarrow> bytes" where
  "associated_data initiator responder = initiator @ responder"

definition random_id :: "platform \<Rightarrow> string \<times> platform" where
  "random_id p = (let (bs, p) = fill_random p 16 in (wireops_hex bs, p))"

definition make_app_message :: "platform \<Rightarrow> body \<Rightarrow> app_message \<times> platform" where
  "make_app_message p b =
     (let (i, p) = random_id p; (now, p) = now_unix_secs p
      in (\<lparr>msg_id = i, msg_timestamp = now, msg_expires_at = None, msg_body = b\<rparr>, p))"

definition text_message :: "platform \<Rightarrow> string \<Rightarrow> app_message \<times> platform" where
  "text_message p text = make_app_message p (Text text)"

definition device_slot :: "device_public_key \<Rightarrow> string" where
  "device_slot key = wireops_hex key"

definition my_group_id :: "crypto \<Rightarrow> identity \<Rightarrow> bytes" where
  "my_group_id C identity = device_public C identity"

definition group_ad :: "string \<Rightarrow> bytes" where
  "group_ad group_id = str_bytes ''group:'' @ str_bytes group_id"

definition this_device :: "crypto \<Rightarrow> claim_codecs \<Rightarrow> identity \<Rightarrow> u64 \<Rightarrow> device" where
  "this_device C K identity seq = device_create C K identity seq"

definition build_record ::
    "crypto \<Rightarrow> claim_codecs \<Rightarrow> platform \<Rightarrow> identity \<Rightarrow> handle \<Rightarrow> string \<Rightarrow> signed_record \<times> platform" where
  "build_record C K p identity h name =
     (let (device_seq, p) = now_unix_secs p;
          (record_seq, p) = now_unix_secs p;
          r = \<lparr>rec_user_id = user_id_from_wallet C (wallet_public C identity), rec_handle = h, rec_name = name,
               rec_wallet = wallet_public C identity, rec_device = this_device C K identity device_seq, rec_seq = record_seq\<rparr>
      in (signed_record_sign C K r identity, p))"

section \<open>Size buckets\<close>

definition PAD_BUCKETS :: "nat list" where
  "PAD_BUCKETS = [256, 1024, 4096, 16384, 65536, 262144]"

definition div_ceil :: "nat \<Rightarrow> nat \<Rightarrow> nat" where
  "div_ceil a b = (a + b - 1) div b"

definition pad_target :: "nat \<Rightarrow> nat" where
  "pad_target needed = (case List.find (\<lambda>b. b \<ge> needed) PAD_BUCKETS of
      Some b \<Rightarrow> b
    | None \<Rightarrow> div_ceil needed 65536 * 65536)"

definition pad_bucket :: "bytes \<Rightarrow> bytes" where
  "pad_bucket payload =
     (let needed = 4 + length payload;
          target = pad_target needed;
          out = to_le_bytes32 (of_nat (length payload)) @ payload
      in take target out @ replicate (target - length out) 0)"

definition unpad_bucket :: "bytes \<Rightarrow> any_error + bytes" where
  "unpad_bucket padded =
     (if length padded < 4 then Err (AnyMsg ''padded payload too short'')
      else let len = unat (from_le_bytes32 (take 4 padded)); end = 4 + len
           in if end \<le> length padded then Ok (take len (drop 4 padded))
              else Err (AnyMsg ''padded length prefix out of range''))"

section \<open>Envelopes\<close>

definition seal_to_with_record ::
    "crypto \<Rightarrow> platform \<Rightarrow> identity \<Rightarrow> handle \<Rightarrow> signed_record \<Rightarrow> device \<Rightarrow> bytes \<Rightarrow> (any_error + envelope) \<times> platform" where
  "seal_to_with_record C p identity me sender_record device plaintext =
     (let responder_ik = dr_id_key (sd_record (dev_signed device));
          responder_spk = pk_public (dr_signed_pre_key (sd_record (dev_signed device)))
      in tryS (map_errS (\<lambda>e. AnyMsg (error_display e)) (x3dh_initiate C p identity responder_ik responder_spk)) (\<lambda>initiated p.
         let ad = associated_data (messaging_public C identity) responder_ik;
             sealed = one_shot_seal C (shared_secret initiated) (pad_bucket plaintext) ad;
             (now, p) = now_unix_secs p
         in (Ok \<lparr>env_from = me, env_sender_record = sender_record, env_init = hs_init initiated,
               env_message = sealed, env_timestamp = now\<rparr>, p)))"

definition seal_to ::
    "crypto \<Rightarrow> claim_codecs \<Rightarrow> platform \<Rightarrow> identity \<Rightarrow> handle \<Rightarrow> string \<Rightarrow> device \<Rightarrow> bytes \<Rightarrow> (any_error + envelope) \<times> platform" where
  "seal_to C K p identity me my_name device plaintext =
     (let (sender_record, p) = build_record C K p identity me my_name
      in seal_to_with_record C p identity me sender_record device plaintext)"

definition open_envelope :: "crypto \<Rightarrow> claim_codecs \<Rightarrow> identity \<Rightarrow> envelope \<Rightarrow> any_error + (handle \<times> bytes)" where
  "open_envelope C K identity env =
     (let r = s_record (env_sender_record env) in
      tryR (map_err (\<lambda>_. AnyMsg ''sender record failed verification'') (signed_record_verify C K (env_sender_record env))) (\<lambda>_.
      if rec_user_id r \<noteq> user_id_from_wallet C (rec_wallet r)
        then Err (AnyMsg ''sender record user id does not match its wallet'')
      else if env_from env \<noteq> rec_handle r
        then Err (AnyMsg ''sender handle does not match its record'')
      else if dr_id_key (sd_record (dev_signed (rec_device r))) \<noteq> initiator_ik (env_init env)
        then Err (AnyMsg ''handshake is not bound to the sender's identity'')
      else
        tryR (map_err (\<lambda>e. AnyMsg (error_display e)) (x3dh_respond C identity (env_init env))) (\<lambda>shared.
        let ad = associated_data (initiator_ik (env_init env)) (messaging_public C identity) in
        tryR (map_err (\<lambda>_. AnyMsg ''could not decrypt message'') (one_shot_open C shared (env_message env) ad)) (\<lambda>padded.
        tryR (unpad_bucket padded) (\<lambda>plaintext.
        Ok (env_from env, plaintext))))))"

section \<open>Facts\<close>

lemma div_ceil_ge: "0 < b \<Longrightarrow> a \<le> div_ceil a b * b"
proof -
  assume b: "0 < b"
  have "a + b - 1 < div_ceil a b * b + b"
    unfolding div_ceil_def using b by (metis add.commute div_mult_mod_eq mod_less_divisor nat_add_left_cancel_less)
  with b show ?thesis by linarith
qed

lemma pad_target_ge: "n \<le> pad_target n"
  using div_ceil_ge [of 65536 n] find_Some_prop [of "\<lambda>b. b \<ge> n" PAD_BUCKETS]
  by (auto simp: pad_target_def split: option.split)

lemma pad_target_bucket: "pad_target n \<in> set PAD_BUCKETS \<or> 65536 dvd pad_target n"
  using find_Some_prop [of "\<lambda>b. b \<ge> n" PAD_BUCKETS] by (auto simp: pad_target_def split: option.split)

lemma pad_bucket_eq:
  "pad_bucket payload = to_le_bytes32 (of_nat (length payload)) @ payload @ replicate (pad_target (4 + length payload) - (4 + length payload)) 0"
  using pad_target_ge [of "4 + length payload"] by (simp add: pad_bucket_def Let_def)

lemma length_pad_bucket: "length (pad_bucket payload) = pad_target (4 + length payload)"
  using pad_target_ge [of "4 + length payload"] by (simp add: pad_bucket_eq)

lemma unpad_pad: "length payload < 2 ^ 32 \<Longrightarrow> unpad_bucket (pad_bucket payload) = Ok payload"
  by (simp add: unpad_bucket_def pad_bucket_eq Let_def unat_of_nat)

lemma build_record_own:
  assumes "build_record C K p i h name = (sr, p')" "length name \<le> MAX_NAME_LEN"
  shows "own_record C i (s_record sr)" "rec_handle (s_record sr) = h"
    "\<exists>seq. rec_device (s_record sr) = device_create C K i seq" "sr = signed_record_sign C K (s_record sr) i"
  using assms by (auto simp: build_record_def Let_def split_def this_device_def own_record_def signed_record_sign_def)

lemma build_record_verifies:
  assumes "k256_ok C" "ed_ok C" "identity_ok C i" "length name \<le> MAX_NAME_LEN" "build_record C K p i h name = (sr, p')"
  shows "signed_record_verify C K sr = Ok ()"
proof -
  note br = build_record_own [OF assms(5,4)]
  from br(3) obtain seq where "rec_device (s_record sr) = device_create C K i seq" by blast
  from signed_record_sign_verifies [OF assms(1-3) br(1) this] br(4) show ?thesis by simp
qed

lemma seal_with_record_opens:
  assumes "dh_ok C" "aead_ok C" "length plaintext < 2 ^ 32"
    and verify: "signed_record_verify C K sr = Ok ()" and "rec_handle (s_record sr) = me"
    and ik: "dr_id_key (sd_record (dev_signed (rec_device (s_record sr)))) = messaging_public C alice"
    and "dr_id_key (sd_record (dev_signed dev)) = messaging_public C bob"
    and "pk_public (dr_signed_pre_key (sd_record (dev_signed dev))) = signed_pre_key_public C bob"
    and seal: "seal_to_with_record C p alice me sr dev plaintext = (Ok env, p')"
  shows "open_envelope C K bob env = Ok (me, plaintext)"
proof -
  from seal obtain ini p1 where
    ini: "x3dh_initiate C p alice (messaging_public C bob) (signed_pre_key_public C bob) = (Ok ini, p1)"
    and env: "env_from env = me" "env_sender_record env = sr" "env_init env = hs_init ini"
      "env_message env = one_shot_seal C (shared_secret ini) (pad_bucket plaintext)
         (associated_data (messaging_public C alice) (messaging_public C bob))"
    using assms(7,8) by (auto simp: seal_to_with_record_def Let_def split_def result_elims)
  from ini have "initiator_ik (hs_init ini) = messaging_public C alice"
    by (auto simp: x3dh_initiate_def Let_def split_def result_elims)
  moreover from verify have "rec_user_id (s_record sr) = user_id_from_wallet C (rec_wallet (s_record sr))"
    by (simp add: signed_record_verify_Ok Let_def)
  ultimately show ?thesis
    using assms(2,3,5) verify ik x3dh_agreement [OF assms(1) ini]
    by (simp add: open_envelope_def Let_def env one_shot_open_seal unpad_pad)
qed

lemma open_envelope_binds:
  assumes "open_envelope C K bob env = Ok (h, pt)"
  shows "signed_record_verify C K (env_sender_record env) = Ok ()" "h = env_from env"
    "h = rec_handle (s_record (env_sender_record env))"
    "initiator_ik (env_init env) = dr_id_key (sd_record (dev_signed (rec_device (s_record (env_sender_record env)))))"
    "\<exists>sk padded. x3dh_respond C bob (env_init env) = Ok sk
       \<and> one_shot_open C sk (env_message env) (associated_data (initiator_ik (env_init env)) (messaging_public C bob)) = Ok padded
       \<and> unpad_bucket padded = Ok pt"
  using assms by (auto simp: open_envelope_def Let_def result_elims split: if_splits)

lemma seal_with_record_ok:
  "is_ok (fst (x3dh_initiate C p i (dr_id_key (sd_record (dev_signed dev))) (pk_public (dr_signed_pre_key (sd_record (dev_signed dev)))))) \<Longrightarrow>
   \<exists>env p'. seal_to_with_record C p i me sr dev pt = (Ok env, p')"
  by (cases "x3dh_initiate C p i (dr_id_key (sd_record (dev_signed dev))) (pk_public (dr_signed_pre_key (sd_record (dev_signed dev))))")
    (auto simp: seal_to_with_record_def is_ok_iff Let_def split_def)

lemma sample_seal:
  "\<exists>env p'. seal_to_with_record sample_crypto (sample_platform\<lparr>reads := n\<rparr>) (sample_identity 3) me sr
     (device_create sample_crypto sample_claims (sample_identity 4) 1) pt = (Ok env, p')"
proof -
  have "is_ok (fst (x3dh_initiate sample_crypto sample_platform (sample_identity 3)
     (messaging_public sample_crypto (sample_identity 4)) (signed_pre_key_public sample_crypto (sample_identity 4))))"
    by code_simp
  then have "is_ok (fst (x3dh_initiate sample_crypto (sample_platform\<lparr>reads := n\<rparr>) (sample_identity 3)
     (messaging_public sample_crypto (sample_identity 4)) (signed_pre_key_public sample_crypto (sample_identity 4))))"
    by (auto simp: x3dh_initiate_def fill_random_def Let_def tryE_def split: sum.splits)
  then show ?thesis
    by (intro seal_with_record_ok) (simp add: device_create_def signed_pre_key_create_def Let_def)
qed

lemma random_id_hex: "fst (random_id p) = hex (entropy p (draws p) 16)"
  by (simp add: random_id_def fill_random_def Let_def wireops_hex_eq)

section \<open>Properties\<close>

text \<open>
  Padding hides the length and loses nothing.  Every payload shorter than four gigabytes
  is recovered exactly from its padded form, whose size is one of the fixed buckets or a
  multiple of 64 KiB and depends only on the bucket the payload falls in.
\<close>

theorem pad_bucket_roundtrip:
  assumes "length payload < 2 ^ 32"
  shows "unpad_bucket (pad_bucket payload) = Ok payload
     \<and> length (pad_bucket payload) = pad_target (4 + length payload)
     \<and> (length (pad_bucket payload) \<in> set PAD_BUCKETS \<or> 65536 dvd length (pad_bucket payload))"
  using assms pad_target_bucket [of "4 + length payload"] by (simp add: unpad_pad length_pad_bucket)

theorem pad_bucket_roundtrip_witness:
  "unpad_bucket (pad_bucket [1, 2, 3]) = Ok [1, 2, 3] \<and> length (pad_bucket [1, 2, 3]) = pad_target 7"
  using pad_bucket_roundtrip [of "[1, 2, 3]"] by simp

text \<open>
  C15: an envelope reaches the one it was sealed for.  What an account seals to the device
  another account published, with its own freshly built record, opens at that account to the
  sender's handle and the exact plaintext.
\<close>

theorem seal_then_open:
  assumes "dh_ok C" "aead_ok C" "k256_ok C" "ed_ok C" "identity_ok C alice"
    and "length my_name \<le> MAX_NAME_LEN" "length plaintext < 2 ^ 32"
    and "seal_to C K p alice me my_name (device_create C K bob seq) plaintext = (Ok env, p')"
  shows "open_envelope C K bob env = Ok (me, plaintext)"
proof -
  obtain sr p1 where br: "build_record C K p alice me my_name = (sr, p1)" by fastforce
  note own = build_record_own [OF br assms(6)]
  from own(3) have ik: "dr_id_key (sd_record (dev_signed (rec_device (s_record sr)))) = messaging_public C alice"
    by (auto simp: device_create_def Let_def)
  show ?thesis
  proof (rule seal_with_record_opens [OF assms(1,2,7) _ own(2) ik])
    show "signed_record_verify C K sr = Ok ()" by (rule build_record_verifies [OF assms(3-6) br])
    show "seal_to_with_record C p1 alice me sr (device_create C K bob seq) plaintext = (Ok env, p')"
      using assms(8) br by (simp add: seal_to_def)
  qed (simp_all add: device_create_def Let_def signed_pre_key_create_def)
qed

theorem seal_then_open_witness:
  "\<exists>env p'. seal_to sample_crypto sample_claims sample_platform (sample_identity 3) ''ari'' ''Ari''
       (device_create sample_crypto sample_claims (sample_identity 4) 1) [1, 2] = (Ok env, p')
     \<and> open_envelope sample_crypto sample_claims (sample_identity 4) env = Ok (''ari'', [1, 2])"
proof -
  let ?run = "seal_to sample_crypto sample_claims sample_platform (sample_identity 3) ''ari'' ''Ari''
       (device_create sample_crypto sample_claims (sample_identity 4) 1) [1, 2]"
  have "\<exists>env p'. ?run = (Ok env, p')"
    using sample_seal [of 2] by (simp add: seal_to_def build_record_def now_unix_secs_def Let_def sample_platform_def numeral_2_eq_2)
  then obtain env p' where run: "?run = (Ok env, p')" by blast
  from seal_then_open [OF _ _ _ _ _ _ _ run] run show ?thesis by (simp add: sample_ok MAX_NAME_LEN_def)
qed



end
