(* ===== verification/Stores.thy ===== *)
theory Stores
  imports FileStore Delivery
begin

text \<open>
  The engine's small persistent stores: drafts, disappearing-message defaults, attachment
  bodies, learned names, the block list, accepted deliveries, the address book and the
  verification records (\<open>mycellium-engine/src/{draft,expiry,attachments,names,blocklist,inbox,
  contacts,verified,reachability}.rs\<close>).

  Every operation takes the storage dictionary \<open>S\<close> and the codec of the value it keeps.  The
  lemmas are proved once against the contract \<open>kv_store\<close>; the properties state them for the
  encrypted file store.
\<close>

section \<open>Drafts and expiry defaults\<close>

definition draft_key :: "string \<Rightarrow> bytes" where
  "draft_key peer = str_bytes ''draft/'' @ str_bytes peer"

definition draft_set :: "'s storage \<Rightarrow> string codec \<Rightarrow> 's \<Rightarrow> string \<Rightarrow> string \<Rightarrow> (any_error + unit) \<times> 's" where
  "draft_set S c st peer text = io_put S st (draft_key peer) (wire_encode c text)"

definition draft_get :: "'s storage \<Rightarrow> string codec \<Rightarrow> 's \<Rightarrow> string \<Rightarrow> any_error + string option" where
  "draft_get S c st peer = tryR (io_get S st (draft_key peer)) (\<lambda>bs. load_state c bs ''draft'')"

definition draft_clear :: "'s storage \<Rightarrow> 's \<Rightarrow> string \<Rightarrow> (any_error + unit) \<times> 's" where
  "draft_clear S st peer = io_delete S st (draft_key peer)"

definition expiry_key :: "string \<Rightarrow> bytes" where
  "expiry_key peer = str_bytes ''expire/'' @ str_bytes peer"

definition expiry_set :: "'s storage \<Rightarrow> u64 codec \<Rightarrow> 's \<Rightarrow> string \<Rightarrow> u64 \<Rightarrow> (any_error + unit) \<times> 's" where
  "expiry_set S c st peer ttl_secs = io_put S st (expiry_key peer) (wire_encode c ttl_secs)"

definition expiry_get :: "'s storage \<Rightarrow> u64 codec \<Rightarrow> 's \<Rightarrow> string \<Rightarrow> any_error + u64 option" where
  "expiry_get S c st peer = tryR (io_get S st (expiry_key peer)) (\<lambda>bs. load_state c bs ''expiry default'')"

definition expiry_clear :: "'s storage \<Rightarrow> 's \<Rightarrow> string \<Rightarrow> (any_error + unit) \<times> 's" where
  "expiry_clear S st peer = io_delete S st (expiry_key peer)"

section \<open>Attachments\<close>

record stored_attachment =
  att_id :: string
  att_name :: string
  att_mime :: string
  att_data :: bytes

definition attachment_key :: "string \<Rightarrow> bytes" where
  "attachment_key i = str_bytes ''attachment:'' @ str_bytes i"

definition attachment_save ::
    "'s storage \<Rightarrow> stored_attachment codec \<Rightarrow> 's \<Rightarrow> stored_attachment \<Rightarrow> (io_error + unit) \<times> 's" where
  "attachment_save S c st a = st_put S st (attachment_key (att_id a)) (wire_encode c a)"

definition attachment_load ::
    "'s storage \<Rightarrow> stored_attachment codec \<Rightarrow> 's \<Rightarrow> string \<Rightarrow> any_error + stored_attachment option" where
  "attachment_load S c st i = tryR (io_get S st (attachment_key i)) (\<lambda>bs. case bs of
      None \<Rightarrow> Ok None
    | Some b \<Rightarrow> (case wire_decode c b of
          Ok a \<Rightarrow> Ok (Some a)
        | Err _ \<Rightarrow> Err (AnyMsg (''stored attachment '' @ quoted i @ '' is corrupt''))))"

section \<open>Learned names\<close>

definition NAMES_KEY :: bytes where
  "NAMES_KEY = str_bytes ''names''"

type_synonym names_codec = "(string \<times> string) list codec"

definition names_load :: "'s storage \<Rightarrow> names_codec \<Rightarrow> 's \<Rightarrow> any_error + (string \<times> string) list" where
  "names_load S c st = tryR (io_get S st NAMES_KEY) (\<lambda>bs. decode_state [] c bs ''learned names'')"

definition names_note :: "'s storage \<Rightarrow> names_codec \<Rightarrow> 's \<Rightarrow> string \<Rightarrow> string \<Rightarrow> (any_error + unit) \<times> 's" where
  "names_note S c st i name =
     (if name = [] then (Ok (), st)
      else tryE (names_load S c st) st (\<lambda>list.
        case List.find (\<lambda>e. fst e = i) list of
          Some entry \<Rightarrow>
            if snd entry = name then (Ok (), st)
            else io_put S st NAMES_KEY (wire_encode c (upd_first (\<lambda>e. fst e = i) (\<lambda>e. (fst e, name)) list))
        | None \<Rightarrow> io_put S st NAMES_KEY (wire_encode c (list @ [(i, name)]))))"

definition names_get :: "'s storage \<Rightarrow> names_codec \<Rightarrow> 's \<Rightarrow> string \<Rightarrow> any_error + string option" where
  "names_get S c st i = tryR (names_load S c st) (\<lambda>list. Ok (map_option snd (List.find (\<lambda>e. fst e = i) list)))"

section \<open>Block list\<close>

definition BLOCKLIST_KEY :: bytes where
  "BLOCKLIST_KEY = str_bytes ''blocklist''"

definition blocklist_load :: "'s storage \<Rightarrow> string list codec \<Rightarrow> 's \<Rightarrow> any_error + string list" where
  "blocklist_load S c st = tryR (io_get S st BLOCKLIST_KEY) (\<lambda>bs. case bs of
      None \<Rightarrow> Ok []
    | Some b \<Rightarrow>
        tryR (map_err (\<lambda>_. AnyMsg ''local block list is corrupt'') (wire_decode c b)) (\<lambda>users.
        if list_ex (\<lambda>user. \<not> is_ok (user_id_new user)) users
        then Err (AnyMsg ''local block list contains an invalid user id'')
        else Ok users))"

definition block :: "'s storage \<Rightarrow> string list codec \<Rightarrow> 's \<Rightarrow> string \<Rightarrow> (any_error + unit) \<times> 's" where
  "block S c st uid =
     tryE (map_err (\<lambda>_. AnyMsg ''invalid user id'') (user_id_new uid)) st (\<lambda>uid.
     tryE (blocklist_load S c st) st (\<lambda>list.
     if \<not> list_ex (\<lambda>known. known = uid) list
     then io_put S st BLOCKLIST_KEY (wire_encode c (list @ [uid]))
     else (Ok (), st)))"

definition unblock :: "'s storage \<Rightarrow> string list codec \<Rightarrow> 's \<Rightarrow> string \<Rightarrow> (any_error + unit) \<times> 's" where
  "unblock S c st uid =
     tryE (map_err (\<lambda>_. AnyMsg ''invalid user id'') (user_id_new uid)) st (\<lambda>uid.
     tryE (blocklist_load S c st) st (\<lambda>list.
     io_put S st BLOCKLIST_KEY (wire_encode c (filter (\<lambda>known. known \<noteq> uid) list))))"

definition is_blocked :: "string list \<Rightarrow> string \<Rightarrow> bool" where
  "is_blocked list uid = list_ex (\<lambda>known. known = uid) list"

section \<open>Accepted deliveries\<close>

definition LEGACY_KEY :: bytes where
  "LEGACY_KEY = str_bytes ''accepted-deliveries''"

record accepted_delivery =
  ad_id :: string
  ad_payload_digest :: bytes
  ad_accepted_at :: u64

datatype seen = New | Duplicate | Collision

record inbox_codecs =
  c_accepted :: "accepted_delivery codec"
  c_accepted_list :: "accepted_delivery list codec"

definition inbox_key :: "string \<Rightarrow> bytes" where
  "inbox_key i = str_bytes ''accepted-delivery:'' @ str_bytes i"

definition decode_entry :: "inbox_codecs \<Rightarrow> bytes \<Rightarrow> any_error + accepted_delivery" where
  "decode_entry c bs = map_err (\<lambda>_. AnyMsg ''accepted delivery state is corrupt'') (wire_decode (c_accepted c) bs)"

definition legacy_entry :: "'s storage \<Rightarrow> inbox_codecs \<Rightarrow> 's \<Rightarrow> string \<Rightarrow> any_error + accepted_delivery option" where
  "legacy_entry S c st i = tryR (io_get S st LEGACY_KEY) (\<lambda>bs. case bs of
      None \<Rightarrow> Ok None
    | Some b \<Rightarrow>
        tryR (map_err (\<lambda>_. AnyMsg ''legacy accepted delivery index is corrupt'') (wire_decode (c_accepted_list c) b)) (\<lambda>accepted.
        Ok (List.find (\<lambda>entry. ad_id entry = i) accepted)))"

definition inbox_entry :: "'s storage \<Rightarrow> inbox_codecs \<Rightarrow> 's \<Rightarrow> string \<Rightarrow> any_error + accepted_delivery option" where
  "inbox_entry S c st i = tryR (io_get S st (inbox_key i)) (\<lambda>bs. case bs of
      Some b \<Rightarrow> tryR (decode_entry c b) (\<lambda>e. Ok (Some e))
    | None \<Rightarrow> legacy_entry S c st i)"

definition inbox_seen :: "'s storage \<Rightarrow> inbox_codecs \<Rightarrow> 's \<Rightarrow> string \<Rightarrow> bytes \<Rightarrow> any_error + seen" where
  "inbox_seen S c st i digest = tryR (inbox_entry S c st i) (\<lambda>entry. Ok (case entry of
      None \<Rightarrow> New
    | Some entry \<Rightarrow> if ad_payload_digest entry = digest then Duplicate else Collision))"

definition inbox_record :: "'s storage \<Rightarrow> inbox_codecs \<Rightarrow> 's \<Rightarrow> string \<Rightarrow> bytes \<Rightarrow> u64 \<Rightarrow> (any_error + unit) \<times> 's" where
  "inbox_record S c st i digest now = tryE (inbox_entry S c st i) st (\<lambda>existing. case existing of
      Some existing \<Rightarrow> (Ok (), st)
    | None \<Rightarrow> io_put S st (inbox_key i)
        (wire_encode (c_accepted c) \<lparr>ad_id = i, ad_payload_digest = digest, ad_accepted_at = now\<rparr>))"

section \<open>Contacts\<close>

record contact =
  nickname :: string
  ct_handle :: string
  ct_user_id :: string
  ct_wallet :: wallet_public_key

record contact_codecs =
  c_contact :: "contact codec"
  c_names :: "string list codec"

definition contact_key :: "string \<Rightarrow> bytes" where
  "contact_key n = str_bytes ''contact:'' @ str_bytes n"

definition CONTACTS_INDEX_KEY :: bytes where
  "CONTACTS_INDEX_KEY = str_bytes ''contacts''"

definition contacts_list_names :: "'s storage \<Rightarrow> contact_codecs \<Rightarrow> 's \<Rightarrow> any_error + string list" where
  "contacts_list_names S c st =
     tryR (io_get S st CONTACTS_INDEX_KEY) (\<lambda>bs. decode_state [] (c_names c) bs ''contact index'')"

definition contacts_save :: "'s storage \<Rightarrow> contact_codecs \<Rightarrow> 's \<Rightarrow> contact \<Rightarrow> (any_error + unit) \<times> 's" where
  "contacts_save S c st ct = tryE (contacts_list_names S c st) st (\<lambda>names.
     let mutations = [Put (contact_key (nickname ct)) (wire_encode (c_contact c) ct)];
         mutations = (if nickname ct \<notin> set names
           then mutations @ [Put CONTACTS_INDEX_KEY (wire_encode (c_names c) (names @ [nickname ct]))]
           else mutations)
     in io_batch S st mutations)"

definition contacts_load :: "'s storage \<Rightarrow> contact_codecs \<Rightarrow> 's \<Rightarrow> string \<Rightarrow> any_error + contact option" where
  "contacts_load S c st n =
     tryR (io_get S st (contact_key n)) (\<lambda>bs. load_state (c_contact c) bs (''contact '' @ quoted n))"

fun contacts_collect :: "'s storage \<Rightarrow> contact_codecs \<Rightarrow> 's \<Rightarrow> string list \<Rightarrow> any_error + contact list" where
  "contacts_collect S c st [] = Ok []"
| "contacts_collect S c st (name # names) =
     tryR (contacts_load S c st name) (\<lambda>found.
     tryR (contacts_collect S c st names) (\<lambda>out.
     Ok (case found of Some ct \<Rightarrow> ct # out | None \<Rightarrow> out)))"

definition contacts_list :: "'s storage \<Rightarrow> contact_codecs \<Rightarrow> 's \<Rightarrow> any_error + contact list" where
  "contacts_list S c st = tryR (contacts_list_names S c st) (contacts_collect S c st)"

definition contacts_remove :: "'s storage \<Rightarrow> contact_codecs \<Rightarrow> 's \<Rightarrow> string \<Rightarrow> (any_error + unit) \<times> 's" where
  "contacts_remove S c st n = tryE (contacts_list_names S c st) st (\<lambda>names.
     io_batch S st [Delete (contact_key n),
       Put CONTACTS_INDEX_KEY (wire_encode (c_names c) (filter (\<lambda>m. m \<noteq> n) names))])"

definition contacts_resolve :: "'s storage \<Rightarrow> contact_codecs \<Rightarrow> 's \<Rightarrow> string \<Rightarrow> any_error + string" where
  "contacts_resolve S c st input = tryR (contacts_load S c st input) (\<lambda>found.
     Ok (case found of Some ct \<Rightarrow> ct_handle ct | None \<Rightarrow> input))"

fun contacts_search :: "'s storage \<Rightarrow> contact_codecs \<Rightarrow> 's \<Rightarrow> (contact \<Rightarrow> bool) \<Rightarrow> string list \<Rightarrow> any_error + contact option" where
  "contacts_search S c st p [] = Ok None"
| "contacts_search S c st p (name # names) =
     tryR (contacts_load S c st name) (\<lambda>found. case found of
        Some ct \<Rightarrow> if p ct then Ok (Some ct) else contacts_search S c st p names
      | None \<Rightarrow> contacts_search S c st p names)"

definition by_handle :: "'s storage \<Rightarrow> contact_codecs \<Rightarrow> 's \<Rightarrow> string \<Rightarrow> any_error + contact option" where
  "by_handle S c st h = tryR (contacts_list_names S c st) (contacts_search S c st (\<lambda>ct. ct_handle ct = h))"

definition by_user_id :: "'s storage \<Rightarrow> contact_codecs \<Rightarrow> 's \<Rightarrow> string \<Rightarrow> any_error + contact option" where
  "by_user_id S c st uid = tryR (contacts_list_names S c st) (contacts_search S c st (\<lambda>ct. ct_user_id ct = uid))"

section \<open>Verification records\<close>

datatype trust_level = Verified | Pinned | Changed | Unverified

definition trust_label :: "trust_level \<Rightarrow> string" where
  "trust_label t = (case t of
      Verified \<Rightarrow> map char_of [0xE2, 0x9C, 0x93 :: nat] @ '' verified''
    | Pinned \<Rightarrow> map char_of [0xE2, 0x80, 0xA2 :: nat] @ '' pinned (TOFU, not verified)''
    | Changed \<Rightarrow> map char_of [0xE2, 0x9A, 0xA0 :: nat] @ '' IDENTITY CHANGED''
    | Unverified \<Rightarrow> ''? unverified (first contact)'')"

definition verified_key :: "string \<Rightarrow> bytes" where
  "verified_key uid = str_bytes ''verified:'' @ str_bytes uid"

definition verified_mark :: "'s storage \<Rightarrow> bytes codec \<Rightarrow> 's \<Rightarrow> string \<Rightarrow> wallet_public_key \<Rightarrow> (any_error + unit) \<times> 's" where
  "verified_mark S c st uid wallet = io_put S st (verified_key uid) (wire_encode c wallet)"

definition verified_get :: "'s storage \<Rightarrow> bytes codec \<Rightarrow> 's \<Rightarrow> string \<Rightarrow> any_error + wallet_public_key option" where
  "verified_get S c st uid = tryR (io_get S st (verified_key uid)) (\<lambda>bs. load_state c bs ''verification record'')"

definition verified_level ::
    "'s storage \<Rightarrow> bytes codec \<Rightarrow> contact_codecs \<Rightarrow> 's \<Rightarrow> string \<Rightarrow> wallet_public_key \<Rightarrow> trust_level" where
  "verified_level S c cc st uid current = (case verified_get S c st uid of
      Ok (Some v) \<Rightarrow> (if v = current then Verified else Changed)
    | Err _ \<Rightarrow> Changed
    | Ok None \<Rightarrow> (case by_user_id S cc st uid of
          Ok (Some ct) \<Rightarrow> (if ct_wallet ct = current then Pinned else Changed)
        | Err _ \<Rightarrow> Changed
        | Ok None \<Rightarrow> Unverified))"

section \<open>Delivery outcomes\<close>

datatype delivery_path = Direct | OutboxPath | FailedPath

definition is_delivered :: "delivery_path \<Rightarrow> bool" where
  "is_delivered p = (case p of Direct \<Rightarrow> True | _ \<Rightarrow> False)"

definition is_live_direct :: "delivery_path \<Rightarrow> bool" where
  "is_live_direct p = (case p of Direct \<Rightarrow> True | _ \<Rightarrow> False)"

definition default_order :: "delivery_path list" where
  "default_order = [Direct]"

definition best_paths_for :: "'s storage \<Rightarrow> 's \<Rightarrow> string \<Rightarrow> delivery_path \<Rightarrow> u64 \<Rightarrow> delivery_path list" where
  "best_paths_for S st slot live now = [live]"

section \<open>Facts about the stores\<close>

lemma blocklist_load_some:
  "st_get S st BLOCKLIST_KEY = Ok (Some (wire_encode c users)) \<Longrightarrow> codec_ok c \<Longrightarrow>
   list_all (\<lambda>u. is_ok (user_id_new u)) users \<Longrightarrow> blocklist_load S c st = Ok users"
  by (simp add: blocklist_load_def io_get_def list_ex_iff list_all_iff)

lemma blocklist_load_valid: "blocklist_load S c st = Ok users \<Longrightarrow> list_all (\<lambda>u. is_ok (user_id_new u)) users"
  by (auto simp: blocklist_load_def result_elims list_ex_iff list_all_iff split: option.splits if_splits)

lemma inbox_keys [simp]: "inbox_key i = inbox_key j \<longleftrightarrow> i = j" "inbox_key i \<noteq> LEGACY_KEY"
  by (simp_all add: inbox_key_def LEGACY_KEY_def str_bytes_def) (auto dest: map_injective [OF _ inj_of_char_byte])

lemma contact_keys [simp]: "contact_key i = contact_key j \<longleftrightarrow> i = j" "contact_key i \<noteq> CONTACTS_INDEX_KEY"
  "CONTACTS_INDEX_KEY \<noteq> contact_key i"
  by (simp_all add: contact_key_def CONTACTS_INDEX_KEY_def str_bytes_def) (auto dest: map_injective [OF _ inj_of_char_byte])

lemma verified_key_contacts [simp]: "verified_key u \<noteq> contact_key i" "verified_key u \<noteq> CONTACTS_INDEX_KEY"
  "verified_key u = verified_key v \<longleftrightarrow> u = v"
  by (simp_all add: verified_key_def contact_key_def CONTACTS_INDEX_KEY_def str_bytes_def)
    (auto dest: map_injective [OF _ inj_of_char_byte])

lemma user_id_new_Ok: "user_id_new u = Ok v \<longleftrightarrow> v = u \<and> is_ok (user_id_new u)"
  by (auto simp: user_id_new_def)

text \<open>The address book invariant: the index lists each stored nickname once, and every entry loads.\<close>

definition contacts_inv :: "'s storage \<Rightarrow> contact_codecs \<Rightarrow> 's \<Rightarrow> bool" where
  "contacts_inv S c st \<longleftrightarrow> (\<exists>names. contacts_list_names S c st = Ok names \<and> distinct names \<and>
     (\<forall>n. n \<in> set names \<longleftrightarrow> contacts_load S c st n \<noteq> Ok None) \<and>
     (\<forall>n \<in> set names. \<exists>ct. contacts_load S c st n = Ok (Some ct) \<and> nickname ct = n))"

definition contact_codecs_ok :: "contact_codecs \<Rightarrow> bool" where
  "contact_codecs_ok c \<longleftrightarrow> codec_ok (c_contact c) \<and> codec_ok (c_names c)"

lemma contacts_collect_ok:
  "\<forall>n \<in> set names. \<exists>ct. contacts_load S c st n = Ok (Some ct) \<and> nickname ct = n \<Longrightarrow>
   \<exists>cts. contacts_collect S c st names = Ok cts \<and> map nickname cts = names"
  by (induction names) auto

lemma contacts_search_ok:
  "\<forall>n \<in> set names. \<exists>ct. contacts_load S c st n = Ok (Some ct) \<and> nickname ct = n \<Longrightarrow>
   \<exists>r. contacts_search S c st p names = Ok r \<and>
     (case r of None \<Rightarrow> \<forall>n \<in> set names. \<forall>ct. contacts_load S c st n = Ok (Some ct) \<longrightarrow> \<not> p ct
      | Some ct \<Rightarrow> p ct \<and> nickname ct \<in> set names \<and> contacts_load S c st (nickname ct) = Ok (Some ct))"
  by (induction names) (auto split: option.splits)

context kv_store
begin

lemma io_put_reads:
  assumes "inv st" "io_put S st k v = (Ok (), st')"
  shows "inv st'" "io_get S st' k' = (if k' = k then Ok (Some v) else io_get S st k')"
  using assms put_ok [of st k v st'] by (auto simp: io_get_def)

lemma io_delete_reads:
  assumes "inv st" "io_delete S st k = (Ok (), st')"
  shows "inv st'" "io_get S st' k' = (if k' = k then Ok None else io_get S st k')"
  using assms delete_ok [of st k st'] by (auto simp: io_get_def)

lemma io_batch_reads:
  assumes "inv st" "io_batch S st ms = (Ok (), st')"
  shows "inv st'" "io_get S st' k' = map_err AnyIo (apply_mutations ms (st_get S st) k')"
  using assms batch_ok [of st ms st'] by (auto simp: io_get_def)

lemma block_spec:
  assumes "inv st" "codec_ok c" "block S c st uid = (Ok (), st')"
  obtains l where "blocklist_load S c st = Ok l" "inv st'" "is_ok (user_id_new uid)"
    "blocklist_load S c st' = Ok (if uid \<in> set l then l else l @ [uid])"
    "\<And>k. k \<noteq> BLOCKLIST_KEY \<Longrightarrow> io_get S st' k = io_get S st k"
proof -
  from assms(3) obtain l where l: "blocklist_load S c st = Ok l" and v: "is_ok (user_id_new uid)"
    and run: "(if \<not> list_ex (\<lambda>known. known = uid) l then io_put S st BLOCKLIST_KEY (wire_encode c (l @ [uid])) else (Ok (), st)) = (Ok (), st')"
    by (auto simp: block_def result_elims user_id_new_Ok)
  show thesis
  proof (cases "uid \<in> set l")
    case True
    with run l v that assms(1) show thesis by (auto simp: list_ex_iff split: if_splits)
  next
    case False
    with run have put: "io_put S st BLOCKLIST_KEY (wire_encode c (l @ [uid])) = (Ok (), st')" by (auto simp: list_ex_iff)
    have "list_all (\<lambda>u. is_ok (user_id_new u)) (l @ [uid])" using blocklist_load_valid [OF l] v by simp
    with io_put_reads(2) [OF assms(1) put, of BLOCKLIST_KEY] assms(2) have "blocklist_load S c st' = Ok (l @ [uid])"
      by (intro blocklist_load_some) (simp_all add: io_get_def)
    with False l v that io_put_reads [OF assms(1) put] show thesis by simp
  qed
qed

lemma unblock_spec:
  assumes "inv st" "codec_ok c" "unblock S c st uid = (Ok (), st')"
  obtains l where "blocklist_load S c st = Ok l" "inv st'"
    "blocklist_load S c st' = Ok (filter (\<lambda>u. u \<noteq> uid) l)"
    "\<And>k. k \<noteq> BLOCKLIST_KEY \<Longrightarrow> io_get S st' k = io_get S st k"
proof -
  from assms(3) obtain l where l: "blocklist_load S c st = Ok l"
    and put: "io_put S st BLOCKLIST_KEY (wire_encode c (filter (\<lambda>u. u \<noteq> uid) l)) = (Ok (), st')"
    by (auto simp: unblock_def result_elims user_id_new_Ok)
  have "list_all (\<lambda>u. is_ok (user_id_new u)) (filter (\<lambda>u. u \<noteq> uid) l)"
    using blocklist_load_valid [OF l] by (auto simp: list_all_iff)
  with io_put_reads(2) [OF assms(1) put, of BLOCKLIST_KEY] assms(2)
  have "blocklist_load S c st' = Ok (filter (\<lambda>u. u \<noteq> uid) l)"
    by (intro blocklist_load_some) (simp_all add: io_get_def)
  with l that io_put_reads [OF assms(1) put] show thesis by simp
qed

lemma inbox_record_spec:
  assumes "inv st" "codec_ok (c_accepted c)" "inbox_record S c st i digest now = (Ok (), st')"
  shows "inv st'" and "\<exists>e. inbox_entry S c st i = Ok e \<and>
     inbox_entry S c st' i = Ok (Some (case e of Some e \<Rightarrow> e | None \<Rightarrow> \<lparr>ad_id = i, ad_payload_digest = digest, ad_accepted_at = now\<rparr>))"
    and "j \<noteq> i \<Longrightarrow> inbox_entry S c st' j = inbox_entry S c st j"
proof -
  from assms(3) obtain e where e: "inbox_entry S c st i = Ok e"
    and run: "(case e of Some existing \<Rightarrow> (Ok (), st) | None \<Rightarrow> io_put S st (inbox_key i)
        (wire_encode (c_accepted c) \<lparr>ad_id = i, ad_payload_digest = digest, ad_accepted_at = now\<rparr>)) = (Ok (), st')"
    by (auto simp: inbox_record_def result_elims)
  have "inv st' \<and> (\<exists>e. inbox_entry S c st i = Ok e \<and>
     inbox_entry S c st' i = Ok (Some (case e of Some e \<Rightarrow> e | None \<Rightarrow> \<lparr>ad_id = i, ad_payload_digest = digest, ad_accepted_at = now\<rparr>)))
     \<and> (j \<noteq> i \<longrightarrow> inbox_entry S c st' j = inbox_entry S c st j)"
  proof (cases e)
    case (Some x)
    with e run assms(1) show ?thesis by simp
  next
    case None
    with run have put: "io_put S st (inbox_key i)
        (wire_encode (c_accepted c) \<lparr>ad_id = i, ad_payload_digest = digest, ad_accepted_at = now\<rparr>) = (Ok (), st')" by simp
    note reads = io_put_reads [OF assms(1) put]
    have "legacy_entry S c st' j = legacy_entry S c st j"
      using reads(2) [of LEGACY_KEY] inbox_keys(2) [of i] by (simp add: legacy_entry_def split: if_splits)
    with None e reads assms(2) show ?thesis by (auto simp: inbox_entry_def decode_entry_def)
  qed
  then show "inv st'" "\<exists>e. inbox_entry S c st i = Ok e \<and>
     inbox_entry S c st' i = Ok (Some (case e of Some e \<Rightarrow> e | None \<Rightarrow> \<lparr>ad_id = i, ad_payload_digest = digest, ad_accepted_at = now\<rparr>))"
    "j \<noteq> i \<Longrightarrow> inbox_entry S c st' j = inbox_entry S c st j" by blast+
qed

lemma indexed_reads:
  assumes "inv st" "codec_ok ci" "codec_ok ce" and keys: "\<And>a b. key a = key b \<longleftrightarrow> a = b" "\<And>a. key a \<noteq> idx"
    and "tryR (io_get S st idx) (\<lambda>bs. decode_state [] ci bs w) = Ok names"
    and run: "io_batch S st (m # (if b then [Put idx (wire_encode ci names')] else [])) = (Ok (), st')"
    and m: "m = Put (key n) (wire_encode ce v) \<or> m = Delete (key n)"
  shows "inv st'" "tryR (io_get S st' idx) (\<lambda>bs. decode_state [] ci bs w) = Ok (if b then names' else names)"
    "tryR (io_get S st' (key n')) (\<lambda>bs. load_state ce bs w') =
       (if n' \<noteq> n then tryR (io_get S st (key n')) (\<lambda>bs. load_state ce bs w')
        else if m = Delete (key n) then Ok None else Ok (Some v))"
proof -
  have reads: "st_get S st' = apply_mutations (m # (if b then [Put idx (wire_encode ci names')] else [])) (st_get S st)"
    using batch_get [OF assms(1)] run by simp
  show "inv st'" using batch_inv [OF assms(1)] run by simp
  show "tryR (io_get S st' idx) (\<lambda>bs. decode_state [] ci bs w) = Ok (if b then names' else names)"
    using assms(2,6) keys(2) m by (auto simp: reads io_get_def not_sym [OF keys(2)])
  show "tryR (io_get S st' (key n')) (\<lambda>bs. load_state ce bs w') =
       (if n' \<noteq> n then tryR (io_get S st (key n')) (\<lambda>bs. load_state ce bs w')
        else if m = Delete (key n) then Ok None else Ok (Some v))"
    using assms(3) keys m by (auto simp: reads io_get_def)
qed

lemma contacts_reads:
  assumes "inv st" "contact_codecs_ok c" "contacts_list_names S c st = Ok names"
    and "io_batch S st (m # (if b then [Put CONTACTS_INDEX_KEY (wire_encode (c_names c) names')] else [])) = (Ok (), st')"
    and "m = Put (contact_key n) (wire_encode (c_contact c) ct) \<or> m = Delete (contact_key n)"
  shows "inv st'" "contacts_list_names S c st' = Ok (if b then names' else names)"
    "contacts_load S c st' n' = (if n' \<noteq> n then contacts_load S c st n' else
       if m = Delete (contact_key n) then Ok None else Ok (Some ct))"
  using indexed_reads [of st "c_names c" "c_contact c" contact_key CONTACTS_INDEX_KEY, OF assms(1) _ _ _ _ _ assms(4,5)] assms(2,3)
  unfolding contacts_list_names_def contacts_load_def contact_codecs_ok_def by simp_all

lemma contacts_save_spec:
  assumes "inv st" "contact_codecs_ok c" "contacts_inv S c st" "contacts_save S c st ct = (Ok (), st')"
  shows "inv st'" "contacts_inv S c st'"
    "contacts_load S c st' n = (if n = nickname ct then Ok (Some ct) else contacts_load S c st n)"
proof -
  from assms(3) obtain names where names: "contacts_list_names S c st = Ok names" "distinct names"
    and all: "\<And>n. n \<in> set names \<longleftrightarrow> contacts_load S c st n \<noteq> Ok None"
      "\<forall>n \<in> set names. \<exists>ct. contacts_load S c st n = Ok (Some ct) \<and> nickname ct = n"
    by (auto simp: contacts_inv_def)
  let ?new = "nickname ct \<notin> set names"
  from assms(4) names have run: "io_batch S st (Put (contact_key (nickname ct)) (wire_encode (c_contact c) ct) #
     (if ?new then [Put CONTACTS_INDEX_KEY (wire_encode (c_names c) (names @ [nickname ct]))] else [])) = (Ok (), st')"
    by (cases ?new) (simp_all add: contacts_save_def Let_def)
  note r = contacts_reads [OF assms(1,2) names(1) run disjI1 [OF refl]]
  show "inv st'" by (rule r)
  show load: "contacts_load S c st' n = (if n = nickname ct then Ok (Some ct) else contacts_load S c st n)" for n
    by (simp add: r(3))
  show "contacts_inv S c st'"
    using r(2) names(2) all by (auto simp: contacts_inv_def load)
qed

lemma contacts_remove_spec:
  assumes "inv st" "contact_codecs_ok c" "contacts_inv S c st" "contacts_remove S c st nick = (Ok (), st')"
  shows "inv st'" "contacts_inv S c st'"
    "contacts_load S c st' n = (if n = nick then Ok None else contacts_load S c st n)"
proof -
  from assms(3) obtain names where names: "contacts_list_names S c st = Ok names" "distinct names"
    and all: "\<And>n. n \<in> set names \<longleftrightarrow> contacts_load S c st n \<noteq> Ok None"
      "\<forall>n \<in> set names. \<exists>ct. contacts_load S c st n = Ok (Some ct) \<and> nickname ct = n"
    by (auto simp: contacts_inv_def)
  from assms(4) names have run: "io_batch S st (Delete (contact_key nick) #
     (if True then [Put CONTACTS_INDEX_KEY (wire_encode (c_names c) (filter (\<lambda>m. m \<noteq> nick) names))] else [])) = (Ok (), st')"
    by (simp add: contacts_remove_def)
  note r = contacts_reads [where ct = undefined, OF assms(1,2) names(1) run disjI2 [OF refl]]
  show "inv st'" by (rule r)
  show load: "contacts_load S c st' n = (if n = nick then Ok None else contacts_load S c st n)" for n
    by (simp add: r(3))
  show "contacts_inv S c st'"
    using r(2) names(2) all by (auto simp: contacts_inv_def load)
qed

lemma names_note_spec:
  assumes "inv st" "codec_ok c" "name \<noteq> []" "names_note S c st i name = (Ok (), st')"
  shows "inv st'" "names_get S c st' j = (if j = i then Ok (Some name) else names_get S c st j)"
proof -
  from assms(3,4) obtain l where l: "names_load S c st = Ok l"
    and run: "(case List.find (\<lambda>e. fst e = i) l of
        Some entry \<Rightarrow> if snd entry = name then (Ok (), st)
          else io_put S st NAMES_KEY (wire_encode c (upd_first (\<lambda>e. fst e = i) (\<lambda>e. (fst e, name)) l))
      | None \<Rightarrow> io_put S st NAMES_KEY (wire_encode c (l @ [(i, name)]))) = (Ok (), st')"
    by (auto simp: names_note_def result_elims)
  have get: "names_load S c st' = Ok l'" "inv st'" if "io_put S st NAMES_KEY (wire_encode c l') = (Ok (), st')" for l'
    using io_put_reads [OF assms(1) that] assms(2) by (simp_all add: names_load_def)
  have "inv st' \<and> names_get S c st' j = (if j = i then Ok (Some name) else names_get S c st j)"
  proof (cases "List.find (\<lambda>e. fst e = i) l")
    case None
    with run get [of "l @ [(i, name)]"] l show ?thesis
      by (auto simp: names_get_def find_append split: option.split)
  next
    case (Some e)
    show ?thesis
    proof (cases "snd e = name")
      case True
      with Some run l assms(1) show ?thesis by (auto simp: names_get_def)
    next
      case False
      let ?l = "upd_first (\<lambda>e. fst e = i) (\<lambda>e. (fst e, name)) l"
      from False Some run get [of ?l] have "names_load S c st' = Ok ?l" "inv st'" by auto
      moreover have "List.find (\<lambda>e. fst e = i) ?l = Some (fst e, name)"
        using Some find_Some_prop [OF Some] by (intro find_upd_first) simp_all
      moreover have "j \<noteq> i \<Longrightarrow> List.find (\<lambda>e. fst e = j) ?l = List.find (\<lambda>e. fst e = j) l"
        by (rule find_upd_first_other) auto
      ultimately show ?thesis using l by (auto simp: names_get_def)
    qed
  qed
  then show "inv st'" "names_get S c st' j = (if j = i then Ok (Some name) else names_get S c st j)" by auto
qed

lemma verified_mark_level:
  assumes "inv st" "codec_ok c" "verified_mark S c st uid w = (Ok (), st')"
  shows "verified_level S c cc st' uid current = (if w = current then Verified else Changed)"
  using io_put_reads [OF assms(1), of "verified_key uid" "wire_encode c w" st'] assms(2,3)
  by (simp add: verified_mark_def verified_level_def verified_get_def)

end

lemma verified_level_pin:
  assumes "verified_get S c st uid = Ok None" "contacts_inv S cc st" "contacts_load S cc st n = Ok (Some ct)" "ct_user_id ct = uid"
    and "\<And>m ct'. contacts_load S cc st m = Ok (Some ct') \<Longrightarrow> ct_user_id ct' = uid \<Longrightarrow> ct_wallet ct' = ct_wallet ct"
  shows "verified_level S c cc st uid current = (if ct_wallet ct = current then Pinned else Changed)"
proof -
  from assms(2) obtain names where names: "contacts_list_names S cc st = Ok names"
    and all: "\<forall>n. n \<in> set names \<longleftrightarrow> contacts_load S cc st n \<noteq> Ok None"
      "\<forall>n \<in> set names. \<exists>ct. contacts_load S cc st n = Ok (Some ct) \<and> nickname ct = n"
    by (auto simp: contacts_inv_def)
  from contacts_search_ok [OF all(2), of "\<lambda>ct. ct_user_id ct = uid"] obtain r where
    r: "contacts_search S cc st (\<lambda>ct. ct_user_id ct = uid) names = Ok r"
    and cases: "case r of None \<Rightarrow> \<forall>n \<in> set names. \<forall>ct. contacts_load S cc st n = Ok (Some ct) \<longrightarrow> ct_user_id ct \<noteq> uid
      | Some ct \<Rightarrow> ct_user_id ct = uid \<and> nickname ct \<in> set names \<and> contacts_load S cc st (nickname ct) = Ok (Some ct)"
    by blast
  from all(1) assms(3) have "n \<in> set names" by simp
  with cases assms(3,4) obtain ct' where "r = Some ct'" "ct_user_id ct' = uid" "contacts_load S cc st (nickname ct') = Ok (Some ct')"
    by (cases r) auto
  moreover from this assms(5) have "ct_wallet ct' = ct_wallet ct" by blast
  ultimately show ?thesis using assms(1) names r by (simp add: verified_level_def by_user_id_def)
qed

lemma verified_level_corrupt:
  "verified_get S c st uid = Err e \<Longrightarrow> verified_level S c cc st uid current = Changed"
  by (simp add: verified_level_def)

section \<open>A working sample store\<close>

lemma fs_put_no_faults: "no_faults E \<Longrightarrow> fs_dir st JOURNAL_FILE = None \<Longrightarrow> \<exists>st'. fs_put C E st k v = (Ok (), st')"
  using fs_apply_no_faults [of E C st "[Put k v]"]
  by (cases "put_raw C E st k v") (auto simp: fs_put_def ensure_ready_def fs_mutate_def tryS_def split: sum.splits)

lemma fs_apply_batch_no_faults:
  assumes "no_faults E" "fs_dir st JOURNAL_FILE = None"
  shows "\<exists>st'. fs_apply_batch C E M st ms = (Ok (), st')"
proof (cases "ms = []")
  case False
  from assms(1) obtain nonce where n: "getrandom E (fs_tick st) 12 = Some nonce" unfolding no_faults_def by blast
  have ap: "\<exists>st'. fs_apply C E st1 ms = (Ok (), st')" for st1
    using fs_apply_no_faults [OF assms(1), of C st1 ms] by (cases "fs_apply C E st1 ms") auto
  have fin: "\<exists>st'. finish_transaction E st1 = (Ok (), st')" for st1
    using assms(1) by (simp add: finish_transaction_def fs_write_def no_faults_def)
  have wr: "\<exists>st'. atomic_write E st1 p b = (Ok (), st')" for st1 p b
    using assms(1) by (simp add: atomic_write_def fs_write_def no_faults_def)
  obtain st1 where st1: "atomic_write E (tick st) JOURNAL_FILE
      (nonce @ chacha_encrypt C (fs_key st) nonce (wire_encode M ms) JOURNAL_AAD) = (Ok (), st1)" using wr by blast
  obtain st2 where st2: "fs_apply C E st1 ms = (Ok (), st2)" using ap by blast
  from fin [of st2] show ?thesis
    using False assms(2) n st1 st2 by (simp add: fs_apply_batch_def ensure_ready_def fs_encrypt_def)
qed (simp add: fs_apply_batch_def ensure_ready_def assms)

definition sample_ops :: "file_store storage" where
  "sample_ops = file_ops sample_crypto (sample_env (\<lambda>_. NoFault)) sample_batch"

lemma sample_store_ops:
  "\<exists>st'. io_put sample_ops sample_store k v = (Ok (), st')"
  "\<exists>st'. io_batch sample_ops sample_store ms = (Ok (), st')"
  "io_get sample_ops sample_store k = Ok None"
proof -
  have j: "fs_dir sample_store JOURNAL_FILE = None" by (simp add: sample_store_def)
  note ok = sample_env_ok(2)
  show "\<exists>st'. io_put sample_ops sample_store k v = (Ok (), st')"
    using fs_put_no_faults [OF ok j, of sample_crypto k v] by (simp add: sample_ops_def file_ops_def)
  show "\<exists>st'. io_batch sample_ops sample_store ms = (Ok (), st')"
    using fs_apply_batch_no_faults [OF ok j, of sample_crypto sample_batch ms] by (simp add: sample_ops_def file_ops_def)
  show "io_get sample_ops sample_store k = Ok None"
    by (simp add: sample_ops_def file_ops_def fs_get_def ensure_ready_def fs_read_def sample_store_def sample_env_def)
qed

definition sample_user :: "char \<Rightarrow> string" where
  "sample_user ch = replicate 64 ch"

lemma sample_user_ok [sample_ok]: "user_id_new (sample_user CHR ''a'') = Ok (sample_user CHR ''a'')"
  by code_simp

section \<open>Properties\<close>

text \<open>
  The block list does what it says.  Blocking a valid user id makes exactly that id blocked
  in addition, blocking twice changes nothing, unblocking removes it and no other, invalid ids
  are refused without touching the store, and no other key of the store changes.
\<close>

theorem blocklist_correct:
  assumes "fs_inv C E M st" "codec_ok c" "blocklist_load (file_ops C E M) c st = Ok l"
  shows "(block (file_ops C E M) c st uid = (Ok (), st1) \<longrightarrow>
       (\<exists>l'. blocklist_load (file_ops C E M) c st1 = Ok l' \<and> (\<forall>u. is_blocked l' u \<longleftrightarrow> u = uid \<or> is_blocked l u)
          \<and> (is_blocked l uid \<longrightarrow> l' = l)))
     \<and> (unblock (file_ops C E M) c st uid = (Ok (), st2) \<longrightarrow>
       (\<exists>l'. blocklist_load (file_ops C E M) c st2 = Ok l' \<and> (\<forall>u. is_blocked l' u \<longleftrightarrow> u \<noteq> uid \<and> is_blocked l u)))
     \<and> (\<not> is_ok (user_id_new uid) \<longrightarrow> block (file_ops C E M) c st uid = (Err (AnyMsg ''invalid user id''), st)
          \<and> unblock (file_ops C E M) c st uid = (Err (AnyMsg ''invalid user id''), st))
     \<and> (block (file_ops C E M) c st uid = (Ok (), st1) \<longrightarrow> (\<forall>k. k \<noteq> BLOCKLIST_KEY \<longrightarrow> fs_get C E st1 k = fs_get C E st k))"
proof -
  have invalid: "\<not> is_ok (user_id_new uid) \<Longrightarrow> \<exists>e. user_id_new uid = Err e" by (cases "user_id_new uid") auto
  have io: "io_get (file_ops C E M) s k = map_err AnyIo (fs_get C E s k)" for s k
    by (simp add: io_get_def file_ops_def)
  have inj: "map_err AnyIo r = map_err AnyIo r' \<Longrightarrow> r = r'" for r r' :: "io_error + bytes option"
    by (cases r; cases r') simp_all
  show ?thesis
  proof (intro conjI impI, goal_cases)
    case 1
    then show ?case using assms by (elim fs.block_spec [OF assms(1,2)]) (auto simp: is_blocked_def list_ex_iff)
  next
    case 2
    then show ?case using assms by (elim fs.unblock_spec [OF assms(1,2)]) (auto simp: is_blocked_def list_ex_iff)
  next
    case 3
    with invalid show ?case by (auto simp: block_def)
  next
    case 4
    with invalid show ?case by (auto simp: unblock_def)
  next
    case 5
    then show ?case by (elim fs.block_spec [OF assms(1,2)]) (auto simp: io dest!: inj)
  qed
qed

theorem blocklist_correct_witness:
  "\<exists>st' l'. block sample_ops (sample_codec (s_list s_string)) sample_store (sample_user CHR ''a'') = (Ok (), st')
     \<and> blocklist_load sample_ops (sample_codec (s_list s_string)) st' = Ok l' \<and> is_blocked l' (sample_user CHR ''a'')"
proof -
  let ?c = "sample_codec (s_list s_string)"
  have load: "blocklist_load sample_ops ?c sample_store = Ok []"
    by (simp add: blocklist_load_def sample_store_ops)
  obtain st' where "block sample_ops ?c sample_store (sample_user CHR ''a'') = (Ok (), st')"
    using sample_store_ops(1) [of BLOCKLIST_KEY "wire_encode ?c [sample_user CHR ''a'']"]
    by (auto simp: block_def load sample_ok)
  then show ?thesis
    using blocklist_correct [OF sample_fs_inv _ load [unfolded sample_ops_def], of "sample_user CHR ''a''" st' sample_store]
    by (auto simp: sample_ops_def sample_ok)
qed

text \<open>
  A delivery id is accepted for one payload only.  After a delivery was recorded, the same
  id with the same digest is a duplicate and with any other digest a collision; recording again
  never changes the stored entry, and other ids are unaffected.
\<close>

theorem inbox_first_acceptance_wins:
  assumes "fs_inv C E M st" "codec_ok (c_accepted c)"
    and "inbox_record (file_ops C E M) c st i digest now = (Ok (), st1)"
    and "inbox_seen (file_ops C E M) c st i digest = Ok New"
    and "inbox_record (file_ops C E M) c st1 i digest2 now2 = (Ok (), st2)"
  shows "inbox_seen (file_ops C E M) c st2 i d = Ok (if d = digest then Duplicate else Collision)
     \<and> inbox_entry (file_ops C E M) c st2 i = inbox_entry (file_ops C E M) c st1 i
     \<and> (j \<noteq> i \<longrightarrow> inbox_seen (file_ops C E M) c st2 j d = inbox_seen (file_ops C E M) c st j d)"
proof -
  let ?S = "file_ops C E M"
  note r1 = fs.inbox_record_spec [OF assms(1-3)]
  note r2 = fs.inbox_record_spec [OF r1(1) assms(2,5)]
  from assms(4) have "inbox_entry ?S c st i = Ok None"
    by (auto simp: inbox_seen_def result_elims not_None_eq [symmetric] simp del: not_None_eq split: option.split_asm if_splits)
  with r1(2) have e1: "inbox_entry ?S c st1 i = Ok (Some \<lparr>ad_id = i, ad_payload_digest = digest, ad_accepted_at = now\<rparr>)"
    by auto
  with r2(2) have e2: "inbox_entry ?S c st2 i = inbox_entry ?S c st1 i" by auto
  from r1(3) r2(3) have "j \<noteq> i \<Longrightarrow> inbox_entry ?S c st2 j = inbox_entry ?S c st j" by simp
  with e1 e2 show ?thesis by (simp add: inbox_seen_def)
qed

definition sample_inbox :: inbox_codecs where
  "sample_inbox =
     (let e = s_iso (\<lambda>a. (ad_id a, ad_payload_digest a, ad_accepted_at a))
        (\<lambda>(i, d, t). \<lparr>ad_id = i, ad_payload_digest = d, ad_accepted_at = t\<rparr>) (s_pair s_string (s_pair s_bytes s_word))
      in \<lparr>c_accepted = sample_codec e, c_accepted_list = sample_codec (s_list e)\<rparr>)"

lemma sample_inbox_ok [sample_ok]: "codec_ok (c_accepted sample_inbox)" "codec_ok (c_accepted_list sample_inbox)"
  by (auto simp: sample_inbox_def Let_def intro!: sample_ok s_iso_ok)

theorem inbox_first_acceptance_wins_witness:
  "\<exists>st1 st2. inbox_record sample_ops sample_inbox sample_store ''d1'' [1] 5 = (Ok (), st1)
     \<and> inbox_record sample_ops sample_inbox st1 ''d1'' [2] 6 = (Ok (), st2)
     \<and> inbox_seen sample_ops sample_inbox st2 ''d1'' [1] = Ok Duplicate
     \<and> inbox_seen sample_ops sample_inbox st2 ''d1'' [2] = Ok Collision"
proof -
  have new: "inbox_entry sample_ops sample_inbox sample_store i = Ok None" for i
    by (simp add: inbox_entry_def legacy_entry_def sample_store_ops)
  obtain st1 where r1: "inbox_record sample_ops sample_inbox sample_store ''d1'' [1] 5 = (Ok (), st1)"
    using sample_store_ops(1) by (fastforce simp: inbox_record_def new)
  note spec = fs.inbox_record_spec(2) [OF sample_fs_inv _ r1 [unfolded sample_ops_def]]
  have "\<exists>e. inbox_entry sample_ops sample_inbox st1 ''d1'' = Ok (Some e)"
    using spec by (auto simp: sample_ok sample_ops_def)
  then obtain st2 where r2: "inbox_record sample_ops sample_inbox st1 ''d1'' [2] 6 = (Ok (), st2)"
    by (auto simp: inbox_record_def)
  have seen: "inbox_seen sample_ops sample_inbox sample_store ''d1'' [1] = Ok New"
    by (simp add: inbox_seen_def new)
  from inbox_first_acceptance_wins [OF sample_fs_inv _ r1 [unfolded sample_ops_def] seen [unfolded sample_ops_def] r2 [unfolded sample_ops_def]]
  have "inbox_seen sample_ops sample_inbox st2 ''d1'' d = Ok (if d = [1] then Duplicate else Collision)" for d
    by (simp add: sample_ok sample_ops_def)
  with r1 r2 show ?thesis by auto
qed

text \<open>
  The address book stays consistent.  Its index lists each stored nickname exactly once and
  every listed contact loads; saving and removing a contact keep that and change exactly the
  named entry, so listing returns one contact per indexed nickname.
\<close>

theorem contacts_consistent:
  assumes "fs_inv C E M st" "contact_codecs_ok c" "contacts_inv (file_ops C E M) c st"
  shows "(contacts_save (file_ops C E M) c st ct = (Ok (), st1) \<longrightarrow> contacts_inv (file_ops C E M) c st1
         \<and> contacts_load (file_ops C E M) c st1 n = (if n = nickname ct then Ok (Some ct) else contacts_load (file_ops C E M) c st n))
     \<and> (contacts_remove (file_ops C E M) c st nick = (Ok (), st2) \<longrightarrow> contacts_inv (file_ops C E M) c st2
         \<and> contacts_load (file_ops C E M) c st2 n = (if n = nick then Ok None else contacts_load (file_ops C E M) c st n))
     \<and> (\<exists>names cts. contacts_list_names (file_ops C E M) c st = Ok names \<and> contacts_list (file_ops C E M) c st = Ok cts
         \<and> map nickname cts = names)"
proof -
  from assms(3) obtain names where names: "contacts_list_names (file_ops C E M) c st = Ok names"
    and all: "\<forall>n \<in> set names. \<exists>ct. contacts_load (file_ops C E M) c st n = Ok (Some ct) \<and> nickname ct = n"
    by (auto simp: contacts_inv_def)
  from contacts_collect_ok [OF all] names show ?thesis
    using fs.contacts_save_spec [OF assms] fs.contacts_remove_spec [OF assms] by (auto simp: contacts_list_def)
qed

definition sample_contact :: contact where
  "sample_contact = \<lparr>nickname = ''bo'', ct_handle = ''bob'', ct_user_id = sample_user CHR ''a'', ct_wallet = [2]\<rparr>"

definition sample_contact_codecs :: contact_codecs where
  "sample_contact_codecs = \<lparr>c_contact = sample_codec (s_iso (\<lambda>a. (nickname a, ct_handle a, ct_user_id a, ct_wallet a))
        (\<lambda>(n, h, u, w). \<lparr>nickname = n, ct_handle = h, ct_user_id = u, ct_wallet = w\<rparr>)
        (s_pair s_string (s_pair s_string (s_pair s_string s_bytes)))), c_names = sample_codec (s_list s_string)\<rparr>"

lemma sample_contact_codecs_ok [sample_ok]: "contact_codecs_ok sample_contact_codecs"
  by (auto simp: contact_codecs_ok_def sample_contact_codecs_def intro!: sample_ok s_iso_ok)

lemma sample_contacts_inv [sample_ok]: "contacts_inv sample_ops sample_contact_codecs sample_store"
  by (simp add: contacts_inv_def contacts_list_names_def contacts_load_def sample_store_ops)

lemma sample_contacts_save: "\<exists>st'. contacts_save sample_ops sample_contact_codecs sample_store sample_contact = (Ok (), st')"
  using sample_store_ops(2) by (simp add: contacts_save_def contacts_list_names_def sample_store_ops Let_def)

theorem contacts_consistent_witness:
  "\<exists>st'. contacts_save sample_ops sample_contact_codecs sample_store sample_contact = (Ok (), st')
     \<and> contacts_load sample_ops sample_contact_codecs st' ''bo'' = Ok (Some sample_contact)
     \<and> contacts_inv sample_ops sample_contact_codecs st'"
proof -
  obtain st' where save: "contacts_save sample_ops sample_contact_codecs sample_store sample_contact = (Ok (), st')"
    using sample_contacts_save by blast
  from contacts_consistent [OF sample_fs_inv sample_contact_codecs_ok sample_contacts_inv [unfolded sample_ops_def],
      of sample_contact st' "''bo''" "''zz''" sample_store] save
  show ?thesis by (auto simp: sample_ops_def sample_contact_def)
qed



lemma draft_key_inject [simp]: "draft_key a = draft_key b \<longleftrightarrow> a = b" and expiry_key_inject [simp]: "expiry_key a = expiry_key b \<longleftrightarrow> a = b"
  and attachment_key_inject [simp]: "attachment_key a = attachment_key b \<longleftrightarrow> a = b"
  by (simp_all add: draft_key_def expiry_key_def attachment_key_def)

text \<open>
  The per-conversation settings read back what was written.  A draft, an expiry default, an
  attachment body and a learned name are returned as stored, clearing a draft or an expiry
  default removes it, and entries for other peers, attachments and ids keep their values.
\<close>

theorem settings_roundtrip:
  assumes "fs_inv C E M st" "codec_ok cs" "codec_ok cu" "codec_ok ca" "codec_ok cn"
  shows "(draft_set (file_ops C E M) cs st p t = (Ok (), st1) \<longrightarrow>
        draft_get (file_ops C E M) cs st1 q = (if q = p then Ok (Some t) else draft_get (file_ops C E M) cs st q))
    \<and> (draft_clear (file_ops C E M) st p = (Ok (), st1) \<longrightarrow>
        draft_get (file_ops C E M) cs st1 q = (if q = p then Ok None else draft_get (file_ops C E M) cs st q))
    \<and> (expiry_set (file_ops C E M) cu st p ttl = (Ok (), st1) \<longrightarrow>
        expiry_get (file_ops C E M) cu st1 q = (if q = p then Ok (Some ttl) else expiry_get (file_ops C E M) cu st q))
    \<and> (expiry_clear (file_ops C E M) st p = (Ok (), st1) \<longrightarrow>
        expiry_get (file_ops C E M) cu st1 q = (if q = p then Ok None else expiry_get (file_ops C E M) cu st q))
    \<and> (attachment_save (file_ops C E M) ca st a = (Ok (), st1) \<longrightarrow>
        attachment_load (file_ops C E M) ca st1 q = (if q = att_id a then Ok (Some a) else attachment_load (file_ops C E M) ca st q))
    \<and> (name \<noteq> [] \<and> names_note (file_ops C E M) cn st p name = (Ok (), st1) \<longrightarrow>
        names_get (file_ops C E M) cn st1 q = (if q = p then Ok (Some name) else names_get (file_ops C E M) cn st q))"
proof -
  have att: "io_put (file_ops C E M) st (attachment_key (att_id a)) (wire_encode ca a) = (Ok (), st1)"
    if "attachment_save (file_ops C E M) ca st a = (Ok (), st1)"
    using that by (simp add: attachment_save_def)
  show ?thesis
    using assms(2-4) fs.io_put_reads(2) [OF assms(1)] fs.io_delete_reads(2) [OF assms(1)]
      fs.names_note_spec(2) [OF assms(1,5)] att
    by (auto simp: draft_set_def draft_get_def draft_clear_def expiry_set_def expiry_get_def expiry_clear_def
      attachment_load_def)
qed

theorem settings_roundtrip_witness:
  "\<exists>st'. draft_set sample_ops (sample_codec s_string) sample_store ''bo'' ''hi'' = (Ok (), st')
     \<and> draft_get sample_ops (sample_codec s_string) st' ''bo'' = Ok (Some ''hi'')"
proof -
  obtain st' where d: "draft_set sample_ops (sample_codec s_string) sample_store ''bo'' ''hi'' = (Ok (), st')"
    using sample_store_ops(1) by (auto simp: draft_set_def)
  have "codec_ok (sample_codec (s_iso (\<lambda>a. (att_id a, att_name a, att_mime a, att_data a))
      (\<lambda>(i, n, m, d). \<lparr>att_id = i, att_name = n, att_mime = m, att_data = d\<rparr>)
      (s_pair s_string (s_pair s_string (s_pair s_string s_bytes)))))"
    by (auto intro!: sample_ok s_iso_ok)
  from settings_roundtrip [where p = "''bo''" and t = "''hi''" and q = "''bo''" and ?st1.0 = st' and cs = "sample_codec s_string"
      and cu = "sample_codec s_word" and cn = "sample_codec (s_list (s_pair s_string s_string))", OF sample_fs_inv [where f = "\<lambda>_. NoFault"] _ _ this] d
  show ?thesis by (auto simp: sample_ops_def sample_ok)
qed

end
