(* ===== verification/Antirollback.thy ===== *)
theory Antirollback
  imports Stores
begin

text \<open>
  Anti-rollback version vectors (\<open>mycellium-engine/src/antirollback.rs\<close>): one pin per user with
  the high-water mark of the identity claim and of each device's key and transport claims.
\<close>

record device_pins =
  dp_key :: device_public_key
  dp_stable :: u64
  dp_stable_digest :: bytes
  dp_transport :: u64
  dp_transport_digest :: bytes

record version_pins =
  vp_identity :: u64
  vp_identity_digest :: bytes
  vp_devices :: "device_pins list"

definition default_pins :: version_pins where
  "default_pins = \<lparr>vp_identity = 0, vp_identity_digest = replicate 32 0, vp_devices = []\<rparr>"

record pin_codecs =
  c_pins :: "version_pins codec"
  c_device_record :: "device_record codec"
  c_pin_claims :: claim_codecs

definition antirollback_key :: "string \<Rightarrow> bytes" where
  "antirollback_key uid = str_bytes ''record-versions-v2:'' @ str_bytes uid"

definition pin_digest :: "crypto \<Rightarrow> 'a codec \<Rightarrow> 'a \<Rightarrow> bytes" where
  "pin_digest C c value = payload_digest C (canonical c value)"

definition antirollback_load :: "'s storage \<Rightarrow> pin_codecs \<Rightarrow> 's \<Rightarrow> string \<Rightarrow> io_error + version_pins option" where
  "antirollback_load S P st h = tryR (st_get S st (antirollback_key h)) (\<lambda>bs. case bs of
      None \<Rightarrow> Ok (Some default_pins)
    | Some b \<Rightarrow> (case wire_decode (c_pins P) b of Ok pins \<Rightarrow> Ok (Some pins) | Err _ \<Rightarrow> Ok None))"

definition identity_digest :: "crypto \<Rightarrow> pin_codecs \<Rightarrow> signed_record \<Rightarrow> bytes" where
  "identity_digest C P sr = payload_digest C (record_signing_bytes (c_pin_claims P) (s_record sr))"

definition stable_seq :: "signed_record \<Rightarrow> u64" where
  "stable_seq sr = dr_seq (sd_record (dev_signed (rec_device (s_record sr))))"

definition stable_digest :: "crypto \<Rightarrow> pin_codecs \<Rightarrow> signed_record \<Rightarrow> bytes" where
  "stable_digest C P sr = pin_digest C (c_device_record P) (sd_record (dev_signed (rec_device (s_record sr))))"

definition transport_seq :: "signed_record \<Rightarrow> u64" where
  "transport_seq sr = rr_seq (sr_record (dev_reachability (rec_device (s_record sr))))"

definition transport_digest :: "crypto \<Rightarrow> pin_codecs \<Rightarrow> signed_record \<Rightarrow> bytes" where
  "transport_digest C P sr = pin_digest C (c_reachability (c_pin_claims P)) (sr_record (dev_reachability (rec_device (s_record sr))))"

definition same_device :: "signed_record \<Rightarrow> device_pins \<Rightarrow> bool" where
  "same_device sr known \<longleftrightarrow> dp_key known = device_key (rec_device (s_record sr))"

text \<open>The two rejections of \<open>check_and_pin\<close>, and the advance of the pins.\<close>

definition identity_rolled_back :: "crypto \<Rightarrow> pin_codecs \<Rightarrow> version_pins \<Rightarrow> signed_record \<Rightarrow> bool" where
  "identity_rolled_back C P pins sr \<longleftrightarrow> rec_seq (s_record sr) < vp_identity pins
     \<or> (rec_seq (s_record sr) = vp_identity pins \<and> vp_identity pins \<noteq> 0 \<and> identity_digest C P sr \<noteq> vp_identity_digest pins)"

definition device_rolled_back :: "crypto \<Rightarrow> pin_codecs \<Rightarrow> version_pins \<Rightarrow> signed_record \<Rightarrow> bool" where
  "device_rolled_back C P pins sr = (case List.find (same_device sr) (vp_devices pins) of
      None \<Rightarrow> False
    | Some known \<Rightarrow> stable_seq sr < dp_stable known
        \<or> (stable_seq sr = dp_stable known \<and> stable_digest C P sr \<noteq> dp_stable_digest known)
        \<or> transport_seq sr < dp_transport known
        \<or> (transport_seq sr = dp_transport known \<and> transport_digest C P sr \<noteq> dp_transport_digest known))"

definition advance_device :: "crypto \<Rightarrow> pin_codecs \<Rightarrow> signed_record \<Rightarrow> device_pins \<Rightarrow> device_pins" where
  "advance_device C P sr known =
     (let known = (if stable_seq sr > dp_stable known
            then known\<lparr>dp_stable := stable_seq sr, dp_stable_digest := stable_digest C P sr\<rparr> else known)
      in if transport_seq sr > dp_transport known
         then known\<lparr>dp_transport := transport_seq sr, dp_transport_digest := transport_digest C P sr\<rparr> else known)"

definition advance_pins :: "crypto \<Rightarrow> pin_codecs \<Rightarrow> version_pins \<Rightarrow> signed_record \<Rightarrow> version_pins" where
  "advance_pins C P pins sr =
     (let pins = (if rec_seq (s_record sr) > vp_identity pins \<or> vp_identity pins = 0
            then pins\<lparr>vp_identity := rec_seq (s_record sr), vp_identity_digest := identity_digest C P sr\<rparr> else pins)
      in case List.find (same_device sr) (vp_devices pins) of
           Some _ \<Rightarrow> pins\<lparr>vp_devices := upd_first (same_device sr) (advance_device C P sr) (vp_devices pins)\<rparr>
         | None \<Rightarrow> pins\<lparr>vp_devices := vp_devices pins @ [\<lparr>dp_key = device_key (rec_device (s_record sr)),
              dp_stable = stable_seq sr, dp_stable_digest = stable_digest C P sr,
              dp_transport = transport_seq sr, dp_transport_digest = transport_digest C P sr\<rparr>]\<rparr>)"

definition check_and_pin ::
    "'s storage \<Rightarrow> crypto \<Rightarrow> pin_codecs \<Rightarrow> 's \<Rightarrow> string \<Rightarrow> signed_record \<Rightarrow> (io_error + bool) \<times> 's" where
  "check_and_pin S C P st h sr = tryE (antirollback_load S P st h) st (\<lambda>loaded. case loaded of
      None \<Rightarrow> (Ok False, st)
    | Some pins \<Rightarrow>
        if identity_rolled_back C P pins sr then (Ok False, st)
        else if device_rolled_back C P pins sr then (Ok False, st)
        else tryS (st_put S st (antirollback_key h) (wire_encode (c_pins P) (advance_pins C P pins sr))) (\<lambda>_ st. (Ok True, st)))"

definition antirollback_clear :: "'s storage \<Rightarrow> 's \<Rightarrow> string \<Rightarrow> (io_error + unit) \<times> 's" where
  "antirollback_clear S st h = st_delete S st (antirollback_key h)"

section \<open>What an accepted record leaves behind\<close>

definition covers :: "crypto \<Rightarrow> pin_codecs \<Rightarrow> version_pins \<Rightarrow> signed_record \<Rightarrow> bool" where
  "covers C P pins sr \<longleftrightarrow> rec_seq (s_record sr) \<le> vp_identity pins
     \<and> (rec_seq (s_record sr) = vp_identity pins \<and> vp_identity pins \<noteq> 0 \<longrightarrow> identity_digest C P sr = vp_identity_digest pins)
     \<and> (\<exists>known. List.find (same_device sr) (vp_devices pins) = Some known
         \<and> stable_seq sr \<le> dp_stable known \<and> (stable_seq sr = dp_stable known \<longrightarrow> stable_digest C P sr = dp_stable_digest known)
         \<and> transport_seq sr \<le> dp_transport known
         \<and> (transport_seq sr = dp_transport known \<longrightarrow> transport_digest C P sr = dp_transport_digest known))"

text \<open>The later record does not roll the earlier one back in any of the three components.\<close>

definition not_older :: "crypto \<Rightarrow> pin_codecs \<Rightarrow> signed_record \<Rightarrow> signed_record \<Rightarrow> bool" where
  "not_older C P old new \<longleftrightarrow> rec_seq (s_record old) \<le> rec_seq (s_record new)
     \<and> (rec_seq (s_record old) = rec_seq (s_record new) \<and> rec_seq (s_record old) \<noteq> 0 \<longrightarrow> identity_digest C P old = identity_digest C P new)
     \<and> (device_key (rec_device (s_record old)) = device_key (rec_device (s_record new)) \<longrightarrow>
          stable_seq old \<le> stable_seq new \<and> (stable_seq old = stable_seq new \<longrightarrow> stable_digest C P old = stable_digest C P new)
        \<and> transport_seq old \<le> transport_seq new \<and> (transport_seq old = transport_seq new \<longrightarrow> transport_digest C P old = transport_digest C P new))"

lemma pin_chain:
  fixes a b c :: u64
  assumes "a \<le> b" "a = b \<longrightarrow> x = y" "b \<le> c" "b = c \<longrightarrow> z = y"
  shows "a \<le> c \<and> (a = c \<longrightarrow> x = z)"
  using assms by (meson order_antisym order_trans)

lemma advance_device_key [simp]: "dp_key (advance_device C P sr known) = dp_key known"
  by (simp add: advance_device_def Let_def)

lemma advance_device_ge:
  "dp_stable known \<le> dp_stable (advance_device C P sr known)"
  "dp_stable known = dp_stable (advance_device C P sr known) \<longrightarrow> dp_stable_digest (advance_device C P sr known) = dp_stable_digest known"
  "dp_transport known \<le> dp_transport (advance_device C P sr known)"
  "dp_transport known = dp_transport (advance_device C P sr known) \<longrightarrow> dp_transport_digest (advance_device C P sr known) = dp_transport_digest known"
  by (auto simp: advance_device_def Let_def)

lemma same_device_advance [simp]: "same_device r (advance_device C P sr known) = same_device r known"
  by (simp add: same_device_def)

lemma covers_accepted:
  assumes "\<not> identity_rolled_back C P pins sr" "\<not> device_rolled_back C P pins sr"
  shows "covers C P (advance_pins C P pins sr) sr"
proof (cases "List.find (same_device sr) (vp_devices pins)")
  case None
  with assms show ?thesis
    by (auto simp: covers_def advance_pins_def Let_def identity_rolled_back_def find_append same_device_def)
next
  case (Some known)
  from find_upd_first [OF Some, of "advance_device C P sr"] find_Some_prop [OF Some]
  have "List.find (same_device sr) (upd_first (same_device sr) (advance_device C P sr) (vp_devices pins)) = Some (advance_device C P sr known)"
    by simp
  with Some assms show ?thesis
    by (auto simp: covers_def advance_pins_def Let_def identity_rolled_back_def device_rolled_back_def advance_device_def)
qed

lemma covers_later:
  assumes "covers C P pins old" "\<not> identity_rolled_back C P pins sr" "\<not> device_rolled_back C P pins sr"
  shows "covers C P (advance_pins C P pins sr) old"
proof -
  from assms(1) obtain known where known: "List.find (same_device old) (vp_devices pins) = Some known"
    "stable_seq old \<le> dp_stable known" "stable_seq old = dp_stable known \<longrightarrow> stable_digest C P old = dp_stable_digest known"
    "transport_seq old \<le> dp_transport known" "transport_seq old = dp_transport known \<longrightarrow> transport_digest C P old = dp_transport_digest known"
    by (auto simp: covers_def)
  let ?devs = "vp_devices (advance_pins C P pins sr)"
  have "\<exists>known'. List.find (same_device old) ?devs = Some known' \<and> (known' = known \<or> known' = advance_device C P sr known)"
  proof (cases "device_key (rec_device (s_record sr)) = device_key (rec_device (s_record old))")
    case True
    then have "same_device sr = same_device old" by (auto simp: same_device_def fun_eq_iff)
    with known(1) find_upd_first [OF known(1), of "advance_device C P sr"] find_Some_prop [OF known(1)] show ?thesis
      by (simp add: advance_pins_def Let_def)
  next
    case False
    then have "List.find (same_device old) (upd_first (same_device sr) (advance_device C P sr) (vp_devices pins))
        = List.find (same_device old) (vp_devices pins)"
      by (intro find_upd_first_other) (auto simp: same_device_def)
    with known(1) show ?thesis
      by (auto simp: advance_pins_def Let_def find_append split: option.split)
  qed
  then obtain known' where known': "List.find (same_device old) ?devs = Some known'"
    and eq: "known' = known \<or> known' = advance_device C P sr known" by blast
  have adv: "dp_stable known \<le> dp_stable known'" "dp_stable known = dp_stable known' \<longrightarrow> dp_stable_digest known' = dp_stable_digest known"
    "dp_transport known \<le> dp_transport known'" "dp_transport known = dp_transport known' \<longrightarrow> dp_transport_digest known' = dp_transport_digest known"
    using eq advance_device_ge [of known C P sr] by (elim disjE; simp)+
  have "stable_seq old \<le> dp_stable known'" "stable_seq old = dp_stable known' \<longrightarrow> stable_digest C P old = dp_stable_digest known'"
    "transport_seq old \<le> dp_transport known'" "transport_seq old = dp_transport known' \<longrightarrow> transport_digest C P old = dp_transport_digest known'"
    using pin_chain [OF known(2,3) adv(1,2)] pin_chain [OF known(4,5) adv(3,4)] by simp_all
  moreover have "rec_seq (s_record old) \<le> vp_identity (advance_pins C P pins sr)"
    "rec_seq (s_record old) = vp_identity (advance_pins C P pins sr) \<and> vp_identity (advance_pins C P pins sr) \<noteq> 0 \<longrightarrow>
       identity_digest C P old = vp_identity_digest (advance_pins C P pins sr)"
  proof -
    have id: "vp_identity (advance_pins C P pins sr) = (if rec_seq (s_record sr) > vp_identity pins \<or> vp_identity pins = 0 then rec_seq (s_record sr) else vp_identity pins)"
      "vp_identity_digest (advance_pins C P pins sr) = (if rec_seq (s_record sr) > vp_identity pins \<or> vp_identity pins = 0 then identity_digest C P sr else vp_identity_digest pins)"
      by (simp_all add: advance_pins_def Let_def split: option.split)
    from assms(1) have old: "rec_seq (s_record old) \<le> vp_identity pins"
      "rec_seq (s_record old) = vp_identity pins \<and> vp_identity pins \<noteq> 0 \<longrightarrow> identity_digest C P old = vp_identity_digest pins"
      by (simp_all add: covers_def)
    then show "rec_seq (s_record old) \<le> vp_identity (advance_pins C P pins sr)" by (auto simp: id)
    show "rec_seq (s_record old) = vp_identity (advance_pins C P pins sr) \<and> vp_identity (advance_pins C P pins sr) \<noteq> 0 \<longrightarrow>
       identity_digest C P old = vp_identity_digest (advance_pins C P pins sr)"
      using old by (auto simp: id)
  qed
  ultimately show ?thesis using known' unfolding covers_def by blast
qed

lemma covers_not_older:
  assumes "covers C P pins old" "\<not> identity_rolled_back C P pins sr" "\<not> device_rolled_back C P pins sr"
  shows "not_older C P old sr"
proof -
  from assms(1) obtain known where known: "List.find (same_device old) (vp_devices pins) = Some known"
    "stable_seq old \<le> dp_stable known" "stable_seq old = dp_stable known \<longrightarrow> stable_digest C P old = dp_stable_digest known"
    "transport_seq old \<le> dp_transport known" "transport_seq old = dp_transport known \<longrightarrow> transport_digest C P old = dp_transport_digest known"
    by (auto simp: covers_def)
  have "stable_seq old \<le> stable_seq sr \<and> (stable_seq old = stable_seq sr \<longrightarrow> stable_digest C P old = stable_digest C P sr)
      \<and> transport_seq old \<le> transport_seq sr \<and> (transport_seq old = transport_seq sr \<longrightarrow> transport_digest C P old = transport_digest C P sr)"
    if "device_key (rec_device (s_record old)) = device_key (rec_device (s_record sr))"
  proof -
    from that have "same_device sr = same_device old" by (auto simp: same_device_def fun_eq_iff)
    with known(1) assms(3) have "dp_stable known \<le> stable_seq sr" "dp_transport known \<le> transport_seq sr"
      "dp_stable known = stable_seq sr \<longrightarrow> stable_digest C P sr = dp_stable_digest known"
      "dp_transport known = transport_seq sr \<longrightarrow> transport_digest C P sr = dp_transport_digest known"
      by (auto simp: device_rolled_back_def not_less)
    from pin_chain [OF known(2,3) this(1,3)] pin_chain [OF known(4,5) this(2,4)] show ?thesis by simp
  qed
  moreover from assms(1,2) have "rec_seq (s_record old) \<le> rec_seq (s_record sr)"
    "rec_seq (s_record old) = rec_seq (s_record sr) \<and> rec_seq (s_record old) \<noteq> 0 \<longrightarrow> identity_digest C P old = identity_digest C P sr"
    by (auto simp: covers_def identity_rolled_back_def not_less)
  ultimately show ?thesis by (simp add: not_older_def)
qed

inductive pin_steps :: "'s storage \<Rightarrow> crypto \<Rightarrow> pin_codecs \<Rightarrow> 's \<Rightarrow> 's \<Rightarrow> bool" for S C P where
  pin_done: "pin_steps S C P st st"
| pin_step: "check_and_pin S C P st h sr = (Ok b, st1) \<Longrightarrow> pin_steps S C P st1 st2 \<Longrightarrow> pin_steps S C P st st2"

lemma antirollback_key_inject [simp]: "antirollback_key a = antirollback_key b \<longleftrightarrow> a = b"
  by (simp add: antirollback_key_def)

context kv_store
begin

lemma check_and_pin_cases:
  assumes "inv st" "codec_ok (c_pins P)" "check_and_pin S C P st h sr = (Ok b, st')"
  obtains "\<not> b" "st' = st"
  | pins where "b" "inv st'" "antirollback_load S P st h = Ok (Some pins)"
      "\<not> identity_rolled_back C P pins sr" "\<not> device_rolled_back C P pins sr"
      "\<And>h'. antirollback_load S P st' h' = (if h' = h then Ok (Some (advance_pins C P pins sr)) else antirollback_load S P st h')"
proof -
  from assms(3) obtain loaded where l: "antirollback_load S P st h = Ok loaded"
    by (auto simp: check_and_pin_def result_elims)
  show thesis
  proof (cases loaded)
    case None
    with l assms(3) that(1) show thesis by (auto simp: check_and_pin_def)
  next
    case (Some pins)
    show thesis
    proof (cases "identity_rolled_back C P pins sr \<or> device_rolled_back C P pins sr")
      case True
      with l Some assms(3) that(1) show thesis by (auto simp: check_and_pin_def split: if_splits)
    next
      case False
      with l Some assms(3) have put: "st_put S st (antirollback_key h) (wire_encode (c_pins P) (advance_pins C P pins sr)) = (Ok (), st')"
        and bt: "b" by (auto simp: check_and_pin_def result_elims)
      have "antirollback_load S P st' h' = (if h' = h then Ok (Some (advance_pins C P pins sr)) else antirollback_load S P st h')" for h'
        using put_get [OF assms(1) put] assms(2) by (simp add: antirollback_load_def)
      with that(2) False l Some bt put_inv [OF assms(1) put] show thesis by blast
    qed
  qed
qed

lemma pin_steps_covers:
  assumes "pin_steps S C P st st'" "inv st" "codec_ok (c_pins P)"
    and "antirollback_load S P st h = Ok (Some pins)" "covers C P pins old"
  shows "inv st' \<and> (\<exists>pins'. antirollback_load S P st' h = Ok (Some pins') \<and> covers C P pins' old)"
  using assms
proof (induction arbitrary: pins rule: pin_steps.induct)
  case (pin_done st)
  then show ?case by auto
next
  case (pin_step st h' sr b st1 st2)
  from pin_step.prems(1,2) pin_step.hyps(1) show ?case
  proof (cases rule: check_and_pin_cases)
    case 1
    with pin_step show ?thesis by blast
  next
    case (2 pins1)
    show ?thesis
    proof (cases "h' = h")
      case True
      with 2 pin_step.prems have "pins1 = pins" by simp
      with 2 True pin_step.prems(4) covers_later [of C P pins old sr]
      have "antirollback_load S P st1 h = Ok (Some (advance_pins C P pins sr))" "covers C P (advance_pins C P pins sr) old" by simp_all
      with pin_step.IH 2(2) pin_step.prems(2) show ?thesis by blast
    next
      case False
      with 2 pin_step.prems have "antirollback_load S P st1 h = Ok (Some pins)" by simp
      with pin_step.IH 2(2) pin_step.prems(2,4) show ?thesis by blast
    qed
  qed
qed

lemma accepted_records_monotone:
  assumes "inv st" "codec_ok (c_pins P)" "check_and_pin S C P st h old = (Ok True, st1)" "pin_steps S C P st1 st2"
    and "check_and_pin S C P st2 h sr = (Ok True, st3)"
  shows "not_older C P old sr"
proof -
  from assms(1-3) obtain pins where "inv st1" "antirollback_load S P st1 h = Ok (Some (advance_pins C P pins old))"
    "covers C P (advance_pins C P pins old) old"
    by (cases rule: check_and_pin_cases) (auto intro: covers_accepted)
  from pin_steps_covers [OF assms(4) this(1) assms(2) this(2,3)] obtain pins' where inv2: "inv st2"
    and l2: "antirollback_load S P st2 h = Ok (Some pins')" "covers C P pins' old" by blast
  from inv2 assms(2,5) show ?thesis
  proof (cases rule: check_and_pin_cases)
    case (2 pins2)
    with l2 covers_not_older [of C P pins' old sr] show ?thesis by simp
  qed simp
qed

end

section \<open>Properties\<close>

definition s_device_pins :: "device_pins scodec" where
  "s_device_pins = s_iso (\<lambda>d. (dp_key d, dp_stable d, dp_stable_digest d, dp_transport d, dp_transport_digest d))
     (\<lambda>(k, s, sd, t, td). \<lparr>dp_key = k, dp_stable = s, dp_stable_digest = sd, dp_transport = t, dp_transport_digest = td\<rparr>)
     (s_pair s_bytes (s_pair s_word (s_pair s_bytes (s_pair s_word s_bytes))))"

definition sample_pin_codecs :: pin_codecs where
  "sample_pin_codecs = \<lparr>
     c_pins = sample_codec (s_iso (\<lambda>v. (vp_identity v, vp_identity_digest v, vp_devices v))
       (\<lambda>(i, g, ds). \<lparr>vp_identity = i, vp_identity_digest = g, vp_devices = ds\<rparr>)
       (s_pair s_word (s_pair s_bytes (s_list s_device_pins)))),
     c_device_record = sample_codec s_device_record, c_pin_claims = sample_claims\<rparr>"

lemma s_device_pins_ok [sample_ok]: "scodec_ok s_device_pins"
  unfolding s_device_pins_def by (auto intro!: sample_ok s_iso_ok)

lemma sample_pin_codecs_ok [sample_ok]: "codec_ok (c_pins sample_pin_codecs)"
  by (auto simp: sample_pin_codecs_def intro!: sample_ok s_iso_ok)

lemma check_and_pin_accepts:
  assumes "antirollback_load S P st h = Ok (Some pins)" "\<not> identity_rolled_back C P pins sr" "\<not> device_rolled_back C P pins sr"
    and "\<And>v. \<exists>st'. st_put S st (antirollback_key h) v = (Ok (), st')"
  shows "\<exists>st'. check_and_pin S C P st h sr = (Ok True, st')"
proof -
  from assms(4) obtain st' where "st_put S st (antirollback_key h) (wire_encode (c_pins P) (advance_pins C P pins sr)) = (Ok (), st')"
    by blast
  with assms(1-3) show ?thesis by (simp add: check_and_pin_def)
qed

text \<open>
  C22: no accepted record can be rolled back.  Once a record was accepted for a user, then after
  any sequence of further checks for any users, an accepted record of that user has an identity
  sequence at least as high (and the same signed identity claim when the sequence is equal and
  not zero), and if it names the same device, key and transport claims at least as new, with
  equal contents at equal versions.
\<close>

theorem no_rollback:
  assumes "fs_inv C E M st" "codec_ok (c_pins P)"
    and "check_and_pin (file_ops C E M) C P st user old = (Ok True, st1)"
    and "pin_steps (file_ops C E M) C P st1 st2"
    and "check_and_pin (file_ops C E M) C P st2 user new = (Ok True, st3)"
  shows "not_older C P old new"
  using assms by (rule fs.accepted_records_monotone)

definition sample_signed :: "u64 \<Rightarrow> signed_record" where
  "sample_signed seq = signed_record_sign sample_crypto sample_claims (sample_record 3 seq) (sample_identity 3)"

lemma sample_signed_seqs: "rec_seq (s_record (sample_signed n)) = n" "stable_seq (sample_signed n) = n"
  "transport_seq (sample_signed n) = n" "device_key (rec_device (s_record (sample_signed n))) = device_public sample_crypto (sample_identity 3)"
  by (simp_all add: sample_signed_def signed_record_sign_def sample_record_def stable_seq_def transport_seq_def)

lemma sample_put_accepts: "fs_inv sample_crypto (sample_env (\<lambda>_. NoFault)) sample_batch st \<Longrightarrow> \<exists>st'. st_put sample_ops st k v = (Ok (), st')"
  using fs_put_no_faults [OF sample_env_ok(2), of st sample_crypto k v] by (simp add: sample_ops_def file_ops_def fs_inv_def)

lemma sample_pins_accept:
  obtains st1 st3 where "check_and_pin sample_ops sample_crypto sample_pin_codecs sample_store uid (sample_signed 1) = (Ok True, st1)"
    "fs_inv sample_crypto (sample_env (\<lambda>_. NoFault)) sample_batch st1"
    "check_and_pin sample_ops sample_crypto sample_pin_codecs st1 uid (sample_signed 2) = (Ok True, st3)"
proof -
  let ?P = sample_pin_codecs and ?C = sample_crypto and ?E = "sample_env (\<lambda>_. NoFault)"
  have load0: "antirollback_load sample_ops ?P sample_store uid = Ok (Some default_pins)"
    using sample_store_ops(3) [of "antirollback_key uid"] by (simp add: antirollback_load_def)
  have new0: "\<not> identity_rolled_back ?C ?P default_pins r" "\<not> device_rolled_back ?C ?P default_pins r" for r
    by (simp_all add: identity_rolled_back_def device_rolled_back_def default_pins_def)
  obtain st1 where r1: "check_and_pin sample_ops ?C ?P sample_store uid (sample_signed 1) = (Ok True, st1)"
    using check_and_pin_accepts [OF load0 new0 sample_put_accepts [OF sample_fs_inv]] by blast
  have "fs_inv ?C ?E sample_batch st1 \<and>
      antirollback_load sample_ops ?P st1 uid = Ok (Some (advance_pins ?C ?P default_pins (sample_signed 1)))"
    by (rule fs.check_and_pin_cases [OF sample_fs_inv sample_pin_codecs_ok r1 [unfolded sample_ops_def]])
      (use load0 in \<open>auto simp: sample_ops_def\<close>)
  then have inv1: "fs_inv ?C ?E sample_batch st1"
    and load1: "antirollback_load sample_ops ?P st1 uid = Ok (Some (advance_pins ?C ?P default_pins (sample_signed 1)))"
    by auto
  have "\<not> identity_rolled_back ?C ?P (advance_pins ?C ?P default_pins (sample_signed 1)) (sample_signed 2)"
    "\<not> device_rolled_back ?C ?P (advance_pins ?C ?P default_pins (sample_signed 1)) (sample_signed 2)"
    by (simp_all add: identity_rolled_back_def device_rolled_back_def advance_pins_def default_pins_def Let_def same_device_def sample_signed_seqs)
  then obtain st3 where r3: "check_and_pin sample_ops ?C ?P st1 uid (sample_signed 2) = (Ok True, st3)"
    using check_and_pin_accepts [OF load1 _ _ sample_put_accepts [OF inv1]] by blast
  from that [OF r1 inv1 r3] show thesis .
qed

theorem no_rollback_witness:
  "\<exists>st1 st3. check_and_pin sample_ops sample_crypto sample_pin_codecs sample_store ''u'' (sample_signed 1) = (Ok True, st1)
     \<and> check_and_pin sample_ops sample_crypto sample_pin_codecs st1 ''u'' (sample_signed 2) = (Ok True, st3)
     \<and> not_older sample_crypto sample_pin_codecs (sample_signed 1) (sample_signed 2)"
proof -
  obtain st1 st3 where r: "check_and_pin sample_ops sample_crypto sample_pin_codecs sample_store ''u'' (sample_signed 1) = (Ok True, st1)"
    "check_and_pin sample_ops sample_crypto sample_pin_codecs st1 ''u'' (sample_signed 2) = (Ok True, st3)"
    by (rule sample_pins_accept)
  from no_rollback [OF sample_fs_inv sample_pin_codecs_ok r(1) [unfolded sample_ops_def] pin_done r(2) [unfolded sample_ops_def]] r
  show ?thesis by blast
qed

end
