(* ===== verification/RustStr.thy ===== *)
theory RustStr
  imports Hex
begin

text \<open>
  String operations of the Rust standard library that the program uses, on strings as lists of
  their UTF-8 bytes: trimming, ASCII case, splitting, checked conversion from bytes, parsing and
  zero-padded printing of integers.
\<close>

section \<open>Trimming\<close>

text \<open>The characters \<open>str::trim\<close> removes: the Unicode white space, as UTF-8 bytes.\<close>

definition white_space :: "string list" where
  "white_space = map (map char_of) ([[9], [10], [11], [12], [13], [32], [0xc2, 0x85], [0xc2, 0xa0], [0xe1, 0x9a, 0x80],
     [0xe2, 0x80, 0xa8], [0xe2, 0x80, 0xa9], [0xe2, 0x80, 0xaf], [0xe2, 0x81, 0x9f], [0xe3, 0x80, 0x80]]
     @ map (\<lambda>n. [0xe2, 0x80, 0x80 + n]) [0..<11] :: nat list list)"

definition starts_with :: "string \<Rightarrow> string \<Rightarrow> bool" where
  "starts_with s w \<longleftrightarrow> take (length w) s = w"

lemma starts_with_shorter: "starts_with s w \<Longrightarrow> w \<noteq> [] \<Longrightarrow> length s - length w < length s"
  by (cases s; cases w) (auto simp: starts_with_def)

function strip_prefixes :: "string list \<Rightarrow> string \<Rightarrow> string" where
  "strip_prefixes ws s = (case List.find (\<lambda>w. w \<noteq> [] \<and> starts_with s w) ws of
      None \<Rightarrow> s
    | Some w \<Rightarrow> strip_prefixes ws (drop (length w) s))"
  by auto
termination
  by (relation "measure (length \<circ> snd)") (auto dest!: find_Some_prop simp: starts_with_shorter)

definition str_trim :: "string \<Rightarrow> string" where
  "str_trim s = rev (strip_prefixes (map rev white_space) (rev (strip_prefixes white_space s)))"

declare strip_prefixes.simps [simp del]

lemma strip_prefixes_none:
  assumes "\<forall>w \<in> set ws. w \<noteq> [] \<and> \<not> p (hd w)" "list_all p s"
  shows "strip_prefixes ws s = s"
proof -
  have "\<not> starts_with s w" if "w \<in> set ws" for w
  proof
    assume "starts_with s w"
    then have "take (length w) s = w" by (simp add: starts_with_def)
    moreover have "w \<noteq> []" "\<not> p (hd w)" using assms(1) that by auto
    ultimately show False using assms(2) by (cases s; cases w) auto
  qed
  then have "List.find (\<lambda>w. w \<noteq> [] \<and> starts_with s w) ws = None" by (auto simp: find_None_all)
  then show ?thesis by (subst strip_prefixes.simps) simp
qed

lemma white_space_not_hex:
  "\<forall>w \<in> set white_space. w \<noteq> [] \<and> \<not> is_lower_hex (hd w)"
  "\<forall>w \<in> set (map rev white_space). w \<noteq> [] \<and> \<not> is_lower_hex (hd w)"
  by code_simp+

lemma str_trim_none:
  assumes "\<forall>w \<in> set white_space. w \<noteq> [] \<and> \<not> p (hd w)" "\<forall>w \<in> set (map rev white_space). w \<noteq> [] \<and> \<not> p (hd w)" "list_all p s"
  shows "str_trim s = s"
proof -
  have "list_all p (rev s)" using assms(3) by (simp add: list_all_iff)
  then show ?thesis
    unfolding str_trim_def strip_prefixes_none [OF assms(1,3)] by (simp only: strip_prefixes_none [OF assms(2)] rev_rev_ident)
qed

definition is_ascii_graphic :: "char \<Rightarrow> bool" where
  "is_ascii_graphic c \<longleftrightarrow> (of_char c :: nat) \<in> {33..126}"

lemma white_space_not_graphic:
  "\<forall>w \<in> set white_space. w \<noteq> [] \<and> \<not> is_ascii_graphic (hd w)"
  "\<forall>w \<in> set (map rev white_space). w \<noteq> [] \<and> \<not> is_ascii_graphic (hd w)"
  by code_simp+

lemmas str_trim_graphic = str_trim_none [OF white_space_not_graphic]

lemmas str_trim_hex = str_trim_none [OF white_space_not_hex]

lemma strip_prefixes_subset: "set (strip_prefixes ws s) \<subseteq> set s"
proof (induction ws s rule: strip_prefixes.induct)
  case (1 ws s)
  show ?case
  proof (cases "List.find (\<lambda>w. w \<noteq> [] \<and> starts_with s w) ws")
    case None
    then show ?thesis by (subst strip_prefixes.simps) simp
  next
    case (Some w)
    then have "strip_prefixes ws s = strip_prefixes ws (drop (length w) s)" by (subst strip_prefixes.simps) simp
    with 1 [OF Some] set_drop_subset [of "length w" s] show ?thesis by simp
  qed
qed

lemma str_trim_subset: "set (str_trim s) \<subseteq> set s"
  using strip_prefixes_subset [of "map rev white_space" "rev (strip_prefixes white_space s)"] strip_prefixes_subset [of white_space s]
  unfolding str_trim_def set_rev by simp

section \<open>Decimal numbers\<close>

definition decimal_value :: "string \<Rightarrow> nat" where
  "decimal_value s = foldl (\<lambda>acc ch. acc * 10 + (of_char ch - 48)) 0 s"

lemma decimal_value_snoc: "decimal_value (s @ [ch]) = decimal_value s * 10 + (of_char ch - 48)"
  by (simp add: decimal_value_def)

lemma of_char_digit: "n < 10 \<Longrightarrow> of_char (digit_char n) = (48 + n :: nat)"
  by (simp add: digit_char_def of_char_of)

lemma decimal_value_nat_decimal: "decimal_value (nat_decimal n) = n"
proof (induction n rule: nat_decimal.induct)
  case (1 n)
  show ?case
  proof (cases "n < 10")
    case True
    then show ?thesis by (subst nat_decimal.simps) (simp add: decimal_value_def of_char_digit)
  next
    case False
    with 1 show ?thesis by (subst nat_decimal.simps) (simp add: decimal_value_snoc of_char_digit)
  qed
qed

lemma decimal_value_zeros: "decimal_value (replicate k (CHR ''0'') @ s) = decimal_value s"
  by (induction k) (simp_all add: decimal_value_def)

lemma zero_padded_inject: "zero_padded w m = zero_padded w n \<longleftrightarrow> m = n"
  by (metis decimal_value_nat_decimal decimal_value_zeros zero_padded_def)

lemma length_nat_decimal: "n < 10 ^ k \<Longrightarrow> 0 < k \<Longrightarrow> length (nat_decimal n) \<le> k"
proof (induction n arbitrary: k rule: nat_decimal.induct)
  case (1 n)
  show ?case
  proof (cases "n < 10")
    case True
    with 1 show ?thesis by (subst nat_decimal.simps) simp
  next
    case False
    then obtain j where j: "k = Suc j" "0 < j" using 1(2,3) by (cases k; cases "k - 1") auto
    have "n div 10 < 10 ^ j" using 1(2) j(1) by (simp add: less_mult_imp_div_less mult.commute)
    with 1(1) False j show ?thesis by (subst nat_decimal.simps) simp
  qed
qed
definition is_digit_char :: "char \<Rightarrow> bool" where
  "is_digit_char c \<longleftrightarrow> (of_char c :: nat) \<in> {48..57}"

lemma digits_nat_decimal: "list_all is_digit_char (nat_decimal n)"
proof (induction n rule: nat_decimal.induct)
  case (1 n)
  have "is_digit_char (digit_char d)" if "d < 10" for d using that by (simp add: is_digit_char_def of_char_digit)
  with 1 show ?case by (subst nat_decimal.simps) simp
qed

lemma digits_zero_padded: "list_all is_digit_char (zero_padded w n)"
  by (simp add: zero_padded_def digits_nat_decimal) (simp add: list_all_iff is_digit_char_def)

lemma length_zero_padded_eq: "n < 10 ^ w \<Longrightarrow> 0 < w \<Longrightarrow> length (zero_padded w n) = w"
  using length_nat_decimal [of n w] by (simp add: zero_padded_def)

lemma decimal_value_zero_padded: "decimal_value (zero_padded w n) = n"
  by (simp add: zero_padded_def decimal_value_zeros decimal_value_nat_decimal)

lemma decimal_value_Cons: "decimal_value (c # s) = (of_char c - 48) * 10 ^ length s + decimal_value s"
  by (induction s rule: rev_induct) (simp_all add: decimal_value_snoc decimal_value_def algebra_simps)

lemma decimal_value_bound: "list_all is_digit_char s \<Longrightarrow> decimal_value s < 10 ^ length s"
proof (induction s)
  case (Cons c s)
  then have "of_char c - 48 \<le> (9 :: nat)" "decimal_value s < 10 ^ length s" by (auto simp: is_digit_char_def)
  then have "(of_char c - 48) * 10 ^ length s + decimal_value s < 9 * 10 ^ length s + 10 ^ length s"
    by (intro add_le_less_mono mult_right_mono) auto
  then show ?case by (simp add: decimal_value_Cons)
qed (simp add: decimal_value_def)

text \<open>Digit strings of one length compare as byte strings as their values do.\<close>

lemma digits_order:
  assumes "length s = length t" "list_all is_digit_char s" "list_all is_digit_char t" "decimal_value s < decimal_value t"
  shows "bytes_less (str_bytes (s @ x)) (str_bytes (t @ y))"
  using assms
proof (induction s t rule: list_induct2)
  case Nil
  then show ?case by (simp add: decimal_value_def)
next
  case (Cons c s d t)
  let ?k = "10 ^ length s :: nat"
  have b: "decimal_value s < ?k" "decimal_value t < ?k" using Cons decimal_value_bound [of s] decimal_value_bound [of t] by auto
  have ge: "(48 :: nat) \<le> of_char c" "(48 :: nat) \<le> of_char d" using Cons.prems by (auto simp: is_digit_char_def)
  have less: "(of_char c - 48) * ?k + decimal_value s < (of_char d - 48) * ?k + decimal_value t"
    using Cons by (simp add: decimal_value_Cons)
  have "\<not> (of_char d :: nat) < of_char c"
  proof
    assume "(of_char d :: nat) < of_char c"
    then have "(of_char d - 48 + 1) * ?k \<le> (of_char c - 48) * ?k" using ge by (intro mult_right_mono) auto
    with less b show False by (simp add: algebra_simps)
  qed
  then consider "(of_char c :: nat) < of_char d" | "c = d" by (metis linorder_neqE of_char_eq_iff)
  then show ?case
  proof cases
    case 1
    then have "(of_char c :: byte) < of_char d" by (simp add: word_less_nat_alt unat_of_char_byte)
    then show ?thesis by (simp add: str_bytes_def)
  next
    case 2
    with less have "decimal_value s < decimal_value t" by simp
    with Cons 2 show ?thesis by (simp add: str_bytes_def)
  qed
qed

section \<open>Signed integers\<close>

definition I64_MAX :: int where "I64_MAX = 2 ^ 63 - 1"
definition I64_MIN :: int where "I64_MIN = - (2 ^ 63)"

definition i64_saturating_add :: "int \<Rightarrow> int \<Rightarrow> int" where
  "i64_saturating_add a b = max I64_MIN (min I64_MAX (a + b))"

text \<open>\<open>str::parse::<i64>()\<close>: an optional sign and at least one digit, within range.\<close>

definition parse_i64 :: "string \<Rightarrow> int option" where
  "parse_i64 s = (let (neg, ds) = (case s of
        [] \<Rightarrow> (False, [])
      | c # cs \<Rightarrow> if c = CHR ''-'' then (True, cs) else if c = CHR ''+'' then (False, cs) else (False, s));
      n = (if neg then - int (decimal_value ds) else int (decimal_value ds))
    in if ds = [] \<or> \<not> list_all is_digit_char ds \<or> n < I64_MIN \<or> I64_MAX < n then None else Some n)"

lemma parse_zero_padded: "int n \<le> I64_MAX \<Longrightarrow> 0 < w \<Longrightarrow> parse_i64 (zero_padded w n) = Some (int n)"
proof -
  assume n: "int n \<le> I64_MAX" "0 < w"
  have ne: "zero_padded w n \<noteq> []" by (simp add: zero_padded_def nat_decimal.simps [of n])
  then obtain c cs where c: "zero_padded w n = c # cs" by (cases "zero_padded w n") auto
  have "is_digit_char c" using digits_zero_padded [of w n] by (simp add: c)
  then have "c \<noteq> CHR ''-''" "c \<noteq> CHR ''+''" by (auto simp: is_digit_char_def)
  moreover have "I64_MIN \<le> int n" by (simp add: I64_MIN_def order_trans [of _ 0])
  ultimately show ?thesis
    using n digits_zero_padded [of w n] decimal_value_zero_padded [of w n] by (simp add: parse_i64_def c)
qed

section \<open>Bytes and splitting\<close>

definition bytes_str :: "bytes \<Rightarrow> string" where
  "bytes_str bs = map (\<lambda>b. char_of (unat b)) bs"

lemma bytes_str_bytes [simp]: "bytes_str (str_bytes s) = s"
  by (induction s) (simp_all add: bytes_str_def str_bytes_def unat_of_char_byte)

lemma str_bytes_str [simp]: "str_bytes (bytes_str bs) = bs"
proof -
  have "of_char (char_of (unat b) :: char) = b" for b :: byte
  proof (rule iffD2 [OF word_unat_eq_iff])
    show "unat (of_char (char_of (unat b) :: char) :: byte) = unat b"
      using unsigned_less [of b, where ?'a = nat] by (simp add: unat_of_char_byte of_char_of)
  qed
  then show ?thesis by (induction bs) (simp_all add: bytes_str_def str_bytes_def)
qed

text \<open>\<open>std::str::from_utf8\<close>: the well-formed sequences of the Unicode standard.\<close>

definition utf8_cont :: "nat \<Rightarrow> bool" where
  "utf8_cont b \<longleftrightarrow> b \<in> {0x80..0xbf}"

fun utf8_ok :: "nat list \<Rightarrow> bool" where
  "utf8_ok [] = True"
| "utf8_ok [a] = (a < 0x80)"
| "utf8_ok [a, b] = (if a < 0x80 then utf8_ok [b] else a \<in> {0xc2..0xdf} \<and> utf8_cont b)"
| "utf8_ok [a, b, c] =
     (if a < 0x80 then utf8_ok [b, c]
      else if a \<in> {0xc2..0xdf} then utf8_cont b \<and> utf8_ok [c]
      else a \<in> {0xe0..0xef} \<and> utf8_cont b \<and> utf8_cont c \<and> (a = 0xe0 \<longrightarrow> 0xa0 \<le> b) \<and> (a = 0xed \<longrightarrow> b \<le> 0x9f))"
| "utf8_ok (a # b # c # d # r) =
     (if a < 0x80 then utf8_ok (b # c # d # r)
      else if a \<in> {0xc2..0xdf} then utf8_cont b \<and> utf8_ok (c # d # r)
      else if a \<in> {0xe0..0xef} then
        utf8_cont b \<and> utf8_cont c \<and> (a = 0xe0 \<longrightarrow> 0xa0 \<le> b) \<and> (a = 0xed \<longrightarrow> b \<le> 0x9f) \<and> utf8_ok (d # r)
      else a \<in> {0xf0..0xf4} \<and> utf8_cont b \<and> utf8_cont c \<and> utf8_cont d
        \<and> (a = 0xf0 \<longrightarrow> 0x90 \<le> b) \<and> (a = 0xf4 \<longrightarrow> b \<le> 0x8f) \<and> utf8_ok r)"

definition str_from_utf8 :: "bytes \<Rightarrow> string option" where
  "str_from_utf8 bs = (if utf8_ok (map unat bs) then Some (bytes_str bs) else None)"

lemma utf8_ok_ascii: "\<forall>b \<in> set bs. b < 0x80 \<Longrightarrow> utf8_ok bs"
  by (induction bs rule: utf8_ok.induct) auto

lemma str_from_utf8_ascii: "\<forall>c \<in> set s. (of_char c :: nat) < 128 \<Longrightarrow> str_from_utf8 (str_bytes s) = Some s"
  by (simp add: str_from_utf8_def utf8_ok_ascii) (simp add: str_bytes_def unat_of_char_byte utf8_ok_ascii)

definition split_once :: "char \<Rightarrow> string \<Rightarrow> (string \<times> string) option" where
  "split_once c s = (if c \<in> set s then Some (takeWhile (\<lambda>x. x \<noteq> c) s, tl (dropWhile (\<lambda>x. x \<noteq> c) s)) else None)"

lemma split_once_append: "c \<notin> set a \<Longrightarrow> split_once c (a @ c # b) = Some (a, b)"
  by (induction a) (auto simp: split_once_def)

definition str_strip_prefix :: "'a list \<Rightarrow> 'a list \<Rightarrow> 'a list option" where
  "str_strip_prefix p s = (if take (length p) s = p then Some (drop (length p) s) else None)"

lemma str_strip_prefix_append [simp]: "str_strip_prefix p (p @ s) = Some s"
  by (simp add: str_strip_prefix_def)

section \<open>ASCII classes\<close>

definition to_ascii_lowercase :: "string \<Rightarrow> string" where
  "to_ascii_lowercase s = map (\<lambda>c. let n = of_char c :: nat in if 65 \<le> n \<and> n \<le> 90 then char_of (n + 32) else c) s"

definition is_ascii_hexdigit :: "char \<Rightarrow> bool" where
  "is_ascii_hexdigit c = (let n = of_char c :: nat in (48 \<le> n \<and> n \<le> 57) \<or> (65 \<le> n \<and> n \<le> 70) \<or> (97 \<le> n \<and> n \<le> 102))"

definition is_ascii_control :: "char \<Rightarrow> bool" where
  "is_ascii_control c = (let n = of_char c :: nat in n < 32 \<or> n = 127)"

lemma lower_hex_of_char: "is_lower_hex c \<longleftrightarrow> (of_char c :: nat) \<in> {48..57} \<union> {97..102}"
  by (auto simp: is_lower_hex_def less_eq_char_def)

lemma lower_hex_digit: "is_lower_hex c \<Longrightarrow> is_ascii_hexdigit c"
  by (auto simp: lower_hex_of_char is_ascii_hexdigit_def Let_def)

lemma lowercase_lower_hex [simp]: "list_all is_lower_hex s \<Longrightarrow> to_ascii_lowercase s = s"
  by (induction s) (auto simp: to_ascii_lowercase_def lower_hex_of_char Let_def)

lemma lower_hex_utf8: "list_all is_lower_hex s \<Longrightarrow> str_from_utf8 (str_bytes s) = Some s"
  by (rule str_from_utf8_ascii) (auto simp: list_all_iff lower_hex_of_char)

text \<open>The dash of the messages, as UTF-8 bytes.\<close>

definition em_dash :: string where
  "em_dash = [CHR 0xE2, CHR 0x80, CHR 0x94]"

end
