(* ===== verification/History.thy ===== *)
theory History
  imports Stores RustStr
begin

text \<open>
  Chat transcripts in fixed-size segments (\<open>mycellium-engine/src/history.rs\<close>).

  A thread is a run of segments of at most 128 messages under numbered keys, with the segment
  count under a meta key.  The abstraction is the concatenation of the segments; the results
  show that appending, pruning, editing, deleting and clearing act on that list as their names
  say, whatever the segment boundaries, and leave every other thread alone.  The codec of a
  segment and of the meta entry are parameters.
\<close>

record stored_message =
  sm_id :: string
  sm_from_me :: bool
  sm_text :: string
  sm_timestamp :: u64
  sm_expires_at :: "u64 option"

record group_stored_message =
  gsm_id :: string
  gsm_sender :: string
  gsm_text :: string
  gsm_timestamp :: u64
  gsm_expires_at :: "u64 option"

record history_codecs =
  c_messages :: "stored_message list codec"
  c_group_messages :: "group_stored_message list codec"
  c_meta :: "u32 codec"
  c_peers :: "string list codec"

definition history_codecs_ok :: "history_codecs \<Rightarrow> bool" where
  "history_codecs_ok H \<longleftrightarrow> codec_ok (c_messages H) \<and> codec_ok (c_group_messages H) \<and> codec_ok (c_meta H) \<and> codec_ok (c_peers H)"

definition SEGMENT :: nat where
  "SEGMENT = 128"

definition HIST :: bytes where
  "HIST = str_bytes ''hist:''"

definition GHIST :: bytes where
  "GHIST = str_bytes ''ghist:''"

definition PEER_INDEX :: bytes where
  "PEER_INDEX = str_bytes ''history:peers''"

definition seg_key :: "bytes \<Rightarrow> string \<Rightarrow> u32 \<Rightarrow> bytes" where
  "seg_key prefix i index = prefix @ str_bytes i @ str_bytes '':'' @ str_bytes (zero_padded 12 (unat index))"

definition meta_key :: "bytes \<Rightarrow> string \<Rightarrow> bytes" where
  "meta_key prefix i = prefix @ str_bytes i @ str_bytes '':meta''"

section \<open>Segments\<close>

definition seg_count :: "'s storage \<Rightarrow> u32 codec \<Rightarrow> 's \<Rightarrow> bytes \<Rightarrow> string \<Rightarrow> any_error + u32" where
  "seg_count S cm st prefix i = tryR (io_get S st (meta_key prefix i)) (\<lambda>bs. decode_state 0 cm bs ''history meta'')"

definition read_segment :: "'s storage \<Rightarrow> 'm list codec \<Rightarrow> 's \<Rightarrow> bytes \<Rightarrow> string \<Rightarrow> string \<Rightarrow> u32 \<Rightarrow> any_error + 'm list" where
  "read_segment S c st prefix i label index =
     tryR (io_get S st (seg_key prefix i index)) (\<lambda>bs. decode_state [] c bs label)"

definition indices :: "u32 \<Rightarrow> u32 list" where
  "indices count = map of_nat [0 ..< unat count]"

fun read_segments :: "'s storage \<Rightarrow> 'm list codec \<Rightarrow> 's \<Rightarrow> bytes \<Rightarrow> string \<Rightarrow> string \<Rightarrow> u32 list \<Rightarrow> any_error + 'm list list" where
  "read_segments S c st prefix i label [] = Ok []"
| "read_segments S c st prefix i label (index # rest) =
     tryR (read_segment S c st prefix i label index) (\<lambda>seg.
     tryR (read_segments S c st prefix i label rest) (\<lambda>segs. Ok (seg # segs)))"

definition load_segments :: "'s storage \<Rightarrow> 'm list codec \<Rightarrow> u32 codec \<Rightarrow> 's \<Rightarrow> bytes \<Rightarrow> string \<Rightarrow> string \<Rightarrow> any_error + 'm list" where
  "load_segments S c cm st prefix i label =
     tryR (seg_count S cm st prefix i) (\<lambda>count.
     tryR (read_segments S c st prefix i label (indices count)) (\<lambda>segs. Ok (concat segs)))"

definition append_segment_mutations ::
    "'s storage \<Rightarrow> 'm list codec \<Rightarrow> u32 codec \<Rightarrow> 's \<Rightarrow> bytes \<Rightarrow> string \<Rightarrow> 'm \<Rightarrow> string \<Rightarrow> any_error + storage_mutation list" where
  "append_segment_mutations S c cm st prefix i message label =
     tryR (seg_count S cm st prefix i) (\<lambda>count.
     tryR (if count = 0 then Ok (0, 1)
           else let tail_idx = count - 1 in
             tryR (read_segment S c st prefix i label tail_idx) (\<lambda>tail.
             Ok (if length tail \<ge> SEGMENT then (count, count + 1) else (tail_idx, count)))) (\<lambda>(target, new_count).
     tryR (if target < count then read_segment S c st prefix i label target else Ok []) (\<lambda>seg.
     Ok (Put (seg_key prefix i target) (wire_encode c (seg @ [message])) #
         (if new_count \<noteq> count then [Put (meta_key prefix i) (wire_encode cm new_count)] else [])))))"

text \<open>
  The loop of \<open>load_active_segments\<close>, \<open>delete_segments\<close> and the two edits: read a segment,
  transform it, write it back only when it changed.
\<close>

fun walk_segments ::
    "'s storage \<Rightarrow> 'm list codec \<Rightarrow> 's \<Rightarrow> bytes \<Rightarrow> string \<Rightarrow> string \<Rightarrow> ('m list \<Rightarrow> bool) \<Rightarrow> ('m list \<Rightarrow> 'm list) \<Rightarrow> u32 list \<Rightarrow>
     (any_error + 'm list) \<times> 's" where
  "walk_segments S c st prefix i label changed f [] = (Ok [], st)"
| "walk_segments S c st prefix i label changed f (index # rest) =
     tryE (read_segment S c st prefix i label index) st (\<lambda>seg.
     tryS (if changed seg then io_put S st (seg_key prefix i index) (wire_encode c (f seg)) else (Ok (), st)) (\<lambda>_ st.
     tryS (walk_segments S c st prefix i label changed f rest) (\<lambda>out st. (Ok (f seg @ out), st))))"

definition filter_changed :: "('m \<Rightarrow> bool) \<Rightarrow> 'm list \<Rightarrow> bool" where
  "filter_changed gone seg \<longleftrightarrow> length (filter (\<lambda>m. \<not> gone m) seg) \<noteq> length seg"

definition load_active_segments ::
    "'s storage \<Rightarrow> 'm list codec \<Rightarrow> u32 codec \<Rightarrow> 's \<Rightarrow> bytes \<Rightarrow> string \<Rightarrow> string \<Rightarrow> ('m \<Rightarrow> bool) \<Rightarrow> (any_error + 'm list) \<times> 's" where
  "load_active_segments S c cm st prefix i label expired =
     tryE (seg_count S cm st prefix i) st (\<lambda>count.
     walk_segments S c st prefix i label (filter_changed expired) (filter (\<lambda>m. \<not> expired m)) (indices count))"

definition delete_segments ::
    "'s storage \<Rightarrow> 'm list codec \<Rightarrow> u32 codec \<Rightarrow> 's \<Rightarrow> bytes \<Rightarrow> string \<Rightarrow> string \<Rightarrow> ('m \<Rightarrow> bool) \<Rightarrow> (any_error + unit) \<times> 's" where
  "delete_segments S c cm st prefix i label remove =
     tryE (seg_count S cm st prefix i) st (\<lambda>count.
     tryS (walk_segments S c st prefix i label (filter_changed remove) (filter (\<lambda>m. \<not> remove m)) (indices count)) (\<lambda>_ st.
     (Ok (), st)))"

definition edit_segments ::
    "'s storage \<Rightarrow> 'm list codec \<Rightarrow> u32 codec \<Rightarrow> 's \<Rightarrow> bytes \<Rightarrow> string \<Rightarrow> string \<Rightarrow> ('m \<Rightarrow> bool) \<Rightarrow> ('m \<Rightarrow> 'm) \<Rightarrow> (any_error + unit) \<times> 's" where
  "edit_segments S c cm st prefix i label hit g =
     tryE (seg_count S cm st prefix i) st (\<lambda>count.
     tryS (walk_segments S c st prefix i label (list_ex hit) (map (\<lambda>m. if hit m then g m else m)) (indices count)) (\<lambda>_ st.
     (Ok (), st)))"

section \<open>Direct transcripts\<close>

definition history_load :: "'s storage \<Rightarrow> history_codecs \<Rightarrow> 's \<Rightarrow> string \<Rightarrow> any_error + stored_message list" where
  "history_load S H st uid = load_segments S (c_messages H) (c_meta H) st HIST uid ''1:1 transcript''"

definition history_peers :: "'s storage \<Rightarrow> history_codecs \<Rightarrow> 's \<Rightarrow> any_error + string list" where
  "history_peers S H st = tryR (io_get S st PEER_INDEX) (\<lambda>bs. decode_state [] (c_peers H) bs ''peer index'')"

definition history_append :: "'s storage \<Rightarrow> history_codecs \<Rightarrow> 's \<Rightarrow> string \<Rightarrow> stored_message \<Rightarrow> (any_error + bool) \<times> 's" where
  "history_append S H st peer message =
     tryE (if sm_id message = [] then Ok True
           else tryR (history_load S H st peer) (\<lambda>known. Ok (\<not> list_ex (\<lambda>k. sm_id k = sm_id message) known))) st (\<lambda>inserted.
     tryE (history_peers S H st) st (\<lambda>names.
     tryE (if inserted then append_segment_mutations S (c_messages H) (c_meta H) st HIST peer message ''1:1 transcript''
           else Ok []) st (\<lambda>mutations.
     let mutations = (if \<not> list_ex (\<lambda>p. p = peer) names
           then mutations @ [Put PEER_INDEX (wire_encode (c_peers H) (names @ [peer]))] else mutations)
     in tryS (io_batch S st mutations) (\<lambda>_ st. (Ok inserted, st)))))"

definition message_expired :: "u64 option \<Rightarrow> u64 \<Rightarrow> bool" where
  "message_expired expires_at now = (case expires_at of Some at \<Rightarrow> now \<ge> at | None \<Rightarrow> False)"

definition history_load_active :: "'s storage \<Rightarrow> history_codecs \<Rightarrow> 's \<Rightarrow> string \<Rightarrow> u64 \<Rightarrow> (any_error + stored_message list) \<times> 's" where
  "history_load_active S H st peer now =
     load_active_segments S (c_messages H) (c_meta H) st HIST peer ''1:1 transcript'' (\<lambda>m. message_expired (sm_expires_at m) now)"

definition history_clear :: "'s storage \<Rightarrow> history_codecs \<Rightarrow> 's \<Rightarrow> string \<Rightarrow> (any_error + unit) \<times> 's" where
  "history_clear S H st peer =
     tryE (seg_count S (c_meta H) st HIST peer) st (\<lambda>count.
     tryE (history_peers S H st) st (\<lambda>names.
     io_batch S st (map (\<lambda>index. Delete (seg_key HIST peer index)) (indices count) @
       [Delete (meta_key HIST peer), Put PEER_INDEX (wire_encode (c_peers H) (filter (\<lambda>p. p \<noteq> peer) names))])))"

definition history_edit :: "'s storage \<Rightarrow> history_codecs \<Rightarrow> 's \<Rightarrow> string \<Rightarrow> string \<Rightarrow> string \<Rightarrow> bool \<Rightarrow> (any_error + unit) \<times> 's" where
  "history_edit S H st peer i new_text by_me =
     edit_segments S (c_messages H) (c_meta H) st HIST peer ''1:1 transcript''
       (\<lambda>m. sm_id m = i \<and> sm_from_me m = by_me) (\<lambda>m. m\<lparr>sm_text := new_text @ '' (edited)''\<rparr>)"

definition history_delete :: "'s storage \<Rightarrow> history_codecs \<Rightarrow> 's \<Rightarrow> string \<Rightarrow> string \<Rightarrow> bool \<Rightarrow> (any_error + unit) \<times> 's" where
  "history_delete S H st peer i by_me =
     delete_segments S (c_messages H) (c_meta H) st HIST peer ''1:1 transcript'' (\<lambda>m. sm_id m = i \<and> sm_from_me m = by_me)"

section \<open>Group transcripts\<close>

definition group_load :: "'s storage \<Rightarrow> history_codecs \<Rightarrow> 's \<Rightarrow> string \<Rightarrow> any_error + group_stored_message list" where
  "group_load S H st group_id = load_segments S (c_group_messages H) (c_meta H) st GHIST group_id ''group transcript''"

definition group_append :: "'s storage \<Rightarrow> history_codecs \<Rightarrow> 's \<Rightarrow> string \<Rightarrow> group_stored_message \<Rightarrow> (any_error + bool) \<times> 's" where
  "group_append S H st group_id message =
     tryE (if gsm_id message \<noteq> [] then
             tryR (group_load S H st group_id) (\<lambda>known. Ok (list_ex (\<lambda>k. gsm_id k = gsm_id message) known))
           else Ok False) st (\<lambda>known.
     if known then (Ok False, st)
     else tryE (append_segment_mutations S (c_group_messages H) (c_meta H) st GHIST group_id message ''group transcript'') st (\<lambda>mutations.
          tryS (io_batch S st mutations) (\<lambda>_ st. (Ok True, st))))"

definition group_edit :: "'s storage \<Rightarrow> history_codecs \<Rightarrow> 's \<Rightarrow> string \<Rightarrow> string \<Rightarrow> string \<Rightarrow> string \<Rightarrow> (any_error + unit) \<times> 's" where
  "group_edit S H st group_id i new_text sender =
     edit_segments S (c_group_messages H) (c_meta H) st GHIST group_id ''group transcript''
       (\<lambda>m. gsm_id m = i \<and> gsm_sender m = sender) (\<lambda>m. m\<lparr>gsm_text := new_text @ '' (edited)''\<rparr>)"

definition group_delete :: "'s storage \<Rightarrow> history_codecs \<Rightarrow> 's \<Rightarrow> string \<Rightarrow> string \<Rightarrow> string \<Rightarrow> (any_error + unit) \<times> 's" where
  "group_delete S H st group_id i sender =
     delete_segments S (c_group_messages H) (c_meta H) st GHIST group_id ''group transcript'' (\<lambda>m. gsm_id m = i \<and> gsm_sender m = sender)"

definition group_load_active :: "'s storage \<Rightarrow> history_codecs \<Rightarrow> 's \<Rightarrow> string \<Rightarrow> u64 \<Rightarrow> (any_error + group_stored_message list) \<times> 's" where
  "group_load_active S H st group_id now =
     load_active_segments S (c_group_messages H) (c_meta H) st GHIST group_id ''group transcript'' (\<lambda>m. message_expired (gsm_expires_at m) now)"

section \<open>Keys\<close>

lemma length_zero_padded: "length (zero_padded 12 (unat (n :: u32))) = 12"
proof -
  have "unat n < 2 ^ 32" using unsigned_less [of n, where ?'a = nat] by simp
  then have "unat n < 10 ^ 12" by simp
  from length_nat_decimal [OF this] show ?thesis by (simp add: zero_padded_def)
qed

lemma seg_key_inject: "seg_key p i m = seg_key p j n \<longleftrightarrow> i = j \<and> m = n"
proof
  assume "seg_key p i m = seg_key p j n"
  then have "str_bytes (i @ '':'' @ zero_padded 12 (unat m)) = str_bytes (j @ '':'' @ zero_padded 12 (unat n))"
    by (simp only: seg_key_def str_bytes_append same_append_eq)
  then have "(i @ '':'') @ zero_padded 12 (unat m) = (j @ '':'') @ zero_padded 12 (unat n)" by (simp only: str_bytes_inject append_assoc)
  then have "i @ '':'' = j @ '':''" "zero_padded 12 (unat m) = zero_padded 12 (unat n)"
    using split_list_suffix [OF trans [OF length_zero_padded length_zero_padded [symmetric]]] by blast+
  then show "i = j \<and> m = n" by (auto simp: zero_padded_inject intro: unsigned_word_eqI)
qed simp

lemma last_nat_decimal: "last (nat_decimal n) = digit_char (n mod 10)" "nat_decimal n \<noteq> []"
  by (cases "n < 10"; subst nat_decimal.simps; simp)+

lemma digit_not_a: "digit_char (n mod 10) \<noteq> CHR ''a''"
proof
  assume "digit_char (n mod 10) = CHR ''a''"
  then have "(of_char (digit_char (n mod 10)) :: nat) = of_char (CHR ''a'')" by simp
  then show False by (simp add: of_char_digit)
qed

lemma seg_meta_differ: "seg_key p i m \<noteq> meta_key p j"
proof
  assume "seg_key p i m = meta_key p j"
  then have "str_bytes (i @ '':'' @ zero_padded 12 (unat m)) = str_bytes (j @ '':meta'')"
    by (simp only: seg_key_def meta_key_def str_bytes_append same_append_eq)
  then have "i @ '':'' @ zero_padded 12 (unat m) = j @ '':meta''" by (simp only: str_bytes_inject)
  then have "last (i @ '':'' @ zero_padded 12 (unat m)) = last (j @ '':meta'')" by simp
  moreover have "last (i @ '':'' @ zero_padded 12 (unat m)) = digit_char (unat m mod 10)"
    by (simp add: zero_padded_def last_append last_nat_decimal)
  ultimately show False using digit_not_a [of "unat m"] by simp
qed

lemma meta_key_inject: "meta_key p i = meta_key p j \<longleftrightarrow> i = j"
  by (simp add: meta_key_def)

lemma history_prefixes:
  "HIST @ x \<noteq> GHIST @ y" "HIST @ x \<noteq> PEER_INDEX" "GHIST @ x \<noteq> PEER_INDEX"
  by (simp_all add: HIST_def GHIST_def PEER_INDEX_def str_bytes_def)

lemmas history_keys [simp] = seg_key_inject seg_meta_differ seg_meta_differ [symmetric] meta_key_inject

lemma history_key_spaces [simp]:
  "seg_key HIST i m \<noteq> seg_key GHIST j n" "seg_key HIST i m \<noteq> meta_key GHIST j"
  "meta_key HIST i \<noteq> seg_key GHIST j n" "meta_key HIST i \<noteq> meta_key GHIST j"
  "seg_key HIST i m \<noteq> PEER_INDEX" "meta_key HIST i \<noteq> PEER_INDEX" "seg_key GHIST i m \<noteq> PEER_INDEX" "meta_key GHIST i \<noteq> PEER_INDEX"
  by (simp_all add: seg_key_def meta_key_def history_prefixes)

lemmas history_key_spaces_sym [simp] = history_key_spaces [symmetric]

section \<open>Threads as lists\<close>

lemma read_segments_length: "read_segments S c st p i l is = Ok segs \<Longrightarrow> length segs = length is"
  by (induction "is" arbitrary: segs) (auto simp: result_elims)

lemma read_segments_cong:
  "(\<And>n. n \<in> set is \<Longrightarrow> io_get S st' (seg_key p i n) = io_get S st (seg_key p i n)) \<Longrightarrow>
   read_segments S c st' p i l is = read_segments S c st p i l is"
  by (induction "is") (simp_all add: read_segment_def)

lemma read_segments_append:
  "read_segments S c st p i l (is @ js) =
     tryR (read_segments S c st p i l is) (\<lambda>a. tryR (read_segments S c st p i l js) (\<lambda>b. Ok (a @ b)))"
proof (induction "is")
  case Nil
  show ?case by (cases "read_segments S c st p i l js") simp_all
next
  case (Cons n ns)
  then show ?case
    by (cases "read_segment S c st p i l n"; cases "read_segments S c st p i l ns"; cases "read_segments S c st p i l js") simp_all
qed

lemma distinct_indices: "distinct (indices count)"
proof -
  have "inj_on (of_nat :: nat \<Rightarrow> u32) {0 ..< unat count}"
  proof (rule inj_onI)
    fix x y :: nat
    assume xy: "x \<in> {0 ..< unat count}" "y \<in> {0 ..< unat count}" "(of_nat x :: u32) = of_nat y"
    have "unat count < 2 ^ 32" using unsigned_less [of count, where ?'a = nat] by simp
    with xy(1,2) have "x < 2 ^ 32" "y < 2 ^ 32" by simp_all
    moreover from xy(3) have "unat (of_nat x :: u32) = unat (of_nat y :: u32)" by simp
    ultimately show "x = y" by (simp add: unat_of_nat)
  qed
  then show ?thesis by (simp add: indices_def distinct_map)
qed

lemma indices_Suc: "n \<noteq> - 1 \<Longrightarrow> indices (n + 1) = indices n @ [n]"
proof -
  assume "n \<noteq> - 1"
  then have "unat (n + 1) = Suc (unat n)"
    by (metis add.commute unatSuc eq_neg_iff_add_eq_0)
  then show ?thesis by (simp add: indices_def)
qed

lemma indices_pred: "n \<noteq> 0 \<Longrightarrow> indices n = indices (n - 1) @ [n - 1]"
  using indices_Suc [of "n - 1"] by simp

lemma indices_0 [simp]: "indices 0 = []"
  by (simp add: indices_def)

lemma in_indices: "n \<in> set (indices m) \<Longrightarrow> n < m"
  by (auto simp: indices_def word_less_nat_alt unat_of_nat)

context kv_store
begin

lemma walk_segments_spec:
  assumes "inv st" "codec_ok c" "distinct is" "\<And>seg. \<not> changed seg \<Longrightarrow> f seg = seg"
    and "walk_segments S c st p i l changed f is = (Ok out, st')"
  shows "inv st' \<and> (\<exists>segs. read_segments S c st p i l is = Ok segs \<and> read_segments S c st' p i l is = Ok (map f segs) \<and> out = concat (map f segs))
    \<and> (\<forall>k. k \<notin> seg_key p i ` set is \<longrightarrow> io_get S st' k = io_get S st k)"
  using assms(1,3,5)
proof (induction "is" arbitrary: st out)
  case Nil
  then show ?case by auto
next
  case (Cons n ns)
  from Cons.prems obtain seg st1 out1 where seg: "read_segment S c st p i l n = Ok seg"
    and put: "(if changed seg then io_put S st (seg_key p i n) (wire_encode c (f seg)) else (Ok (), st)) = (Ok (), st1)"
    and walk: "walk_segments S c st1 p i l changed f ns = (Ok out1, st')" and out: "out = f seg @ out1"
    by (auto simp: result_elims)
  have st1: "inv st1 \<and> (\<forall>k. io_get S st1 k = (if k = seg_key p i n \<and> changed seg then Ok (Some (wire_encode c (f seg))) else io_get S st k))"
  proof (cases "changed seg")
    case True
    with put io_put_reads [OF Cons.prems(1), of "seg_key p i n" "wire_encode c (f seg)" st1] show ?thesis
      by (simp del: io_get_Ok)
  next
    case False
    with put Cons.prems(1) show ?thesis by simp
  qed
  from Cons.IH [OF conjunct1 [OF st1] _ walk] Cons.prems(2) obtain segs where
    segs: "read_segments S c st1 p i l ns = Ok segs" "read_segments S c st' p i l ns = Ok (map f segs)" "out1 = concat (map f segs)"
    and inv: "inv st'" and frame: "\<forall>k. k \<notin> seg_key p i ` set ns \<longrightarrow> io_get S st' k = io_get S st1 k" by auto
  have "read_segments S c st p i l ns = Ok segs"
  proof -
    have "io_get S st1 (seg_key p i n') = io_get S st (seg_key p i n')" if "n' \<in> set ns" for n'
      using that Cons.prems(2) st1 by (auto simp del: io_get_Ok)
    from read_segments_cong [of ns S st1 p i st c l, OF this] segs(1) show ?thesis by simp
  qed
  moreover have "seg_key p i n \<notin> seg_key p i ` set ns" using Cons.prems(2) by auto
  with frame st1 have "io_get S st' (seg_key p i n) = (if changed seg then Ok (Some (wire_encode c (f seg))) else io_get S st (seg_key p i n))"
    by (simp del: io_get_Ok)
  with seg assms(2,4) have "read_segment S c st' p i l n = Ok (f seg)"
    by (cases "changed seg") (simp_all add: read_segment_def del: io_get_Ok)
  moreover have "\<forall>k. k \<notin> seg_key p i ` set (n # ns) \<longrightarrow> io_get S st' k = io_get S st k"
    using frame st1 by (simp del: io_get_Ok)
  ultimately show ?case using seg segs out inv by simp
qed

lemma walk_load:
  assumes "inv st" "codec_ok c" "\<And>seg. \<not> changed seg \<Longrightarrow> f seg = seg"
    and "seg_count S cm st p i = Ok count" "walk_segments S c st p i l changed f (indices count) = (Ok out, st')"
  shows "inv st'" "\<exists>segs. load_segments S c cm st p i l = Ok (concat segs) \<and> load_segments S c cm st' p i l = Ok (concat (map f segs))
      \<and> out = concat (map f segs)"
    "(\<And>n. k \<noteq> seg_key p i n) \<Longrightarrow> io_get S st' k = io_get S st k"
proof -
  note w = walk_segments_spec [OF assms(1,2) distinct_indices assms(3) assms(5)]
  show "inv st'" using w by blast
  show frame: "(\<And>n. k \<noteq> seg_key p i n) \<Longrightarrow> io_get S st' k = io_get S st k" for k using w by blast
  have "seg_count S cm st' p i = Ok count" using assms(4) frame [of "meta_key p i"] by (simp add: seg_count_def)
  with w assms(4) show "\<exists>segs. load_segments S c cm st p i l = Ok (concat segs) \<and> load_segments S c cm st' p i l = Ok (concat (map f segs))
      \<and> out = concat (map f segs)" by (auto simp: load_segments_def)
qed

end

lemma read_segment_upd:
  assumes "\<And>k. k \<in> range (seg_key p i) \<Longrightarrow> st_get S st' k = ((st_get S st)(seg_key p i t := Ok (Some (wire_encode c seg)))) k" "codec_ok c"
  shows "read_segment S c st' p i l n = (if n = t then Ok seg else read_segment S c st p i l n)"
  using assms by (simp add: read_segment_def io_get_def)

lemma read_segments_upd:
  assumes "\<And>n. read_segment S c st' p i l n = (if n = t then r else read_segment S c st p i l n)" "t \<notin> set is"
  shows "read_segments S c st' p i l is = read_segments S c st p i l is"
  using assms by (induction "is") auto

lemma append_segment_load:
  assumes c: "codec_ok c" "codec_ok cm" and ms: "append_segment_mutations S c cm st p i m l = Ok ms"
    and reads: "\<And>k. k = meta_key p i \<or> k \<in> range (seg_key p i) \<Longrightarrow> st_get S st' k = apply_mutations ms (st_get S st) k"
    and load: "load_segments S c cm st p i l = Ok xs" and small: "seg_count S cm st p i \<noteq> Ok (- 1)"
  shows "load_segments S c cm st' p i l = Ok (xs @ [m])"
proof -
  from load obtain count segs where count: "seg_count S cm st p i = Ok count"
    and segs: "read_segments S c st p i l (indices count) = Ok segs" "xs = concat segs"
    by (auto simp: load_segments_def result_elims)
  have fresh: ?thesis if ms': "ms = [Put (seg_key p i count) (wire_encode c [m]), Put (meta_key p i) (wire_encode cm (count + 1))]"
  proof -
    have upd: "read_segment S c st' p i l n = (if n = count then Ok [m] else read_segment S c st p i l n)" for n
      by (rule read_segment_upd [OF _ c(1)]) (use reads in \<open>auto simp: ms'\<close>)
    have "seg_count S cm st' p i = Ok (count + 1)"
      using reads [of "meta_key p i"] c(2) by (simp add: seg_count_def io_get_def ms')
    moreover have "count \<notin> set (indices count)" using in_indices [of count count] by auto
    from read_segments_upd [OF upd this] have "read_segments S c st' p i l (indices count) = Ok segs" using segs by simp
    ultimately show ?thesis
      using segs(2) small count by (simp add: load_segments_def indices_Suc read_segments_append upd)
  qed
  show ?thesis
  proof (cases "count = 0")
    case True
    with ms count show ?thesis by (intro fresh) (simp add: append_segment_mutations_def)
  next
    case False
    from segs(1) False obtain init tail where init: "read_segments S c st p i l (indices (count - 1)) = Ok init"
      and tail: "read_segment S c st p i l (count - 1) = Ok tail" and eq: "segs = init @ [tail]"
      by (auto simp: indices_pred [of count] read_segments_append result_elims)
    show ?thesis
    proof (cases "length tail \<ge> SEGMENT")
      case True
      with False ms count tail show ?thesis by (intro fresh) (simp add: append_segment_mutations_def Let_def)
    next
      case len: False
      from False have less: "count - 1 < count" by (metis in_indices in_set_conv_decomp indices_pred)
      with len False ms count tail have ms': "ms = [Put (seg_key p i (count - 1)) (wire_encode c (tail @ [m]))]"
        by (simp add: append_segment_mutations_def Let_def)
      have upd: "read_segment S c st' p i l n = (if n = count - 1 then Ok (tail @ [m]) else read_segment S c st p i l n)" for n
        by (rule read_segment_upd [OF _ c(1)]) (use reads in \<open>auto simp: ms'\<close>)
      have "seg_count S cm st' p i = Ok count"
        using reads [of "meta_key p i"] count by (simp add: seg_count_def io_get_def ms')
      moreover have "count - 1 \<notin> set (indices (count - 1))" using in_indices [of "count - 1" "count - 1"] by auto
      from read_segments_upd [OF upd this] init have "read_segments S c st' p i l (indices (count - 1)) = Ok init" by simp
      ultimately show ?thesis
        using segs(2) eq False by (simp add: load_segments_def indices_pred [of count] read_segments_append upd)
    qed
  qed
qed

lemma append_segment_keys:
  assumes "append_segment_mutations S c cm st p i m l = Ok ms"
  shows "mutation_key ` set ms \<subseteq> insert (meta_key p i) (range (seg_key p i))"
  using assms by (auto simp: append_segment_mutations_def result_elims split: if_splits)

lemma load_segments_cong:
  assumes "\<And>k. k = meta_key p i \<or> k \<in> range (seg_key p i) \<Longrightarrow> io_get S st' k = io_get S st k"
  shows "load_segments S c cm st' p i l = load_segments S c cm st p i l"
  using assms read_segments_cong [of _ S st' p i st c l] by (simp add: load_segments_def seg_count_def)

lemma filter_unchanged: "\<not> filter_changed gone seg \<Longrightarrow> filter (\<lambda>m. \<not> gone m) seg = seg"
  by (auto simp: filter_changed_def filter_id_conv dest: length_filter_less)

lemma edit_unchanged: "\<not> list_ex hit seg \<Longrightarrow> map (\<lambda>m. if hit m then g m else m) seg = seg"
  by (induction seg) auto

lemma concat_map_filter: "concat (map (filter q) xss) = filter q (concat xss)"
  by (induction xss) auto

lemma concat_map_map: "concat (map (map g) xss) = map g (concat xss)"
  by (induction xss) auto

text \<open>Thread \<open>i\<close> under prefix \<open>p\<close> now reads \<open>ys\<close>; everything outside its segments is unchanged.\<close>

definition thread_updated ::
    "'s storage \<Rightarrow> 'm list codec \<Rightarrow> u32 codec \<Rightarrow> bytes \<Rightarrow> string \<Rightarrow> string \<Rightarrow> 's \<Rightarrow> 's \<Rightarrow> 'm list \<Rightarrow> bool" where
  "thread_updated S c cm p i l st st' ys \<longleftrightarrow> load_segments S c cm st' p i l = Ok ys
     \<and> (\<forall>k. k \<notin> range (seg_key p i) \<longrightarrow> io_get S st' k = io_get S st k)"

context kv_store
begin

lemma load_active_thread:
  assumes "inv st" "codec_ok c" "load_active_segments S c cm st p i l expired = (Ok out, st')" "load_segments S c cm st p i l = Ok xs"
  shows "inv st' \<and> out = filter (\<lambda>m. \<not> expired m) xs \<and> thread_updated S c cm p i l st st' (filter (\<lambda>m. \<not> expired m) xs)"
proof -
  from assms(3) obtain count where "seg_count S cm st p i = Ok count"
    "walk_segments S c st p i l (filter_changed expired) (filter (\<lambda>m. \<not> expired m)) (indices count) = (Ok out, st')"
    by (auto simp: load_active_segments_def result_elims)
  from walk_load [OF assms(1,2) filter_unchanged this] assms(4) show ?thesis
    by (auto simp: thread_updated_def concat_map_filter)
qed

lemma delete_thread:
  assumes "inv st" "codec_ok c" "delete_segments S c cm st p i l gone = (Ok (), st')" "load_segments S c cm st p i l = Ok xs"
  shows "inv st' \<and> thread_updated S c cm p i l st st' (filter (\<lambda>m. \<not> gone m) xs)"
proof -
  from assms(3) obtain count out where "seg_count S cm st p i = Ok count"
    "walk_segments S c st p i l (filter_changed gone) (filter (\<lambda>m. \<not> gone m)) (indices count) = (Ok out, st')"
    by (auto simp: delete_segments_def result_elims)
  from walk_load [OF assms(1,2) filter_unchanged this] assms(4) show ?thesis
    by (auto simp: thread_updated_def concat_map_filter)
qed

lemma edit_thread:
  assumes "inv st" "codec_ok c" "edit_segments S c cm st p i l hit g = (Ok (), st')" "load_segments S c cm st p i l = Ok xs"
  shows "inv st' \<and> thread_updated S c cm p i l st st' (map (\<lambda>m. if hit m then g m else m) xs)"
proof -
  from assms(3) obtain count out where "seg_count S cm st p i = Ok count"
    "walk_segments S c st p i l (list_ex hit) (map (\<lambda>m. if hit m then g m else m)) (indices count) = (Ok out, st')"
    by (auto simp: edit_segments_def result_elims)
  from walk_load [OF assms(1,2) edit_unchanged this] assms(4) show ?thesis
    by (auto simp: thread_updated_def concat_map_map)
qed

lemma history_append_spec:
  assumes "inv st" "history_codecs_ok H" "history_load S H st peer = Ok msgs"
    and "seg_count S (c_meta H) st HIST peer \<noteq> Ok (- 1)" "history_append S H st peer m = (Ok b, st')"
  shows "inv st'" "b \<longleftrightarrow> sm_id m = [] \<or> sm_id m \<notin> sm_id ` set msgs"
    "history_load S H st' peer = Ok (if b then msgs @ [m] else msgs)"
    "\<exists>names. history_peers S H st' = Ok names \<and> peer \<in> set names"
    "k \<noteq> PEER_INDEX \<Longrightarrow> k \<noteq> meta_key HIST peer \<Longrightarrow> k \<notin> range (seg_key HIST peer) \<Longrightarrow> io_get S st' k = io_get S st k"
proof -
  from assms(3,5) obtain names ms where names: "history_peers S H st = Ok names"
    and b: "b \<longleftrightarrow> sm_id m = [] \<or> \<not> list_ex (\<lambda>k. sm_id k = sm_id m) msgs"
    and ms: "(if b then append_segment_mutations S (c_messages H) (c_meta H) st HIST peer m ''1:1 transcript'' else Ok []) = Ok ms"
    and run: "io_batch S st (if \<not> list_ex (\<lambda>p. p = peer) names then ms @ [Put PEER_INDEX (wire_encode (c_peers H) (names @ [peer]))] else ms) = (Ok (), st')"
    by (auto simp: history_append_def result_elims Let_def split: if_splits)
  have get: "st_get S st' k = apply_mutations ms (st_get S st) k" if "k \<noteq> PEER_INDEX" for k
    using batch_get [OF assms(1)] run that by (auto split: if_splits)
  show "inv st'" using batch_inv [OF assms(1)] run by auto
  show "b \<longleftrightarrow> sm_id m = [] \<or> sm_id m \<notin> sm_id ` set msgs" using b by (fastforce simp: list_ex_iff image_iff)
  have keys: "mutation_key ` set ms \<subseteq> insert (meta_key HIST peer) (range (seg_key HIST peer))"
    using ms append_segment_keys [of S "c_messages H" "c_meta H" st HIST peer m "''1:1 transcript''" ms] by (auto split: if_splits)
  have own: "k \<noteq> PEER_INDEX" if "k = meta_key HIST peer \<or> k \<in> range (seg_key HIST peer)" for k using that by auto
  show "history_load S H st' peer = Ok (if b then msgs @ [m] else msgs)"
  proof (cases b)
    case True
    with ms assms(2-4) append_segment_load [of "c_messages H" "c_meta H" S st HIST peer m "''1:1 transcript''" ms st' msgs] get own
    show ?thesis by (simp add: history_load_def history_codecs_ok_def)
  next
    case False
    with ms have "ms = []" by simp
    with get own False assms(3) load_segments_cong [of HIST peer S st' st "c_messages H" "c_meta H" "''1:1 transcript''"] show ?thesis
      by (simp add: history_load_def io_get_def)
  qed
  have "st_get S st' PEER_INDEX = (if \<not> list_ex (\<lambda>p. p = peer) names then Ok (Some (wire_encode (c_peers H) (names @ [peer]))) else st_get S st PEER_INDEX)"
  proof -
    have "PEER_INDEX \<notin> mutation_key ` set ms" using keys own by blast
    then have "apply_mutations ms (st_get S st) PEER_INDEX = st_get S st PEER_INDEX" by (rule apply_mutations_other)
    then show ?thesis using batch_get [OF assms(1)] run by (auto split: if_splits)
  qed
  with names assms(2) show "\<exists>names. history_peers S H st' = Ok names \<and> peer \<in> set names"
    by (auto simp: history_peers_def io_get_def history_codecs_ok_def list_ex_iff split: if_splits)
  show "io_get S st' k = io_get S st k" if "k \<noteq> PEER_INDEX" "k \<noteq> meta_key HIST peer" "k \<notin> range (seg_key HIST peer)"
    using get [OF that(1)] keys that by (subst (asm) apply_mutations_other) (auto simp: io_get_def)
qed

lemma history_clear_spec:
  assumes "inv st" "history_codecs_ok H" "history_clear S H st peer = (Ok (), st')"
  shows "inv st'" "history_load S H st' peer = Ok []"
    "\<exists>names. history_peers S H st = Ok names \<and> history_peers S H st' = Ok (filter (\<lambda>p. p \<noteq> peer) names)"
proof -
  from assms(3) obtain count names where names: "history_peers S H st = Ok names"
    and run: "io_batch S st (map (\<lambda>index. Delete (seg_key HIST peer index)) (indices count) @
       [Delete (meta_key HIST peer), Put PEER_INDEX (wire_encode (c_peers H) (filter (\<lambda>p. p \<noteq> peer) names))]) = (Ok (), st')"
    by (auto simp: history_clear_def result_elims)
  show "inv st'" using batch_inv [OF assms(1)] run by simp
  have "st_get S st' (meta_key HIST peer) = Ok None" "st_get S st' PEER_INDEX = Ok (Some (wire_encode (c_peers H) (filter (\<lambda>p. p \<noteq> peer) names)))"
    using batch_get [OF assms(1)] run by simp_all
  with names assms(2) show "history_load S H st' peer = Ok []"
    "\<exists>names. history_peers S H st = Ok names \<and> history_peers S H st' = Ok (filter (\<lambda>p. p \<noteq> peer) names)"
    by (simp_all add: history_load_def load_segments_def seg_count_def io_get_def history_peers_def history_codecs_ok_def)
qed

end

section \<open>Properties\<close>

definition s_stored :: "stored_message scodec" where
  "s_stored = s_iso (\<lambda>m. (sm_id m, sm_from_me m, sm_text m, sm_timestamp m, sm_expires_at m))
     (\<lambda>(i, f, t, s, e). \<lparr>sm_id = i, sm_from_me = f, sm_text = t, sm_timestamp = s, sm_expires_at = e\<rparr>)
     (s_pair s_string (s_pair s_bool (s_pair s_string (s_pair s_word (s_option s_word)))))"

definition s_group_stored :: "group_stored_message scodec" where
  "s_group_stored = s_iso (\<lambda>m. (gsm_id m, gsm_sender m, gsm_text m, gsm_timestamp m, gsm_expires_at m))
     (\<lambda>(i, f, t, s, e). \<lparr>gsm_id = i, gsm_sender = f, gsm_text = t, gsm_timestamp = s, gsm_expires_at = e\<rparr>)
     (s_pair s_string (s_pair s_string (s_pair s_string (s_pair s_word (s_option s_word)))))"

definition sample_history :: history_codecs where
  "sample_history = \<lparr>c_messages = sample_codec (s_list s_stored), c_group_messages = sample_codec (s_list s_group_stored),
     c_meta = sample_codec s_word, c_peers = sample_codec (s_list s_string)\<rparr>"

lemma sample_history_ok [sample_ok]: "history_codecs_ok sample_history"
  by (auto simp: history_codecs_ok_def sample_history_def s_stored_def s_group_stored_def intro!: sample_ok s_iso_ok)

definition sample_message :: "string \<Rightarrow> stored_message" where
  "sample_message i = \<lparr>sm_id = i, sm_from_me = True, sm_text = ''hi'', sm_timestamp = 5, sm_expires_at = None\<rparr>"

lemma sample_history_empty:
  "seg_count sample_ops cm sample_store p i = Ok 0" "load_segments sample_ops c cm sample_store p i l = Ok []"
  "history_load sample_ops H sample_store peer = Ok []" "history_peers sample_ops H sample_store = Ok []"
  by (simp_all add: history_load_def load_segments_def seg_count_def history_peers_def sample_store_ops)

lemma sample_history_append: "\<exists>st'. history_append sample_ops sample_history sample_store peer (sample_message i) = (Ok True, st')"
proof -
  obtain ms where "append_segment_mutations sample_ops (c_messages sample_history) (c_meta sample_history) sample_store HIST peer (sample_message i) ''1:1 transcript'' = Ok ms"
    by (simp add: append_segment_mutations_def sample_history_empty)
  moreover obtain st' where "io_batch sample_ops sample_store (ms @ [Put PEER_INDEX (wire_encode (c_peers sample_history) [peer])]) = (Ok (), st')"
    using sample_store_ops(2) by blast
  ultimately show ?thesis by (simp add: history_append_def sample_history_empty Let_def del: io_batch_Ok)
qed

text \<open>
  Appending to a transcript appends one message, once.  A message with a new id, or with no
  id, is added at the end whatever the segment layout; a known id changes nothing; the peer is
  listed afterwards; and every other peer's and every group's transcript is untouched.
\<close>

theorem history_append_correct:
  assumes "fs_inv C E M st" "history_codecs_ok H" "history_load (file_ops C E M) H st peer = Ok msgs"
    and "seg_count (file_ops C E M) (c_meta H) st HIST peer \<noteq> Ok (- 1)"
    and "history_append (file_ops C E M) H st peer m = (Ok b, st')"
  shows "(b \<longleftrightarrow> sm_id m = [] \<or> sm_id m \<notin> sm_id ` set msgs)
     \<and> history_load (file_ops C E M) H st' peer = Ok (if b then msgs @ [m] else msgs)
     \<and> (\<exists>names. history_peers (file_ops C E M) H st' = Ok names \<and> peer \<in> set names)
     \<and> (\<forall>q. q \<noteq> peer \<longrightarrow> history_load (file_ops C E M) H st' q = history_load (file_ops C E M) H st q)
     \<and> (\<forall>g. group_load (file_ops C E M) H st' g = group_load (file_ops C E M) H st g)"
proof -
  note spec = fs.history_append_spec [OF assms]
  have "load_segments (file_ops C E M) (c_messages H) (c_meta H) st' HIST q l = load_segments (file_ops C E M) (c_messages H) (c_meta H) st HIST q l"
    if "q \<noteq> peer" for q l using that by (intro load_segments_cong spec(5)) auto
  moreover have "load_segments (file_ops C E M) (c_group_messages H) (c_meta H) st' GHIST g l = load_segments (file_ops C E M) (c_group_messages H) (c_meta H) st GHIST g l"
    for g l
  proof (intro load_segments_cong spec(5))
    fix k
    assume k: "k = meta_key GHIST g \<or> k \<in> range (seg_key GHIST g)"
    then show "k \<noteq> PEER_INDEX" by auto
    show "k \<noteq> meta_key HIST peer" "k \<notin> range (seg_key HIST peer)"
      using k history_key_spaces(1-4) by (metis imageE)+
  qed
  ultimately show ?thesis using spec(2-4) by (simp add: history_load_def group_load_def)
qed

theorem history_append_correct_witness:
  "\<exists>st'. history_append sample_ops sample_history sample_store ''bo'' (sample_message ''m1'') = (Ok True, st')
     \<and> history_load sample_ops sample_history st' ''bo'' = Ok [sample_message ''m1'']"
proof -
  obtain st' where ap: "history_append sample_ops sample_history sample_store ''bo'' (sample_message ''m1'') = (Ok True, st')"
    using sample_history_append by blast
  from history_append_correct [OF sample_fs_inv sample_history_ok, OF sample_history_empty(3) [unfolded sample_ops_def] _ ap [unfolded sample_ops_def]]
  have "history_load sample_ops sample_history st' ''bo'' = Ok [sample_message ''m1'']"
    by (simp add: sample_history_empty [unfolded sample_ops_def] sample_ops_def)
  with ap show ?thesis by blast
qed



end
