(* ===== verification/GroupStore.thy ===== *)
theory GroupStore
  imports Stores GroupSession Wireops
begin

text \<open>
  The items peers exchange and the persisted group state
  (\<open>mycellium-engine/src/groups.rs\<close>).
\<close>

datatype mail_item =
    DirectItem envelope
  | GroupInvite envelope
  | GroupText string group_message
  | GroupLeave envelope

record discovery_record =
  disc_user_id :: string
  disc_handle :: string
  disc_record :: signed_record

datatype peer_frame =
    DeliveryFrame string mail_item
  | AckFrame delivery_ack
  | DiscoveryRequest "string list"
  | DiscoveryResponse "discovery_record list"

record group_leave_payload =
  glp_group_id :: string

record group_member =
  gmem_user_id :: string
  gmem_handle :: string

record group_invite_payload =
  gip_group_id :: string
  gip_name :: string
  gip_members :: "group_member list"
  gip_sender_id :: bytes
  gip_distribution :: sender_key_distribution

record group_sender =
  gs_sender_id :: bytes
  gs_user_id :: string
  gs_handle :: string

record group_key_share =
  ks_user_id :: string
  ks_device_slot :: string
  ks_signing_public :: bytes

record stored_group =
  sg_id :: string
  sg_name :: string
  sg_members :: "group_member list"
  sg_senders :: "group_sender list"
  sg_key_shares :: "group_key_share list"
  sg_state :: group_state

definition note_sender :: "stored_group \<Rightarrow> bytes \<Rightarrow> string \<Rightarrow> string \<Rightarrow> stored_group" where
  "note_sender g sender_id uid h =
     (if List.find (\<lambda>e. gs_sender_id e = sender_id) (sg_senders g) \<noteq> None
      then g\<lparr>sg_senders := upd_first (\<lambda>e. gs_sender_id e = sender_id) (\<lambda>e. e\<lparr>gs_user_id := uid, gs_handle := h\<rparr>) (sg_senders g)\<rparr>
      else g\<lparr>sg_senders := sg_senders g @ [\<lparr>gs_sender_id = sender_id, gs_user_id = uid, gs_handle = h\<rparr>]\<rparr>)"

definition sender_of :: "stored_group \<Rightarrow> bytes \<Rightarrow> group_sender option" where
  "sender_of g sender_id = List.find (\<lambda>e. gs_sender_id e = sender_id) (sg_senders g)"

definition key_shared_with :: "stored_group \<Rightarrow> string \<Rightarrow> string \<Rightarrow> bytes \<Rightarrow> bool" where
  "key_shared_with g uid slot signing_public = list_ex (\<lambda>share.
     ks_user_id share = uid \<and> ks_device_slot share = slot \<and> ks_signing_public share = signing_public) (sg_key_shares g)"

definition note_key_share :: "stored_group \<Rightarrow> group_key_share \<Rightarrow> stored_group" where
  "note_key_share g share =
     g\<lparr>sg_key_shares := filter (\<lambda>known. ks_user_id known \<noteq> ks_user_id share) (sg_key_shares g) @ [share]\<rparr>"

section \<open>Persistence\<close>

record group_codecs =
  c_group :: "stored_group codec"
  c_group_ids :: "string list codec"

definition group_codecs_ok :: "group_codecs \<Rightarrow> bool" where
  "group_codecs_ok c \<longleftrightarrow> codec_ok (c_group c) \<and> codec_ok (c_group_ids c)"

definition group_key :: "string \<Rightarrow> bytes" where
  "group_key i = str_bytes ''group:'' @ str_bytes i"

definition GROUPS_INDEX_KEY :: bytes where
  "GROUPS_INDEX_KEY = str_bytes ''groups''"

definition groups_list :: "'s storage \<Rightarrow> group_codecs \<Rightarrow> 's \<Rightarrow> any_error + string list" where
  "groups_list S c st = tryR (io_get S st GROUPS_INDEX_KEY) (\<lambda>bs. decode_state [] (c_group_ids c) bs ''group index'')"

definition groups_save :: "'s storage \<Rightarrow> group_codecs \<Rightarrow> 's \<Rightarrow> stored_group \<Rightarrow> (any_error + unit) \<times> 's" where
  "groups_save S c st g = tryE (groups_list S c st) st (\<lambda>ids.
     let mutations = [Put (group_key (sg_id g)) (wire_encode (c_group c) g)];
         mutations = (if sg_id g \<notin> set ids
           then mutations @ [Put GROUPS_INDEX_KEY (wire_encode (c_group_ids c) (ids @ [sg_id g]))] else mutations)
     in io_batch S st mutations)"

definition groups_load :: "'s storage \<Rightarrow> group_codecs \<Rightarrow> 's \<Rightarrow> string \<Rightarrow> any_error + stored_group option" where
  "groups_load S c st i = tryR (io_get S st (group_key i)) (\<lambda>bs. load_state (c_group c) bs (''group '' @ quoted i))"

definition groups_remove :: "'s storage \<Rightarrow> group_codecs \<Rightarrow> 's \<Rightarrow> string \<Rightarrow> (any_error + unit) \<times> 's" where
  "groups_remove S c st i = tryE (groups_list S c st) st (\<lambda>ids.
     io_batch S st [Delete (group_key i),
       Put GROUPS_INDEX_KEY (wire_encode (c_group_ids c) (filter (\<lambda>g. g \<noteq> i) ids))])"

section \<open>Facts\<close>

lemma sender_of_note_sender:
  "sender_of (note_sender g sid uid h) sid' =
     (if sid' = sid then Some \<lparr>gs_sender_id = sid, gs_user_id = uid, gs_handle = h\<rparr> else sender_of g sid')"
proof (cases "List.find (\<lambda>e. gs_sender_id e = sid) (sg_senders g)")
  case None
  then show ?thesis by (auto simp: note_sender_def sender_of_def find_append split: option.split)
next
  case (Some e)
  let ?upd = "\<lambda>e. e\<lparr>gs_user_id := uid, gs_handle := h\<rparr> :: group_sender"
  from find_Some_prop [OF Some] have sid: "gs_sender_id e = sid" by simp
  then have new: "?upd e = \<lparr>gs_sender_id = sid, gs_user_id = uid, gs_handle = h\<rparr>" by (cases e) simp
  have "List.find (\<lambda>e. gs_sender_id e = sid) (upd_first (\<lambda>e. gs_sender_id e = sid) ?upd (sg_senders g)) = Some (?upd e)"
    using sid by (intro find_upd_first [OF Some]) simp
  moreover have "sid' \<noteq> sid \<Longrightarrow> List.find (\<lambda>e. gs_sender_id e = sid') (upd_first (\<lambda>e. gs_sender_id e = sid) ?upd (sg_senders g))
      = List.find (\<lambda>e. gs_sender_id e = sid') (sg_senders g)"
    by (rule find_upd_first_other) auto
  ultimately show ?thesis using Some new by (auto simp: note_sender_def sender_of_def)
qed

lemma key_shared_after_note:
  "key_shared_with (note_key_share g share) uid slot pk \<longleftrightarrow>
     (if uid = ks_user_id share then slot = ks_device_slot share \<and> pk = ks_signing_public share else key_shared_with g uid slot pk)"
  by (auto simp: key_shared_with_def note_key_share_def list_ex_iff)

lemma group_keys [simp]: "group_key i = group_key j \<longleftrightarrow> i = j" "group_key i \<noteq> GROUPS_INDEX_KEY"
  by (simp_all add: group_key_def GROUPS_INDEX_KEY_def str_bytes_def) (auto dest: map_injective [OF _ inj_of_char_byte])

definition groups_inv :: "'s storage \<Rightarrow> group_codecs \<Rightarrow> 's \<Rightarrow> bool" where
  "groups_inv S c st \<longleftrightarrow> (\<exists>ids. groups_list S c st = Ok ids \<and> distinct ids \<and>
     (\<forall>i. i \<in> set ids \<longleftrightarrow> groups_load S c st i \<noteq> Ok None) \<and>
     (\<forall>i \<in> set ids. \<exists>g. groups_load S c st i = Ok (Some g) \<and> sg_id g = i))"

context kv_store
begin

lemma groups_reads:
  assumes "inv st" "group_codecs_ok c" "groups_list S c st = Ok names"
    and "io_batch S st (m # (if b then [Put GROUPS_INDEX_KEY (wire_encode (c_group_ids c) names')] else [])) = (Ok (), st')"
    and "m = Put (group_key n) (wire_encode (c_group c) g) \<or> m = Delete (group_key n)"
  shows "inv st'" "groups_list S c st' = Ok (if b then names' else names)"
    "groups_load S c st' n' = (if n' \<noteq> n then groups_load S c st n' else
       if m = Delete (group_key n) then Ok None else Ok (Some g))"
  using indexed_reads [of st "c_group_ids c" "c_group c" group_key GROUPS_INDEX_KEY, OF assms(1) _ _ _ _ _ assms(4,5)] assms(2,3)
  unfolding groups_list_def groups_load_def group_codecs_ok_def by simp_all

lemma groups_save_spec:
  assumes "inv st" "group_codecs_ok c" "groups_inv S c st" "groups_save S c st g = (Ok (), st')"
  shows "inv st'" "groups_inv S c st'" "groups_load S c st' i = (if i = sg_id g then Ok (Some g) else groups_load S c st i)"
proof -
  from assms(3) obtain names where names: "groups_list S c st = Ok names" "distinct names"
    and all: "\<And>n. n \<in> set names \<longleftrightarrow> groups_load S c st n \<noteq> Ok None"
      "\<forall>n \<in> set names. \<exists>g. groups_load S c st n = Ok (Some g) \<and> sg_id g = n"
    by (auto simp: groups_inv_def)
  let ?new = "sg_id g \<notin> set names"
  from assms(4) names have run: "io_batch S st (Put (group_key (sg_id g)) (wire_encode (c_group c) g) #
     (if ?new then [Put GROUPS_INDEX_KEY (wire_encode (c_group_ids c) (names @ [sg_id g]))] else [])) = (Ok (), st')"
    by (cases ?new) (simp_all add: groups_save_def Let_def)
  note r = groups_reads [OF assms(1,2) names(1) run disjI1 [OF refl]]
  show "inv st'" by (rule r)
  show load: "groups_load S c st' i = (if i = sg_id g then Ok (Some g) else groups_load S c st i)" for i
    by (simp add: r(3))
  show "groups_inv S c st'" using r(2) names(2) all by (auto simp: groups_inv_def load)
qed

lemma groups_remove_spec:
  assumes "inv st" "group_codecs_ok c" "groups_inv S c st" "groups_remove S c st gone = (Ok (), st')"
  shows "inv st'" "groups_inv S c st'" "groups_load S c st' i = (if i = gone then Ok None else groups_load S c st i)"
proof -
  from assms(3) obtain names where names: "groups_list S c st = Ok names" "distinct names"
    and all: "\<And>n. n \<in> set names \<longleftrightarrow> groups_load S c st n \<noteq> Ok None"
      "\<forall>n \<in> set names. \<exists>g. groups_load S c st n = Ok (Some g) \<and> sg_id g = n"
    by (auto simp: groups_inv_def)
  from assms(4) names have run: "io_batch S st (Delete (group_key gone) #
     (if True then [Put GROUPS_INDEX_KEY (wire_encode (c_group_ids c) (filter (\<lambda>g. g \<noteq> gone) names))] else [])) = (Ok (), st')"
    by (simp add: groups_remove_def)
  note r = groups_reads [where g = undefined, OF assms(1,2) names(1) run disjI2 [OF refl]]
  show "inv st'" by (rule r)
  show load: "groups_load S c st' i = (if i = gone then Ok None else groups_load S c st i)" for i
    by (simp add: r(3))
  show "groups_inv S c st'" using r(2) names(2) all by (auto simp: groups_inv_def load)
qed

end

section \<open>Properties\<close>

text \<open>
  Sender bookkeeping of a group is exact.  After recording the identity behind a sender
  device, that device maps to it and every other device keeps its identity; after recording a
  key share, exactly that device and key generation of the user counts as holding our key, so a
  user's former device never does, and shares of other users are unaffected.
\<close>

theorem group_bookkeeping:
  "sender_of (note_sender g sid uid h) sid' =
     (if sid' = sid then Some \<lparr>gs_sender_id = sid, gs_user_id = uid, gs_handle = h\<rparr> else sender_of g sid')
   \<and> (key_shared_with (note_key_share g share) uid' slot pk \<longleftrightarrow>
        (if uid' = ks_user_id share then slot = ks_device_slot share \<and> pk = ks_signing_public share
         else key_shared_with g uid' slot pk))"
  by (simp add: sender_of_note_sender key_shared_after_note)

end
