(* ===== verification/SampleCodecs.thy ===== *)
theory SampleCodecs
  imports GroupStore
begin

text \<open>
  Sample codecs of the compound wire types, for the witnesses of the stores that hold them.
  Nothing here models the program.
\<close>

definition s_device :: "device scodec" where
  "s_device = s_iso
     (\<lambda>d. ((sd_record (dev_signed d), sd_signature (dev_signed d)), (sr_record (dev_reachability d), sr_signature (dev_reachability d))))
     (\<lambda>((r, s), (r', s')). \<lparr>dev_signed = \<lparr>sd_record = r, sd_signature = s\<rparr>, dev_reachability = \<lparr>sr_record = r', sr_signature = s'\<rparr>\<rparr>)
     (s_pair (s_pair s_device_record s_bytes) (s_pair s_reachability s_bytes))"

definition s_peer_record :: "peer_record scodec" where
  "s_peer_record = s_iso (\<lambda>r. (rec_user_id r, rec_handle r, rec_name r, rec_wallet r, rec_device r, rec_seq r))
     (\<lambda>(u, h, n, w, d, q). \<lparr>rec_user_id = u, rec_handle = h, rec_name = n, rec_wallet = w, rec_device = d, rec_seq = q\<rparr>)
     (s_pair s_string (s_pair s_string (s_pair s_string (s_pair s_bytes (s_pair s_device s_word)))))"

definition s_signed_record :: "signed_record scodec" where
  "s_signed_record = s_iso (\<lambda>r. (s_record r, s_signature r)) (\<lambda>(r, s). \<lparr>s_record = r, s_signature = s\<rparr>) (s_pair s_peer_record s_bytes)"

definition s_envelope :: "envelope scodec" where
  "s_envelope = s_iso
     (\<lambda>e. (env_from e, env_sender_record e, (initiator_ik (env_init e), initiator_ek (env_init e)), ciphertext (env_message e), env_timestamp e))
     (\<lambda>(f, r, (ik, ek), m, t). \<lparr>env_from = f, env_sender_record = r, env_init = \<lparr>initiator_ik = ik, initiator_ek = ek\<rparr>,
        env_message = X3dhChaCha20Poly1305V1 m, env_timestamp = t\<rparr>)
     (s_pair s_string (s_pair s_signed_record (s_pair (s_pair s_bytes s_bytes) (s_pair s_bytes s_word))))"

definition s_group_message :: "group_message scodec" where
  "s_group_message = s_iso (\<lambda>m. (gm_sender m, gm_iteration m, gm_ciphertext m, gm_signature m))
     (\<lambda>(s, i, c, g). \<lparr>gm_sender = s, gm_iteration = i, gm_ciphertext = c, gm_signature = g\<rparr>)
     (s_pair s_bytes (s_pair s_word (s_pair s_bytes s_bytes)))"

definition s_mail_item :: "mail_item scodec" where
  "s_mail_item = s_iso
     (\<lambda>i. case i of DirectItem e \<Rightarrow> Inl (Inl e) | GroupInvite e \<Rightarrow> Inl (Inr e) | GroupText g m \<Rightarrow> Inr (Inl (g, m)) | GroupLeave e \<Rightarrow> Inr (Inr e))
     (\<lambda>x. case x of Inl (Inl e) \<Rightarrow> DirectItem e | Inl (Inr e) \<Rightarrow> GroupInvite e | Inr (Inl (g, m)) \<Rightarrow> GroupText g m | Inr (Inr e) \<Rightarrow> GroupLeave e)
     (s_sum (s_sum s_envelope s_envelope) (s_sum (s_pair s_string s_group_message) s_envelope))"

lemma s_device_ok [sample_ok]: "scodec_ok s_device"
  unfolding s_device_def by (rule s_iso_ok) (simp_all add: sample_ok)

lemma s_peer_record_ok [sample_ok]: "scodec_ok s_peer_record"
  unfolding s_peer_record_def by (rule s_iso_ok) (simp_all add: sample_ok)

lemma s_signed_record_ok [sample_ok]: "scodec_ok s_signed_record"
  unfolding s_signed_record_def by (rule s_iso_ok) (simp_all add: sample_ok)

lemma s_envelope_ok [sample_ok]: "scodec_ok s_envelope"
  unfolding s_envelope_def by (rule s_iso_ok) (simp_all add: sample_ok)

lemma s_group_message_ok [sample_ok]: "scodec_ok s_group_message"
  unfolding s_group_message_def by (rule s_iso_ok) (simp_all add: sample_ok)

lemma s_mail_item_ok [sample_ok]: "scodec_ok s_mail_item"
  unfolding s_mail_item_def by (rule s_iso_ok) (simp_all add: sample_ok split: mail_item.split)

definition sample_item :: mail_item where
  "sample_item = GroupText ''g'' \<lparr>gm_sender = [1], gm_iteration = 0, gm_ciphertext = [2], gm_signature = [3]\<rparr>"

end
