(* ===== verification/Outbox.thy ===== *)
theory Outbox
  imports SampleCodecs
begin

text \<open>
  The sender-owned outbox (\<open>mycellium-engine/src/outbox.rs\<close>): one stored entry per delivery
  under its own key, an index of the ids in order, retry scheduling and the status changes.
  Attempts are 32-bit and times 64-bit words; the flush pass increments with wrap-around, the
  recorded attempt saturates, as in the source.
\<close>

definition OUTBOX_LEGACY_KEY :: bytes where
  "OUTBOX_LEGACY_KEY = str_bytes ''outbox''"

definition OUTBOX_INDEX_KEY :: bytes where
  "OUTBOX_INDEX_KEY = str_bytes ''outbox-index-v2''"

definition entry_key :: "string \<Rightarrow> bytes" where
  "entry_key i = str_bytes ''outbox-entry-v2:'' @ str_bytes i"

definition RETRY_BASE_SECS :: u64 where
  "RETRY_BASE_SECS = 5"

definition RETRY_MAX_SECS :: u64 where
  "RETRY_MAX_SECS = 60 * 60"

datatype outbox_status = Pending | Delivered | Failed | Cancelled

record outbox_entry =
  ob_id :: string
  ob_recipient_user_id :: string
  ob_recipient :: string
  ob_slot :: string
  ob_item :: "mail_item option"
  ob_created_at :: u64
  ob_attempts :: u32
  ob_send_after :: u64
  ob_status :: outbox_status
  ob_pairwise_plaintext :: "bytes option"

record legacy_outbox_entry =
  leg_id :: string
  leg_recipient_user_id :: string
  leg_recipient :: string
  leg_slot :: string
  leg_item :: mail_item
  leg_created_at :: u64
  leg_attempts :: u32
  leg_send_after :: u64
  leg_status :: outbox_status

record outbox_codecs =
  c_entry :: "outbox_entry codec"
  c_ids :: "string list codec"
  c_entries :: "outbox_entry list codec"
  c_legacy_entries :: "legacy_outbox_entry list codec"

definition is_pending :: "outbox_entry \<Rightarrow> bool" where
  "is_pending e \<longleftrightarrow> ob_status e = Pending \<and> ob_item e \<noteq> None"

definition is_due :: "outbox_entry \<Rightarrow> u64 \<Rightarrow> bool" where
  "is_due e now \<longleftrightarrow> is_pending e \<and> now \<ge> ob_send_after e"

definition retry_delay :: "crypto \<Rightarrow> outbox_entry \<Rightarrow> u64" where
  "retry_delay C e =
     (let exponent = min (saturating_sub (ob_attempts e) 1) 10;
          delay = saturating_mul RETRY_BASE_SECS (push_bit (unat exponent) 1);
          digest = payload_digest C (str_bytes (ob_id e));
          jitter = (ucast (digest ! 0) :: u64) mod RETRY_BASE_SECS
      in min (saturating_add delay jitter) RETRY_MAX_SECS)"

section \<open>One flush pass\<close>

datatype attempt = AttemptDelivered | AttemptDrop | AttemptRetry

definition finish_entry :: "outbox_status \<Rightarrow> outbox_entry \<Rightarrow> outbox_entry" where
  "finish_entry status e = e\<lparr>ob_status := status, ob_item := None, ob_pairwise_plaintext := None\<rparr>"

text \<open>The closure passed to \<open>flush_pass\<close> may keep state of its own, threaded as \<open>d\<close>.\<close>

fun flush_pass :: "crypto \<Rightarrow> outbox_entry list \<Rightarrow> u64 \<Rightarrow> ('d \<Rightarrow> outbox_entry \<Rightarrow> attempt \<times> 'd) \<Rightarrow> 'd \<Rightarrow>
    nat \<Rightarrow> outbox_entry list \<Rightarrow> (nat \<times> outbox_entry list) \<times> 'd" where
  "flush_pass C [] now deliver d delivered remaining = ((delivered, remaining), d)"
| "flush_pass C (e # es) now deliver d delivered remaining =
     (if \<not> is_due e now then flush_pass C es now deliver d delivered (remaining @ [e])
      else case deliver d e of
        (AttemptDelivered, d) \<Rightarrow> flush_pass C es now deliver d (Suc delivered) (remaining @ [finish_entry Delivered e])
      | (AttemptDrop, d) \<Rightarrow> flush_pass C es now deliver d delivered (remaining @ [finish_entry Failed e])
      | (AttemptRetry, d) \<Rightarrow>
          (let e = e\<lparr>ob_attempts := ob_attempts e + 1\<rparr>;
               e = e\<lparr>ob_send_after := saturating_add now (retry_delay C e)\<rparr>
           in flush_pass C es now deliver d delivered (remaining @ [e])))"

section \<open>Persistence\<close>

definition from_legacy :: "legacy_outbox_entry \<Rightarrow> outbox_entry" where
  "from_legacy e = \<lparr>ob_id = leg_id e, ob_recipient_user_id = leg_recipient_user_id e, ob_recipient = leg_recipient e,
     ob_slot = leg_slot e, ob_item = (if leg_status e = Pending then Some (leg_item e) else None),
     ob_created_at = leg_created_at e, ob_attempts = leg_attempts e, ob_send_after = leg_send_after e,
     ob_status = leg_status e, ob_pairwise_plaintext = None\<rparr>"

fun outbox_load_entries :: "'s storage \<Rightarrow> outbox_codecs \<Rightarrow> 's \<Rightarrow> string list \<Rightarrow> any_error + outbox_entry list" where
  "outbox_load_entries S c st [] = Ok []"
| "outbox_load_entries S c st (i # ids) =
     tryR (io_get S st (entry_key i)) (\<lambda>bs.
     tryR (ok_or (AnyMsg (''outbox entry '' @ quoted i @ '' is missing'')) bs) (\<lambda>b.
     tryR (map_err (\<lambda>_. AnyMsg (''outbox entry '' @ quoted i @ '' is corrupt'')) (wire_decode (c_entry c) b)) (\<lambda>e.
     if ob_id e \<noteq> i then Err (AnyMsg (''outbox entry '' @ quoted i @ '' has the wrong identity''))
     else tryR (outbox_load_entries S c st ids) (\<lambda>es. Ok (e # es)))))"

definition outbox_load :: "'s storage \<Rightarrow> outbox_codecs \<Rightarrow> 's \<Rightarrow> any_error + outbox_entry list" where
  "outbox_load S c st = tryR (io_get S st OUTBOX_INDEX_KEY) (\<lambda>index. case index of
      Some index_bytes \<Rightarrow>
        tryR (map_err (\<lambda>_. AnyMsg ''outbox index is corrupt'') (wire_decode (c_ids c) index_bytes)) (outbox_load_entries S c st)
    | None \<Rightarrow> tryR (io_get S st OUTBOX_LEGACY_KEY) (\<lambda>legacy. case legacy of
          None \<Rightarrow> Ok []
        | Some b \<Rightarrow> (case wire_decode (c_entries c) b of
              Ok entries \<Rightarrow> Ok entries
            | Err _ \<Rightarrow> map_err (\<lambda>_. AnyMsg ''legacy outbox is corrupt'')
                (tryR (wire_decode (c_legacy_entries c) b) (\<lambda>entries. Ok (map from_legacy entries))))))"

fun outbox_entry_puts :: "'s storage \<Rightarrow> outbox_codecs \<Rightarrow> 's \<Rightarrow> outbox_entry list \<Rightarrow> any_error + storage_mutation list" where
  "outbox_entry_puts S c st [] = Ok []"
| "outbox_entry_puts S c st (e # es) =
     (let key = entry_key (ob_id e); b = wire_encode (c_entry c) e in
      tryR (io_get S st key) (\<lambda>old.
      tryR (outbox_entry_puts S c st es) (\<lambda>ms. Ok (if old \<noteq> Some b then Put key b # ms else ms))))"

text \<open>The mutations of one save: changed entries, entries dropped from the index, the index when it
  changed, and the legacy blob when it is still there.\<close>

definition outbox_save_mutations ::
    "storage_mutation list \<Rightarrow> string list \<Rightarrow> string list \<Rightarrow> bytes \<Rightarrow> bytes option \<Rightarrow> bytes option \<Rightarrow> storage_mutation list" where
  "outbox_save_mutations puts old_ids ids index old_index legacy =
     puts @ map (\<lambda>i. Delete (entry_key i)) (filter (\<lambda>i. i \<notin> set ids) old_ids)
       @ (if old_index \<noteq> Some index then [Put OUTBOX_INDEX_KEY index] else [])
       @ (if legacy \<noteq> None then [Delete OUTBOX_LEGACY_KEY] else [])"

definition outbox_save :: "'s storage \<Rightarrow> outbox_codecs \<Rightarrow> 's \<Rightarrow> outbox_entry list \<Rightarrow> (any_error + unit) \<times> 's" where
  "outbox_save S c st entries =
     tryE (io_get S st OUTBOX_INDEX_KEY) st (\<lambda>index_bytes.
     tryE (case index_bytes of
         Some b \<Rightarrow> map_err (\<lambda>_. AnyMsg ''outbox index is corrupt'') (wire_decode (c_ids c) b)
       | None \<Rightarrow> tryR (outbox_load S c st) (\<lambda>es. Ok (map ob_id es))) st (\<lambda>old_ids.
     let ids = map ob_id entries in
     if \<not> distinct ids then (Err (AnyMsg ''outbox contains duplicate delivery ids''), st)
     else tryE (outbox_entry_puts S c st entries) st (\<lambda>puts.
       let index = wire_encode (c_ids c) ids
       in tryE (io_get S st OUTBOX_INDEX_KEY) st (\<lambda>old_index.
          tryE (io_get S st OUTBOX_LEGACY_KEY) st (\<lambda>legacy.
            io_batch S st (outbox_save_mutations puts old_ids ids index old_index legacy))))))"

section \<open>Enqueueing\<close>

definition outbox_enqueue_at ::
    "'s storage \<Rightarrow> outbox_codecs \<Rightarrow> 's \<Rightarrow> string \<Rightarrow> string \<times> string \<Rightarrow> string \<Rightarrow> mail_item \<Rightarrow> bytes option \<Rightarrow> u64 \<Rightarrow> u64 \<Rightarrow> (any_error + unit) \<times> 's" where
  "outbox_enqueue_at S c st i recipient dslot item plaintext now send_after =
     (let (recipient_user_id, recipient) = recipient in
      tryE (outbox_load S c st) st (\<lambda>entries.
      case List.find (\<lambda>e. ob_id e = i) entries of
        Some existing \<Rightarrow>
          (if ob_recipient_user_id existing = recipient_user_id \<and> ob_slot existing = dslot then (Ok (), st)
           else (Err (AnyMsg ''delivery id already belongs to another outbox item''), st))
      | None \<Rightarrow> outbox_save S c st (entries @ [\<lparr>ob_id = i, ob_recipient_user_id = recipient_user_id, ob_recipient = recipient,
          ob_slot = dslot, ob_item = Some item, ob_created_at = now, ob_attempts = 0, ob_send_after = send_after,
          ob_status = Pending, ob_pairwise_plaintext = plaintext\<rparr>])))"

definition is_pairwise :: "mail_item \<Rightarrow> bool" where
  "is_pairwise item = (case item of DirectItem _ \<Rightarrow> True | GroupInvite _ \<Rightarrow> True | GroupLeave _ \<Rightarrow> True | GroupText _ _ \<Rightarrow> False)"

definition outbox_enqueue_pairwise ::
    "'s storage \<Rightarrow> outbox_codecs \<Rightarrow> 's \<Rightarrow> string \<Rightarrow> string \<Rightarrow> string \<Rightarrow> string \<Rightarrow> mail_item \<Rightarrow> bytes option \<Rightarrow> u64 \<Rightarrow> (any_error + unit) \<times> 's" where
  "outbox_enqueue_pairwise S c st i recipient_user_id recipient dslot item plaintext now =
     (if plaintext \<noteq> None \<and> \<not> is_pairwise item then (Err (AnyMsg ''only pairwise envelopes can be readdressed''), st)
      else outbox_enqueue_at S c st i (recipient_user_id, recipient) dslot item plaintext now 0)"

definition outbox_enqueue ::
    "'s storage \<Rightarrow> outbox_codecs \<Rightarrow> 's \<Rightarrow> string \<Rightarrow> string \<Rightarrow> string \<Rightarrow> string \<Rightarrow> mail_item \<Rightarrow> u64 \<Rightarrow> (any_error + unit) \<times> 's" where
  "outbox_enqueue S c st i recipient_user_id recipient dslot item now =
     outbox_enqueue_pairwise S c st i recipient_user_id recipient dslot item None now"

definition outbox_len :: "'s storage \<Rightarrow> outbox_codecs \<Rightarrow> 's \<Rightarrow> any_error + nat" where
  "outbox_len S c st = tryR (outbox_load S c st) (\<lambda>entries. Ok (length (filter is_pending entries)))"

section \<open>Status changes\<close>

definition apply_status :: "outbox_status \<Rightarrow> outbox_entry \<Rightarrow> outbox_entry" where
  "apply_status status e =
     (let e = e\<lparr>ob_status := status, ob_send_after := 0\<rparr>
      in if status \<noteq> Pending then e\<lparr>ob_item := None, ob_pairwise_plaintext := None\<rparr> else e)"

definition outbox_set_status :: "'s storage \<Rightarrow> outbox_codecs \<Rightarrow> 's \<Rightarrow> string \<Rightarrow> outbox_status \<Rightarrow> (any_error + bool) \<times> 's" where
  "outbox_set_status S c st i status =
     tryE (outbox_load S c st) st (\<lambda>entries.
     let found = list_ex (\<lambda>e. ob_id e = i) entries;
         entries = map (\<lambda>e. if ob_id e = i then apply_status status e else e) entries
     in if found then tryS (outbox_save S c st entries) (\<lambda>_ st. (Ok found, st)) else (Ok found, st))"

definition mark_delivered :: "'s storage \<Rightarrow> outbox_codecs \<Rightarrow> 's \<Rightarrow> string \<Rightarrow> (any_error + bool) \<times> 's" where
  "mark_delivered S c st i = outbox_set_status S c st i Delivered"

definition mark_cancelled :: "'s storage \<Rightarrow> outbox_codecs \<Rightarrow> 's \<Rightarrow> string \<Rightarrow> (any_error + bool) \<times> 's" where
  "mark_cancelled S c st i = outbox_set_status S c st i Cancelled"

definition mark_failed :: "'s storage \<Rightarrow> outbox_codecs \<Rightarrow> 's \<Rightarrow> string \<Rightarrow> (any_error + bool) \<times> 's" where
  "mark_failed S c st i = outbox_set_status S c st i Failed"

definition make_all_due :: "'s storage \<Rightarrow> outbox_codecs \<Rightarrow> 's \<Rightarrow> (any_error + unit) \<times> 's" where
  "make_all_due S c st = tryE (outbox_load S c st) st (\<lambda>entries.
     outbox_save S c st (map (\<lambda>e. if is_pending e then e\<lparr>ob_send_after := 0\<rparr> else e) entries))"

definition attempt_entry :: "crypto \<Rightarrow> u64 \<Rightarrow> bool \<Rightarrow> outbox_entry \<Rightarrow> outbox_entry" where
  "attempt_entry C now accepted e =
     (if accepted then e\<lparr>ob_status := Delivered, ob_send_after := 0, ob_item := None, ob_pairwise_plaintext := None\<rparr>
      else let e = e\<lparr>ob_attempts := saturating_add (ob_attempts e) 1\<rparr>
           in e\<lparr>ob_send_after := saturating_add now (retry_delay C e)\<rparr>)"

definition record_attempt :: "'s storage \<Rightarrow> outbox_codecs \<Rightarrow> crypto \<Rightarrow> 's \<Rightarrow> string \<Rightarrow> u64 \<Rightarrow> bool \<Rightarrow> (any_error + bool) \<times> 's" where
  "record_attempt S c C st i now accepted =
     tryE (outbox_load S c st) st (\<lambda>entries.
     let hit = (\<lambda>e. ob_id e = i \<and> is_pending e);
         remaining = map (\<lambda>e. if hit e then attempt_entry C now accepted e else e) entries
     in if \<not> list_ex hit entries then (Ok False, st)
        else tryS (outbox_save S c st remaining) (\<lambda>_ st. (Ok True, st)))"

definition readdress_entry :: "string \<Rightarrow> string \<Rightarrow> mail_item \<Rightarrow> outbox_entry \<Rightarrow> outbox_entry" where
  "readdress_entry new_id new_slot new_item e =
     e\<lparr>ob_id := new_id, ob_slot := new_slot, ob_item := Some new_item, ob_attempts := 0, ob_send_after := 0\<rparr>"

definition readdress_pending ::
    "'s storage \<Rightarrow> outbox_codecs \<Rightarrow> 's \<Rightarrow> string \<Rightarrow> string \<Rightarrow> string \<Rightarrow> mail_item \<Rightarrow> (any_error + bool) \<times> 's" where
  "readdress_pending S c st old_id new_id new_slot new_item =
     tryE (outbox_load S c st) st (\<lambda>entries.
     if new_id \<noteq> old_id \<and> list_ex (\<lambda>e. ob_id e = new_id) entries
     then (Err (AnyMsg ''readdressed delivery id already exists''), st)
     else let hit = (\<lambda>e. ob_id e = old_id \<and> is_pending e) in
       if List.find hit entries = None then (Ok False, st)
       else tryS (outbox_save S c st (upd_first hit (readdress_entry new_id new_slot new_item) entries)) (\<lambda>_ st. (Ok True, st)))"

section \<open>Facts\<close>

lemma outbox_keys [simp]: "entry_key i = entry_key j \<longleftrightarrow> i = j" "entry_key i \<noteq> OUTBOX_INDEX_KEY" "entry_key i \<noteq> OUTBOX_LEGACY_KEY"
  "OUTBOX_INDEX_KEY \<noteq> OUTBOX_LEGACY_KEY"
  by (simp_all add: entry_key_def OUTBOX_INDEX_KEY_def OUTBOX_LEGACY_KEY_def str_bytes_def)
    (auto dest: map_injective [OF _ inj_of_char_byte])

lemmas outbox_keys_sym [simp] = outbox_keys(2-4) [symmetric]

lemma retry_delay_value:
  "unat (retry_delay C e) = min (5 * 2 ^ min (unat (ob_attempts e) - 1) 10 + unat (payload_digest C (str_bytes (ob_id e)) ! 0) mod 5) 3600"
proof -
  define x where "x = min (saturating_sub (ob_attempts e) 1) (10 :: u32)"
  define j where "j = (ucast (payload_digest C (str_bytes (ob_id e)) ! 0) :: u64) mod RETRY_BASE_SECS"
  have x: "unat x = min (unat (ob_attempts e) - 1) 10"
    using unat_saturating_sub [of "ob_attempts e" 1] by (auto simp: x_def min_def word_le_nat_alt)
  have j: "unat j = unat (payload_digest C (str_bytes (ob_id e)) ! 0) mod 5"
    using unsigned_less [of "payload_digest C (str_bytes (ob_id e)) ! 0", where ?'a = nat]
    by (simp add: j_def RETRY_BASE_SECS_def unat_mod unsigned_ucast_eq take_bit_nat_eq_self)
  have "unat x \<in> set [0..<11]" using x by simp
  then have "unat x \<in> {0,1,2,3,4,5,6,7,8,9,10}" by (simp add: upt_rec eval_nat_numeral)
  then have mul: "unat (saturating_mul RETRY_BASE_SECS (push_bit (unat x) 1) :: u64) = 5 * 2 ^ unat x"
    by (auto simp: unat_saturating_mul RETRY_BASE_SECS_def push_bit_eq_mult)
  have "(2 :: nat) ^ unat x \<le> 2 ^ 10" using x by (intro power_increasing) auto
  then have "unat (saturating_add (saturating_mul RETRY_BASE_SECS (push_bit (unat x) 1)) j) = 5 * 2 ^ unat x + unat j"
    unfolding unat_saturating_add mul using j by simp
  then show ?thesis
    unfolding retry_delay_def Let_def x_def [symmetric] j_def [symmetric] using x j
    by (simp add: min_def RETRY_MAX_SECS_def word_le_nat_alt)
qed

lemma retry_delay_bounds: "5 \<le> unat (retry_delay C e)" "unat (retry_delay C e) \<le> 3600"
proof -
  have "(1 :: nat) \<le> 2 ^ n" for n by simp
  then show "5 \<le> unat (retry_delay C e)" "unat (retry_delay C e) \<le> 3600"
    unfolding retry_delay_value by (simp_all add: add_increasing2 trans_le_add1)
qed

lemma outbox_load_entries_ok:
  assumes "codec_ok (c_entry c)" "\<forall>e \<in> set es. io_get S st (entry_key (ob_id e)) = Ok (Some (wire_encode (c_entry c) e))"
  shows "outbox_load_entries S c st (map ob_id es) = Ok es"
  using assms by (induction es) (simp_all del: io_get_Ok)

lemma outbox_entry_puts_view:
  assumes "outbox_entry_puts S c st es = Ok ms" "distinct (map ob_id es)"
  shows "mutation_key ` set ms \<subseteq> (\<lambda>e. entry_key (ob_id e)) ` set es"
    "\<forall>e \<in> set es. apply_mutations ms (st_get S st) (entry_key (ob_id e)) = Ok (Some (wire_encode (c_entry c) e))"
proof -
  have *: "mutation_key ` set ms \<subseteq> (\<lambda>e. entry_key (ob_id e)) ` set es \<and>
    (\<forall>e \<in> set es. apply_mutations ms view (entry_key (ob_id e)) = Ok (Some (wire_encode (c_entry c) e)))"
    if "\<forall>e \<in> set es. view (entry_key (ob_id e)) = st_get S st (entry_key (ob_id e))" for view
    using assms that
  proof (induction es arbitrary: ms view)
    case (Cons e es)
    let ?k = "entry_key (ob_id e)" and ?b = "wire_encode (c_entry c) e"
    from Cons.prems obtain old ms1 where old: "st_get S st ?k = Ok old" and ms1: "outbox_entry_puts S c st es = Ok ms1"
      and ms: "ms = (if old \<noteq> Some ?b then Put ?k ?b # ms1 else ms1)"
      by (auto simp: Let_def result_elims)
    have ne: "\<forall>e' \<in> set es. entry_key (ob_id e') \<noteq> ?k" using Cons.prems(2) by (auto simp: image_iff)
    let ?view = "if old \<noteq> Some ?b then view(?k := Ok (Some ?b)) else view"
    have eq: "apply_mutations ms view = apply_mutations ms1 ?view" by (simp add: ms)
    have "\<forall>e' \<in> set es. ?view (entry_key (ob_id e')) = st_get S st (entry_key (ob_id e'))"
      using Cons.prems(3) ne by auto
    from Cons.IH [OF ms1 _ this] Cons.prems(2) have IH: "mutation_key ` set ms1 \<subseteq> (\<lambda>e. entry_key (ob_id e)) ` set es"
      "\<forall>e' \<in> set es. apply_mutations ms1 ?view (entry_key (ob_id e')) = Ok (Some (wire_encode (c_entry c) e'))" by auto
    have "?k \<notin> (\<lambda>e. entry_key (ob_id e)) ` set es" using Cons.prems(2) by (simp add: image_iff)
    then have "?k \<notin> mutation_key ` set ms1" by (rule contra_subsetD [OF IH(1)])
    then have "apply_mutations ms1 ?view ?k = ?view ?k" by (rule apply_mutations_other)
    also have "?view ?k = Ok (Some ?b)" using Cons.prems(3) old by simp
    finally show ?case using IH eq by (auto simp: ms)
  qed simp
  show "mutation_key ` set ms \<subseteq> (\<lambda>e. entry_key (ob_id e)) ` set es"
    "\<forall>e \<in> set es. apply_mutations ms (st_get S st) (entry_key (ob_id e)) = Ok (Some (wire_encode (c_entry c) e))"
    using * [of "st_get S st"] by simp_all
qed

definition outbox_codecs_ok :: "outbox_codecs \<Rightarrow> bool" where
  "outbox_codecs_ok c \<longleftrightarrow> codec_ok (c_entry c) \<and> codec_ok (c_ids c)"

context kv_store
begin

lemma outbox_save_spec:
  assumes "inv st" "outbox_codecs_ok c" "outbox_save S c st entries = (Ok (), st')"
  shows "inv st'" "distinct (map ob_id entries)" "outbox_load S c st' = Ok entries"
    "k \<notin> range entry_key \<Longrightarrow> k \<noteq> OUTBOX_INDEX_KEY \<Longrightarrow> k \<noteq> OUTBOX_LEGACY_KEY \<Longrightarrow> io_get S st' k = io_get S st k"
proof -
  let ?ids = "map ob_id entries" and ?index = "wire_encode (c_ids c) (map ob_id entries)"
  from assms(3) obtain puts old_ids old_index legacy where dist: "distinct ?ids"
    and puts: "outbox_entry_puts S c st entries = Ok puts" and oi: "st_get S st OUTBOX_INDEX_KEY = Ok old_index"
    and run: "st_apply_batch S st (outbox_save_mutations puts old_ids ?ids ?index old_index legacy) = (Ok (), st')"
    by (auto simp: outbox_save_def Let_def result_elims simp del: set_map split: if_splits)
  let ?dels = "map (\<lambda>i. Delete (entry_key i)) (filter (\<lambda>i. i \<notin> set ?ids) old_ids)"
  have get: "st_get S st' = apply_mutations (if legacy \<noteq> None then [Delete OUTBOX_LEGACY_KEY] else [])
      (apply_mutations (if old_index \<noteq> Some ?index then [Put OUTBOX_INDEX_KEY ?index] else [])
      (apply_mutations ?dels (apply_mutations puts (st_get S st))))"
    using batch_get [OF assms(1) run] by (simp add: outbox_save_mutations_def)
  have dels: "mutation_key ` set ?dels = entry_key ` {i \<in> set old_ids. i \<notin> set ?ids}" by (simp add: image_image)
  show "inv st'" using batch_inv [OF assms(1) run] .
  show "distinct ?ids" by (rule dist)
  note pv = outbox_entry_puts_view [OF puts dist]
  have entries: "st_get S st' (entry_key (ob_id e)) = Ok (Some (wire_encode (c_entry c) e))" if "e \<in> set entries" for e
  proof -
    have "entry_key (ob_id e) \<notin> mutation_key ` set ?dels" using that dels by auto
    with pv(2) that show ?thesis by (auto simp: get apply_mutations_other)
  qed
  have index: "st_get S st' OUTBOX_INDEX_KEY = Ok (Some ?index)"
  proof -
    have "OUTBOX_INDEX_KEY \<notin> mutation_key ` set ?dels" "OUTBOX_INDEX_KEY \<notin> mutation_key ` set puts" using dels pv(1) by auto
    then show ?thesis using oi by (auto simp: get apply_mutations_other)
  qed
  show "outbox_load S c st' = Ok entries"
    using assms(2) entries index outbox_load_entries_ok [of c entries S st'] by (simp add: outbox_load_def io_get_def outbox_codecs_ok_def)
  show "io_get S st' k = io_get S st k" if k: "k \<notin> range entry_key" "k \<noteq> OUTBOX_INDEX_KEY" "k \<noteq> OUTBOX_LEGACY_KEY"
  proof -
    have "k \<notin> mutation_key ` set ?dels" "k \<notin> mutation_key ` set puts" using k(1) dels pv(1) by auto
    then show ?thesis using k by (simp add: io_get_def get apply_mutations_other)
  qed
qed

end

section \<open>Life cycle of an entry\<close>

text \<open>A closed entry is final and has erased its payload; an outbox is well kept when every
  entry is either pending or closed and no delivery id occurs twice.\<close>

definition closed_entry :: "outbox_entry \<Rightarrow> bool" where
  "closed_entry e \<longleftrightarrow> ob_status e \<noteq> Pending \<and> ob_item e = None \<and> ob_pairwise_plaintext e = None"

definition outbox_kept :: "outbox_entry list \<Rightarrow> bool" where
  "outbox_kept es \<longleftrightarrow> distinct (map ob_id es) \<and> (\<forall>e \<in> set es. ob_status e = Pending \<or> closed_entry e)"

text \<open>One successful call of a mutating operation of the module; the outcomes of a flush pass are
  numbered by its attempts.\<close>

inductive outbox_step :: "'s storage \<Rightarrow> outbox_codecs \<Rightarrow> crypto \<Rightarrow> 's \<Rightarrow> 's \<Rightarrow> bool"
  for S :: "'s storage" and c :: outbox_codecs and C :: crypto where
  step_enqueue: "outbox_enqueue S c st i uid h dslot item now = (Ok (), st') \<Longrightarrow> outbox_step S c C st st'"
| step_enqueue_pairwise: "outbox_enqueue_pairwise S c st i uid h dslot item plaintext now = (Ok (), st') \<Longrightarrow> outbox_step S c C st st'"
| step_enqueue_at: "outbox_enqueue_at S c st i rcpt dslot item plaintext now after = (Ok (), st') \<Longrightarrow> outbox_step S c C st st'"
| step_delivered: "mark_delivered S c st i = (Ok b, st') \<Longrightarrow> outbox_step S c C st st'"
| step_cancelled: "mark_cancelled S c st i = (Ok b, st') \<Longrightarrow> outbox_step S c C st st'"
| step_failed: "mark_failed S c st i = (Ok b, st') \<Longrightarrow> outbox_step S c C st st'"
| step_due: "make_all_due S c st = (Ok (), st') \<Longrightarrow> outbox_step S c C st st'"
| step_attempt: "record_attempt S c C st i now accepted = (Ok b, st') \<Longrightarrow> outbox_step S c C st st'"
| step_readdress: "readdress_pending S c st i j dslot item = (Ok b, st') \<Longrightarrow> outbox_step S c C st st'"
| step_flush: "outbox_load S c st = Ok es \<Longrightarrow> flush_pass C es now deliver (d :: nat) 0 [] = ((n, es'), d') \<Longrightarrow>
    outbox_save S c st es' = (Ok (), st') \<Longrightarrow> outbox_step S c C st st'"

text \<open>How the entries may change in one step: closed entries stay in the outbox and stay closed.\<close>

definition outbox_evolves :: "outbox_entry list \<Rightarrow> outbox_entry list \<Rightarrow> bool" where
  "outbox_evolves es es' \<longleftrightarrow> (\<forall>e \<in> set es. closed_entry e \<longrightarrow> (\<exists>e' \<in> set es'. ob_id e' = ob_id e \<and> closed_entry e'))"

lemma outbox_evolves_refl [simp]: "outbox_evolves es es"
  by (auto simp: outbox_evolves_def)

lemma outbox_evolves_trans: "outbox_evolves es es1 \<Longrightarrow> outbox_evolves es1 es2 \<Longrightarrow> outbox_evolves es es2"
  unfolding outbox_evolves_def by metis

lemma outbox_evolves_map:
  "(\<And>e. e \<in> set es \<Longrightarrow> closed_entry e \<Longrightarrow> ob_id (f e) = ob_id e \<and> closed_entry (f e)) \<Longrightarrow> outbox_evolves es (map f es)"
  by (auto simp: outbox_evolves_def)

lemma closed_entry_cases:
  "\<not> (closed_entry e \<and> is_pending e)" "closed_entry (finish_entry Delivered e)" "closed_entry (finish_entry Failed e)"
  "s \<noteq> Pending \<Longrightarrow> closed_entry (apply_status s e)" "ob_id (apply_status s e) = ob_id e"
  "is_pending e \<Longrightarrow> ob_status (attempt_entry C now acc e) = Pending \<or> closed_entry (attempt_entry C now acc e)"
  "ob_id (attempt_entry C now acc e) = ob_id e"
  by (auto simp: closed_entry_def is_pending_def finish_entry_def apply_status_def attempt_entry_def Let_def)

definition retry_entry :: "crypto \<Rightarrow> u64 \<Rightarrow> outbox_entry \<Rightarrow> outbox_entry" where
  "retry_entry C now e = (let e = e\<lparr>ob_attempts := ob_attempts e + 1\<rparr>
     in e\<lparr>ob_send_after := saturating_add now (retry_delay C e)\<rparr>)"

definition flushed :: "crypto \<Rightarrow> u64 \<Rightarrow> outbox_entry \<Rightarrow> outbox_entry \<Rightarrow> bool" where
  "flushed C now e e' \<longleftrightarrow> (if is_due e now then e' \<in> {finish_entry Delivered e, finish_entry Failed e, retry_entry C now e} else e' = e)"

lemma flushed_intros:
  "\<not> is_due e now \<Longrightarrow> flushed C now e e"
  "is_due e now \<Longrightarrow> flushed C now e (finish_entry Delivered e) \<and> flushed C now e (finish_entry Failed e) \<and> flushed C now e (retry_entry C now e)"
  by (simp_all add: flushed_def)

lemma finished_status: "ob_status (finish_entry s e) = s" "ob_status (retry_entry C now e) = ob_status e"
  by (simp_all add: finish_entry_def retry_entry_def Let_def)

lemma flush_pass_spec:
  assumes "flush_pass C es now deliver d n acc = ((n', out), d')"
  shows "\<exists>es'. out = acc @ es' \<and> list_all2 (flushed C now) es es' \<and>
    n' = n + length (filter (\<lambda>(e, e'). is_due e now \<and> ob_status e' = Delivered) (zip es es'))"
  using assms
proof (induction es arbitrary: d n acc)
  case (Cons e es)
  show ?case
  proof (cases "is_due e now")
    case False
    with Cons.prems have "flush_pass C es now deliver d n (acc @ [e]) = ((n', out), d')" by simp
    from Cons.IH [OF this] obtain es' where "out = acc @ e # es'" "list_all2 (flushed C now) es es'"
      "n' = n + length (filter (\<lambda>(e, e'). is_due e now \<and> ob_status e' = Delivered) (zip es es'))" by auto
    with False show ?thesis by (intro exI [of _ "e # es'"]) (simp add: flushed_intros)
  next
    case True
    have pend: "ob_status e = Pending" using True by (simp add: is_due_def is_pending_def)
    obtain a d1 where a: "deliver d e = (a, d1)" by fastforce
    let ?x = "case a of AttemptDelivered \<Rightarrow> finish_entry Delivered e | AttemptDrop \<Rightarrow> finish_entry Failed e | AttemptRetry \<Rightarrow> retry_entry C now e"
    from Cons.prems True a have "flush_pass C es now deliver d1 (if a = AttemptDelivered then Suc n else n) (acc @ [?x]) = ((n', out), d')"
      by (cases a) (simp_all add: retry_entry_def Let_def)
    from Cons.IH [OF this] obtain es' where "out = acc @ ?x # es'" "list_all2 (flushed C now) es es'"
      "n' = (if a = AttemptDelivered then Suc n else n) + length (filter (\<lambda>(e, e'). is_due e now \<and> ob_status e' = Delivered) (zip es es'))" by auto
    with True pend show ?thesis
      by (intro exI [of _ "?x # es'"]) (cases a; simp add: flushed_intros finished_status)
  qed
qed simp

lemma flushed_entry:
  assumes "flushed C now e e'"
  shows "ob_id e' = ob_id e" "closed_entry e \<Longrightarrow> closed_entry e'" "ob_status e = Pending \<or> closed_entry e \<Longrightarrow> ob_status e' = Pending \<or> closed_entry e'"
  using assms by (auto simp: flushed_def closed_entry_def finish_entry_def retry_entry_def is_due_def is_pending_def Let_def split: if_splits)

lemma flushed_list:
  assumes "list_all2 (flushed C now) es es'"
  shows "map ob_id es' = map ob_id es" "outbox_evolves es es'"
    "\<forall>e \<in> set es. ob_status e = Pending \<or> closed_entry e \<Longrightarrow> \<forall>e \<in> set es'. ob_status e = Pending \<or> closed_entry e"
proof -
  show "map ob_id es' = map ob_id es"
    using assms by (induction rule: list_all2_induct) (simp_all add: flushed_entry)
  show "outbox_evolves es es'"
    using assms by (induction rule: list_all2_induct) (auto simp: outbox_evolves_def flushed_entry)
  show "\<forall>e \<in> set es. ob_status e = Pending \<or> closed_entry e \<Longrightarrow> \<forall>e \<in> set es'. ob_status e = Pending \<or> closed_entry e"
    using assms by (induction rule: list_all2_induct) (use flushed_entry(3) in force)+
qed

context kv_store
begin

text \<open>A save of entries derived from the loaded ones keeps the outbox.\<close>

lemma outbox_resave:
  assumes "inv st" "outbox_codecs_ok c" "outbox_save S c st es' = (Ok (), st')"
    and "\<forall>e \<in> set es'. ob_status e = Pending \<or> closed_entry e" "outbox_evolves es es'"
  shows "inv st' \<and> (\<exists>es'. outbox_load S c st' = Ok es' \<and> outbox_kept es' \<and> outbox_evolves es es')"
  using outbox_save_spec [OF assms(1-3)] assms(4,5) by (auto simp: outbox_kept_def)

lemma enqueue_at_kept:
  assumes "inv st" "outbox_codecs_ok c" "outbox_load S c st = Ok es" "outbox_kept es"
    and "outbox_enqueue_at S c st i rcpt dslot item plaintext now after = (Ok (), st')"
  shows "inv st' \<and> (\<exists>es'. outbox_load S c st' = Ok es' \<and> outbox_kept es' \<and> outbox_evolves es es')"
proof (cases "List.find (\<lambda>e. ob_id e = i) es")
  case None
  then obtain e where run: "outbox_save S c st (es @ [e]) = (Ok (), st')" and e: "ob_status e = Pending"
    using assms(3,5) by (cases rcpt) (auto simp: outbox_enqueue_at_def)
  show ?thesis
    by (rule outbox_resave [OF assms(1,2) run]) (use assms(4) e in \<open>auto simp: outbox_kept_def outbox_evolves_def\<close>)
next
  case (Some e)
  with assms have "st' = st" by (cases rcpt) (auto simp: outbox_enqueue_at_def split: if_splits)
  with assms show ?thesis by auto
qed

lemma set_status_kept:
  assumes "inv st" "outbox_codecs_ok c" "outbox_load S c st = Ok es" "outbox_kept es"
    and "outbox_set_status S c st i s = (Ok b, st')" "s \<noteq> Pending"
  shows "inv st' \<and> (\<exists>es'. outbox_load S c st' = Ok es' \<and> outbox_kept es' \<and> outbox_evolves es es')"
proof (cases "list_ex (\<lambda>e. ob_id e = i) es")
  case True
  let ?f = "\<lambda>e. if ob_id e = i then apply_status s e else e"
  from True assms(3,5) have run: "outbox_save S c st (map ?f es) = (Ok (), st')"
    by (auto simp: outbox_set_status_def Let_def result_elims)
  show ?thesis
    by (rule outbox_resave [OF assms(1,2) run], use assms(4,6) in \<open>force simp: outbox_kept_def closed_entry_cases\<close>)
      (rule outbox_evolves_map, simp add: closed_entry_cases assms(6))
next
  case False
  with assms show ?thesis by (auto simp: outbox_set_status_def Let_def)
qed

lemma record_attempt_kept:
  assumes "inv st" "outbox_codecs_ok c" "outbox_load S c st = Ok es" "outbox_kept es"
    and "record_attempt S c C st i now acc = (Ok b, st')"
  shows "inv st' \<and> (\<exists>es'. outbox_load S c st' = Ok es' \<and> outbox_kept es' \<and> outbox_evolves es es')"
proof (cases "list_ex (\<lambda>e. ob_id e = i \<and> is_pending e) es")
  case True
  let ?f = "\<lambda>e. if ob_id e = i \<and> is_pending e then attempt_entry C now acc e else e"
  from True assms(3,5) have run: "outbox_save S c st (map ?f es) = (Ok (), st')"
    by (auto simp: record_attempt_def Let_def result_elims)
  show ?thesis
    by (rule outbox_resave [OF assms(1,2) run], use assms(4) closed_entry_cases(6) in \<open>fastforce simp: outbox_kept_def\<close>)
      (rule outbox_evolves_map, use closed_entry_cases(1) in auto)
next
  case False
  with assms show ?thesis by (auto simp: record_attempt_def Let_def)
qed

lemma readdress_kept:
  assumes "inv st" "outbox_codecs_ok c" "outbox_load S c st = Ok es" "outbox_kept es"
    and "readdress_pending S c st i j dslot item = (Ok b, st')"
  shows "inv st' \<and> (\<exists>es'. outbox_load S c st' = Ok es' \<and> outbox_kept es' \<and> outbox_evolves es es')"
proof (cases "List.find (\<lambda>e. ob_id e = i \<and> is_pending e) es")
  case None
  with assms show ?thesis by (auto simp: readdress_pending_def Let_def split: if_splits)
next
  case (Some e)
  let ?p = "\<lambda>e. ob_id e = i \<and> is_pending e" and ?f = "readdress_entry j dslot item"
  from Some assms(3,5) have run: "outbox_save S c st (upd_first ?p ?f es) = (Ok (), st')"
    by (auto simp: readdress_pending_def Let_def result_elims split: if_splits)
  have status: "\<forall>e \<in> set (upd_first ?p ?f es). ob_status e = Pending \<or> closed_entry e"
    using assms(4) by (auto dest!: set_upd_first simp: outbox_kept_def readdress_entry_def is_pending_def)
  have "e \<in> set (upd_first ?p ?f es)" if "e \<in> set es" "closed_entry e" for e
    using that by (induction es) (auto simp: closed_entry_def is_pending_def)
  then have "outbox_evolves es (upd_first ?p ?f es)" by (auto simp: outbox_evolves_def)
  then show ?thesis by (rule outbox_resave [OF assms(1,2) run status])
qed

lemma outbox_step_kept:
  assumes "outbox_step S c C st st'" "inv st" "outbox_codecs_ok c" "outbox_load S c st = Ok es" "outbox_kept es"
  shows "inv st' \<and> (\<exists>es'. outbox_load S c st' = Ok es' \<and> outbox_kept es' \<and> outbox_evolves es es')"
  using assms(1)
proof cases
  case (step_due)
  let ?f = "\<lambda>e. if is_pending e then e\<lparr>ob_send_after := 0\<rparr> else e"
  from step_due assms(4) have run: "outbox_save S c st (map ?f es) = (Ok (), st')" by (simp add: make_all_due_def)
  show ?thesis
    by (rule outbox_resave [OF assms(2,3) run], use assms(5) in \<open>fastforce simp: outbox_kept_def is_pending_def\<close>)
      (rule outbox_evolves_map, use closed_entry_cases(1) in auto)
next
  case (step_flush es1 now deliver d n es' d')
  from step_flush(1) assms(4) have "es1 = es" by simp
  with flush_pass_spec [OF step_flush(2)] have "list_all2 (flushed C now) es es'" by auto
  note f = flushed_list [OF this]
  show ?thesis
    by (rule outbox_resave [OF assms(2,3) step_flush(3) f(3) f(2)]) (use assms(5) in \<open>simp add: outbox_kept_def\<close>)
next
  case (step_enqueue i uid h dslot item now)
  then have "outbox_enqueue_at S c st i (uid, h) dslot item None now 0 = (Ok (), st')"
    by (simp add: outbox_enqueue_def outbox_enqueue_pairwise_def)
  then show ?thesis by (rule enqueue_at_kept [OF assms(2-5)])
next
  case (step_enqueue_pairwise i uid h dslot item plaintext now)
  then have "outbox_enqueue_at S c st i (uid, h) dslot item plaintext now 0 = (Ok (), st')"
    by (auto simp: outbox_enqueue_pairwise_def split: if_splits)
  then show ?thesis by (rule enqueue_at_kept [OF assms(2-5)])
next
  case step_enqueue_at
  then show ?thesis by (rule enqueue_at_kept [OF assms(2-5)])
next
  case step_attempt
  then show ?thesis by (rule record_attempt_kept [OF assms(2-5)])
next
  case step_readdress
  then show ?thesis by (rule readdress_kept [OF assms(2-5)])
qed (simp_all add: set_status_kept [OF assms(2-5)] mark_delivered_def mark_cancelled_def mark_failed_def)

lemma outbox_steps_kept:
  assumes "(outbox_step S c C)\<^sup>*\<^sup>* st st'" "inv st" "outbox_codecs_ok c" "outbox_load S c st = Ok es" "outbox_kept es"
  shows "inv st' \<and> (\<exists>es'. outbox_load S c st' = Ok es' \<and> outbox_kept es' \<and> outbox_evolves es es')"
  using assms(1)
proof (induction rule: rtranclp_induct)
  case base
  then show ?case using assms by auto
next
  case (step st1 st2)
  then obtain es1 where es1: "inv st1" "outbox_load S c st1 = Ok es1" "outbox_kept es1" "outbox_evolves es es1" by auto
  with outbox_step_kept [OF step(2) _ assms(3)] show ?case by (meson outbox_evolves_trans)
qed

end

section \<open>Properties\<close>

text \<open>
  The outbox reads back exactly as saved.  A successful save is followed by a load that
  returns the same entries in the same order, delivery ids are then unique, and no key outside
  the outbox's own key space changes.
\<close>

theorem outbox_save_load:
  assumes "fs_inv C E M st" "outbox_codecs_ok c" "outbox_save (file_ops C E M) c st entries = (Ok (), st')"
  shows "outbox_load (file_ops C E M) c st' = Ok entries \<and> distinct (map ob_id entries) \<and> fs_inv C E M st'
    \<and> (k \<notin> range entry_key \<and> k \<noteq> OUTBOX_INDEX_KEY \<and> k \<noteq> OUTBOX_LEGACY_KEY \<longrightarrow>
         io_get (file_ops C E M) st' k = io_get (file_ops C E M) st k)"
  using fs.outbox_save_spec [OF assms] by simp

definition s_outbox_status :: "outbox_status scodec" where
  "s_outbox_status = s_iso (\<lambda>s. case s of Pending \<Rightarrow> 0 | Delivered \<Rightarrow> 1 | Failed \<Rightarrow> 2 | Cancelled \<Rightarrow> 3)
     (\<lambda>n. if n = 0 then Pending else if n = 1 then Delivered else if n = 2 then Failed else Cancelled) s_nat"

definition s_outbox_entry :: "outbox_entry scodec" where
  "s_outbox_entry = s_iso (\<lambda>e. (ob_id e, ob_recipient_user_id e, ob_recipient e, ob_slot e, ob_item e,
       ob_created_at e, ob_attempts e, ob_send_after e, ob_status e, ob_pairwise_plaintext e))
     (\<lambda>(i, u, r, l, m, t, a, q, s, p). \<lparr>ob_id = i, ob_recipient_user_id = u, ob_recipient = r, ob_slot = l, ob_item = m,
       ob_created_at = t, ob_attempts = a, ob_send_after = q, ob_status = s, ob_pairwise_plaintext = p\<rparr>)
     (s_pair s_string (s_pair s_string (s_pair s_string (s_pair s_string (s_pair (s_option s_mail_item)
       (s_pair s_word (s_pair s_word (s_pair s_word (s_pair s_outbox_status (s_option s_bytes))))))))))"

definition sample_outbox_codecs :: outbox_codecs where
  "sample_outbox_codecs = \<lparr>c_entry = sample_codec s_outbox_entry, c_ids = sample_codec (s_list s_string),
     c_entries = sample_codec (s_list s_outbox_entry), c_legacy_entries = \<lparr>to_allocvec = (\<lambda>_. []), from_bytes = (\<lambda>_. None)\<rparr>\<rparr>"

lemma s_outbox_status_ok [sample_ok]: "scodec_ok s_outbox_status"
  unfolding s_outbox_status_def by (rule s_iso_ok) (simp_all add: sample_ok split: outbox_status.split)

lemma s_outbox_entry_ok [sample_ok]: "scodec_ok s_outbox_entry"
  unfolding s_outbox_entry_def by (rule s_iso_ok) (simp_all add: sample_ok)

lemma sample_outbox_codecs_ok [sample_ok]: "outbox_codecs_ok sample_outbox_codecs"
  by (simp add: outbox_codecs_ok_def sample_outbox_codecs_def sample_ok)

definition sample_entry :: outbox_entry where
  "sample_entry = \<lparr>ob_id = ''d1'', ob_recipient_user_id = ''u'', ob_recipient = ''bob'', ob_slot = ''s'', ob_item = Some sample_item,
     ob_created_at = 7, ob_attempts = 0, ob_send_after = 0, ob_status = Pending, ob_pairwise_plaintext = None\<rparr>"

lemma sample_outbox_empty: "outbox_load sample_ops sample_outbox_codecs sample_store = Ok []"
  by (simp add: outbox_load_def sample_store_ops)

lemma sample_outbox_save: "\<exists>st'. outbox_save sample_ops sample_outbox_codecs sample_store [sample_entry] = (Ok (), st')"
  using sample_store_ops(2) by (simp add: outbox_save_def sample_outbox_empty sample_store_ops(3) Let_def del: io_batch_Ok)

theorem outbox_save_load_witness:
  "\<exists>st'. outbox_save sample_ops sample_outbox_codecs sample_store [sample_entry] = (Ok (), st')
     \<and> outbox_load sample_ops sample_outbox_codecs st' = Ok [sample_entry]"
proof -
  obtain st' where run: "outbox_save sample_ops sample_outbox_codecs sample_store [sample_entry] = (Ok (), st')"
    using sample_outbox_save by blast
  from outbox_save_load [OF sample_fs_inv sample_outbox_codecs_ok run [unfolded sample_ops_def]] run show ?thesis
    by (auto simp: sample_ops_def)
qed

text \<open>
  C27: the retry schedule.  The delay is five seconds times two to the number of earlier
  attempts, at most ten doublings, plus a jitter below five seconds that depends on the
  delivery id only, and never more than an hour: the 64-bit computation never saturates on the
  way.  After a failed attempt the entry is due exactly that long after the attempt, or at the
  end of time when the clock would overflow.
\<close>

theorem retry_schedule:
  "unat (retry_delay C e) =
     min (5 * 2 ^ min (unat (ob_attempts e) - 1) 10 + unat (payload_digest C (str_bytes (ob_id e)) ! 0) mod 5) 3600
   \<and> 5 \<le> unat (retry_delay C e) \<and> unat (retry_delay C e) \<le> 3600
   \<and> (let e' = attempt_entry C now False e in
       unat (ob_attempts e') = min (Suc (unat (ob_attempts e))) (2 ^ 32 - 1)
       \<and> unat (ob_send_after e') = min (unat now + unat (retry_delay C e')) (2 ^ 64 - 1))"
proof -
  have "retry_delay C (e\<lparr>ob_send_after := x\<rparr>) = retry_delay C e" for x and e :: outbox_entry
    by (simp add: retry_delay_def)
  then have "let e' = attempt_entry C now False e in
       unat (ob_attempts e') = min (Suc (unat (ob_attempts e))) (2 ^ 32 - 1)
       \<and> unat (ob_send_after e') = min (unat now + unat (retry_delay C e')) (2 ^ 64 - 1)"
    by (simp add: attempt_entry_def Let_def unat_saturating_add)
  with retry_delay_value retry_delay_bounds show ?thesis by blast
qed

text \<open>
  C28: life cycle of queued deliveries.  Whatever sequence of operations runs on an outbox in
  which every final entry has erased its sealed item and plaintext, the outbox still loads, its
  delivery ids are unique, every final entry has erased its payload, and a delivery that was
  final stays in the outbox and stays final: it is never sent again.
\<close>

theorem outbox_lifecycle:
  assumes "fs_inv C E M st" "outbox_codecs_ok c" "outbox_load (file_ops C E M) c st = Ok es" "outbox_kept es"
    and "(outbox_step (file_ops C E M) c C)\<^sup>*\<^sup>* st st'"
  shows "\<exists>es'. outbox_load (file_ops C E M) c st' = Ok es' \<and> outbox_kept es' \<and> outbox_evolves es es'"
  using fs.outbox_steps_kept [OF assms(5,1-4)] by blast

theorem outbox_lifecycle_witness:
  "\<exists>st1. outbox_enqueue sample_ops sample_outbox_codecs sample_store ''d1'' ''u'' ''bob'' ''s'' sample_item 7 = (Ok (), st1)
     \<and> (\<exists>es'. outbox_load sample_ops sample_outbox_codecs st1 = Ok es' \<and> outbox_kept es' \<and> outbox_evolves [] es')"
proof -
  obtain st1 where run: "outbox_enqueue sample_ops sample_outbox_codecs sample_store ''d1'' ''u'' ''bob'' ''s'' sample_item 7 = (Ok (), st1)"
    using sample_outbox_save
    by (auto simp: outbox_enqueue_def outbox_enqueue_pairwise_def outbox_enqueue_at_def sample_outbox_empty sample_entry_def)
  have "(outbox_step sample_ops sample_outbox_codecs sample_crypto)\<^sup>*\<^sup>* sample_store st1"
    using step_enqueue [OF run] by (rule r_into_rtranclp)
  moreover have "outbox_kept []" by (simp add: outbox_kept_def)
  ultimately show ?thesis
    using outbox_lifecycle [OF sample_fs_inv sample_outbox_codecs_ok sample_outbox_empty [unfolded sample_ops_def]] run
    by (auto simp: sample_ops_def)
qed

text \<open>
  One flush pass.  Entries keep their order and ids; an entry that is not due is untouched;
  a due entry is closed as delivered or failed, or rescheduled with one more attempt; the count
  returned is the number of entries delivered in the pass.
\<close>

theorem flush_pass_correct:
  "case flush_pass C es now deliver d 0 [] of ((n, es'), d') \<Rightarrow>
     list_all2 (flushed C now) es es' \<and> map ob_id es' = map ob_id es
     \<and> n = length (filter (\<lambda>(e, e'). is_due e now \<and> ob_status e' = Delivered) (zip es es'))"
proof -
  obtain n es' d' where run: "flush_pass C es now deliver d 0 [] = ((n, es'), d')" by (metis surj_pair)
  from flush_pass_spec [OF run] flushed_list(1) show ?thesis by (auto simp: run)
qed

end
