(* ===== verification/Peerbook.thy ===== *)
theory Peerbook
  imports Antirollback SampleCodecs RustStr
begin

text \<open>
  The local book of signed records (\<open>mycellium-engine/src/peerbook.rs\<close>): admission of a record
  behind verification and the anti-rollback pins, unambiguous lookup, discovery export and
  import, and the hexadecimal text form.  A panic of the text decoder is the value \<open>None\<close>.
\<close>

definition PEERBOOK_KEY :: bytes where
  "PEERBOOK_KEY = str_bytes ''peerbook''"

record peer_entry =
  pe_user_id :: string
  pe_handle :: string
  pe_record :: signed_record

record peerbook_codecs =
  c_book :: "peer_entry list codec"
  c_signed_record :: "signed_record codec"
  c_book_pins :: pin_codecs
  c_book_claims :: claim_codecs

definition peerbook_load :: "'s storage \<Rightarrow> peerbook_codecs \<Rightarrow> 's \<Rightarrow> any_error + peer_entry list" where
  "peerbook_load S c st = tryR (io_get S st PEERBOOK_KEY) (\<lambda>bs. case bs of
      None \<Rightarrow> Ok []
    | Some b \<Rightarrow> map_err (\<lambda>_. AnyMsg ''local signed-record book is corrupt'') (wire_decode (c_book c) b))"

definition peerbook_save :: "'s storage \<Rightarrow> peerbook_codecs \<Rightarrow> 's \<Rightarrow> peer_entry list \<Rightarrow> (any_error + unit) \<times> 's" where
  "peerbook_save S c st records = io_put S st PEERBOOK_KEY (wire_encode (c_book c) records)"

definition peerbook_get :: "'s storage \<Rightarrow> peerbook_codecs \<Rightarrow> 's \<Rightarrow> handle \<Rightarrow> any_error + signed_record option" where
  "peerbook_get S c st h = tryR (peerbook_load S c st) (\<lambda>records.
     case filter (\<lambda>e. pe_handle e = h \<and> rec_handle (s_record (pe_record e)) = h) records of
       [] \<Rightarrow> Ok None
     | [e] \<Rightarrow> Ok (Some (pe_record e))
     | _ \<Rightarrow> Ok None)"

definition peerbook_get_by_user_id :: "'s storage \<Rightarrow> peerbook_codecs \<Rightarrow> 's \<Rightarrow> user_id \<Rightarrow> any_error + signed_record option" where
  "peerbook_get_by_user_id S c st uid = tryR (peerbook_load S c st) (\<lambda>records.
     Ok (map_option pe_record (List.find (\<lambda>e. pe_user_id e = uid) records)))"

definition verify_handle :: "crypto \<Rightarrow> handle \<Rightarrow> signed_record \<Rightarrow> any_error + unit" where
  "verify_handle C h sr =
     (if rec_user_id (s_record sr) \<noteq> user_id_from_wallet C (rec_wallet (s_record sr)) \<or> rec_handle (s_record sr) \<noteq> h
      then Err (AnyMsg (''record does not belong to '' @ quoted h)) else Ok ())"

definition book_insert :: "handle \<Rightarrow> signed_record \<Rightarrow> peer_entry list \<Rightarrow> peer_entry list" where
  "book_insert h sr records =
     (if List.find (\<lambda>e. pe_user_id e = rec_user_id (s_record sr)) records \<noteq> None
      then upd_first (\<lambda>e. pe_user_id e = rec_user_id (s_record sr)) (\<lambda>e. e\<lparr>pe_handle := h, pe_record := sr\<rparr>) records
      else records @ [\<lparr>pe_user_id = rec_user_id (s_record sr), pe_handle = h, pe_record = sr\<rparr>])"

definition peerbook_put ::
    "'s storage \<Rightarrow> crypto \<Rightarrow> peerbook_codecs \<Rightarrow> 's \<Rightarrow> handle \<Rightarrow> signed_record \<Rightarrow> (any_error + unit) \<times> 's" where
  "peerbook_put S C c st h sr =
     tryE (verify_handle C h sr) st (\<lambda>_.
     tryE (map_err (\<lambda>_. AnyMsg ''record failed verification'') (signed_record_verify C (c_book_claims c) sr)) st (\<lambda>_.
     if address (device_reticulum (rec_device (s_record sr))) = replicate 16 0
       then (Err (AnyMsg (''record for '' @ quoted h @ '' has an empty Reticulum destination'')), st)
     else tryS (map_errS AnyIo (check_and_pin S C (c_book_pins c) st (rec_user_id (s_record sr)) sr)) (\<lambda>fresh st.
       if \<not> fresh then (Err (AnyMsg (''stale record for '' @ quoted h)), st)
       else tryE (peerbook_load S c st) st (\<lambda>records. peerbook_save S c st (book_insert h sr records)))))"

definition peerbook_remove :: "'s storage \<Rightarrow> peerbook_codecs \<Rightarrow> 's \<Rightarrow> handle \<Rightarrow> (any_error + bool) \<times> 's" where
  "peerbook_remove S c st h = tryE (peerbook_load S c st) st (\<lambda>records.
     if length (filter (\<lambda>e. pe_handle e = h) records) \<noteq> 1 then (Ok False, st)
     else let kept = filter (\<lambda>e. pe_handle e \<noteq> h \<or> rec_handle (s_record (pe_record e)) \<noteq> h) records
          in tryS (peerbook_save S c st kept) (\<lambda>_ st. (Ok (length records \<noteq> length kept), st)))"

section \<open>Discovery\<close>

definition discovery_of :: "peer_entry \<Rightarrow> discovery_record" where
  "discovery_of e = \<lparr>disc_user_id = pe_user_id e, disc_handle = pe_handle e, disc_record = pe_record e\<rparr>"

definition peerbook_pack :: "'s storage \<Rightarrow> peerbook_codecs \<Rightarrow> 's \<Rightarrow> string list \<Rightarrow> any_error + discovery_record list" where
  "peerbook_pack S c st want = tryR (peerbook_load S c st) (\<lambda>records.
     if want = [] then Ok (map discovery_of records)
     else Ok (map discovery_of (filter (\<lambda>e. pe_handle e \<in> set want) records)))"

record import_report =
  imported :: nat
  skipped :: "(string \<times> string) list"

fun import_loop ::
    "'s storage \<Rightarrow> crypto \<Rightarrow> peerbook_codecs \<Rightarrow> 's \<Rightarrow> discovery_record list \<Rightarrow> import_report \<Rightarrow> import_report \<times> 's" where
  "import_loop S C c st [] report = (report, st)"
| "import_loop S C c st (e # es) report =
     (if disc_user_id e \<noteq> rec_user_id (s_record (disc_record e))
      then import_loop S C c st es (report\<lparr>skipped := skipped report @ [(disc_handle e, ''record user id mismatch'')]\<rparr>)
      else case handle_new (disc_handle e) of
        Err _ \<Rightarrow> import_loop S C c st es (report\<lparr>skipped := skipped report @ [(disc_handle e, ''invalid handle'')]\<rparr>)
      | Ok h \<Rightarrow> (case peerbook_put S C c st h (disc_record e) of
            (Ok _, st) \<Rightarrow> import_loop S C c st es (report\<lparr>imported := Suc (imported report)\<rparr>)
          | (Err err, st) \<Rightarrow> import_loop S C c st es (report\<lparr>skipped := skipped report @ [(h, any_display err)]\<rparr>)))"

definition import_records ::
    "'s storage \<Rightarrow> crypto \<Rightarrow> peerbook_codecs \<Rightarrow> 's \<Rightarrow> discovery_record list \<Rightarrow> import_report \<times> 's" where
  "import_records S C c st records = import_loop S C c st records \<lparr>imported = 0, skipped = []\<rparr>"

section \<open>Building records\<close>

definition peerbook_build_record ::
    "crypto \<Rightarrow> claim_codecs \<Rightarrow> platform \<Rightarrow> identity \<Rightarrow> handle \<Rightarrow> string \<Rightarrow> signed_record \<times> platform" where
  "peerbook_build_record C K p identity h name =
     (let (device_seq, p) = now_unix_secs p;
          (record_seq, p) = now_unix_secs p;
          r = \<lparr>rec_user_id = user_id_from_wallet C (wallet_public C identity), rec_handle = h, rec_name = name,
               rec_wallet = wallet_public C identity, rec_device = this_device C K identity device_seq, rec_seq = record_seq\<rparr>
      in (signed_record_sign C K r identity, p))"

definition with_device ::
    "crypto \<Rightarrow> claim_codecs \<Rightarrow> platform \<Rightarrow> identity \<Rightarrow> handle \<Rightarrow> string \<Rightarrow> device \<Rightarrow> u64 \<Rightarrow> signed_record \<times> platform" where
  "with_device C K p identity h name d prev_seq =
     (let (now, p) = now_unix_secs p;
          r = \<lparr>rec_user_id = user_id_from_wallet C (wallet_public C identity), rec_handle = h, rec_name = name,
               rec_wallet = wallet_public C identity, rec_device = d, rec_seq = max (saturating_add prev_seq 1) now\<rparr>
      in (signed_record_sign C K r identity, p))"

section \<open>Text form\<close>

definition to_digit16 :: "char \<Rightarrow> nat option" where
  "to_digit16 ch = (let n = of_char ch :: nat in
     if 48 \<le> n \<and> n \<le> 57 then Some (n - 48)
     else if 97 \<le> n \<and> n \<le> 102 then Some (n - 87)
     else if 65 \<le> n \<and> n \<le> 70 then Some (n - 55) else None)"

text \<open>\<open>u8::from_str_radix(s, 16)\<close> on at most two digits, where it cannot overflow.\<close>

fun radix_digits :: "string \<Rightarrow> nat \<Rightarrow> nat option" where
  "radix_digits [] acc = Some acc"
| "radix_digits (ch # s) acc = (case to_digit16 ch of None \<Rightarrow> None | Some d \<Rightarrow> radix_digits s (16 * acc + d))"

definition u8_from_str_radix16 :: "string \<Rightarrow> byte option" where
  "u8_from_str_radix16 s = (case s of
      [] \<Rightarrow> None
    | [ch] \<Rightarrow> if ch = CHR ''+'' \<or> ch = CHR ''-'' then None else map_option of_nat (radix_digits s 0)
    | ch # rest \<Rightarrow> map_option of_nat (radix_digits (if ch = CHR ''+'' then rest else s) 0))"

definition continuation :: "char \<Rightarrow> bool" where
  "continuation ch \<longleftrightarrow> (of_char ch :: nat) div 64 = 2"

text \<open>The pairs of an even-length string in order; slicing inside a character panics.\<close>

fun from_hex_pairs :: "string \<Rightarrow> (any_error + bytes) option" where
  "from_hex_pairs (a # b # rest) =
     (if continuation a \<or> (rest \<noteq> [] \<and> continuation (hd rest)) then None
      else case u8_from_str_radix16 [a, b] of
        None \<Rightarrow> Some (Err (AnyMsg ''invalid hex''))
      | Some x \<Rightarrow> (case from_hex_pairs rest of
            None \<Rightarrow> None
          | Some r \<Rightarrow> Some (tryR r (\<lambda>xs. Ok (x # xs)))))"
| "from_hex_pairs _ = Some (Ok [])"

definition from_hex :: "string \<Rightarrow> (any_error + bytes) option" where
  "from_hex s = (if odd (length s) then Some (Err (AnyMsg ''hex string has an odd length'')) else from_hex_pairs s)"

definition record_encode :: "peerbook_codecs \<Rightarrow> signed_record \<Rightarrow> string" where
  "record_encode c sr = wireops_hex (wire_encode (c_signed_record c) sr)"

definition record_decode :: "crypto \<Rightarrow> peerbook_codecs \<Rightarrow> string \<Rightarrow> (any_error + signed_record) option" where
  "record_decode C c s = map_option (\<lambda>bytes.
     tryR bytes (\<lambda>b.
     tryR (map_err (\<lambda>_. AnyMsg ''bad record'') (wire_decode (c_signed_record c) b)) (\<lambda>r.
     tryR (map_err (\<lambda>_. AnyMsg ''record failed verification'') (signed_record_verify C (c_book_claims c) r)) (\<lambda>_. Ok r))))
     (from_hex (str_trim s))"

section \<open>Facts\<close>

text \<open>A well-kept book: one entry per user, filed under the handle and user id of its own record,
  and every record verified against its wallet.\<close>

definition book_kept :: "crypto \<Rightarrow> claim_codecs \<Rightarrow> peer_entry list \<Rightarrow> bool" where
  "book_kept C K records \<longleftrightarrow> distinct (map pe_user_id records) \<and>
     (\<forall>e \<in> set records. let r = s_record (pe_record e) in
        pe_user_id e = rec_user_id r \<and> pe_handle e = rec_handle r \<and> rec_user_id r = user_id_from_wallet C (rec_wallet r)
        \<and> signed_record_verify C K (pe_record e) = Ok ())"

definition peerbook_kept :: "'s storage \<Rightarrow> crypto \<Rightarrow> peerbook_codecs \<Rightarrow> 's \<Rightarrow> bool" where
  "peerbook_kept S C c st \<longleftrightarrow> (\<exists>records. peerbook_load S c st = Ok records \<and> book_kept C (c_book_claims c) records)"

lemma book_insert_user_ids:
  "map pe_user_id (book_insert h sr records) =
     (if rec_user_id (s_record sr) \<in> pe_user_id ` set records then map pe_user_id records
      else map pe_user_id records @ [rec_user_id (s_record sr)])"
  by (force simp: book_insert_def map_upd_first_same find_None_all)

lemma book_insert_kept:
  assumes "book_kept C K records" "verify_handle C h sr = Ok ()" "signed_record_verify C K sr = Ok ()"
  shows "book_kept C K (book_insert h sr records)"
proof -
  have v: "rec_user_id (s_record sr) = user_id_from_wallet C (rec_wallet (s_record sr))" "rec_handle (s_record sr) = h"
    using assms(2) by (auto simp: verify_handle_def split: if_splits)
  have "distinct (map pe_user_id (book_insert h sr records))"
    using assms(1) by (auto simp: book_insert_user_ids book_kept_def)
  moreover have "e \<in> set records \<or> pe_user_id e = rec_user_id (s_record sr) \<and> pe_handle e = h \<and> pe_record e = sr"
    if "e \<in> set (book_insert h sr records)" for e
    using that by (auto simp: book_insert_def dest!: set_upd_first split: if_splits)
  ultimately show ?thesis using assms(1,3) v unfolding book_kept_def Let_def by metis
qed

lemma book_insert_find:
  "map_option pe_record (List.find (\<lambda>e. pe_user_id e = uid) (book_insert h sr records)) =
     (if uid = rec_user_id (s_record sr) then Some sr else map_option pe_record (List.find (\<lambda>e. pe_user_id e = uid) records))"
proof (cases "List.find (\<lambda>e. pe_user_id e = rec_user_id (s_record sr)) records")
  case None
  then show ?thesis by (auto simp: book_insert_def find_append split: option.split)
next
  case (Some e)
  let ?p = "\<lambda>e. pe_user_id e = rec_user_id (s_record sr)" and ?f = "\<lambda>e. e\<lparr>pe_handle := h, pe_record := sr\<rparr> :: peer_entry"
  have "List.find ?p (upd_first ?p ?f records) = Some (?f e)"
    by (rule find_upd_first [OF Some]) (use find_Some_prop [OF Some] in simp)
  moreover have "uid \<noteq> rec_user_id (s_record sr) \<Longrightarrow>
      List.find (\<lambda>e. pe_user_id e = uid) (upd_first ?p ?f records) = List.find (\<lambda>e. pe_user_id e = uid) records"
    by (rule find_upd_first_other) auto
  ultimately show ?thesis using Some by (simp add: book_insert_def)
qed

lemma peerbook_key_other [simp]: "antirollback_key uid \<noteq> PEERBOOK_KEY" "PEERBOOK_KEY \<noteq> antirollback_key uid"
  by (simp_all add: antirollback_key_def PEERBOOK_KEY_def str_bytes_def)

context kv_store
begin

lemma check_and_pin_frame:
  assumes "inv st" "check_and_pin S C P st uid sr = (Ok b, st')"
  shows "inv st' \<and> (k \<noteq> antirollback_key uid \<longrightarrow> st_get S st' k = st_get S st k)"
proof -
  consider "st' = st" | v where "st_put S st (antirollback_key uid) v = (Ok (), st')"
    using assms(2) by (auto simp: check_and_pin_def result_elims split: option.splits if_splits)
  then show ?thesis
  proof cases
    case 1
    with assms(1) show ?thesis by simp
  next
    case 2
    with put_ok [OF assms(1) 2] show ?thesis by simp
  qed
qed

lemma peerbook_save_spec:
  assumes "inv st" "codec_ok (c_book c)" "peerbook_save S c st records = (Ok (), st')"
  shows "inv st'" "peerbook_load S c st' = Ok records"
  using put_inv [OF assms(1)] put_get [OF assms(1)] assms(2,3)
  by (simp_all add: peerbook_save_def peerbook_load_def io_get_def)

lemma peerbook_put_spec:
  assumes "inv st" "codec_ok (c_book c)" "peerbook_load S c st = Ok records" "peerbook_put S C c st h sr = (Ok (), st')"
  shows "inv st'" "peerbook_load S c st' = Ok (book_insert h sr records)"
    "verify_handle C h sr = Ok ()" "signed_record_verify C (c_book_claims c) sr = Ok ()"
    "\<exists>st1. check_and_pin S C (c_book_pins c) st (rec_user_id (s_record sr)) sr = (Ok True, st1)"
proof -
  from assms(4) obtain st1 records1 where v: "verify_handle C h sr = Ok ()" "signed_record_verify C (c_book_claims c) sr = Ok ()"
    and pin: "check_and_pin S C (c_book_pins c) st (rec_user_id (s_record sr)) sr = (Ok True, st1)"
    and l1: "peerbook_load S c st1 = Ok records1" and save: "peerbook_save S c st1 (book_insert h sr records1) = (Ok (), st')"
    by (auto simp: peerbook_put_def result_elims split: if_splits)
  have inv1: "inv st1" using check_and_pin_frame [OF assms(1) pin] by simp
  have "peerbook_load S c st1 = peerbook_load S c st"
    using check_and_pin_frame [OF assms(1) pin, of PEERBOOK_KEY] by (simp add: peerbook_load_def io_get_def)
  with l1 assms(3) have "records1 = records" by simp
  with peerbook_save_spec [OF inv1 assms(2) save] v pin
  show "inv st'" "peerbook_load S c st' = Ok (book_insert h sr records)" "verify_handle C h sr = Ok ()"
    "signed_record_verify C (c_book_claims c) sr = Ok ()"
    "\<exists>st1. check_and_pin S C (c_book_pins c) st (rec_user_id (s_record sr)) sr = (Ok True, st1)" by blast+
qed

end

section \<open>Admissions that fail\<close>

text \<open>The import continues after a failed admission, so it relies on more of the store: a put
  that reports an error has either stored the value or changed nothing.\<close>

locale kv_store_puts = kv_store +
  assumes put_err: "inv st \<Longrightarrow> st_put S st k v = (Err e, st') \<Longrightarrow>
      inv st' \<and> (st_get S st' = st_get S st \<or> st_get S st' = (st_get S st)(k := Ok (Some v)))"
begin

lemma put_any:
  "inv st \<Longrightarrow> st_put S st k v = (r, st') \<Longrightarrow>
     inv st' \<and> (st_get S st' = st_get S st \<or> st_get S st' = (st_get S st)(k := Ok (Some v)))"
  using put_ok [of st k v st'] put_err [of st k v _ st'] by (cases r) simp_all

lemma check_and_pin_any:
  assumes "inv st" "check_and_pin S C P st uid sr = (r, st')"
  shows "inv st' \<and> (k \<noteq> antirollback_key uid \<longrightarrow> st_get S st' k = st_get S st k)"
proof -
  consider "st' = st" | v where "st_put S st (antirollback_key uid) v = (fst (st_put S st (antirollback_key uid) v), st')"
    using assms(2)
    by (cases "antirollback_load S P st uid") (auto simp: check_and_pin_def tryS_def prod_eq_iff split: option.splits if_splits sum.splits)
  then show ?thesis
  proof cases
    case 1
    with assms(1) show ?thesis by simp
  next
    case 2
    from put_any [OF assms(1) 2] show ?thesis by auto
  qed
qed

lemma peerbook_put_kept:
  assumes "inv st" "codec_ok (c_book c)" "peerbook_kept S C c st" "peerbook_put S C c st h sr = (r, st')"
  shows "inv st' \<and> peerbook_kept S C c st'"
proof -
  obtain records where records: "peerbook_load S c st = Ok records" "book_kept C (c_book_claims c) records"
    using assms(3) by (auto simp: peerbook_kept_def)
  show ?thesis
  proof (cases "verify_handle C h sr = Ok () \<and> signed_record_verify C (c_book_claims c) sr = Ok ()
      \<and> address (device_reticulum (rec_device (s_record sr))) \<noteq> replicate 16 0")
    case False
    then have "st' = st" using assms(4)
      by (cases "verify_handle C h sr"; cases "signed_record_verify C (c_book_claims c) sr") (auto simp: peerbook_put_def)
    with assms show ?thesis by simp
  next
    case True
    obtain p st1 where pin: "check_and_pin S C (c_book_pins c) st (rec_user_id (s_record sr)) sr = (p, st1)" by fastforce
    note frame = check_and_pin_any [OF assms(1) pin]
    have inv1: "inv st1" using frame by simp
    have l1: "peerbook_load S c st1 = Ok records"
      using frame [of PEERBOOK_KEY] records by (simp add: peerbook_load_def io_get_def)
    show ?thesis
    proof (cases "p = Ok True")
      case False
      with True pin assms(4) have "st' = st1" by (cases p) (auto simp: peerbook_put_def)
      with inv1 l1 records(2) show ?thesis by (auto simp: peerbook_kept_def)
    next
      case pinned: True
      with True pin l1 assms(4) have "(r, st') = peerbook_save S c st1 (book_insert h sr records)" by (simp add: peerbook_put_def)
      then obtain r' where "st_put S st1 PEERBOOK_KEY (wire_encode (c_book c) (book_insert h sr records)) = (r', st')"
        by (auto simp: peerbook_save_def io_put_def map_errS_def prod_eq_iff)
      from put_any [OF inv1 this] have "inv st'" "peerbook_load S c st' \<in> {Ok records, Ok (book_insert h sr records)}"
        using l1 assms(2) by (auto simp: peerbook_load_def io_get_def)
      with records(2) book_insert_kept [OF records(2)] True show ?thesis by (auto simp: peerbook_kept_def)
    qed
  qed
qed

lemma import_loop_kept:
  assumes "inv st" "codec_ok (c_book c)" "peerbook_kept S C c st" "import_loop S C c st es report = (report', st')"
  shows "inv st' \<and> peerbook_kept S C c st' \<and>
    imported report' + length (skipped report') = imported report + length (skipped report) + length es"
  using assms
proof (induction es arbitrary: st report)
  case (Cons e es)
  show ?case
  proof (cases "disc_user_id e = rec_user_id (s_record (disc_record e)) \<and> is_ok (handle_new (disc_handle e))")
    case False
    then obtain why where "import_loop S C c st es (report\<lparr>skipped := skipped report @ [(disc_handle e, why)]\<rparr>) = (report', st')"
      using Cons.prems(4) by (auto split: sum.splits if_splits)
    from Cons.IH [OF Cons.prems(1-3) this] show ?thesis by simp
  next
    case True
    then obtain h where h: "handle_new (disc_handle e) = Ok h" by (auto simp: is_ok_iff)
    obtain r st1 where put: "peerbook_put S C c st h (disc_record e) = (r, st1)" by fastforce
    from peerbook_put_kept [OF Cons.prems(1-3) put] have kept: "inv st1" "peerbook_kept S C c st1" by auto
    show ?thesis
    proof (cases r)
      case (Inl err)
      with True h put Cons.prems(4) have "import_loop S C c st1 es (report\<lparr>skipped := skipped report @ [(h, any_display err)]\<rparr>) = (report', st')" by simp
      from Cons.IH [OF kept(1) assms(2) kept(2) this] show ?thesis by simp
    next
      case (Inr u)
      with True h put Cons.prems(4) have "import_loop S C c st1 es (report\<lparr>imported := Suc (imported report)\<rparr>) = (report', st')" by simp
      from Cons.IH [OF kept(1) assms(2) kept(2) this] show ?thesis by simp
    qed
  qed
qed simp

end

interpretation fsp: kv_store_puts "file_ops C E M" "fs_inv C E M" for C E M
proof
  fix st st' k v e
  assume inv: "fs_inv C E M st" and run: "st_put (file_ops C E M) st k v = (Err e, st')"
  then have ok: "aead_ok C" "rng_ok E" and "put_raw C E st k v = (Err e, st')"
    by (simp_all add: fs_inv_def file_ops_def fs_put_def ensure_ready_def)
  note v = put_raw_view [OF this]
  have inv': "fs_inv C E M st'" using inv v(2) by (simp add: fs_inv_def)
  with v(3) show "fs_inv C E M st' \<and> (st_get (file_ops C E M) st' = st_get (file_ops C E M) st
      \<or> st_get (file_ops C E M) st' = (st_get (file_ops C E M) st)(k := Ok (Some v)))"
    using inv by (simp add: file_ops_def fs_get_view)
qed

section \<open>The text form\<close>

lemma to_digit16_hex_digit: "n < 16 \<Longrightarrow> to_digit16 (hex_digit n) = Some n"
  by (drule less_16_cases) (auto simp: to_digit16_def hex_digit_def Let_def)

lemma hex_digit_plain: "n < 16 \<Longrightarrow> hex_digit n \<noteq> CHR ''+'' \<and> \<not> continuation (hex_digit n)"
  by (drule less_16_cases) (auto simp: hex_digit_def continuation_def)

lemma from_hex_hex: "from_hex (hex bs) = Some (Ok bs)"
proof -
  have "from_hex_pairs (hex bs) = Some (Ok bs)"
  proof (induction bs)
    case (Cons b bs)
    have "u8_from_str_radix16 [hex_digit (hex_high b), hex_digit (hex_low b)] = Some b"
    proof -
      have "16 * hex_high b + hex_low b = unat b" by (simp add: hex_high_div hex_low_mod)
      then have "of_nat (16 * hex_high b + hex_low b) = b" by (simp only: of_nat_unat ucast_id)
      then show ?thesis
        by (simp add: u8_from_str_radix16_def to_digit16_hex_digit hex_high_less hex_low_less hex_digit_plain)
    qed
    moreover have "hex bs = [] \<or> \<not> continuation (hd (hex bs))"
      by (cases bs) (simp_all add: hex_digit_plain hex_high_less)
    ultimately show ?case using Cons.IH by (simp add: hex_digit_plain hex_high_less)
  qed simp
  then show ?thesis by (simp add: from_hex_def)
qed

lemma from_hex_pairs_ascii: "list_all (\<lambda>ch. (of_char ch :: nat) < 128) s \<Longrightarrow> from_hex_pairs s \<noteq> None"
proof (induction s rule: from_hex_pairs.induct)
  case (1 a b rest)
  then have "\<not> continuation a" "rest \<noteq> [] \<Longrightarrow> \<not> continuation (hd rest)"
    by (cases rest; auto simp: continuation_def)+
  then have nc: "\<not> (continuation a \<or> rest \<noteq> [] \<and> continuation (hd rest))" by blast
  show ?case
  proof (cases "u8_from_str_radix16 [a, b]")
    case None
    with nc show ?thesis by simp
  next
    case (Some x)
    with 1(1) [OF nc Some] 1(2) nc show ?thesis by auto
  qed
qed simp_all

section \<open>Properties\<close>

text \<open>
  Admission of a signed record.  When a record is admitted, it was verified, belongs to the
  handle it is filed under and to the wallet its user id is derived from, and passed the
  anti-rollback pins; afterwards the user's lookup returns exactly this record, every other
  user's lookup is unchanged, and the book still has one verified entry per user.
\<close>

theorem peerbook_put_correct:
  assumes "fs_inv C E M st" "codec_ok (c_book c)" "peerbook_kept (file_ops C E M) C c st"
    and "peerbook_put (file_ops C E M) C c st h sr = (Ok (), st')"
  shows "signed_record_verify C (c_book_claims c) sr = Ok () \<and> rec_handle (s_record sr) = h
    \<and> rec_user_id (s_record sr) = user_id_from_wallet C (rec_wallet (s_record sr))
    \<and> (\<exists>st1. check_and_pin (file_ops C E M) C (c_book_pins c) st (rec_user_id (s_record sr)) sr = (Ok True, st1))
    \<and> peerbook_get_by_user_id (file_ops C E M) c st' uid =
        (if uid = rec_user_id (s_record sr) then Ok (Some sr) else peerbook_get_by_user_id (file_ops C E M) c st uid)
    \<and> peerbook_kept (file_ops C E M) C c st'"
proof -
  obtain records where r: "peerbook_load (file_ops C E M) c st = Ok records" "book_kept C (c_book_claims c) records"
    using assms(3) by (auto simp: peerbook_kept_def)
  note spec = fs.peerbook_put_spec [OF assms(1,2) r(1) assms(4)]
  from spec(3) have "rec_handle (s_record sr) = h" "rec_user_id (s_record sr) = user_id_from_wallet C (rec_wallet (s_record sr))"
    by (auto simp: verify_handle_def split: if_splits)
  moreover have "peerbook_kept (file_ops C E M) C c st'"
    using spec(2) book_insert_kept [OF r(2) spec(3,4)] by (auto simp: peerbook_kept_def)
  moreover have "peerbook_get_by_user_id (file_ops C E M) c st' uid =
        (if uid = rec_user_id (s_record sr) then Ok (Some sr) else peerbook_get_by_user_id (file_ops C E M) c st uid)"
    by (simp add: peerbook_get_by_user_id_def spec(2) r(1) book_insert_find)
  ultimately show ?thesis using spec(4,5) by blast
qed

definition s_peer_entry :: "peer_entry scodec" where
  "s_peer_entry = s_iso (\<lambda>e. (pe_user_id e, pe_handle e, pe_record e)) (\<lambda>(u, h, r). \<lparr>pe_user_id = u, pe_handle = h, pe_record = r\<rparr>)
     (s_pair s_string (s_pair s_string s_signed_record))"

definition sample_book_codecs :: peerbook_codecs where
  "sample_book_codecs = \<lparr>c_book = sample_codec (s_list s_peer_entry), c_signed_record = sample_codec s_signed_record,
     c_book_pins = sample_pin_codecs, c_book_claims = sample_claims\<rparr>"

lemma s_peer_entry_ok [sample_ok]: "scodec_ok s_peer_entry"
  unfolding s_peer_entry_def by (rule s_iso_ok) (simp_all add: sample_ok)

lemma sample_book_codecs_ok [sample_ok]: "codec_ok (c_book sample_book_codecs)" "codec_ok (c_signed_record sample_book_codecs)"
  by (simp_all add: sample_book_codecs_def sample_ok)

lemma sample_book_kept: "peerbook_kept sample_ops sample_crypto sample_book_codecs sample_store"
  by (simp add: peerbook_kept_def peerbook_load_def sample_store_ops book_kept_def)

lemma sample_signed_verifies: "signed_record_verify sample_crypto sample_claims (sample_signed n) = Ok ()"
  unfolding sample_signed_def
  by (rule signed_record_sign_verifies [where seq = n]) (simp_all add: sample_ok, simp add: sample_record_def)

lemma sample_put:
  "\<exists>st'. peerbook_put sample_ops sample_crypto sample_book_codecs sample_store ''ari'' (sample_signed 1) = (Ok (), st')"
proof -
  let ?P = sample_pin_codecs and ?C = sample_crypto and ?uid = "rec_user_id (s_record (sample_signed 1))"
  obtain st1 where pin: "check_and_pin sample_ops ?C ?P sample_store ?uid (sample_signed 1) = (Ok True, st1)"
    and inv1: "fs_inv ?C (sample_env (\<lambda>_. NoFault)) sample_batch st1" by (rule sample_pins_accept)
  from fs.check_and_pin_frame [OF sample_fs_inv pin [unfolded sample_ops_def], of PEERBOOK_KEY]
  have l1: "peerbook_load sample_ops sample_book_codecs st1 = Ok []"
    using sample_store_ops(3) [of PEERBOOK_KEY] by (simp add: peerbook_load_def sample_ops_def io_get_def)
  have "address (reticulum_public ?C (sample_identity 3)) \<noteq> replicate 16 0" by code_simp
  then have "address (device_reticulum (rec_device (s_record (sample_signed 1)))) \<noteq> replicate 16 0"
    by (simp add: sample_signed_def signed_record_sign_def sample_record_def device_create_def Let_def device_reticulum_def)
  moreover have "verify_handle ?C ''ari'' (sample_signed 1) = Ok ()"
    by (simp add: verify_handle_def sample_signed_def signed_record_sign_def sample_record_def)
  ultimately show ?thesis
    using sample_put_accepts [OF inv1] pin l1 sample_signed_verifies [of 1] unfolding peerbook_put_def
    by (simp add: sample_book_codecs_def peerbook_save_def)
qed

theorem peerbook_put_correct_witness:
  "\<exists>st'. peerbook_put sample_ops sample_crypto sample_book_codecs sample_store ''ari'' (sample_signed 1) = (Ok (), st')
     \<and> peerbook_get_by_user_id sample_ops sample_book_codecs st' (rec_user_id (s_record (sample_signed 1))) = Ok (Some (sample_signed 1))
     \<and> peerbook_kept sample_ops sample_crypto sample_book_codecs st'"
proof -
  obtain st' where put: "peerbook_put sample_ops sample_crypto sample_book_codecs sample_store ''ari'' (sample_signed 1) = (Ok (), st')"
    using sample_put by blast
  from peerbook_put_correct [OF sample_fs_inv sample_book_codecs_ok(1) sample_book_kept [unfolded sample_ops_def] put [unfolded sample_ops_def]]
    put show ?thesis by (auto simp: sample_ops_def)
qed

text \<open>
  Lookup by handle is unambiguous.  In a well-kept book a handle resolves only to a verified
  record of that handle whose user id belongs to its wallet, and only when no other user of the
  book carries the same handle.
\<close>

theorem peerbook_get_unambiguous:
  assumes "peerbook_kept S C c st" "peerbook_get S c st h = Ok (Some sr)"
  shows "signed_record_verify C (c_book_claims c) sr = Ok () \<and> rec_handle (s_record sr) = h
    \<and> rec_user_id (s_record sr) = user_id_from_wallet C (rec_wallet (s_record sr))
    \<and> peerbook_get_by_user_id S c st (rec_user_id (s_record sr)) = Ok (Some sr)
    \<and> (\<forall>uid other. peerbook_get_by_user_id S c st uid = Ok (Some other) \<and> rec_handle (s_record other) = h \<longrightarrow> other = sr)"
proof -
  from assms(1) obtain records where l: "peerbook_load S c st = Ok records" and kept: "book_kept C (c_book_claims c) records"
    by (auto simp: peerbook_kept_def)
  from assms(2) l obtain e where f: "filter (\<lambda>e. pe_handle e = h \<and> rec_handle (s_record (pe_record e)) = h) records = [e]" "sr = pe_record e"
    by (auto simp: peerbook_get_def split: list.splits)
  have "set (filter (\<lambda>e. pe_handle e = h \<and> rec_handle (s_record (pe_record e)) = h) records) = {e}" by (simp add: f(1))
  then have e: "e \<in> set records" "rec_handle (s_record sr) = h"
    and only: "\<And>e'. e' \<in> set records \<Longrightarrow> pe_handle e' = h \<Longrightarrow> rec_handle (s_record (pe_record e')) = h \<Longrightarrow> e' = e"
    using f(2) by auto
  have props: "\<And>e. e \<in> set records \<Longrightarrow> pe_user_id e = rec_user_id (s_record (pe_record e)) \<and> pe_handle e = rec_handle (s_record (pe_record e))
      \<and> rec_user_id (s_record (pe_record e)) = user_id_from_wallet C (rec_wallet (s_record (pe_record e)))
      \<and> signed_record_verify C (c_book_claims c) (pe_record e) = Ok ()" and dist: "distinct (map pe_user_id records)"
    using kept by (auto simp: book_kept_def Let_def)
  have found: "other = sr" if "peerbook_get_by_user_id S c st uid = Ok (Some other)" "rec_handle (s_record other) = h" for uid other
  proof -
    from that(1) l obtain e' where "List.find (\<lambda>e. pe_user_id e = uid) records = Some e'" "other = pe_record e'"
      by (auto simp: peerbook_get_by_user_id_def)
    with that(2) props only find_Some_prop f(2) show ?thesis by metis
  qed
  obtain e' where e': "List.find (\<lambda>x. pe_user_id x = pe_user_id e) records = Some e'"
    using e(1) by (cases "List.find (\<lambda>x. pe_user_id x = pe_user_id e) records") (auto simp: find_None_all)
  with find_Some_prop [OF e'] dist e(1) have "e' = e" by (auto simp: distinct_map inj_on_def)
  with e' l props [OF e(1)] f(2) have "peerbook_get_by_user_id S c st (rec_user_id (s_record sr)) = Ok (Some sr)"
    by (simp add: peerbook_get_by_user_id_def)
  with props [OF e(1)] e(2) f(2) found show ?thesis by blast
qed

lemma sample_put_get:
  assumes "peerbook_put sample_ops sample_crypto sample_book_codecs sample_store ''ari'' (sample_signed 1) = (Ok (), st')"
  shows "peerbook_get sample_ops sample_book_codecs st' ''ari'' = Ok (Some (sample_signed 1))"
    "peerbook_kept sample_ops sample_crypto sample_book_codecs st'"
proof -
  have l: "peerbook_load (file_ops sample_crypto (sample_env (\<lambda>_. NoFault)) sample_batch) sample_book_codecs sample_store = Ok []"
    using sample_store_ops(3) by (simp add: peerbook_load_def sample_ops_def del: io_get_Ok)
  from fs.peerbook_put_spec(2) [OF sample_fs_inv sample_book_codecs_ok(1) l assms [unfolded sample_ops_def]]
  show "peerbook_get sample_ops sample_book_codecs st' ''ari'' = Ok (Some (sample_signed 1))"
    by (simp add: peerbook_get_def book_insert_def sample_ops_def sample_signed_def signed_record_sign_def sample_record_def)
  from fsp.peerbook_put_kept [OF sample_fs_inv sample_book_codecs_ok(1) sample_book_kept [unfolded sample_ops_def] assms [unfolded sample_ops_def]]
  show "peerbook_kept sample_ops sample_crypto sample_book_codecs st'" by (simp add: sample_ops_def)
qed

theorem peerbook_get_unambiguous_witness:
  "\<exists>st'. peerbook_get sample_ops sample_book_codecs st' ''ari'' = Ok (Some (sample_signed 1))
     \<and> peerbook_get_by_user_id sample_ops sample_book_codecs st' (rec_user_id (s_record (sample_signed 1))) = Ok (Some (sample_signed 1))"
proof -
  obtain st' where "peerbook_put sample_ops sample_crypto sample_book_codecs sample_store ''ari'' (sample_signed 1) = (Ok (), st')"
    using sample_put by blast
  note g = sample_put_get [OF this]
  from peerbook_get_unambiguous [OF g(2,1)] g(1) show ?thesis by blast
qed

text \<open>
  Importing discovered records is safe.  Whatever records a peer sends, and whichever of the
  admissions fail on the way (bad records, stale records or storage errors), the book stays well
  kept, so an unverified record is never filed, and every record is accounted for as imported or
  skipped.
\<close>

theorem import_records_safe:
  assumes "fs_inv C E M st" "codec_ok (c_book c)" "peerbook_kept (file_ops C E M) C c st"
    and "import_records (file_ops C E M) C c st records = (report, st')"
  shows "peerbook_kept (file_ops C E M) C c st' \<and> imported report + length (skipped report) = length records"
  using fsp.import_loop_kept [OF assms(1-3) assms(4) [unfolded import_records_def]] by simp

theorem import_records_safe_witness:
  "let (report, st') = import_records sample_ops sample_crypto sample_book_codecs sample_store
       [\<lparr>disc_user_id = ''x'', disc_handle = ''ari'', disc_record = sample_signed 1\<rparr>] in
     peerbook_kept sample_ops sample_crypto sample_book_codecs st' \<and> imported report + length (skipped report) = 1"
  using import_records_safe [OF sample_fs_inv sample_book_codecs_ok(1) sample_book_kept [unfolded sample_ops_def] surjective_pairing]
  by (simp add: sample_ops_def split_def)

text \<open>
  The text form of a record.  A verified record survives being written and read back;
  whatever text is read, an accepted record is a verified one; and reading never panics on
  ASCII text.
\<close>

theorem record_text_roundtrip:
  assumes "codec_ok (c_signed_record c)"
  shows "(signed_record_verify C (c_book_claims c) sr = Ok () \<longrightarrow> record_decode C c (record_encode c sr) = Some (Ok sr))
    \<and> (record_decode C c s = Some (Ok sr') \<longrightarrow> signed_record_verify C (c_book_claims c) sr' = Ok ())
    \<and> (list_all (\<lambda>ch. (of_char ch :: nat) < 128) s \<longrightarrow> record_decode C c s \<noteq> None)"
proof (intro conjI impI)
  assume "signed_record_verify C (c_book_claims c) sr = Ok ()"
  then show "record_decode C c (record_encode c sr) = Some (Ok sr)"
    using assms by (simp add: record_decode_def record_encode_def wireops_hex_eq str_trim_hex hex_lower from_hex_hex)
next
  assume "record_decode C c s = Some (Ok sr')"
  then show "signed_record_verify C (c_book_claims c) sr' = Ok ()"
    by (auto simp: record_decode_def result_elims)
next
  assume "list_all (\<lambda>ch. (of_char ch :: nat) < 128) s"
  then have "list_all (\<lambda>ch. (of_char ch :: nat) < 128) (str_trim s)"
    using str_trim_subset [of s] by (auto simp: list_all_iff)
  with from_hex_pairs_ascii show "record_decode C c s \<noteq> None"
    by (auto simp: record_decode_def from_hex_def)
qed

theorem record_text_roundtrip_witness:
  "record_decode sample_crypto sample_book_codecs (record_encode sample_book_codecs (sample_signed 1)) = Some (Ok (sample_signed 1))"
  using record_text_roundtrip [OF sample_book_codecs_ok(2), of sample_crypto "sample_signed 1" "[]" "sample_signed 1"] sample_signed_verifies [of 1]
  by (simp add: sample_book_codecs_def)

text \<open>The reader panics on the four bytes of the text \<open>a\<close>, \<open>e\<close> with an acute accent, \<open>a\<close>.\<close>

lemma from_hex_panics: "from_hex [CHR ''a'', CHR 0xc3, CHR 0xa9, CHR ''a''] = None"
  by code_simp

end
