(* ===== verification/Flow.thy ===== *)
theory Flow
  imports History Outbox Peerbook
begin

text \<open>
  The messaging orchestration (\<open>mycellium-engine/src/flow/mod.rs\<close>): the trust chokepoint, sending
  to a peer and to a group, key distribution, leaving a group, and the dispatch of received items.

  The code threads a store, a platform, the host's delivery closure and its event sink through
  every call; the record \<open>flow_state\<close> holds all four.  The closure is a parameter: a function of
  its own private state and of the store, which it may change.  Looking records up is a parameter
  too.  The JSON serializer of the two group payloads is a pair of partial functions.
\<close>

record flow_net =
  net_lookup :: "handle \<Rightarrow> any_error + signed_record"
  net_lookup_user_id :: "user_id \<Rightarrow> any_error + signed_record"

datatype trust_error = IdentityChanged | StaleRecord | UnverifiedRecord | BadHandle

datatype item_outcome = Accepted | Rejected | Retry

datatype flow_event =
    DirectMessageEvent (ev_user_id: string) (ev_from: string) (ev_id: string) (ev_text: string) (ev_from_me: bool)
  | GroupMessageEvent string string string string string
  | EditedEvent string string string bool
  | DeletedEvent string string bool
  | ReceiptEvent string string string bool
  | GroupJoinedEvent string string string
  | GroupLeftEvent string string string
  | AttachmentEvent string string string bytes
  | WarnEvent string

type_synonym ('d, 's) delivery_hook =
  "'d \<Rightarrow> 's \<Rightarrow> handle \<Rightarrow> signed_record \<Rightarrow> device \<Rightarrow> mail_item \<Rightarrow> bytes option \<Rightarrow> delivery_path \<times> 's \<times> 'd"

record flow_codecs =
  fc_app :: "app_message codec"
  fc_history :: history_codecs
  fc_groups :: group_codecs
  fc_names :: names_codec
  fc_attachment :: "stored_attachment codec"
  fc_verified :: "bytes codec"
  fc_contacts :: contact_codecs
  fc_book :: peerbook_codecs
  fc_invite :: "group_invite_payload json"
  fc_leave :: "group_leave_payload json"

abbreviation fc_claims :: "flow_codecs \<Rightarrow> claim_codecs" where "fc_claims F \<equiv> c_book_claims (fc_book F)"
abbreviation fc_pins :: "flow_codecs \<Rightarrow> pin_codecs" where "fc_pins F \<equiv> c_book_pins (fc_book F)"

record ('s, 'd) flow_state =
  fl_store :: 's
  fl_platform :: platform
  fl_host :: 'd
  fl_events :: "flow_event list"

definition emit :: "flow_event \<Rightarrow> ('s, 'd) flow_state \<Rightarrow> ('s, 'd) flow_state" where
  "emit ev w = w\<lparr>fl_events := fl_events w @ [ev]\<rparr>"

definition flow_now :: "('s, 'd) flow_state \<Rightarrow> u64 \<times> ('s, 'd) flow_state" where
  "flow_now w = (let (now, p) = now_unix_secs (fl_platform w) in (now, w\<lparr>fl_platform := p\<rparr>))"

text \<open>\<open>let Ok(x) = r else { return o }\<close>, for a pure result and for a call that changes the store.\<close>

definition ok_else :: "'o \<Rightarrow> 'w \<Rightarrow> 'e + 'a \<Rightarrow> ('a \<Rightarrow> 'o \<times> 'w) \<Rightarrow> 'o \<times> 'w" where
  "ok_else out w r f = (case r of Ok a \<Rightarrow> f a | Err _ \<Rightarrow> (out, w))"

definition ok_elseS ::
    "'o \<Rightarrow> ('s, 'd) flow_state \<Rightarrow> ('e + 'a) \<times> 's \<Rightarrow> ('a \<Rightarrow> ('s, 'd) flow_state \<Rightarrow> 'o \<times> ('s, 'd) flow_state) \<Rightarrow>
     'o \<times> ('s, 'd) flow_state" where
  "ok_elseS out w rs f = (let w = w\<lparr>fl_store := snd rs\<rparr> in case fst rs of Ok a \<Rightarrow> f a w | Err _ \<Rightarrow> (out, w))"

text \<open>The question mark of a store call inside a flow function that returns a result.\<close>

definition tryF ::
    "('s, 'd) flow_state \<Rightarrow> ('e + 'a) \<times> 's \<Rightarrow> ('a \<Rightarrow> ('s, 'd) flow_state \<Rightarrow> ('e + 'b) \<times> ('s, 'd) flow_state) \<Rightarrow>
     ('e + 'b) \<times> ('s, 'd) flow_state" where
  "tryF w rs f = (let w = w\<lparr>fl_store := snd rs\<rparr> in case fst rs of Ok a \<Rightarrow> f a w | Err e \<Rightarrow> (Err e, w))"

definition run_hook ::
    "('d, 's) delivery_hook \<Rightarrow> ('s, 'd) flow_state \<Rightarrow> handle \<Rightarrow> signed_record \<Rightarrow> device \<Rightarrow> mail_item \<Rightarrow> bytes option \<Rightarrow>
     delivery_path \<times> ('s, 'd) flow_state" where
  "run_hook deliver w h r d item plaintext =
     (let (path, st, host) = deliver (fl_host w) (fl_store w) h r d item plaintext
      in (path, w\<lparr>fl_store := st, fl_host := host\<rparr>))"

section \<open>The trust chokepoint\<close>

definition resolve_record ::
    "'s storage \<Rightarrow> crypto \<Rightarrow> flow_codecs \<Rightarrow> 's \<Rightarrow> flow_net \<Rightarrow> string \<Rightarrow> (trust_error + (handle \<times> signed_record)) \<times> 's" where
  "resolve_record S C F st net h =
     tryE (map_err (\<lambda>_. BadHandle) (handle_new h)) st (\<lambda>h.
     tryE (map_err (\<lambda>_. BadHandle) (net_lookup net h)) st (\<lambda>r.
     tryE (map_err (\<lambda>_. UnverifiedRecord) (signed_record_verify C (fc_claims F) r)) st (\<lambda>_.
     if verified_level S (fc_verified F) (fc_contacts F) st (rec_user_id (s_record r)) (rec_wallet (s_record r)) = Changed
     then (Err IdentityChanged, st)
     else tryS (map_errS (\<lambda>_. StaleRecord) (check_and_pin S C (fc_pins F) st (rec_user_id (s_record r)) r)) (\<lambda>fresh st.
       if \<not> fresh then (Err StaleRecord, st) else (Ok (h, r), st)))))"

definition resolve_group_target ::
    "'s storage \<Rightarrow> crypto \<Rightarrow> flow_codecs \<Rightarrow> identity \<Rightarrow> 's \<Rightarrow> flow_net \<Rightarrow> group_member \<Rightarrow> (handle \<times> signed_record) option \<times> 's" where
  "resolve_group_target S C F me st net member =
     ok_else None st (user_id_new (gmem_user_id member)) (\<lambda>uid.
     ok_else None st (net_lookup_user_id net uid) (\<lambda>r.
     if \<not> is_ok (signed_record_verify C (fc_claims F) r) \<or> rec_user_id (s_record r) \<noteq> uid then (None, st)
     else let trust = verified_level S (fc_verified F) (fc_contacts F) st (rec_user_id (s_record r)) (rec_wallet (s_record r)) in
       if rec_wallet (s_record r) \<noteq> wallet_public C me \<and> (trust = Changed \<or> trust = Unverified) then (None, st)
       else case check_and_pin S C (fc_pins F) st (rec_user_id (s_record r)) r of
           (Ok True, st) \<Rightarrow> (Some (rec_handle (s_record r), r), st)
         | (_, st) \<Rightarrow> (None, st)))"

section \<open>Sending to a peer\<close>

record send_outcome =
  so_id :: string
  so_delivered :: u32
  so_direct :: u32
  so_outboxed :: u32
  so_failed :: u32

definition new_outcome :: "string \<Rightarrow> send_outcome" where
  "new_outcome i = \<lparr>so_id = i, so_delivered = 0, so_direct = 0, so_outboxed = 0, so_failed = 0\<rparr>"

definition tally :: "delivery_path \<Rightarrow> send_outcome \<Rightarrow> send_outcome" where
  "tally path out = (case path of
      Direct \<Rightarrow> out\<lparr>so_direct := so_direct out + 1, so_delivered := so_delivered out + 1\<rparr>
    | OutboxPath \<Rightarrow> out\<lparr>so_outboxed := so_outboxed out + 1\<rparr>
    | FailedPath \<Rightarrow> out\<lparr>so_failed := so_failed out + 1\<rparr>)"

definition own_copy :: "app_message \<Rightarrow> stored_message" where
  "own_copy app = \<lparr>sm_id = msg_id app, sm_from_me = True, sm_text = summary app, sm_timestamp = msg_timestamp app,
     sm_expires_at = msg_expires_at app\<rparr>"

definition record_own_copy ::
    "'s storage \<Rightarrow> flow_codecs \<Rightarrow> 's \<Rightarrow> string \<Rightarrow> app_message \<Rightarrow> (any_error + unit) \<times> 's" where
  "record_own_copy S F st uid app = (case msg_body app of
      Edit to text \<Rightarrow> history_edit S (fc_history F) st uid to text True
    | BodyDelete to \<Rightarrow> history_delete S (fc_history F) st uid to True
    | Receipt _ _ \<Rightarrow> (Ok (), st)
    | _ \<Rightarrow> tryS (history_append S (fc_history F) st uid (own_copy app)) (\<lambda>_ st. (Ok (), st)))"

definition send_app ::
    "'s storage \<Rightarrow> crypto \<Rightarrow> flow_codecs \<Rightarrow> identity \<Rightarrow> ('s, 'd) flow_state \<Rightarrow> handle \<Rightarrow> signed_record \<Rightarrow> handle \<Rightarrow>
     signed_record \<Rightarrow> app_message \<Rightarrow> ('d, 's) delivery_hook \<Rightarrow> (any_error + send_outcome) \<times> ('s, 'd) flow_state" where
  "send_app S C F identity w me sender_record peer peer_record app deliver =
     (let encoded = app_encode (fc_app F) app;
          out = new_outcome (msg_id app);
          d = rec_device (s_record peer_record);
          (env, p) = seal_to_with_record C (fl_platform w) identity me sender_record d encoded;
          w = w\<lparr>fl_platform := p\<rparr>
      in case env of
           Err _ \<Rightarrow> (Ok (out\<lparr>so_failed := so_failed out + 1\<rparr>), w)
         | Ok env \<Rightarrow>
             (let (path, w) = run_hook deliver w peer peer_record d (DirectItem env) (Some encoded);
                  out = tally path out
              in tryF w (record_own_copy S F (fl_store w) (rec_user_id (s_record peer_record)) app) (\<lambda>_ w. (Ok out, w))))"

section \<open>Distributing a group key\<close>

fun distribute_loop ::
    "'s storage \<Rightarrow> crypto \<Rightarrow> flow_codecs \<Rightarrow> identity \<Rightarrow> ('s, 'd) flow_state \<Rightarrow> flow_net \<Rightarrow> handle \<Rightarrow> signed_record \<Rightarrow>
     sender_key_distribution \<Rightarrow> bytes \<Rightarrow> group_member list \<Rightarrow> group_key_share list \<Rightarrow> ('d, 's) delivery_hook \<Rightarrow>
     group_key_share list \<Rightarrow> group_key_share list \<times> ('s, 'd) flow_state" where
  "distribute_loop S C F identity w net me sender_record dist plaintext [] known deliver shared = (shared, w)"
| "distribute_loop S C F identity w net me sender_record dist plaintext (target # targets) known deliver shared =
     (let continue = (\<lambda>w shared. distribute_loop S C F identity w net me sender_record dist plaintext targets known deliver shared);
          (found, st) = resolve_group_target S C F identity (fl_store w) net target;
          w = w\<lparr>fl_store := st\<rparr>
      in case found of
           None \<Rightarrow> continue w shared
         | Some (h, r) \<Rightarrow>
             (let d = rec_device (s_record r); dslot = device_slot (device_key d) in
              if device_key d = device_public C identity then continue w shared
              else if list_ex (\<lambda>share. ks_user_id share = gmem_user_id target \<and> ks_device_slot share = dslot
                     \<and> ks_signing_public share = skd_signing_public dist) known then continue w shared
              else let (env, p) = seal_to_with_record C (fl_platform w) identity me sender_record d plaintext;
                       w = w\<lparr>fl_platform := p\<rparr>
                   in case env of
                        Err _ \<Rightarrow> continue w shared
                      | Ok env \<Rightarrow>
                          (let (path, w) = run_hook deliver w h r d (GroupInvite env) (Some plaintext)
                           in if path = Direct \<or> path = OutboxPath
                              then continue w (shared @ [\<lparr>ks_user_id = gmem_user_id target, ks_device_slot = dslot,
                                     ks_signing_public = skd_signing_public dist\<rparr>])
                              else continue w shared)))"

definition distribute_key_inner ::
    "'s storage \<Rightarrow> crypto \<Rightarrow> flow_codecs \<Rightarrow> identity \<Rightarrow> ('s, 'd) flow_state \<Rightarrow> flow_net \<Rightarrow> handle \<Rightarrow> signed_record \<Rightarrow>
     string \<Rightarrow> string \<Rightarrow> sender_key_distribution \<Rightarrow> group_member list \<Rightarrow> group_member list \<Rightarrow> group_key_share list \<Rightarrow>
     ('d, 's) delivery_hook \<Rightarrow> group_key_share list \<times> ('s, 'd) flow_state" where
  "distribute_key_inner S C F identity w net me sender_record group_id name dist members targets known deliver =
     (case json_to_vec (fc_invite F) \<lparr>gip_group_id = group_id, gip_name = name, gip_members = members,
         gip_sender_id = my_group_id C identity, gip_distribution = dist\<rparr> of
        None \<Rightarrow> ([], w)
      | Some plaintext \<Rightarrow> distribute_loop S C F identity w net me sender_record dist plaintext targets known deliver [])"

definition distribute_key ::
    "'s storage \<Rightarrow> crypto \<Rightarrow> flow_codecs \<Rightarrow> identity \<Rightarrow> ('s, 'd) flow_state \<Rightarrow> flow_net \<Rightarrow> handle \<Rightarrow> signed_record \<Rightarrow>
     string \<Rightarrow> string \<Rightarrow> sender_key_distribution \<Rightarrow> group_member list \<Rightarrow> group_member list \<Rightarrow>
     ('d, 's) delivery_hook \<Rightarrow> group_key_share list \<times> ('s, 'd) flow_state" where
  "distribute_key S C F identity w net me sender_record group_id name dist members targets deliver =
     distribute_key_inner S C F identity w net me sender_record group_id name dist members targets [] deliver"

section \<open>Sending to a group\<close>

definition own_group_edit ::
    "'s storage \<Rightarrow> flow_codecs \<Rightarrow> 's \<Rightarrow> string \<Rightarrow> handle \<Rightarrow> app_message \<Rightarrow> (any_error + unit) \<times> 's" where
  "own_group_edit S F st group_id me app = (case msg_body app of
      Edit to text \<Rightarrow> group_edit S (fc_history F) st group_id to text me
    | BodyDelete to \<Rightarrow> group_delete S (fc_history F) st group_id to me
    | _ \<Rightarrow> (Ok (), st))"

fun fan_out ::
    "'s storage \<Rightarrow> crypto \<Rightarrow> flow_codecs \<Rightarrow> identity \<Rightarrow> ('s, 'd) flow_state \<Rightarrow> flow_net \<Rightarrow> mail_item \<Rightarrow> group_member list \<Rightarrow>
     ('d, 's) delivery_hook \<Rightarrow> send_outcome \<Rightarrow> send_outcome \<times> ('s, 'd) flow_state" where
  "fan_out S C F identity w net item [] deliver out = (out, w)"
| "fan_out S C F identity w net item (member # members) deliver out =
     (let (found, st) = resolve_group_target S C F identity (fl_store w) net member;
          w = w\<lparr>fl_store := st\<rparr>
      in case found of
           None \<Rightarrow> fan_out S C F identity w net item members deliver out
         | Some (h, r) \<Rightarrow>
             (let d = rec_device (s_record r) in
              if device_key d = device_public C identity then fan_out S C F identity w net item members deliver out
              else let (path, w) = run_hook deliver w h r d item None
                   in fan_out S C F identity w net item members deliver (tally path out)))"

definition group_own_copy :: "handle \<Rightarrow> app_message \<Rightarrow> group_stored_message" where
  "group_own_copy me app = \<lparr>gsm_id = msg_id app, gsm_sender = me, gsm_text = summary app, gsm_timestamp = msg_timestamp app,
     gsm_expires_at = msg_expires_at app\<rparr>"

definition is_edit_or_delete :: "body \<Rightarrow> bool" where
  "is_edit_or_delete b = (case b of Edit _ _ \<Rightarrow> True | BodyDelete _ \<Rightarrow> True | _ \<Rightarrow> False)"

text \<open>The group is an in-out argument of the source: it is returned next to the result.\<close>

definition group_send ::
    "'s storage \<Rightarrow> crypto \<Rightarrow> flow_codecs \<Rightarrow> identity \<Rightarrow> ('s, 'd) flow_state \<Rightarrow> flow_net \<Rightarrow> handle \<Rightarrow> signed_record \<Rightarrow>
     stored_group \<Rightarrow> app_message \<Rightarrow> ('d, 's) delivery_hook \<Rightarrow>
     ((any_error + send_outcome) \<times> stored_group) \<times> ('s, 'd) flow_state" where
  "group_send S C F identity w net me sender_record g app deliver =
     (case group_import C (sg_state g) of
        Err _ \<Rightarrow> ((Err (AnyMsg ''stored group state is corrupt''), g), w)
      | Ok session \<Rightarrow>
          (let (shared, w) = distribute_key_inner S C F identity w net me sender_record (sg_id g) (sg_name g)
                 (group_distribution C session) (sg_members g) (sg_members g) (sg_key_shares g) deliver;
               g1 = fold (\<lambda>share g. note_key_share g share) shared g;
               (saved, st) = (if shared = [] then (Ok (), fl_store w) else groups_save S (fc_groups F) (fl_store w) g1);
               w = w\<lparr>fl_store := st\<rparr>
           in case saved of
                Err e \<Rightarrow> ((Err e, g1), w)
              | Ok _ \<Rightarrow>
          (let (edited, st) = own_group_edit S F (fl_store w) (sg_id g) me app; w = w\<lparr>fl_store := st\<rparr>
           in case edited of
                Err e \<Rightarrow> ((Err e, g1), w)
              | Ok _ \<Rightarrow>
          (let (gm, session) = group_encrypt C session (app_encode (fc_app F) app) (group_ad (sg_id g));
               g2 = g1\<lparr>sg_state := group_export session\<rparr>;
               (saved, st) = groups_save S (fc_groups F) (fl_store w) g2; w = w\<lparr>fl_store := st\<rparr>
           in case saved of
                Err e \<Rightarrow> ((Err e, g2), w)
              | Ok _ \<Rightarrow>
          (let (out, w) = fan_out S C F identity w net (GroupText (sg_id g) gm) (sg_members g2) deliver (new_outcome (msg_id app))
           in if is_edit_or_delete (msg_body app) then ((Ok out, g2), w)
              else let (appended, st) = group_append S (fc_history F) (fl_store w) (sg_id g) (group_own_copy me app);
                       w = w\<lparr>fl_store := st\<rparr>
                   in case appended of Err e \<Rightarrow> ((Err e, g2), w) | Ok _ \<Rightarrow> ((Ok out, g2), w))))))"

section \<open>Leaving a group\<close>

fun leave_loop ::
    "'s storage \<Rightarrow> crypto \<Rightarrow> flow_codecs \<Rightarrow> identity \<Rightarrow> ('s, 'd) flow_state \<Rightarrow> flow_net \<Rightarrow> handle \<Rightarrow> signed_record \<Rightarrow>
     bytes \<Rightarrow> group_member list \<Rightarrow> ('d, 's) delivery_hook \<Rightarrow> ('s, 'd) flow_state" where
  "leave_loop S C F identity w net me sender_record plaintext [] deliver = w"
| "leave_loop S C F identity w net me sender_record plaintext (member # members) deliver =
     (let continue = (\<lambda>w. leave_loop S C F identity w net me sender_record plaintext members deliver) in
      if gmem_user_id member = rec_user_id (s_record sender_record) then continue w
      else let (found, st) = resolve_group_target S C F identity (fl_store w) net member; w = w\<lparr>fl_store := st\<rparr>
        in case found of
             None \<Rightarrow> continue w
           | Some (h, r) \<Rightarrow>
               (let d = rec_device (s_record r) in
                if device_key d = device_public C identity then continue w
                else let (env, p) = seal_to_with_record C (fl_platform w) identity me sender_record d plaintext;
                         w = w\<lparr>fl_platform := p\<rparr>
                     in case env of
                          Err _ \<Rightarrow> continue w
                        | Ok env \<Rightarrow> continue (snd (run_hook deliver w h r d (GroupLeave env) (Some plaintext)))))"

definition group_leave ::
    "'s storage \<Rightarrow> crypto \<Rightarrow> flow_codecs \<Rightarrow> identity \<Rightarrow> ('s, 'd) flow_state \<Rightarrow> flow_net \<Rightarrow> handle \<Rightarrow> signed_record \<Rightarrow>
     stored_group \<Rightarrow> ('d, 's) delivery_hook \<Rightarrow> ('s, 'd) flow_state" where
  "group_leave S C F identity w net me sender_record g deliver =
     (case json_to_vec (fc_leave F) \<lparr>glp_group_id = sg_id g\<rparr> of
        None \<Rightarrow> w
      | Some plaintext \<Rightarrow>
          (let w = leave_loop S C F identity w net me sender_record plaintext (sg_members g) deliver
           in w\<lparr>fl_store := snd (groups_remove S (fc_groups F) (fl_store w) (sg_id g))\<rparr>))"

section \<open>Receiving\<close>

record recv_ctx =
  rc_identity :: identity
  rc_me :: handle
  rc_sender_record :: signed_record
  rc_blocked :: "string list"

abbreviation env_user_id :: "envelope \<Rightarrow> user_id" where
  "env_user_id env \<equiv> rec_user_id (s_record (env_sender_record env))"

definition attachment_of :: "app_message \<Rightarrow> stored_attachment option" where
  "attachment_of app = (case msg_body app of
      File name mime data \<Rightarrow> Some \<lparr>att_id = msg_id app, att_name = name, att_mime = mime, att_data = data\<rparr>
    | _ \<Rightarrow> None)"

definition save_attachment :: "'s storage \<Rightarrow> flow_codecs \<Rightarrow> 's \<Rightarrow> stored_attachment option \<Rightarrow> (io_error + unit) \<times> 's" where
  "save_attachment S F st a = (case a of None \<Rightarrow> (Ok (), st) | Some a \<Rightarrow> attachment_save S (fc_attachment F) st a)"

definition emit_attachment :: "stored_attachment option \<Rightarrow> ('s, 'd) flow_state \<Rightarrow> ('s, 'd) flow_state" where
  "emit_attachment a w = (case a of None \<Rightarrow> w
    | Some a \<Rightarrow> emit (AttachmentEvent (att_id a) (att_name a) (att_mime a) (att_data a)) w)"

text \<open>A message with content: the last arm of \<open>recv_direct\<close>.\<close>

definition recv_content ::
    "'s storage \<Rightarrow> flow_codecs \<Rightarrow> ('s, 'd) flow_state \<Rightarrow> user_id \<Rightarrow> handle \<Rightarrow> app_message \<Rightarrow> item_outcome \<times> ('s, 'd) flow_state" where
  "recv_content S F w uid from app =
     ok_elseS Retry w (save_attachment S F (fl_store w) (attachment_of app)) (\<lambda>_ w.
     let (now, w) = flow_now w;
         entry = \<lparr>sm_id = msg_id app, sm_from_me = False, sm_text = summary app, sm_timestamp = now, sm_expires_at = msg_expires_at app\<rparr>
     in ok_elseS Retry w (history_append S (fc_history F) (fl_store w) uid entry) (\<lambda>inserted w.
        if \<not> inserted then (Accepted, w)
        else (Accepted, emit (DirectMessageEvent uid from (msg_id app) (summary app) False) (emit_attachment (attachment_of app) w))))"

definition recv_direct ::
    "'s storage \<Rightarrow> crypto \<Rightarrow> flow_codecs \<Rightarrow> recv_ctx \<Rightarrow> ('s, 'd) flow_state \<Rightarrow> envelope \<Rightarrow> item_outcome \<times> ('s, 'd) flow_state" where
  "recv_direct S C F r w env =
     ok_else Retry w (open_envelope C (fc_claims F) (rc_identity r) env) (\<lambda>(from, bytes).
     if is_blocked (rc_blocked r) (env_user_id env) then (Rejected, w)
     else let w = w\<lparr>fl_store := snd (names_note S (fc_names F) (fl_store w) from (rec_name (s_record (env_sender_record env))))\<rparr>
       in ok_else Rejected w (app_decode (fc_app F) bytes) (\<lambda>app. case msg_body app of
            Receipt message_id read \<Rightarrow> (Accepted, emit (ReceiptEvent (env_user_id env) from message_id read) w)
          | Edit to text \<Rightarrow> ok_elseS Retry w (history_edit S (fc_history F) (fl_store w) (env_user_id env) to text False) (\<lambda>_ w.
              (Accepted, emit (EditedEvent from to text False) w))
          | BodyDelete to \<Rightarrow> ok_elseS Retry w (history_delete S (fc_history F) (fl_store w) (env_user_id env) to False) (\<lambda>_ w.
              (Accepted, emit (DeletedEvent from to False) w))
          | _ \<Rightarrow> (let (now, w) = flow_now w in
              if is_expired app now then (Accepted, w) else recv_content S F w (env_user_id env) from app)))"

definition distribute_group_key ::
    "'s storage \<Rightarrow> crypto \<Rightarrow> flow_codecs \<Rightarrow> recv_ctx \<Rightarrow> ('s, 'd) flow_state \<Rightarrow> flow_net \<Rightarrow> stored_group \<Rightarrow> group \<Rightarrow>
     group_member list \<Rightarrow> ('d, 's) delivery_hook \<Rightarrow> ((any_error + unit) \<times> stored_group) \<times> ('s, 'd) flow_state" where
  "distribute_group_key S C F r w net stored session targets deliver =
     (let (shared, w) = distribute_key S C F (rc_identity r) w net (rc_me r) (rc_sender_record r) (sg_id stored) (sg_name stored)
            (group_distribution C session) (sg_members stored) targets deliver;
          stored = fold (\<lambda>share g. note_key_share g share) shared stored;
          (res, st) = groups_save S (fc_groups F) (fl_store w) stored
      in ((res, stored), w\<lparr>fl_store := st\<rparr>))"

definition member_valid :: "group_member \<Rightarrow> bool" where
  "member_valid m \<longleftrightarrow> is_ok (user_id_new (gmem_user_id m)) \<and> is_ok (handle_new (gmem_handle m))"

text \<open>The known-group arm of \<open>recv_group_invite\<close>.\<close>

definition drop_sender_keys :: "(group_sender \<Rightarrow> bool) \<Rightarrow> group_sender list \<Rightarrow> group \<Rightarrow> group" where
  "drop_sender_keys p senders session = fold (\<lambda>s g. if p s then remove_member g (gs_sender_id s) else g) senders session"

definition recv_invite_known ::
    "'s storage \<Rightarrow> crypto \<Rightarrow> flow_codecs \<Rightarrow> recv_ctx \<Rightarrow> ('s, 'd) flow_state \<Rightarrow> flow_net \<Rightarrow> user_id \<Rightarrow> handle \<Rightarrow>
     group_invite_payload \<Rightarrow> stored_group \<Rightarrow> ('d, 's) delivery_hook \<Rightarrow> item_outcome \<times> ('s, 'd) flow_state" where
  "recv_invite_known S C F r w net uid from payload stored deliver =
     (let sender_id = gip_sender_id payload in
      if \<not> list_ex (\<lambda>m. gmem_user_id m = uid) (sg_members stored) then (Rejected, w)
      else ok_else Retry w (group_import C (sg_state stored)) (\<lambda>session.
        let session = drop_sender_keys (\<lambda>s. gs_user_id s = uid \<and> gs_sender_id s \<noteq> sender_id) (sg_senders stored) session;
            stored = stored\<lparr>sg_senders := filter (\<lambda>s. gs_user_id s \<noteq> uid \<or> gs_sender_id s = sender_id) (sg_senders stored)\<rparr>;
            (added, session) = add_member C session sender_id (gip_distribution payload)
        in ok_else Retry w added (\<lambda>_.
          let stored = note_sender stored sender_id uid from;
              newcomers = filter (\<lambda>m. \<not> list_ex (\<lambda>k. gmem_user_id k = gmem_user_id m) (sg_members stored)) (gip_members payload);
              stored = stored\<lparr>sg_members := sg_members stored @ newcomers, sg_state := group_export session\<rparr>
          in ok_elseS Retry w (groups_save S (fc_groups F) (fl_store w) stored) (\<lambda>_ w.
             if newcomers = [] then (Accepted, w)
             else let ((res, stored), w) = distribute_group_key S C F r w net stored session newcomers deliver
                  in ok_else Retry w res (\<lambda>_. (Accepted, w))))))"

text \<open>The unknown-group arm.\<close>

definition recv_invite_join ::
    "'s storage \<Rightarrow> crypto \<Rightarrow> flow_codecs \<Rightarrow> recv_ctx \<Rightarrow> ('s, 'd) flow_state \<Rightarrow> flow_net \<Rightarrow> user_id \<Rightarrow> handle \<Rightarrow>
     group_invite_payload \<Rightarrow> ('d, 's) delivery_hook \<Rightarrow> item_outcome \<times> ('s, 'd) flow_state" where
  "recv_invite_join S C F r w net uid from payload deliver =
     (let sender_id = gip_sender_id payload;
          own_id = my_group_id C (rc_identity r);
          (session, p) = group_new (fl_platform w) own_id;
          w = w\<lparr>fl_platform := p\<rparr>;
          (added, session) = add_member C session sender_id (gip_distribution payload)
      in ok_else Retry w added (\<lambda>_.
        let stored = \<lparr>sg_id = gip_group_id payload, sg_name = gip_name payload, sg_members = gip_members payload,
              sg_senders = [], sg_key_shares = [], sg_state = group_export session\<rparr>;
            stored = note_sender stored sender_id uid from;
            stored = note_sender stored own_id (rec_user_id (s_record (rc_sender_record r))) (rc_me r)
        in ok_elseS Retry w (groups_save S (fc_groups F) (fl_store w) stored) (\<lambda>_ w.
           let w = emit (GroupJoinedEvent (sg_id stored) (sg_name stored) from) w;
               ((res, stored), w) = distribute_group_key S C F r w net stored session (sg_members stored) deliver
           in ok_else Retry w res (\<lambda>_. (Accepted, w)))))"

definition recv_group_invite ::
    "'s storage \<Rightarrow> crypto \<Rightarrow> flow_codecs \<Rightarrow> recv_ctx \<Rightarrow> ('s, 'd) flow_state \<Rightarrow> flow_net \<Rightarrow> envelope \<Rightarrow> ('d, 's) delivery_hook \<Rightarrow>
     item_outcome \<times> ('s, 'd) flow_state" where
  "recv_group_invite S C F r w net env deliver =
     ok_else Retry w (open_envelope C (fc_claims F) (rc_identity r) env) (\<lambda>(from, bytes).
     if is_blocked (rc_blocked r) (env_user_id env) then (Rejected, w)
     else case json_from_slice (fc_invite F) bytes of
        None \<Rightarrow> (Retry, w)
      | Some payload \<Rightarrow>
          (let ids = map gmem_user_id (gip_members payload) in
           if \<not> (list_all member_valid (gip_members payload) \<and> distinct ids) then (Rejected, w)
           else if gip_sender_id payload \<noteq> device_key (rec_device (s_record (env_sender_record env)))
             \<or> env_user_id env \<notin> set ids \<or> rec_user_id (s_record (rc_sender_record r)) \<notin> set ids then (Rejected, w)
           else ok_else Retry w (groups_load S (fc_groups F) (fl_store w) (gip_group_id payload)) (\<lambda>found. case found of
               Some stored \<Rightarrow> recv_invite_known S C F r w net (env_user_id env) from payload stored deliver
             | None \<Rightarrow> recv_invite_join S C F r w net (env_user_id env) from payload deliver)))"

text \<open>The effect of a decrypted group text, with the advanced group state still to be saved.\<close>

definition recv_group_content ::
    "'s storage \<Rightarrow> flow_codecs \<Rightarrow> ('s, 'd) flow_state \<Rightarrow> string \<Rightarrow> stored_group \<Rightarrow> handle \<Rightarrow> app_message \<Rightarrow>
     item_outcome \<times> ('s, 'd) flow_state" where
  "recv_group_content S F w group_id stored sender app =
     ok_elseS Retry w (save_attachment S F (fl_store w) (attachment_of app)) (\<lambda>_ w.
     let (now, w) = flow_now w;
         entry = \<lparr>gsm_id = msg_id app, gsm_sender = sender, gsm_text = summary app, gsm_timestamp = now, gsm_expires_at = msg_expires_at app\<rparr>
     in ok_elseS Retry w (group_append S (fc_history F) (fl_store w) group_id entry) (\<lambda>inserted w.
        ok_elseS Retry w (groups_save S (fc_groups F) (fl_store w) stored) (\<lambda>_ w.
        if \<not> inserted then (Accepted, w)
        else (Accepted, emit (GroupMessageEvent group_id (sg_name stored) sender (msg_id app) (summary app))
                (emit_attachment (attachment_of app) w)))))"

definition recv_group_plain ::
    "'s storage \<Rightarrow> flow_codecs \<Rightarrow> ('s, 'd) flow_state \<Rightarrow> string \<Rightarrow> stored_group \<Rightarrow> handle \<Rightarrow> bytes \<Rightarrow>
     item_outcome \<times> ('s, 'd) flow_state" where
  "recv_group_plain S F w group_id stored sender plaintext =
     ok_else Rejected w (app_decode (fc_app F) plaintext) (\<lambda>app. case msg_body app of
        Edit to text \<Rightarrow> ok_elseS Retry w (group_edit S (fc_history F) (fl_store w) group_id to text sender) (\<lambda>_ w.
          ok_elseS Retry w (groups_save S (fc_groups F) (fl_store w) stored) (\<lambda>_ w.
          (Accepted, emit (EditedEvent (sg_name stored) to text True) w)))
      | BodyDelete to \<Rightarrow> ok_elseS Retry w (group_delete S (fc_history F) (fl_store w) group_id to sender) (\<lambda>_ w.
          ok_elseS Retry w (groups_save S (fc_groups F) (fl_store w) stored) (\<lambda>_ w.
          (Accepted, emit (DeletedEvent (sg_name stored) to True) w)))
      | _ \<Rightarrow> (let (now, w) = flow_now w in
          if is_expired app now
          then ok_elseS Retry w (groups_save S (fc_groups F) (fl_store w) stored) (\<lambda>_ w. (Accepted, w))
          else recv_group_content S F w group_id stored sender app))"

definition recv_group_text ::
    "'s storage \<Rightarrow> crypto \<Rightarrow> flow_codecs \<Rightarrow> recv_ctx \<Rightarrow> ('s, 'd) flow_state \<Rightarrow> string \<Rightarrow> group_message \<Rightarrow>
     item_outcome \<times> ('s, 'd) flow_state" where
  "recv_group_text S C F r w group_id message =
     (case groups_load S (fc_groups F) (fl_store w) group_id of
        Ok (Some stored) \<Rightarrow> (case sender_of stored (gm_sender message) of
            None \<Rightarrow> (Retry, w)
          | Some sender_identity \<Rightarrow>
              (if is_blocked (rc_blocked r) (gs_user_id sender_identity) then (Rejected, w)
               else ok_else Rejected w (user_id_new (gs_user_id sender_identity)) (\<lambda>uid.
                 case peerbook_get_by_user_id S (fc_book F) (fl_store w) uid of
                   Ok (Some sender_record) \<Rightarrow>
                     (if \<not> is_ok (signed_record_verify C (fc_claims F) sender_record)
                         \<or> rec_user_id (s_record sender_record) \<noteq> uid
                         \<or> device_key (rec_device (s_record sender_record)) \<noteq> gm_sender message then (Rejected, w)
                      else ok_else Retry w (group_import C (sg_state stored)) (\<lambda>session.
                        let (decrypted, session) = group_decrypt C session message (group_ad group_id)
                        in ok_else Retry w decrypted (\<lambda>plaintext.
                           recv_group_plain S F w group_id (stored\<lparr>sg_state := group_export session\<rparr>)
                             (rec_handle (s_record sender_record)) plaintext)))
                 | _ \<Rightarrow> (Retry, w))))
      | _ \<Rightarrow> (Retry, w))"

definition recv_group_leave ::
    "'s storage \<Rightarrow> crypto \<Rightarrow> flow_codecs \<Rightarrow> recv_ctx \<Rightarrow> ('s, 'd) flow_state \<Rightarrow> flow_net \<Rightarrow> envelope \<Rightarrow> ('d, 's) delivery_hook \<Rightarrow>
     item_outcome \<times> ('s, 'd) flow_state" where
  "recv_group_leave S C F r w net env deliver =
     ok_else Rejected w (open_envelope C (fc_claims F) (rc_identity r) env) (\<lambda>(from, bytes).
     if is_blocked (rc_blocked r) (env_user_id env) then (Rejected, w)
     else case json_from_slice (fc_leave F) bytes of
        None \<Rightarrow> (Rejected, w)
      | Some payload \<Rightarrow>
          if env_user_id env = rec_user_id (s_record (rc_sender_record r)) then (Rejected, w)
          else case groups_load S (fc_groups F) (fl_store w) (glp_group_id payload) of
              Err _ \<Rightarrow> (Retry, w)
            | Ok None \<Rightarrow> (Accepted, w)
            | Ok (Some stored) \<Rightarrow>
                (if \<not> list_ex (\<lambda>m. gmem_user_id m = env_user_id env) (sg_members stored) then (Rejected, w)
                 else let stored = stored\<lparr>sg_members := filter (\<lambda>m. gmem_user_id m \<noteq> env_user_id env) (sg_members stored)\<rparr>
                   in ok_else Retry w (group_import C (sg_state stored)) (\<lambda>session.
                     let session = drop_sender_keys (\<lambda>s. gs_user_id s = env_user_id env) (sg_senders stored) session;
                         stored = stored\<lparr>sg_senders := filter (\<lambda>s. gs_user_id s \<noteq> env_user_id env) (sg_senders stored)\<rparr>;
                         (session, p) = group_rotate (fl_platform w) session;
                         w = w\<lparr>fl_platform := p\<rparr>;
                         stored = stored\<lparr>sg_state := group_export session\<rparr>
                     in ok_elseS Retry w (groups_save S (fc_groups F) (fl_store w) stored) (\<lambda>_ w.
                        let ((res, stored), w) = distribute_group_key S C F r w net stored session (sg_members stored) deliver
                        in ok_else Retry w res (\<lambda>_.
                           (Accepted, emit (GroupLeftEvent (sg_id stored) (sg_name stored) from) w))))))"

definition process_item ::
    "'s storage \<Rightarrow> crypto \<Rightarrow> flow_codecs \<Rightarrow> recv_ctx \<Rightarrow> ('s, 'd) flow_state \<Rightarrow> flow_net \<Rightarrow> mail_item \<Rightarrow> ('d, 's) delivery_hook \<Rightarrow>
     item_outcome \<times> ('s, 'd) flow_state" where
  "process_item S C F r w net item deliver = (case item of
      DirectItem env \<Rightarrow> recv_direct S C F r w env
    | GroupInvite env \<Rightarrow> recv_group_invite S C F r w net env deliver
    | GroupText group_id message \<Rightarrow> recv_group_text S C F r w group_id message
    | GroupLeave env \<Rightarrow> recv_group_leave S C F r w net env deliver)"

end
