(* ===== verification/FlowSafety.thy ===== *)
theory FlowSafety
  imports Flow
begin

text \<open>
  Security and functional results about the orchestration of \<open>Flow\<close>: the trust chokepoint, the
  authenticity of everything that has an effect, delivery of a message once, exclusion of departed
  group members, and the recipients of group traffic.
\<close>

section \<open>Combinators\<close>

lemma ok_else_simps [simp, result_simps]:
  "ok_else out w (Ok a) f = f a" "ok_else out w (Err e) f = (out, w)"
  by (simp_all add: ok_else_def)

lemma ok_elseS_simps [simp, result_simps]:
  "ok_elseS out w (Ok a, st) g = g a (w\<lparr>fl_store := st\<rparr>)" "ok_elseS out w (Err e, st) g = (out, w\<lparr>fl_store := st\<rparr>)"
  by (simp_all add: ok_elseS_def)

text \<open>What it means that a run got past a guard: it ended in an outcome the guard does not give.\<close>

lemma ok_else_past:
  "ok_else out w r f = (res, w') \<Longrightarrow> res \<noteq> out \<or> w' \<noteq> w \<Longrightarrow> \<exists>a. r = Ok a \<and> f a = (res, w')"
  by (cases r) auto

lemma ok_elseS_past:
  "ok_elseS out w rs f = (res, w') \<Longrightarrow> res \<noteq> out \<Longrightarrow> \<exists>a st. rs = (Ok a, st) \<and> f a (w\<lparr>fl_store := st\<rparr>) = (res, w')"
  by (cases rs; cases "fst rs") (auto simp: ok_elseS_def)

lemma emit_simps [simp]:
  "fl_store (emit ev w) = fl_store w" "fl_events (emit ev w) = fl_events w @ [ev]"
  "fl_platform (emit ev w) = fl_platform w" "fl_host (emit ev w) = fl_host w"
  by (simp_all add: emit_def)

lemma flow_now_simps [simp]:
  "fl_store (snd (flow_now w)) = fl_store w" "fl_events (snd (flow_now w)) = fl_events w" "fl_host (snd (flow_now w)) = fl_host w"
  by (simp_all add: flow_now_def split_def Let_def)

section \<open>The trust chokepoint\<close>

lemma resolve_record_Ok:
  assumes "resolve_record S C F st net h = (Ok (h', r), st')"
  shows "handle_new h = Ok h'" "net_lookup net h' = Ok r" "signed_record_verify C (fc_claims F) r = Ok ()"
    "verified_level S (fc_verified F) (fc_contacts F) st (rec_user_id (s_record r)) (rec_wallet (s_record r)) \<noteq> Changed"
    "check_and_pin S C (fc_pins F) st (rec_user_id (s_record r)) r = (Ok True, st')"
  using assms by (auto simp: resolve_record_def result_elims split: if_splits)

section \<open>What an accepted item proves\<close>

definition envelope_accepted :: "crypto \<Rightarrow> flow_codecs \<Rightarrow> recv_ctx \<Rightarrow> envelope \<Rightarrow> bool" where
  "envelope_accepted C F r env \<longleftrightarrow> (\<exists>from bytes. open_envelope C (fc_claims F) (rc_identity r) env = Ok (from, bytes))
     \<and> signed_record_verify C (fc_claims F) (env_sender_record env) = Ok () \<and> env_user_id env \<notin> set (rc_blocked r)"

definition group_text_accepted ::
    "'s storage \<Rightarrow> crypto \<Rightarrow> flow_codecs \<Rightarrow> recv_ctx \<Rightarrow> 's \<Rightarrow> string \<Rightarrow> group_message \<Rightarrow> bool" where
  "group_text_accepted S C F r st group_id message \<longleftrightarrow> (\<exists>stored who rec session plaintext.
     groups_load S (fc_groups F) st group_id = Ok (Some stored)
     \<and> sender_of stored (gm_sender message) = Some who \<and> gs_user_id who \<notin> set (rc_blocked r)
     \<and> peerbook_get_by_user_id S (fc_book F) st (gs_user_id who) = Ok (Some rec)
     \<and> signed_record_verify C (fc_claims F) rec = Ok () \<and> rec_user_id (s_record rec) = gs_user_id who
     \<and> device_key (rec_device (s_record rec)) = gm_sender message
     \<and> group_import C (sg_state stored) = Ok session \<and> fst (group_decrypt C session message (group_ad group_id)) = Ok plaintext)"

lemma is_blocked_iff: "is_blocked list uid \<longleftrightarrow> uid \<in> set list"
  by (auto simp: is_blocked_def list_ex_iff)

lemma opened_envelope_accepted:
  assumes "open_envelope C (fc_claims F) (rc_identity r) env = Ok (from, bytes)" "\<not> is_blocked (rc_blocked r) (env_user_id env)"
  shows "envelope_accepted C F r env"
  using assms open_envelope_binds [OF assms(1)] by (auto simp: envelope_accepted_def is_blocked_iff)

lemma recv_direct_accepted:
  assumes "recv_direct S C F r w env = (out, w')" "out = Accepted \<or> w' \<noteq> w"
  shows "envelope_accepted C F r env"
proof -
  from ok_else_past [OF assms(1) [unfolded recv_direct_def]] assms(2) obtain a where
    a: "open_envelope C (fc_claims F) (rc_identity r) env = Ok a" by auto
  obtain sender bytes where "a = (sender, bytes)" by fastforce
  with a assms show ?thesis by (intro opened_envelope_accepted) (auto simp: recv_direct_def)
qed

lemma recv_group_invite_accepted:
  assumes "recv_group_invite S C F r w net env deliver = (out, w')" "out = Accepted \<or> w' \<noteq> w"
  shows "envelope_accepted C F r env"
proof -
  from ok_else_past [OF assms(1) [unfolded recv_group_invite_def]] assms(2) obtain a where
    a: "open_envelope C (fc_claims F) (rc_identity r) env = Ok a" by auto
  obtain sender bytes where "a = (sender, bytes)" by fastforce
  with a assms show ?thesis by (intro opened_envelope_accepted) (auto simp: recv_group_invite_def)
qed

lemma recv_group_leave_accepted:
  assumes "recv_group_leave S C F r w net env deliver = (out, w')" "out = Accepted \<or> w' \<noteq> w"
  shows "envelope_accepted C F r env"
proof -
  from ok_else_past [OF assms(1) [unfolded recv_group_leave_def]] assms(2) obtain a where
    a: "open_envelope C (fc_claims F) (rc_identity r) env = Ok a" by auto
  obtain sender bytes where "a = (sender, bytes)" by fastforce
  with a assms show ?thesis by (intro opened_envelope_accepted) (auto simp: recv_group_leave_def)
qed

lemma recv_group_text_cases:
  assumes "recv_group_text S C F r w group_id message = (out, w')"
  obtains "w' = w" "out \<noteq> Accepted"
  | stored who rec session plaintext session' where
      "groups_load S (fc_groups F) (fl_store w) group_id = Ok (Some stored)"
      "sender_of stored (gm_sender message) = Some who" "\<not> is_blocked (rc_blocked r) (gs_user_id who)"
      "user_id_new (gs_user_id who) = Ok (rec_user_id (s_record rec))"
      "peerbook_get_by_user_id S (fc_book F) (fl_store w) (rec_user_id (s_record rec)) = Ok (Some rec)"
      "signed_record_verify C (fc_claims F) rec = Ok ()"
      "device_key (rec_device (s_record rec)) = gm_sender message"
      "group_import C (sg_state stored) = Ok session"
      "group_decrypt C session message (group_ad group_id) = (Ok plaintext, session')"
      "recv_group_plain S F w group_id (stored\<lparr>sg_state := group_export session'\<rparr>) (rec_handle (s_record rec)) plaintext = (out, w')"
proof -
  note run = assms [unfolded recv_group_text_def]
  consider "w' = w" "out \<noteq> Accepted" | stored who where "groups_load S (fc_groups F) (fl_store w) group_id = Ok (Some stored)"
    "sender_of stored (gm_sender message) = Some who" "\<not> is_blocked (rc_blocked r) (gs_user_id who)"
    using run by (auto split: sum.splits option.splits if_splits)
  then show thesis
  proof cases
    case 1
    with that(1) show thesis by blast
  next
    case (2 stored who)
    show thesis
    proof (cases "user_id_new (gs_user_id who)")
      case (Inl e)
      with run 2 that(1) show thesis by simp
    next
      case (Inr uid)
      show thesis
      proof (cases "\<exists>rec. peerbook_get_by_user_id S (fc_book F) (fl_store w) uid = Ok (Some rec) \<and> signed_record_verify C (fc_claims F) rec = Ok ()
          \<and> rec_user_id (s_record rec) = uid \<and> device_key (rec_device (s_record rec)) = gm_sender message")
        case False
        with run 2 Inr that(1) show thesis by (auto simp: is_ok_iff split: sum.splits option.splits if_splits)
      next
        case True
        then obtain rec where rec: "peerbook_get_by_user_id S (fc_book F) (fl_store w) uid = Ok (Some rec)"
          "signed_record_verify C (fc_claims F) rec = Ok ()" "rec_user_id (s_record rec) = uid"
          "device_key (rec_device (s_record rec)) = gm_sender message" by blast
        show thesis
        proof (cases "group_import C (sg_state stored)")
          case (Inl e)
          with run 2 Inr rec that(1) show thesis by simp
        next
          case imp: (Inr session)
          obtain d session' where d: "group_decrypt C session message (group_ad group_id) = (d, session')" by fastforce
          show thesis
          proof (cases d)
            case (Inl e)
            with run 2 Inr rec imp d that(1) show thesis by simp
          next
            case dec: (Inr plaintext)
            with run 2 Inr rec imp d that(2) [of stored who rec session plaintext session'] show thesis by simp
          qed
        qed
      qed
    qed
  qed
qed

lemma recv_group_text_accepted:
  assumes "recv_group_text S C F r w group_id message = (out, w')" "out = Accepted \<or> w' \<noteq> w"
  shows "group_text_accepted S C F r (fl_store w) group_id message"
  using assms(1)
proof (cases rule: recv_group_text_cases)
  case 1
  with assms(2) show ?thesis by simp
next
  case (2 stored who rec session plaintext session')
  then have "rec_user_id (s_record rec) = gs_user_id who" by (auto simp: user_id_new_def split: if_splits)
  with 2 show ?thesis unfolding group_text_accepted_def is_blocked_iff
    by (intro exI [of _ stored] exI [of _ who] exI [of _ rec] exI [of _ session] exI [of _ plaintext]) simp
qed

section \<open>Recipients of group traffic\<close>

text \<open>A delivery hook that also records its calls, with the store each call was given.\<close>

type_synonym 's hook_call = "'s \<times> handle \<times> signed_record \<times> device \<times> mail_item"

definition logged :: "('d, 's) delivery_hook \<Rightarrow> ('d \<times> 's hook_call list, 's) delivery_hook" where
  "logged deliver host st h r d item plaintext =
     (let (path, st', host') = deliver (fst host) st h r d item plaintext
      in (path, st', (host', snd host @ [(st, h, r, d, item)])))"

text \<open>A call goes to a verified device of one of the members, other than this device, whose wallet
  is our own or is pinned or verified in the store at that moment.\<close>

definition trusted_call :: "'s storage \<Rightarrow> crypto \<Rightarrow> flow_codecs \<Rightarrow> identity \<Rightarrow> group_member list \<Rightarrow> 's hook_call \<Rightarrow> bool" where
  "trusted_call S C F me members call = (case call of (st, h, r, d, item) \<Rightarrow>
     signed_record_verify C (fc_claims F) r = Ok () \<and> rec_user_id (s_record r) \<in> gmem_user_id ` set members
     \<and> h = rec_handle (s_record r) \<and> d = rec_device (s_record r) \<and> device_key d \<noteq> device_public C me
     \<and> (rec_wallet (s_record r) = wallet_public C me
        \<or> verified_level S (fc_verified F) (fc_contacts F) st (rec_user_id (s_record r)) (rec_wallet (s_record r)) \<in> {Verified, Pinned}))"

text \<open>What the orchestration relies on of the host's closure: it leaves the store usable.\<close>

definition hook_keeps :: "('s \<Rightarrow> bool) \<Rightarrow> ('d, 's) delivery_hook \<Rightarrow> bool" where
  "hook_keeps I deliver \<longleftrightarrow> (\<forall>d st h r dev item pt. I st \<longrightarrow> I (fst (snd (deliver d st h r dev item pt))))"

lemma hook_keeps_logged: "hook_keeps I deliver \<Longrightarrow> hook_keeps I (logged deliver)"
  by (simp add: hook_keeps_def logged_def split_def Let_def)

lemma trust_keys [simp]:
  "verified_key a \<noteq> antirollback_key b" "contact_key a \<noteq> antirollback_key b" "CONTACTS_INDEX_KEY \<noteq> antirollback_key b"
  "verified_key a \<noteq> PEERBOOK_KEY" "contact_key a \<noteq> PEERBOOK_KEY" "CONTACTS_INDEX_KEY \<noteq> PEERBOOK_KEY"
  by (simp_all add: verified_key_def contact_key_def CONTACTS_INDEX_KEY_def antirollback_key_def PEERBOOK_KEY_def str_bytes_def)

lemma verified_level_cong:
  assumes same: "\<And>k. (\<forall>u. k \<noteq> antirollback_key u) \<Longrightarrow> k \<noteq> PEERBOOK_KEY \<Longrightarrow> st_get S st k = st_get S st' k"
  shows "verified_level S c cc st uid wallet = verified_level S c cc st' uid wallet"
proof -
  have load: "contacts_load S cc st n = contacts_load S cc st' n" for n
    by (simp add: contacts_load_def io_get_def same)
  have "contacts_search S cc st p names = contacts_search S cc st' p names" for p names
  proof (induction names)
    case (Cons n names)
    then show ?case unfolding contacts_search.simps load by (simp only:)
  qed simp
  then have "contacts_search S cc st p = contacts_search S cc st' p" for p by (simp add: fun_eq_iff)
  then have "by_user_id S cc st uid = by_user_id S cc st' uid"
    by (simp add: by_user_id_def contacts_list_names_def io_get_def same)
  moreover have "verified_get S c st uid = verified_get S c st' uid"
    by (simp add: verified_get_def io_get_def same)
  ultimately show ?thesis unfolding verified_level_def by (simp only:)
qed

lemma resolve_group_target_store:
  "snd (resolve_group_target S C F me st net m) = st
   \<or> (\<exists>uid r. snd (resolve_group_target S C F me st net m) = snd (check_and_pin S C (fc_pins F) st uid r))"
proof (cases "user_id_new (gmem_user_id m)")
  case uid: (Inr uid)
  show ?thesis
  proof (cases "net_lookup_user_id net uid")
    case (Inr r)
    obtain b st' where "check_and_pin S C (fc_pins F) st (rec_user_id (s_record r)) r = (b, st')" by fastforce
    with uid Inr show ?thesis
      by (cases b) (auto simp: resolve_group_target_def Let_def split: bool.split intro!: exI [of _ "rec_user_id (s_record r)"] exI [of _ r])
  qed (simp add: resolve_group_target_def uid)
qed (simp add: resolve_group_target_def)

lemma fold_note_key_share:
  "sg_members (fold (\<lambda>share g. note_key_share g share) shares g) = sg_members g"
  "sg_id (fold (\<lambda>share g. note_key_share g share) shares g) = sg_id g"
  "sg_senders (fold (\<lambda>share g. note_key_share g share) shares g) = sg_senders g"
  "sg_state (fold (\<lambda>share g. note_key_share g share) shares g) = sg_state g"
  by (induction shares arbitrary: g) (simp_all add: note_key_share_def)

text \<open>The recorded calls of a run extend the earlier ones, and the new ones are trusted.\<close>

definition calls_ok ::
    "'s storage \<Rightarrow> ('s \<Rightarrow> bool) \<Rightarrow> crypto \<Rightarrow> flow_codecs \<Rightarrow> identity \<Rightarrow> group_member list \<Rightarrow>
     ('s, 'd \<times> 's hook_call list) flow_state \<Rightarrow> ('s, 'd \<times> 's hook_call list) flow_state \<Rightarrow> bool" where
  "calls_ok S I C F me members w w' \<longleftrightarrow> I (fl_store w') \<and>
     (\<exists>new. snd (fl_host w') = snd (fl_host w) @ new \<and> (\<forall>call \<in> set new. trusted_call S C F me members call))"

context kv_store_puts
begin

lemma resolve_group_target_inv:
  assumes "inv st"
  shows "inv (snd (resolve_group_target S C F me st net m))"
proof -
  have "inv (snd (check_and_pin S C P st uid r))" for P uid r
    using check_and_pin_any [OF assms surjective_pairing] by blast
  with assms resolve_group_target_store [of S C F me st net m] show ?thesis by fastforce
qed

lemma resolve_group_target_Some:
  assumes "inv st" "resolve_group_target S C F me st net m = (Some (h, r), st')"
  shows "signed_record_verify C (fc_claims F) r = Ok ()" "rec_user_id (s_record r) = gmem_user_id m" "h = rec_handle (s_record r)"
    "rec_wallet (s_record r) = wallet_public C me
       \<or> verified_level S (fc_verified F) (fc_contacts F) st' (rec_user_id (s_record r)) (rec_wallet (s_record r)) \<in> {Verified, Pinned}"
proof -
  let ?lvl = "\<lambda>st. verified_level S (fc_verified F) (fc_contacts F) st (rec_user_id (s_record r)) (rec_wallet (s_record r))"
  from assms(2) have facts: "signed_record_verify C (fc_claims F) r = Ok ()" "rec_user_id (s_record r) = gmem_user_id m" "h = rec_handle (s_record r)"
    "rec_wallet (s_record r) = wallet_public C me \<or> ?lvl st \<noteq> Changed \<and> ?lvl st \<noteq> Unverified"
    and pin: "check_and_pin S C (fc_pins F) st (rec_user_id (s_record r)) r = (Ok True, st')"
    by (auto simp: resolve_group_target_def ok_else_def Let_def is_ok_iff user_id_new_def split: sum.splits prod.splits bool.splits if_splits)
  have "?lvl st' = ?lvl st"
  proof (rule verified_level_cong)
    fix k
    assume "\<forall>u. k \<noteq> antirollback_key u"
    then show "st_get S st' k = st_get S st k" using check_and_pin_any [OF assms(1) pin, of k] by blast
  qed
  with facts show "signed_record_verify C (fc_claims F) r = Ok ()" "rec_user_id (s_record r) = gmem_user_id m" "h = rec_handle (s_record r)"
    "rec_wallet (s_record r) = wallet_public C me \<or> ?lvl st' \<in> {Verified, Pinned}"
    by (auto intro: trust_level.exhaust [of "?lvl st"])
qed

text \<open>One delivery to a resolved target.\<close>

lemma run_hook_inv:
  "hook_keeps inv deliver \<Longrightarrow> inv (fl_store w) \<Longrightarrow> run_hook deliver w h r d item pt = (path, w') \<Longrightarrow> inv (fl_store w')"
  by (auto simp: run_hook_def hook_keeps_def split_def Let_def)

lemma run_logged:
  "run_hook (logged deliver) w h r d item pt = (path, w') \<Longrightarrow> snd (fl_host w') = snd (fl_host w) @ [(fl_store w, h, r, d, item)]"
  by (auto simp: run_hook_def logged_def split_def Let_def)

lemma calls_ok_refl: "inv (fl_store w) \<Longrightarrow> calls_ok S inv C F me members w w"
  by (simp add: calls_ok_def)

lemma calls_ok_trans: "calls_ok S inv C F me members w w1 \<Longrightarrow> calls_ok S inv C F me members w1 w2 \<Longrightarrow> calls_ok S inv C F me members w w2"
  unfolding calls_ok_def by (elim conjE exE) (simp, blast)

lemma calls_ok_quiet:
  "inv (fl_store w') \<Longrightarrow> snd (fl_host w') = snd (fl_host w) \<Longrightarrow> calls_ok S inv C F me members w w'"
  by (simp add: calls_ok_def)

lemma calls_ok_deliver:
  assumes "hook_keeps inv deliver" "inv (fl_store w)" "resolve_group_target S C F me (fl_store w) net m = (Some (h, r), st)" "m \<in> set members"
    and "device_key (rec_device (s_record r)) \<noteq> device_public C me" "fl_store w1 = st" "fl_host w1 = fl_host w"
    and "run_hook (logged deliver) w1 h r (rec_device (s_record r)) item pt = (path, w')"
  shows "calls_ok S inv C F me members w w'"
proof -
  have inv: "inv st" using resolve_group_target_inv [OF assms(2), of C F me net m] assms(3) by simp
  note target = resolve_group_target_Some [OF assms(2,3)]
  have "inv (fl_store w')" using run_hook_inv [OF hook_keeps_logged [OF assms(1)] _ assms(8)] inv assms(6) by simp
  moreover have "snd (fl_host w') = snd (fl_host w) @ [(st, h, r, rec_device (s_record r), item)]"
    using run_logged [OF assms(8)] assms(6,7) by simp
  moreover have "trusted_call S C F me members (st, h, r, rec_device (s_record r), item)"
    using target assms(4,5) by (simp add: trusted_call_def)
  ultimately show ?thesis by (simp add: calls_ok_def)
qed

lemma distribute_loop_calls:
  assumes "hook_keeps inv deliver" "inv (fl_store w)" "set targets \<subseteq> set members"
    and "distribute_loop S C F me w net h0 sr dist pt targets known (logged deliver) shared = (shared', w')"
  shows "calls_ok S inv C F me members w w'"
  using assms(2-4)
proof (induction targets arbitrary: w shared)
  case Nil
  then show ?case by (simp add: calls_ok_refl)
next
  case (Cons t targets)
  obtain found st where res: "resolve_group_target S C F me (fl_store w) net t = (found, st)" by fastforce
  have invst: "inv st" using resolve_group_target_inv [OF Cons.prems(1), of C F me net t] res by simp
  have quiet: "calls_ok S inv C F me members w w1" "inv (fl_store w1)" if "fl_store w1 = st" "fl_host w1 = fl_host w" for w1
    using that invst by (simp_all add: calls_ok_quiet)
  have rest: "calls_ok S inv C F me members w w'"
    if "distribute_loop S C F me w1 net h0 sr dist pt targets known (logged deliver) shared1 = (shared', w')" "calls_ok S inv C F me members w w1" for w1 shared1
    using calls_ok_trans [OF that(2)] Cons.IH [OF _ _ that(1)] that(2) Cons.prems(2) by (simp add: calls_ok_def [of S inv C F me members w])
  show ?case
  proof (cases found)
    case None
    with Cons.prems(3) res have "distribute_loop S C F me (w\<lparr>fl_store := st\<rparr>) net h0 sr dist pt targets known (logged deliver) shared = (shared', w')" by simp
    then show ?thesis by (rule rest) (simp add: quiet)
  next
    case (Some hr)
    obtain h r where hr: "hr = (h, r)" by fastforce
    let ?d = "rec_device (s_record r)"
    obtain env p where seal: "seal_to_with_record C (fl_platform (w\<lparr>fl_store := st\<rparr>)) me h0 sr ?d pt = (env, p)" by fastforce
    show ?thesis
    proof (cases "device_key ?d = device_public C me \<or> list_ex (\<lambda>share. ks_user_id share = gmem_user_id t
        \<and> ks_device_slot share = device_slot (device_key ?d) \<and> ks_signing_public share = skd_signing_public dist) known")
      case True
      with Cons.prems(3) res Some hr have "distribute_loop S C F me (w\<lparr>fl_store := st\<rparr>) net h0 sr dist pt targets known (logged deliver) shared = (shared', w')"
        by (auto simp: Let_def split: if_splits)
      then show ?thesis by (rule rest) (simp add: quiet)
    next
      case False
      show ?thesis
      proof (cases env)
        case (Inl e)
        with Cons.prems(3) res Some hr False seal
        have "distribute_loop S C F me (w\<lparr>fl_store := st, fl_platform := p\<rparr>) net h0 sr dist pt targets known (logged deliver) shared = (shared', w')"
          by (simp add: Let_def)
        then show ?thesis by (rule rest) (simp add: quiet)
      next
        case (Inr e)
        obtain path w1 where run: "run_hook (logged deliver) (w\<lparr>fl_store := st, fl_platform := p\<rparr>) h r ?d (GroupInvite e) (Some pt) = (path, w1)" by fastforce
        obtain shared1 where "distribute_loop S C F me w1 net h0 sr dist pt targets known (logged deliver) shared1 = (shared', w')"
          using Cons.prems(3) res Some hr False seal Inr run by (auto simp: Let_def split: if_splits)
        then show ?thesis
        proof (rule rest)
          show "calls_ok S inv C F me members w w1"
            using calls_ok_deliver [where m = t and net = net and C = C and F = F and me = me and members = members, OF assms(1) Cons.prems(1) _ _ _ _ _ run] res Some hr False Cons.prems(2) by simp
        qed
      qed
    qed
  qed
qed

lemma fan_out_calls:
  assumes "hook_keeps inv deliver" "inv (fl_store w)" "set targets \<subseteq> set members"
    and "fan_out S C F me w net item targets (logged deliver) out = (out', w')"
  shows "calls_ok S inv C F me members w w'"
  using assms(2-4)
proof (induction targets arbitrary: w out)
  case Nil
  then show ?case by (simp add: calls_ok_refl)
next
  case (Cons t targets)
  obtain found st where res: "resolve_group_target S C F me (fl_store w) net t = (found, st)" by fastforce
  have invst: "inv st" using resolve_group_target_inv [OF Cons.prems(1), of C F me net t] res by simp
  have quiet: "calls_ok S inv C F me members w (w\<lparr>fl_store := st\<rparr>)" using invst by (simp add: calls_ok_quiet)
  have rest: "calls_ok S inv C F me members w w'"
    if "fan_out S C F me w1 net item targets (logged deliver) out1 = (out', w')" "calls_ok S inv C F me members w w1" for w1 out1
    using calls_ok_trans [OF that(2)] Cons.IH [OF _ _ that(1)] that(2) Cons.prems(2) by (simp add: calls_ok_def [of S inv C F me members w])
  show ?case
  proof (cases "\<exists>h r. found = Some (h, r) \<and> device_key (rec_device (s_record r)) \<noteq> device_public C me")
    case False
    then have "fan_out S C F me (w\<lparr>fl_store := st\<rparr>) net item targets (logged deliver) out = (out', w')"
      using Cons.prems(3) res by (cases found) (auto simp: Let_def)
    then show ?thesis using quiet by (rule rest)
  next
    case True
    then obtain h r where hr: "found = Some (h, r)" "device_key (rec_device (s_record r)) \<noteq> device_public C me" by blast
    obtain path w1 where run: "run_hook (logged deliver) (w\<lparr>fl_store := st\<rparr>) h r (rec_device (s_record r)) item None = (path, w1)" by fastforce
    have "fan_out S C F me w1 net item targets (logged deliver) (tally path out) = (out', w')"
      using Cons.prems(3) res hr run by (simp add: Let_def)
    then show ?thesis
    proof (rule rest)
      show "calls_ok S inv C F me members w w1"
        using calls_ok_deliver [where m = t and net = net and C = C and F = F and me = me and members = members, OF assms(1) Cons.prems(1) _ _ _ _ _ run] res hr Cons.prems(2) by simp
    qed
  qed
qed

lemma groups_save_load:
  assumes "inv st" "group_codecs_ok c" "groups_save S c st g = (Ok (), st')"
  shows "inv st'" "groups_load S c st' (sg_id g) = Ok (Some g)"
proof -
  let ?put = "Put (group_key (sg_id g)) (wire_encode (c_group c) g)"
  from assms(3) obtain ids where ids: "groups_list S c st = Ok ids" by (auto simp: groups_save_def result_elims)
  let ?idx = "if sg_id g \<notin> set ids then [Put GROUPS_INDEX_KEY (wire_encode (c_group_ids c) (ids @ [sg_id g]))] else []"
  have run: "st_apply_batch S st (?put # ?idx) = (Ok (), st')"
    using assms(3) ids by (cases "sg_id g \<in> set ids") (simp_all add: groups_save_def Let_def)
  show "inv st'" by (rule batch_inv [OF assms(1) run])
  have "st_get S st' (group_key (sg_id g)) = Ok (Some (wire_encode (c_group c) g))"
    using batch_get [OF assms(1) run] by (simp split: if_splits)
  with assms(2) show "groups_load S c st' (sg_id g) = Ok (Some g)" by (simp add: groups_load_def io_get_def group_codecs_ok_def)
qed

lemma walk_segments_inv:
  "inv st \<Longrightarrow> walk_segments S c st p i l changed f is = (Ok out, st') \<Longrightarrow> inv st'"
proof (induction "is" arbitrary: st out)
  case (Cons index rest)
  then obtain seg st1 out1 where seg: "(if changed seg then io_put S st (seg_key p i index) (wire_encode c (f seg)) else (Ok (), st)) = (Ok (), st1)"
    and rest: "walk_segments S c st1 p i l changed f rest = (Ok out1, st')" by (auto simp: result_elims)
  have "inv st1" using seg Cons.prems(1) put_inv by (auto split: if_splits)
  from Cons.IH [OF this rest] show ?case .
qed simp

lemma own_group_edit_inv: "inv st \<Longrightarrow> own_group_edit S F st gid me app = (Ok (), st') \<Longrightarrow> inv st'"
  using walk_segments_inv
  by (auto simp: own_group_edit_def group_edit_def group_delete_def edit_segments_def delete_segments_def result_elims split: body.splits)

lemma group_send_calls:
  assumes "hook_keeps inv deliver" "inv (fl_store w)" "group_codecs_ok (fc_groups F)"
    and "group_send S C F me w net h sr g app (logged deliver) = (res, w')"
  shows "\<exists>new. snd (fl_host w') = snd (fl_host w) @ new \<and> (\<forall>call \<in> set new. trusted_call S C F me (sg_members g) call)"
proof (cases "group_import C (sg_state g)")
  case (Inl e)
  with assms(4) show ?thesis by (simp add: group_send_def)
next
  case (Inr session)
  define log_ok where "log_ok w' \<longleftrightarrow> (\<exists>new. snd (fl_host w') = snd (fl_host w) @ new \<and> (\<forall>call \<in> set new. trusted_call S C F me (sg_members g) call))"
    for w' :: "('a, 'b \<times> 'a hook_call list) flow_state"
  obtain shared w1 where d: "distribute_key_inner S C F me w net h sr (sg_id g) (sg_name g) (group_distribution C session)
      (sg_members g) (sg_members g) (sg_key_shares g) (logged deliver) = (shared, w1)" by fastforce
  have c1: "calls_ok S inv C F me (sg_members g) w w1"
    using d distribute_loop_calls [OF assms(1,2) subset_refl] assms(2)
    by (auto simp: distribute_key_inner_def calls_ok_refl split: option.splits)
  let ?g1 = "fold (\<lambda>share g. note_key_share g share) shared g"
  have g1: "sg_members ?g1 = sg_members g" "sg_id ?g1 = sg_id g" by (simp_all add: fold_note_key_share)
  obtain s1 st1 where s1: "(if shared = [] then (Ok (), fl_store w1) else groups_save S (fc_groups F) (fl_store w1) ?g1) = (s1, st1)" by fastforce
  obtain e2 st2 where e2: "own_group_edit S F st1 (sg_id g) h app = (e2, st2)" by fastforce
  obtain gm session' where enc: "group_encrypt C session (app_encode (fc_app F) app) (group_ad (sg_id g)) = (gm, session')" by fastforce
  let ?g2 = "?g1\<lparr>sg_state := group_export session'\<rparr>"
  obtain s3 st3 where s3: "groups_save S (fc_groups F) st2 ?g2 = (s3, st3)" by fastforce
  obtain out w4 where f: "fan_out S C F me (w1\<lparr>fl_store := st3\<rparr>) net (GroupText (sg_id g) gm) (sg_members g) (logged deliver) (new_outcome (msg_id app)) = (out, w4)" by fastforce
  note run = assms(4) [unfolded group_send_def Inr sum.case d Let_def prod.case s1]
  have l1: "log_ok (w1\<lparr>fl_store := st\<rparr>)" for st using c1 by (simp add: log_ok_def calls_ok_def)
  have "log_ok w'"
  proof (cases "\<exists>u1 u2 u3. s1 = Ok u1 \<and> e2 = Ok u2 \<and> s3 = Ok u3")
    case False
    then obtain st where "w' = w1\<lparr>fl_store := st\<rparr>"
      using run e2 enc s3 by (cases s1; cases e2; cases s3) auto
    with l1 show ?thesis by simp
  next
    case True
    then have "inv st1" using s1 c1 groups_save_load(1) [OF _ assms(3)] by (auto simp: calls_ok_def split: if_splits)
    with True e2 own_group_edit_inv have "inv st2" by auto
    with True s3 groups_save_load(1) [OF _ assms(3)] have "inv st3" by auto
    then have "calls_ok S inv C F me (sg_members g) (w1\<lparr>fl_store := st3\<rparr>) w4"
      using fan_out_calls [OF assms(1) _ subset_refl f] by simp
    then have "log_ok w4" using c1 unfolding log_ok_def calls_ok_def by (elim conjE exE) (simp, blast)
    moreover have "\<exists>st. w' = w4\<lparr>fl_store := st\<rparr> \<or> w' = w4"
      using run True e2 enc s3 f g1 by (auto split: if_splits sum.splits prod.splits)
    ultimately show ?thesis by (auto simp: log_ok_def)
  qed
  then show ?thesis by (simp add: log_ok_def)
qed

lemma run_hook_snd_inv:
  "hook_keeps inv deliver \<Longrightarrow> inv (fl_store w) \<Longrightarrow> inv (fl_store (snd (run_hook deliver w h r d item pt)))"
  by (auto simp: run_hook_def hook_keeps_def split_def Let_def)

lemma distribute_loop_inv:
  assumes "hook_keeps inv deliver" "inv (fl_store w)"
  shows "inv (fl_store (snd (distribute_loop S C F me w net h0 sr dist pt targets known deliver shared)))"
  using assms(2)
proof (induction targets arbitrary: w shared)
  case (Cons t targets)
  note res = resolve_group_target_inv [OF Cons.prems, of C F me net t]
  then show ?case
    using Cons.IH run_hook_snd_inv [OF assms(1)]
    by (simp add: Let_def split_def split: option.split sum.split)
qed simp

lemma distribute_group_key_spec:
  assumes "hook_keeps inv deliver" "inv (fl_store w)" "group_codecs_ok (fc_groups F)"
    and "distribute_group_key S C F r w net stored session targets deliver = ((Ok (), stored'), w')"
  shows "inv (fl_store w')" "groups_load S (fc_groups F) (fl_store w') (sg_id stored) = Ok (Some stored')"
    "sg_id stored' = sg_id stored" "sg_members stored' = sg_members stored" "sg_senders stored' = sg_senders stored" "sg_state stored' = sg_state stored"
proof -
  obtain shared w1 where d: "distribute_key S C F (rc_identity r) w net (rc_me r) (rc_sender_record r) (sg_id stored) (sg_name stored)
      (group_distribution C session) (sg_members stored) targets deliver = (shared, w1)" by fastforce
  have inv1: "inv (fl_store w1)"
    using distribute_loop_inv [OF assms(1,2), of C F "rc_identity r" net "rc_me r" "rc_sender_record r"] d assms(2)
    by (auto simp: distribute_key_def distribute_key_inner_def split: option.splits) (metis snd_conv)
  from assms(4) d have stored': "stored' = fold (\<lambda>share g. note_key_share g share) shared stored"
    and save: "groups_save S (fc_groups F) (fl_store w1) stored' = (Ok (), fl_store w')"
    by (auto simp: distribute_group_key_def Let_def split: prod.splits)
  note same = fold_note_key_share [of shared stored, folded stored']
  from groups_save_load [OF inv1 assms(3) save] same
  show "inv (fl_store w')" "groups_load S (fc_groups F) (fl_store w') (sg_id stored) = Ok (Some stored')"
    "sg_id stored' = sg_id stored" "sg_members stored' = sg_members stored" "sg_senders stored' = sg_senders stored" "sg_state stored' = sg_state stored"
    by simp_all
qed

lemma recv_group_leave_spec:
  assumes "hook_keeps inv deliver" "inv (fl_store w)" "group_codecs_ok (fc_groups F)"
    and "open_envelope C (fc_claims F) (rc_identity r) env = Ok (h, bytes)" "json_from_slice (fc_leave F) bytes = Some payload"
    and "groups_load S (fc_groups F) (fl_store w) (glp_group_id payload) = Ok (Some stored)" "sg_id stored = glp_group_id payload"
    and "recv_group_leave S C F r w net env deliver = (Accepted, w')"
  obtains stored' session where "groups_load S (fc_groups F) (fl_store w') (sg_id stored) = Ok (Some stored')"
    "sg_members stored' = filter (\<lambda>m. gmem_user_id m \<noteq> env_user_id env) (sg_members stored)"
    "sg_senders stored' = filter (\<lambda>s. gs_user_id s \<noteq> env_user_id env) (sg_senders stored)"
    "group_import C (sg_state stored) = Ok session"
    "sg_state stored' = group_export (fst (group_rotate (fl_platform w)
        (drop_sender_keys (\<lambda>s. gs_user_id s = env_user_id env) (sg_senders stored) session)))"
proof -
  let ?uid = "env_user_id env"
  let ?s1 = "stored\<lparr>sg_members := filter (\<lambda>m. gmem_user_id m \<noteq> ?uid) (sg_members stored)\<rparr>"
  have guards: "\<not> is_blocked (rc_blocked r) ?uid" "?uid \<noteq> rec_user_id (s_record (rc_sender_record r))"
    "list_ex (\<lambda>m. gmem_user_id m = ?uid) (sg_members stored)"
    using assms(4-6,8) by (auto simp: recv_group_leave_def split: if_splits)
  obtain session where imp: "group_import C (sg_state stored) = Ok session"
    using assms(4-6,8) guards by (cases "group_import C (sg_state stored)") (auto simp: recv_group_leave_def)
  let ?dropped = "drop_sender_keys (\<lambda>s. gs_user_id s = ?uid) (sg_senders stored) session"
  obtain session' p where rot: "group_rotate (fl_platform w) ?dropped = (session', p)" by fastforce
  let ?s2 = "?s1\<lparr>sg_senders := filter (\<lambda>s. gs_user_id s \<noteq> ?uid) (sg_senders stored), sg_state := group_export session'\<rparr>"
  obtain res st where save: "groups_save S (fc_groups F) (fl_store w) ?s2 = (res, st)" by fastforce
  obtain d stored' w2 where dist: "distribute_group_key S C F r (w\<lparr>fl_platform := p, fl_store := st\<rparr>) net ?s2 session' (sg_members ?s2) deliver = ((d, stored'), w2)"
    by (metis surj_pair)
  have ok: "res = Ok ()" using assms(4-6,8) guards imp rot save by (cases res) (auto simp: recv_group_leave_def Let_def)
  have d: "d = Ok ()" "w' = emit (GroupLeftEvent (sg_id stored') (sg_name stored') h) w2"
    using assms(4-6,8) guards imp rot save ok dist by (cases d; auto simp: recv_group_leave_def Let_def)+
  have inv1: "inv st" using groups_save_load(1) [OF assms(2,3) save [unfolded ok]] .
  note spec = distribute_group_key_spec [OF assms(1) _ assms(3) dist [unfolded d(1)]]
  show thesis
    by (rule that [of stored' session]) (use spec inv1 d(2) imp rot in simp_all)
qed

end

lemma drop_sender_keys_members:
  "map_of (g_members (drop_sender_keys p senders session)) =
     (\<lambda>sid. if \<exists>s \<in> set senders. p s \<and> gs_sender_id s = sid then None else map_of (g_members session) sid)"
  by (induction senders arbitrary: session) (auto simp: drop_sender_keys_def remove_member_def fun_eq_iff)

lemma map_of_none_exported: "map_of (g_members g) sid = None \<Longrightarrow> sid \<notin> ms_id ` set (gs_members (group_export g))"
  by (force simp: group_export_def map_of_eq_None_iff)

section \<open>Receiving a message once\<close>

lemma history_vs_settings [simp]:
  "seg_key HIST i n \<noteq> NAMES_KEY" "meta_key HIST i \<noteq> NAMES_KEY" "seg_key HIST i n \<noteq> attachment_key a" "meta_key HIST i \<noteq> attachment_key a"
  by (simp_all add: seg_key_def meta_key_def HIST_def NAMES_KEY_def attachment_key_def str_bytes_def)

definition is_content :: "app_message \<Rightarrow> bool" where
  "is_content app = (case msg_body app of Receipt _ _ \<Rightarrow> False | Edit _ _ \<Rightarrow> False | BodyDelete _ \<Rightarrow> False | _ \<Rightarrow> True)"

definition attachment_events :: "app_message \<Rightarrow> flow_event list" where
  "attachment_events app = (case attachment_of app of None \<Rightarrow> []
    | Some a \<Rightarrow> [AttachmentEvent (att_id a) (att_name a) (att_mime a) (att_data a)])"

lemma emit_attachment_simps [simp]:
  "fl_store (emit_attachment (attachment_of app) w) = fl_store w"
  "fl_events (emit_attachment (attachment_of app) w) = fl_events w @ attachment_events app"
  by (simp_all add: emit_attachment_def attachment_events_def split: option.split)

lemma history_load_cong:
  "(\<And>k. k \<noteq> NAMES_KEY \<Longrightarrow> (\<forall>a. k \<noteq> attachment_key a) \<Longrightarrow> st_get S st' k = st_get S st k) \<Longrightarrow>
   history_load S H st' uid = history_load S H st uid \<and> seg_count S (c_meta H) st' HIST uid = seg_count S (c_meta H) st HIST uid"
  unfolding history_load_def
  by (intro conjI load_segments_cong) (auto simp: io_get_def seg_count_def)

lemma recv_direct_content:
  assumes "open_envelope C (fc_claims F) (rc_identity r) env = Ok (h, bytes)" "\<not> is_blocked (rc_blocked r) (env_user_id env)"
    and "app_decode (fc_app F) bytes = Ok app" "is_content app" "\<not> is_expired app (fst (now_unix_secs (fl_platform w)))"
  shows "recv_direct S C F r w env = recv_content S F
     (snd (flow_now (w\<lparr>fl_store := snd (names_note S (fc_names F) (fl_store w) h (rec_name (s_record (env_sender_record env))))\<rparr>)))
     (env_user_id env) h app"
  using assms by (auto simp: recv_direct_def is_content_def flow_now_def split_def Let_def split: body.splits)

context kv_store_puts
begin

lemma names_note_any:
  assumes "inv st"
  shows "inv (snd (names_note S c st i name))" "k \<noteq> NAMES_KEY \<Longrightarrow> st_get S (snd (names_note S c st i name)) k = st_get S st k"
proof -
  have put: "inv (snd (io_put S st NAMES_KEY v)) \<and> (k \<noteq> NAMES_KEY \<longrightarrow> st_get S (snd (io_put S st NAMES_KEY v)) k = st_get S st k)" for v k
    using put_any [OF assms, of NAMES_KEY v, OF surjective_pairing] by (auto simp: io_put_def)
  then show "inv (snd (names_note S c st i name))" "k \<noteq> NAMES_KEY \<Longrightarrow> st_get S (snd (names_note S c st i name)) k = st_get S st k"
    using assms by (auto simp: names_note_def tryE_def split: sum.split option.split)
qed

lemma recv_content_spec:
  assumes "inv (fl_store w)" "history_codecs_ok (fc_history F)" "history_load S (fc_history F) (fl_store w) uid = Ok msgs"
    and "seg_count S (c_meta (fc_history F)) (fl_store w) HIST uid \<noteq> Ok (- 1)"
    and "recv_content S F w uid h app = (Accepted, w')"
  shows "inv (fl_store w')"
    "let fresh = (msg_id app = [] \<or> msg_id app \<notin> sm_id ` set msgs);
         entry = \<lparr>sm_id = msg_id app, sm_from_me = False, sm_text = summary app,
            sm_timestamp = fst (now_unix_secs (fl_platform w)), sm_expires_at = msg_expires_at app\<rparr>
     in history_load S (fc_history F) (fl_store w') uid = Ok (if fresh then msgs @ [entry] else msgs)
        \<and> fl_events w' = fl_events w @ (if fresh then attachment_events app @ [DirectMessageEvent uid h (msg_id app) (summary app) False] else [])"
proof -
  let ?entry = "\<lparr>sm_id = msg_id app, sm_from_me = False, sm_text = summary app,
            sm_timestamp = fst (now_unix_secs (fl_platform w)), sm_expires_at = msg_expires_at app\<rparr>"
  obtain a st1 where att: "save_attachment S F (fl_store w) (attachment_of app) = (a, st1)" by fastforce
  have a: "a = Ok ()" using assms(5) att by (cases a) (auto simp: recv_content_def)
  have frame: "inv st1 \<and> (\<forall>k. (\<forall>a. k \<noteq> attachment_key a) \<longrightarrow> st_get S st1 k = st_get S (fl_store w) k)"
    using att assms(1) put_ok [OF assms(1)] by (auto simp: save_attachment_def attachment_save_def a split: option.splits)
  have l1: "history_load S (fc_history F) st1 uid = Ok msgs" "seg_count S (c_meta (fc_history F)) st1 HIST uid \<noteq> Ok (- 1)"
    using history_load_cong [of S st1 "fl_store w" "fc_history F" uid] frame assms(3,4) by auto
  obtain b st2 where ap: "history_append S (fc_history F) st1 uid ?entry = (b, st2)" by fastforce
  obtain i where i: "b = Ok i" using assms(5) att a ap
    by (cases b) (auto simp: recv_content_def flow_now_def split_def Let_def)
  note spec = history_append_spec [OF _ assms(2) l1 ap [unfolded i]]
  have w': "fl_store w' = st2" "fl_events w' = fl_events w @ (if i then attachment_events app @ [DirectMessageEvent uid h (msg_id app) (summary app) False] else [])"
    using assms(5) att a ap i by (auto simp: recv_content_def flow_now_def split_def Let_def split: if_splits)
  show "inv (fl_store w')" using w' spec(1) frame by simp
  show "let fresh = (msg_id app = [] \<or> msg_id app \<notin> sm_id ` set msgs); entry = ?entry
     in history_load S (fc_history F) (fl_store w') uid = Ok (if fresh then msgs @ [entry] else msgs)
        \<and> fl_events w' = fl_events w @ (if fresh then attachment_events app @ [DirectMessageEvent uid h (msg_id app) (summary app) False] else [])"
    using w' spec(2,3) frame by simp
qed

end

section \<open>Sample parameters\<close>

definition s_body :: "body scodec" where
  "s_body = s_iso
     (\<lambda>b. case b of Text t \<Rightarrow> Inl (Inl t) | Reply a t \<Rightarrow> Inl (Inr (Inl (a, t))) | Reaction a t \<Rightarrow> Inl (Inr (Inr (a, t)))
        | Receipt m r \<Rightarrow> Inr (Inl (Inl (m, r))) | File n m d \<Rightarrow> Inr (Inl (Inr (n, m, d))) | Edit a t \<Rightarrow> Inr (Inr (Inl (a, t)))
        | BodyDelete a \<Rightarrow> Inr (Inr (Inr a)))
     (\<lambda>x. case x of Inl (Inl t) \<Rightarrow> Text t | Inl (Inr (Inl (a, t))) \<Rightarrow> Reply a t | Inl (Inr (Inr (a, t))) \<Rightarrow> Reaction a t
        | Inr (Inl (Inl (m, r))) \<Rightarrow> Receipt m r | Inr (Inl (Inr (n, m, d))) \<Rightarrow> File n m d | Inr (Inr (Inl (a, t))) \<Rightarrow> Edit a t
        | Inr (Inr (Inr a)) \<Rightarrow> BodyDelete a)
     (s_sum (s_sum s_string (s_sum (s_pair s_string s_string) (s_pair s_string s_string)))
        (s_sum (s_sum (s_pair s_string s_bool) (s_pair s_string (s_pair s_string s_bytes))) (s_sum (s_pair s_string s_string) s_string)))"

definition s_app :: "app_message scodec" where
  "s_app = s_iso (\<lambda>a. (msg_id a, msg_timestamp a, msg_expires_at a, msg_body a))
     (\<lambda>(i, t, e, b). \<lparr>msg_id = i, msg_timestamp = t, msg_expires_at = e, msg_body = b\<rparr>)
     (s_pair s_string (s_pair s_word (s_pair (s_option s_word) s_body)))"

definition s_member_state :: "member_state scodec" where
  "s_member_state = s_iso (\<lambda>m. (ms_id m, ms_chain m, ms_iteration m, ms_signing_public m, ms_skipped m))
     (\<lambda>(i, c, n, p, k). \<lparr>ms_id = i, ms_chain = c, ms_iteration = n, ms_signing_public = p, ms_skipped = k\<rparr>)
     (s_pair s_bytes (s_pair s_bytes (s_pair s_word (s_pair s_bytes (s_list (s_pair s_word s_bytes))))))"

definition s_group_state :: "group_state scodec" where
  "s_group_state = s_iso
     (\<lambda>g. (gs_own_id g, gs_own_chain g, gs_own_iteration g, gs_own_signing g, gs_members g))
     (\<lambda>(i, c, n, s, ms). \<lparr>gs_own_id = i, gs_own_chain = c, gs_own_iteration = n, gs_own_signing = s, gs_members = ms\<rparr>)
     (s_pair s_bytes (s_pair s_bytes (s_pair s_word (s_pair s_bytes (s_list s_member_state)))))"

definition s_group_member :: "group_member scodec" where
  "s_group_member = s_iso (\<lambda>m. (gmem_user_id m, gmem_handle m)) (\<lambda>(u, h). \<lparr>gmem_user_id = u, gmem_handle = h\<rparr>) (s_pair s_string s_string)"

definition s_group_sender :: "group_sender scodec" where
  "s_group_sender = s_iso (\<lambda>s. (gs_sender_id s, gs_user_id s, gs_handle s))
     (\<lambda>(s, u, h). \<lparr>gs_sender_id = s, gs_user_id = u, gs_handle = h\<rparr>) (s_pair s_bytes (s_pair s_string s_string))"

definition s_key_share :: "group_key_share scodec" where
  "s_key_share = s_iso (\<lambda>k. (ks_user_id k, ks_device_slot k, ks_signing_public k))
     (\<lambda>(u, d, p). \<lparr>ks_user_id = u, ks_device_slot = d, ks_signing_public = p\<rparr>) (s_pair s_string (s_pair s_string s_bytes))"

definition s_stored_group :: "stored_group scodec" where
  "s_stored_group = s_iso (\<lambda>g. (sg_id g, sg_name g, sg_members g, sg_senders g, sg_key_shares g, sg_state g))
     (\<lambda>(i, n, ms, ss, ks, st). \<lparr>sg_id = i, sg_name = n, sg_members = ms, sg_senders = ss, sg_key_shares = ks, sg_state = st\<rparr>)
     (s_pair s_string (s_pair s_string (s_pair (s_list s_group_member) (s_pair (s_list s_group_sender)
        (s_pair (s_list s_key_share) s_group_state)))))"

lemma s_body_ok [sample_ok]: "scodec_ok s_body"
  unfolding s_body_def by (rule s_iso_ok) (simp_all add: sample_ok split: body.split)

lemma s_app_ok [sample_ok]: "scodec_ok s_app"
  unfolding s_app_def by (rule s_iso_ok) (simp_all add: sample_ok)

lemma s_member_state_ok [sample_ok]: "scodec_ok s_member_state" and s_group_member_ok [sample_ok]: "scodec_ok s_group_member"
  and s_group_sender_ok [sample_ok]: "scodec_ok s_group_sender" and s_key_share_ok [sample_ok]: "scodec_ok s_key_share"
  unfolding s_member_state_def s_group_member_def s_group_sender_def s_key_share_def
  by (intro s_iso_ok; simp add: sample_ok)+

lemma s_group_state_ok [sample_ok]: "scodec_ok s_group_state" and s_stored_group_ok [sample_ok]: "scodec_ok s_stored_group"
proof -
  show st: "scodec_ok s_group_state"
    unfolding s_group_state_def by (rule s_iso_ok) (simp_all add: sample_ok)
  show "scodec_ok s_stored_group"
    unfolding s_stored_group_def by (rule s_iso_ok) (simp_all add: sample_ok st)
qed

definition sample_flow :: flow_codecs where
  "sample_flow = \<lparr>fc_app = sample_codec s_app, fc_history = sample_history,
     fc_groups = \<lparr>c_group = sample_codec s_stored_group, c_group_ids = sample_codec (s_list s_string)\<rparr>,
     fc_names = sample_codec (s_list (s_pair s_string s_string)),
     fc_attachment = sample_codec (s_iso (\<lambda>a. (att_id a, att_name a, att_mime a, att_data a))
        (\<lambda>(i, n, m, d). \<lparr>att_id = i, att_name = n, att_mime = m, att_data = d\<rparr>) (s_pair s_string (s_pair s_string (s_pair s_string s_bytes)))),
     fc_verified = sample_codec s_bytes, fc_contacts = sample_contact_codecs, fc_book = sample_book_codecs,
     fc_invite = \<lparr>json_to_vec = (\<lambda>p. Some (s_put s_string (gip_group_id p))), json_from_slice = (\<lambda>_. None)\<rparr>,
     fc_leave = \<lparr>json_to_vec = (\<lambda>p. Some (s_put s_string (glp_group_id p))),
        json_from_slice = (\<lambda>b. map_option (\<lambda>(i, _). \<lparr>glp_group_id = i\<rparr>) (s_take s_string b))\<rparr>\<rparr>"

lemma sample_flow_simps [simp]: "fc_app sample_flow = sample_codec s_app" "fc_history sample_flow = sample_history"
  "fc_claims sample_flow = sample_claims" "fc_pins sample_flow = sample_pin_codecs" "fc_contacts sample_flow = sample_contact_codecs"
  "fc_verified sample_flow = sample_codec s_bytes"
  by (simp_all add: sample_flow_def sample_book_codecs_def)

lemma sample_flow_ok [sample_ok]: "group_codecs_ok (fc_groups sample_flow)"
  by (simp add: sample_flow_def group_codecs_ok_def sample_ok)

definition sample_net :: "u64 \<Rightarrow> flow_net" where
  "sample_net n = \<lparr>net_lookup = (\<lambda>_. Ok (sample_signed n)), net_lookup_user_id = (\<lambda>_. Err (AnyMsg ''offline''))\<rparr>"

definition sample_recv :: recv_ctx where
  "sample_recv = \<lparr>rc_identity = sample_identity 4, rc_me = ''bo'', rc_sender_record = sample_signed 1, rc_blocked = []\<rparr>"

definition sample_world :: "(file_store, nat) flow_state" where
  "sample_world = \<lparr>fl_store = sample_store, fl_platform = sample_platform, fl_host = 0, fl_events = []\<rparr>"

definition sample_hook :: "(nat, file_store) delivery_hook" where
  "sample_hook = (\<lambda>n st h r d item pt. (Direct, st, Suc n))"

lemma sample_hook_keeps: "hook_keeps I sample_hook"
  by (simp add: hook_keeps_def sample_hook_def)

lemma sample_envelope:
  assumes "length pt < 2 ^ 32"
  obtains env where "open_envelope sample_crypto sample_claims (sample_identity 4) env = Ok (''ari'', pt)"
    "env_sender_record env = sample_signed 1"
proof -
  let ?run = "seal_to_with_record sample_crypto sample_platform (sample_identity 3) ''ari'' (sample_signed 1)
      (device_create sample_crypto sample_claims (sample_identity 4) 1) pt"
  have "\<exists>env p'. ?run = (Ok env, p')" using sample_seal [of 0] by (simp add: sample_platform_def)
  then obtain env p' where run: "?run = (Ok env, p')" by blast
  have "open_envelope sample_crypto sample_claims (sample_identity 4) env = Ok (''ari'', pt)"
    by (rule seal_with_record_opens [OF _ _ assms sample_signed_verifies _ _ _ _ run])
      (simp_all add: sample_ok, simp_all add: sample_signed_def sample_record_def signed_record_sign_def device_create_def signed_pre_key_create_def Let_def)
  moreover have "env_sender_record env = sample_signed 1"
    using run by (auto simp: seal_to_with_record_def Let_def result_elims split_def)
  ultimately show thesis by (rule that)
qed

lemma sample_batch_accepts: "fs_inv sample_crypto (sample_env (\<lambda>_. NoFault)) sample_batch st \<Longrightarrow> \<exists>st'. io_batch sample_ops st ms = (Ok (), st')"
  using fs_apply_batch_no_faults [OF sample_env_ok(2), of st sample_crypto sample_batch ms] by (simp add: sample_ops_def file_ops_def fs_inv_def)

section \<open>Properties\<close>

text \<open>
  C34: the trust chokepoint.  A handle resolves only to a record that verifies, whose user id is
  derived from its wallet and whose wallet does not contradict a pinned or verified one; and the
  record is never older, in any of its signed claims, than one the same user resolved to before,
  whatever records of any users were checked in between.
\<close>

theorem resolve_record_trusted:
  assumes "fs_inv C E M st" "codec_ok (c_pins (fc_pins F))"
    and "resolve_record (file_ops C E M) C F st net h = (Ok (h1, r1), st1)"
    and "pin_steps (file_ops C E M) C (fc_pins F) st1 st2"
    and "resolve_record (file_ops C E M) C F st2 net' h' = (Ok (h2, r2), st3)"
    and "rec_user_id (s_record r2) = rec_user_id (s_record r1)"
  shows "signed_record_verify C (fc_claims F) r2 = Ok () \<and> rec_user_id (s_record r2) = user_id_from_wallet C (rec_wallet (s_record r2))
    \<and> verified_level (file_ops C E M) (fc_verified F) (fc_contacts F) st2 (rec_user_id (s_record r2)) (rec_wallet (s_record r2)) \<noteq> Changed
    \<and> not_older C (fc_pins F) r1 r2"
proof -
  note first = resolve_record_Ok [OF assms(3)] and second = resolve_record_Ok [OF assms(5)]
  have "not_older C (fc_pins F) r1 r2"
    using fs.accepted_records_monotone [OF assms(1,2) first(5) assms(4)] second(5) assms(6) by simp
  with second(3,4) show ?thesis by (auto simp: signed_record_verify_Ok Let_def)
qed

lemma sample_level: "verified_level sample_ops (sample_codec s_bytes) sample_contact_codecs sample_store uid wallet = Unverified"
  by (simp add: verified_level_def verified_get_def by_user_id_def contacts_list_names_def sample_store_ops)

lemma sample_resolve:
  assumes "check_and_pin sample_ops sample_crypto sample_pin_codecs st (rec_user_id (s_record (sample_signed n))) (sample_signed n) = (Ok True, st')"
    and "verified_level sample_ops (sample_codec s_bytes) sample_contact_codecs st (rec_user_id (s_record (sample_signed n))) (rec_wallet (s_record (sample_signed n))) \<noteq> Changed"
  shows "resolve_record sample_ops sample_crypto sample_flow st (sample_net n) ''ari'' = (Ok (''ari'', sample_signed n), st')"
proof -
  have "handle_new ''ari'' = Ok ''ari''" by code_simp
  with assms show ?thesis
    by (simp add: resolve_record_def sample_net_def sample_signed_verifies)
qed

theorem resolve_record_trusted_witness:
  "\<exists>st1 st3. resolve_record sample_ops sample_crypto sample_flow sample_store (sample_net 1) ''ari'' = (Ok (''ari'', sample_signed 1), st1)
     \<and> resolve_record sample_ops sample_crypto sample_flow st1 (sample_net 2) ''ari'' = (Ok (''ari'', sample_signed 2), st3)
     \<and> not_older sample_crypto sample_pin_codecs (sample_signed 1) (sample_signed 2)"
proof -
  let ?uid = "rec_user_id (s_record (sample_signed 1))"
  have uid: "rec_user_id (s_record (sample_signed n)) = ?uid" "rec_wallet (s_record (sample_signed n)) = rec_wallet (s_record (sample_signed 1))" for n
    by (simp_all add: sample_signed_def signed_record_sign_def sample_record_def)
  obtain st1 st3 where pins: "check_and_pin sample_ops sample_crypto sample_pin_codecs sample_store ?uid (sample_signed 1) = (Ok True, st1)"
    "check_and_pin sample_ops sample_crypto sample_pin_codecs st1 ?uid (sample_signed 2) = (Ok True, st3)" by (rule sample_pins_accept)
  have "st_get sample_ops st1 k = st_get sample_ops sample_store k" if "\<forall>u. k \<noteq> antirollback_key u" for k
    using fs.check_and_pin_frame [OF sample_fs_inv pins(1) [unfolded sample_ops_def], of k] that by (simp add: sample_ops_def)
  from verified_level_cong [OF this] sample_level
  have "verified_level sample_ops (sample_codec s_bytes) sample_contact_codecs st1 u w \<noteq> Changed" for u w by simp
  with sample_resolve [of st1 2 st3] pins uid [of 2]
  have r2: "resolve_record sample_ops sample_crypto sample_flow st1 (sample_net 2) ''ari'' = (Ok (''ari'', sample_signed 2), st3)" by simp
  have r1: "resolve_record sample_ops sample_crypto sample_flow sample_store (sample_net 1) ''ari'' = (Ok (''ari'', sample_signed 1), st1)"
    using sample_resolve [of sample_store 1 st1] pins sample_level by simp
  from resolve_record_trusted [OF sample_fs_inv _ r1 [unfolded sample_ops_def] pin_done r2 [unfolded sample_ops_def]] uid [of 2] r1 r2
  show ?thesis by (auto simp: sample_ok)
qed

text \<open>
  C35: nothing unauthenticated has an effect.  If a received item is accepted, or changes
  anything at all (the store, the platform, an event, a delivery), then for a pairwise item the
  envelope opened with our keys, its sender record verified and its sender is not blocked; for a
  group text the group is known, the sending device is one of its senders, belongs by its verified
  record to an unblocked user, and the message decrypted under that device's key.
\<close>

theorem received_items_authentic:
  assumes "process_item S C F r w net item deliver = (out, w')" "out = Accepted \<or> w' \<noteq> w"
  shows "case item of
      DirectItem env \<Rightarrow> envelope_accepted C F r env
    | GroupInvite env \<Rightarrow> envelope_accepted C F r env
    | GroupLeave env \<Rightarrow> envelope_accepted C F r env
    | GroupText group_id message \<Rightarrow> group_text_accepted S C F r (fl_store w) group_id message"
  using assms recv_direct_accepted recv_group_invite_accepted recv_group_leave_accepted recv_group_text_accepted
  by (cases item) (simp_all add: process_item_def)

definition sample_app :: app_message where
  "sample_app = \<lparr>msg_id = ''m1'', msg_timestamp = 3, msg_expires_at = None, msg_body = Text ''hi''\<rparr>"

definition sample_receipt :: app_message where
  "sample_receipt = \<lparr>msg_id = ''m2'', msg_timestamp = 3, msg_expires_at = None, msg_body = Receipt ''m1'' True\<rparr>"

lemma sample_app_length: "length (app_encode (sample_codec s_app) sample_app) < 2 ^ 32"
  "length (app_encode (sample_codec s_app) sample_receipt) < 2 ^ 32"
proof -
  have "length (app_encode (sample_codec s_app) sample_app) < 5000" "length (app_encode (sample_codec s_app) sample_receipt) < 5000"
    by code_simp+
  then show "length (app_encode (sample_codec s_app) sample_app) < 2 ^ 32" "length (app_encode (sample_codec s_app) sample_receipt) < 2 ^ 32"
    by simp_all
qed

theorem received_items_authentic_witness:
  "\<exists>env w'. process_item sample_ops sample_crypto sample_flow sample_recv sample_world (sample_net 1) (DirectItem env) sample_hook = (Accepted, w')
     \<and> fl_events w' = [ReceiptEvent (env_user_id env) ''ari'' ''m1'' True] \<and> envelope_accepted sample_crypto sample_flow sample_recv env"
proof -
  obtain env where env: "open_envelope sample_crypto sample_claims (sample_identity 4) env = Ok (''ari'', app_encode (sample_codec s_app) sample_receipt)"
    by (rule sample_envelope [OF sample_app_length(2)])
  have "app_decode (sample_codec s_app) (app_encode (sample_codec s_app) sample_receipt) = Ok sample_receipt"
    by (simp add: app_decode_def app_encode_def sample_ok)
  with env obtain w' where run: "process_item sample_ops sample_crypto sample_flow sample_recv sample_world (sample_net 1) (DirectItem env) sample_hook = (Accepted, w')"
    and ev: "fl_events w' = [ReceiptEvent (env_user_id env) ''ari'' ''m1'' True]"
    by (auto simp: process_item_def recv_direct_def sample_recv_def sample_receipt_def is_blocked_def sample_world_def)
  from received_items_authentic [OF run] run ev show ?thesis by auto
qed

text \<open>
  C36: a message is shown once.  When a message with content arrives and is accepted, it is
  appended to the sender's transcript with our receipt time, and shown, exactly when its id is
  empty or not yet in the transcript; a repeated delivery of the same message is accepted without
  a second copy and without an event.
\<close>

theorem received_message_once:
  assumes "fs_inv C E M (fl_store w)" "history_codecs_ok (fc_history F)"
    and "open_envelope C (fc_claims F) (rc_identity r) env = Ok (h, bytes)" "env_user_id env \<notin> set (rc_blocked r)"
    and "app_decode (fc_app F) bytes = Ok app" "is_content app" "\<not> is_expired app (fst (now_unix_secs (fl_platform w)))"
    and "history_load (file_ops C E M) (fc_history F) (fl_store w) (env_user_id env) = Ok msgs"
    and "seg_count (file_ops C E M) (c_meta (fc_history F)) (fl_store w) HIST (env_user_id env) \<noteq> Ok (- 1)"
    and "process_item (file_ops C E M) C F r w net (DirectItem env) deliver = (Accepted, w')"
  shows "let fresh = (msg_id app = [] \<or> msg_id app \<notin> sm_id ` set msgs);
       entry = \<lparr>sm_id = msg_id app, sm_from_me = False, sm_text = summary app,
          sm_timestamp = fst (now_unix_secs (snd (now_unix_secs (fl_platform w)))), sm_expires_at = msg_expires_at app\<rparr>
     in history_load (file_ops C E M) (fc_history F) (fl_store w') (env_user_id env) = Ok (if fresh then msgs @ [entry] else msgs)
        \<and> fl_events w' = fl_events w @ (if fresh then attachment_events app @ [DirectMessageEvent (env_user_id env) h (msg_id app) (summary app) False] else [])"
proof -
  let ?st = "snd (names_note (file_ops C E M) (fc_names F) (fl_store w) h (rec_name (s_record (env_sender_record env))))"
  let ?w = "snd (flow_now (w\<lparr>fl_store := ?st\<rparr>))"
  have inv: "fs_inv C E M ?st" by (rule fsp.names_note_any [OF assms(1)])
  have "history_load (file_ops C E M) (fc_history F) ?st (env_user_id env) = Ok msgs"
    "seg_count (file_ops C E M) (c_meta (fc_history F)) ?st HIST (env_user_id env) \<noteq> Ok (- 1)"
    using history_load_cong [of "file_ops C E M" ?st "fl_store w" "fc_history F" "env_user_id env"]
      fsp.names_note_any(2) [OF assms(1)] assms(8,9) by auto
  moreover have "recv_content (file_ops C E M) F ?w (env_user_id env) h app = (Accepted, w')"
    using recv_direct_content [OF assms(3) _ assms(5-7), of "file_ops C E M"] assms(4,10) by (simp add: process_item_def is_blocked_iff)
  ultimately show ?thesis
    using fsp.recv_content_spec(2) [of C E M ?w F "env_user_id env" msgs h app w'] inv assms(2) by (simp add: flow_now_def split_def Let_def)
qed

lemma sample_append_accepts:
  assumes "fs_inv sample_crypto (sample_env (\<lambda>_. NoFault)) sample_batch st" "history_load sample_ops sample_history st uid = Ok []"
    and "seg_count sample_ops (c_meta sample_history) st HIST uid = Ok 0" "history_peers sample_ops sample_history st = Ok []"
  shows "\<exists>st'. history_append sample_ops sample_history st uid m = (Ok True, st')"
proof -
  obtain st' where "io_batch sample_ops st [Put (seg_key HIST uid 0) (wire_encode (c_messages sample_history) [m]),
      Put (meta_key HIST uid) (wire_encode (c_meta sample_history) 1), Put PEER_INDEX (wire_encode (c_peers sample_history) [uid])] = (Ok (), st')"
    using sample_batch_accepts [OF assms(1)] by blast
  with assms(2-4) show ?thesis by (simp add: history_append_def append_segment_mutations_def Let_def del: io_batch_Ok)
qed

lemma sample_names_store:
  fixes name uid :: string
  defines "st \<equiv> snd (names_note sample_ops (fc_names sample_flow) sample_store ''ari'' name)"
  shows "fs_inv sample_crypto (sample_env (\<lambda>_. NoFault)) sample_batch st" "history_load sample_ops sample_history st uid = Ok []"
    "seg_count sample_ops (c_meta sample_history) st HIST uid = Ok 0" "history_peers sample_ops sample_history st = Ok []"
proof -
  note any = fsp.names_note_any [OF sample_fs_inv [where f = "\<lambda>_. NoFault"], where c = "fc_names sample_flow" and i = "''ari''" and name = name]
  show "fs_inv sample_crypto (sample_env (\<lambda>_. NoFault)) sample_batch st" using any(1) by (simp add: st_def sample_ops_def)
  have same: "k \<noteq> NAMES_KEY \<Longrightarrow> st_get sample_ops st k = st_get sample_ops sample_store k" for k
    using any(2) [of k] by (simp add: st_def sample_ops_def)
  then show "history_load sample_ops sample_history st uid = Ok []" "seg_count sample_ops (c_meta sample_history) st HIST uid = Ok 0"
    using history_load_cong [of sample_ops st sample_store sample_history uid] sample_history_empty by simp_all
  have "PEER_INDEX \<noteq> NAMES_KEY" by (simp add: PEER_INDEX_def NAMES_KEY_def)
  then show "history_peers sample_ops sample_history st = Ok []"
    using same sample_history_empty(4) by (simp add: history_peers_def io_get_def)
qed

lemma recv_content_accepts:
  assumes "attachment_of app = None"
    and "history_append S (fc_history F) (fl_store w) uid \<lparr>sm_id = msg_id app, sm_from_me = False, sm_text = summary app,
      sm_timestamp = fst (flow_now w), sm_expires_at = msg_expires_at app\<rparr> = (Ok True, st')"
  shows "\<exists>w'. recv_content S F w uid h app = (Accepted, w')"
  using assms by (simp add: recv_content_def save_attachment_def ok_elseS_def split_def Let_def flow_now_def)

theorem received_message_once_witness:
  "\<exists>env w'. process_item sample_ops sample_crypto sample_flow sample_recv sample_world (sample_net 1) (DirectItem env) sample_hook = (Accepted, w')
     \<and> fl_events w' = [DirectMessageEvent (env_user_id env) ''ari'' ''m1'' (summary sample_app) False]"
proof -
  obtain env where env: "open_envelope sample_crypto sample_claims (sample_identity 4) env = Ok (''ari'', app_encode (sample_codec s_app) sample_app)"
    by (rule sample_envelope [OF sample_app_length(1)])
  have open_env: "open_envelope sample_crypto (fc_claims sample_flow) (rc_identity sample_recv) env = Ok (''ari'', app_encode (sample_codec s_app) sample_app)"
    using env by (simp add: sample_recv_def)
  have dec: "app_decode (fc_app sample_flow) (app_encode (sample_codec s_app) sample_app) = Ok sample_app"
    by (simp add: app_decode_def app_encode_def sample_ok)
  have app: "is_content sample_app" "attachment_events sample_app = []" "attachment_of sample_app = None" "msg_id sample_app = ''m1''" "\<not> is_expired sample_app t" for t
    by (simp_all add: is_content_def sample_app_def attachment_events_def attachment_of_def is_expired_def)
  have free: "env_user_id env \<notin> set (rc_blocked sample_recv)" by (simp add: sample_recv_def)
  let ?w = "snd (flow_now (sample_world\<lparr>fl_store := snd (names_note sample_ops (fc_names sample_flow) (fl_store sample_world) ''ari'' (rec_name (s_record (env_sender_record env))))\<rparr>))"
  have store: "fl_store ?w = snd (names_note sample_ops (fc_names sample_flow) sample_store ''ari'' (rec_name (s_record (env_sender_record env))))"
    by (simp add: sample_world_def)
  obtain st' where "history_append sample_ops sample_history (fl_store ?w) (env_user_id env)
      \<lparr>sm_id = msg_id sample_app, sm_from_me = False, sm_text = summary sample_app, sm_timestamp = fst (flow_now ?w), sm_expires_at = msg_expires_at sample_app\<rparr> = (Ok True, st')"
    unfolding store using sample_append_accepts [OF sample_names_store] by meson
  then have content: "\<exists>w'. recv_content sample_ops sample_flow ?w (env_user_id env) ''ari'' sample_app = (Accepted, w')"
    by (intro recv_content_accepts [OF app(3)]) simp
  have "process_item sample_ops sample_crypto sample_flow sample_recv sample_world (sample_net 1) (DirectItem env) sample_hook
      = recv_content sample_ops sample_flow ?w (env_user_id env) ''ari'' sample_app"
    using recv_direct_content [OF open_env _ dec app(1,5), of sample_ops sample_world] free by (simp add: process_item_def is_blocked_iff)
  with content obtain w' where run: "process_item sample_ops sample_crypto sample_flow sample_recv sample_world (sample_net 1) (DirectItem env) sample_hook = (Accepted, w')" by auto
  have world: "fl_store sample_world = sample_store" "fl_events sample_world = []" by (simp_all add: sample_world_def)
  have inv: "fs_inv sample_crypto (sample_env (\<lambda>_. NoFault)) sample_batch (fl_store sample_world)" unfolding world by (rule sample_fs_inv)
  have load: "history_load (file_ops sample_crypto (sample_env (\<lambda>_. NoFault)) sample_batch) (fc_history sample_flow) (fl_store sample_world) (env_user_id env) = Ok []"
    "seg_count (file_ops sample_crypto (sample_env (\<lambda>_. NoFault)) sample_batch) (c_meta (fc_history sample_flow)) (fl_store sample_world) HIST (env_user_id env) \<noteq> Ok (- 1)"
    using sample_history_empty unfolding world sample_ops_def by simp_all
  have codecs: "history_codecs_ok (fc_history sample_flow)" by (simp add: sample_ok)
  show ?thesis
    using received_message_once [OF inv codecs open_env free dec app(1,5) load run [unfolded sample_ops_def]] run
    unfolding Let_def world app(2,4) by auto
qed

text \<open>
  C37: a member who leaves is out.  After an accepted leave message of a user, our copy of the
  group has neither that user nor any of their devices any more, we have a fresh sender key, the
  ratchets of their devices are gone, and a group text from one of those devices has no effect.
\<close>

theorem departed_member_excluded:
  assumes "hook_keeps (fs_inv C E M) deliver" "fs_inv C E M (fl_store w)" "group_codecs_ok (fc_groups F)"
    and "open_envelope C (fc_claims F) (rc_identity r) env = Ok (h, bytes)" "json_from_slice (fc_leave F) bytes = Some payload"
    and "groups_load (file_ops C E M) (fc_groups F) (fl_store w) (glp_group_id payload) = Ok (Some stored)"
    and "sg_id stored = glp_group_id payload" "distinct (map gs_sender_id (sg_senders stored))"
    and "process_item (file_ops C E M) C F r w net (GroupLeave env) deliver = (Accepted, w')"
  shows "\<exists>stored'. groups_load (file_ops C E M) (fc_groups F) (fl_store w') (sg_id stored) = Ok (Some stored')
     \<and> sg_members stored' = filter (\<lambda>m. gmem_user_id m \<noteq> env_user_id env) (sg_members stored)
     \<and> sg_senders stored' = filter (\<lambda>s. gs_user_id s \<noteq> env_user_id env) (sg_senders stored)
     \<and> gs_own_chain (sg_state stored') = sk_chain_key (fst (sender_generate (fl_platform w)))
     \<and> gs_own_signing (sg_state stored') = sk_signing (fst (sender_generate (fl_platform w)))
     \<and> (\<forall>s \<in> set (sg_senders stored). gs_user_id s = env_user_id env \<longrightarrow>
          gs_sender_id s \<notin> ms_id ` set (gs_members (sg_state stored'))
          \<and> (\<forall>r2 net2 deliver2 msg. gm_sender msg = gs_sender_id s \<longrightarrow>
               process_item (file_ops C E M) C F r2 w' net2 (GroupText (sg_id stored) msg) deliver2 = (Retry, w')))"
proof -
  from assms(9) have "recv_group_leave (file_ops C E M) C F r w net env deliver = (Accepted, w')" by (simp add: process_item_def)
  from fsp.recv_group_leave_spec [OF assms(1-7) this] obtain stored' session
    where load: "groups_load (file_ops C E M) (fc_groups F) (fl_store w') (sg_id stored) = Ok (Some stored')"
      and mem: "sg_members stored' = filter (\<lambda>m. gmem_user_id m \<noteq> env_user_id env) (sg_members stored)"
        "sg_senders stored' = filter (\<lambda>s. gs_user_id s \<noteq> env_user_id env) (sg_senders stored)"
      and state: "sg_state stored' = group_export (fst (group_rotate (fl_platform w)
        (drop_sender_keys (\<lambda>s. gs_user_id s = env_user_id env) (sg_senders stored) session)))" by blast
  have gone: "gs_sender_id s \<notin> ms_id ` set (gs_members (sg_state stored'))" "sender_of stored' (gs_sender_id s) = None"
    if s: "s \<in> set (sg_senders stored)" "gs_user_id s = env_user_id env" for s
  proof -
    show "gs_sender_id s \<notin> ms_id ` set (gs_members (sg_state stored'))"
      unfolding state by (rule map_of_none_exported) (use s in \<open>auto simp: group_rotate_def split_def Let_def drop_sender_keys_members\<close>)
    have "t = s" if "t \<in> set (sg_senders stored)" "gs_sender_id t = gs_sender_id s" for t
      using assms(8) s(1) that by (simp add: distinct_map inj_on_def)
    then show "sender_of stored' (gs_sender_id s) = None" using s(2) by (auto simp: sender_of_def mem(2) find_None_iff)
  qed
  have "process_item (file_ops C E M) C F r2 w' net2 (GroupText (sg_id stored) msg) deliver2 = (Retry, w')"
    if "s \<in> set (sg_senders stored)" "gs_user_id s = env_user_id env" "gm_sender msg = gs_sender_id s" for s r2 net2 deliver2 msg
    using gone(2) [OF that(1,2)] that(3) load by (simp add: process_item_def recv_group_text_def)
  moreover have "gs_own_chain (sg_state stored') = sk_chain_key (fst (sender_generate (fl_platform w)))"
    "gs_own_signing (sg_state stored') = sk_signing (fst (sender_generate (fl_platform w)))"
    by (simp_all add: state group_rotate_def group_export_def split_def Let_def)
  ultimately show ?thesis using load mem gone(1) by (intro exI [of _ stored']) simp
qed

text \<open>A group of two: this device and the sender of \<open>sample_envelope\<close>.\<close>

definition sample_stored :: stored_group where
  "sample_stored = \<lparr>sg_id = ''g1'', sg_name = ''tea'',
     sg_members = [\<lparr>gmem_user_id = rec_user_id (s_record (sample_signed 1)), gmem_handle = ''ari''\<rparr>, \<lparr>gmem_user_id = ''bo'', gmem_handle = ''bo''\<rparr>],
     sg_senders = [\<lparr>gs_sender_id = [1], gs_user_id = rec_user_id (s_record (sample_signed 1)), gs_handle = ''ari''\<rparr>],
     sg_key_shares = [], sg_state = group_export (sample_group 2)\<rparr>"

definition sample_recv_bo :: recv_ctx where
  "sample_recv_bo = sample_recv\<lparr>rc_sender_record := (sample_signed 1)\<lparr>s_record := (s_record (sample_signed 1))\<lparr>rec_user_id := ''bo''\<rparr>\<rparr>\<rparr>"

lemma sample_groups_save:
  assumes "fs_inv sample_crypto (sample_env (\<lambda>_. NoFault)) sample_batch st" "groups_inv sample_ops (fc_groups sample_flow) st"
  obtains st' where "groups_save sample_ops (fc_groups sample_flow) st g = (Ok (), st')"
    "fs_inv sample_crypto (sample_env (\<lambda>_. NoFault)) sample_batch st'" "groups_inv sample_ops (fc_groups sample_flow) st'"
    "groups_load sample_ops (fc_groups sample_flow) st' (sg_id g) = Ok (Some g)"
proof -
  from assms(2) obtain ids where "groups_list sample_ops (fc_groups sample_flow) st = Ok ids" by (auto simp: groups_inv_def)
  with sample_batch_accepts [OF assms(1)] obtain st' where run: "groups_save sample_ops (fc_groups sample_flow) st g = (Ok (), st')"
    by (fastforce simp: groups_save_def Let_def simp del: io_batch_Ok)
  from fs.groups_save_spec [OF assms(1) sample_flow_ok assms(2) [unfolded sample_ops_def] run [unfolded sample_ops_def]]
  show thesis by (intro that [OF run]) (simp_all add: sample_ops_def)
qed

lemma sample_groups_inv: "groups_inv sample_ops (fc_groups sample_flow) sample_store"
  by (simp add: groups_inv_def groups_list_def groups_load_def sample_store_ops)
lemma sample_offline: "resolve_group_target S C F me st (sample_net n) m = (None, st)"
  by (simp add: resolve_group_target_def sample_net_def ok_else_def split: sum.split)

lemma sample_distribute: "distribute_loop S C F me w (sample_net n) h sr dist pt targets known deliver shared = (shared, w)"
  by (induction targets) (simp_all add: sample_offline)

lemma sample_distribute_group:
  "distribute_group_key S C sample_flow r w (sample_net n) stored session targets deliver =
     (let (res, st) = groups_save S (fc_groups sample_flow) (fl_store w) stored in ((res, stored), w\<lparr>fl_store := st\<rparr>))"
  by (simp add: distribute_group_key_def distribute_key_def distribute_key_inner_def sample_distribute Let_def split_def split: option.split)

theorem departed_member_excluded_witness:
  "\<exists>w w' env stored'. process_item sample_ops sample_crypto sample_flow sample_recv_bo w (sample_net 1) (GroupLeave env) sample_hook = (Accepted, w')
     \<and> groups_load sample_ops (fc_groups sample_flow) (fl_store w') ''g1'' = Ok (Some stored')
     \<and> sg_members stored' = [\<lparr>gmem_user_id = ''bo'', gmem_handle = ''bo''\<rparr>] \<and> sg_senders stored' = []"
proof -
  let ?leave = "s_put s_string ''g1''" and ?uid = "rec_user_id (s_record (sample_signed 1))"
  have "length ?leave < 5000" by code_simp
  then have "length ?leave < 2 ^ 32" by simp
  then obtain env where env: "open_envelope sample_crypto sample_claims (sample_identity 4) env = Ok (''ari'', ?leave)" "env_sender_record env = sample_signed 1"
    by (rule sample_envelope)
  have rc: "rc_identity sample_recv_bo = sample_identity 4" "rc_blocked sample_recv_bo = []" "rec_user_id (s_record (rc_sender_record sample_recv_bo)) = ''bo''"
    by (simp_all add: sample_recv_bo_def sample_recv_def)
  have "user_id_new ?uid = Ok ?uid"
    using user_id_from_wallet_valid [of sample_crypto] by (simp add: sample_ok sample_signed_def signed_record_sign_def sample_record_def)
  then have other: "?uid \<noteq> ''bo''" by (auto simp: user_id_new_def USER_ID_LEN_def)
  have payload: "json_from_slice (fc_leave sample_flow) ?leave = Some \<lparr>glp_group_id = ''g1''\<rparr>"
    using s_string_ok by (simp add: sample_flow_def scodec_ok_def) (metis append_Nil2)
  obtain st1 where st1: "groups_save sample_ops (fc_groups sample_flow) sample_store sample_stored = (Ok (), st1)"
    "fs_inv sample_crypto (sample_env (\<lambda>_. NoFault)) sample_batch st1" "groups_inv sample_ops (fc_groups sample_flow) st1"
    "groups_load sample_ops (fc_groups sample_flow) st1 (sg_id sample_stored) = Ok (Some sample_stored)"
    by (rule sample_groups_save [OF sample_fs_inv sample_groups_inv])
  have g1: "sg_id sample_stored = ''g1''" by (simp add: sample_stored_def)
  let ?w = "sample_world\<lparr>fl_store := st1\<rparr>"
  have imp: "group_import sample_crypto (sg_state sample_stored) = Ok (sample_group 2)"
    by (simp add: sample_stored_def sample_group_def group_new_def group_import_def group_export_def Let_def split_def)
  have "\<exists>w'. process_item sample_ops sample_crypto sample_flow sample_recv_bo ?w (sample_net 1) (GroupLeave env) sample_hook = (Accepted, w')"
  proof -
    let ?s = "sample_stored\<lparr>sg_members := filter (\<lambda>m. gmem_user_id m \<noteq> ?uid) (sg_members sample_stored),
       sg_senders := filter (\<lambda>s. gs_user_id s \<noteq> ?uid) (sg_senders sample_stored),
       sg_state := group_export (fst (group_rotate sample_platform (drop_sender_keys (\<lambda>s. gs_user_id s = ?uid) (sg_senders sample_stored) (sample_group 2))))\<rparr>"
    obtain st2 where st2: "groups_save sample_ops (fc_groups sample_flow) st1 ?s = (Ok (), st2)"
      "fs_inv sample_crypto (sample_env (\<lambda>_. NoFault)) sample_batch st2" "groups_inv sample_ops (fc_groups sample_flow) st2"
      by (rule sample_groups_save [OF st1(2,3)])
    obtain st3 where st3: "groups_save sample_ops (fc_groups sample_flow) st2 ?s = (Ok (), st3)"
      by (rule sample_groups_save [OF st2(2,3)])
    have "list_ex (\<lambda>m. gmem_user_id m = ?uid) (sg_members sample_stored)" by (simp add: sample_stored_def)
    then show ?thesis
      using env rc payload st1(4) g1 imp st2(1) st3 other
      by (simp add: process_item_def recv_group_leave_def is_blocked_def Let_def split_def sample_distribute_group sample_world_def)
  qed
  then obtain w' where run: "process_item sample_ops sample_crypto sample_flow sample_recv_bo ?w (sample_net 1) (GroupLeave env) sample_hook = (Accepted, w')" by blast
  have "\<exists>stored'. groups_load sample_ops (fc_groups sample_flow) (fl_store w') (sg_id sample_stored) = Ok (Some stored')
      \<and> sg_members stored' = filter (\<lambda>m. gmem_user_id m \<noteq> ?uid) (sg_members sample_stored)
      \<and> sg_senders stored' = filter (\<lambda>s. gs_user_id s \<noteq> ?uid) (sg_senders sample_stored)"
    using departed_member_excluded [OF sample_hook_keeps _ sample_flow_ok _ payload _ _ _ run [unfolded sample_ops_def]] env rc st1 g1
    unfolding sample_ops_def by (fastforce simp: sample_stored_def)
  with run show ?thesis using other g1 by (auto simp: sample_stored_def)
qed



end
