(* ===== verification/Registry.thy ===== *)
theory Registry
  imports Crypto RustStr Ident
begin

text \<open>
  The account registry (\<open>mycellium-registry/src/lib.rs\<close>) and its metadata store over the embedded
  database \<open>redb\<close> (\<open>redb_store.rs\<close>).

  The database is the record of its twelve tables, each the list of its entries in key order.
  \<open>redb\<close> itself is third-party code: a write transaction takes effect as a whole when it is
  committed and not at all when it is dropped or when a call of the engine fails.  The argument
  \<open>flt\<close> of a store operation is the error the engine reports for its transaction, if any.
  The JSON serializer and the operating system's randomness are parameters as well.  The text a
  library adds to an error message after the colon is left out.
\<close>

section \<open>Errors\<close>

datatype registry_error_kind = InvalidInput | Conflict | Internal

record registry_error =
  re_kind :: registry_error_kind
  re_message :: string

definition registry_new :: "string \<Rightarrow> registry_error" where
  "registry_new message = \<lparr>re_kind = Internal, re_message = message\<rparr>"

definition registry_invalid :: "string \<Rightarrow> registry_error" where
  "registry_invalid message = \<lparr>re_kind = InvalidInput, re_message = message\<rparr>"

definition registry_conflict :: "string \<Rightarrow> registry_error" where
  "registry_conflict message = \<lparr>re_kind = Conflict, re_message = message\<rparr>"

section \<open>Identifiers and data\<close>

type_synonym account_id = string
type_synonym login_identity_hash = string
type_synonym i64 = int
type_synonym getrandom = "nat \<Rightarrow> bytes option"

fun registry_hex :: "bytes \<Rightarrow> string" where
  "registry_hex [] = ''''"
| "registry_hex (byte # bs) = hex_digit (hex_high byte) # hex_digit (hex_low byte) # registry_hex bs"

definition account_id_generate :: "getrandom \<Rightarrow> registry_error + account_id" where
  "account_id_generate rng = (case rng 16 of
      None \<Rightarrow> Err (registry_new ''randomness failed'') | Some bytes \<Rightarrow> Ok (registry_hex bytes))"

definition account_id_from_str :: "string \<Rightarrow> registry_error + account_id" where
  "account_id_from_str s =
     (if length s \<noteq> 32 \<or> \<not> list_all is_ascii_hexdigit s then Err (registry_invalid ''invalid account id'')
      else Ok (to_ascii_lowercase s))"

datatype login_identity_kind = Email

definition login_kind_str :: "login_identity_kind \<Rightarrow> string" where
  "login_kind_str k = (case k of Email \<Rightarrow> ''email'')"

definition normalize_email :: "string \<Rightarrow> registry_error + string" where
  "normalize_email email =
     (let email = to_ascii_lowercase (str_trim email) in
      if email = [] \<or> length email > 320 \<or> CHR ''@'' \<notin> set email \<or> list_ex is_ascii_control email
      then Err (registry_invalid ''invalid email'') else Ok email)"

definition hash_login_identity :: "crypto \<Rightarrow> login_identity_kind \<Rightarrow> string \<Rightarrow> login_identity_hash" where
  "hash_login_identity C kind normalized =
     registry_hex (sha256 C (str_bytes ''mycellium-registry-login-identity-v1:'' @ str_bytes (login_kind_str kind) @ str_bytes '':'' @ str_bytes normalized))"

definition login_identity_hash_email :: "crypto \<Rightarrow> string \<Rightarrow> registry_error + login_identity_hash" where
  "login_identity_hash_email C email = tryR (normalize_email email) (\<lambda>normalized. Ok (hash_login_identity C Email normalized))"

definition token_hash :: "crypto \<Rightarrow> string \<Rightarrow> string" where
  "token_hash C token = registry_hex (sha256 C (str_bytes ''mycellium-registry-login-token-v1:'' @ str_bytes token))"

definition random_token :: "getrandom \<Rightarrow> registry_error + string" where
  "random_token rng = (case rng 32 of
      None \<Rightarrow> Err (registry_new ''randomness failed'') | Some bytes \<Rightarrow> Ok (registry_hex bytes))"

definition random_hex_8 :: "getrandom \<Rightarrow> registry_error + string" where
  "random_hex_8 rng = (case rng 8 of
      None \<Rightarrow> Err (registry_new ''randomness failed'') | Some bytes \<Rightarrow> Ok (registry_hex bytes))"

definition sha256_hex :: "crypto \<Rightarrow> bytes \<Rightarrow> string" where
  "sha256_hex C bs = registry_hex (sha256 C bs)"

record account =
  ac_id :: account_id
  ac_created_at :: i64
  ac_updated_at :: i64
  ac_display_handle :: "string option"

definition account_new :: "account_id \<Rightarrow> i64 \<Rightarrow> account" where
  "account_new i now = \<lparr>ac_id = i, ac_created_at = now, ac_updated_at = now, ac_display_handle = None\<rparr>"

record login_identity =
  li_kind :: login_identity_kind
  li_value_hash :: login_identity_hash
  li_account_id :: account_id
  li_verified_at :: i64

record login_token =
  lt_kind :: login_identity_kind
  lt_value_hash :: login_identity_hash
  lt_account_id :: "account_id option"
  lt_expires_at :: i64

record login_challenge =
  lc_token :: string
  lc_expires_at :: i64

record account_login =
  al_account_id :: account_id
  al_created :: bool

record session =
  se_account_id :: account_id
  se_token_hash :: string
  se_expires_at :: i64

record session_token =
  st_token :: string
  st_account_id :: account_id
  st_expires_at :: i64

record blob_ref =
  br_id :: string
  br_size :: u64
  br_sha256 :: string

datatype blob_swap = Applied (previous: "blob_ref option") | Mismatch (current: "blob_ref option")

record rate_limit_bucket =
  rl_count :: u64
  rl_expires_at :: i64

datatype account_blob_kind = Backup | Recovery | PublicRecord

definition blob_kind_str :: "account_blob_kind \<Rightarrow> string" where
  "blob_kind_str k = (case k of Backup \<Rightarrow> ''backup'' | Recovery \<Rightarrow> ''recovery'' | PublicRecord \<Rightarrow> ''public_record'')"

record registry_codecs =
  j_account :: "account json"
  j_login_identity :: "login_identity json"
  j_login_token :: "login_token json"
  j_session :: "session json"
  j_blob_ref :: "blob_ref json"
  j_bucket :: "rate_limit_bucket json"

definition encode_json :: "'a json \<Rightarrow> 'a \<Rightarrow> registry_error + bytes" where
  "encode_json j v = ok_or (registry_new ''encode failed'') (json_to_vec j v)"

definition decode_json :: "'a json \<Rightarrow> bytes \<Rightarrow> registry_error + 'a" where
  "decode_json j bs = ok_or (registry_new ''decode failed'') (json_from_slice j bs)"

text \<open>\<open>parts.join(":")\<close>\<close>

fun registry_key :: "string list \<Rightarrow> string" where
  "registry_key [] = ''''"
| "registry_key [p] = p"
| "registry_key (p # ps) = p @ '':'' @ registry_key ps"

section \<open>The database\<close>

type_synonym table = "(bytes \<times> bytes) list"

record redb =
  t_accounts :: table
  t_login_index :: table
  t_login_tokens :: table
  t_login_token_expiry :: table
  t_blobs :: table
  t_rates :: table
  t_account_sessions :: table
  t_session_index :: table
  t_session_expiry :: table
  t_user_index :: table
  t_rate_expiry :: table
  t_meta :: table

definition redb_empty :: redb where
  "redb_empty = \<lparr>t_accounts = [], t_login_index = [], t_login_tokens = [], t_login_token_expiry = [], t_blobs = [], t_rates = [],
     t_account_sessions = [], t_session_index = [], t_session_expiry = [], t_user_index = [], t_rate_expiry = [], t_meta = []\<rparr>"

definition t_get :: "table \<Rightarrow> string \<Rightarrow> bytes option" where
  "t_get t k = map_of t (str_bytes k)"

definition t_insert :: "table \<Rightarrow> string \<Rightarrow> bytes \<Rightarrow> table" where
  "t_insert t k v = bt_insert (str_bytes k) v t"

definition t_remove :: "table \<Rightarrow> string \<Rightarrow> table" where
  "t_remove t k = bt_remove (str_bytes k) t"

definition t_iter :: "table \<Rightarrow> (string \<times> bytes) list" where
  "t_iter t = map (\<lambda>(k, v). (bytes_str k, v)) t"

text \<open>The body of a write transaction yields its value with the tables to commit, or without when
  the source returns before the commit.\<close>

definition write_tx :: "string option \<Rightarrow> redb \<Rightarrow> (redb \<Rightarrow> registry_error + ('a \<times> redb option)) \<Rightarrow> (registry_error + 'a) \<times> redb" where
  "write_tx flt db body = (case flt of
      Some e \<Rightarrow> (Err (registry_new e), db)
    | None \<Rightarrow> (case body db of
          Err e \<Rightarrow> (Err e, db)
        | Ok (a, None) \<Rightarrow> (Ok a, db)
        | Ok (a, Some db') \<Rightarrow> (Ok a, db')))"

definition read_tx :: "string option \<Rightarrow> redb \<Rightarrow> (redb \<Rightarrow> registry_error + 'a) \<Rightarrow> registry_error + 'a" where
  "read_tx flt db body = (case flt of Some e \<Rightarrow> Err (registry_new e) | None \<Rightarrow> body db)"

definition get_json :: "'a json \<Rightarrow> table \<Rightarrow> string \<Rightarrow> registry_error + 'a option" where
  "get_json j t k = (case t_get t k of None \<Rightarrow> Ok None | Some v \<Rightarrow> tryR (decode_json j v) (\<lambda>a. Ok (Some a)))"

definition stored_account_id :: "bytes \<Rightarrow> registry_error + account_id" where
  "stored_account_id v = tryR (ok_or (registry_new ''stored account id is not utf-8'') (str_from_utf8 v)) account_id_from_str"

definition get_account_id :: "table \<Rightarrow> string \<Rightarrow> registry_error + account_id option" where
  "get_account_id t k = (case t_get t k of None \<Rightarrow> Ok None | Some v \<Rightarrow> tryR (stored_account_id v) (\<lambda>a. Ok (Some a)))"

section \<open>Keys\<close>

definition redb_expiry_key :: "i64 \<Rightarrow> string \<Rightarrow> string" where
  "redb_expiry_key expires_at subject = zero_padded 20 (nat (max expires_at 0)) @ '':'' @ subject"

definition expiry_timestamp :: "string \<Rightarrow> registry_error + i64" where
  "expiry_timestamp k =
     tryR (ok_or (registry_new ''invalid expiry index key'') (split_once (CHR '':'') k)) (\<lambda>(timestamp, _).
     ok_or (registry_new ''invalid expiry index timestamp'') (parse_i64 timestamp))"

definition expiry_subject :: "string \<Rightarrow> registry_error + string" where
  "expiry_subject k =
     tryR (ok_or (registry_new ''invalid expiry index key'') (split_once (CHR '':'') k)) (\<lambda>(_, subject).
     if subject = [] then Err (registry_new ''empty expiry index subject'') else Ok subject)"

definition login_key :: "login_identity_kind \<Rightarrow> login_identity_hash \<Rightarrow> string" where
  "login_key kind hash = registry_key [''login'', login_kind_str kind, hash]"

definition blob_key :: "account_id \<Rightarrow> account_blob_kind \<Rightarrow> string" where
  "blob_key i kind = registry_key [''blob'', i, blob_kind_str kind]"

definition EXPIRY_INDEX_MARKER :: string where
  "EXPIRY_INDEX_MARKER = ''expiry_indexes_v1''"

section \<open>Opening\<close>

fun decode_entries :: "'a json \<Rightarrow> (string \<times> bytes) list \<Rightarrow> registry_error + (string \<times> 'a) list" where
  "decode_entries j [] = Ok []"
| "decode_entries j ((k, v) # es) = tryR (decode_json j v) (\<lambda>a. tryR (decode_entries j es) (\<lambda>r. Ok ((k, a) # r)))"

definition backfill :: "registry_codecs \<Rightarrow> redb \<Rightarrow> registry_error + redb" where
  "backfill J db =
     tryR (decode_entries (j_login_token J) (t_iter (t_login_tokens db))) (\<lambda>login_entries.
     tryR (decode_entries (j_session J) (t_iter (t_account_sessions db))) (\<lambda>session_entries.
     tryR (decode_entries (j_bucket J) (t_iter (t_rates db))) (\<lambda>rate_entries.
     Ok (db\<lparr>t_login_token_expiry := fold (\<lambda>(k, token) t. t_insert t (redb_expiry_key (lt_expires_at token) k) []) login_entries (t_login_token_expiry db),
       t_session_expiry := fold (\<lambda>(acc, s) t. t_insert t (redb_expiry_key (se_expires_at s) acc) (str_bytes (se_token_hash s))) session_entries (t_session_expiry db),
       t_rate_expiry := fold (\<lambda>(k, b) t. t_insert t (redb_expiry_key (rl_expires_at b) k) []) rate_entries (t_rate_expiry db),
       t_meta := t_insert (t_meta db) EXPIRY_INDEX_MARKER (str_bytes ''1'')\<rparr>))))"

definition redb_init :: "registry_codecs \<Rightarrow> string option \<Rightarrow> redb \<Rightarrow> (registry_error + unit) \<times> redb" where
  "redb_init J flt db = write_tx flt db (\<lambda>db.
     if t_get (t_meta db) EXPIRY_INDEX_MARKER = None then tryR (backfill J db) (\<lambda>db. Ok ((), Some db))
     else Ok ((), Some db))"
section \<open>Login tokens and accounts\<close>

definition put_login_token :: "registry_codecs \<Rightarrow> string option \<Rightarrow> redb \<Rightarrow> string \<Rightarrow> login_token \<Rightarrow> (registry_error + unit) \<times> redb" where
  "put_login_token J flt db th token = write_tx flt db (\<lambda>db.
     tryR (encode_json (j_login_token J) token) (\<lambda>v.
     Ok ((), Some (db\<lparr>t_login_tokens := t_insert (t_login_tokens db) th v,
       t_login_token_expiry := t_insert (t_login_token_expiry db) (redb_expiry_key (lt_expires_at token) th) []\<rparr>))))"

definition take_login_token :: "registry_codecs \<Rightarrow> string option \<Rightarrow> redb \<Rightarrow> string \<Rightarrow> (registry_error + login_token option) \<times> redb" where
  "take_login_token J flt db th = write_tx flt db (\<lambda>db. case t_get (t_login_tokens db) th of
       None \<Rightarrow> Ok (None, None)
     | Some v \<Rightarrow> tryR (decode_json (j_login_token J) v) (\<lambda>token.
         Ok (Some token, Some (db\<lparr>t_login_tokens := t_remove (t_login_tokens db) th,
           t_login_token_expiry := t_remove (t_login_token_expiry db) (redb_expiry_key (lt_expires_at token) th)\<rparr>))))"

definition account_id_by_login :: "string option \<Rightarrow> redb \<Rightarrow> login_identity_kind \<Rightarrow> login_identity_hash \<Rightarrow> registry_error + account_id option" where
  "account_id_by_login flt db kind hash = read_tx flt db (\<lambda>db. get_account_id (t_login_index db) (login_key kind hash))"

definition get_or_create_account_for_login ::
    "registry_codecs \<Rightarrow> string option \<Rightarrow> redb \<Rightarrow> login_identity_kind \<Rightarrow> login_identity_hash \<Rightarrow> account \<Rightarrow> i64 \<Rightarrow>
     (registry_error + account_login) \<times> redb" where
  "get_or_create_account_for_login J flt db kind hash new_account verified_at = write_tx flt db (\<lambda>db.
     tryR (get_account_id (t_login_index db) (login_key kind hash)) (\<lambda>existing. case existing of
       Some i \<Rightarrow> Ok (\<lparr>al_account_id = i, al_created = False\<rparr>, Some db)
     | None \<Rightarrow>
         let i = ac_id new_account;
             identity = \<lparr>li_kind = kind, li_value_hash = hash, li_account_id = i, li_verified_at = verified_at\<rparr>
         in tryR (encode_json (j_account J) new_account) (\<lambda>account_bytes.
            tryR (encode_json (j_login_identity J) identity) (\<lambda>identity_bytes.
            Ok (\<lparr>al_account_id = i, al_created = True\<rparr>,
              Some (db\<lparr>t_login_index := t_insert (t_login_index db) (login_key kind hash) (str_bytes i),
                t_accounts := t_insert (t_accounts db) i account_bytes,
                t_blobs := t_insert (t_blobs db) (registry_key [''login_identity'', i, login_kind_str kind]) identity_bytes\<rparr>))))))"

definition account_get :: "registry_codecs \<Rightarrow> string option \<Rightarrow> redb \<Rightarrow> account_id \<Rightarrow> registry_error + account option" where
  "account_get J flt db i = read_tx flt db (\<lambda>db. get_json (j_account J) (t_accounts db) i)"

section \<open>Blob pointers and the user index\<close>

definition compare_and_swap_blob_ref ::
    "registry_codecs \<Rightarrow> string option \<Rightarrow> redb \<Rightarrow> account_id \<Rightarrow> account_blob_kind \<Rightarrow> blob_ref option \<Rightarrow> blob_ref \<Rightarrow>
     (registry_error + blob_swap) \<times> redb" where
  "compare_and_swap_blob_ref J flt db i kind expected next_ref = write_tx flt db (\<lambda>db.
     tryR (get_json (j_blob_ref J) (t_blobs db) (blob_key i kind)) (\<lambda>cur.
     if cur \<noteq> expected then Ok (Mismatch cur, None)
     else tryR (encode_json (j_blob_ref J) next_ref) (\<lambda>v.
       Ok (Applied cur, Some (db\<lparr>t_blobs := t_insert (t_blobs db) (blob_key i kind) v\<rparr>)))))"

definition blob_ref_get :: "registry_codecs \<Rightarrow> string option \<Rightarrow> redb \<Rightarrow> account_id \<Rightarrow> account_blob_kind \<Rightarrow> registry_error + blob_ref option" where
  "blob_ref_get J flt db i kind = read_tx flt db (\<lambda>db. get_json (j_blob_ref J) (t_blobs db) (blob_key i kind))"

definition bind_user :: "table \<Rightarrow> account_id \<Rightarrow> user_id \<Rightarrow> user_id option \<Rightarrow> table" where
  "bind_user users i uid previous_uid =
     (let users = t_insert users uid (str_bytes i) in
      case previous_uid of
        Some p \<Rightarrow> if p \<noteq> uid \<and> t_get users p = Some (str_bytes i) then t_remove users p else users
      | None \<Rightarrow> users)"

definition compare_and_swap_public_record_ref ::
    "registry_codecs \<Rightarrow> string option \<Rightarrow> redb \<Rightarrow> account_id \<Rightarrow> user_id \<Rightarrow> user_id option \<Rightarrow> blob_ref option \<Rightarrow> blob_ref \<Rightarrow>
     (registry_error + blob_swap) \<times> redb" where
  "compare_and_swap_public_record_ref J flt db i uid previous_uid expected next_ref = write_tx flt db (\<lambda>db.
     tryR (get_json (j_blob_ref J) (t_blobs db) (blob_key i PublicRecord)) (\<lambda>cur.
     if cur \<noteq> expected then Ok (Mismatch cur, None)
     else if t_get (t_user_index db) uid \<noteq> None \<and> t_get (t_user_index db) uid \<noteq> Some (str_bytes i)
     then Err (registry_conflict ''protocol user id is already bound to another account'')
     else tryR (encode_json (j_blob_ref J) next_ref) (\<lambda>v.
       Ok (Applied cur, Some (db\<lparr>t_user_index := bind_user (t_user_index db) i uid previous_uid,
         t_blobs := t_insert (t_blobs db) (blob_key i PublicRecord) v\<rparr>)))))"

definition account_id_by_user_id :: "string option \<Rightarrow> redb \<Rightarrow> user_id \<Rightarrow> registry_error + account_id option" where
  "account_id_by_user_id flt db uid = read_tx flt db (\<lambda>db. get_account_id (t_user_index db) uid)"

section \<open>Sessions\<close>

definition replace_session :: "registry_codecs \<Rightarrow> string option \<Rightarrow> redb \<Rightarrow> session \<Rightarrow> (registry_error + unit) \<times> redb" where
  "replace_session J flt db s = write_tx flt db (\<lambda>db.
     tryR (get_json (j_session J) (t_account_sessions db) (se_account_id s)) (\<lambda>prev.
     tryR (encode_json (j_session J) s) (\<lambda>v.
     let index = (case prev of Some p \<Rightarrow> t_remove (t_session_index db) (se_token_hash p) | None \<Rightarrow> t_session_index db);
         expiry = (case prev of Some p \<Rightarrow> t_remove (t_session_expiry db) (redb_expiry_key (se_expires_at p) (se_account_id s))
           | None \<Rightarrow> t_session_expiry db)
     in Ok ((), Some (db\<lparr>t_account_sessions := t_insert (t_account_sessions db) (se_account_id s) v,
          t_session_index := t_insert index (se_token_hash s) (str_bytes (se_account_id s)),
          t_session_expiry := t_insert expiry (redb_expiry_key (se_expires_at s) (se_account_id s)) (str_bytes (se_token_hash s))\<rparr>)))))"

definition session_get :: "registry_codecs \<Rightarrow> string option \<Rightarrow> redb \<Rightarrow> string \<Rightarrow> registry_error + session option" where
  "session_get J flt db th = read_tx flt db (\<lambda>db. case t_get (t_session_index db) th of
       None \<Rightarrow> Ok None
     | Some v \<Rightarrow> tryR (ok_or (registry_new ''stored account id is not utf-8'') (str_from_utf8 v)) (\<lambda>i.
         tryR (get_json (j_session J) (t_account_sessions db) i) (\<lambda>found. case found of
           None \<Rightarrow> Ok None
         | Some s \<Rightarrow> if se_token_hash s \<noteq> th then Ok None else Ok (Some s))))"

section \<open>Rate limits\<close>

definition next_bucket :: "rate_limit_bucket option \<Rightarrow> i64 \<Rightarrow> i64 \<Rightarrow> rate_limit_bucket" where
  "next_bucket cur now window_secs =
     (let fresh = \<lparr>rl_count = 1, rl_expires_at = i64_saturating_add now window_secs\<rparr> in
      case cur of
        Some b \<Rightarrow> if rl_expires_at b > now then b\<lparr>rl_count := saturating_add (rl_count b) 1\<rparr> else fresh
      | None \<Rightarrow> fresh)"

definition bump_rate_limit :: "registry_codecs \<Rightarrow> string option \<Rightarrow> redb \<Rightarrow> string \<Rightarrow> i64 \<Rightarrow> i64 \<Rightarrow> (registry_error + rate_limit_bucket) \<times> redb" where
  "bump_rate_limit J flt db k now window_secs =
     (if k = [] \<or> window_secs \<le> 0 then (Err (registry_new ''invalid rate-limit bucket''), db)
      else write_tx flt db (\<lambda>db.
        tryR (get_json (j_bucket J) (t_rates db) k) (\<lambda>cur.
        let nxt = next_bucket cur now window_secs in
        tryR (encode_json (j_bucket J) nxt) (\<lambda>v.
        let expiry = (case cur of Some b \<Rightarrow> t_remove (t_rate_expiry db) (redb_expiry_key (rl_expires_at b) k) | None \<Rightarrow> t_rate_expiry db)
        in Ok (nxt, Some (db\<lparr>t_rates := t_insert (t_rates db) k v,
             t_rate_expiry := t_insert expiry (redb_expiry_key (rl_expires_at nxt) k) []\<rparr>))))))"

section \<open>Removing what has expired\<close>

text \<open>The scan of an expiry index: entries in key order until one that is not due or the limit.  \<open>p\<close>
  reads the value of an entry.\<close>

fun scan_due ::
    "(bytes \<Rightarrow> registry_error + 'v) \<Rightarrow> i64 \<Rightarrow> nat \<Rightarrow> nat \<Rightarrow> (string \<times> bytes) list \<Rightarrow> (string \<times> string \<times> 'v \<times> i64) list \<Rightarrow>
     registry_error + (string \<times> string \<times> 'v \<times> i64) list" where
  "scan_due p now limit removed [] due = Ok due"
| "scan_due p now limit removed ((k, v) # es) due =
     tryR (expiry_timestamp k) (\<lambda>expires_at.
     if expires_at > now then Ok due
     else tryR (p v) (\<lambda>x. tryR (expiry_subject k) (\<lambda>subject.
       let due = due @ [(k, subject, x, expires_at)] in
       if removed + length due \<ge> limit then Ok due else scan_due p now limit removed es due)))"

definition purge_tokens :: "i64 \<Rightarrow> nat \<Rightarrow> redb \<Rightarrow> registry_error + (nat \<times> redb)" where
  "purge_tokens now limit db =
     tryR (scan_due (\<lambda>_. Ok ()) now limit 0 (t_iter (t_login_token_expiry db)) []) (\<lambda>due.
     Ok (length due, fold (\<lambda>(k, th, _, _) db. db\<lparr>t_login_tokens := t_remove (t_login_tokens db) th,
       t_login_token_expiry := t_remove (t_login_token_expiry db) k\<rparr>) due db))"

definition utf8_token_hash :: "bytes \<Rightarrow> registry_error + string" where
  "utf8_token_hash v = ok_or (registry_new ''stored session token hash is not utf-8'') (str_from_utf8 v)"

fun drop_sessions :: "registry_codecs \<Rightarrow> (string \<times> string \<times> string \<times> i64) list \<Rightarrow> redb \<Rightarrow> registry_error + redb" where
  "drop_sessions J [] db = Ok db"
| "drop_sessions J ((k, acc, th, expires_at) # due) db =
     tryR (get_json (j_session J) (t_account_sessions db) acc) (\<lambda>cur.
     let db = (case cur of
           Some s \<Rightarrow> if se_token_hash s = th \<and> se_expires_at s = expires_at
             then db\<lparr>t_account_sessions := t_remove (t_account_sessions db) acc, t_session_index := t_remove (t_session_index db) th\<rparr>
             else db
         | None \<Rightarrow> db)
     in drop_sessions J due (db\<lparr>t_session_expiry := t_remove (t_session_expiry db) k\<rparr>))"

definition purge_sessions :: "registry_codecs \<Rightarrow> i64 \<Rightarrow> nat \<Rightarrow> nat \<times> redb \<Rightarrow> registry_error + (nat \<times> redb)" where
  "purge_sessions J now limit r = (case r of (removed, db) \<Rightarrow>
     if removed < limit then
       tryR (scan_due utf8_token_hash now limit removed (t_iter (t_session_expiry db)) []) (\<lambda>due.
       tryR (drop_sessions J due db) (\<lambda>db. Ok (removed + length due, db)))
     else Ok (removed, db))"

fun drop_rates :: "registry_codecs \<Rightarrow> (string \<times> string \<times> unit \<times> i64) list \<Rightarrow> redb \<Rightarrow> registry_error + redb" where
  "drop_rates J [] db = Ok db"
| "drop_rates J ((k, rk, _, expires_at) # due) db =
     tryR (get_json (j_bucket J) (t_rates db) rk) (\<lambda>cur.
     let db = (case cur of
           Some b \<Rightarrow> if rl_expires_at b = expires_at then db\<lparr>t_rates := t_remove (t_rates db) rk\<rparr> else db
         | None \<Rightarrow> db)
     in drop_rates J due (db\<lparr>t_rate_expiry := t_remove (t_rate_expiry db) k\<rparr>))"

definition purge_rates :: "registry_codecs \<Rightarrow> i64 \<Rightarrow> nat \<Rightarrow> nat \<times> redb \<Rightarrow> registry_error + (nat \<times> redb)" where
  "purge_rates J now limit r = (case r of (removed, db) \<Rightarrow>
     if removed < limit then
       tryR (scan_due (\<lambda>_. Ok ()) now limit removed (t_iter (t_rate_expiry db)) []) (\<lambda>due.
       tryR (drop_rates J due db) (\<lambda>db. Ok (removed + length due, db)))
     else Ok (removed, db))"

definition purge_expired :: "registry_codecs \<Rightarrow> string option \<Rightarrow> redb \<Rightarrow> i64 \<Rightarrow> nat \<Rightarrow> (registry_error + nat) \<times> redb" where
  "purge_expired J flt db now limit =
     (if limit = 0 then (Ok 0, db)
      else write_tx flt db (\<lambda>db.
        tryR (purge_tokens now limit db) (\<lambda>r.
        tryR (purge_sessions J now limit r) (\<lambda>r.
        tryR (purge_rates J now limit r) (\<lambda>(removed, db). Ok (removed, Some db))))))"

section \<open>The service\<close>

text \<open>A call of the service runs several transactions; \<open>flt n\<close> is the engine's error in its \<open>n\<close>-th.\<close>

definition request_email_login ::
    "crypto \<Rightarrow> registry_codecs \<Rightarrow> (nat \<Rightarrow> string option) \<Rightarrow> getrandom \<Rightarrow> redb \<Rightarrow> string \<Rightarrow> i64 \<Rightarrow> i64 \<Rightarrow>
     (registry_error + login_challenge) \<times> redb" where
  "request_email_login C J flt rng db email now ttl_secs =
     (if ttl_secs \<le> 0 then (Err (registry_invalid ''login ttl must be positive''), db)
      else tryE (login_identity_hash_email C email) db (\<lambda>value_hash.
        tryE (account_id_by_login (flt 0) db Email value_hash) db (\<lambda>i.
        tryE (random_token rng) db (\<lambda>token.
        tryS (put_login_token J (flt 1) db (token_hash C token)
          \<lparr>lt_kind = Email, lt_value_hash = value_hash, lt_account_id = i, lt_expires_at = i64_saturating_add now ttl_secs\<rparr>) (\<lambda>_ db.
        (Ok \<lparr>lc_token = token, lc_expires_at = i64_saturating_add now ttl_secs\<rparr>, db))))))"

definition confirm_login ::
    "crypto \<Rightarrow> registry_codecs \<Rightarrow> (nat \<Rightarrow> string option) \<Rightarrow> getrandom \<Rightarrow> redb \<Rightarrow> string \<Rightarrow> i64 \<Rightarrow> (registry_error + account_login) \<times> redb" where
  "confirm_login C J flt rng db token now =
     tryS (take_login_token J (flt 0) db (token_hash C token)) (\<lambda>found db. case found of
       None \<Rightarrow> (Err (registry_invalid ''invalid login token''), db)
     | Some login \<Rightarrow>
         if lt_expires_at login \<le> now then (Err (registry_invalid ''expired login token''), db)
         else case lt_account_id login of
           Some i \<Rightarrow> (Ok \<lparr>al_account_id = i, al_created = False\<rparr>, db)
         | None \<Rightarrow> tryE (account_id_generate rng) db (\<lambda>i.
             get_or_create_account_for_login J (flt 1) db (lt_kind login) (lt_value_hash login) (account_new i now) now))"

definition create_session ::
    "crypto \<Rightarrow> registry_codecs \<Rightarrow> (nat \<Rightarrow> string option) \<Rightarrow> getrandom \<Rightarrow> redb \<Rightarrow> account_id \<Rightarrow> i64 \<Rightarrow> i64 \<Rightarrow>
     (registry_error + session_token) \<times> redb" where
  "create_session C J flt rng db i now ttl_secs =
     (if ttl_secs \<le> 0 then (Err (registry_invalid ''session ttl must be positive''), db)
      else tryE (random_token rng) db (\<lambda>token.
        let expires_at = i64_saturating_add now ttl_secs in
        tryS (replace_session J (flt 0) db \<lparr>se_account_id = i, se_token_hash = token_hash C token, se_expires_at = expires_at\<rparr>) (\<lambda>_ db.
        (Ok \<lparr>st_token = token, st_account_id = i, st_expires_at = expires_at\<rparr>, db))))"

definition account_for_session ::
    "crypto \<Rightarrow> registry_codecs \<Rightarrow> (nat \<Rightarrow> string option) \<Rightarrow> redb \<Rightarrow> string \<Rightarrow> i64 \<Rightarrow> registry_error + account_id option" where
  "account_for_session C J flt db token now =
     tryR (session_get J (flt 0) db (token_hash C token)) (\<lambda>found. case found of
       None \<Rightarrow> Ok None
     | Some s \<Rightarrow> if se_expires_at s \<le> now then Ok None else Ok (Some (se_account_id s)))"

end
