(* ===== verification/RegistrySafety.thy ===== *)
theory RegistrySafety
  imports Registry
begin

text \<open>
  Correctness of the registry's metadata: the invariant that ties the tables to their expiry
  indexes, the steps of the service and their runs with the log of issued sessions, and what
  sessions, logins and the removal of expired entries promise.
\<close>

section \<open>Tables\<close>

lemma t_get_insert [simp]: "t_get (t_insert t k v) k' = (if k' = k then Some v else t_get t k')"
  by (simp add: t_get_def t_insert_def)

lemma t_get_remove [simp]: "t_get (t_remove t k) k' = (if k' = k then None else t_get t k')"
  by (simp add: t_get_def t_remove_def)

lemma t_get_empty [simp]: "t_get [] k = None"
  by (simp add: t_get_def)

lemma t_sorted [intro]: "bt_sorted t \<Longrightarrow> bt_sorted (t_insert t k v)" "bt_sorted t \<Longrightarrow> bt_sorted (t_remove t k)"
  by (simp_all add: t_insert_def t_remove_def bt_sorted_insert bt_sorted_remove)

lemma t_iter_get: "bt_sorted t \<Longrightarrow> (k, v) \<in> set (t_iter t) \<longleftrightarrow> t_get t k = Some v"
proof -
  assume t: "bt_sorted t"
  have "distinct (map fst t)"
    using t by (induction t) (auto simp: bt_sorted_def)
  moreover have "(k, v) \<in> set (t_iter t) \<longleftrightarrow> (str_bytes k, v) \<in> set t"
    by (force simp: t_iter_def)
  ultimately show ?thesis by (simp add: t_get_def)
qed

lemma write_tx_cases:
  assumes "write_tx flt db body = (r, db')"
  obtains e where "flt = Some e" "r = Err (registry_new e)" "db' = db"
  | e where "flt = None" "body db = Err e" "r = Err e" "db' = db"
  | a where "flt = None" "body db = Ok (a, None)" "r = Ok a" "db' = db"
  | a where "flt = None" "body db = Ok (a, Some db')" "r = Ok a"
  using assms by (auto simp: write_tx_def split: option.splits sum.splits prod.splits)

lemma write_tx_None: "write_tx None db body = (case body db of Err e \<Rightarrow> (Err e, db) | Ok (a, None) \<Rightarrow> (Ok a, db) | Ok (a, Some db') \<Rightarrow> (Ok a, db'))"
  by (simp add: write_tx_def)

lemma write_tx_Ok: "write_tx flt db body = (Ok a, db') \<longleftrightarrow> flt = None \<and> (body db = Ok (a, Some db') \<or> body db = Ok (a, None) \<and> db' = db)"
  by (auto simp: write_tx_def split: option.splits sum.splits prod.splits)

lemma json_okE: "json_ok j \<Longrightarrow> (\<And>b. json_to_vec j v = Some b \<Longrightarrow> json_from_slice j b = Some v \<Longrightarrow> thesis) \<Longrightarrow> thesis"
  by (meson json_ok_def)

lemma json_encode_decode: "json_ok j \<Longrightarrow> encode_json j v = Ok b \<Longrightarrow> json_from_slice j b = Some v"
  by (auto simp: encode_json_def json_ok_def) (metis option.inject)

lemma json_encode_ok: "json_ok j \<Longrightarrow> \<exists>b. encode_json j v = Ok b \<and> json_from_slice j b = Some v"
  by (auto simp: encode_json_def json_ok_def)

lemma decode_json_Ok [simp]: "decode_json j b = Ok v \<longleftrightarrow> json_from_slice j b = Some v"
  by (simp add: decode_json_def)

lemma get_json_Ok:
  "get_json j t k = Ok x \<longleftrightarrow> (case x of None \<Rightarrow> t_get t k = None | Some a \<Rightarrow> \<exists>b. t_get t k = Some b \<and> json_from_slice j b = Some a)"
  by (auto simp: get_json_def result_elims split: option.splits)

definition json_codecs_ok :: "registry_codecs \<Rightarrow> bool" where
  "json_codecs_ok J \<longleftrightarrow> json_ok (j_account J) \<and> json_ok (j_login_identity J) \<and> json_ok (j_login_token J)
     \<and> json_ok (j_session J) \<and> json_ok (j_blob_ref J) \<and> json_ok (j_bucket J)"

section \<open>Expiry keys\<close>

definition i64_time :: "i64 \<Rightarrow> bool" where
  "i64_time t \<longleftrightarrow> 0 \<le> t \<and> t \<le> I64_MAX"

lemma length_time: "i64_time t \<Longrightarrow> length (zero_padded 20 (nat (max t 0))) = 20"
  by (rule length_zero_padded_eq) (auto simp: i64_time_def I64_MAX_def nat_less_iff)

lemma i64_time_add: "0 \<le> now \<Longrightarrow> 0 < ttl \<Longrightarrow> i64_time (i64_saturating_add now ttl)"
  by (simp add: i64_time_def i64_saturating_add_def I64_MAX_def I64_MIN_def)

lemma padded_no_colon: "CHR '':'' \<notin> set (zero_padded w n)"
  using digits_zero_padded [of w n] by (auto simp: list_all_iff is_digit_char_def)

lemma expiry_timestamp_key [simp]: "i64_time t \<Longrightarrow> expiry_timestamp (redb_expiry_key t s) = Ok t"
  by (simp add: expiry_timestamp_def redb_expiry_key_def split_once_append padded_no_colon parse_zero_padded i64_time_def)

lemma expiry_subject_key [simp]: "s \<noteq> [] \<Longrightarrow> expiry_subject (redb_expiry_key t s) = Ok s"
  by (simp add: expiry_subject_def redb_expiry_key_def split_once_append padded_no_colon)

lemma redb_expiry_key_inject:
  assumes "i64_time t" "i64_time t'"
  shows "redb_expiry_key t s = redb_expiry_key t' s' \<longleftrightarrow> t = t' \<and> s = s'"
proof
  assume eq: "redb_expiry_key t s = redb_expiry_key t' s'"
  have "length (zero_padded 20 (nat (max t 0))) = length (zero_padded 20 (nat (max t' 0)))"
    by (simp add: length_time assms)
  with eq have "zero_padded 20 (nat (max t 0)) = zero_padded 20 (nat (max t' 0))" "s = s'" by (simp_all add: redb_expiry_key_def)
  with assms show "t = t' \<and> s = s'" by (auto simp: zero_padded_inject i64_time_def)
qed simp

lemma redb_expiry_key_order:
  assumes "i64_time t" "i64_time t'" "bytes_less (str_bytes (redb_expiry_key t s)) (str_bytes (redb_expiry_key t' s'))"
  shows "t \<le> t'"
proof (rule ccontr)
  assume "\<not> t \<le> t'"
  then have "nat (max t' 0) < nat (max t 0)" using assms(1,2) by (simp add: i64_time_def)
  then have "bytes_less (str_bytes (redb_expiry_key t' s')) (str_bytes (redb_expiry_key t s))"
    unfolding redb_expiry_key_def using assms
    by (intro digits_order) (simp_all only: digits_zero_padded decimal_value_zero_padded length_time)
  with assms(3) bytes_less_asym show False by blast
qed
section \<open>The scan of an expiry index\<close>

text \<open>An index holds one entry per expiry time and subject.\<close>

definition expiry_index :: "table \<Rightarrow> bool" where
  "expiry_index t \<longleftrightarrow> bt_sorted t \<and> (\<forall>k v. t_get t k = Some v \<longrightarrow> (\<exists>e s. k = redb_expiry_key e s \<and> i64_time e \<and> s \<noteq> []))"

abbreviation index_entry :: "i64 \<times> string \<times> bytes \<Rightarrow> string \<times> bytes" where
  "index_entry x \<equiv> (case x of (e, s, v) \<Rightarrow> (redb_expiry_key e s, v))"

lemma expiry_items:
  assumes "expiry_index t"
  obtains items where "t_iter t = map index_entry items" "\<forall>(e, s, v) \<in> set items. i64_time e \<and> s \<noteq> []" "sorted (map fst items)"
proof -
  have t: "sorted_wrt (\<lambda>a b. bytes_less (str_bytes (fst a)) (str_bytes (fst b))) (t_iter t)"
    using assms by (simp add: expiry_index_def bt_sorted_def t_iter_def sorted_wrt_map split_def)
  have "\<forall>(k, v) \<in> set (t_iter t). \<exists>e s. k = redb_expiry_key e s \<and> i64_time e \<and> s \<noteq> []"
    using assms by (auto simp: expiry_index_def t_iter_get)
  with t have "\<exists>items. t_iter t = map index_entry items \<and> (\<forall>(e, s, v) \<in> set items. i64_time e \<and> s \<noteq> []) \<and> sorted (map fst items)"
  proof (induction "t_iter t" arbitrary: t)
    case Nil
    then show ?case by (intro exI [of _ "[]"]) simp
  next
    case (Cons x es t)
    obtain k v where x: "x = (k, v)" by fastforce
    have es: "es = t_iter (tl t)" using Cons.hyps(2) by (cases t) (auto simp: t_iter_def)
    have "\<exists>items. es = map index_entry items \<and> (\<forall>(e, s, v) \<in> set items. i64_time e \<and> s \<noteq> []) \<and> sorted (map fst items)"
      using Cons.hyps(1) [of "tl t"] Cons.prems es unfolding Cons.hyps(2) [symmetric] by simp
    then obtain items where items: "es = map index_entry items" "\<forall>(e, s, v) \<in> set items. i64_time e \<and> s \<noteq> []" "sorted (map fst items)" by blast
    obtain e s where k: "k = redb_expiry_key e s" "i64_time e" "s \<noteq> []"
      using Cons.prems(2) unfolding Cons.hyps(2) [symmetric] x by auto
    have "e \<le> e'" if "(e', s', v') \<in> set items" for e' s' v'
    proof -
      have "(redb_expiry_key e' s', v') \<in> set es" using that items(1) by force
      then have "bytes_less (str_bytes k) (str_bytes (redb_expiry_key e' s'))"
        using Cons.prems(1) unfolding Cons.hyps(2) [symmetric] x by auto
      with k items(2) that show ?thesis by (auto intro: redb_expiry_key_order)
    qed
    then show ?case
      using items k x unfolding Cons.hyps(2) [symmetric] by (intro exI [of _ "(e, s, v) # items"]) auto
  qed
  with that show thesis by blast
qed

lemma scan_due_items:
  assumes "removed + length due < limit" "\<forall>(e, s, v) \<in> set items. i64_time e \<and> s \<noteq> [] \<and> p v = Ok (q v)"
  shows "scan_due p now limit removed (map index_entry items) due =
    Ok (due @ map (\<lambda>(e, s, v). (redb_expiry_key e s, s, q v, e)) (take (limit - removed - length due) (takeWhile (\<lambda>x. fst x \<le> now) items)))"
  using assms
proof (induction items arbitrary: due)
  case (Cons x items)
  obtain e s v where x: "x = (e, s, v)" by (cases x)
  then have ok: "i64_time e" "s \<noteq> []" "p v = Ok (q v)" using Cons.prems(2) by auto
  obtain n where n: "limit - removed - length due = Suc n" using Cons.prems(1) by (cases "limit - removed - length due") auto
  show ?case
  proof (cases "e \<le> now \<and> removed + length due + 1 < limit")
    case True
    have rest: "\<forall>(e, s, v) \<in> set items. i64_time e \<and> s \<noteq> [] \<and> p v = Ok (q v)" using Cons.prems(2) by simp
    have "limit - removed - length (due @ [(redb_expiry_key e s, s, q v, e)]) = n" using n by simp
    with Cons.IH [of "due @ [(redb_expiry_key e s, s, q v, e)]"] rest True ok x n show ?thesis by simp
  next
    case False
    then consider "now < e" | "e \<le> now" "n = 0" using n by fastforce
    then show ?thesis using ok x n by cases (auto simp: Let_def)
  qed
qed simp

lemma sorted_takeWhile: "sorted (map f xs) \<Longrightarrow> takeWhile (\<lambda>x. f x \<le> b) xs = filter (\<lambda>x. f x \<le> b) xs"
proof (induction xs)
  case (Cons x xs)
  then show ?case by (cases "f x \<le> b") (auto simp: empty_filter_conv dest: order.trans)
qed simp

lemma distinct_map_sublist: "distinct (map f xs) \<Longrightarrow> distinct (map f (take n (takeWhile p xs)))"
  by (auto simp: distinct_map dest!: in_set_takeD set_takeWhileD intro: inj_on_subset)

lemma scan_due_spec:
  assumes "expiry_index t" "\<And>k v. t_get t k = Some v \<Longrightarrow> p v = Ok (q v)" "removed < limit"
  obtains due where "scan_due p now limit removed (t_iter t) [] = Ok due" "removed + length due \<le> limit"
    "\<And>k s x e. (k, s, x, e) \<in> set due \<Longrightarrow> k = redb_expiry_key e s \<and> i64_time e \<and> s \<noteq> [] \<and> e \<le> now \<and> (\<exists>v. t_get t k = Some v \<and> x = q v)"
    "distinct (map fst due)" "\<And>e s v. removed + length due < limit \<Longrightarrow> t_get t (redb_expiry_key e s) = Some v \<Longrightarrow> i64_time e \<Longrightarrow> e \<le> now \<Longrightarrow> (redb_expiry_key e s, s, q v, e) \<in> set due"
proof -
  obtain items where items: "t_iter t = map index_entry items" "\<forall>(e, s, v) \<in> set items. i64_time e \<and> s \<noteq> []" "sorted (map fst items)"
    by (rule expiry_items [OF assms(1)])
  have srt: "bt_sorted t" using assms(1) by (simp add: expiry_index_def)
  have mem: "t_get t (redb_expiry_key e s) = Some v" if "(e, s, v) \<in> set items" for e s v
    using that items(1) srt by (force simp: t_iter_get [symmetric])
  have ok: "\<forall>(e, s, v) \<in> set items. i64_time e \<and> s \<noteq> [] \<and> p v = Ok (q v)"
    using items(2) mem assms(2) by fast
  let ?due = "take (limit - removed) (takeWhile (\<lambda>x. fst x \<le> now) items)"
  let ?f = "\<lambda>(e, s, v). (redb_expiry_key e s, s, q v, e)"
  have run: "scan_due p now limit removed (t_iter t) [] = Ok (map ?f ?due)"
    using scan_due_items [of removed "[]" limit items p q now] assms(3) ok items(1) by simp
  show thesis
  proof (rule that [OF run])
    show "removed + length (map ?f ?due) \<le> limit" using assms(3) by simp
    fix k s x e assume "(k, s, x, e) \<in> set (map ?f ?due)"
    then obtain v where v: "(e, s, v) \<in> set ?due" "k = redb_expiry_key e s" "x = q v" by auto
    then have "(e, s, v) \<in> set items" "e \<le> now" by (auto dest!: in_set_takeD set_takeWhileD)
    with v items(2) mem show "k = redb_expiry_key e s \<and> i64_time e \<and> s \<noteq> [] \<and> e \<le> now \<and> (\<exists>v. t_get t k = Some v \<and> x = q v)" by blast
  next
    have "distinct (map fst t)" using srt by (induction t) (auto simp: bt_sorted_def)
    moreover have "inj bytes_str" by (metis injI str_bytes_str)
    ultimately have "distinct (map bytes_str (map fst t))" by (simp add: distinct_map inj_on_def)
    moreover have "map bytes_str (map fst t) = map (\<lambda>(e, s, v). redb_expiry_key e s) items"
      using arg_cong [OF items(1), of "map fst"] by (simp add: t_iter_def split_def comp_def)
    moreover have "map fst (map ?f ?due) = map (\<lambda>(e, s, v). redb_expiry_key e s) ?due" by (simp add: split_def comp_def)
    ultimately show "distinct (map fst (map ?f ?due))" by (simp only: distinct_map_sublist)
  next
    fix e s v assume few: "removed + length (map ?f ?due) < limit" and get: "t_get t (redb_expiry_key e s) = Some v" "i64_time e" "e \<le> now"
    have "index_entry (e, s, v) \<in> set (map index_entry items)" using get(1) srt items(1) by (simp add: t_iter_get [symmetric])
    then obtain e' s' v' where i: "(e', s', v') \<in> set items" "redb_expiry_key e' s' = redb_expiry_key e s" "v' = v" by auto
    then have "(e, s, v) \<in> set items" using items(2) get(2) redb_expiry_key_inject [of e' e s' s] by fastforce
    moreover have "takeWhile (\<lambda>x. fst x \<le> now) items = filter (\<lambda>x. fst x \<le> now) items"
      by (rule sorted_takeWhile [OF items(3)])
    moreover have "?due = takeWhile (\<lambda>x. fst x \<le> now) items" using few by (auto simp: min_def split: if_splits)
    ultimately show "(redb_expiry_key e s, s, q v, e) \<in> set (map ?f ?due)" using get(3) by force
  qed
qed
section \<open>Tables with an expiry index\<close>

text \<open>Every entry has its one index entry, and every index entry belongs to an entry.\<close>

definition tracked :: "'a json \<Rightarrow> ('a \<Rightarrow> i64) \<Rightarrow> ('a \<Rightarrow> bytes) \<Rightarrow> table \<Rightarrow> table \<Rightarrow> bool" where
  "tracked j ex val t ix \<longleftrightarrow> bt_sorted ix
     \<and> (\<forall>k v. t_get t k = Some v \<longrightarrow> (\<exists>a. json_from_slice j v = Some a \<and> k \<noteq> [] \<and> i64_time (ex a)
          \<and> t_get ix (redb_expiry_key (ex a) k) = Some (val a)))
     \<and> (\<forall>ik iv. t_get ix ik = Some iv \<longrightarrow> (\<exists>k v a. t_get t k = Some v \<and> json_from_slice j v = Some a
          \<and> ik = redb_expiry_key (ex a) k \<and> iv = val a))"

lemma trackedD:
  assumes "tracked j ex val t ix" "t_get t k = Some v"
  obtains a where "json_from_slice j v = Some a" "k \<noteq> []" "i64_time (ex a)" "t_get ix (redb_expiry_key (ex a) k) = Some (val a)"
  using assms unfolding tracked_def by blast

lemma trackedI:
  assumes "bt_sorted ix"
    and "\<And>k v. t_get t k = Some v \<Longrightarrow> \<exists>a. json_from_slice j v = Some a \<and> k \<noteq> [] \<and> i64_time (ex a)
          \<and> t_get ix (redb_expiry_key (ex a) k) = Some (val a)"
    and "\<And>ik iv. t_get ix ik = Some iv \<Longrightarrow> \<exists>k v a. t_get t k = Some v \<and> json_from_slice j v = Some a \<and> ik = redb_expiry_key (ex a) k \<and> iv = val a"
  shows "tracked j ex val t ix"
  unfolding tracked_def using assms by blast

lemma tracked_cong: "(\<And>k. t_get t k = t_get t' k) \<Longrightarrow> tracked j ex val t ix = tracked j ex val t' ix"
  by (simp add: tracked_def)

lemma tracked_entryD:
  assumes "tracked j ex val t ix" "t_get ix ik = Some iv"
  obtains k v a where "t_get t k = Some v" "json_from_slice j v = Some a" "ik = redb_expiry_key (ex a) k" "iv = val a"
  using assms unfolding tracked_def by blast

lemma tracked_sorted: "tracked j ex val t ix \<Longrightarrow> bt_sorted ix"
  by (simp only: tracked_def)

lemma tracked_indexD:
  assumes "tracked j ex val t ix" "t_get ix (redb_expiry_key e k) = Some iv" "i64_time e"
  obtains v a where "t_get t k = Some v" "json_from_slice j v = Some a" "ex a = e" "val a = iv"
proof -
  obtain k' v a where a: "t_get t k' = Some v" "json_from_slice j v = Some a" "redb_expiry_key e k = redb_expiry_key (ex a) k'" "iv = val a"
    by (rule tracked_entryD [OF assms(1,2)])
  moreover have "i64_time (ex a)" using trackedD [OF assms(1) a(1)] a(2) by (metis option.inject)
  ultimately have "ex a = e" "k' = k" using redb_expiry_key_inject [OF assms(3)] by auto
  with that a show thesis by blast
qed

lemma tracked_expiry_index: "tracked j ex val t ix \<Longrightarrow> expiry_index ix"
proof -
  assume tr: "tracked j ex val t ix"
  have "\<exists>e s. ik = redb_expiry_key e s \<and> i64_time e \<and> s \<noteq> []" if ik: "t_get ix ik = Some iv" for ik iv
  proof -
    obtain k v a where a: "t_get t k = Some v" "json_from_slice j v = Some a" "ik = redb_expiry_key (ex a) k"
      by (rule tracked_entryD [OF tr ik])
    obtain b where "json_from_slice j v = Some b" "k \<noteq> []" "i64_time (ex b)" by (rule trackedD [OF tr a(1)])
    with a show ?thesis by auto
  qed
  then show ?thesis using tracked_sorted [OF tr] by (simp add: expiry_index_def)
qed

lemma tracked_empty: "tracked j ex val [] []"
  by (simp add: tracked_def bt_sorted_def)

lemma tracked_remove:
  assumes "tracked j ex val t ix" "t_get t k = Some v" "json_from_slice j v = Some a"
  shows "tracked j ex val (t_remove t k) (t_remove ix (redb_expiry_key (ex a) k))"
proof -
  have a: "i64_time (ex a)" using trackedD [OF assms(1,2)] assms(3) by (metis option.inject)
  have entry: "\<exists>b. json_from_slice j w = Some b \<and> k' \<noteq> [] \<and> i64_time (ex b)
      \<and> t_get (t_remove ix (redb_expiry_key (ex a) k)) (redb_expiry_key (ex b) k') = Some (val b)"
    if "t_get (t_remove t k) k' = Some w" for k' w
  proof -
    from that have k': "k' \<noteq> k" "t_get t k' = Some w" by (auto split: if_splits)
    from trackedD [OF assms(1) k'(2)] obtain b where b: "json_from_slice j w = Some b" "k' \<noteq> []" "i64_time (ex b)"
      "t_get ix (redb_expiry_key (ex b) k') = Some (val b)" .
    then show ?thesis using redb_expiry_key_inject [OF b(3) a] k'(1) by auto
  qed
  have "\<exists>k' w b. t_get (t_remove t k) k' = Some w \<and> json_from_slice j w = Some b \<and> ik = redb_expiry_key (ex b) k' \<and> iv = val b"
    if "t_get (t_remove ix (redb_expiry_key (ex a) k)) ik = Some iv" for ik iv
  proof -
    from that have ik: "ik \<noteq> redb_expiry_key (ex a) k" "t_get ix ik = Some iv" by (auto split: if_splits)
    from assms(1) ik(2) obtain k' w b where b: "t_get t k' = Some w" "json_from_slice j w = Some b" "ik = redb_expiry_key (ex b) k'" "iv = val b"
      by (auto elim: tracked_entryD)
    moreover have "k' \<noteq> k" using b assms(2,3) ik(1) by auto
    ultimately show ?thesis by auto
  qed
  with entry show ?thesis using assms(1) by (intro trackedI) (auto simp only: tracked_def intro: t_sorted)
qed

lemma tracked_insert_new:
  assumes "tracked j ex val t ix" "t_get t k = None" "json_from_slice j v = Some a" "k \<noteq> []" "i64_time (ex a)"
  shows "tracked j ex val (t_insert t k v) (t_insert ix (redb_expiry_key (ex a) k) (val a))"
proof -
  have entry: "\<exists>b. json_from_slice j w = Some b \<and> k' \<noteq> [] \<and> i64_time (ex b)
      \<and> t_get (t_insert ix (redb_expiry_key (ex a) k) (val a)) (redb_expiry_key (ex b) k') = Some (val b)"
    if w: "t_get (t_insert t k v) k' = Some w" for k' w
  proof (cases "k' = k")
    case True
    with w assms(3-5) show ?thesis by simp
  next
    case False
    with w trackedD [OF assms(1), of k' w] obtain b where "json_from_slice j w = Some b" "k' \<noteq> []" "i64_time (ex b)"
      "t_get ix (redb_expiry_key (ex b) k') = Some (val b)" by auto
    then show ?thesis using False redb_expiry_key_inject [OF _ assms(5)] by auto
  qed
  have "\<exists>k' w b. t_get (t_insert t k v) k' = Some w \<and> json_from_slice j w = Some b \<and> ik = redb_expiry_key (ex b) k' \<and> iv = val b"
    if iv: "t_get (t_insert ix (redb_expiry_key (ex a) k) (val a)) ik = Some iv" for ik iv
  proof (cases "ik = redb_expiry_key (ex a) k")
    case True
    with iv assms(3) show ?thesis by (intro exI [of _ k] exI [of _ v] exI [of _ a]) simp
  next
    case False
    with iv assms(1) obtain k' w b where b: "t_get t k' = Some w" "json_from_slice j w = Some b" "ik = redb_expiry_key (ex b) k'" "iv = val b"
      by (auto elim: tracked_entryD)
    moreover have "k' \<noteq> k" using b(1) assms(2) by auto
    ultimately show ?thesis by auto
  qed
  with entry show ?thesis using assms(1) by (intro trackedI) (auto simp only: tracked_def intro: t_sorted)
qed

lemma t_insert_removed: "tracked j ex val (t_insert (t_remove t k) k v) ix \<Longrightarrow> tracked j ex val (t_insert t k v) ix"
  by (subst tracked_cong [of _ "t_insert (t_remove t k) k v"]) simp_all

lemma tracked_replace:
  assumes "tracked j ex val t ix" "get_json j t k = Ok cur" "json_from_slice j v = Some a" "k \<noteq> []" "i64_time (ex a)"
  shows "tracked j ex val (t_insert t k v)
    (t_insert (case cur of Some b \<Rightarrow> t_remove ix (redb_expiry_key (ex b) k) | None \<Rightarrow> ix) (redb_expiry_key (ex a) k) (val a))"
proof (cases cur)
  case None
  with assms show ?thesis by (auto simp: get_json_Ok intro: tracked_insert_new)
next
  case (Some b)
  with assms(2) obtain w where w: "t_get t k = Some w" "json_from_slice j w = Some b" by (auto simp: get_json_Ok)
  from tracked_remove [OF assms(1) w] have "tracked j ex val (t_remove t k) (t_remove ix (redb_expiry_key (ex b) k))" .
  from tracked_insert_new [OF this _ assms(3-5)] show ?thesis by (auto simp: Some intro: t_insert_removed)
qed

lemma tracked_get: "tracked j ex val t ix \<Longrightarrow> \<exists>cur. get_json j t k = Ok cur"
proof (cases "t_get t k")
  case (Some v)
  assume "tracked j ex val t ix"
  then obtain a where "json_from_slice j v = Some a" by (rule trackedD [OF _ Some])
  then show ?thesis using Some by (simp add: get_json_def decode_json_def)
qed (simp add: get_json_def)
section \<open>The invariant\<close>

definition valid_account :: "account_id \<Rightarrow> bool" where
  "valid_account i \<longleftrightarrow> length i = 32 \<and> list_all is_lower_hex i"

definition logins_inv :: "redb \<Rightarrow> bool" where
  "logins_inv db \<longleftrightarrow> (\<forall>k v. t_get (t_login_index db) k = Some v \<longrightarrow> (\<exists>i. v = str_bytes i \<and> valid_account i))"

text \<open>A token that names an account names the one its login identity is bound to.\<close>

definition tokens_inv :: "registry_codecs \<Rightarrow> redb \<Rightarrow> bool" where
  "tokens_inv J db \<longleftrightarrow> tracked (j_login_token J) lt_expires_at (\<lambda>_. []) (t_login_tokens db) (t_login_token_expiry db)
     \<and> (\<forall>th v token i. t_get (t_login_tokens db) th = Some v \<and> json_from_slice (j_login_token J) v = Some token \<and> lt_account_id token = Some i \<longrightarrow>
          t_get (t_login_index db) (login_key (lt_kind token) (lt_value_hash token)) = Some (str_bytes i) \<and> valid_account i)"

definition stored_session :: "registry_codecs \<Rightarrow> redb \<Rightarrow> account_id \<Rightarrow> session \<Rightarrow> bool" where
  "stored_session J db i s \<longleftrightarrow> get_json (j_session J) (t_account_sessions db) i = Ok (Some s)"

definition sessions_inv :: "registry_codecs \<Rightarrow> redb \<Rightarrow> bool" where
  "sessions_inv J db \<longleftrightarrow> tracked (j_session J) se_expires_at (\<lambda>s. str_bytes (se_token_hash s)) (t_account_sessions db) (t_session_expiry db)
     \<and> (\<forall>i s. stored_session J db i s \<longrightarrow> se_account_id s = i \<and> valid_account i \<and> list_all is_lower_hex (se_token_hash s)
          \<and> t_get (t_session_index db) (se_token_hash s) = Some (str_bytes i))
     \<and> (\<forall>th v. t_get (t_session_index db) th = Some v \<longrightarrow> (\<exists>i s. v = str_bytes i \<and> stored_session J db i s \<and> se_token_hash s = th))"

definition rates_inv :: "registry_codecs \<Rightarrow> redb \<Rightarrow> bool" where
  "rates_inv J db \<longleftrightarrow> tracked (j_bucket J) rl_expires_at (\<lambda>_. []) (t_rates db) (t_rate_expiry db)"

definition registry_inv :: "registry_codecs \<Rightarrow> redb \<Rightarrow> bool" where
  "registry_inv J db \<longleftrightarrow> logins_inv db \<and> tokens_inv J db \<and> sessions_inv J db \<and> rates_inv J db \<and> t_get (t_meta db) EXPIRY_INDEX_MARKER \<noteq> None"

lemma registry_hex_eq: "registry_hex bs = hex bs"
  by (induction bs) simp_all

lemma valid_account_ne: "valid_account i \<Longrightarrow> i \<noteq> []"
  by (auto simp: valid_account_def)

lemma valid_account_stored [simp]: "valid_account i \<Longrightarrow> stored_account_id (str_bytes i) = Ok i"
  by (simp add: stored_account_id_def lower_hex_utf8 valid_account_def account_id_from_str_def) (simp add: list_all_iff lower_hex_digit)

lemma get_account_id_valid:
  assumes "logins_inv db"
  shows "get_account_id (t_login_index db) k = Ok (map_option bytes_str (t_get (t_login_index db) k))"
proof (cases "t_get (t_login_index db) k")
  case (Some v)
  with assms obtain i where "v = str_bytes i" "valid_account i" by (auto simp: logins_inv_def)
  with Some show ?thesis by (simp add: get_account_id_def)
qed (simp add: get_account_id_def)

lemma logins_valid: "logins_inv db \<Longrightarrow> t_get (t_login_index db) k = Some v \<Longrightarrow> valid_account (bytes_str v)"
  unfolding logins_inv_def by (metis bytes_str_bytes)

definition getrandom_ok :: "getrandom \<Rightarrow> bool" where
  "getrandom_ok rng \<longleftrightarrow> (\<forall>n b. rng n = Some b \<longrightarrow> length b = n)"

lemma account_id_generate_valid: "getrandom_ok rng \<Longrightarrow> account_id_generate rng = Ok i \<Longrightarrow> valid_account i"
  by (auto simp: account_id_generate_def registry_hex_eq valid_account_def getrandom_ok_def hex_lower split: option.splits)

lemma token_hash_lower: "list_all is_lower_hex (token_hash C token)"
  by (simp add: token_hash_def registry_hex_eq hex_lower)

lemma token_hash_ne: "sha256_len C \<Longrightarrow> token_hash C token \<noteq> []"
proof
  assume "sha256_len C" "token_hash C token = []"
  then have "length (hex (sha256 C (str_bytes ''mycellium-registry-login-token-v1:'' @ str_bytes token))) = 0" "length (sha256 C (str_bytes ''mycellium-registry-login-token-v1:'' @ str_bytes token)) = 32"
    by (simp_all add: token_hash_def registry_hex_eq sha256_len_def)
  then show False by simp
qed

lemma redb_open_inv: "registry_inv J (snd (redb_init J None redb_empty))"
  by (simp add: redb_init_def redb_empty_def write_tx_None backfill_def t_iter_def registry_inv_def logins_inv_def tokens_inv_def
      sessions_inv_def rates_inv_def tracked_empty stored_session_def get_json_def)

section \<open>The invariant is kept\<close>

lemma put_login_token_inv:
  assumes "registry_inv J db" "json_codecs_ok J" "th \<noteq> []" "t_get (t_login_tokens db) th = None" "i64_time (lt_expires_at token)"
    and "\<And>i. lt_account_id token = Some i \<Longrightarrow> t_get (t_login_index db) (login_key (lt_kind token) (lt_value_hash token)) = Some (str_bytes i) \<and> valid_account i"
    and "put_login_token J flt db th token = (r, db')"
  shows "registry_inv J db' \<and> t_login_index db' = t_login_index db \<and> (\<forall>i s. stored_session J db' i s = stored_session J db i s)"
  using assms(7) [unfolded put_login_token_def]
proof (cases rule: write_tx_cases)
  case (4 a)
  then obtain v where v: "encode_json (j_login_token J) token = Ok v"
    "db' = db\<lparr>t_login_tokens := t_insert (t_login_tokens db) th v, t_login_token_expiry := t_insert (t_login_token_expiry db) (redb_expiry_key (lt_expires_at token) th) []\<rparr>"
    by (auto simp: result_elims)
  have dec: "json_from_slice (j_login_token J) v = Some token" using json_encode_decode [OF _ v(1)] assms(2) by (simp add: json_codecs_ok_def)
  have "tracked (j_login_token J) lt_expires_at (\<lambda>_. []) (t_login_tokens db') (t_login_token_expiry db')"
    unfolding v(2) using tracked_insert_new [where ex = lt_expires_at and val = "\<lambda>_. []", OF _ assms(4) dec assms(3,5)] assms(1) by (simp add: registry_inv_def tokens_inv_def)
  with assms(1,6) dec show ?thesis
    by (auto simp: registry_inv_def tokens_inv_def sessions_inv_def rates_inv_def logins_inv_def stored_session_def v(2) split: if_splits)
qed (use assms(1) in auto)

lemma take_login_token_inv:
  assumes "registry_inv J db" "take_login_token J flt db th = (r, db')"
  shows "registry_inv J db' \<and> t_login_index db' = t_login_index db \<and> (\<forall>i s. stored_session J db' i s = stored_session J db i s)"
  using assms(2) [unfolded take_login_token_def]
proof (cases rule: write_tx_cases)
  case (4 a)
  then obtain v token where v: "t_get (t_login_tokens db) th = Some v" "json_from_slice (j_login_token J) v = Some token"
    "db' = db\<lparr>t_login_tokens := t_remove (t_login_tokens db) th, t_login_token_expiry := t_remove (t_login_token_expiry db) (redb_expiry_key (lt_expires_at token) th)\<rparr>"
    by (auto simp: result_elims split: option.splits)
  have "tracked (j_login_token J) lt_expires_at (\<lambda>_. []) (t_login_tokens db') (t_login_token_expiry db')"
    unfolding v(3) using tracked_remove [where ex = lt_expires_at and val = "\<lambda>_. []", OF _ v(1,2)] assms(1) by (simp add: registry_inv_def tokens_inv_def)
  with assms(1) show ?thesis
    by (auto simp: registry_inv_def tokens_inv_def sessions_inv_def rates_inv_def logins_inv_def stored_session_def v(3) split: if_splits)
qed (use assms(1) in auto)

lemma get_or_create_inv:
  assumes "registry_inv J db" "valid_account (ac_id acc)" "get_or_create_account_for_login J flt db kind hash acc now = (r, db')"
  shows "registry_inv J db' \<and> (\<forall>k v. t_get (t_login_index db) k = Some v \<longrightarrow> t_get (t_login_index db') k = Some v)
    \<and> (\<forall>i s. stored_session J db' i s = stored_session J db i s)
    \<and> (\<forall>al. r = Ok al \<longrightarrow> t_get (t_login_index db') (login_key kind hash) = Some (str_bytes (al_account_id al)))"
  using assms(3) [unfolded get_or_create_account_for_login_def]
proof (cases rule: write_tx_cases)
  case (4 a)
  have logins: "logins_inv db" using assms(1) by (simp add: registry_inv_def)
  show ?thesis
  proof (cases "t_get (t_login_index db) (login_key kind hash)")
    case None
    then obtain v w where v: "db' = db\<lparr>t_login_index := t_insert (t_login_index db) (login_key kind hash) (str_bytes (ac_id acc)),
        t_accounts := t_insert (t_accounts db) (ac_id acc) v, t_blobs := t_insert (t_blobs db) (registry_key [''login_identity'', ac_id acc, login_kind_str kind]) w\<rparr>"
      "a = \<lparr>al_account_id = ac_id acc, al_created = True\<rparr>"
      using 4(2) get_account_id_valid [OF logins] by (auto simp: result_elims Let_def)
    have mono: "t_get (t_login_index db') k = Some b" if "t_get (t_login_index db) k = Some b" for k b
      using that None by (auto simp: v(1))
    have same: "t_login_tokens db' = t_login_tokens db" "t_login_token_expiry db' = t_login_token_expiry db" "t_meta db' = t_meta db"
      "t_account_sessions db' = t_account_sessions db" "t_session_expiry db' = t_session_expiry db" "t_session_index db' = t_session_index db"
      "t_rates db' = t_rates db" "t_rate_expiry db' = t_rate_expiry db" by (simp_all add: v(1))
    have "tokens_inv J db'"
      unfolding tokens_inv_def same using assms(1) mono unfolding registry_inv_def tokens_inv_def by blast
    moreover have "logins_inv db'" using logins assms(2) by (auto simp: logins_inv_def v(1))
    moreover have "sessions_inv J db'" "rates_inv J db'"
      using assms(1) unfolding registry_inv_def sessions_inv_def rates_inv_def stored_session_def same by blast+
    ultimately show ?thesis using assms(1) mono 4(3) v by (auto simp: registry_inv_def same stored_session_def)
  next
    case (Some b)
    then have "db' = db" "al_account_id a = bytes_str b"
      using 4(2) get_account_id_valid [OF logins] by (auto simp: result_elims)
    then show ?thesis using assms(1) Some 4(3) by simp
  qed
next
  case (3 a)
  then show ?thesis by (auto simp: result_elims Let_def split: option.splits)
qed (use assms(1) in auto)

lemma replace_session_inv:
  assumes "registry_inv J db" "json_codecs_ok J" "valid_account (se_account_id s)" "i64_time (se_expires_at s)" "list_all is_lower_hex (se_token_hash s)"
    and "replace_session J flt db s = (r, db')" "t_get (t_session_index db) (se_token_hash s) = None"
  shows "registry_inv J db' \<and> t_login_index db' = t_login_index db
    \<and> (\<forall>i s'. stored_session J db' i s' = (if is_ok r \<and> i = se_account_id s then s' = s else stored_session J db i s'))"
  using assms(6) [unfolded replace_session_def]
proof (cases rule: write_tx_cases)
  case (4 a)
  let ?i = "se_account_id s"
  obtain prev v where p: "get_json (j_session J) (t_account_sessions db) ?i = Ok prev" "encode_json (j_session J) s = Ok v"
    and db': "db' = db\<lparr>t_account_sessions := t_insert (t_account_sessions db) ?i v,
        t_session_index := t_insert (case prev of Some p \<Rightarrow> t_remove (t_session_index db) (se_token_hash p) | None \<Rightarrow> t_session_index db) (se_token_hash s) (str_bytes ?i),
        t_session_expiry := t_insert (case prev of Some p \<Rightarrow> t_remove (t_session_expiry db) (redb_expiry_key (se_expires_at p) ?i) | None \<Rightarrow> t_session_expiry db)
          (redb_expiry_key (se_expires_at s) ?i) (str_bytes (se_token_hash s))\<rparr>"
    using 4(2) by (auto simp: result_elims Let_def)
  have dec: "json_from_slice (j_session J) v = Some s" using json_encode_decode [OF _ p(2)] assms(2) by (simp add: json_codecs_ok_def)
  have st: "stored_session J db' i s' = (if i = ?i then s' = s else stored_session J db i s')" for i s'
    using dec by (auto simp: stored_session_def db' get_json_def decode_json_def)
  have tr: "tracked (j_session J) se_expires_at (\<lambda>s. str_bytes (se_token_hash s)) (t_account_sessions db') (t_session_expiry db')"
    unfolding db' using tracked_replace [where ex = se_expires_at and val = "\<lambda>s. str_bytes (se_token_hash s)", OF _ p(1) dec valid_account_ne [OF assms(3)] assms(4)] assms(1)
    by (simp add: registry_inv_def sessions_inv_def)
  have "\<exists>i s'. w = str_bytes i \<and> stored_session J db' i s' \<and> se_token_hash s' = th" if w: "t_get (t_session_index db') th = Some w" for th w
  proof (cases "th = se_token_hash s")
    case True
    with w st show ?thesis by (auto simp: db')
  next
    case False
    with w have old: "t_get (t_session_index db) th = Some w" "\<And>p. prev = Some p \<Longrightarrow> se_token_hash p \<noteq> th"
      by (auto simp: db' split: option.splits if_splits)
    then obtain i s' where i: "w = str_bytes i" "stored_session J db i s'" "se_token_hash s' = th"
      using assms(1) unfolding registry_inv_def sessions_inv_def by blast
    moreover have "i \<noteq> ?i" using i old(2) p(1) by (auto simp: stored_session_def)
    ultimately show ?thesis using st by auto
  qed
  moreover have "se_account_id s' = i \<and> valid_account i \<and> list_all is_lower_hex (se_token_hash s')
      \<and> t_get (t_session_index db') (se_token_hash s') = Some (str_bytes i)" if s': "stored_session J db' i s'" for i s'
  proof (cases "i = ?i")
    case True
    with s' st assms(3,5) show ?thesis by (simp add: db')
  next
    case False
    with s' st have old: "stored_session J db i s'" by simp
    have inv: "\<And>i s. stored_session J db i s \<Longrightarrow> se_account_id s = i \<and> valid_account i \<and> list_all is_lower_hex (se_token_hash s)
        \<and> t_get (t_session_index db) (se_token_hash s) = Some (str_bytes i)"
      using assms(1) unfolding registry_inv_def sessions_inv_def by blast
    have "se_token_hash p \<noteq> se_token_hash s'" if "prev = Some p" for p
      using inv [of ?i p] inv [OF old] p(1) that False by (auto simp: stored_session_def)
    with inv [OF old] assms(7) show ?thesis by (auto simp: db' split: option.split)
  qed
  ultimately have "sessions_inv J db'" using tr unfolding sessions_inv_def by blast
  with st assms(1) 4(3) show ?thesis
    by (auto simp: registry_inv_def tokens_inv_def rates_inv_def logins_inv_def db')
next
  case (3 a)
  then show ?thesis by (auto simp: result_elims Let_def)
qed (use assms(1) in auto)

lemma bump_rate_limit_inv:
  assumes "registry_inv J db" "json_codecs_ok J" "0 \<le> now" "bump_rate_limit J flt db k now window_secs = (r, db')"
  shows "registry_inv J db' \<and> t_login_index db' = t_login_index db \<and> (\<forall>i s. stored_session J db' i s = stored_session J db i s)"
proof (cases "k = [] \<or> window_secs \<le> 0")
  case True
  with assms(1,4) show ?thesis by (auto simp: bump_rate_limit_def)
next
  case False
  have rates: "tracked (j_bucket J) rl_expires_at (\<lambda>_. []) (t_rates db) (t_rate_expiry db)" using assms(1) by (simp add: registry_inv_def rates_inv_def)
  have "write_tx flt db (\<lambda>db.
        tryR (get_json (j_bucket J) (t_rates db) k) (\<lambda>cur.
        let nxt = next_bucket cur now window_secs in
        tryR (encode_json (j_bucket J) nxt) (\<lambda>v.
        let expiry = (case cur of Some b \<Rightarrow> t_remove (t_rate_expiry db) (redb_expiry_key (rl_expires_at b) k) | None \<Rightarrow> t_rate_expiry db)
        in Ok (nxt, Some (db\<lparr>t_rates := t_insert (t_rates db) k v,
             t_rate_expiry := t_insert expiry (redb_expiry_key (rl_expires_at nxt) k) []\<rparr>))))) = (r, db')"
    using assms(4) False by (simp add: bump_rate_limit_def)
  then show ?thesis
  proof (cases rule: write_tx_cases)
    case (4 a)
    then obtain cur v where c: "get_json (j_bucket J) (t_rates db) k = Ok cur" "encode_json (j_bucket J) (next_bucket cur now window_secs) = Ok v"
      and db': "db' = db\<lparr>t_rates := t_insert (t_rates db) k v,
        t_rate_expiry := t_insert (case cur of Some b \<Rightarrow> t_remove (t_rate_expiry db) (redb_expiry_key (rl_expires_at b) k) | None \<Rightarrow> t_rate_expiry db)
          (redb_expiry_key (rl_expires_at (next_bucket cur now window_secs)) k) []\<rparr>"
      by (auto simp: result_elims Let_def)
    have dec: "json_from_slice (j_bucket J) v = Some (next_bucket cur now window_secs)"
      using json_encode_decode [OF _ c(2)] assms(2) by (simp add: json_codecs_ok_def)
    have "i64_time (rl_expires_at (next_bucket cur now window_secs))"
    proof (cases cur)
      case (Some b)
      with c(1) obtain w where w: "t_get (t_rates db) k = Some w" "json_from_slice (j_bucket J) w = Some b" by (auto simp: get_json_Ok)
      have "i64_time (rl_expires_at b)" by (rule trackedD [OF rates w(1)]) (use w(2) in simp)
      with Some i64_time_add [OF assms(3), of window_secs] False show ?thesis by (simp add: next_bucket_def Let_def)
    qed (use i64_time_add [OF assms(3), of window_secs] False in \<open>simp add: next_bucket_def Let_def\<close>)
    with tracked_replace [OF rates c(1) dec] False
    have "rates_inv J db'" by (simp add: rates_inv_def db')
    with assms(1) show ?thesis
      by (auto simp: registry_inv_def tokens_inv_def sessions_inv_def logins_inv_def stored_session_def db')
  qed (use assms(1) in auto)
qed

lemma swap_inv:
  "compare_and_swap_blob_ref J flt db i kind expected nxt = (r, db') \<or> compare_and_swap_public_record_ref J flt db i uid puid expected nxt = (r, db') \<Longrightarrow>
   registry_inv J db \<Longrightarrow> registry_inv J db' \<and> t_login_index db' = t_login_index db \<and> (\<forall>i s. stored_session J db' i s = stored_session J db i s)"
  unfolding compare_and_swap_blob_ref_def compare_and_swap_public_record_ref_def
  by (elim disjE write_tx_cases)
    (auto simp: result_elims registry_inv_def tokens_inv_def sessions_inv_def rates_inv_def logins_inv_def stored_session_def split: if_splits)
section \<open>Removing expired entries\<close>

lemma t_get_drop: "t_get (fold (\<lambda>d t. t_remove t (f d)) due t) k = (if k \<in> f ` set due then None else t_get t k)"
  by (induction due arbitrary: t) auto

lemma sorted_drop: "bt_sorted t \<Longrightarrow> bt_sorted (fold (\<lambda>d t. t_remove t (f d)) due t)"
  by (induction due arbitrary: t) auto

type_synonym 'v due = "string \<times> string \<times> 'v \<times> i64"

abbreviation due_key :: "'v due \<Rightarrow> string" where "due_key d \<equiv> fst d"
abbreviation due_subject :: "'v due \<Rightarrow> string" where "due_subject d \<equiv> fst (snd d)"

text \<open>The relation between a table and what is left of it after a removal at time \<open>now\<close>.\<close>

definition purged :: "'a json \<Rightarrow> ('a \<Rightarrow> i64) \<Rightarrow> i64 \<Rightarrow> bool \<Rightarrow> table \<Rightarrow> table \<Rightarrow> bool" where
  "purged j ex now all t t' \<longleftrightarrow>
     (\<forall>k v. t_get t' k = Some v \<longrightarrow> t_get t k = Some v)
     \<and> (\<forall>k v a. t_get t k = Some v \<and> json_from_slice j v = Some a \<and> now < ex a \<longrightarrow> t_get t' k = Some v)
     \<and> (all \<longrightarrow> (\<forall>k v a. t_get t' k = Some v \<and> json_from_slice j v = Some a \<longrightarrow> now < ex a))"

lemma purged_none: "\<not> all \<Longrightarrow> purged j ex now all t t"
  by (simp add: purged_def)

lemma purge_tracked:
  fixes due :: "'v due list"
  assumes tr: "tracked j ex val t ix"
    and due: "\<And>k s x e. (k, s, x, e) \<in> set due \<Longrightarrow> k = redb_expiry_key e s \<and> i64_time e \<and> s \<noteq> [] \<and> e \<le> now \<and> (\<exists>v. t_get ix k = Some v)"
    and complete: "\<And>e s v. all \<Longrightarrow> t_get ix (redb_expiry_key e s) = Some v \<Longrightarrow> i64_time e \<Longrightarrow> e \<le> now \<Longrightarrow> s \<in> due_subject ` set due"
  shows "tracked j ex val (fold (\<lambda>d t. t_remove t (due_subject d)) due t) (fold (\<lambda>d t. t_remove t (due_key d)) due ix)"
    "purged j ex now all t (fold (\<lambda>d t. t_remove t (due_subject d)) due t)"
proof -
  let ?t = "fold (\<lambda>d t. t_remove t (due_subject d)) due t" and ?ix = "fold (\<lambda>d t. t_remove t (due_key d)) due ix"
  have entry: "ex a = e \<and> e \<le> now \<and> i64_time e \<and> k = redb_expiry_key (ex a) s"
    if d: "(k, s, x, e) \<in> set due" and v: "t_get t s = Some v" "json_from_slice j v = Some a" for k s x e v a
  proof -
    from due [OF d] obtain iv where iv: "t_get ix (redb_expiry_key e s) = Some iv" "k = redb_expiry_key e s" "i64_time e" "e \<le> now" by auto
    have "ex a = e" by (rule tracked_indexD [OF tr iv(1,3)]) (use v in simp)
    with iv show ?thesis by simp
  qed
  show "tracked j ex val ?t ?ix"
  proof (rule trackedI)
    show "bt_sorted ?ix" using tracked_sorted [OF tr] by (rule sorted_drop)
    fix k v assume "t_get ?t k = Some v"
    then have k: "k \<notin> due_subject ` set due" "t_get t k = Some v" by (auto simp: t_get_drop split: if_splits)
    obtain a where a: "json_from_slice j v = Some a" "k \<noteq> []" "i64_time (ex a)" "t_get ix (redb_expiry_key (ex a) k) = Some (val a)"
      by (rule trackedD [OF tr k(2)])
    have "redb_expiry_key (ex a) k \<noteq> due_key d" if "d \<in> set due" for d
    proof
      assume eq: "redb_expiry_key (ex a) k = due_key d"
      obtain ik s x e where d: "d = (ik, s, x, e)" by (cases d)
      with due [of ik s x e] that eq have "redb_expiry_key (ex a) k = redb_expiry_key e s" "i64_time e" by simp_all
      then have "s = k" using redb_expiry_key_inject [OF a(3), of e k s] by simp
      with k(1) that d show False by force
    qed
    then have "t_get ?ix (redb_expiry_key (ex a) k) = Some (val a)" using a(4) by (auto simp: t_get_drop)
    with a show "\<exists>a. json_from_slice j v = Some a \<and> k \<noteq> [] \<and> i64_time (ex a) \<and> t_get ?ix (redb_expiry_key (ex a) k) = Some (val a)" by blast
  next
    fix ik iv assume "t_get ?ix ik = Some iv"
    then have ik: "ik \<notin> due_key ` set due" "t_get ix ik = Some iv" by (auto simp: t_get_drop split: if_splits)
    obtain k v a where a: "t_get t k = Some v" "json_from_slice j v = Some a" "ik = redb_expiry_key (ex a) k" "iv = val a"
      by (rule tracked_entryD [OF tr ik(2)])
    have "k \<notin> due_subject ` set due" using entry [OF _ a(1,2)] ik(1) a(3) by force
    with a show "\<exists>k v a. t_get ?t k = Some v \<and> json_from_slice j v = Some a \<and> ik = redb_expiry_key (ex a) k \<and> iv = val a"
      by (auto simp: t_get_drop)
  qed
  have kept: "k \<notin> due_subject ` set due" if "t_get t k = Some v" "json_from_slice j v = Some a" "now < ex a" for k v a
    using entry that by fastforce
  moreover have "now < ex a" if h: "all" "k \<notin> due_subject ` set due" "t_get t k = Some v" "json_from_slice j v = Some a" for k v a
  proof (rule ccontr)
    assume "\<not> now < ex a"
    obtain b where "json_from_slice j v = Some b" "i64_time (ex b)" "t_get ix (redb_expiry_key (ex b) k) = Some (val b)"
      by (rule trackedD [OF tr h(3)])
    with complete [OF h(1), of "ex a" k] \<open>\<not> now < ex a\<close> h show False by simp
  qed
  ultimately show "purged j ex now all t ?t" unfolding purged_def t_get_drop by (auto split: if_splits)
qed

lemma due_subjects_distinct:
  fixes due :: "'v due list"
  assumes tr: "tracked j ex val t ix" and "distinct (map fst due)"
    and due: "\<And>k s x e. (k, s, x, e) \<in> set due \<Longrightarrow> k = redb_expiry_key e s \<and> i64_time e \<and> (\<exists>v. t_get ix k = Some v)"
  shows "distinct (map due_subject due)"
proof -
  have "inj_on due_subject (set due)"
  proof (rule inj_onI)
    fix d d' assume d: "d \<in> set due" "d' \<in> set due" "due_subject d = due_subject d'"
    obtain k s x e k' x' e' where dd: "d = (k, s, x, e)" "d' = (k', s, x', e')" using d(3) by (cases d; cases d') auto
    from due d dd obtain v v' where v: "k = redb_expiry_key e s" "i64_time e" "t_get ix (redb_expiry_key e s) = Some v"
      "k' = redb_expiry_key e' s" "i64_time e'" "t_get ix (redb_expiry_key e' s) = Some v'" by fastforce
    obtain w a where w: "t_get t s = Some w" "json_from_slice j w = Some a" "ex a = e" by (rule tracked_indexD [OF tr v(3,2)])
    obtain w' a' where "t_get t s = Some w'" "json_from_slice j w' = Some a'" "ex a' = e'" by (rule tracked_indexD [OF tr v(6,5)])
    with w v have "k = k'" by auto
    moreover have "inj_on fst (set due)" using assms(2) by (simp add: distinct_map)
    ultimately show "d = d'" using inj_onD [OF _ _ d(1,2), of fst] dd by simp
  qed
  with assms(2) show ?thesis by (auto simp: distinct_map)
qed
abbreviation due_value :: "'v due \<Rightarrow> 'v" where "due_value d \<equiv> fst (snd (snd d))"
abbreviation due_time :: "'v due \<Rightarrow> i64" where "due_time d \<equiv> snd (snd (snd d))"

lemma drop_tokens:
  fixes due :: "'v due list"
  shows "fold (\<lambda>(k, th, _, _) db. db\<lparr>t_login_tokens := t_remove (t_login_tokens db) th, t_login_token_expiry := t_remove (t_login_token_expiry db) k\<rparr>) due db
    = db\<lparr>t_login_tokens := fold (\<lambda>d t. t_remove t (due_subject d)) due (t_login_tokens db),
         t_login_token_expiry := fold (\<lambda>d t. t_remove t (due_key d)) due (t_login_token_expiry db)\<rparr>"
  by (induction due arbitrary: db) (simp_all add: split_def)

lemma drop_sessions_all:
  assumes "\<And>d. d \<in> set due \<Longrightarrow> \<exists>s. stored_session J db (due_subject d) s \<and> se_token_hash s = due_value d \<and> se_expires_at s = due_time d"
    and "distinct (map due_subject due)"
  shows "drop_sessions J due db = Ok (db\<lparr>t_account_sessions := fold (\<lambda>d t. t_remove t (due_subject d)) due (t_account_sessions db),
     t_session_index := fold (\<lambda>d t. t_remove t (due_value d)) due (t_session_index db),
     t_session_expiry := fold (\<lambda>d t. t_remove t (due_key d)) due (t_session_expiry db)\<rparr>)"
  using assms
proof (induction due arbitrary: db)
  case (Cons d due)
  obtain k i th e where d: "d = (k, i, th, e)" by (cases d)
  obtain s where s: "get_json (j_session J) (t_account_sessions db) i = Ok (Some s)" "se_token_hash s = th" "se_expires_at s = e"
    using Cons.prems(1) [of d] d by (auto simp: stored_session_def)
  let ?db = "db\<lparr>t_account_sessions := t_remove (t_account_sessions db) i, t_session_index := t_remove (t_session_index db) th,
    t_session_expiry := t_remove (t_session_expiry db) k\<rparr>"
  have "\<exists>s. stored_session J ?db (due_subject d') s \<and> se_token_hash s = due_value d' \<and> se_expires_at s = due_time d'" if "d' \<in> set due" for d'
  proof -
    have "due_subject d' \<noteq> i" using that Cons.prems(2) d by force
    with Cons.prems(1) [of d'] that show ?thesis by (simp add: stored_session_def get_json_def)
  qed
  with Cons.IH [of ?db] Cons.prems(2) s show ?case by (simp add: d)
qed simp

lemma drop_rates_all:
  assumes "\<And>d. d \<in> set due \<Longrightarrow> \<exists>b. get_json (j_bucket J) (t_rates db) (due_subject d) = Ok (Some b) \<and> rl_expires_at b = due_time d"
    and "distinct (map due_subject due)"
  shows "drop_rates J due db = Ok (db\<lparr>t_rates := fold (\<lambda>d t. t_remove t (due_subject d)) due (t_rates db),
     t_rate_expiry := fold (\<lambda>d t. t_remove t (due_key d)) due (t_rate_expiry db)\<rparr>)"
  using assms
proof (induction due arbitrary: db)
  case (Cons d due)
  obtain k i u e where d: "d = (k, i, u, e)" by (cases d)
  obtain b where b: "get_json (j_bucket J) (t_rates db) i = Ok (Some b)" "rl_expires_at b = e" using Cons.prems(1) [of d] d by auto
  let ?db = "db\<lparr>t_rates := t_remove (t_rates db) i, t_rate_expiry := t_remove (t_rate_expiry db) k\<rparr>"
  have "\<exists>b. get_json (j_bucket J) (t_rates ?db) (due_subject d') = Ok (Some b) \<and> rl_expires_at b = due_time d'" if "d' \<in> set due" for d'
  proof -
    have "due_subject d' \<noteq> i" using that Cons.prems(2) d by force
    with Cons.prems(1) [of d'] that show ?thesis by (simp add: get_json_def)
  qed
  with Cons.IH [of ?db] Cons.prems(2) b show ?case by (simp add: d)
qed simp

lemma purge_tokens_spec:
  assumes "registry_inv J db" "0 < limit"
  obtains n db' where "purge_tokens now limit db = Ok (n, db')" "n \<le> limit" "registry_inv J db'"
    "purged (j_login_token J) lt_expires_at now (n < limit) (t_login_tokens db) (t_login_tokens db')"
    "db' = db\<lparr>t_login_tokens := t_login_tokens db', t_login_token_expiry := t_login_token_expiry db'\<rparr>"
proof -
  have tr: "tracked (j_login_token J) lt_expires_at (\<lambda>_. []) (t_login_tokens db) (t_login_token_expiry db)"
    using assms(1) by (simp add: registry_inv_def tokens_inv_def)
  obtain due where due: "scan_due (\<lambda>_. Ok ()) now limit 0 (t_iter (t_login_token_expiry db)) [] = Ok due" "0 + length due \<le> limit"
    "\<And>k s x e. (k, s, x, e) \<in> set due \<Longrightarrow> k = redb_expiry_key e s \<and> i64_time e \<and> s \<noteq> [] \<and> e \<le> now \<and> (\<exists>v. t_get (t_login_token_expiry db) k = Some v \<and> x = ())"
    "distinct (map fst due)"
    "\<And>e s v. 0 + length due < limit \<Longrightarrow> t_get (t_login_token_expiry db) (redb_expiry_key e s) = Some v \<Longrightarrow> i64_time e \<Longrightarrow> e \<le> now \<Longrightarrow> (redb_expiry_key e s, s, (), e) \<in> set due"
    by (rule scan_due_spec [OF tracked_expiry_index [OF tr] _ assms(2), of "\<lambda>_. Ok ()" "\<lambda>_. ()"]) auto
  let ?db = "db\<lparr>t_login_tokens := fold (\<lambda>d t. t_remove t (due_subject d)) due (t_login_tokens db),
    t_login_token_expiry := fold (\<lambda>d t. t_remove t (due_key d)) due (t_login_token_expiry db)\<rparr>"
  have sub: "length due < limit \<Longrightarrow> t_get (t_login_token_expiry db) (redb_expiry_key e s) = Some v \<Longrightarrow> i64_time e \<Longrightarrow> e \<le> now \<Longrightarrow> s \<in> due_subject ` set due" for e s v
    using due(5) [of e s v] by force
  note p = purge_tracked [OF tr, of due now "length due < limit"]
  have new: "tracked (j_login_token J) lt_expires_at (\<lambda>_. []) (t_login_tokens ?db) (t_login_token_expiry ?db)"
    "purged (j_login_token J) lt_expires_at now (length due < limit) (t_login_tokens db) (t_login_tokens ?db)"
    using p due(3) sub by simp_all
  have "t_get (t_login_tokens ?db) k = Some v \<Longrightarrow> t_get (t_login_tokens db) k = Some v" for k v
    by (simp add: t_get_drop split: if_splits)
  then have "tokens_inv J ?db" using new(1) assms(1) unfolding registry_inv_def tokens_inv_def by simp blast
  then have "registry_inv J ?db" using assms(1) by (simp add: registry_inv_def logins_inv_def sessions_inv_def rates_inv_def stored_session_def)
  moreover have "purge_tokens now limit db = Ok (length due, ?db)" by (simp add: purge_tokens_def due(1) drop_tokens)
  ultimately show thesis using that [of "length due" ?db] due(2) new(2) by simp
qed
lemma purge_sessions_spec:
  assumes "registry_inv J db" "removed \<le> limit"
  obtains n db' where "purge_sessions J now limit (removed, db) = Ok (n, db')" "removed \<le> n" "n \<le> limit" "registry_inv J db'"
    "purged (j_session J) se_expires_at now (n < limit) (t_account_sessions db) (t_account_sessions db')"
    "db' = db\<lparr>t_account_sessions := t_account_sessions db', t_session_index := t_session_index db', t_session_expiry := t_session_expiry db'\<rparr>"
proof (cases "removed < limit")
  case False
  show thesis
    by (rule that [of removed db]) (use False assms in \<open>simp_all add: purge_sessions_def purged_none\<close>)
next
  case True
  have inv: "sessions_inv J db" using assms(1) by (simp add: registry_inv_def)
  then have tr: "tracked (j_session J) se_expires_at (\<lambda>s. str_bytes (se_token_hash s)) (t_account_sessions db) (t_session_expiry db)"
    by (simp add: sessions_inv_def)
  have st: "\<And>i s. stored_session J db i s \<Longrightarrow> se_account_id s = i \<and> valid_account i \<and> list_all is_lower_hex (se_token_hash s)
      \<and> t_get (t_session_index db) (se_token_hash s) = Some (str_bytes i)"
    and idx: "\<And>th v. t_get (t_session_index db) th = Some v \<Longrightarrow> \<exists>i s. v = str_bytes i \<and> stored_session J db i s \<and> se_token_hash s = th"
    using inv unfolding sessions_inv_def by blast+
  have utf8: "utf8_token_hash iv = Ok (bytes_str iv)" if iv: "t_get (t_session_expiry db) ik = Some iv" for ik iv
  proof -
    obtain k v s where "t_get (t_account_sessions db) k = Some v" "json_from_slice (j_session J) v = Some s" "iv = str_bytes (se_token_hash s)"
      by (rule tracked_entryD [OF tr iv])
    with st [of k s] show ?thesis by (simp add: stored_session_def get_json_def decode_json_def utf8_token_hash_def lower_hex_utf8)
  qed
  obtain due where due: "scan_due utf8_token_hash now limit removed (t_iter (t_session_expiry db)) [] = Ok due" "removed + length due \<le> limit"
    "\<And>k s x e. (k, s, x, e) \<in> set due \<Longrightarrow> k = redb_expiry_key e s \<and> i64_time e \<and> s \<noteq> [] \<and> e \<le> now \<and> (\<exists>v. t_get (t_session_expiry db) k = Some v \<and> x = bytes_str v)"
    "distinct (map fst due)"
    "\<And>e s v. removed + length due < limit \<Longrightarrow> t_get (t_session_expiry db) (redb_expiry_key e s) = Some v \<Longrightarrow> i64_time e \<Longrightarrow> e \<le> now \<Longrightarrow> (redb_expiry_key e s, s, bytes_str v, e) \<in> set due"
    by (rule scan_due_spec [OF tracked_expiry_index [OF tr] utf8 True]) auto
  have each: "\<exists>s. stored_session J db (due_subject d) s \<and> se_token_hash s = due_value d \<and> se_expires_at s = due_time d" if d: "d \<in> set due" for d
  proof -
    obtain k i x e where d': "d = (k, i, x, e)" by (cases d)
    with due(3) d obtain iv where iv: "t_get (t_session_expiry db) (redb_expiry_key e i) = Some iv" "i64_time e" "x = bytes_str iv" by blast
    obtain v s where "t_get (t_account_sessions db) i = Some v" "json_from_slice (j_session J) v = Some s" "se_expires_at s = e" "str_bytes (se_token_hash s) = iv"
      by (rule tracked_indexD [OF tr iv(1,2)])
    then show ?thesis using iv(3) d' by (auto simp: stored_session_def get_json_def decode_json_def)
  qed
  have "distinct (map due_subject due)" by (rule due_subjects_distinct [OF tr due(4)]) (use due(3) in blast)
  note dropped = drop_sessions_all [OF each this]
  let ?db = "db\<lparr>t_account_sessions := fold (\<lambda>d t. t_remove t (due_subject d)) due (t_account_sessions db),
     t_session_index := fold (\<lambda>d t. t_remove t (due_value d)) due (t_session_index db),
     t_session_expiry := fold (\<lambda>d t. t_remove t (due_key d)) due (t_session_expiry db)\<rparr>"
  have sub: "removed + length due < limit \<Longrightarrow> t_get (t_session_expiry db) (redb_expiry_key e s) = Some v \<Longrightarrow> i64_time e \<Longrightarrow> e \<le> now \<Longrightarrow> s \<in> due_subject ` set due" for e s v
    using due(5) [of e s v] by force
  have found: "(k, s, x, e) \<in> set due \<Longrightarrow> k = redb_expiry_key e s \<and> i64_time e \<and> s \<noteq> [] \<and> e \<le> now \<and> (\<exists>v. t_get (t_session_expiry db) k = Some v)" for k s x e
    using due(3) by blast
  have new: "tracked (j_session J) se_expires_at (\<lambda>s. str_bytes (se_token_hash s)) (t_account_sessions ?db) (t_session_expiry ?db)"
    "purged (j_session J) se_expires_at now (removed + length due < limit) (t_account_sessions db) (t_account_sessions ?db)"
    using purge_tracked [OF tr found sub] by simp_all
  have st': "stored_session J ?db i s \<longleftrightarrow> i \<notin> due_subject ` set due \<and> stored_session J db i s" for i s
    by (auto simp: stored_session_def get_json_def t_get_drop)
  have "\<exists>i s. v = str_bytes i \<and> stored_session J ?db i s \<and> se_token_hash s = th" if v: "t_get (t_session_index ?db) th = Some v" for th v
  proof -
    from v have th: "th \<notin> due_value ` set due" "t_get (t_session_index db) th = Some v" by (auto simp: t_get_drop split: if_splits)
    obtain i s where i: "v = str_bytes i" "stored_session J db i s" "se_token_hash s = th" using idx [OF th(2)] by blast
    have "i \<notin> due_subject ` set due"
    proof
      assume "i \<in> due_subject ` set due"
      then obtain d where d: "d \<in> set due" "due_subject d = i" by blast
      from each [OF d(1)] i(2) d(2) have "se_token_hash s = due_value d" by (auto simp: stored_session_def)
      with th(1) i(3) d(1) show False by blast
    qed
    with i st' show ?thesis by blast
  qed
  moreover have "se_account_id s = i \<and> valid_account i \<and> list_all is_lower_hex (se_token_hash s)
      \<and> t_get (t_session_index ?db) (se_token_hash s) = Some (str_bytes i)" if s: "stored_session J ?db i s" for i s
  proof -
    have i: "i \<notin> due_subject ` set due" "stored_session J db i s" using s st' by blast+
    have "se_token_hash s \<notin> due_value ` set due"
    proof
      assume "se_token_hash s \<in> due_value ` set due"
      then obtain d where d: "d \<in> set due" "due_value d = se_token_hash s" by force
      from each [OF d(1)] obtain s2 where "stored_session J db (due_subject d) s2" "se_token_hash s2 = se_token_hash s" using d(2) by auto
      with st [of "due_subject d" s2] st [OF i(2)] have "due_subject d = i" by simp
      with i(1) d(1) show False by blast
    qed
    with st [OF i(2)] show ?thesis by (simp add: t_get_drop)
  qed
  ultimately have "sessions_inv J ?db" using new(1) unfolding sessions_inv_def by blast
  then have "registry_inv J ?db" using assms(1) by (simp add: registry_inv_def logins_inv_def tokens_inv_def rates_inv_def) blast
  moreover have "purge_sessions J now limit (removed, db) = Ok (removed + length due, ?db)"
    using True by (simp add: purge_sessions_def due(1) dropped)
  ultimately show thesis using that [of "removed + length due" ?db] due(2) new(2) by simp
qed

lemma purge_rates_spec:
  assumes "registry_inv J db" "removed \<le> limit"
  obtains n db' where "purge_rates J now limit (removed, db) = Ok (n, db')" "removed \<le> n" "n \<le> limit" "registry_inv J db'"
    "purged (j_bucket J) rl_expires_at now (n < limit) (t_rates db) (t_rates db')"
    "db' = db\<lparr>t_rates := t_rates db', t_rate_expiry := t_rate_expiry db'\<rparr>"
proof (cases "removed < limit")
  case False
  show thesis
    by (rule that [of removed db]) (use False assms in \<open>simp_all add: purge_rates_def purged_none\<close>)
next
  case True
  have tr: "tracked (j_bucket J) rl_expires_at (\<lambda>_. []) (t_rates db) (t_rate_expiry db)"
    using assms(1) by (simp add: registry_inv_def rates_inv_def)
  obtain due where due: "scan_due (\<lambda>_. Ok ()) now limit removed (t_iter (t_rate_expiry db)) [] = Ok due" "removed + length due \<le> limit"
    "\<And>k s x e. (k, s, x, e) \<in> set due \<Longrightarrow> k = redb_expiry_key e s \<and> i64_time e \<and> s \<noteq> [] \<and> e \<le> now \<and> (\<exists>v. t_get (t_rate_expiry db) k = Some v \<and> x = ())"
    "distinct (map fst due)"
    "\<And>e s v. removed + length due < limit \<Longrightarrow> t_get (t_rate_expiry db) (redb_expiry_key e s) = Some v \<Longrightarrow> i64_time e \<Longrightarrow> e \<le> now \<Longrightarrow> (redb_expiry_key e s, s, (), e) \<in> set due"
    by (rule scan_due_spec [OF tracked_expiry_index [OF tr] _ True, of "\<lambda>_. Ok ()" "\<lambda>_. ()"]) auto
  have each: "\<exists>b. get_json (j_bucket J) (t_rates db) (due_subject d) = Ok (Some b) \<and> rl_expires_at b = due_time d" if d: "d \<in> set due" for d
  proof -
    obtain k i x e where d': "d = (k, i, x, e)" by (cases d)
    with due(3) d obtain iv where iv: "t_get (t_rate_expiry db) (redb_expiry_key e i) = Some iv" "i64_time e" by blast
    obtain v b where "t_get (t_rates db) i = Some v" "json_from_slice (j_bucket J) v = Some b" "rl_expires_at b = e"
      by (rule tracked_indexD [OF tr iv])
    then show ?thesis using d' by (auto simp: get_json_def decode_json_def)
  qed
  have "distinct (map due_subject due)" by (rule due_subjects_distinct [OF tr due(4)]) (use due(3) in blast)
  note dropped = drop_rates_all [OF each this]
  let ?db = "db\<lparr>t_rates := fold (\<lambda>d t. t_remove t (due_subject d)) due (t_rates db),
     t_rate_expiry := fold (\<lambda>d t. t_remove t (due_key d)) due (t_rate_expiry db)\<rparr>"
  have sub: "removed + length due < limit \<Longrightarrow> t_get (t_rate_expiry db) (redb_expiry_key e s) = Some v \<Longrightarrow> i64_time e \<Longrightarrow> e \<le> now \<Longrightarrow> s \<in> due_subject ` set due" for e s v
    using due(5) [of e s v] by force
  have new: "rates_inv J ?db" "purged (j_bucket J) rl_expires_at now (removed + length due < limit) (t_rates db) (t_rates ?db)"
    using purge_tracked [OF tr, of due now "removed + length due < limit"] due(3) sub by (simp_all add: rates_inv_def)
  then have "registry_inv J ?db" using assms(1) by (simp add: registry_inv_def logins_inv_def tokens_inv_def sessions_inv_def stored_session_def) blast
  moreover have "purge_rates J now limit (removed, db) = Ok (removed + length due, ?db)"
    using True by (simp add: purge_rates_def due(1) dropped)
  ultimately show thesis using that [of "removed + length due" ?db] due(2) new(2) by simp
qed
lemma purged_mono: "purged j ex now all t t' \<Longrightarrow> (all' \<Longrightarrow> all) \<Longrightarrow> purged j ex now all' t t'"
  unfolding purged_def by blast

lemma purge_expired_spec:
  assumes "registry_inv J db"
  obtains n db' where "purge_expired J None db now limit = (Ok n, db')" "n \<le> limit" "registry_inv J db'" "t_login_index db' = t_login_index db"
    "purged (j_login_token J) lt_expires_at now (n < limit) (t_login_tokens db) (t_login_tokens db')"
    "purged (j_session J) se_expires_at now (n < limit) (t_account_sessions db) (t_account_sessions db')"
    "purged (j_bucket J) rl_expires_at now (n < limit) (t_rates db) (t_rates db')"
proof (cases "limit = 0")
  case True
  show thesis by (rule that [of 0 db]) (use True assms in \<open>simp_all add: purge_expired_def purged_none\<close>)
next
  case False
  then obtain n1 db1 where t: "purge_tokens now limit db = Ok (n1, db1)" "n1 \<le> limit" "registry_inv J db1"
    "purged (j_login_token J) lt_expires_at now (n1 < limit) (t_login_tokens db) (t_login_tokens db1)"
    "db1 = db\<lparr>t_login_tokens := t_login_tokens db1, t_login_token_expiry := t_login_token_expiry db1\<rparr>"
    using purge_tokens_spec [OF assms] by blast
  obtain n2 db2 where s: "purge_sessions J now limit (n1, db1) = Ok (n2, db2)" "n1 \<le> n2" "n2 \<le> limit" "registry_inv J db2"
    "purged (j_session J) se_expires_at now (n2 < limit) (t_account_sessions db1) (t_account_sessions db2)"
    "db2 = db1\<lparr>t_account_sessions := t_account_sessions db2, t_session_index := t_session_index db2, t_session_expiry := t_session_expiry db2\<rparr>"
    by (rule purge_sessions_spec [OF t(3,2)])
  obtain n3 db3 where r: "purge_rates J now limit (n2, db2) = Ok (n3, db3)" "n2 \<le> n3" "n3 \<le> limit" "registry_inv J db3"
    "purged (j_bucket J) rl_expires_at now (n3 < limit) (t_rates db2) (t_rates db3)"
    "db3 = db2\<lparr>t_rates := t_rates db3, t_rate_expiry := t_rate_expiry db3\<rparr>"
    by (rule purge_rates_spec [OF s(4,3)])
  have same: "t_account_sessions db1 = t_account_sessions db" "t_rates db2 = t_rates db" "t_login_tokens db3 = t_login_tokens db1"
    "t_account_sessions db3 = t_account_sessions db2" "t_login_index db3 = t_login_index db"
    by (subst t(5), simp) (subst s(6), simp, subst t(5), simp, subst r(6), simp, subst s(6), simp, subst r(6), simp,
      subst r(6), simp, subst s(6), simp, subst t(5), simp)
  show thesis
  proof (rule that [of n3 db3])
    show "purge_expired J None db now limit = (Ok n3, db3)" using False t(1) s(1) r(1) by (simp add: purge_expired_def write_tx_None)
    show "purged (j_login_token J) lt_expires_at now (n3 < limit) (t_login_tokens db) (t_login_tokens db3)"
      unfolding same(3) by (rule purged_mono [OF t(4)]) (use s(2) r(2) in linarith)
    show "purged (j_session J) se_expires_at now (n3 < limit) (t_account_sessions db) (t_account_sessions db3)"
      unfolding same(4) by (rule purged_mono [OF s(5) [unfolded same(1)]]) (use r(2) in linarith)
    show "purged (j_bucket J) rl_expires_at now (n3 < limit) (t_rates db) (t_rates db3)" using r(5) by (simp only: same(2))
  qed (use r same in simp_all)
qed

lemma purge_expired_inv:
  assumes "registry_inv J db" "purge_expired J flt db now limit = (r, db')"
  shows "registry_inv J db' \<and> t_login_index db' = t_login_index db \<and> (\<forall>i s. stored_session J db' i s \<longrightarrow> stored_session J db i s)"
proof (cases flt)
  case None
  obtain n db1 where p: "purge_expired J None db now limit = (Ok n, db1)" "registry_inv J db1" "t_login_index db1 = t_login_index db"
    "purged (j_session J) se_expires_at now (n < limit) (t_account_sessions db) (t_account_sessions db1)"
    by (rule purge_expired_spec [OF assms(1)])
  with assms(2) None have "db1 = db'" by simp
  moreover have "t_get (t_account_sessions db1) k = Some v \<Longrightarrow> t_get (t_account_sessions db) k = Some v" for k v
    using p(4) unfolding purged_def by blast
  then have "stored_session J db1 i s \<Longrightarrow> stored_session J db i s" for i s
    by (auto simp: stored_session_def get_json_Ok)
  ultimately show ?thesis using p(2,3) by blast
next
  case (Some e)
  with assms show ?thesis by (auto simp: purge_expired_def write_tx_def split: if_splits)
qed

section \<open>Runs of the registry\<close>

text \<open>The random source does not repeat an outstanding token.\<close>

definition fresh_token :: "crypto \<Rightarrow> table \<Rightarrow> getrandom \<Rightarrow> bool" where
  "fresh_token C t rng \<longleftrightarrow> (\<forall>b. rng 32 = Some b \<longrightarrow> t_get t (token_hash C (registry_hex b)) = None)"

text \<open>A step is one call of the service or of the store, with the session it issued, if any.\<close>

inductive registry_step :: "crypto \<Rightarrow> registry_codecs \<Rightarrow> redb \<Rightarrow> session_token option \<Rightarrow> redb \<Rightarrow> bool" for C J where
  step_open: "redb_init J flt db = (r, db') \<Longrightarrow> registry_step C J db None db'"
| step_request: "0 \<le> now \<Longrightarrow> fresh_token C (t_login_tokens db) rng \<Longrightarrow> request_email_login C J flts rng db email now ttl = (r, db') \<Longrightarrow>
    registry_step C J db None db'"
| step_confirm: "getrandom_ok rng \<Longrightarrow> confirm_login C J flts rng db token now = (r, db') \<Longrightarrow> registry_step C J db None db'"
| step_session: "0 \<le> now \<Longrightarrow> valid_account i \<Longrightarrow> fresh_token C (t_session_index db) rng \<Longrightarrow>
    create_session C J flts rng db i now ttl = (r, db') \<Longrightarrow> registry_step C J db (ok_opt r) db'"
| step_rate: "0 \<le> now \<Longrightarrow> bump_rate_limit J flt db k now window_secs = (r, db') \<Longrightarrow> registry_step C J db None db'"
| step_swap: "compare_and_swap_blob_ref J flt db i kind expected nxt = (sw, db') \<Longrightarrow> registry_step C J db None db'"
| step_swap_record: "compare_and_swap_public_record_ref J flt db i uid previous_uid expected nxt = (sw, db') \<Longrightarrow> registry_step C J db None db'"
| step_purge: "purge_expired J flt db now limit = (r, db') \<Longrightarrow> registry_step C J db None db'"

inductive registry_run :: "crypto \<Rightarrow> registry_codecs \<Rightarrow> redb \<Rightarrow> session_token list \<Rightarrow> bool" for C J where
  run_start: "registry_run C J (snd (redb_init J None redb_empty)) []"
| run_step: "registry_run C J db log \<Longrightarrow> registry_step C J db issued db' \<Longrightarrow>
    registry_run C J db' (log @ (case issued of Some t \<Rightarrow> [t] | None \<Rightarrow> []))"

definition latest_session :: "session_token list \<Rightarrow> account_id \<Rightarrow> session_token option" where
  "latest_session log i = List.find (\<lambda>t. st_account_id t = i) (rev log)"

definition log_inv :: "crypto \<Rightarrow> registry_codecs \<Rightarrow> redb \<Rightarrow> session_token list \<Rightarrow> bool" where
  "log_inv C J db log \<longleftrightarrow> (\<forall>i s. stored_session J db i s \<longrightarrow> (\<exists>t. latest_session log i = Some t
     \<and> token_hash C (st_token t) = se_token_hash s \<and> st_expires_at t = se_expires_at s))"

lemma request_inv:
  assumes "registry_inv J db" "json_codecs_ok J" "sha256_len C" "0 \<le> now" "fresh_token C (t_login_tokens db) rng"
    and "request_email_login C J flts rng db email now ttl = (r, db')"
  shows "registry_inv J db' \<and> t_login_index db' = t_login_index db \<and> (\<forall>i s. stored_session J db' i s = stored_session J db i s)"
proof (cases "db' = db")
  case False
  have logins: "logins_inv db" using assms(1) by (simp add: registry_inv_def)
  from assms(6) False obtain vh i token where h: "0 < ttl" "get_account_id (t_login_index db) (login_key Email vh) = Ok i"
    "random_token rng = Ok token"
    and put: "snd (put_login_token J (flts 1) db (token_hash C token)
        \<lparr>lt_kind = Email, lt_value_hash = vh, lt_account_id = i, lt_expires_at = i64_saturating_add now ttl\<rparr>) = db'"
    by (auto simp: request_email_login_def tryE_def tryS_def account_id_by_login_def read_tx_def split: if_splits sum.splits option.splits)
  have fresh: "t_get (t_login_tokens db) (token_hash C token) = None"
    using h(3) assms(5) by (auto simp: random_token_def fresh_token_def split: option.splits)
  have "t_get (t_login_index db) (login_key Email vh) = Some (str_bytes a) \<and> valid_account a" if "i = Some a" for a
    using h(2) that logins_valid [OF logins] unfolding get_account_id_valid [OF logins] by auto
  with put_login_token_inv [OF assms(1,2) token_hash_ne [OF assms(3)] fresh] i64_time_add [OF assms(4) h(1)] put show ?thesis
    by (metis (no_types, lifting) login_token.select_convs surjective_pairing)
qed (use assms(1) in auto)

lemma confirm_cases:
  assumes "confirm_login C J flts rng db token now = (r, db')"
  obtains db1 x where "take_login_token J (flts 0) db (token_hash C token) = (x, db1)" "db' = db1"
  | db1 login i where "take_login_token J (flts 0) db (token_hash C token) = (Ok (Some login), db1)" "account_id_generate rng = Ok i"
      "lt_account_id login = None" "now < lt_expires_at login"
      "get_or_create_account_for_login J (flts 1) db1 (lt_kind login) (lt_value_hash login) (account_new i now) now = (r, db')"
  using assms unfolding confirm_login_def
  by (cases "take_login_token J (flts 0) db (token_hash C token)")
    (auto simp: tryS_def tryE_def split: sum.splits option.splits if_splits)

lemma confirm_inv:
  assumes "registry_inv J db" "getrandom_ok rng" "confirm_login C J flts rng db token now = (r, db')"
  shows "registry_inv J db' \<and> (\<forall>k v. t_get (t_login_index db) k = Some v \<longrightarrow> t_get (t_login_index db') k = Some v)
    \<and> (\<forall>i s. stored_session J db' i s = stored_session J db i s)"
  using assms(3)
proof (cases rule: confirm_cases)
  case (1 db1 x)
  with take_login_token_inv [OF assms(1) 1(1)] show ?thesis by simp
next
  case (2 db1 login i)
  have "valid_account (ac_id (account_new i now))" using account_id_generate_valid [OF assms(2) 2(2)] by (simp add: account_new_def)
  with take_login_token_inv [OF assms(1) 2(1)] get_or_create_inv [OF _ _ 2(5)] show ?thesis by auto
qed

lemma session_step_inv:
  assumes "registry_inv J db" "json_codecs_ok J" "0 \<le> now" "valid_account i" "fresh_token C (t_session_index db) rng"
    and "create_session C J flts rng db i now ttl = (r, db')"
  shows "registry_inv J db' \<and> t_login_index db' = t_login_index db
    \<and> (\<forall>j s. stored_session J db' j s = (case r of
          Ok t \<Rightarrow> if j = i then s = \<lparr>se_account_id = i, se_token_hash = token_hash C (st_token t), se_expires_at = st_expires_at t\<rparr> else stored_session J db j s
        | Err _ \<Rightarrow> stored_session J db j s))
    \<and> (\<forall>t. r = Ok t \<longrightarrow> st_account_id t = i)"
proof (cases "0 < ttl \<and> is_ok (random_token rng)")
  case True
  then obtain token where token: "0 < ttl" "random_token rng = Ok token" by (auto simp: is_ok_iff)
  let ?s = "\<lparr>se_account_id = i, se_token_hash = token_hash C token, se_expires_at = i64_saturating_add now ttl\<rparr>"
  obtain x where run: "replace_session J (flts 0) db ?s = (x, db')" "r = map_err id (case x of Ok _ \<Rightarrow> Ok \<lparr>st_token = token, st_account_id = i, st_expires_at = i64_saturating_add now ttl\<rparr> | Err e \<Rightarrow> Err e)"
    using assms(6) token by (cases "replace_session J (flts 0) db ?s"; cases "fst (replace_session J (flts 0) db ?s)") (auto simp: create_session_def Let_def)
  have fresh: "t_get (t_session_index db) (se_token_hash ?s) = None"
    using token(2) assms(5) by (auto simp: random_token_def fresh_token_def split: option.splits)
  have "registry_inv J db' \<and> t_login_index db' = t_login_index db
      \<and> (\<forall>j s'. stored_session J db' j s' = (if is_ok x \<and> j = se_account_id ?s then s' = ?s else stored_session J db j s'))"
    by (rule replace_session_inv [OF assms(1,2) _ _ _ run(1) fresh])
      (simp_all add: assms(4) token_hash_lower i64_time_add [OF assms(3) token(1)])
  then show ?thesis using run(2) by (cases x) auto
next
  case False
  then have "r = Err e \<Longrightarrow> ?thesis" "db' = db" "\<exists>e. r = Err e" for e
    using assms(1,6) by (auto simp: create_session_def is_ok_iff tryE_def split: if_splits sum.splits)
  with assms(1) show ?thesis by auto
qed
lemma registry_step_inv:
  assumes "registry_step C J db issued db'" "registry_inv J db" "json_codecs_ok J" "sha256_len C"
  shows "registry_inv J db' \<and> (\<forall>k v. t_get (t_login_index db) k = Some v \<longrightarrow> t_get (t_login_index db') k = Some v)
    \<and> (\<forall>j s. stored_session J db' j s \<longrightarrow> (case issued of
          Some t \<Rightarrow> if j = st_account_id t then se_token_hash s = token_hash C (st_token t) \<and> se_expires_at s = st_expires_at t else stored_session J db j s
        | None \<Rightarrow> stored_session J db j s))"
  using assms(1)
proof cases
  case (step_open flt r)
  then have "db' = db" using assms(2) by (auto simp: redb_init_def registry_inv_def write_tx_def split: option.splits)
  with step_open(1) assms(2) show ?thesis by simp
next
  case (step_request now rng flts email ttl r)
  with request_inv [OF assms(2-4) step_request(2-4)] show ?thesis by auto
next
  case (step_confirm rng flts token now r)
  with confirm_inv [OF assms(2) step_confirm(2,3)] show ?thesis by auto
next
  case (step_session now i rng flts ttl r)
  with session_step_inv [OF assms(2,3) step_session(2-5)] show ?thesis by (cases r) auto
next
  case (step_rate now flt k window_secs r)
  with bump_rate_limit_inv [OF assms(2,3) step_rate(2,3)] show ?thesis by auto
next
  case (step_swap flt i kind expected nxt sw)
  with swap_inv [OF disjI1 [OF step_swap(2)] assms(2)] show ?thesis by auto
next
  case (step_swap_record flt i uid previous_uid expected nxt sw)
  with swap_inv [OF disjI2 [OF step_swap_record(2)] assms(2)] show ?thesis by auto
next
  case (step_purge flt now limit r)
  with purge_expired_inv [OF assms(2) step_purge(2)] show ?thesis by auto
qed

lemma latest_session_snoc: "latest_session (log @ [t]) i = (if st_account_id t = i then Some t else latest_session log i)"
  by (simp add: latest_session_def)

lemma registry_run_inv:
  assumes "registry_run C J db log" "json_codecs_ok J" "sha256_len C"
  shows "registry_inv J db \<and> log_inv C J db log"
  using assms(1)
proof induction
  case run_start
  have "\<not> stored_session J (snd (redb_init J None redb_empty)) i s" for i s
    by (simp add: redb_init_def redb_empty_def write_tx_None backfill_def t_iter_def stored_session_def get_json_def)
  with redb_open_inv show ?case by (simp add: log_inv_def)
next
  case (run_step db log issued db')
  then have inv: "registry_inv J db" "log_inv C J db log" by auto
  note st = registry_step_inv [OF run_step.hyps(2) inv(1) assms(2,3)]
  have "log_inv C J db' (log @ (case issued of Some t \<Rightarrow> [t] | None \<Rightarrow> []))"
    unfolding log_inv_def
  proof (intro allI impI)
    fix i s assume "stored_session J db' i s"
    with st have s: "case issued of
          Some t \<Rightarrow> if i = st_account_id t then se_token_hash s = token_hash C (st_token t) \<and> se_expires_at s = st_expires_at t else stored_session J db i s
        | None \<Rightarrow> stored_session J db i s" by blast
    show "\<exists>t. latest_session (log @ (case issued of Some t \<Rightarrow> [t] | None \<Rightarrow> [])) i = Some t
        \<and> token_hash C (st_token t) = se_token_hash s \<and> st_expires_at t = se_expires_at s"
    proof (cases issued)
      case None
      with s inv(2) show ?thesis by (simp add: log_inv_def)
    next
      case (Some t)
      with s inv(2) show ?thesis by (cases "i = st_account_id t") (auto simp: log_inv_def latest_session_snoc)
    qed
  qed
  with st show ?case by blast
qed

lemma session_get_stored:
  assumes "sessions_inv J db"
  shows "session_get J None db th = Ok (Some s) \<longleftrightarrow> se_token_hash s = th \<and> stored_session J db (se_account_id s) s"
    "\<exists>x. session_get J None db th = Ok x"
proof -
  have st: "\<And>i s. stored_session J db i s \<Longrightarrow> se_account_id s = i \<and> valid_account i \<and> list_all is_lower_hex (se_token_hash s)
      \<and> t_get (t_session_index db) (se_token_hash s) = Some (str_bytes i)"
    and idx: "\<And>th v. t_get (t_session_index db) th = Some v \<Longrightarrow> \<exists>i s. v = str_bytes i \<and> stored_session J db i s \<and> se_token_hash s = th"
    using assms unfolding sessions_inv_def by blast+
  have found: "session_get J None db th = Ok (Some s)" if "stored_session J db i s" "se_token_hash s = th" for i s
    using st [OF that(1)] that by (simp add: session_get_def read_tx_def stored_session_def valid_account_def lower_hex_utf8)
  show "session_get J None db th = Ok (Some s) \<longleftrightarrow> se_token_hash s = th \<and> stored_session J db (se_account_id s) s"
  proof
    assume get: "session_get J None db th = Ok (Some s)"
    then obtain v where "t_get (t_session_index db) th = Some v" by (auto simp: session_get_def read_tx_def split: option.splits)
    from idx [OF this] obtain i s' where i: "stored_session J db i s'" "se_token_hash s' = th" by blast
    with get found st show "se_token_hash s = th \<and> stored_session J db (se_account_id s) s" by auto
  qed (use found in blast)
  show "\<exists>x. session_get J None db th = Ok x"
  proof (cases "t_get (t_session_index db) th")
    case (Some v)
    with idx found show ?thesis by blast
  qed (simp add: session_get_def read_tx_def)
qed

lemma account_for_session_fault: "flt 0 \<noteq> None \<Longrightarrow> \<exists>e. account_for_session C J flt db token now = Err e"
  by (auto simp: account_for_session_def session_get_def read_tx_def)

lemma account_for_session_iff:
  assumes "sessions_inv J db" "flt 0 = None"
  shows "account_for_session C J flt db token now = Ok (Some i) \<longleftrightarrow>
      (\<exists>s. stored_session J db i s \<and> se_token_hash s = token_hash C token \<and> now < se_expires_at s)"
    "\<exists>x. account_for_session C J flt db token now = Ok x"
proof -
  obtain x where x: "session_get J None db (token_hash C token) = Ok x" using session_get_stored(2) [OF assms(1)] by blast
  have own: "stored_session J db i s \<Longrightarrow> se_account_id s = i" for i s using assms(1) unfolding sessions_inv_def by blast
  show "account_for_session C J flt db token now = Ok (Some i) \<longleftrightarrow>
      (\<exists>s. stored_session J db i s \<and> se_token_hash s = token_hash C token \<and> now < se_expires_at s)"
  proof (cases x)
    case None
    with x session_get_stored(1) [OF assms(1), of "token_hash C token"] own show ?thesis
      by (auto simp: account_for_session_def assms(2))
  next
    case (Some s)
    have only: "se_token_hash s' = token_hash C token \<and> stored_session J db (se_account_id s') s' \<longleftrightarrow> s' = s" for s'
      using x Some session_get_stored(1) [OF assms(1), of "token_hash C token" s'] by auto
    have "account_for_session C J flt db token now = Ok (if se_expires_at s \<le> now then None else Some (se_account_id s))"
      using x Some by (simp add: account_for_session_def assms(2))
    moreover have "(\<exists>s'. stored_session J db i s' \<and> se_token_hash s' = token_hash C token \<and> now < se_expires_at s')
        \<longleftrightarrow> i = se_account_id s \<and> now < se_expires_at s" (is "?l \<longleftrightarrow> ?r")
    proof
      assume ?l
      then obtain s' where s': "stored_session J db i s'" "se_token_hash s' = token_hash C token" "now < se_expires_at s'" by blast
      then have "s' = s" using only [of s'] own by simp
      with s' own show ?r by simp
    next
      assume ?r
      then show ?l using only [of s] by auto
    qed
    ultimately show ?thesis by auto
  qed
  show "\<exists>x. account_for_session C J flt db token now = Ok x"
    using x by (cases x) (auto simp: account_for_session_def assms(2))
qed

lemma account_for_session_latest:
  assumes "json_codecs_ok J" "sha256_len C" "registry_run C J db log" "account_for_session C J flt db token now = Ok (Some i)"
  shows "\<exists>t. latest_session log i = Some t \<and> token_hash C (st_token t) = token_hash C token \<and> now < st_expires_at t"
proof -
  have inv: "registry_inv J db" "log_inv C J db log" using registry_run_inv [OF assms(3,1,2)] by auto
  have "flt 0 = None" using account_for_session_fault [of flt C J db token now] assms(4) by force
  with assms(4) inv(1) account_for_session_iff(1) obtain s where
    "stored_session J db i s" "se_token_hash s = token_hash C token" "now < se_expires_at s" unfolding registry_inv_def by blast
  with inv(2) show ?thesis by (fastforce simp: log_inv_def)
qed

lemma take_login_token_Ok:
  "take_login_token J flt db th = (Ok (Some login), db') \<Longrightarrow>
     get_json (j_login_token J) (t_login_tokens db) th = Ok (Some login) \<and> t_get (t_login_tokens db') th = None"
  unfolding take_login_token_def write_tx_Ok by (auto simp: get_json_def result_elims split: option.splits)

lemma get_or_create_tokens:
  "get_or_create_account_for_login J flt db kind hash acc now = (r, db') \<Longrightarrow> t_login_tokens db' = t_login_tokens db"
  unfolding get_or_create_account_for_login_def
  by (elim write_tx_cases) (auto simp: result_elims Let_def split: option.splits)

lemma confirm_binds:
  assumes "registry_inv J db" "getrandom_ok rng" "confirm_login C J flts rng db token now = (Ok al, db')"
  obtains login where "get_json (j_login_token J) (t_login_tokens db) (token_hash C token) = Ok (Some login)" "now < lt_expires_at login"
    "t_get (t_login_index db') (login_key (lt_kind login) (lt_value_hash login)) = Some (str_bytes (al_account_id al))"
    "t_get (t_login_tokens db') (token_hash C token) = None"
proof -
  obtain login db1 where t: "take_login_token J (flts 0) db (token_hash C token) = (Ok (Some login), db1)" "now < lt_expires_at login"
    using assms(3) unfolding confirm_login_def by (auto simp: result_elims split: option.splits if_splits)
  note taken = take_login_token_Ok [OF t(1)] and inv1 = take_login_token_inv [OF assms(1) t(1)]
  show thesis
  proof (cases "lt_account_id login")
    case (Some i)
    then have "al = \<lparr>al_account_id = i, al_created = False\<rparr>" "db' = db1" using assms(3) t by (auto simp: confirm_login_def)
    moreover have "t_get (t_login_index db) (login_key (lt_kind login) (lt_value_hash login)) = Some (str_bytes i)"
    proof -
      obtain v where "t_get (t_login_tokens db) (token_hash C token) = Some v" "json_from_slice (j_login_token J) v = Some login"
        using taken by (auto simp: get_json_Ok)
      with Some assms(1) show ?thesis unfolding registry_inv_def tokens_inv_def by blast
    qed
    ultimately show thesis using that [of login] t(2) taken inv1 by simp
  next
    case None
    then obtain i where i: "account_id_generate rng = Ok i"
      "get_or_create_account_for_login J (flts 1) db1 (lt_kind login) (lt_value_hash login) (account_new i now) now = (Ok al, db')"
      using assms(3) t by (auto simp: confirm_login_def result_elims)
    have "valid_account (ac_id (account_new i now))" using account_id_generate_valid [OF assms(2) i(1)] by (simp add: account_new_def)
    with get_or_create_inv [OF _ _ i(2)] inv1
    have "t_get (t_login_index db') (login_key (lt_kind login) (lt_value_hash login)) = Some (str_bytes (al_account_id al))" by blast
    then show thesis using that [of login] t(2) taken get_or_create_tokens [OF i(2)] by simp
  qed
qed

lemma login_binding_kept:
  assumes "(\<lambda>a b. \<exists>t. registry_step C J a t b)\<^sup>*\<^sup>* db db'" "registry_inv J db" "json_codecs_ok J" "sha256_len C"
    and "t_get (t_login_index db) k = Some v"
  shows "registry_inv J db' \<and> t_get (t_login_index db') k = Some v"
  using assms(1)
proof induction
  case base
  show ?case using assms(2,5) by simp
next
  case (step a b)
  then obtain t where "registry_step C J a t b" by blast
  from registry_step_inv [OF this _ assms(3,4)] step.IH show ?case by blast
qed

section \<open>Sample parameters\<close>

definition sample_json :: "'a scodec \<Rightarrow> 'a json" where
  "sample_json s = \<lparr>json_to_vec = (\<lambda>v. Some (s_put s v)), json_from_slice = (\<lambda>b. case s_take s b of Some (v, []) \<Rightarrow> Some v | _ \<Rightarrow> None)\<rparr>"

lemma sample_json_ok [sample_ok]: "scodec_ok s \<Longrightarrow> json_ok (sample_json s)"
proof -
  assume "scodec_ok s"
  then have "s_take s (s_put s v @ []) = Some (v, [])" for v by (simp only: scodec_ok_def)
  then show ?thesis by (simp add: json_ok_def sample_json_def)
qed

definition s_int :: "int scodec" where
  "s_int = s_iso (\<lambda>i. (i < 0, nat \<bar>i\<bar>)) (\<lambda>(n, a). if n then - int a else int a) (s_pair s_bool s_nat)"

lemma s_int_ok [sample_ok]: "scodec_ok s_int"
  unfolding s_int_def by (rule s_iso_ok) (simp_all add: sample_ok)

definition s_account :: "account scodec" where
  "s_account = s_iso (\<lambda>a. (ac_id a, ac_created_at a, ac_updated_at a, ac_display_handle a))
     (\<lambda>(i, c, u, d). \<lparr>ac_id = i, ac_created_at = c, ac_updated_at = u, ac_display_handle = d\<rparr>)
     (s_pair s_string (s_pair s_int (s_pair s_int (s_option s_string))))"

definition s_login_identity :: "login_identity scodec" where
  "s_login_identity = s_iso (\<lambda>l. (li_value_hash l, li_account_id l, li_verified_at l))
     (\<lambda>(h, i, v). \<lparr>li_kind = Email, li_value_hash = h, li_account_id = i, li_verified_at = v\<rparr>)
     (s_pair s_string (s_pair s_string s_int))"

definition s_login_token :: "login_token scodec" where
  "s_login_token = s_iso (\<lambda>l. (lt_value_hash l, lt_account_id l, lt_expires_at l))
     (\<lambda>(h, i, e). \<lparr>lt_kind = Email, lt_value_hash = h, lt_account_id = i, lt_expires_at = e\<rparr>)
     (s_pair s_string (s_pair (s_option s_string) s_int))"

definition s_session :: "session scodec" where
  "s_session = s_iso (\<lambda>s. (se_account_id s, se_token_hash s, se_expires_at s))
     (\<lambda>(i, t, e). \<lparr>se_account_id = i, se_token_hash = t, se_expires_at = e\<rparr>) (s_pair s_string (s_pair s_string s_int))"

definition s_blob_ref :: "blob_ref scodec" where
  "s_blob_ref = s_iso (\<lambda>b. (br_id b, br_size b, br_sha256 b)) (\<lambda>(i, n, h). \<lparr>br_id = i, br_size = n, br_sha256 = h\<rparr>)
     (s_pair s_string (s_pair s_word s_string))"

definition s_bucket :: "rate_limit_bucket scodec" where
  "s_bucket = s_iso (\<lambda>b. (rl_count b, rl_expires_at b)) (\<lambda>(c, e). \<lparr>rl_count = c, rl_expires_at = e\<rparr>) (s_pair s_word s_int)"

definition sample_registry :: registry_codecs where
  "sample_registry = \<lparr>j_account = sample_json s_account, j_login_identity = sample_json s_login_identity, j_login_token = sample_json s_login_token,
     j_session = sample_json s_session, j_blob_ref = sample_json s_blob_ref, j_bucket = sample_json s_bucket\<rparr>"

lemma sample_registry_scodecs [sample_ok]: "scodec_ok s_account" "scodec_ok s_login_identity" "scodec_ok s_login_token" "scodec_ok s_session"
  "scodec_ok s_blob_ref" "scodec_ok s_bucket"
proof -
  have one: "li_kind l = Email" "lt_kind t = Email" for l t by (cases "li_kind l", simp) (cases "lt_kind t", simp)
  show "scodec_ok s_account" unfolding s_account_def by (rule s_iso_ok) (simp_all add: sample_ok)
  show "scodec_ok s_login_identity" unfolding s_login_identity_def by (rule s_iso_ok) (auto simp: sample_ok one intro: login_identity.equality)
  show "scodec_ok s_login_token" unfolding s_login_token_def by (rule s_iso_ok) (auto simp: sample_ok one intro: login_token.equality)
  show "scodec_ok s_session" unfolding s_session_def by (rule s_iso_ok) (simp_all add: sample_ok)
  show "scodec_ok s_blob_ref" unfolding s_blob_ref_def by (rule s_iso_ok) (simp_all add: sample_ok)
  show "scodec_ok s_bucket" unfolding s_bucket_def by (rule s_iso_ok) (simp_all add: sample_ok)
qed

lemma sample_registry_ok [sample_ok]: "json_codecs_ok sample_registry"
  by (simp add: json_codecs_ok_def sample_registry_def sample_ok)

definition sample_rng :: "byte \<Rightarrow> getrandom" where
  "sample_rng b n = Some (replicate n b)"

definition sample_db :: redb where
  "sample_db = redb_empty\<lparr>t_meta := [(str_bytes EXPIRY_INDEX_MARKER, str_bytes ''1'')]\<rparr>"

lemma sample_db_start: "sample_db = snd (redb_init J None redb_empty)"
  by (simp add: sample_db_def redb_init_def redb_empty_def write_tx_None backfill_def t_iter_def t_insert_def)

lemma sample_db_tables [simp]: "t_login_index sample_db = []" "t_login_tokens sample_db = []" "t_account_sessions sample_db = []" "t_session_index sample_db = []"
  by (simp_all add: sample_db_def redb_empty_def)

lemma sample_db_run: "registry_run C J sample_db []"
  unfolding sample_db_start [of J] by (rule run_start)

definition sample_account :: account_id where
  "sample_account = replicate 32 (CHR ''a'')"

lemma sample_account_valid: "valid_account sample_account"
  by (simp add: sample_account_def valid_account_def list_all_iff is_lower_hex_def less_eq_char_def)

lemma sample_session:
  obtains t db' where "create_session sample_crypto sample_registry (\<lambda>_. None) (sample_rng 7) sample_db sample_account 1000 900 = (Ok t, db')"
    "st_expires_at t = 1900"
proof -
  let ?s = "\<lparr>se_account_id = sample_account, se_token_hash = token_hash sample_crypto (registry_hex (replicate 32 7)), se_expires_at = 1900\<rparr>"
  obtain b where "encode_json (j_session sample_registry) ?s = Ok b"
    using json_encode_ok [of "j_session sample_registry"] sample_registry_ok by (auto simp: json_codecs_ok_def)
  moreover have "i64_saturating_add 1000 900 = 1900" by (simp add: i64_saturating_add_def I64_MAX_def I64_MIN_def)
  ultimately have "\<exists>t db'. create_session sample_crypto sample_registry (\<lambda>_. None) (sample_rng 7) sample_db sample_account 1000 900 = (Ok t, db') \<and> st_expires_at t = 1900"
    by (simp add: create_session_def random_token_def sample_rng_def Let_def replace_session_def write_tx_None get_json_def)
  with that show thesis by blast
qed

lemma sample_email: "normalize_email ''a@b'' = Ok ''a@b''"
proof -
  have "str_trim ''a@b'' = ''a@b''" by (rule str_trim_graphic) (simp add: is_ascii_graphic_def)
  then show ?thesis by (simp add: normalize_email_def to_ascii_lowercase_def is_ascii_control_def)
qed

lemma sample_login:
  obtains token db1 al db2 where
    "request_email_login sample_crypto sample_registry (\<lambda>_. None) (sample_rng 7) sample_db ''a@b'' 1000 900 = (Ok \<lparr>lc_token = token, lc_expires_at = 1900\<rparr>, db1)"
    "confirm_login sample_crypto sample_registry (\<lambda>_. None) (sample_rng 8) db1 token 1200 = (Ok al, db2)"
proof -
  note ok = sample_registry_ok [unfolded json_codecs_ok_def]
  let ?token = "registry_hex (replicate 32 7)" and ?vh = "hash_login_identity sample_crypto Email ''a@b''"
  let ?login = "\<lparr>lt_kind = Email, lt_value_hash = ?vh, lt_account_id = None, lt_expires_at = 1900\<rparr>"
  obtain b where b: "encode_json (j_login_token sample_registry) ?login = Ok b" "json_from_slice (j_login_token sample_registry) b = Some ?login"
    using json_encode_ok [of "j_login_token sample_registry" ?login] ok by auto
  obtain a where a: "encode_json (j_account sample_registry) (account_new (registry_hex (replicate 16 8)) 1200) = Ok a"
    using json_encode_ok [of "j_account sample_registry"] ok by meson
  obtain i where i: "encode_json (j_login_identity sample_registry) \<lparr>li_kind = Email, li_value_hash = ?vh, li_account_id = registry_hex (replicate 16 8), li_verified_at = 1200\<rparr> = Ok i"
    using json_encode_ok [of "j_login_identity sample_registry"] ok by meson
  let ?db1 = "sample_db\<lparr>t_login_tokens := t_insert [] (token_hash sample_crypto ?token) b,
    t_login_token_expiry := t_insert (t_login_token_expiry sample_db) (redb_expiry_key 1900 (token_hash sample_crypto ?token)) []\<rparr>"
  have sat: "i64_saturating_add 1000 900 = 1900" by (simp add: i64_saturating_add_def I64_MAX_def I64_MIN_def)
  have r: "request_email_login sample_crypto sample_registry (\<lambda>_. None) (sample_rng 7) sample_db ''a@b'' 1000 900 = (Ok \<lparr>lc_token = ?token, lc_expires_at = 1900\<rparr>, ?db1)"
    using b by (simp add: request_email_login_def login_identity_hash_email_def sample_email account_id_by_login_def read_tx_def get_account_id_def
      random_token_def sample_rng_def put_login_token_def write_tx_None sat)
  have "\<exists>al db2. confirm_login sample_crypto sample_registry (\<lambda>_. None) (sample_rng 8) ?db1 ?token 1200 = (Ok al, db2)"
    using b a i by (simp add: confirm_login_def take_login_token_def write_tx_None decode_json_def account_id_generate_def sample_rng_def
      get_or_create_account_for_login_def get_account_id_def account_new_def)
  with r that show thesis by blast
qed

section \<open>Properties\<close>

text \<open>
  C39: a bearer token opens only the latest session.  In every state the registry can reach, under
  any failures of the database engine, a token resolves to an account only if it is the token of the
  last session issued for that account and that session has not expired; and a session just
  issued does resolve until its expiry, and only until then.
\<close>

theorem session_is_latest:
  assumes "json_codecs_ok J" "sha256_len C" "registry_run C J db log"
  shows "(account_for_session C J flt db token now = Ok (Some i) \<longrightarrow>
      (\<exists>t. latest_session log i = Some t \<and> token_hash C (st_token t) = token_hash C token \<and> now < st_expires_at t))
    \<and> (0 \<le> issued_at \<and> valid_account i \<and> fresh_token C (t_session_index db) rng
        \<and> create_session C J flts rng db i issued_at ttl = (Ok t, db') \<and> flt 0 = None \<longrightarrow>
       account_for_session C J flt db' (st_token t) now = Ok (if now < st_expires_at t then Some i else None))"
proof (intro conjI impI)
  have inv: "registry_inv J db" "log_inv C J db log" using registry_run_inv [OF assms(3,1,2)] by auto
  show "\<exists>t. latest_session log i = Some t \<and> token_hash C (st_token t) = token_hash C token \<and> now < st_expires_at t"
    if "account_for_session C J flt db token now = Ok (Some i)" using account_for_session_latest [OF assms that] .
  { assume new: "0 \<le> issued_at \<and> valid_account i \<and> fresh_token C (t_session_index db) rng
        \<and> create_session C J flts rng db i issued_at ttl = (Ok t, db') \<and> flt 0 = None"
    note st = session_step_inv [OF inv(1) assms(1), of issued_at i C rng flts ttl "Ok t" db']
    have inv': "sessions_inv J db'" and stored: "stored_session J db' i s \<longleftrightarrow>
        s = \<lparr>se_account_id = i, se_token_hash = token_hash C (st_token t), se_expires_at = st_expires_at t\<rparr>" for s
      using st new by (auto simp: registry_inv_def)
    obtain x where x: "account_for_session C J flt db' (st_token t) now = Ok x" using account_for_session_iff(2) [OF inv'] new by blast
    have own: "stored_session J db' j s \<Longrightarrow> t_get (t_session_index db') (se_token_hash s) = Some (str_bytes j)" for j s
      using inv' unfolding sessions_inv_def by blast
    have "x = Some j \<longleftrightarrow> j = i \<and> now < st_expires_at t" for j
    proof -
      have "x = Some j \<longleftrightarrow> (\<exists>s. stored_session J db' j s \<and> se_token_hash s = token_hash C (st_token t) \<and> now < se_expires_at s)"
        using account_for_session_iff(1) [OF inv', of flt C "st_token t" now j] x new by simp
      moreover have "j = i" if "stored_session J db' j s" "se_token_hash s = token_hash C (st_token t)" for s
        using own [OF that(1)] own [of i] stored that(2) by auto
      ultimately show ?thesis using stored by auto
    qed
    then show "account_for_session C J flt db' (st_token t) now = Ok (if now < st_expires_at t then Some i else None)"
      using x by (cases x) auto }
qed

theorem session_is_latest_witness:
  "\<exists>t db'. create_session sample_crypto sample_registry (\<lambda>_. None) (sample_rng 7) sample_db sample_account 1000 900 = (Ok t, db')
     \<and> account_for_session sample_crypto sample_registry (\<lambda>_. None) db' (st_token t) 1500 = Ok (Some sample_account)
     \<and> account_for_session sample_crypto sample_registry (\<lambda>_. None) db' (st_token t) 1900 = Ok None"
proof -
  obtain t db' where t: "create_session sample_crypto sample_registry (\<lambda>_. None) (sample_rng 7) sample_db sample_account 1000 900 = (Ok t, db')"
    "st_expires_at t = 1900" by (rule sample_session)
  have "account_for_session sample_crypto sample_registry (\<lambda>_. None) db' (st_token t) now = Ok (if now < 1900 then Some sample_account else None)" for now
    using session_is_latest [OF sample_registry_ok sample_sha_len(1) sample_db_run, of "\<lambda>_. None" "[]" now sample_account 1000 "sample_rng 7" "\<lambda>_. None" 900 t db'] t
    by (simp add: sample_account_valid fresh_token_def)
  with t show ?thesis by auto
qed

lemma purge_transparent:
  assumes "sessions_inv J db" "sessions_inv J db'" "now \<le> later"
    and "purged (j_session J) se_expires_at now complete (t_account_sessions db) (t_account_sessions db')"
  shows "account_for_session C J flt db' token later = account_for_session C J flt db token later"
proof (cases "flt 0")
  case None
  have old: "t_get (t_account_sessions db') k = Some v \<Longrightarrow> t_get (t_account_sessions db) k = Some v"
    and kept: "t_get (t_account_sessions db) k = Some v \<Longrightarrow> json_from_slice (j_session J) v = Some s \<Longrightarrow> now < se_expires_at s \<Longrightarrow> t_get (t_account_sessions db') k = Some v"
    for k v s using assms(4) unfolding purged_def by blast+
  have same: "stored_session J db' i s \<and> later < se_expires_at s \<longleftrightarrow> stored_session J db i s \<and> later < se_expires_at s" for i s
  proof
    assume "stored_session J db' i s \<and> later < se_expires_at s"
    then show "stored_session J db i s \<and> later < se_expires_at s" using old by (auto simp: stored_session_def get_json_Ok)
  next
    assume a: "stored_session J db i s \<and> later < se_expires_at s"
    then obtain v where v: "t_get (t_account_sessions db) i = Some v" "json_from_slice (j_session J) v = Some s" by (auto simp: stored_session_def get_json_Ok)
    have "t_get (t_account_sessions db') i = Some v" by (rule kept [OF v]) (use a assms(3) in linarith)
    with v a show "stored_session J db' i s \<and> later < se_expires_at s" by (auto simp: stored_session_def get_json_Ok)
  qed
  obtain x y where xy: "account_for_session C J flt db' token later = Ok x" "account_for_session C J flt db token later = Ok y"
    using account_for_session_iff(2) [where flt = flt, OF assms(1) None] account_for_session_iff(2) [where flt = flt, OF assms(2) None] by blast
  have "(\<exists>s. stored_session J db' i s \<and> se_token_hash s = token_hash C token \<and> later < se_expires_at s)
      \<longleftrightarrow> (\<exists>s. stored_session J db i s \<and> se_token_hash s = token_hash C token \<and> later < se_expires_at s)" for i
    using same [of i] by metis
  then have "account_for_session C J flt db' token later = Ok (Some i) \<longleftrightarrow> account_for_session C J flt db token later = Ok (Some i)" for i
    by (simp only: account_for_session_iff(1) [where flt = flt, OF assms(2) None] account_for_session_iff(1) [where flt = flt, OF assms(1) None])
  then have "x = Some i \<longleftrightarrow> y = Some i" for i unfolding xy by simp
  then have "x = y" by (metis option.exhaust)
  then show ?thesis using xy by simp
qed (simp add: account_for_session_def session_get_def read_tx_def)

text \<open>
  Cleanup removes exactly what has expired.  In every reachable state a cleanup pass at any
  time succeeds, removes no more than its limit and nothing that has not expired; if it removed
  less than its limit, no expired login token, session or rate bucket is left.  It never changes
  which account a bearer token resolves to, then or later.  (The pass scans the indexes in key order
  and stops at the first entry that is not due, so this rests on the zero-padded keys sorting by time.)
\<close>

theorem purge_exact:
  assumes "json_codecs_ok J" "sha256_len C" "registry_run C J db log"
  shows "\<exists>n db'. purge_expired J None db now limit = (Ok n, db') \<and> n \<le> limit
    \<and> purged (j_login_token J) lt_expires_at now (n < limit) (t_login_tokens db) (t_login_tokens db')
    \<and> purged (j_session J) se_expires_at now (n < limit) (t_account_sessions db) (t_account_sessions db')
    \<and> purged (j_bucket J) rl_expires_at now (n < limit) (t_rates db) (t_rates db')
    \<and> (\<forall>flt token later. now \<le> later \<longrightarrow> account_for_session C J flt db' token later = account_for_session C J flt db token later)"
proof -
  have inv: "registry_inv J db" using registry_run_inv [OF assms(3,1,2)] by simp
  obtain n db' where p: "purge_expired J None db now limit = (Ok n, db')" "n \<le> limit" "registry_inv J db'"
    "purged (j_login_token J) lt_expires_at now (n < limit) (t_login_tokens db) (t_login_tokens db')"
    "purged (j_session J) se_expires_at now (n < limit) (t_account_sessions db) (t_account_sessions db')"
    "purged (j_bucket J) rl_expires_at now (n < limit) (t_rates db) (t_rates db')"
    by (rule purge_expired_spec [OF inv])
  have "account_for_session C J flt db' token later = account_for_session C J flt db token later" if "now \<le> later" for flt token later
    by (rule purge_transparent [OF _ _ that p(5)]) (use inv p(3) in \<open>simp_all add: registry_inv_def\<close>)
  with p show ?thesis by blast
qed

theorem purge_exact_witness:
  "\<exists>t db n db'. create_session sample_crypto sample_registry (\<lambda>_. None) (sample_rng 7) sample_db sample_account 1000 900 = (Ok t, db)
     \<and> purge_expired sample_registry None db 2000 10 = (Ok n, db') \<and> n \<le> 10
     \<and> purged (j_session sample_registry) se_expires_at 2000 (n < 10) (t_account_sessions db) (t_account_sessions db')"
proof -
  obtain t db where t: "create_session sample_crypto sample_registry (\<lambda>_. None) (sample_rng 7) sample_db sample_account 1000 900 = (Ok t, db)"
    by (rule sample_session)
  have "registry_step sample_crypto sample_registry sample_db (ok_opt (Ok t :: registry_error + session_token)) db"
    by (rule step_session [where now = 1000 and i = sample_account and rng = "sample_rng 7" and flts = "\<lambda>_. None" and ttl = 900])
      (use t sample_account_valid in \<open>simp_all add: fresh_token_def\<close>)
  from run_step [OF sample_db_run this]
  have "registry_run sample_crypto sample_registry db [t]" by simp
  from purge_exact [OF sample_registry_ok sample_sha_len(1) this, of 2000 10] t show ?thesis by blast
qed

text \<open>
  C21: an email address always logs in to the same account.  In every reachable state, a login is
  confirmed only by an unexpired outstanding token; the token cannot be used a second time; and
  whatever happens afterwards, every later confirmation of a token for the same login identity
  yields the same account.
\<close>

theorem login_stable:
  assumes "json_codecs_ok J" "sha256_len C" "registry_run C J db log" "getrandom_ok rng"
    and "confirm_login C J flts rng db token now = (Ok al, db1)"
  shows "\<exists>login. get_json (j_login_token J) (t_login_tokens db) (token_hash C token) = Ok (Some login) \<and> now < lt_expires_at login
    \<and> (\<forall>flts' rng' now'. flts' 0 = None \<longrightarrow> confirm_login C J flts' rng' db1 token now' = (Err (registry_invalid ''invalid login token''), db1))
    \<and> (\<forall>db2 flts' rng' token' now' al' db3 login'. (\<lambda>a b. \<exists>t. registry_step C J a t b)\<^sup>*\<^sup>* db1 db2 \<and> getrandom_ok rng'
        \<and> confirm_login C J flts' rng' db2 token' now' = (Ok al', db3)
        \<and> get_json (j_login_token J) (t_login_tokens db2) (token_hash C token') = Ok (Some login')
        \<and> lt_kind login' = lt_kind login \<and> lt_value_hash login' = lt_value_hash login \<longrightarrow> al_account_id al' = al_account_id al)"
proof -
  have inv: "registry_inv J db" using registry_run_inv [OF assms(3,1,2)] by simp
  obtain login where login: "get_json (j_login_token J) (t_login_tokens db) (token_hash C token) = Ok (Some login)" "now < lt_expires_at login"
    "t_get (t_login_index db1) (login_key (lt_kind login) (lt_value_hash login)) = Some (str_bytes (al_account_id al))"
    "t_get (t_login_tokens db1) (token_hash C token) = None"
    by (rule confirm_binds [OF inv assms(4,5)])
  have inv1: "registry_inv J db1" using confirm_inv [OF inv assms(4,5)] by blast
  have once: "confirm_login C J flts' rng' db1 token now' = (Err (registry_invalid ''invalid login token''), db1)" if "flts' 0 = None" for flts' rng' now'
    using that login(4) by (simp add: confirm_login_def take_login_token_def write_tx_None)
  have "al_account_id al' = al_account_id al"
    if steps: "(\<lambda>a b. \<exists>t. registry_step C J a t b)\<^sup>*\<^sup>* db1 db2" and rng: "getrandom_ok rng'"
      and conf: "confirm_login C J flts' rng' db2 token' now' = (Ok al', db3)"
      and same: "get_json (j_login_token J) (t_login_tokens db2) (token_hash C token') = Ok (Some login')"
        "lt_kind login' = lt_kind login" "lt_value_hash login' = lt_value_hash login"
    for db2 flts' rng' token' now' al' db3 login'
  proof -
    have kept: "registry_inv J db2" "t_get (t_login_index db2) (login_key (lt_kind login) (lt_value_hash login)) = Some (str_bytes (al_account_id al))"
      using login_binding_kept [OF steps inv1 assms(1,2) login(3)] by simp_all
    obtain l where "get_json (j_login_token J) (t_login_tokens db2) (token_hash C token') = Ok (Some l)"
      "t_get (t_login_index db3) (login_key (lt_kind l) (lt_value_hash l)) = Some (str_bytes (al_account_id al'))"
      by (rule confirm_binds [OF kept(1) rng conf])
    with same confirm_inv [OF kept(1) rng conf] kept(2) show ?thesis by simp
  qed
  with login once show ?thesis by blast
qed

theorem login_stable_witness:
  "\<exists>token db1 al db2. confirm_login sample_crypto sample_registry (\<lambda>_. None) (sample_rng 8) db1 token 1200 = (Ok al, db2)
     \<and> confirm_login sample_crypto sample_registry (\<lambda>_. None) (sample_rng 9) db2 token 1201 = (Err (registry_invalid ''invalid login token''), db2)"
proof -
  obtain token db1 al db2 where r: "request_email_login sample_crypto sample_registry (\<lambda>_. None) (sample_rng 7) sample_db ''a@b'' 1000 900 = (Ok \<lparr>lc_token = token, lc_expires_at = 1900\<rparr>, db1)"
    "confirm_login sample_crypto sample_registry (\<lambda>_. None) (sample_rng 8) db1 token 1200 = (Ok al, db2)"
    by (rule sample_login)
  have "registry_step sample_crypto sample_registry sample_db None db1"
    by (rule step_request [OF _ _ r(1)]) (simp_all add: fresh_token_def)
  from run_step [OF sample_db_run this] have run: "registry_run sample_crypto sample_registry db1 []" by simp
  have "getrandom_ok (sample_rng 8)" by (simp add: getrandom_ok_def sample_rng_def)
  from login_stable [OF sample_registry_ok sample_sha_len(1) run this r(2)]
  have "\<forall>flts' rng' now'. flts' 0 = None \<longrightarrow>
      confirm_login sample_crypto sample_registry flts' rng' db2 token now' = (Err (registry_invalid ''invalid login token''), db2)" by blast
  then have "confirm_login sample_crypto sample_registry (\<lambda>_. None) (sample_rng 9) db2 token 1201 = (Err (registry_invalid ''invalid login token''), db2)" by simp
  with r(2) show ?thesis by blast
qed

end
