(* ===== verification/RegistryBlobs.thy ===== *)
theory RegistryBlobs
  imports RegistrySafety
begin

text \<open>
  The registry's content-addressed blob files (\<open>FileBlobStore\<close> of \<open>mycellium-registry/src/lib.rs\<close>)
  and the sealing of recovery material (\<open>recovery.rs\<close>).

  A path is the list of its components and the file system the list of its files.  The calls of
  the operating system can fail one by one: \<open>pf_error n\<close> is the failure of the \<open>n\<close>-th call of an
  operation, and \<open>pf_partial\<close> how many bytes a failing write leaves behind.  Permissions and
  directory entries are not represented; the calls that set them can still fail.  The extended-nonce
  cipher of the recovery blobs is a parameter.
\<close>

section \<open>Files\<close>

type_synonym path = "string list"
type_synonym files = "(path \<times> bytes) list"

record put_faults =
  pf_error :: "nat \<Rightarrow> string option"
  pf_partial :: nat

definition no_put_faults :: put_faults where
  "no_put_faults = \<lparr>pf_error = (\<lambda>_. None), pf_partial = 0\<rparr>"

definition fs_call :: "put_faults \<Rightarrow> nat \<Rightarrow> string \<Rightarrow> registry_error + unit" where
  "fs_call flt n message = (case pf_error flt n of Some e \<Rightarrow> Err (registry_new (message @ '': '' @ e)) | None \<Rightarrow> Ok ())"

definition sync_directory :: "put_faults \<Rightarrow> nat \<Rightarrow> registry_error + unit" where
  "sync_directory flt n = tryR (fs_call flt n ''open blob dir for sync failed'') (\<lambda>_. fs_call flt (n + 1) ''sync blob dir failed'')"

definition file_write :: "path \<Rightarrow> bytes \<Rightarrow> files \<Rightarrow> files" where
  "file_write p bs fs = (p, bs) # filter (\<lambda>e. fst e \<noteq> p) fs"

definition file_remove :: "path \<Rightarrow> files \<Rightarrow> files" where
  "file_remove p fs = filter (\<lambda>e. fst e \<noteq> p) fs"

definition blob_id_char :: "char \<Rightarrow> bool" where
  "blob_id_char b \<longleftrightarrow> is_ascii_lowercase b \<or> is_ascii_digit b \<or> b = CHR ''-'' \<or> b = CHR ''_''"

definition blob_path :: "path \<Rightarrow> account_id \<Rightarrow> string \<Rightarrow> registry_error + path" where
  "blob_path root i blob_id =
     (if \<not> list_all blob_id_char blob_id then Err (registry_new ''invalid blob id'')
      else Ok (root @ [''users'', take 3 i, take 3 (drop 3 i), take 3 (drop 6 i), i, blob_id @ ''.data'']))"

text \<open>\<open>path.with_extension\<close> on a path whose last component ends in \<open>.data\<close>.\<close>

definition tmp_path :: "path \<Rightarrow> string \<Rightarrow> path" where
  "tmp_path p ext = butlast p @ [take (length (last p) - 5) (last p) @ ''.'' @ ext]"

definition new_blob_ref :: "crypto \<Rightarrow> account_blob_kind \<Rightarrow> bytes \<Rightarrow> blob_ref" where
  "new_blob_ref C kind bs =
     \<lparr>br_id = blob_kind_str kind @ ''-'' @ sha256_hex C bs, br_size = of_nat (length bs), br_sha256 = sha256_hex C bs\<rparr>"

definition blob_matches :: "crypto \<Rightarrow> blob_ref \<Rightarrow> bytes \<Rightarrow> bool" where
  "blob_matches C blob bs \<longleftrightarrow> of_nat (length bs) = br_size blob \<and> sha256_hex C bs = br_sha256 blob"

definition write_blob :: "put_faults \<Rightarrow> getrandom \<Rightarrow> files \<Rightarrow> path \<Rightarrow> bytes \<Rightarrow> (registry_error + unit) \<times> files" where
  "write_blob flt rng fs p bs =
     tryE (random_hex_8 rng) fs (\<lambda>r.
     let tmp = tmp_path p (''tmp-'' @ r) in
     if map_of fs tmp \<noteq> None then (Err (registry_new ''create blob failed: file exists''), fs)
     else tryE (fs_call flt 4 ''create blob failed'') fs (\<lambda>_.
     tryE (fs_call flt 5 ''secure blob failed'') (file_write tmp [] fs) (\<lambda>_.
     tryE (fs_call flt 6 ''write blob failed'') (file_write tmp (take (pf_partial flt) bs) fs) (\<lambda>_.
     tryE (fs_call flt 7 ''sync blob failed'') (file_write tmp bs fs) (\<lambda>_.
     tryE (fs_call flt 8 ''commit blob failed'') (file_write tmp bs fs) (\<lambda>_.
     tryE (sync_directory flt 9) (file_write p bs fs) (\<lambda>_.
     (Ok (), file_write p bs fs))))))))"

definition blob_put ::
    "crypto \<Rightarrow> path \<Rightarrow> put_faults \<Rightarrow> getrandom \<Rightarrow> files \<Rightarrow> account_id \<Rightarrow> account_blob_kind \<Rightarrow> bytes \<Rightarrow> (registry_error + blob_ref) \<times> files" where
  "blob_put C root flt rng fs i kind bs =
     (let blob = new_blob_ref C kind bs in
      tryE (blob_path root i (br_id blob)) fs (\<lambda>p.
      tryE (fs_call flt 0 ''create blob dir failed'') fs (\<lambda>_.
      tryE (fs_call flt 1 ''secure blob dir failed'') fs (\<lambda>_.
      tryE (fs_call flt 2 ''read blob failed'') fs (\<lambda>_.
      case map_of fs p of
        Some existing \<Rightarrow>
          if blob_matches C blob existing then tryE (fs_call flt 3 ''secure blob failed'') fs (\<lambda>_. (Ok blob, fs))
          else tryS (write_blob flt rng fs p bs) (\<lambda>_ fs. (Ok blob, fs))
      | None \<Rightarrow> tryS (write_blob flt rng fs p bs) (\<lambda>_ fs. (Ok blob, fs)))))))"

definition blob_get :: "crypto \<Rightarrow> path \<Rightarrow> put_faults \<Rightarrow> files \<Rightarrow> account_id \<Rightarrow> blob_ref \<Rightarrow> registry_error + bytes option" where
  "blob_get C root flt fs i blob =
     tryR (blob_path root i (br_id blob)) (\<lambda>p.
     tryR (fs_call flt 0 ''read blob failed'') (\<lambda>_.
     case map_of fs p of
       None \<Rightarrow> Ok None
     | Some bs \<Rightarrow> if blob_matches C blob bs then Ok (Some bs) else Err (registry_new ''blob integrity check failed'')))"

definition blob_remove :: "path \<Rightarrow> put_faults \<Rightarrow> files \<Rightarrow> account_id \<Rightarrow> blob_ref \<Rightarrow> (registry_error + unit) \<times> files" where
  "blob_remove root flt fs i blob =
     tryE (blob_path root i (br_id blob)) fs (\<lambda>p.
     tryE (fs_call flt 0 ''remove blob failed'') fs (\<lambda>_.
     if map_of fs p = None then (Ok (), fs)
     else tryE (sync_directory flt 1) (file_remove p fs) (\<lambda>_. (Ok (), file_remove p fs))))"

fun prune_entries :: "put_faults \<Rightarrow> nat \<Rightarrow> path \<Rightarrow> string \<Rightarrow> path list \<Rightarrow> files \<Rightarrow> (registry_error + unit) \<times> files" where
  "prune_entries flt n current_path prefix [] fs = (sync_directory flt n, fs)"
| "prune_entries flt n current_path prefix (p # ps) fs =
     tryE (fs_call flt n ''read blob entry failed'') fs (\<lambda>_.
     tryE (fs_call flt (n + 1) ''read blob type failed'') fs (\<lambda>_.
     if p = current_path \<or> \<not> starts_with (last p) prefix then prune_entries flt (n + 3) current_path prefix ps fs
     else tryE (fs_call flt (n + 2) ''remove stale blob failed'') fs (\<lambda>_.
       prune_entries flt (n + 3) current_path prefix ps (file_remove p fs))))"

definition prune_kind_except ::
    "path \<Rightarrow> put_faults \<Rightarrow> files \<Rightarrow> account_id \<Rightarrow> account_blob_kind \<Rightarrow> blob_ref \<Rightarrow> (registry_error + unit) \<times> files" where
  "prune_kind_except root flt fs i kind cur =
     tryE (blob_path root i (br_id cur)) fs (\<lambda>current_path.
     tryE (fs_call flt 0 ''read blob dir failed'') fs (\<lambda>_.
     prune_entries flt 1 current_path (blob_kind_str kind @ ''-'')
       (filter (\<lambda>p. p \<noteq> [] \<and> butlast p = butlast current_path) (map fst fs)) fs))"

section \<open>Recovery material\<close>

record xaead =
  x_encrypt :: "bytes \<Rightarrow> bytes \<Rightarrow> bytes \<Rightarrow> bytes \<Rightarrow> bytes option"
  x_decrypt :: "bytes \<Rightarrow> bytes \<Rightarrow> bytes \<Rightarrow> bytes \<Rightarrow> bytes option"

definition xaead_ok :: "xaead \<Rightarrow> bool" where
  "xaead_ok X \<longleftrightarrow> (\<forall>k n m a c. x_encrypt X k n m a = Some c \<longrightarrow> x_decrypt X k n c a = Some m \<and> c \<noteq> [])"

definition RECOVERY_MAGIC :: bytes where
  "RECOVERY_MAGIC = str_bytes ''MCRK'' @ [1]"

definition RECOVERY_NONCE_LEN :: nat where
  "RECOVERY_NONCE_LEN = 24"

definition recovery_aad :: "account_id \<Rightarrow> string" where
  "recovery_aad i = ''mycellium-registry-recovery-v1:'' @ i"

definition hex_nibble :: "char \<Rightarrow> registry_error + nat" where
  "hex_nibble ch = (let n = of_char ch :: nat in
     if 48 \<le> n \<and> n \<le> 57 then Ok (n - 48)
     else if 97 \<le> n \<and> n \<le> 102 then Ok (n - 97 + 10)
     else if 65 \<le> n \<and> n \<le> 70 then Ok (n - 65 + 10)
     else Err (registry_new ''MYCELLIUM_REGISTRY_RECOVERY_KEY must be hexadecimal''))"

fun parse_hex_pairs :: "string \<Rightarrow> registry_error + bytes" where
  "parse_hex_pairs (a # b # rest) =
     tryR (hex_nibble a) (\<lambda>h. tryR (hex_nibble b) (\<lambda>l. tryR (parse_hex_pairs rest) (\<lambda>r. Ok (of_nat (h * 16 + l) # r))))"
| "parse_hex_pairs _ = Ok []"

definition recovery_key_from_hex :: "string \<Rightarrow> registry_error + bytes" where
  "recovery_key_from_hex s =
     (if length s \<noteq> 64 then Err (registry_new ''MYCELLIUM_REGISTRY_RECOVERY_KEY must be 64 hexadecimal characters'')
      else parse_hex_pairs s)"

definition recovery_seal :: "xaead \<Rightarrow> bytes \<Rightarrow> getrandom \<Rightarrow> account_id \<Rightarrow> bytes \<Rightarrow> registry_error + bytes" where
  "recovery_seal X key rng i plaintext =
     tryR (ok_or (registry_new ''recovery encryption randomness failed'') (rng RECOVERY_NONCE_LEN)) (\<lambda>nonce.
     tryR (ok_or (registry_new ''recovery encryption failed'') (x_encrypt X key nonce plaintext (str_bytes (recovery_aad i)))) (\<lambda>ciphertext.
     Ok (RECOVERY_MAGIC @ nonce @ ciphertext)))"

definition recovery_open :: "xaead \<Rightarrow> bytes \<Rightarrow> account_id \<Rightarrow> bytes \<Rightarrow> registry_error + bytes" where
  "recovery_open X key i sealed =
     tryR (ok_or (registry_new ''unsupported recovery blob'') (str_strip_prefix RECOVERY_MAGIC sealed)) (\<lambda>rest.
     if length rest \<le> RECOVERY_NONCE_LEN then Err (registry_new ''corrupt recovery blob'')
     else ok_or (registry_new ''recovery blob authentication failed'')
       (x_decrypt X key (take RECOVERY_NONCE_LEN rest) (drop RECOVERY_NONCE_LEN rest) (str_bytes (recovery_aad i))))"

section \<open>Facts\<close>

lemma recovery_roundtrip:
  assumes "xaead_ok X" "getrandom_ok rng" "recovery_seal X key rng i secret = Ok sealed"
  shows "recovery_open X key i sealed = Ok secret"
proof -
  obtain nonce c where n: "rng RECOVERY_NONCE_LEN = Some nonce" "x_encrypt X key nonce secret (str_bytes (recovery_aad i)) = Some c"
    "sealed = RECOVERY_MAGIC @ nonce @ c" using assms(3) by (auto simp: recovery_seal_def result_elims)
  have "length nonce = RECOVERY_NONCE_LEN" "c \<noteq> []" "x_decrypt X key nonce c (str_bytes (recovery_aad i)) = Some secret"
    using n assms(1,2) by (auto simp: getrandom_ok_def xaead_ok_def)
  then show ?thesis by (simp add: recovery_open_def n(3))
qed

lemma parse_hex_pairs_hex: "parse_hex_pairs (registry_hex bs) = Ok bs"
proof (induction bs)
  case (Cons b bs)
  have nib: "hex_nibble (hex_digit n) = Ok n" if "n < 16" for n
    using less_16_cases [OF that] by (auto simp: hex_nibble_def hex_digit_def Let_def)
  have "hex_high b * 16 + hex_low b = unat b" by (simp add: hex_high_div hex_low_mod)
  then have "(of_nat (hex_high b * 16 + hex_low b) :: byte) = b" by (simp only: of_nat_unat ucast_id)
  with Cons nib hex_high_less hex_low_less show ?case by (simp del: of_nat_add of_nat_mult)
qed simp

lemma file_get [simp]:
  "map_of (file_write p bs fs) q = (if q = p then Some bs else map_of fs q)"
  "map_of (file_remove p fs) q = (if q = p then None else map_of fs q)"
proof -
  have "map_of (filter (\<lambda>e. fst e \<noteq> p) fs) q = (if q = p then None else map_of fs q)" by (induction fs) auto
  then show "map_of (file_write p bs fs) q = (if q = p then Some bs else map_of fs q)"
    "map_of (file_remove p fs) q = (if q = p then None else map_of fs q)" by (auto simp: file_write_def file_remove_def)
qed

lemma fs_call_no_put_faults [simp]: "fs_call no_put_faults n m = Ok ()" "sync_directory no_put_faults n = Ok ()"
  by (simp_all add: sync_directory_def fs_call_def no_put_faults_def)

lemma blob_path_inject:
  "blob_path root i b = Ok p \<Longrightarrow> blob_path root j c = Ok p \<Longrightarrow> i = j \<and> b = c"
  by (auto simp: blob_path_def split: if_splits)

lemma kind_str_chars: "list_all blob_id_char (blob_kind_str kind)"
  by (cases kind) (simp_all add: blob_kind_str_def blob_id_char_def is_ascii_lowercase_def is_ascii_digit_def less_eq_char_def)

lemma new_blob_path: "\<exists>p. blob_path root i (br_id (new_blob_ref C kind bs)) = Ok p"
proof -
  have "blob_id_char c" if "is_lower_hex c" for c
    using that by (auto simp: is_lower_hex_def blob_id_char_def is_ascii_lowercase_def is_ascii_digit_def less_eq_char_def)
  then have "list_all blob_id_char (sha256_hex C bs)" using hex_lower [of "sha256 C bs"] by (auto simp: sha256_hex_def registry_hex_eq list_all_iff)
  with kind_str_chars [of kind] show ?thesis by (simp add: blob_path_def new_blob_ref_def) (simp add: blob_id_char_def)
qed

lemma blob_matches_new [simp]: "blob_matches C (new_blob_ref C kind bs) bs"
  by (simp add: blob_matches_def new_blob_ref_def)

text \<open>What a successful put leaves: the bytes are readable under the reference, and no other
  account's or slot's files changed.\<close>

lemma blob_put_get:
  assumes "blob_put C root flt rng fs i kind bs = (Ok blob, fs')"
  shows "blob = new_blob_ref C kind bs" "\<exists>bs'. blob_get C root no_put_faults fs' i blob = Ok (Some bs')"
proof -
  obtain p where p: "blob_path root i (br_id (new_blob_ref C kind bs)) = Ok p" using new_blob_path by blast
  show blob: "blob = new_blob_ref C kind bs"
    using assms p by (auto simp: blob_put_def Let_def result_elims split: option.splits if_splits)
  have "\<exists>bs'. map_of fs' p = Some bs' \<and> blob_matches C blob bs'"
    using assms p unfolding blob blob_put_def Let_def write_blob_def
    by (auto simp: result_elims split: option.splits if_splits)
  then show "\<exists>bs'. blob_get C root no_put_faults fs' i blob = Ok (Some bs')" using p blob by (auto simp: blob_get_def)
qed

end
