(* ===== verification/RegistryHttp.thy ===== *)
theory RegistryHttp
  imports RegistryBlobs Records
begin

text \<open>
  The request handlers of the registry (\<open>mycellium-registry/src/http.rs\<close>).

  A handler is a sequence of calls of the metadata store, the blob files, the clock and the mail
  sender.  \<open>http_env\<close> holds what they answer: the faults, the random bytes and the time at each
  call, numbered by \<open>hw_tick\<close>.  Handlers run concurrently, and each call is atomic:
  \<open>he_others n\<close> is what other requests do to the store and the files before the \<open>n\<close>-th call.
  The source retries compare-and-swap without a bound, so those loops are partial functions whose
  value \<open>None\<close> means that the handler never answers.  Routing, body limits and the rendering of
  responses belong to the web framework; a response is its status and value.
\<close>

record api_error =
  ae_status :: nat
  ae_message :: string

definition api_bad_request :: "string \<Rightarrow> api_error" where "api_bad_request m = \<lparr>ae_status = 400, ae_message = m\<rparr>"
definition api_unauthorized :: api_error where "api_unauthorized = \<lparr>ae_status = 401, ae_message = ''unauthorized''\<rparr>"
definition api_forbidden :: api_error where "api_forbidden = \<lparr>ae_status = 403, ae_message = ''forbidden''\<rparr>"
definition api_not_found :: "string \<Rightarrow> api_error" where "api_not_found m = \<lparr>ae_status = 404, ae_message = m\<rparr>"
definition api_conflict :: "string \<Rightarrow> api_error" where "api_conflict m = \<lparr>ae_status = 409, ae_message = m\<rparr>"
definition api_payload_too_large :: api_error where "api_payload_too_large = \<lparr>ae_status = 413, ae_message = ''payload too large''\<rparr>"
definition api_rate_limited :: api_error where "api_rate_limited = \<lparr>ae_status = 429, ae_message = ''rate limited''\<rparr>"
definition api_internal :: api_error where "api_internal = \<lparr>ae_status = 500, ae_message = ''internal server error''\<rparr>"

definition api_from_registry :: "registry_error \<Rightarrow> api_error" where
  "api_from_registry e = (case re_kind e of
      InvalidInput \<Rightarrow> api_bad_request (re_message e)
    | Conflict \<Rightarrow> api_conflict (re_message e)
    | Internal \<Rightarrow> api_internal)"

definition LOGIN_TTL_SECS :: i64 where "LOGIN_TTL_SECS = 15 * 60"
definition SESSION_TTL_SECS :: i64 where "SESSION_TTL_SECS = 15 * 60"
definition EMAIL_LOGIN_LIMIT :: u64 where "EMAIL_LOGIN_LIMIT = 5"
definition EMAIL_LOGIN_SOURCE_LIMIT :: u64 where "EMAIL_LOGIN_SOURCE_LIMIT = 100"
definition LOGIN_CONFIRM_SOURCE_LIMIT :: u64 where "LOGIN_CONFIRM_SOURCE_LIMIT = 300"
definition MAX_BACKUP_BYTES :: nat where "MAX_BACKUP_BYTES = 16 * 1024 * 1024"
definition MAX_PUBLIC_RECORD_BYTES :: nat where "MAX_PUBLIC_RECORD_BYTES = 1024 * 1024"
definition RECOVERY_SECRET_BYTES :: nat where "RECOVERY_SECRET_BYTES = 32"

record http_env =
  he_crypto :: crypto
  he_codecs :: registry_codecs
  he_aead :: xaead
  he_key :: bytes
  he_root :: path
  he_record :: "signed_record codec"
  he_claims :: claim_codecs
  he_db_fault :: "nat \<Rightarrow> nat \<Rightarrow> string option"
  he_fs_fault :: "nat \<Rightarrow> put_faults"
  he_mail :: "nat \<Rightarrow> registry_error + unit"
  he_rng :: "nat \<Rightarrow> getrandom"
  he_clock :: "nat \<Rightarrow> i64"
  he_others :: "nat \<Rightarrow> redb \<times> files \<Rightarrow> redb \<times> files"

record http_world =
  hw_db :: redb
  hw_files :: files
  hw_mails :: "(string \<times> string \<times> i64) list"
  hw_tick :: nat

section \<open>Calls\<close>

definition others_run :: "http_env \<Rightarrow> http_world \<Rightarrow> http_world" where
  "others_run E w = (let (db, fs) = he_others E (hw_tick w) (hw_db w, hw_files w) in w\<lparr>hw_db := db, hw_files := fs\<rparr>)"

definition next_tick :: "http_world \<Rightarrow> http_world" where
  "next_tick w = w\<lparr>hw_tick := Suc (hw_tick w)\<rparr>"

definition call_db ::
    "http_env \<Rightarrow> ((nat \<Rightarrow> string option) \<Rightarrow> getrandom \<Rightarrow> redb \<Rightarrow> (registry_error + 'a) \<times> redb) \<Rightarrow> http_world \<Rightarrow> (api_error + 'a) \<times> http_world" where
  "call_db E op w = (let w = others_run E w; (r, db) = op (he_db_fault E (hw_tick w)) (he_rng E (hw_tick w)) (hw_db w)
     in (map_err api_from_registry r, next_tick (w\<lparr>hw_db := db\<rparr>)))"

definition read_db ::
    "http_env \<Rightarrow> ((nat \<Rightarrow> string option) \<Rightarrow> redb \<Rightarrow> registry_error + 'a) \<Rightarrow> http_world \<Rightarrow> (api_error + 'a) \<times> http_world" where
  "read_db E op w = call_db E (\<lambda>flt _ db. (op flt db, db)) w"

definition call_fs ::
    "http_env \<Rightarrow> (put_faults \<Rightarrow> getrandom \<Rightarrow> files \<Rightarrow> (registry_error + 'a) \<times> files) \<Rightarrow> http_world \<Rightarrow> (api_error + 'a) \<times> http_world" where
  "call_fs E op w = (let w = others_run E w; (r, fs) = op (he_fs_fault E (hw_tick w)) (he_rng E (hw_tick w)) (hw_files w)
     in (map_err api_from_registry r, next_tick (w\<lparr>hw_files := fs\<rparr>)))"

definition read_fs ::
    "http_env \<Rightarrow> (put_faults \<Rightarrow> files \<Rightarrow> registry_error + 'a) \<Rightarrow> http_world \<Rightarrow> (api_error + 'a) \<times> http_world" where
  "read_fs E op w = call_fs E (\<lambda>flt _ fs. (op flt fs, fs)) w"

definition http_now :: "http_env \<Rightarrow> http_world \<Rightarrow> i64" where
  "http_now E w = he_clock E (hw_tick w)"

section \<open>Checks\<close>

definition visible_ascii :: "byte \<Rightarrow> bool" where
  "visible_ascii b \<longleftrightarrow> (32 \<le> b \<and> b < 127) \<or> b = 9"

definition bearer_token :: "(string \<times> bytes) list \<Rightarrow> string option" where
  "bearer_token headers = Option.bind (map_of headers ''authorization'') (\<lambda>v.
     if list_all visible_ascii v then str_strip_prefix ''Bearer '' (bytes_str v) else None)"

definition authorize :: "http_env \<Rightarrow> (string \<times> bytes) list \<Rightarrow> account_id \<Rightarrow> http_world \<Rightarrow> (api_error + unit) \<times> http_world" where
  "authorize E headers i w = (case bearer_token headers of
      None \<Rightarrow> (Err api_unauthorized, w)
    | Some token \<Rightarrow>
        tryS (read_db E (\<lambda>flt db. account_for_session (he_crypto E) (he_codecs E) flt db token (http_now E w)) w) (\<lambda>found w.
        case found of
          None \<Rightarrow> (Err api_unauthorized, w)
        | Some session_account \<Rightarrow> if session_account \<noteq> i then (Err api_forbidden, w) else (Ok (), w)))"

definition parse_account_id :: "string \<Rightarrow> api_error + account_id" where
  "parse_account_id s = map_err api_from_registry (account_id_from_str s)"

definition require_size_at_most :: "nat \<Rightarrow> nat \<Rightarrow> api_error + unit" where
  "require_size_at_most n maximum = (if n > maximum then Err api_payload_too_large else Ok ())"

definition decode_signed_public_record :: "http_env \<Rightarrow> bytes \<Rightarrow> api_error + signed_record" where
  "decode_signed_public_record E bs =
     tryR (map_err (\<lambda>_. api_bad_request ''bad signed public record'') (wire_decode (he_record E) bs)) (\<lambda>r.
     tryR (map_err (\<lambda>_. api_bad_request ''public record failed verification'') (signed_record_verify (he_crypto E) (he_claims E) r)) (\<lambda>_. Ok r))"

definition check_rate_limit :: "http_env \<Rightarrow> string \<Rightarrow> i64 \<Rightarrow> i64 \<Rightarrow> u64 \<Rightarrow> http_world \<Rightarrow> (api_error + unit) \<times> http_world" where
  "check_rate_limit E k now window_secs limit w =
     tryS (call_db E (\<lambda>flt _ db. bump_rate_limit (he_codecs E) (flt 0) db k now window_secs) w) (\<lambda>bucket w.
     if rl_count bucket > limit then (Err api_rate_limited, w) else (Ok (), w))"

section \<open>Login\<close>

definition http_request_email_login :: "http_env \<Rightarrow> string \<Rightarrow> string \<Rightarrow> http_world \<Rightarrow> (api_error + i64) \<times> http_world" where
  "http_request_email_login E source email w =
     (let request_time = http_now E w in
      tryS (check_rate_limit E (''login:source:'' @ source) request_time LOGIN_TTL_SECS EMAIL_LOGIN_SOURCE_LIMIT w) (\<lambda>_ w.
      tryE (map_err api_from_registry (login_identity_hash_email (he_crypto E) email)) w (\<lambda>hash.
      tryS (check_rate_limit E (''login:email:'' @ hash) request_time LOGIN_TTL_SECS EMAIL_LOGIN_LIMIT w) (\<lambda>_ w.
      tryS (call_db E (\<lambda>flt rng db. request_email_login (he_crypto E) (he_codecs E) flt rng db email request_time LOGIN_TTL_SECS) w) (\<lambda>challenge w.
      tryE (map_err api_from_registry (he_mail E (hw_tick w))) (next_tick w) (\<lambda>_.
      (Ok (lc_expires_at challenge), next_tick (w\<lparr>hw_mails := hw_mails w @ [(email, lc_token challenge, lc_expires_at challenge)]\<rparr>))))))))"

record confirm_login_response =
  cl_account_id :: account_id
  cl_created :: bool
  cl_session_token :: string
  cl_session_expires_at :: i64

definition http_confirm_login :: "http_env \<Rightarrow> string \<Rightarrow> string \<Rightarrow> http_world \<Rightarrow> (api_error + confirm_login_response) \<times> http_world" where
  "http_confirm_login E source token w =
     (let request_time = http_now E w in
      tryS (check_rate_limit E (''confirm:source:'' @ source) request_time LOGIN_TTL_SECS LOGIN_CONFIRM_SOURCE_LIMIT w) (\<lambda>_ w.
      tryS (call_db E (\<lambda>flt rng db. confirm_login (he_crypto E) (he_codecs E) flt rng db token request_time) w) (\<lambda>login w.
      tryS (call_db E (\<lambda>flt rng db. create_session (he_crypto E) (he_codecs E) flt rng db (al_account_id login) request_time SESSION_TTL_SECS) w) (\<lambda>s w.
      (Ok \<lparr>cl_account_id = st_account_id s, cl_created = al_created login, cl_session_token = st_token s, cl_session_expires_at = st_expires_at s\<rparr>, w)))))"

section \<open>Blobs\<close>

partial_function (option) load_current_blob ::
    "http_env \<Rightarrow> account_id \<Rightarrow> account_blob_kind \<Rightarrow> http_world \<Rightarrow> ((api_error + (blob_ref \<times> bytes) option) \<times> http_world) option" where
  "load_current_blob E i kind w =
     (case read_db E (\<lambda>flt db. blob_ref_get (he_codecs E) (flt 0) db i kind) w of
        (Err e, w) \<Rightarrow> Some (Err e, w)
      | (Ok None, w) \<Rightarrow> Some (Ok None, w)
      | (Ok (Some blob), w) \<Rightarrow>
          (case read_fs E (\<lambda>flt fs. blob_get (he_crypto E) (he_root E) flt fs i blob) w of
             (Err e, w) \<Rightarrow> Some (Err e, w)
           | (Ok (Some bs), w) \<Rightarrow> Some (Ok (Some (blob, bs)), w)
           | (Ok None, w) \<Rightarrow>
               (case read_db E (\<lambda>flt db. blob_ref_get (he_codecs E) (flt 0) db i kind) w of
                  (Err e, w) \<Rightarrow> Some (Err e, w)
                | (Ok again, w) \<Rightarrow> if again = Some blob then Some (Err api_internal, w) else load_current_blob E i kind w)))"

definition remove_replaced_blob :: "http_env \<Rightarrow> account_id \<Rightarrow> blob_ref option \<Rightarrow> blob_ref \<Rightarrow> http_world \<Rightarrow> http_world" where
  "remove_replaced_blob E i previous_ref current_ref w = (case previous_ref of
      None \<Rightarrow> w
    | Some p \<Rightarrow> if p = current_ref then w else snd (call_fs E (\<lambda>flt _ fs. blob_remove (he_root E) flt fs i p) w))"

partial_function (option) swap_backup ::
    "http_env \<Rightarrow> account_id \<Rightarrow> blob_ref \<Rightarrow> blob_ref option \<Rightarrow> http_world \<Rightarrow> ((api_error + blob_ref) \<times> http_world) option" where
  "swap_backup E i blob expected w =
     (case call_db E (\<lambda>flt _ db. compare_and_swap_blob_ref (he_codecs E) (flt 0) db i Backup expected blob) w of
        (Err e, w) \<Rightarrow> Some (Err e, w)
      | (Ok (Applied p), w) \<Rightarrow> Some (Ok blob, remove_replaced_blob E i p blob w)
      | (Ok (Mismatch c), w) \<Rightarrow> swap_backup E i blob c w)"

definition put_backup :: "http_env \<Rightarrow> string \<Rightarrow> (string \<times> bytes) list \<Rightarrow> bytes \<Rightarrow> http_world \<Rightarrow> ((api_error + blob_ref) \<times> http_world) option" where
  "put_backup E account headers bs w = (case parse_account_id account of
      Err e \<Rightarrow> Some (Err e, w)
    | Ok i \<Rightarrow> (case tryS (authorize E headers i w) (\<lambda>_ w.
          tryE (require_size_at_most (length bs) MAX_BACKUP_BYTES) w (\<lambda>_.
          tryS (call_fs E (\<lambda>flt rng fs. blob_put (he_crypto E) (he_root E) flt rng fs i Backup bs) w) (\<lambda>blob w.
          tryS (read_db E (\<lambda>flt db. blob_ref_get (he_codecs E) (flt 0) db i Backup) w) (\<lambda>expected w.
          (Ok (blob, expected), w))))) of
        (Err e, w) \<Rightarrow> Some (Err e, w)
      | (Ok (blob, expected), w) \<Rightarrow> swap_backup E i blob expected w))"

definition get_backup :: "http_env \<Rightarrow> string \<Rightarrow> (string \<times> bytes) list \<Rightarrow> http_world \<Rightarrow> ((api_error + bytes) \<times> http_world) option" where
  "get_backup E account headers w = (case parse_account_id account of
      Err e \<Rightarrow> Some (Err e, w)
    | Ok i \<Rightarrow> (case authorize E headers i w of
        (Err e, w) \<Rightarrow> Some (Err e, w)
      | (Ok _, w) \<Rightarrow> Option.bind (load_current_blob E i Backup w) (\<lambda>(r, w). Some (case r of
            Err e \<Rightarrow> (Err e, w)
          | Ok None \<Rightarrow> (Err (api_not_found ''backup not found''), w)
          | Ok (Some (_, bs)) \<Rightarrow> (Ok bs, w)))))"

section \<open>Recovery\<close>

partial_function (option) swap_recovery ::
    "http_env \<Rightarrow> account_id \<Rightarrow> bytes \<Rightarrow> blob_ref \<Rightarrow> http_world \<Rightarrow> ((api_error + blob_ref) \<times> http_world) option" where
  "swap_recovery E i bs blob w = Option.bind (load_current_blob E i Recovery w) (\<lambda>(cur, w). case cur of
      Err e \<Rightarrow> Some (Err e, w)
    | Ok (Some (current_ref, current_sealed)) \<Rightarrow>
        Some (tryE (map_err api_from_registry (recovery_open (he_aead E) (he_key E) i current_sealed)) w (\<lambda>current_secret.
          if current_secret \<noteq> bs then
            tryS (call_fs E (\<lambda>flt _ fs. blob_remove (he_root E) flt fs i blob) w) (\<lambda>_ w.
            (Err (api_conflict ''account recovery identity cannot be replaced''), w))
          else if current_ref \<noteq> blob then
            tryS (call_fs E (\<lambda>flt _ fs. blob_remove (he_root E) flt fs i blob) w) (\<lambda>_ w. (Ok current_ref, w))
          else (Ok current_ref, w)))
    | Ok None \<Rightarrow>
        (case call_db E (\<lambda>flt _ db. compare_and_swap_blob_ref (he_codecs E) (flt 0) db i Recovery None blob) w of
           (Err e, w) \<Rightarrow> Some (Err e, w)
         | (Ok (Applied _), w) \<Rightarrow> Some (Ok blob, w)
         | (Ok (Mismatch _), w) \<Rightarrow> swap_recovery E i bs blob w))"

definition put_recovery :: "http_env \<Rightarrow> string \<Rightarrow> (string \<times> bytes) list \<Rightarrow> bytes \<Rightarrow> http_world \<Rightarrow> ((api_error + blob_ref) \<times> http_world) option" where
  "put_recovery E account headers bs w = (case parse_account_id account of
      Err e \<Rightarrow> Some (Err e, w)
    | Ok i \<Rightarrow> (case tryS (authorize E headers i w) (\<lambda>_ w.
          if length bs \<noteq> RECOVERY_SECRET_BYTES then (Err (api_bad_request ''recovery material must be exactly 32 bytes''), w)
          else tryE (map_err (\<lambda>_. api_bad_request ''recovery material is not a valid wallet key'')
              (from_wallet_secret (he_crypto E) bs (replicate 32 0))) w (\<lambda>_.
          tryE (map_err api_from_registry (recovery_seal (he_aead E) (he_key E) (he_rng E (hw_tick w)) i bs)) w (\<lambda>sealed.
          call_fs E (\<lambda>flt rng fs. blob_put (he_crypto E) (he_root E) flt rng fs i Recovery sealed) (next_tick w)))) of
        (Err e, w) \<Rightarrow> Some (Err e, w)
      | (Ok blob, w) \<Rightarrow> swap_recovery E i bs blob w))"

definition get_recovery :: "http_env \<Rightarrow> string \<Rightarrow> (string \<times> bytes) list \<Rightarrow> http_world \<Rightarrow> ((api_error + bytes) \<times> http_world) option" where
  "get_recovery E account headers w = (case parse_account_id account of
      Err e \<Rightarrow> Some (Err e, w)
    | Ok i \<Rightarrow> (case authorize E headers i w of
        (Err e, w) \<Rightarrow> Some (Err e, w)
      | (Ok _, w) \<Rightarrow> Option.bind (load_current_blob E i Recovery w) (\<lambda>(r, w). Some (case r of
            Err e \<Rightarrow> (Err e, w)
          | Ok None \<Rightarrow> (Err (api_not_found ''recovery material not found''), w)
          | Ok (Some (_, sealed)) \<Rightarrow>
              tryE (map_err api_from_registry (recovery_open (he_aead E) (he_key E) i sealed)) w (\<lambda>secret.
              if length secret \<noteq> RECOVERY_SECRET_BYTES then (Err (api_bad_request ''stored recovery material is invalid''), w)
              else (Ok secret, w))))))"

section \<open>Public records\<close>

definition recovery_wallet :: "http_env \<Rightarrow> account_id \<Rightarrow> bytes \<Rightarrow> api_error + wallet_public_key" where
  "recovery_wallet E i sealed =
     tryR (map_err api_from_registry (recovery_open (he_aead E) (he_key E) i sealed)) (\<lambda>recovery.
     if length recovery \<noteq> RECOVERY_SECRET_BYTES then Err (api_bad_request ''stored recovery material is invalid'')
     else tryR (map_err (\<lambda>_. api_bad_request ''stored recovery material is invalid'')
       (from_wallet_secret (he_crypto E) recovery (replicate 32 0))) (\<lambda>identity. Ok (wallet_public (he_crypto E) identity)))"

definition record_update :: "http_env \<Rightarrow> signed_record \<Rightarrow> bytes \<Rightarrow> blob_ref \<Rightarrow> bytes \<Rightarrow> api_error + (blob_ref option \<times> user_id option)" where
  "record_update E nxt next_bytes current_ref current_bytes =
     tryR (map_err (\<lambda>_. api_bad_request ''stored public record is invalid'') (wire_decode (he_record E) current_bytes)) (\<lambda>cur.
     let update = (Some current_ref, Some (rec_user_id (s_record cur))) in
     if \<not> is_ok (signed_record_verify (he_crypto E) (he_claims E) cur) then Ok update
     else if rec_user_id (s_record cur) \<noteq> rec_user_id (s_record nxt) then Err (api_conflict ''public record belongs to a different user'')
     else if freshness_less (record_freshness nxt) (record_freshness cur)
         \<or> (record_freshness nxt = record_freshness cur \<and> next_bytes \<noteq> current_bytes)
     then Err (api_conflict ''stale public record'')
     else Ok update)"

definition enforce_public_record_update ::
    "http_env \<Rightarrow> account_id \<Rightarrow> signed_record \<Rightarrow> bytes \<Rightarrow> http_world \<Rightarrow>
     ((api_error + (blob_ref option \<times> user_id option)) \<times> http_world) option" where
  "enforce_public_record_update E i nxt next_bytes w =
     Option.bind (load_current_blob E i Recovery w) (\<lambda>(r, w). case r of
       Err e \<Rightarrow> Some (Err e, w)
     | Ok None \<Rightarrow> Some (Err (api_conflict ''store account recovery before publishing a record''), w)
     | Ok (Some (_, recovery_sealed)) \<Rightarrow> (case recovery_wallet E i recovery_sealed of
           Err e \<Rightarrow> Some (Err e, w)
         | Ok wallet \<Rightarrow>
             if rec_wallet (s_record nxt) \<noteq> wallet
             then Some (Err (api_conflict ''public record does not belong to the account recovery identity''), w)
             else Option.bind (load_current_blob E i PublicRecord w) (\<lambda>(r, w). Some (case r of
                 Err e \<Rightarrow> (Err e, w)
               | Ok None \<Rightarrow> (Ok (None, None), w)
               | Ok (Some (current_ref, current_bytes)) \<Rightarrow> (record_update E nxt next_bytes current_ref current_bytes, w)))))"

partial_function (option) swap_record ::
    "http_env \<Rightarrow> account_id \<Rightarrow> signed_record \<Rightarrow> bytes \<Rightarrow> blob_ref \<Rightarrow> http_world \<Rightarrow> ((api_error + blob_ref) \<times> http_world) option" where
  "swap_record E i r bs blob w = Option.bind (enforce_public_record_update E i r bs w) (\<lambda>(update, w). case update of
      Err e \<Rightarrow> Some (Err e, snd (call_fs E (\<lambda>flt _ fs. blob_remove (he_root E) flt fs i blob) w))
    | Ok (expected, previous_uid) \<Rightarrow>
        (case call_db E (\<lambda>flt _ db. compare_and_swap_public_record_ref (he_codecs E) (flt 0) db i (rec_user_id (s_record r)) previous_uid expected blob) w of
           (Err e, w) \<Rightarrow> Some (Err e, w)
         | (Ok (Applied p), w) \<Rightarrow> Some (Ok blob, remove_replaced_blob E i p blob w)
         | (Ok (Mismatch _), w) \<Rightarrow> swap_record E i r bs blob w))"

definition put_public_record :: "http_env \<Rightarrow> string \<Rightarrow> (string \<times> bytes) list \<Rightarrow> bytes \<Rightarrow> http_world \<Rightarrow> ((api_error + blob_ref) \<times> http_world) option" where
  "put_public_record E account headers bs w = (case parse_account_id account of
      Err e \<Rightarrow> Some (Err e, w)
    | Ok i \<Rightarrow> (case tryS (authorize E headers i w) (\<lambda>_ w.
          tryE (require_size_at_most (length bs) MAX_PUBLIC_RECORD_BYTES) w (\<lambda>_.
          tryE (decode_signed_public_record E bs) w (\<lambda>r.
          tryS (call_fs E (\<lambda>flt rng fs. blob_put (he_crypto E) (he_root E) flt rng fs i PublicRecord bs) w) (\<lambda>blob w.
          (Ok (r, blob), w))))) of
        (Err e, w) \<Rightarrow> Some (Err e, w)
      | (Ok (r, blob), w) \<Rightarrow> swap_record E i r bs blob w))"

definition public_record_response :: "http_env \<Rightarrow> account_id \<Rightarrow> http_world \<Rightarrow> ((api_error + bytes) \<times> http_world) option" where
  "public_record_response E i w = Option.bind (load_current_blob E i PublicRecord w) (\<lambda>(r, w). Some (case r of
      Err e \<Rightarrow> (Err e, w)
    | Ok None \<Rightarrow> (Err (api_not_found ''record not found''), w)
    | Ok (Some (_, bs)) \<Rightarrow> tryE (map_err (\<lambda>_. api_not_found ''record not found'') (decode_signed_public_record E bs)) w (\<lambda>_. (Ok bs, w))))"

definition get_public_record :: "http_env \<Rightarrow> string \<Rightarrow> http_world \<Rightarrow> ((api_error + bytes) \<times> http_world) option" where
  "get_public_record E account w = (case parse_account_id account of
      Err e \<Rightarrow> Some (Err e, w)
    | Ok i \<Rightarrow> public_record_response E i w)"

definition get_public_record_by_user_id :: "http_env \<Rightarrow> string \<Rightarrow> http_world \<Rightarrow> ((api_error + bytes) \<times> http_world) option" where
  "get_public_record_by_user_id E uid w = (case map_err (\<lambda>_. api_bad_request ''invalid protocol user id'') (user_id_new uid) of
      Err e \<Rightarrow> Some (Err e, w)
    | Ok uid \<Rightarrow> (case read_db E (\<lambda>flt db. account_id_by_user_id (flt 0) db uid) w of
        (Err e, w) \<Rightarrow> Some (Err e, w)
      | (Ok None, w) \<Rightarrow> Some (Err (api_not_found ''record not found''), w)
      | (Ok (Some i), w) \<Rightarrow> public_record_response E i w))"
definition http_purge_expired :: "http_env \<Rightarrow> i64 \<Rightarrow> nat \<Rightarrow> http_world \<Rightarrow> (api_error + nat) \<times> http_world" where
  "http_purge_expired E now limit w = call_db E (\<lambda>flt _ db. purge_expired (he_codecs E) (flt 0) db now limit) w"

section \<open>Requests\<close>

text \<open>The routes, and the cleanup the server runs beside them, whose error it only logs.\<close>

datatype http_request =
    RequestEmailLogin string string
  | ConfirmLogin string string
  | PutBackup string "(string \<times> bytes) list" bytes
  | GetBackup string "(string \<times> bytes) list"
  | PutRecovery string "(string \<times> bytes) list" bytes
  | GetRecovery string "(string \<times> bytes) list"
  | PutPublicRecord string "(string \<times> bytes) list" bytes
  | GetPublicRecord string
  | GetPublicRecordByUserId string
  | PurgeExpired i64 nat

datatype http_response = Accepted i64 | LoggedIn confirm_login_response | Stored blob_ref | Content bytes | Purged nat

definition respond :: "('a \<Rightarrow> http_response) \<Rightarrow> (api_error + 'a) \<times> http_world \<Rightarrow> (api_error + http_response) \<times> http_world" where
  "respond f r = (map_sum id f (fst r), snd r)"

definition serve :: "http_env \<Rightarrow> http_request \<Rightarrow> http_world \<Rightarrow> ((api_error + http_response) \<times> http_world) option" where
  "serve E q w = (case q of
      RequestEmailLogin source email \<Rightarrow> Some (respond Accepted (http_request_email_login E source email w))
    | ConfirmLogin source token \<Rightarrow> Some (respond LoggedIn (http_confirm_login E source token w))
    | PutBackup account headers bs \<Rightarrow> map_option (respond Stored) (put_backup E account headers bs w)
    | GetBackup account headers \<Rightarrow> map_option (respond Content) (get_backup E account headers w)
    | PutRecovery account headers bs \<Rightarrow> map_option (respond Stored) (put_recovery E account headers bs w)
    | GetRecovery account headers \<Rightarrow> map_option (respond Content) (get_recovery E account headers w)
    | PutPublicRecord account headers bs \<Rightarrow> map_option (respond Stored) (put_public_record E account headers bs w)
    | GetPublicRecord account \<Rightarrow> map_option (respond Content) (get_public_record E account w)
    | GetPublicRecordByUserId uid \<Rightarrow> map_option (respond Content) (get_public_record_by_user_id E uid w)
    | PurgeExpired now limit \<Rightarrow> Some (respond Purged (http_purge_expired E now limit w)))"

end
