(* ===== verification/RegistryHttpSafety.thy ===== *)
theory RegistryHttpSafety
  imports RegistryHttp Peerbook
begin

text \<open>
  Properties of the registry's request handlers: which requests are refused, what a published
  record had to satisfy, and an interleaving of two backup uploads that loses the backup.
\<close>

section \<open>Calls\<close>

lemma map_err_Ok [simp]: "map_err g r = Ok a \<longleftrightarrow> r = Ok a"
  by (cases r) auto

lemma others_run_simps [simp]:
  "hw_mails (others_run E w) = hw_mails w" "hw_tick (others_run E w) = hw_tick w"
  "hw_db (others_run E w) = fst (he_others E (hw_tick w) (hw_db w, hw_files w))"
  "hw_files (others_run E w) = snd (he_others E (hw_tick w) (hw_db w, hw_files w))"
  by (simp_all add: others_run_def split: prod.split)

lemma next_tick_simps [simp]:
  "hw_mails (next_tick w) = hw_mails w" "hw_tick (next_tick w) = Suc (hw_tick w)"
  "hw_db (next_tick w) = hw_db w" "hw_files (next_tick w) = hw_files w"
  by (simp_all add: next_tick_def)

lemma read_db_eq:
  "read_db E op w = (map_err api_from_registry (op (he_db_fault E (hw_tick w)) (hw_db (others_run E w))), next_tick (others_run E w))"
  by (simp add: read_db_def call_db_def Let_def)

lemma read_fs_eq:
  "read_fs E op w = (map_err api_from_registry (op (he_fs_fault E (hw_tick w)) (hw_files (others_run E w))), next_tick (others_run E w))"
  by (simp add: read_fs_def call_fs_def Let_def)

lemma authorize_Ok:
  assumes "authorize E headers i w = (Ok x, w')"
  shows "\<exists>token. bearer_token headers = Some token \<and>
    account_for_session (he_crypto E) (he_codecs E) (he_db_fault E (hw_tick w)) (hw_db (others_run E w)) token (http_now E w) = Ok (Some i)"
    "w' = next_tick (others_run E w)"
  using assms by (auto simp: authorize_def read_db_eq result_elims split: option.splits if_splits)

lemma authorize_state: "snd (authorize E headers i w) \<in> {w, next_tick (others_run E w)}"
  by (cases "account_for_session (he_crypto E) (he_codecs E) (he_db_fault E (hw_tick w)) (hw_db (others_run E w)) (the (bearer_token headers)) (http_now E w)")
    (auto simp: authorize_def read_db_eq split: option.splits)

section \<open>Authorization\<close>

definition has_session :: "http_env \<Rightarrow> session_token list \<Rightarrow> string \<Rightarrow> (string \<times> bytes) list \<Rightarrow> i64 \<Rightarrow> bool" where
  "has_session E log account headers now \<longleftrightarrow> (\<exists>i token t. parse_account_id account = Ok i \<and> bearer_token headers = Some token
     \<and> latest_session log i = Some t \<and> token_hash (he_crypto E) (st_token t) = token_hash (he_crypto E) token \<and> now < st_expires_at t)"

section \<open>How an account's pointers may change\<close>

text \<open>
  The relation between the store before and after any number of concurrent requests: the recovery
  pointer of the account is set once, and its record pointer only moves to a verified record
  that belongs to the wallet of the recovery secret and does not roll back the valid record the
  previous pointer named.  A pointer determines bytes through its digest.
\<close>

abbreviation pointer :: "http_env \<Rightarrow> redb \<Rightarrow> account_id \<Rightarrow> account_blob_kind \<Rightarrow> registry_error + blob_ref option" where
  "pointer E db i kind \<equiv> blob_ref_get (he_codecs E) None db i kind"

definition owns_record :: "http_env \<Rightarrow> redb \<Rightarrow> account_id \<Rightarrow> signed_record \<Rightarrow> bool" where
  "owns_record E db i r \<longleftrightarrow> (\<exists>recovery sealed. pointer E db i Recovery = Ok (Some recovery) \<and> blob_matches (he_crypto E) recovery sealed
     \<and> recovery_wallet E i sealed = Ok (rec_wallet (s_record r)))"

definition follows_record :: "http_env \<Rightarrow> signed_record \<Rightarrow> bytes \<Rightarrow> blob_ref option \<Rightarrow> bool" where
  "follows_record E r bs previous_ref \<longleftrightarrow> (case previous_ref of
      None \<Rightarrow> True
    | Some p \<Rightarrow> \<exists>bs0 r0. blob_matches (he_crypto E) p bs0 \<and> wire_decode (he_record E) bs0 = Ok r0
        \<and> (signed_record_verify (he_crypto E) (he_claims E) r0 = Ok () \<longrightarrow> rec_user_id (s_record r) = rec_user_id (s_record r0)
           \<and> (freshness_less (record_freshness r0) (record_freshness r) \<or> record_freshness r0 = record_freshness r \<and> bs = bs0)))"

inductive account_step :: "http_env \<Rightarrow> account_id \<Rightarrow> redb \<Rightarrow> redb \<Rightarrow> bool" for E i where
  step_keep: "pointer E db' i Recovery = pointer E db i Recovery \<Longrightarrow> pointer E db' i PublicRecord = pointer E db i PublicRecord \<Longrightarrow>
    account_step E i db db'"
| step_recovery: "length secret = RECOVERY_SECRET_BYTES \<Longrightarrow> is_ok (from_wallet_secret (he_crypto E) secret (replicate 32 0)) \<Longrightarrow>
    recovery_seal (he_aead E) (he_key E) rng i secret = Ok sealed \<Longrightarrow> pointer E db i Recovery = Ok None \<Longrightarrow>
    pointer E db' i Recovery = Ok (Some (new_blob_ref (he_crypto E) Recovery sealed)) \<Longrightarrow>
    pointer E db' i PublicRecord = pointer E db i PublicRecord \<Longrightarrow> account_step E i db db'"
| step_publish: "decode_signed_public_record E bs = Ok r \<Longrightarrow> owns_record E db i r \<Longrightarrow> pointer E db i PublicRecord = Ok p \<Longrightarrow>
    follows_record E r bs p \<Longrightarrow> pointer E db' i PublicRecord = Ok (Some (new_blob_ref (he_crypto E) PublicRecord bs)) \<Longrightarrow>
    pointer E db' i Recovery = pointer E db i Recovery \<Longrightarrow> t_get (t_user_index db') (rec_user_id (s_record r)) = Some (str_bytes i) \<Longrightarrow>
    account_step E i db db'"

abbreviation account_evolves :: "http_env \<Rightarrow> account_id \<Rightarrow> redb \<Rightarrow> redb \<Rightarrow> bool" where
  "account_evolves E i \<equiv> (account_step E i)\<^sup>*\<^sup>*"

abbreviation others_evolve :: "http_env \<Rightarrow> account_id \<Rightarrow> bool" where
  "others_evolve E i \<equiv> \<forall>n db fs. account_evolves E i db (fst (he_others E n (db, fs)))"

lemma recovery_pointer_kept:
  "account_evolves E i db db' \<Longrightarrow> pointer E db i Recovery = Ok (Some recovery) \<Longrightarrow> pointer E db' i Recovery = Ok (Some recovery)"
  by (induction rule: rtranclp_induct) (auto elim: account_step.cases)

lemma owns_record_kept: "account_evolves E i db db' \<Longrightarrow> owns_record E db i r \<Longrightarrow> owns_record E db' i r"
  unfolding owns_record_def using recovery_pointer_kept by blast
section \<open>What the operations of the store do to the pointers\<close>

definition blobs_kept :: "account_id \<Rightarrow> redb \<Rightarrow> redb \<Rightarrow> bool" where
  "blobs_kept i db db' \<longleftrightarrow> (\<forall>kind. t_get (t_blobs db') (blob_key i kind) = t_get (t_blobs db) (blob_key i kind))"

lemma blobs_kept_evolves [intro]: "blobs_kept i db db' \<Longrightarrow> account_evolves E i db db'"
  by (rule r_into_rtranclp, rule step_keep) (simp_all add: blobs_kept_def blob_ref_get_def read_tx_def get_json_def)

lemma blobs_kept_same: "t_blobs db' = t_blobs db \<Longrightarrow> blobs_kept i db db'"
  by (simp add: blobs_kept_def)

lemma blobs_kept_refl [simp]: "blobs_kept i db db"
  by (simp add: blobs_kept_def)

lemma blobs_kept_trans: "blobs_kept i db db' \<Longrightarrow> blobs_kept i db' db'' \<Longrightarrow> blobs_kept i db db''"
  by (simp add: blobs_kept_def)

lemma blob_key_inject:
  "length i = length j \<Longrightarrow> blob_key i kind = blob_key j kind' \<longleftrightarrow> i = j \<and> kind = kind'"
  by (cases kind; cases kind') (auto simp: blob_key_def blob_kind_str_def)

lemma token_ops_kept:
  "blobs_kept i db (snd (put_login_token J flt db th token))"
  "blobs_kept i db (snd (take_login_token J flt db th))"
  "blobs_kept i db (snd (bump_rate_limit J flt db k now window_secs))"
  "blobs_kept i db (snd (replace_session J flt db s))"
  by (rule blobs_kept_same, simp add: put_login_token_def take_login_token_def bump_rate_limit_def replace_session_def write_tx_def tryR_def Let_def
      split: option.splits sum.splits prod.splits if_splits)+

lemma get_or_create_kept: "blobs_kept i db (snd (get_or_create_account_for_login J flt db kind hash a now))"
  by (auto simp: get_or_create_account_for_login_def write_tx_def tryR_def Let_def blobs_kept_def blob_key_def
      split: option.splits sum.splits prod.splits if_splits)

lemma service_ops_kept:
  "blobs_kept i db (snd (request_email_login C J flts rng db email now ttl))"
  "blobs_kept i db (snd (create_session C J flts rng db j now ttl))"
  using token_ops_kept(1,4)
  by (auto simp: request_email_login_def create_session_def tryE_def tryS_def Let_def blobs_kept_def split: sum.splits)

lemma confirm_kept: "blobs_kept i db (snd (confirm_login C J flts rng db token now))"
proof -
  note t = token_ops_kept(2) [of i db J "flts 0" "token_hash C token"]
  have "blobs_kept i db1 (snd (tryE (account_id_generate rng) db1 (\<lambda>j.
      get_or_create_account_for_login J (flts 1) db1 k h (account_new j now) now)))" for db1 k h
    using get_or_create_kept by (cases "account_id_generate rng") (auto simp: blobs_kept_same)
  then show ?thesis using t
    by (cases "take_login_token J (flts 0) db (token_hash C token)"; cases "fst (take_login_token J (flts 0) db (token_hash C token))")
      (auto simp: confirm_login_def split: option.splits intro: blobs_kept_trans)
qed

lemma drop_sessions_blobs: "drop_sessions J due db = Ok db' \<Longrightarrow> t_blobs db' = t_blobs db"
  by (induction J due db rule: drop_sessions.induct) (auto simp: result_elims Let_def split: option.splits if_splits)

lemma drop_rates_blobs: "drop_rates J due db = Ok db' \<Longrightarrow> t_blobs db' = t_blobs db"
  by (induction J due db rule: drop_rates.induct) (auto simp: result_elims Let_def split: option.splits if_splits)

lemma fold_tokens_blobs: "t_blobs (fold (\<lambda>(k, th, _, _) db. db\<lparr>t_login_tokens := t_remove (t_login_tokens db) th,
    t_login_token_expiry := t_remove (t_login_token_expiry db) k\<rparr>) due db) = t_blobs db"
  by (induction due arbitrary: db) auto

lemma purge_body_blobs:
  assumes "purge_tokens now limit db = Ok r1" "purge_sessions J now limit r1 = Ok r2" "purge_rates J now limit r2 = Ok (n, db')"
  shows "t_blobs db' = t_blobs db"
proof -
  have "t_blobs (snd r1) = t_blobs db" using assms(1) by (auto simp: purge_tokens_def result_elims fold_tokens_blobs)
  moreover have "t_blobs (snd r2) = t_blobs (snd r1)"
    using assms(2) by (auto simp: purge_sessions_def result_elims drop_sessions_blobs split: if_splits prod.splits)
  moreover have "t_blobs db' = t_blobs (snd r2)"
    using assms(3) by (auto simp: purge_rates_def result_elims drop_rates_blobs split: if_splits prod.splits)
  ultimately show ?thesis by simp
qed

lemma purge_kept: "blobs_kept i db (snd (purge_expired J flt db now limit))"
proof (cases "limit = 0")
  case True
  then show ?thesis by (simp add: purge_expired_def blobs_kept_same)
next
  case False
  obtain r db' where p: "purge_expired J flt db now limit = (r, db')" by fastforce
  then have "write_tx flt db (\<lambda>db. tryR (purge_tokens now limit db) (\<lambda>r. tryR (purge_sessions J now limit r) (\<lambda>r.
      tryR (purge_rates J now limit r) (\<lambda>(removed, db). Ok (removed, Some db))))) = (r, db')" using False by (simp add: purge_expired_def)
  then have "t_blobs db' = t_blobs db"
  proof (cases rule: write_tx_cases)
    case (4 n)
    then show ?thesis using purge_body_blobs by (auto simp: result_elims)
  qed auto
  with p show ?thesis by (simp add: blobs_kept_same)
qed

lemma swap_cases:
  assumes "compare_and_swap_blob_ref J flt db i kind expected nxt = (r, db')" "json_ok (j_blob_ref J)"
  obtains "db' = db" "\<And>p. r \<noteq> Ok (Applied p)"
  | "r = Ok (Applied expected)" "blob_ref_get J None db i kind = Ok expected" "blob_ref_get J None db' i kind = Ok (Some nxt)"
    "\<And>j k. length j = length i \<Longrightarrow> (j, k) \<noteq> (i, kind) \<Longrightarrow> blob_ref_get J None db' j k = blob_ref_get J None db j k"
  using assms(1) unfolding compare_and_swap_blob_ref_def
proof (cases rule: write_tx_cases)
  case (4 a)
  then obtain v where v: "encode_json (j_blob_ref J) nxt = Ok v" "db' = db\<lparr>t_blobs := t_insert (t_blobs db) (blob_key i kind) v\<rparr>"
    and a: "get_json (j_blob_ref J) (t_blobs db) (blob_key i kind) = Ok expected" "a = Applied expected"
    by (auto simp: result_elims split: if_splits)
  have "blob_ref_get J None db' j k = blob_ref_get J None db j k" if "length j = length i" "(j, k) \<noteq> (i, kind)" for j k
    using that by (auto simp: blob_ref_get_def read_tx_def get_json_def v(2) blob_key_inject)
  moreover have "blob_ref_get J None db' i kind = Ok (Some nxt)"
    by (simp add: blob_ref_get_def read_tx_def get_json_Ok v(2) json_encode_decode [OF assms(2) v(1)])
  ultimately show thesis using that(2) 4 a by (simp add: blob_ref_get_def read_tx_def)
qed (use that(1) in \<open>auto simp: result_elims split: if_splits\<close>)
section \<open>Calls keep to the relation\<close>

lemma others_run_evolves: "others_evolve E i \<Longrightarrow> account_evolves E i (hw_db w) (hw_db (others_run E w))"
  by simp

lemma call_db_evolves:
  assumes "others_evolve E i" "\<And>flt rng db. account_evolves E i db (snd (op flt rng db))"
  shows "account_evolves E i (hw_db w) (hw_db (snd (call_db E op w)))"
proof -
  note rtranclp_trans [OF others_run_evolves [OF assms(1), of w] assms(2) [of "hw_db (others_run E w)" "he_db_fault E (hw_tick w)" "he_rng E (hw_tick w)"]]
  then show ?thesis by (simp add: call_db_def Let_def case_prod_beta)
qed

lemma read_db_evolves: "others_evolve E i \<Longrightarrow> account_evolves E i (hw_db w) (hw_db (snd (read_db E op w)))"
  by (simp add: read_db_eq)

lemma call_fs_evolves: "others_evolve E i \<Longrightarrow> account_evolves E i (hw_db w) (hw_db (snd (call_fs E op w)))"
  by (simp add: call_fs_def Let_def split: prod.split)

lemma read_fs_evolves: "others_evolve E i \<Longrightarrow> account_evolves E i (hw_db w) (hw_db (snd (read_fs E op w)))"
  by (simp add: read_fs_def call_fs_evolves)

lemma tryS_evolves:
  "account_evolves E i db (hw_db (snd r)) \<Longrightarrow> (\<And>a. fst r = Ok a \<Longrightarrow> account_evolves E i (hw_db (snd r)) (hw_db (snd (h a (snd r))))) \<Longrightarrow>
   account_evolves E i db (hw_db (snd (tryS r h)))"
  by (cases "fst r") (auto simp: tryS_def)

lemma tryE_evolves:
  "account_evolves E i db (hw_db s) \<Longrightarrow> (\<And>a. r = Ok a \<Longrightarrow> account_evolves E i db (hw_db (snd (h a)))) \<Longrightarrow>
   account_evolves E i db (hw_db (snd (tryE r s h)))"
  by (cases r) auto

lemma remove_replaced_evolves: "others_evolve E i \<Longrightarrow> account_evolves E i (hw_db w) (hw_db (remove_replaced_blob E j p b w))"
  using call_fs_evolves by (auto simp: remove_replaced_blob_def split: option.splits)

lemma authorize_evolves: "others_evolve E i \<Longrightarrow> account_evolves E i (hw_db w) (hw_db (snd (authorize E headers j w)))"
  using authorize_state [of E headers j w] by auto

lemma rate_limit_evolves: "others_evolve E i \<Longrightarrow> account_evolves E i (hw_db w) (hw_db (snd (check_rate_limit E k now window_secs limit w)))"
  unfolding check_rate_limit_def
  by (intro tryS_evolves call_db_evolves blobs_kept_evolves token_ops_kept(3)) auto

lemma request_login_evolves: "others_evolve E i \<Longrightarrow> account_evolves E i (hw_db w) (hw_db (snd (http_request_email_login E source email w)))"
  unfolding http_request_email_login_def Let_def
  by (intro tryS_evolves tryE_evolves rate_limit_evolves call_db_evolves blobs_kept_evolves service_ops_kept(1)) auto

lemma confirm_login_evolves: "others_evolve E i \<Longrightarrow> account_evolves E i (hw_db w) (hw_db (snd (http_confirm_login E source token w)))"
  unfolding http_confirm_login_def Let_def
  by (intro tryS_evolves rate_limit_evolves call_db_evolves blobs_kept_evolves service_ops_kept(2) confirm_kept) auto

lemma purge_evolves: "others_evolve E i \<Longrightarrow> account_evolves E i (hw_db w) (hw_db (snd (http_purge_expired E now limit w)))"
  unfolding http_purge_expired_def by (intro call_db_evolves blobs_kept_evolves purge_kept)

text \<open>What loading a blob reads: the pointer at some moment of the call, and bytes of its digest.\<close>

definition blob_loaded :: "http_env \<Rightarrow> account_id \<Rightarrow> account_id \<Rightarrow> account_blob_kind \<Rightarrow> http_world \<Rightarrow> (api_error + (blob_ref \<times> bytes) option) \<times> http_world \<Rightarrow> bool" where
  "blob_loaded E i j kind w rw \<longleftrightarrow> (\<exists>db. account_evolves E i (hw_db w) db \<and> account_evolves E i db (hw_db (snd rw))
    \<and> (case fst rw of Ok (Some (p, bs)) \<Rightarrow> pointer E db j kind = Ok (Some p) \<and> blob_matches (he_crypto E) p bs
       | Ok None \<Rightarrow> pointer E db j kind = Ok None
       | Err _ \<Rightarrow> True))"

lemma pointer_read: "blob_ref_get J flt db j kind = Ok p \<Longrightarrow> blob_ref_get J None db j kind = Ok p"
  by (auto simp: blob_ref_get_def read_tx_def split: option.splits)

lemma blob_get_matches: "blob_get C root flt fs j p = Ok (Some bs) \<Longrightarrow> blob_matches C p bs"
  by (auto simp: blob_get_def result_elims split: option.splits if_splits)

lemma blob_loaded_later:
  "account_evolves E i (hw_db w) (hw_db w') \<Longrightarrow> blob_loaded E i j kind w' rw \<Longrightarrow> blob_loaded E i j kind w rw"
  unfolding blob_loaded_def by (meson rtranclp_trans)

lemma load_current_blob_evolves:
  assumes "load_current_blob E j kind w = Some rw" "others_evolve E i"
  shows "blob_loaded E i j kind w rw"
  using assms
proof (induction rule: load_current_blob.raw_induct [rotated, consumes 1])
  case (1 load E j kind w rw)
  note IH = 1(1) and body = 1(2) and rely = 1(3)
  let ?get = "\<lambda>flt db. blob_ref_get (he_codecs E) (flt 0) db j kind"
  obtain r1 w1 where r1: "read_db E ?get w = (r1, w1)" by fastforce
  have e1: "account_evolves E i (hw_db w) (hw_db w1)" using read_db_evolves [OF rely, of w ?get] r1 by simp
  have p1: "pointer E (hw_db w1) j kind = Ok x" if "r1 = Ok x" for x using r1 that pointer_read by (auto simp: read_db_eq)
  have now: "blob_loaded E i j kind w (r, w')" if "account_evolves E i (hw_db w1) (hw_db w')"
    "case r of Ok (Some (p, bs)) \<Rightarrow> r1 = Ok (Some p) \<and> blob_matches (he_crypto E) p bs | Ok None \<Rightarrow> r1 = Ok None | Err _ \<Rightarrow> True" for r w'
    unfolding blob_loaded_def using e1 that p1 by (intro exI [of _ "hw_db w1"]) (auto split: sum.splits option.splits)
  consider (finished) r where "rw = (r, w1)" "\<forall>x. r = Ok x \<longrightarrow> x = None \<and> r1 = Ok None" | (some) b where "r1 = Ok (Some b)"
    using body r1 by (auto split: sum.splits option.splits)
  then show ?case
  proof cases
    case finished
    with now [of w1 r] show ?thesis by (cases r) auto
  next
    case (some b)
    let ?fs = "\<lambda>flt fs. blob_get (he_crypto E) (he_root E) flt fs j b"
    obtain r2 w2 where r2: "read_fs E ?fs w1 = (r2, w2)" by fastforce
    have e2: "account_evolves E i (hw_db w1) (hw_db w2)" using read_fs_evolves [OF rely, of w1 ?fs] r2 by simp
    have m: "blob_matches (he_crypto E) b bs" if "r2 = Ok (Some bs)" for bs using r2 that blob_get_matches by (auto simp: read_fs_eq)
    obtain r3 w3 where r3: "read_db E ?get w2 = (r3, w3)" by fastforce
    have e3: "account_evolves E i (hw_db w1) (hw_db w3)" using rtranclp_trans [OF e2 read_db_evolves [OF rely, of w2 ?get]] r3 by simp
    consider (err) e where "r2 = Err e" | (read) bs where "r2 = Ok (Some bs)" | (missing) "r2 = Ok None"
      by (cases r2) (metis not_Some_eq)+
    then show ?thesis
    proof cases
      case (err e)
      then have "rw = (Err e, w2)" using body r1 some r2 by simp
      with now [of w2 "Err e"] e2 show ?thesis by simp
    next
      case (read bs)
      then have "rw = (Ok (Some (b, bs)), w2)" using body r1 some r2 by simp
      with now [of w2 "Ok (Some (b, bs))"] e2 m [OF read] some show ?thesis by simp
    next
      case missing
      then have next_try: "(case r3 of Err e \<Rightarrow> Some (Err e, w3)
          | Ok again \<Rightarrow> if again = Some b then Some (Err api_internal, w3) else load E j kind w3) = Some rw" using body r1 some r2 r3 by simp
      show ?thesis
      proof (cases "\<exists>e. rw = (Err e, w3)")
        case True
        then obtain e where "rw = (Err e, w3)" ..
        with now [of w3 "Err e"] e3 show ?thesis by simp
      next
        case False
        with next_try have again: "load E j kind w3 = Some rw" by (cases r3) (auto split: if_splits)
        show ?thesis by (rule blob_loaded_later [OF rtranclp_trans [OF e1 e3] IH [OF again rely]])
      qed
    qed
  qed
qed
section \<open>Handlers keep to the relation\<close>

definition handler_evolves :: "http_env \<Rightarrow> account_id \<Rightarrow> http_world \<Rightarrow> ('r \<times> http_world) option \<Rightarrow> bool" where
  "handler_evolves E i w r \<longleftrightarrow> (\<forall>rw. r = Some rw \<longrightarrow> account_evolves E i (hw_db w) (hw_db (snd rw)))"

lemma handler_evolves_Some [simp]: "handler_evolves E i w (Some rw) \<longleftrightarrow> account_evolves E i (hw_db w) (hw_db (snd rw))"
  by (simp add: handler_evolves_def)

lemma handler_evolves_bind:
  "handler_evolves E i w r \<Longrightarrow> (\<And>rw. r = Some rw \<Longrightarrow> handler_evolves E i (snd rw) (h rw)) \<Longrightarrow> handler_evolves E i w (Option.bind r h)"
  by (cases r) (auto simp: handler_evolves_def)

lemma handler_evolves_after:
  "account_evolves E i (hw_db w) (hw_db w') \<Longrightarrow> handler_evolves E i w' r \<Longrightarrow> handler_evolves E i w r"
  by (auto simp: handler_evolves_def)

lemma load_handler: "others_evolve E i \<Longrightarrow> handler_evolves E i w (load_current_blob E j kind w)"
  using load_current_blob_evolves unfolding handler_evolves_def blob_loaded_def by (meson rtranclp_trans)

lemma swap_other:
  assumes "json_ok (j_blob_ref (he_codecs E))" "length j = length i" "j \<noteq> i \<or> kind = Backup"
  shows "account_evolves E i db (snd (compare_and_swap_blob_ref (he_codecs E) flt db j kind expected nxt))"
proof -
  obtain r db' where s: "compare_and_swap_blob_ref (he_codecs E) flt db j kind expected nxt = (r, db')" by fastforce
  then have "account_evolves E i db db'"
  proof (cases rule: swap_cases [OF _ assms(1), consumes 1, case_names same swapped])
    case swapped
    then show ?thesis using assms(2,3) by (intro r_into_rtranclp step_keep swapped(4)) auto
  qed simp
  with s show ?thesis by simp
qed

lemma swap_backup_evolves:
  assumes "swap_backup E j blob expected w = Some rw" "others_evolve E i" "json_ok (j_blob_ref (he_codecs E))" "length j = length i"
  shows "account_evolves E i (hw_db w) (hw_db (snd rw))"
  using assms
proof (induction rule: swap_backup.raw_induct [rotated, consumes 1])
  case (1 swap E j blob expected w rw)
  note IH = 1(1) and body = 1(2) and rely = 1(3) and ok = 1(4,5)
  let ?op = "\<lambda>flt _ db. compare_and_swap_blob_ref (he_codecs E) (flt 0) db j Backup expected blob"
  obtain r1 w1 where r1: "call_db E ?op w = (r1, w1)" by fastforce
  have e1: "account_evolves E i (hw_db w) (hw_db w1)" using call_db_evolves [OF rely, of ?op w] swap_other [OF ok] r1 by simp
  consider r where "rw = (r, w1)" | p where "rw = (Ok blob, remove_replaced_blob E j p blob w1)" | c where "swap E j blob c w1 = Some rw"
    using body r1 by (auto split: sum.splits blob_swap.splits)
  then show ?case
  proof cases
    case 2
    with e1 remove_replaced_evolves [OF rely, of w1 j] show ?thesis by (auto intro: rtranclp_trans)
  next
    case 3
    from rtranclp_trans [OF e1 IH [OF this rely ok]] show ?thesis .
  qed (use e1 in auto)
qed
lemma swap_recovery_none:
  assumes "json_ok (j_blob_ref (he_codecs E))" "length j = length i" "length secret = RECOVERY_SECRET_BYTES"
    "is_ok (from_wallet_secret (he_crypto E) secret (replicate 32 0))" "recovery_seal (he_aead E) (he_key E) rng j secret = Ok sealed"
  shows "account_evolves E i db (snd (compare_and_swap_blob_ref (he_codecs E) flt db j Recovery None (new_blob_ref (he_crypto E) Recovery sealed)))"
proof (cases "j = i")
  case True
  obtain r db' where s: "compare_and_swap_blob_ref (he_codecs E) flt db j Recovery None (new_blob_ref (he_crypto E) Recovery sealed) = (r, db')" by fastforce
  then have "account_evolves E i db db'"
  proof (cases rule: swap_cases [OF _ assms(1), consumes 1, case_names same swapped])
    case swapped
    then show ?thesis using True assms(3-5) by (intro r_into_rtranclp step_recovery [where secret = secret and sealed = sealed and rng = rng]) auto
  qed simp
  with s show ?thesis by simp
qed (use swap_other [OF assms(1,2)] in simp)

lemma swap_recovery_evolves:
  assumes "swap_recovery E j secret blob w = Some rw" "others_evolve E i" "json_ok (j_blob_ref (he_codecs E))" "length j = length i"
    "length secret = RECOVERY_SECRET_BYTES" "is_ok (from_wallet_secret (he_crypto E) secret (replicate 32 0))"
    "\<exists>rng sealed. recovery_seal (he_aead E) (he_key E) rng j secret = Ok sealed \<and> blob = new_blob_ref (he_crypto E) Recovery sealed"
  shows "account_evolves E i (hw_db w) (hw_db (snd rw))"
  using assms
proof (induction rule: swap_recovery.raw_induct [rotated, consumes 1])
  case (1 swap E j secret blob w rw)
  note IH = 1(1) and body = 1(2) and rely = 1(3) and ok = 1(4-8)
  let ?op = "\<lambda>flt _ db. compare_and_swap_blob_ref (he_codecs E) (flt 0) db j Recovery None blob"
  obtain cur w1 where l: "load_current_blob E j Recovery w = Some (cur, w1)" using body by (auto simp: Option.bind_eq_Some_conv)
  have e1: "account_evolves E i (hw_db w) (hw_db w1)" using load_handler [OF rely, of w j Recovery] l by simp
  obtain r2 w2 where r2: "call_db E ?op w1 = (r2, w2)" by fastforce
  have e2: "account_evolves E i (hw_db w1) (hw_db w2)"
    using call_db_evolves [OF rely, of ?op w1] swap_recovery_none [OF ok(1-4)] ok(5) r2 by auto
  show ?case
  proof (cases cur)
    case (Inl e)
    with body l e1 show ?thesis by auto
  next
    case (Inr found)
    show ?thesis
    proof (cases found)
      case None
      then have "(case (r2, w2) of (Err e, w) \<Rightarrow> Some (Err e, w) | (Ok (Applied _), w) \<Rightarrow> Some (Ok blob, w)
          | (Ok (Mismatch _), w) \<Rightarrow> swap E j secret blob w) = Some rw" using body l Inr r2 by simp
      then consider r where "rw = (r, w2)" | "swap E j secret blob w2 = Some rw" by (auto split: sum.splits blob_swap.splits)
      then show ?thesis
      proof cases
        case 2
        from IH [OF this rely ok] e1 e2 show ?thesis by (meson rtranclp_trans)
      qed (use e1 e2 in auto)
    next
      case (Some b)
      obtain current_ref current_sealed where b: "b = (current_ref, current_sealed)" by fastforce
      have "account_evolves E i (hw_db w1) (hw_db (snd (tryE (map_err api_from_registry (recovery_open (he_aead E) (he_key E) j current_sealed)) w1 (\<lambda>current_secret.
          if current_secret \<noteq> secret then
            tryS (call_fs E (\<lambda>flt _ fs. blob_remove (he_root E) flt fs j blob) w1) (\<lambda>_ w.
            (Err (api_conflict ''account recovery identity cannot be replaced''), w))
          else if current_ref \<noteq> blob then
            tryS (call_fs E (\<lambda>flt _ fs. blob_remove (he_root E) flt fs j blob) w1) (\<lambda>_ w. (Ok current_ref, w))
          else (Ok current_ref, w1)))))"
        using call_fs_evolves [OF rely, of w1] by (intro tryE_evolves) (auto intro!: tryS_evolves)
      with body l Inr Some b e1 show ?thesis by (auto intro: rtranclp_trans)
    qed
  qed
qed

text \<open>What passing the update check means for the account's own record.\<close>

lemma record_update_follows:
  assumes "record_update E r bs current_ref current_bytes = Ok (expected, previous_uid)" "blob_matches (he_crypto E) current_ref current_bytes"
  shows "expected = Some current_ref" "follows_record E r bs expected"
proof -
  obtain r0 where d: "wire_decode (he_record E) current_bytes = Ok r0" and e: "expected = Some current_ref"
    and f: "is_ok (signed_record_verify (he_crypto E) (he_claims E) r0) \<Longrightarrow> rec_user_id (s_record r0) = rec_user_id (s_record r)
      \<and> \<not> freshness_less (record_freshness r) (record_freshness r0) \<and> (record_freshness r = record_freshness r0 \<longrightarrow> bs = current_bytes)"
    using assms(1) by (auto simp: record_update_def result_elims Let_def split: if_splits)
  show "expected = Some current_ref" by fact
  show "follows_record E r bs expected" unfolding follows_record_def e
    using assms(2) d f freshness_less_linear [of "record_freshness r" "record_freshness r0"]
    by (auto intro!: exI [of _ current_bytes] exI [of _ r0])
qed

lemma enforce_cases:
  assumes "enforce_public_record_update E j r bs w = Some (res, w')"
  obtains (stop) cur e where "load_current_blob E j Recovery w = Some (cur, w')" "res = Err e"
  | (go) recovery sealed w1 cur where "load_current_blob E j Recovery w = Some (Ok (Some (recovery, sealed)), w1)"
      "recovery_wallet E j sealed = Ok (rec_wallet (s_record r))" "load_current_blob E j PublicRecord w1 = Some (cur, w')"
      "\<And>e. cur = Err e \<Longrightarrow> res = Err e" "cur = Ok None \<Longrightarrow> res = Ok (None, None)"
      "\<And>p b. cur = Ok (Some (p, b)) \<Longrightarrow> res = record_update E r bs p b"
proof -
  obtain cur w1 where l: "load_current_blob E j Recovery w = Some (cur, w1)"
    using assms by (auto simp: enforce_public_record_update_def Option.bind_eq_Some_conv)
  note body = assms [unfolded enforce_public_record_update_def l Option.bind.simps prod.case]
  consider "\<And>x. cur \<noteq> Ok (Some x)" | recovery sealed where "cur = Ok (Some (recovery, sealed))" by (cases cur) fastforce+
  then show thesis
  proof cases
    case 1
    with body have "w' = w1" "\<exists>e. res = Err e" by (auto split: sum.splits option.splits)
    with l stop show thesis by blast
  next
    case (2 recovery sealed)
    show thesis
    proof (cases "recovery_wallet E j sealed = Ok (rec_wallet (s_record r))")
      case True
      then obtain cur2 w2 where l2: "load_current_blob E j PublicRecord w1 = Some (cur2, w2)"
        using body 2 by (auto simp: Option.bind_eq_Some_conv)
      with True body 2 have "(case cur2 of Err e \<Rightarrow> (Err e, w2) | Ok None \<Rightarrow> (Ok (None, None), w2)
          | Ok (Some (p, b)) \<Rightarrow> (record_update E r bs p b, w2)) = (res, w')" by simp
      with l l2 True 2 show thesis by (intro go [of recovery sealed w1 cur2]) (auto split: sum.splits option.splits)
    next
      case False
      with body 2 have "w' = w1" "\<exists>e. res = Err e" by (auto split: sum.splits if_splits)
      with l stop show thesis by blast
    qed
  qed
qed

lemma enforce_evolves:
  assumes "enforce_public_record_update E j r bs w = Some (res, w')" "others_evolve E i"
  shows "account_evolves E i (hw_db w) (hw_db w')"
  using assms(1)
proof (cases rule: enforce_cases)
  case (stop cur e)
  with load_handler [OF assms(2), of w j Recovery] show ?thesis by simp
next
  case (go recovery sealed w1 cur)
  with load_handler [OF assms(2), of w j Recovery] load_handler [OF assms(2), of w1 j PublicRecord] show ?thesis by simp
qed

lemma enforce_own:
  assumes "enforce_public_record_update E i r bs w = Some (Ok (expected, previous_uid), w')" "others_evolve E i"
  shows "owns_record E (hw_db w') i r" "follows_record E r bs expected"
proof -
  obtain recovery sealed w1 cur where go: "load_current_blob E i Recovery w = Some (Ok (Some (recovery, sealed)), w1)"
      "recovery_wallet E i sealed = Ok (rec_wallet (s_record r))" "load_current_blob E i PublicRecord w1 = Some (cur, w')"
      "\<And>e. cur = Err e \<Longrightarrow> Ok (expected, previous_uid) = (Err e :: api_error + (blob_ref option \<times> user_id option))"
      "cur = Ok None \<Longrightarrow> expected = None"
      "\<And>p b. cur = Ok (Some (p, b)) \<Longrightarrow> record_update E r bs p b = Ok (expected, previous_uid)"
    using assms(1) by (cases rule: enforce_cases) auto
  obtain db where db: "account_evolves E i db (hw_db w1)" "pointer E db i Recovery = Ok (Some recovery)" "blob_matches (he_crypto E) recovery sealed"
    using load_current_blob_evolves [OF go(1) assms(2)] by (auto simp: blob_loaded_def)
  have "owns_record E db i r" unfolding owns_record_def using db(2,3) go(2) by blast
  moreover have "account_evolves E i (hw_db w1) (hw_db w')" using load_handler [OF assms(2), of w1 i PublicRecord] go(3) by simp
  ultimately show "owns_record E (hw_db w') i r" using owns_record_kept db(1) by (meson rtranclp_trans)
  consider "cur = Ok None" | p b where "cur = Ok (Some (p, b))" using go(4) by (cases cur) (simp, metis not_Some_eq surj_pair)
  then show "follows_record E r bs expected"
  proof cases
    case 1
    with go(5) show ?thesis by (simp add: follows_record_def)
  next
    case (2 p b)
    with load_current_blob_evolves [OF go(3) assms(2)] have "blob_matches (he_crypto E) p b" by (auto simp: blob_loaded_def)
    with record_update_follows(2) [OF go(6) [OF 2]] show ?thesis by simp
  qed
qed
lemma swap_record_cases:
  assumes "compare_and_swap_public_record_ref J flt db i uid previous_uid expected nxt = (r, db')" "json_ok (j_blob_ref J)"
  obtains "db' = db"
  | "blob_ref_get J None db i PublicRecord = Ok expected" "blob_ref_get J None db' i PublicRecord = Ok (Some nxt)"
    "t_get (t_user_index db') uid = Some (str_bytes i)"
    "\<And>j k. length j = length i \<Longrightarrow> (j, k) \<noteq> (i, PublicRecord) \<Longrightarrow> blob_ref_get J None db' j k = blob_ref_get J None db j k"
  using assms(1) unfolding compare_and_swap_public_record_ref_def
proof (cases rule: write_tx_cases)
  case (4 a)
  then obtain v where v: "encode_json (j_blob_ref J) nxt = Ok v"
      "db' = db\<lparr>t_user_index := bind_user (t_user_index db) i uid previous_uid, t_blobs := t_insert (t_blobs db) (blob_key i PublicRecord) v\<rparr>"
    and a: "get_json (j_blob_ref J) (t_blobs db) (blob_key i PublicRecord) = Ok expected"
    by (auto simp: result_elims split: if_splits)
  have "blob_ref_get J None db' j k = blob_ref_get J None db j k" if "length j = length i" "(j, k) \<noteq> (i, PublicRecord)" for j k
    using that by (auto simp: blob_ref_get_def read_tx_def get_json_def v(2) blob_key_inject)
  moreover have "blob_ref_get J None db' i PublicRecord = Ok (Some nxt)"
    by (simp add: blob_ref_get_def read_tx_def get_json_Ok v(2) json_encode_decode [OF assms(2) v(1)])
  moreover have "t_get (t_user_index db') uid = Some (str_bytes i)" by (simp add: v(2) bind_user_def Let_def split: option.split)
  ultimately show thesis using that(2) a by (simp add: blob_ref_get_def read_tx_def)
qed (use that(1) in auto)

lemma publish_swap_evolves:
  assumes "json_ok (j_blob_ref (he_codecs E))" "length j = length i" "decode_signed_public_record E bs = Ok r"
    "j = i \<Longrightarrow> owns_record E db i r \<and> follows_record E r bs expected"
  shows "account_evolves E i db (snd (compare_and_swap_public_record_ref (he_codecs E) flt db j (rec_user_id (s_record r)) previous_uid expected
    (new_blob_ref (he_crypto E) PublicRecord bs)))"
proof -
  obtain x db' where s: "compare_and_swap_public_record_ref (he_codecs E) flt db j (rec_user_id (s_record r)) previous_uid expected
    (new_blob_ref (he_crypto E) PublicRecord bs) = (x, db')" by fastforce
  then have "account_evolves E i db db'"
  proof (cases rule: swap_record_cases [OF _ assms(1), consumes 1, case_names same swapped])
    case swapped
    show ?thesis
    proof (cases "j = i")
      case True
      with swapped assms(2-4) show ?thesis by (intro r_into_rtranclp step_publish [where bs = bs and r = r and p = expected]) auto
    next
      case False
      with swapped(4) [of i] assms(2) show ?thesis by (intro r_into_rtranclp step_keep) auto
    qed
  qed simp
  with s show ?thesis by simp
qed

lemma swap_record_evolves:
  assumes "swap_record E j r bs blob w = Some rw" "others_evolve E i" "json_ok (j_blob_ref (he_codecs E))" "length j = length i"
    "decode_signed_public_record E bs = Ok r" "blob = new_blob_ref (he_crypto E) PublicRecord bs"
  shows "account_evolves E i (hw_db w) (hw_db (snd rw))"
  using assms
proof (induction rule: swap_record.raw_induct [rotated, consumes 1])
  case (1 swap E j r bs blob w rw)
  note IH = 1(1) and body = 1(2) and rely = 1(3) and ok = 1(4-7)
  obtain upd w1 where l: "enforce_public_record_update E j r bs w = Some (upd, w1)" using body by (auto simp: Option.bind_eq_Some_conv)
  note e1 = enforce_evolves [OF l rely]
  show ?case
  proof (cases upd)
    case (Inl e)
    with body l have "rw = (Err e, snd (call_fs E (\<lambda>flt _ fs. blob_remove (he_root E) flt fs j blob) w1))" by simp
    with e1 call_fs_evolves [OF rely, of w1] show ?thesis by (auto intro: rtranclp_trans)
  next
    case (Inr ex)
    obtain expected previous_uid where ex: "ex = (expected, previous_uid)" by fastforce
    let ?op = "\<lambda>flt (_ :: getrandom) db. compare_and_swap_public_record_ref (he_codecs E) (flt 0) db j (rec_user_id (s_record r)) previous_uid expected blob"
    obtain r2 w2 where r2: "call_db E ?op w1 = (r2, w2)" by fastforce
    have own: "owns_record E (hw_db (others_run E w1)) i r \<and> follows_record E r bs expected" if "j = i"
      using enforce_own [OF l [unfolded Inr ex that] rely] owns_record_kept [OF others_run_evolves [OF rely]] by blast
    have "account_evolves E i (hw_db w1) (hw_db w2)"
      using rtranclp_trans [OF others_run_evolves [OF rely, of w1] publish_swap_evolves [OF ok(1-3) own, of "he_db_fault E (hw_tick w1) 0" previous_uid]] r2 ok(4)
      by (auto simp: call_db_def Let_def case_prod_beta)
    with e1 have e2: "account_evolves E i (hw_db w) (hw_db w2)" by (rule rtranclp_trans)
    have "(case (r2, w2) of (Err e, w) \<Rightarrow> Some (Err e, w) | (Ok (Applied p), w) \<Rightarrow> Some (Ok blob, remove_replaced_blob E j p blob w)
        | (Ok (Mismatch _), w) \<Rightarrow> swap E j r bs blob w) = Some rw" using body l Inr ex r2 by simp
    then consider x where "rw = (x, w2)" | p where "rw = (Ok blob, remove_replaced_blob E j p blob w2)" | "swap E j r bs blob w2 = Some rw"
      by (auto split: sum.splits blob_swap.splits)
    then show ?thesis
    proof cases
      case 2
      with e2 remove_replaced_evolves [OF rely, of w2 j] show ?thesis by (auto intro: rtranclp_trans)
    next
      case 3
      from rtranclp_trans [OF e2 IH [OF this rely ok]] show ?thesis .
    qed (use e2 in auto)
  qed
qed
lemma parse_account_length: "parse_account_id account = Ok j \<Longrightarrow> length j = 32"
  by (auto simp: parse_account_id_def account_id_from_str_def to_ascii_lowercase_def split: if_splits)

lemma call_put_ref:
  assumes "call_fs E (\<lambda>flt rng fs. blob_put C root flt rng fs j kind bs) w = (Ok blob, w')"
  shows "blob = new_blob_ref C kind bs"
proof -
  obtain fs' where "blob_put C root (he_fs_fault E (hw_tick w)) (he_rng E (hw_tick w)) (hw_files (others_run E w)) j kind bs = (Ok blob, fs')"
    using assms by (auto simp: call_fs_def Let_def case_prod_beta) (metis prod.collapse)
  then show ?thesis by (rule blob_put_get(1))
qed

text \<open>A handler is a first part without loops followed by a loop over its result.\<close>

lemma handler_then:
  assumes "account_evolves E i (hw_db w) (hw_db (snd first))" "\<And>a w1. first = (Ok a, w1) \<Longrightarrow> handler_evolves E i w1 (h a w1)"
  shows "handler_evolves E i w (case first of (Err e, w) \<Rightarrow> Some (Err e, w) | (Ok a, w) \<Rightarrow> h a w)"
  using assms by (cases first; cases "fst first") (auto intro: handler_evolves_after)

lemma put_backup_evolves:
  assumes "others_evolve E i" "json_ok (j_blob_ref (he_codecs E))" "length i = 32"
  shows "handler_evolves E i w (put_backup E account headers bs w)"
proof (cases "parse_account_id account")
  case (Inr j)
  have "account_evolves E i (hw_db w) (hw_db (snd (tryS (authorize E headers j w) (\<lambda>_ w.
          tryE (require_size_at_most (length bs) MAX_BACKUP_BYTES) w (\<lambda>_.
          tryS (call_fs E (\<lambda>flt rng fs. blob_put (he_crypto E) (he_root E) flt rng fs j Backup bs) w) (\<lambda>blob w.
          tryS (read_db E (\<lambda>flt db. blob_ref_get (he_codecs E) (flt 0) db j Backup) w) (\<lambda>expected w.
          (Ok (blob, expected), w))))))))"
    by (intro tryS_evolves tryE_evolves authorize_evolves call_fs_evolves read_db_evolves assms(1)) auto
  then show ?thesis unfolding put_backup_def Inr sum.case
    by (rule handler_then) (use swap_backup_evolves [OF _ assms(1,2)] parse_account_length [OF Inr] assms(3) in \<open>auto simp: handler_evolves_def\<close>)
qed (simp add: put_backup_def)

lemma put_recovery_evolves:
  assumes "others_evolve E i" "json_ok (j_blob_ref (he_codecs E))" "length i = 32"
  shows "handler_evolves E i w (put_recovery E account headers bs w)"
proof (cases "parse_account_id account")
  case (Inr j)
  let ?first = "tryS (authorize E headers j w) (\<lambda>_ w.
          if length bs \<noteq> RECOVERY_SECRET_BYTES then (Err (api_bad_request ''recovery material must be exactly 32 bytes''), w)
          else tryE (map_err (\<lambda>_. api_bad_request ''recovery material is not a valid wallet key'')
              (from_wallet_secret (he_crypto E) bs (replicate 32 0))) w (\<lambda>_.
          tryE (map_err api_from_registry (recovery_seal (he_aead E) (he_key E) (he_rng E (hw_tick w)) j bs)) w (\<lambda>sealed.
          call_fs E (\<lambda>flt rng fs. blob_put (he_crypto E) (he_root E) flt rng fs j Recovery sealed) (next_tick w))))"
  have "account_evolves E i (hw_db w1) (hw_db (snd (call_fs E op (next_tick w1))))" for w1 and op :: "put_faults \<Rightarrow> getrandom \<Rightarrow> files \<Rightarrow> (registry_error + blob_ref) \<times> files"
    using call_fs_evolves [OF assms(1), of "next_tick w1" op] by simp
  then have first: "account_evolves E i (hw_db w) (hw_db (snd ?first))"
    by (intro tryS_evolves authorize_evolves assms(1)) (auto intro!: tryE_evolves)
  have ref: "length bs = RECOVERY_SECRET_BYTES \<and> is_ok (from_wallet_secret (he_crypto E) bs (replicate 32 0))
      \<and> (\<exists>rng sealed. recovery_seal (he_aead E) (he_key E) rng j bs = Ok sealed \<and> blob = new_blob_ref (he_crypto E) Recovery sealed)"
    if h: "?first = (Ok blob, w1)" for blob w1
  proof -
    obtain w2 sealed where 1: "length bs = RECOVERY_SECRET_BYTES" "is_ok (from_wallet_secret (he_crypto E) bs (replicate 32 0))"
        "recovery_seal (he_aead E) (he_key E) (he_rng E (hw_tick w2)) j bs = Ok sealed"
      and put: "call_fs E (\<lambda>flt rng fs. blob_put (he_crypto E) (he_root E) flt rng fs j Recovery sealed) (next_tick w2) = (Ok blob, w1)"
      using h by (auto simp: result_elims is_ok_iff split: if_splits)
    from call_put_ref [OF put] 1 show ?thesis by blast
  qed
  have len: "length j = length i" using parse_account_length [OF Inr] assms(3) by simp
  show ?thesis unfolding put_recovery_def Inr sum.case
  proof (rule handler_then [OF first])
    fix blob w1 assume "?first = (Ok blob, w1)"
    from ref [OF this] swap_recovery_evolves [OF _ assms(1,2) len, of bs blob]
    show "handler_evolves E i w1 (swap_recovery E j bs blob w1)" unfolding handler_evolves_def by blast
  qed
qed (simp add: put_recovery_def)
lemma put_record_evolves:
  assumes "others_evolve E i" "json_ok (j_blob_ref (he_codecs E))" "length i = 32"
  shows "handler_evolves E i w (put_public_record E account headers bs w)"
proof (cases "parse_account_id account")
  case (Inr j)
  let ?first = "tryS (authorize E headers j w) (\<lambda>_ w.
          tryE (require_size_at_most (length bs) MAX_PUBLIC_RECORD_BYTES) w (\<lambda>_.
          tryE (decode_signed_public_record E bs) w (\<lambda>r.
          tryS (call_fs E (\<lambda>flt rng fs. blob_put (he_crypto E) (he_root E) flt rng fs j PublicRecord bs) w) (\<lambda>blob w.
          (Ok (r, blob), w)))))"
  have first: "account_evolves E i (hw_db w) (hw_db (snd ?first))"
    by (intro tryS_evolves tryE_evolves authorize_evolves call_fs_evolves assms(1)) auto
  have ref: "decode_signed_public_record E bs = Ok r \<and> blob = new_blob_ref (he_crypto E) PublicRecord bs" if h: "?first = (Ok (r, blob), w1)" for r blob w1
  proof -
    obtain w2 where 1: "decode_signed_public_record E bs = Ok r"
      and put: "call_fs E (\<lambda>flt rng fs. blob_put (he_crypto E) (he_root E) flt rng fs j PublicRecord bs) w2 = (Ok blob, w1)"
      using h by (auto simp: result_elims)
    from call_put_ref [OF put] 1 show ?thesis by blast
  qed
  have len: "length j = length i" using parse_account_length [OF Inr] assms(3) by simp
  have "handler_evolves E i w1 (case x of (r, blob) \<Rightarrow> swap_record E j r bs blob w1)" if h: "?first = (Ok x, w1)" for x w1
  proof -
    obtain r blob where x: "x = (r, blob)" by fastforce
    from ref [OF h [unfolded x]] swap_record_evolves [OF _ assms(1,2) len, of r bs blob] x
    show ?thesis unfolding handler_evolves_def by auto
  qed
  then have "handler_evolves E i w (case ?first of (Err e, w) \<Rightarrow> Some (Err e, w) | (Ok x, w) \<Rightarrow> (case x of (r, blob) \<Rightarrow> swap_record E j r bs blob w))"
    by (rule handler_then [OF first])
  then show ?thesis unfolding put_public_record_def Inr sum.case .
qed (simp add: put_public_record_def)

lemma load_then_evolves:
  "others_evolve E i \<Longrightarrow> (\<And>r w1. hw_db (snd (h r w1)) = hw_db w1) \<Longrightarrow>
   handler_evolves E i w (Option.bind (load_current_blob E j kind w) (\<lambda>(r, w). Some (h r w)))"
  using load_handler [of E i w j kind] by (intro handler_evolves_bind) auto

lemma get_backup_evolves: "others_evolve E i \<Longrightarrow> handler_evolves E i w (get_backup E account headers w)"
  unfolding get_backup_def
  by (cases "parse_account_id account") (auto intro!: handler_then load_then_evolves authorize_evolves split: sum.split option.split)

lemma get_recovery_evolves: "others_evolve E i \<Longrightarrow> handler_evolves E i w (get_recovery E account headers w)"
  unfolding get_recovery_def
  by (cases "parse_account_id account")
    (auto intro!: handler_then load_then_evolves authorize_evolves simp: tryE_def split: sum.split option.split)

lemma record_response_evolves: "others_evolve E i \<Longrightarrow> handler_evolves E i w (public_record_response E j w)"
  unfolding public_record_response_def by (rule load_then_evolves) (auto simp: tryE_def split: sum.split option.split)

lemma get_record_evolves: "others_evolve E i \<Longrightarrow> handler_evolves E i w (get_public_record E account w)"
  unfolding get_public_record_def by (auto intro: record_response_evolves split: sum.split)

lemma get_record_by_user_evolves: "others_evolve E i \<Longrightarrow> handler_evolves E i w (get_public_record_by_user_id E uid w)"
proof (cases "user_id_new uid")
  case (Inr u)
  assume rely: "others_evolve E i"
  obtain r w1 where r: "read_db E (\<lambda>flt db. account_id_by_user_id (flt 0) db u) w = (r, w1)" by fastforce
  with read_db_evolves [OF rely, of w] have e: "account_evolves E i (hw_db w) (hw_db w1)" by (metis snd_conv)
  then show ?thesis using Inr r handler_evolves_after [OF e record_response_evolves [OF rely]]
    by (cases r) (auto simp: get_public_record_by_user_id_def split: option.split)
qed (simp add: get_public_record_by_user_id_def)

lemma handler_respond: "handler_evolves E i w r \<Longrightarrow> handler_evolves E i w (map_option (respond f) r)"
  by (cases r) (auto simp: handler_evolves_def respond_def)

lemma serve_evolves:
  assumes "others_evolve E i" "json_ok (j_blob_ref (he_codecs E))" "length i = 32"
  shows "handler_evolves E i w (serve E q w)"
  by (cases q) (simp_all add: serve_def respond_def handler_respond request_login_evolves confirm_login_evolves purge_evolves put_backup_evolves
      get_backup_evolves put_recovery_evolves get_recovery_evolves put_record_evolves get_record_evolves get_record_by_user_evolves assms)
section \<open>Two uploads of backups\<close>

definition faultless :: "http_env \<Rightarrow> bool" where
  "faultless E \<longleftrightarrow> (\<forall>n. he_db_fault E n = (\<lambda>_. None) \<and> he_fs_fault E n = no_put_faults)"

definition undisturbed :: "http_env \<Rightarrow> http_env" where
  "undisturbed E = E\<lparr>he_others := \<lambda>_ s. s\<rparr>"

text \<open>A request run to its end in between, as what the others do before call \<open>n\<close>.\<close>

definition rival :: "(http_world \<Rightarrow> ('r \<times> http_world) option) \<Rightarrow> http_world \<Rightarrow> redb \<times> files \<Rightarrow> redb \<times> files" where
  "rival req v s = (case req (v\<lparr>hw_db := fst s, hw_files := snd s\<rparr>) of Some (_, v') \<Rightarrow> (hw_db v', hw_files v') | None \<Rightarrow> s)"

definition interleaved :: "http_env \<Rightarrow> nat \<Rightarrow> (redb \<times> files \<Rightarrow> redb \<times> files) \<Rightarrow> http_env" where
  "interleaved E n act = E\<lparr>he_others := \<lambda>k s. if k = n then act s else s\<rparr>"

lemma env_simps [simp]:
  "he_crypto (undisturbed E) = he_crypto E" "he_codecs (undisturbed E) = he_codecs E" "he_root (undisturbed E) = he_root E"
  "he_rng (undisturbed E) = he_rng E" "he_clock (undisturbed E) = he_clock E" "he_others (undisturbed E) = (\<lambda>_ s. s)"
  "he_db_fault (undisturbed E) = he_db_fault E" "he_fs_fault (undisturbed E) = he_fs_fault E"
  "he_crypto (interleaved E n act) = he_crypto E" "he_codecs (interleaved E n act) = he_codecs E" "he_root (interleaved E n act) = he_root E"
  "he_rng (interleaved E n act) = he_rng E" "he_clock (interleaved E n act) = he_clock E"
  "he_others (interleaved E n act) = (\<lambda>k s. if k = n then act s else s)"
  "he_db_fault (interleaved E n act) = he_db_fault E" "he_fs_fault (interleaved E n act) = he_fs_fault E"
  by (simp_all add: undisturbed_def interleaved_def)

lemma faultless_simps [simp]:
  "faultless E \<Longrightarrow> he_db_fault E n = (\<lambda>_. None)" "faultless E \<Longrightarrow> he_fs_fault E n = no_put_faults"
  "faultless (undisturbed E) = faultless E" "faultless (interleaved E n act) = faultless E"
  by (simp_all add: faultless_def)

lemma others_idle: "(\<And>s. he_others E (hw_tick w) s = s) \<Longrightarrow> others_run E w = w"
  by (simp add: others_run_def)

lemma swap_applied:
  assumes "json_ok (j_blob_ref J)" "blob_ref_get J None db i kind = Ok expected"
  obtains db' where "compare_and_swap_blob_ref J None db i kind expected nxt = (Ok (Applied expected), db')"
    "blob_ref_get J None db' i kind = Ok (Some nxt)"
proof -
  obtain v where "encode_json (j_blob_ref J) nxt = Ok v" using json_encode_ok [OF assms(1), of nxt] by blast
  with assms(2) obtain db' where s: "compare_and_swap_blob_ref J None db i kind expected nxt = (Ok (Applied expected), db')"
    by (auto simp: compare_and_swap_blob_ref_def write_tx_None blob_ref_get_def read_tx_def)
  from s have "blob_ref_get J None db' i kind = Ok (Some nxt)" by (rule swap_cases [OF _ assms(1)]) auto
  with s that show thesis by blast
qed

text \<open>The last two calls of an upload: the pointer is the one just read, so the exchange succeeds.\<close>

lemma swap_backup_idle:
  assumes "faultless E" "json_ok (j_blob_ref (he_codecs E))" "pointer E (hw_db w) i Backup = Ok expected"
    "\<And>n s. n \<ge> hw_tick w \<Longrightarrow> he_others E n s = s"
  shows "\<exists>w'. swap_backup E i b expected w = Some (Ok b, w') \<and> pointer E (hw_db w') i Backup = Ok (Some b)
    \<and> hw_files w' = (case expected of None \<Rightarrow> hw_files w
        | Some p \<Rightarrow> if p = b then hw_files w else snd (blob_remove (he_root E) no_put_faults (hw_files w) i p))"
proof -
  obtain db' where s: "compare_and_swap_blob_ref (he_codecs E) None (hw_db w) i Backup expected b = (Ok (Applied expected), db')"
    "pointer E db' i Backup = Ok (Some b)" by (rule swap_applied [OF assms(2,3)])
  have run: "others_run E w = w" using assms(4) [of "hw_tick w"] by (intro others_idle) simp
  let ?w1 = "next_tick (w\<lparr>hw_db := db'\<rparr>)"
  have c: "call_db E (\<lambda>flt _ db. compare_and_swap_blob_ref (he_codecs E) (flt 0) db i Backup expected b) w = (Ok (Applied expected), ?w1)"
    using s assms(1) by (simp add: call_db_def Let_def run)
  have run1: "others_run E ?w1 = ?w1" using assms(4) [of "Suc (hw_tick w)"] by (intro others_idle) simp
  have sw: "swap_backup E i b expected w = Some (Ok b, remove_replaced_blob E i expected b ?w1)"
    by (subst swap_backup.simps) (simp add: c)
  have "pointer E (hw_db (remove_replaced_blob E i expected b ?w1)) i Backup = Ok (Some b)"
    using s(2) by (auto simp: remove_replaced_blob_def call_fs_def run1 Let_def case_prod_beta split: option.split)
  moreover have "hw_files (remove_replaced_blob E i expected b ?w1) = (case expected of None \<Rightarrow> hw_files w
        | Some p \<Rightarrow> if p = b then hw_files w else snd (blob_remove (he_root E) no_put_faults (hw_files w) i p))"
    using assms(1) by (auto simp: remove_replaced_blob_def call_fs_def run1 Let_def case_prod_beta split: option.split)
  ultimately show ?thesis using sw by blast
qed
lemma swap_backup_result: "swap_backup E i b expected w = Some (Ok x, w') \<Longrightarrow> x = b"
proof -
  assume "swap_backup E i b expected w = Some (Ok x, w')"
  moreover have "swap_backup E i b expected w = Some rw \<Longrightarrow> fst rw = Ok x \<Longrightarrow> x = b" for rw
    by (induction rule: swap_backup.raw_induct [rotated, consumes 1]) (auto split: sum.splits blob_swap.splits prod.splits)
  ultimately show ?thesis by fastforce
qed

text \<open>The first three calls of an upload, up to the exchange of the pointer.\<close>

lemma put_backup_start:
  assumes "faultless E" "parse_account_id account = Ok i" "authorize E headers i w = (Ok (), wa)" "length bs \<le> MAX_BACKUP_BYTES"
    "others_run E wa = wa" "blob_put (he_crypto E) (he_root E) no_put_faults (he_rng E (hw_tick wa)) (hw_files wa) i Backup bs = (Ok b, fs')"
    "wb = next_tick (wa\<lparr>hw_files := fs'\<rparr>)" "pointer E (hw_db (others_run E wb)) i Backup = Ok expected"
  shows "put_backup E account headers bs w = swap_backup E i b expected (next_tick (others_run E wb))"
proof -
  have "call_fs E (\<lambda>flt rng fs. blob_put (he_crypto E) (he_root E) flt rng fs i Backup bs) wa = (Ok b, wb)"
    using assms(1,5,6) by (simp add: call_fs_def Let_def assms(7))
  moreover have "read_db E (\<lambda>flt db. blob_ref_get (he_codecs E) (flt 0) db i Backup) wb = (Ok expected, next_tick (others_run E wb))"
    using assms(1,8) by (simp add: read_db_eq)
  ultimately show ?thesis using assms(2-4) by (simp add: put_backup_def require_size_at_most_def)
qed

lemma put_backup_startE:
  assumes "faultless E" "put_backup (undisturbed E) account headers bs w = Some (Ok x, w')"
  obtains i fs' expected where "parse_account_id account = Ok i" "authorize (undisturbed E) headers i w = (Ok (), next_tick w)"
    "length bs \<le> MAX_BACKUP_BYTES"
    "blob_put (he_crypto E) (he_root E) no_put_faults (he_rng E (Suc (hw_tick w))) (hw_files w) i Backup bs = (Ok x, fs')"
    "pointer E (hw_db w) i Backup = Ok expected"
    "swap_backup (undisturbed E) i x expected (next_tick (next_tick (next_tick w))\<lparr>hw_files := fs'\<rparr>) = Some (Ok x, w')"
proof -
  let ?E = "undisturbed E"
  have idle: "others_run ?E v = v" for v by (rule others_idle) simp
  obtain i where i: "parse_account_id account = Ok i" using assms(2) by (cases "parse_account_id account") (auto simp: put_backup_def)
  obtain b expected wc where first: "tryS (authorize ?E headers i w) (\<lambda>_ w.
          tryE (require_size_at_most (length bs) MAX_BACKUP_BYTES) w (\<lambda>_.
          tryS (call_fs ?E (\<lambda>flt rng fs. blob_put (he_crypto E) (he_root E) flt rng fs i Backup bs) w) (\<lambda>blob w.
          tryS (read_db ?E (\<lambda>flt db. blob_ref_get (he_codecs E) (flt 0) db i Backup) w) (\<lambda>expected w.
          (Ok (blob, expected), w))))) = (Ok (b, expected), wc)" and sw: "swap_backup ?E i b expected wc = Some (Ok x, w')"
    using assms(2) i by (auto simp: put_backup_def split: prod.splits sum.splits)
  note b = swap_backup_result [OF sw]
  from first obtain wa wb where a: "authorize ?E headers i w = (Ok (), wa)" and size: "length bs \<le> MAX_BACKUP_BYTES"
    and put: "call_fs ?E (\<lambda>flt rng fs. blob_put (he_crypto E) (he_root E) flt rng fs i Backup bs) wa = (Ok b, wb)"
    and get: "read_db ?E (\<lambda>flt db. blob_ref_get (he_codecs E) (flt 0) db i Backup) wb = (Ok expected, wc)"
    by (auto simp: result_elims require_size_at_most_def split: if_splits)
  have wa: "wa = next_tick w" using authorize_Ok(2) [OF a] by (simp add: idle)
  obtain r fs' where p: "blob_put (he_crypto E) (he_root E) no_put_faults (he_rng E (Suc (hw_tick w))) (hw_files w) i Backup bs = (r, fs')" by fastforce
  with put assms(1) wa have r: "r = Ok b" "wb = next_tick (next_tick w\<lparr>hw_files := fs'\<rparr>)" by (auto simp: call_fs_def Let_def idle)
  with get assms(1) have g: "pointer E (hw_db w) i Backup = Ok expected" "wc = next_tick wb" by (auto simp: read_db_eq idle)
  have "wc = next_tick (next_tick (next_tick w))\<lparr>hw_files := fs'\<rparr>" by (simp add: g(2) r(2) next_tick_def)
  with that [OF i a [unfolded wa] size p [unfolded r(1) b [symmetric]] g(1)] sw b show thesis by simp
qed
lemma new_blob_ref_differ: "sha256 C X \<noteq> sha256 C Y \<Longrightarrow> new_blob_ref C kind X \<noteq> new_blob_ref C kind Y"
  using parse_hex_pairs_hex [of "sha256 C X"] parse_hex_pairs_hex [of "sha256 C Y"] by (auto simp: new_blob_ref_def sha256_hex_def)

lemma blob_get_None: "blob_get C root no_put_faults fs i b = Ok None \<longleftrightarrow> (\<exists>p. blob_path root i (br_id b) = Ok p \<and> map_of fs p = None)"
  by (auto simp: blob_get_def result_elims split: option.splits if_splits)

lemma blob_remove_file:
  "blob_path root i (br_id c) = Ok p \<Longrightarrow> map_of (snd (blob_remove root no_put_faults fs i c)) q = (if q = p then None else map_of fs q)"
  by (auto simp: blob_remove_def)

lemma blob_remove_get:
  assumes "blob_get C root no_put_faults fs i b = Ok None \<or> b = c" "blob_path root i (br_id c) = Ok p"
  shows "blob_get C root no_put_faults (snd (blob_remove root no_put_faults fs i c)) i b = Ok None"
  using assms blob_remove_file [OF assms(2)] by (auto simp: blob_get_None)

lemma put_existing:
  assumes "blob_get C root no_put_faults fs i (new_blob_ref C kind bs) = Ok (Some bs)"
  shows "blob_put C root no_put_faults rng fs i kind bs = (Ok (new_blob_ref C kind bs), fs)"
proof -
  obtain p where p: "blob_path root i (br_id (new_blob_ref C kind bs)) = Ok p" using new_blob_path by blast
  with assms have "map_of fs p = Some bs" by (auto simp: blob_get_def split: option.splits if_splits)
  with p show ?thesis by (simp add: blob_put_def)
qed

text \<open>What a backup upload that meets no other request and no fault leaves behind.\<close>

lemma put_backup_alone:
  assumes "faultless E" "json_ok (j_blob_ref (he_codecs E))" "put_backup (undisturbed E) account headers bs w = Some (Ok x, w')"
    "parse_account_id account = Ok i" "pointer E (hw_db w) i Backup = Ok (Some p)" "p \<noteq> x"
  shows "x = new_blob_ref (he_crypto E) Backup bs" "pointer E (hw_db w') i Backup = Ok (Some x)"
    "\<exists>fs'. hw_files w' = snd (blob_remove (he_root E) no_put_faults fs' i p)"
proof -
  from put_backup_startE [OF assms(1,3)] obtain fs' where
    put: "blob_put (he_crypto E) (he_root E) no_put_faults (he_rng E (Suc (hw_tick w))) (hw_files w) i Backup bs = (Ok x, fs')"
    and sw: "swap_backup (undisturbed E) i x (Some p) (next_tick (next_tick (next_tick w))\<lparr>hw_files := fs'\<rparr>) = Some (Ok x, w')"
    using assms(4,5) by (metis sum.inject(2))
  show "x = new_blob_ref (he_crypto E) Backup bs" by (rule blob_put_get(1) [OF put])
  obtain w2 where "swap_backup (undisturbed E) i x (Some p) (next_tick (next_tick (next_tick w))\<lparr>hw_files := fs'\<rparr>) = Some (Ok x, w2)"
    "pointer E (hw_db w2) i Backup = Ok (Some x)" "hw_files w2 = snd (blob_remove (he_root E) no_put_faults fs' i p)"
    using swap_backup_idle [of "undisturbed E" "next_tick (next_tick (next_tick w))\<lparr>hw_files := fs'\<rparr>" i "Some p" x] assms(1,2,5,6) by auto
  with sw show "pointer E (hw_db w') i Backup = Ok (Some x)" "\<exists>fs'. hw_files w' = snd (blob_remove (he_root E) no_put_faults fs' i p)" by auto
qed

lemma load_missing:
  assumes "faultless E" "pointer E (hw_db w) i kind = Ok (Some b)" "blob_get (he_crypto E) (he_root E) no_put_faults (hw_files w) i b = Ok None"
  shows "\<exists>w'. load_current_blob (undisturbed E) i kind w = Some (Err api_internal, w')"
proof -
  have idle: "others_run (undisturbed E) v = v" for v by (rule others_idle) simp
  show ?thesis using assms by (subst load_current_blob.simps) (simp add: read_db_eq read_fs_eq idle)
qed

lemma authorize_idle:
  assumes "\<And>s. he_others E (hw_tick w) s = s"
  shows "authorize E headers i w = authorize (undisturbed E) headers i w"
proof -
  have "others_run E w = w" "others_run (undisturbed E) w = w" using assms by (auto intro: others_idle)
  then show ?thesis by (simp add: authorize_def read_db_eq http_now_def del: others_run_simps split: option.split)
qed

section \<open>Sample requests\<close>

definition sample_http :: "i64 \<Rightarrow> http_env" where
  "sample_http now = \<lparr>he_crypto = sample_crypto, he_codecs = sample_registry,
     he_aead = \<lparr>x_encrypt = (\<lambda>k n m a. Some (0 # m)), x_decrypt = (\<lambda>k n c a. case c of [] \<Rightarrow> None | _ # m \<Rightarrow> Some m)\<rparr>,
     he_key = replicate 32 1, he_root = [], he_record = sample_codec s_signed_record, he_claims = sample_claims,
     he_db_fault = (\<lambda>_ _. None), he_fs_fault = (\<lambda>_. no_put_faults), he_mail = (\<lambda>_. Ok ()), he_rng = (\<lambda>_. sample_rng 7),
     he_clock = (\<lambda>_. now), he_others = (\<lambda>_ s. s)\<rparr>"

lemma sample_http_simps [simp]:
  "he_crypto (sample_http now) = sample_crypto" "he_codecs (sample_http now) = sample_registry" "he_root (sample_http now) = []"
  "he_rng (sample_http now) n = sample_rng 7" "he_clock (sample_http now) n = now" "he_others (sample_http now) n s = s"
  "he_db_fault (sample_http now) n = (\<lambda>_. None)"
  "faultless (sample_http now)" "undisturbed (sample_http now) = sample_http now"
  by (simp_all add: sample_http_def faultless_def undisturbed_def)

definition bearer :: "string \<Rightarrow> (string \<times> bytes) list" where
  "bearer token = [(''authorization'', str_bytes (''Bearer '' @ token))]"

lemma bearer_token_bearer: "list_all is_lower_hex token \<Longrightarrow> bearer_token (bearer token) = Some token"
proof -
  assume "list_all is_lower_hex token"
  moreover have "visible_ascii (of_char c)" if "is_lower_hex c" for c
    using that unat_of_char_byte [of c]
    by (auto simp: is_lower_hex_def visible_ascii_def less_eq_char_def word_le_nat_alt word_less_nat_alt)
  ultimately have "list_all visible_ascii (str_bytes (''Bearer '' @ token))"
    by (auto simp: str_bytes_def list_all_iff visible_ascii_def)
  moreover have "bytes_str (str_bytes (''Bearer '' @ token)) = ''Bearer '' @ token" by (rule bytes_str_bytes)
  ultimately show ?thesis by (simp only: bearer_token_def bearer_def) (simp del: append_Cons append_Nil)
qed

lemma create_session_token: "create_session C J flts rng db i now ttl = (Ok t, db') \<Longrightarrow> list_all is_lower_hex (st_token t)"
  by (auto simp: create_session_def random_token_def result_elims Let_def registry_hex_eq hex_lower split: if_splits option.splits)

lemma session_get_blobs [simp]: "session_get J flt (db\<lparr>t_blobs := tables\<rparr>) th = session_get J flt db th"
  by (simp add: session_get_def read_tx_def split: option.split)

lemma sample_parse: "parse_account_id sample_account = Ok sample_account"
  by (simp add: parse_account_id_def account_id_from_str_def sample_account_def list_all_iff is_ascii_hexdigit_def to_ascii_lowercase_def
      less_eq_char_def replicate_eq_replicate)

text \<open>A session of the sample account, and the store that holds it with a backup pointer.\<close>

lemma sample_authorized:
  obtains t db' where "registry_run sample_crypto sample_registry db' [t]" "st_expires_at t = 1900"
    "\<forall>n files mails tables. authorize (sample_http 1500) (bearer (st_token t)) sample_account
       \<lparr>hw_db = db'\<lparr>t_blobs := tables\<rparr>, hw_files = files, hw_mails = mails, hw_tick = n\<rparr>
     = (Ok (), \<lparr>hw_db = db'\<lparr>t_blobs := tables\<rparr>, hw_files = files, hw_mails = mails, hw_tick = Suc n\<rparr>)"
proof -
  obtain t db' where t: "create_session sample_crypto sample_registry (\<lambda>_. None) (sample_rng 7) sample_db sample_account 1000 900 = (Ok t, db')"
    "st_expires_at t = 1900" by (rule sample_session)
  have run0: "registry_run sample_crypto sample_registry sample_db []" by (rule sample_db_run)
  have fresh: "fresh_token sample_crypto (t_session_index sample_db) (sample_rng 7)" by (simp add: fresh_token_def)
  have "registry_step sample_crypto sample_registry sample_db (ok_opt (Ok t :: registry_error + session_token)) db'"
    by (rule step_session [OF _ sample_account_valid fresh t(1)]) simp
  from run_step [OF run0 this] have run: "registry_run sample_crypto sample_registry db' [t]" by simp
  have inv: "registry_inv sample_registry sample_db" using registry_run_inv [OF run0 sample_registry_ok sample_sha_len(1)] by simp
  note st = session_step_inv [OF inv sample_registry_ok _ sample_account_valid fresh t(1), simplified]
  have "account_for_session sample_crypto sample_registry (\<lambda>_. None) db' (st_token t) 1500 = Ok (Some sample_account)"
    using account_for_session_iff(1) [of sample_registry db' "\<lambda>_. None" sample_crypto "st_token t" 1500 sample_account] st t(2)
    by (auto simp: registry_inv_def)
  then have a: "account_for_session sample_crypto sample_registry (\<lambda>_. None) (db'\<lparr>t_blobs := tables\<rparr>) (st_token t) 1500 = Ok (Some sample_account)" for tables
    by (simp add: account_for_session_def)
  show thesis
  proof (rule that [OF run t(2)], intro allI)
    fix n files mails tables
    show "authorize (sample_http 1500) (bearer (st_token t)) sample_account \<lparr>hw_db = db'\<lparr>t_blobs := tables\<rparr>, hw_files = files, hw_mails = mails, hw_tick = n\<rparr>
      = (Ok (), \<lparr>hw_db = db'\<lparr>t_blobs := tables\<rparr>, hw_files = files, hw_mails = mails, hw_tick = Suc n\<rparr>)"
      using a by (simp add: authorize_def bearer_token_bearer [OF create_session_token [OF t(1)]] read_db_eq http_now_def next_tick_def others_run_def)
  qed
qed

lemma put_backup_succeeds:
  assumes "json_ok (j_blob_ref (he_codecs E))" "faultless E" "parse_account_id account = Ok i" "authorize (undisturbed E) headers i w = (Ok (), next_tick w)"
    "length bs \<le> MAX_BACKUP_BYTES" "pointer E (hw_db w) i Backup = Ok expected"
    "blob_put (he_crypto E) (he_root E) no_put_faults (he_rng E (Suc (hw_tick w))) (hw_files w) i Backup bs = (Ok b, fs')"
  shows "\<exists>w'. put_backup (undisturbed E) account headers bs w = Some (Ok b, w')"
proof -
  have idle: "others_run (undisturbed E) v = v" for v by (rule others_idle) simp
  have "put_backup (undisturbed E) account headers bs w
      = swap_backup (undisturbed E) i b expected (next_tick (others_run (undisturbed E) (next_tick (next_tick w\<lparr>hw_files := fs'\<rparr>))))"
    by (rule put_backup_start [OF _ assms(3,4,5)]) (use assms(2,6,7) idle in simp_all)
  moreover have "\<exists>w'. swap_backup (undisturbed E) i b expected (next_tick (others_run (undisturbed E) (next_tick (next_tick w\<lparr>hw_files := fs'\<rparr>)))) = Some (Ok b, w')"
    using swap_backup_idle [of "undisturbed E" "next_tick (next_tick (next_tick w\<lparr>hw_files := fs'\<rparr>))" i expected b] assms(1,2,6)
    by (auto simp: idle)
  ultimately show ?thesis by simp
qed

lemma blob_put_new:
  assumes "blob_path root i (br_id (new_blob_ref C kind bs)) = Ok p" "map_of fs p = None" "random_hex_8 rng = Ok r" "map_of fs (tmp_path p (''tmp-'' @ r)) = None"
  shows "blob_put C root no_put_faults rng fs i kind bs = (Ok (new_blob_ref C kind bs), file_write p bs fs)"
  using assms by (simp add: blob_put_def write_blob_def Let_def)

lemma sample_put_backup:
  obtains t :: session_token and db w' where "put_backup (sample_http 1500) sample_account (bearer (st_token t)) [1]
     \<lparr>hw_db = db\<lparr>t_blobs := []\<rparr>, hw_files = [], hw_mails = [], hw_tick = 0\<rparr> = Some (Ok (new_blob_ref sample_crypto Backup [1]), w')"
proof -
  obtain t db where "registry_run sample_crypto sample_registry db [t]" "st_expires_at t = 1900" and auth: "\<forall>n files mails tables. authorize (sample_http 1500) (bearer (st_token t)) sample_account
       \<lparr>hw_db = db\<lparr>t_blobs := tables\<rparr>, hw_files = files, hw_mails = mails, hw_tick = n\<rparr>
     = (Ok (), \<lparr>hw_db = db\<lparr>t_blobs := tables\<rparr>, hw_files = files, hw_mails = mails, hw_tick = Suc n\<rparr>)" by (rule sample_authorized)
  obtain p where p: "blob_path [] sample_account (br_id (new_blob_ref sample_crypto Backup [1])) = Ok p" using new_blob_path by blast
  have "\<exists>w'. put_backup (undisturbed (sample_http 1500)) sample_account (bearer (st_token t)) [1]
     \<lparr>hw_db = db\<lparr>t_blobs := []\<rparr>, hw_files = [], hw_mails = [], hw_tick = 0\<rparr> = Some (Ok (new_blob_ref sample_crypto Backup [1]), w')"
    by (rule put_backup_succeeds [OF _ _ sample_parse, where expected = None])
      (use auth sample_registry_ok blob_put_new [OF p, of "[]" "sample_rng 7"] in
        \<open>simp_all add: next_tick_def json_codecs_ok_def MAX_BACKUP_BYTES_def blob_ref_get_def read_tx_def get_json_def random_hex_8_def sample_rng_def\<close>)
  with that show thesis by auto
qed

section \<open>Properties of the handlers\<close>

text \<open>
  C14: two uploads can lose the backup (a flaw of the code).  Let \<open>X\<close> be the current backup of an
  account, and let its upload be repeated while a backup \<open>Y\<close> with another digest is uploaded, with
  no fault anywhere.  If the upload of \<open>Y\<close> runs after the repeated upload has found the file of
  \<open>X\<close> in place and before it reads the pointer, then both are answered with success, but the
  pointer names \<open>X\<close> while its file is gone: every authorized download fails with an internal error.
\<close>

theorem concurrent_backups_lose_data:
  assumes "faultless E" "faultless R" "he_crypto R = he_crypto E" "he_root R = he_root E" "he_codecs R = he_codecs E"
    and "json_codecs_ok (he_codecs E)" "sha256 (he_crypto E) X \<noteq> sha256 (he_crypto E) Y"
    and "x = new_blob_ref (he_crypto E) Backup X" "parse_account_id account = Ok i" "pointer E (hw_db w) i Backup = Ok (Some x)"
    and "blob_get (he_crypto E) (he_root E) no_put_faults (hw_files w) i x = Ok (Some X)"
    and "put_backup (undisturbed E) account headers X w = Some (Ok x, w1)"
    and "put_backup (undisturbed R) account headers2 Y (v\<lparr>hw_db := hw_db w, hw_files := hw_files w\<rparr>) = Some (Ok y, w2)"
  shows "\<exists>w3. put_backup (interleaved E (hw_tick w + 2) (rival (put_backup (undisturbed R) account headers2 Y) v)) account headers X w = Some (Ok x, w3)
    \<and> (\<forall>h wa. authorize (undisturbed E) h i w3 = (Ok (), wa) \<longrightarrow> (\<exists>w4. get_backup (undisturbed E) account h w3 = Some (Err api_internal, w4)))"
proof -
  let ?E = "interleaved E (hw_tick w + 2) (rival (put_backup (undisturbed R) account headers2 Y) v)"
  let ?C = "he_crypto E" and ?r = "he_root E"
  have js: "json_ok (j_blob_ref (he_codecs E))" using assms(6) by (simp add: json_codecs_ok_def)
  obtain px where px: "blob_path ?r i (br_id x) = Ok px" using new_blob_path assms(8) by blast
  have xy: "x \<noteq> new_blob_ref ?C Backup Y" using new_blob_ref_differ [OF assms(7)] assms(8) by simp
  have y: "y = new_blob_ref ?C Backup Y"
    by (rule put_backup_startE [OF assms(2,13)]) (use blob_put_get(1) assms(3) in auto)
  note alone = put_backup_alone [OF assms(2) _ assms(13) assms(9), unfolded assms(3,4,5), simplified, OF js assms(10) xy [folded y]]
  have gone: "blob_get ?C ?r no_put_faults (hw_files w2) i x = Ok None"
    using alone(3) blob_remove_get [of ?C ?r _ i x x px] px by auto
  obtain j where j: "parse_account_id account = Ok j" "authorize (undisturbed E) headers j w = (Ok (), next_tick w)"
    and size: "length X \<le> MAX_BACKUP_BYTES" by (rule put_backup_startE [OF assms(1,12)])
  have "undisturbed ?E = undisturbed E" by (simp add: undisturbed_def interleaved_def)
  with j assms(9) have auth: "authorize ?E headers i w = (Ok (), next_tick w)" using authorize_idle [of ?E w headers i] by simp
  have run: "others_run ?E (next_tick w) = next_tick w" by (rule others_idle) simp
  let ?wb = "next_tick (next_tick w)"
  have rival_run: "others_run ?E ?wb = ?wb\<lparr>hw_db := hw_db w2, hw_files := hw_files w2\<rparr>"
    using assms(13) by (simp add: others_run_def rival_def)
  let ?wc = "next_tick (?wb\<lparr>hw_db := hw_db w2, hw_files := hw_files w2\<rparr>)"
  have start: "put_backup ?E account headers X w = swap_backup ?E i x (Some y) ?wc"
    unfolding rival_run [symmetric]
  proof (rule put_backup_start [OF _ assms(9) auth size run])
    show "faultless ?E" using assms(1) by simp
    show "blob_put (he_crypto ?E) (he_root ?E) no_put_faults (he_rng ?E (hw_tick (next_tick w))) (hw_files (next_tick w)) i Backup X = (Ok x, hw_files w)"
      using put_existing [of ?C ?r "hw_files w" i Backup X] assms(8,11) by simp
    show "next_tick (next_tick w) = next_tick (next_tick w\<lparr>hw_files := hw_files w\<rparr>)" by (simp add: next_tick_def)
    show "pointer ?E (hw_db (others_run ?E ?wb)) i Backup = Ok (Some y)" using alone(2) unfolding rival_run by simp
  qed
  have idle: "he_others ?E n s = s" if "n \<ge> hw_tick ?wc" for n s using that by simp
  have "y \<noteq> x" using xy y by simp
  with swap_backup_idle [of ?E ?wc i "Some y" x, OF _ _ _ idle] assms(1) js alone(2)
  obtain w3 where w3: "swap_backup ?E i x (Some y) ?wc = Some (Ok x, w3)" "pointer E (hw_db w3) i Backup = Ok (Some x)"
    "hw_files w3 = snd (blob_remove ?r no_put_faults (hw_files w2) i y)" by auto
  obtain py where py: "blob_path ?r i (br_id y) = Ok py" using new_blob_path y by blast
  have lost: "blob_get ?C ?r no_put_faults (hw_files w3) i x = Ok None"
    unfolding w3(3) by (rule blob_remove_get [OF _ py]) (simp add: gone)
  have "\<exists>w4. get_backup (undisturbed E) account h w3 = Some (Err api_internal, w4)" if "authorize (undisturbed E) h i w3 = (Ok (), wa)" for h wa
  proof -
    have wa: "wa = next_tick w3" using authorize_Ok(2) [OF that] others_idle [of "undisturbed E" w3] by simp
    obtain w4 where "load_current_blob (undisturbed E) i Backup wa = Some (Err api_internal, w4)"
      using load_missing [OF assms(1), of wa i Backup x] w3(2) lost wa by auto
    with that assms(9) show ?thesis by (simp add: get_backup_def)
  qed
  with start w3(1) show ?thesis by (intro exI [of _ w3]) simp
qed

theorem concurrent_backups_lose_data_witness:
  "\<exists>(t :: session_token) w v w3. put_backup (interleaved (sample_http 1500) (hw_tick w + 2)
       (rival (put_backup (sample_http 1500) sample_account (bearer (st_token t)) [2]) v)) sample_account (bearer (st_token t)) [1] w
     = Some (Ok (new_blob_ref sample_crypto Backup [1]), w3)"
proof -
  obtain t db where "registry_run sample_crypto sample_registry db [t]" "st_expires_at t = 1900"
    and a: "\<forall>n files mails tables. authorize (sample_http 1500) (bearer (st_token t)) sample_account
       \<lparr>hw_db = db\<lparr>t_blobs := tables\<rparr>, hw_files = files, hw_mails = mails, hw_tick = n\<rparr>
     = (Ok (), \<lparr>hw_db = db\<lparr>t_blobs := tables\<rparr>, hw_files = files, hw_mails = mails, hw_tick = Suc n\<rparr>)" by (rule sample_authorized)
  then have auth: "authorize (sample_http 1500) (bearer (st_token t)) sample_account
       \<lparr>hw_db = db\<lparr>t_blobs := tables\<rparr>, hw_files = files, hw_mails = mails, hw_tick = n\<rparr>
     = (Ok (), next_tick \<lparr>hw_db = db\<lparr>t_blobs := tables\<rparr>, hw_files = files, hw_mails = mails, hw_tick = n\<rparr>)" for n files mails tables
    by (simp add: next_tick_def)
  let ?E = "sample_http 1500" and ?C = sample_crypto and ?i = sample_account
  let ?x = "new_blob_ref ?C Backup [1]" and ?y = "new_blob_ref ?C Backup [2]"
  obtain px where px: "blob_path [] ?i (br_id ?x) = Ok px" using new_blob_path by blast
  obtain py where py: "blob_path [] ?i (br_id ?y) = Ok py" using new_blob_path by blast
  obtain v where v: "encode_json (j_blob_ref sample_registry) ?x = Ok v" "json_from_slice (j_blob_ref sample_registry) v = Some ?x"
    using json_encode_ok [of "j_blob_ref sample_registry" ?x] sample_registry_ok by (auto simp: json_codecs_ok_def)
  let ?w = "\<lparr>hw_db = db\<lparr>t_blobs := t_insert [] (blob_key ?i Backup) v\<rparr>, hw_files = [(px, [1])], hw_mails = [], hw_tick = 0\<rparr>"
  have digests: "sha256 ?C [1] \<noteq> sha256 ?C [2]" by (simp add: sample_crypto_def)
  have pointer: "pointer ?E (hw_db ?w) ?i Backup = Ok (Some ?x)" using v(2) by (simp add: blob_ref_get_def read_tx_def get_json_Ok)
  have stored: "blob_get ?C [] no_put_faults (hw_files ?w) ?i ?x = Ok (Some [1])" using px by (simp add: blob_get_def)
  have names: "py \<noteq> px" "tmp_path py (''tmp-'' @ registry_hex (replicate 8 7)) \<noteq> px"
    using px py blob_path_inject [of "[]" ?i "br_id ?x" px ?i "br_id ?y"] digests
    by (auto simp: blob_path_def tmp_path_def new_blob_ref_def sha256_hex_def registry_hex_eq sample_crypto_def dest: arg_cong [of _ _ length] split: if_splits)
  have js: "json_ok (j_blob_ref (he_codecs ?E))" using sample_registry_ok by (simp add: json_codecs_ok_def)
  obtain w1 where one: "put_backup (undisturbed ?E) ?i (bearer (st_token t)) [1] ?w = Some (Ok ?x, w1)"
    using put_backup_succeeds [OF js _ sample_parse _ _ pointer, of "bearer (st_token t)" "[1]" ?x "hw_files ?w"] auth put_existing [OF stored, of "sample_rng 7"]
    by (auto simp: MAX_BACKUP_BYTES_def)
  obtain w2 where two: "put_backup (undisturbed ?E) ?i (bearer (st_token t)) [2] ?w = Some (Ok ?y, w2)"
    using put_backup_succeeds [OF js _ sample_parse _ _ pointer, of "bearer (st_token t)" "[2]" ?y "file_write py [2] (hw_files ?w)"] auth
      blob_put_new [OF py, of "hw_files ?w" "sample_rng 7" "registry_hex (replicate 8 7)"] names
    by (auto simp: MAX_BACKUP_BYTES_def random_hex_8_def sample_rng_def)
  have "?w\<lparr>hw_db := hw_db ?w, hw_files := hw_files ?w\<rparr> = ?w" by simp
  with concurrent_backups_lose_data [of ?E ?E "[1]" "[2]" ?x ?i ?i ?w "bearer (st_token t)" w1 "bearer (st_token t)" ?w ?y w2]
    digests pointer stored one two sample_parse sample_registry_ok
  obtain w3 where w3: "put_backup (interleaved ?E (hw_tick ?w + 2) (rival (put_backup ?E ?i (bearer (st_token t)) [2]) ?w)) ?i (bearer (st_token t)) [1] ?w
    = Some (Ok ?x, w3)" by auto
  show ?thesis by (rule exI [of _ t], rule exI [of _ ?w], rule exI [of _ ?w], rule exI [of _ w3], rule w3)
qed

text \<open>
  C17: account requests need the account's own current session.  Whatever other requests, faults and
  clock readings there are, unless the bearer token is that of the latest session issued for
  the account of the path and that session has not expired, each of the five account requests (store
  and read the backup, store and read the recovery secret, publish the record) is answered with the
  same error, with no effect of its own on the store, the files or the mails.
\<close>

theorem http_requires_session:
  assumes "json_codecs_ok (he_codecs E)" "sha256_len (he_crypto E)"
    and "registry_run (he_crypto E) (he_codecs E) (hw_db (others_run E w)) log"
    and "\<not> has_session E log account headers (http_now E w)"
  shows "\<exists>e w'. (w' = w \<or> w' = next_tick (others_run E w))
    \<and> put_backup E account headers bs w = Some (Err e, w') \<and> get_backup E account headers w = Some (Err e, w')
    \<and> put_recovery E account headers bs w = Some (Err e, w') \<and> get_recovery E account headers w = Some (Err e, w')
    \<and> put_public_record E account headers bs w = Some (Err e, w')"
proof (cases "parse_account_id account")
  case (Inl e)
  then show ?thesis by (intro exI [of _ e] exI [of _ w])
    (simp add: put_backup_def get_backup_def put_recovery_def get_recovery_def put_public_record_def)
next
  case (Inr i)
  have "fst (authorize E headers i w) \<noteq> Ok ()"
  proof
    assume "fst (authorize E headers i w) = Ok ()"
    then have "authorize E headers i w = (Ok (), snd (authorize E headers i w))" by (metis prod.collapse)
    from authorize_Ok(1) [OF this] account_for_session_latest [OF assms(1-3)] Inr assms(4)
    show False unfolding has_session_def by blast
  qed
  then obtain e w' where a: "authorize E headers i w = (Err e, w')"
    by (cases "authorize E headers i w"; cases "fst (authorize E headers i w)") auto
  then have "w' = w \<or> w' = next_tick (others_run E w)" using authorize_state [of E headers i w] by auto
  with a Inr show ?thesis by (intro exI [of _ e] exI [of _ w'])
    (simp add: put_backup_def get_backup_def put_recovery_def get_recovery_def put_public_record_def)
qed
theorem http_requires_session_witness:
  "\<exists>t db e w'. st_expires_at t = 1900 \<and> registry_run sample_crypto sample_registry db [t]
     \<and> put_backup (sample_http 1900) sample_account (bearer (st_token t)) [1]
         \<lparr>hw_db = db, hw_files = [], hw_mails = [], hw_tick = 0\<rparr> = Some (Err e, w')"
proof -
  obtain t db where t: "registry_run sample_crypto sample_registry db [t]" "st_expires_at t = 1900" by (rule sample_authorized)
  let ?w = "\<lparr>hw_db = db, hw_files = [], hw_mails = [], hw_tick = 0\<rparr>"
  have "latest_session [t] i = Some s \<Longrightarrow> s = t" for i s by (simp add: latest_session_def split: if_splits)
  then have "\<not> has_session (sample_http 1900) [t] sample_account (bearer (st_token t)) 1900" using t(2) unfolding has_session_def by (metis less_irrefl)
  with t show ?thesis
    using http_requires_session [of "sample_http 1900" ?w "[t]" sample_account "bearer (st_token t)" "[1]"]
    by (auto simp: sample_registry_ok sample_sha_len http_now_def)
qed

text \<open>
  C25: what any request may do to an account.  If everything other requests do in between
  keeps to the relation above, so does every request, whatever faults occur: an account's recovery
  identity is set once, with a valid wallet key, and never replaced; and its public record only
  moves to a verified record of that identity that does not roll back the valid record it replaces,
  with the record's user id bound to the account.
\<close>

theorem requests_keep_account:
  assumes "json_codecs_ok (he_codecs E)" "valid_account i" "others_evolve E i" "serve E q w = Some (res, w')"
  shows "account_evolves E i (hw_db w) (hw_db w')
    \<and> (\<forall>recovery. pointer E (hw_db w) i Recovery = Ok (Some recovery) \<longrightarrow> pointer E (hw_db w') i Recovery = Ok (Some recovery))"
proof -
  have "length i = 32" using assms(2) by (simp add: valid_account_def)
  moreover have "json_ok (j_blob_ref (he_codecs E))" using assms(1) by (simp add: json_codecs_ok_def)
  ultimately have "account_evolves E i (hw_db w) (hw_db w')" using serve_evolves [OF assms(3)] assms(4) by (fastforce simp: handler_evolves_def)
  with recovery_pointer_kept show ?thesis by blast
qed

theorem requests_keep_account_witness:
  "\<exists>(t :: session_token) db w'. serve (sample_http 1500) (PutBackup sample_account (bearer (st_token t)) [1])
       \<lparr>hw_db = db, hw_files = [], hw_mails = [], hw_tick = 0\<rparr> = Some (Ok (Stored (new_blob_ref sample_crypto Backup [1])), w')
     \<and> account_evolves (sample_http 1500) sample_account db (hw_db w')"
proof -
  obtain t :: session_token and db w' where put: "put_backup (sample_http 1500) sample_account (bearer (st_token t)) [1]
       \<lparr>hw_db = db\<lparr>t_blobs := []\<rparr>, hw_files = [], hw_mails = [], hw_tick = 0\<rparr> = Some (Ok (new_blob_ref sample_crypto Backup [1]), w')"
    by (rule sample_put_backup)
  let ?w = "\<lparr>hw_db = db\<lparr>t_blobs := []\<rparr>, hw_files = [], hw_mails = [], hw_tick = 0\<rparr>"
  have s: "serve (sample_http 1500) (PutBackup sample_account (bearer (st_token t)) [1]) ?w = Some (Ok (Stored (new_blob_ref sample_crypto Backup [1])), w')"
    using put by (simp add: serve_def respond_def)
  have "account_evolves (sample_http 1500) sample_account (db\<lparr>t_blobs := []\<rparr>) (hw_db w')"
    using requests_keep_account [OF _ sample_account_valid _ s] by (simp add: sample_registry_ok)
  with s show ?thesis by blast
qed

end
