(* ===== verification/Client.thy ===== *)
theory Client
  imports Flow Safety
begin

text \<open>
  The headless client (\<open>mycellium-client/src/lib.rs\<close>): what the native shells call.  It combines the
  engine's stores into operations on records, contacts, drafts, transcripts, verification, groups
  and the outbox, over the local record book as the only directory.

  \<open>str::to_lowercase\<close> of the transcript search follows the Unicode tables and is the argument \<open>lower\<close>.
  Functions of the source that only forward to the engine have no definition of their own here.
\<close>

record client_codecs =
  k_flow :: flow_codecs
  k_outbox :: outbox_codecs
  k_inbox :: inbox_codecs
  k_blocked :: "string list codec"
  k_draft :: "string codec"
  k_expiry :: "u64 codec"
  k_item :: "mail_item codec"
  k_frame :: "peer_frame codec"
  k_ack :: ack_codec

abbreviation k_book :: "client_codecs \<Rightarrow> peerbook_codecs" where "k_book K \<equiv> fc_book (k_flow K)"
abbreviation k_claims :: "client_codecs \<Rightarrow> claim_codecs" where "k_claims K \<equiv> fc_claims (k_flow K)"
abbreviation k_contacts :: "client_codecs \<Rightarrow> contact_codecs" where "k_contacts K \<equiv> fc_contacts (k_flow K)"
abbreviation k_history :: "client_codecs \<Rightarrow> history_codecs" where "k_history K \<equiv> fc_history (k_flow K)"
abbreviation k_groups :: "client_codecs \<Rightarrow> group_codecs" where "k_groups K \<equiv> fc_groups (k_flow K)"

section \<open>Identity and the own record\<close>

record identity_info =
  ii_wallet :: bytes
  ii_device :: bytes
  ii_messaging :: bytes

definition identity_info_of :: "crypto \<Rightarrow> identity \<Rightarrow> identity_info" where
  "identity_info_of C identity =
     \<lparr>ii_wallet = wallet_public C identity, ii_device = device_public C identity, ii_messaging = messaging_public C identity\<rparr>"

definition own_user_id :: "crypto \<Rightarrow> identity \<Rightarrow> user_id" where
  "own_user_id C identity = user_id_from_wallet C (wallet_public C identity)"

definition is_current_device :: "crypto \<Rightarrow> claim_codecs \<Rightarrow> identity \<Rightarrow> signed_record \<Rightarrow> bool" where
  "is_current_device C K identity r \<longleftrightarrow> is_ok (signed_record_verify C K r) \<and> rec_user_id (s_record r) = own_user_id C identity
     \<and> rec_wallet (s_record r) = wallet_public C identity \<and> device_key (rec_device (s_record r)) = device_public C identity"

definition reusable_own_record :: "crypto \<Rightarrow> claim_codecs \<Rightarrow> identity \<Rightarrow> handle \<Rightarrow> signed_record option \<Rightarrow> any_error + signed_record option" where
  "reusable_own_record C K identity h existing = (case existing of
      None \<Rightarrow> Ok None
    | Some r \<Rightarrow>
        tryR (map_err (\<lambda>_. AnyMsg (''local record for '' @ quoted h @ '' failed verification; run `record remove '' @ h
          @ ''` before registering it here'')) (signed_record_verify C K r)) (\<lambda>_.
        if rec_wallet (s_record r) \<noteq> wallet_public C identity
        then Err (AnyMsg (''local record for '' @ quoted h @ '' belongs to a different wallet; run `record remove '' @ h
          @ ''` before registering it here''))
        else Ok (Some r)))"

definition active_device :: "crypto \<Rightarrow> claim_codecs \<Rightarrow> identity \<Rightarrow> u64 \<Rightarrow> signed_record option \<Rightarrow> any_error + device" where
  "active_device C K identity now existing = (case existing of
      Some r \<Rightarrow>
        let d = rec_device (s_record r) in
        if device_key d = device_public C identity then
          (if device_reticulum d = reticulum_public C identity then Ok d
           else map_err (\<lambda>_. AnyMsg ''could not sign Reticulum destination'')
             (refresh_reticulum C K d identity (max now (saturating_add (rr_seq (sr_record (dev_reachability d))) 1))))
        else Ok (this_device C K identity now)
    | None \<Rightarrow> Ok (this_device C K identity now))"

definition active_record ::
    "crypto \<Rightarrow> claim_codecs \<Rightarrow> platform \<Rightarrow> identity \<Rightarrow> handle \<Rightarrow> string \<Rightarrow> device \<Rightarrow> signed_record option \<Rightarrow> signed_record \<times> platform" where
  "active_record C K p identity h name d existing =
     (let rebuilt = with_device C K p identity h name d (case existing of Some r \<Rightarrow> rec_seq (s_record r) | None \<Rightarrow> 0) in
      case existing of
        Some r \<Rightarrow> if device_key (rec_device (s_record r)) = device_key d \<and> rec_handle (s_record r) = h \<and> rec_name (s_record r) = name
          then (r\<lparr>s_record := (s_record r)\<lparr>rec_device := d\<rparr>\<rparr>, p) else rebuilt
      | None \<Rightarrow> rebuilt)"

definition publish_active_device_record ::
    "'s storage \<Rightarrow> crypto \<Rightarrow> peerbook_codecs \<Rightarrow> 's \<Rightarrow> platform \<Rightarrow> identity \<Rightarrow> handle \<Rightarrow> string \<Rightarrow> (any_error + signed_record) \<times> 's \<times> platform" where
  "publish_active_device_record S C B st p identity h name =
     (let K = c_book_claims B in
      tryE (peerbook_get_by_user_id S B st (own_user_id C identity)) (st, p) (\<lambda>found.
      tryE (reusable_own_record C K identity h found) (st, p) (\<lambda>existing.
      let (now, p) = now_unix_secs p in
      tryE (active_device C K identity now existing) (st, p) (\<lambda>d.
      let (signed, p) = active_record C K p identity h name d existing;
          (saved, st) = peerbook_put S C B st h signed
      in tryE saved (st, p) (\<lambda>_. (Ok signed, st, p))))))"

section \<open>Records\<close>

definition require_record :: "'s storage \<Rightarrow> peerbook_codecs \<Rightarrow> 's \<Rightarrow> handle \<Rightarrow> any_error + signed_record" where
  "require_record S B st h = tryR (peerbook_get S B st h) (ok_or (AnyMsg (''no local record for '' @ quoted h)))"

definition require_own_record :: "'s storage \<Rightarrow> peerbook_codecs \<Rightarrow> 's \<Rightarrow> handle \<Rightarrow> any_error + signed_record" where
  "require_own_record S B st h = tryR (peerbook_get S B st h)
     (ok_or (AnyMsg (''no local signed record for '' @ quoted h @ '' '' @ em_dash @ '' create a profile first'')))"

definition require_own_record_for_identity ::
    "'s storage \<Rightarrow> crypto \<Rightarrow> peerbook_codecs \<Rightarrow> 's \<Rightarrow> identity \<Rightarrow> handle \<Rightarrow> any_error + signed_record" where
  "require_own_record_for_identity S C B st identity h =
     tryR (peerbook_get_by_user_id S B st (own_user_id C identity)) (\<lambda>found.
     tryR (ok_or (AnyMsg (''no local signed record for '' @ quoted h @ '' '' @ em_dash @ '' register this device first'')) found) (\<lambda>r.
     if rec_handle (s_record r) \<noteq> h \<or> rec_wallet (s_record r) \<noteq> wallet_public C identity
     then Err (AnyMsg ''the active local record does not match this account'') else Ok r))"

definition apply_registry_record ::
    "'s storage \<Rightarrow> crypto \<Rightarrow> peerbook_codecs \<Rightarrow> 's \<Rightarrow> string \<Rightarrow> signed_record \<Rightarrow> (any_error + bool) \<times> 's" where
  "apply_registry_record S C B st expected_user_id r =
     tryE (map_err (\<lambda>_. AnyMsg ''invalid user id'') (user_id_new expected_user_id)) st (\<lambda>expected.
     tryE (peerbook_get_by_user_id S B st expected) st (\<lambda>found.
     if found = None then (Err (AnyMsg ''cannot refresh an unknown person''), st)
     else if rec_user_id (s_record r) \<noteq> expected then (Err (AnyMsg ''registry returned a record for another person''), st)
     else tryS (peerbook_put S C B st (rec_handle (s_record r)) r) (\<lambda>_ st. (Ok True, st))))"

text \<open>\<open>fetch\<close> is the registry's answer for a user id.\<close>

definition refresh_registry_record ::
    "'s storage \<Rightarrow> crypto \<Rightarrow> peerbook_codecs \<Rightarrow> 's \<Rightarrow> (string \<Rightarrow> any_error + signed_record option) \<Rightarrow> string \<Rightarrow> (any_error + bool) \<times> 's" where
  "refresh_registry_record S C B st fetch uid =
     tryE (map_err (\<lambda>_. AnyMsg ''invalid user id'') (user_id_new uid)) st (\<lambda>uid.
     tryE (peerbook_get_by_user_id S B st uid) st (\<lambda>found.
     if found = None then (Err (AnyMsg ''cannot refresh an unknown person''), st)
     else tryE (fetch uid) st (\<lambda>fetched. case fetched of
         None \<Rightarrow> (Ok False, st)
       | Some r \<Rightarrow> apply_registry_record S C B st uid r)))"

definition remove_record :: "'s storage \<Rightarrow> peerbook_codecs \<Rightarrow> 's \<Rightarrow> handle \<Rightarrow> (any_error + bool) \<times> 's" where
  "remove_record S B st h =
     tryE (peerbook_get S B st h) st (\<lambda>found.
     tryS (peerbook_remove S B st h) (\<lambda>removed st. case found of
         Some r \<Rightarrow> if removed
           then tryS (map_errS AnyIo (antirollback_clear S st (rec_user_id (s_record r)))) (\<lambda>_ st. (Ok removed, st))
           else (Ok removed, st)
       | None \<Rightarrow> (Ok removed, st)))"

text \<open>The directory of the client: its own record book.\<close>

definition local_lookup :: "peer_entry list \<Rightarrow> handle \<Rightarrow> any_error + signed_record" where
  "local_lookup records h = (case filter (\<lambda>e. pe_handle e = h) records of
      [e] \<Rightarrow> Ok (pe_record e)
    | [] \<Rightarrow> Err (AnyMsg (''no local record for '' @ quoted h))
    | _ \<Rightarrow> Err (AnyMsg (''more than one person uses '' @ quoted h @ ''; choose a saved contact'')))"

definition local_lookup_user_id :: "peer_entry list \<Rightarrow> user_id \<Rightarrow> any_error + signed_record" where
  "local_lookup_user_id records uid =
     ok_or (AnyMsg (''no local record for user '' @ quoted uid)) (map_option pe_record (List.find (\<lambda>e. pe_user_id e = uid) records))"

definition local_net :: "peer_entry list \<Rightarrow> flow_net" where
  "local_net records = \<lparr>net_lookup = local_lookup records, net_lookup_user_id = local_lookup_user_id records\<rparr>"

definition local_net_load :: "'s storage \<Rightarrow> peerbook_codecs \<Rightarrow> 's \<Rightarrow> any_error + flow_net" where
  "local_net_load S B st = tryR (peerbook_load S B st) (\<lambda>records. Ok (local_net records))"

definition resolve_user_record ::
    "'s storage \<Rightarrow> crypto \<Rightarrow> flow_codecs \<Rightarrow> 's \<Rightarrow> string \<Rightarrow> (trust_error + (handle \<times> signed_record)) \<times> 's" where
  "resolve_user_record S C F st uid =
     tryE (map_err (\<lambda>_. BadHandle) (user_id_new uid)) st (\<lambda>uid.
     tryE (map_err (\<lambda>_. BadHandle) (peerbook_get_by_user_id S (fc_book F) st uid)) st (\<lambda>found.
     tryE (ok_or BadHandle found) st (\<lambda>r.
     tryE (map_err (\<lambda>_. UnverifiedRecord) (signed_record_verify C (fc_claims F) r)) st (\<lambda>_.
     if rec_user_id (s_record r) \<noteq> uid then (Err UnverifiedRecord, st)
     else if verified_level S (fc_verified F) (fc_contacts F) st (rec_user_id (s_record r)) (rec_wallet (s_record r)) = Changed
     then (Err IdentityChanged, st)
     else tryS (map_errS (\<lambda>_. StaleRecord) (check_and_pin S C (fc_pins F) st (rec_user_id (s_record r)) r)) (\<lambda>fresh st.
       if \<not> fresh then (Err StaleRecord, st) else (Ok (rec_handle (s_record r), r), st))))))"

definition resolve_local_record ::
    "'s storage \<Rightarrow> crypto \<Rightarrow> flow_codecs \<Rightarrow> 's \<Rightarrow> string \<Rightarrow> (trust_error + (handle \<times> signed_record)) \<times> 's" where
  "resolve_local_record S C F st input = (case user_id_new input of
      Ok uid \<Rightarrow> resolve_user_record S C F st uid
    | Err _ \<Rightarrow> (case contacts_load S (fc_contacts F) st input of
          Ok (Some ct) \<Rightarrow>
            if ct_user_id ct \<noteq> [] then resolve_user_record S C F st (ct_user_id ct)
            else tryE (map_err (\<lambda>_. BadHandle) (local_net_load S (fc_book F) st)) st (\<lambda>net. resolve_record S C F st net (ct_handle ct))
        | _ \<Rightarrow> tryE (map_err (\<lambda>_. BadHandle) (local_net_load S (fc_book F) st)) st (\<lambda>net. resolve_record S C F st net input)))"
section \<open>Contacts and settings\<close>

record contact_entry =
  ce_nickname :: string
  ce_handle :: string
  ce_user_id :: string
  ce_verified :: bool

definition save_contact_for_record ::
    "'s storage \<Rightarrow> contact_codecs \<Rightarrow> 's \<Rightarrow> string \<Rightarrow> signed_record \<Rightarrow> (any_error + unit) \<times> 's" where
  "save_contact_for_record S c st nick r =
     (if str_trim nick = [] then (Err (AnyMsg ''enter a name for this contact''), st)
      else tryE (contacts_load S c st nick) st (\<lambda>existing.
        if (case existing of Some ct \<Rightarrow> ct_user_id ct \<noteq> rec_user_id (s_record r) | None \<Rightarrow> False)
        then (Err (AnyMsg (''the name '' @ quoted nick @ '' is already used by another person'')), st)
        else contacts_save S c st \<lparr>nickname = nick, ct_handle = rec_handle (s_record r), ct_user_id = rec_user_id (s_record r),
          ct_wallet = rec_wallet (s_record r)\<rparr>))"

definition add_contact :: "'s storage \<Rightarrow> client_codecs \<Rightarrow> 's \<Rightarrow> string \<Rightarrow> handle \<Rightarrow> (any_error + unit) \<times> 's" where
  "add_contact S K st nick h =
     tryE (map_err (\<lambda>_. AnyMsg (''import a signed record for '' @ quoted h @ '' first'')) (require_record S (k_book K) st h)) st (\<lambda>r.
     save_contact_for_record S (k_contacts K) st nick r)"

definition add_contact_from_record ::
    "'s storage \<Rightarrow> crypto \<Rightarrow> client_codecs \<Rightarrow> 's \<Rightarrow> string \<Rightarrow> signed_record \<Rightarrow> (any_error + unit) \<times> 's" where
  "add_contact_from_record S C K st nick r =
     tryS (peerbook_put S C (k_book K) st (rec_handle (s_record r)) r) (\<lambda>_ st.
     save_contact_for_record S (k_contacts K) st nick r)"

definition list_contacts :: "'s storage \<Rightarrow> client_codecs \<Rightarrow> 's \<Rightarrow> any_error + contact_entry list" where
  "list_contacts S K st = tryR (contacts_list S (k_contacts K) st) (\<lambda>cts. Ok (map (\<lambda>ct.
     \<lparr>ce_nickname = nickname ct, ce_handle = ct_handle ct, ce_user_id = ct_user_id ct,
      ce_verified = (verified_get S (fc_verified (k_flow K)) st (ct_user_id ct) = Ok (Some (ct_wallet ct)))\<rparr>) cts))"

definition set_blocked :: "'s storage \<Rightarrow> string list codec \<Rightarrow> 's \<Rightarrow> string \<Rightarrow> bool \<Rightarrow> (any_error + unit) \<times> 's" where
  "set_blocked S c st uid blocked = (if blocked then block S c st uid else unblock S c st uid)"

definition set_draft :: "'s storage \<Rightarrow> client_codecs \<Rightarrow> 's \<Rightarrow> string \<Rightarrow> string \<Rightarrow> (any_error + string) \<times> 's" where
  "set_draft S K st input text = tryE (contacts_resolve S (k_contacts K) st input) st (\<lambda>key.
     tryS (draft_set S (k_draft K) st key text) (\<lambda>_ st. (Ok key, st)))"

definition get_draft :: "'s storage \<Rightarrow> client_codecs \<Rightarrow> 's \<Rightarrow> string \<Rightarrow> any_error + (string \<times> string option)" where
  "get_draft S K st input = tryR (contacts_resolve S (k_contacts K) st input) (\<lambda>key.
     tryR (draft_get S (k_draft K) st key) (\<lambda>v. Ok (key, v)))"

definition clear_draft :: "'s storage \<Rightarrow> client_codecs \<Rightarrow> 's \<Rightarrow> string \<Rightarrow> (any_error + string) \<times> 's" where
  "clear_draft S K st input = tryE (contacts_resolve S (k_contacts K) st input) st (\<lambda>key.
     tryS (draft_clear S st key) (\<lambda>_ st. (Ok key, st)))"

definition set_expiry :: "'s storage \<Rightarrow> client_codecs \<Rightarrow> 's \<Rightarrow> string \<Rightarrow> u64 \<Rightarrow> (any_error + string) \<times> 's" where
  "set_expiry S K st input ttl_secs = tryE (contacts_resolve S (k_contacts K) st input) st (\<lambda>key.
     tryS (expiry_set S (k_expiry K) st key ttl_secs) (\<lambda>_ st. (Ok key, st)))"

definition get_expiry :: "'s storage \<Rightarrow> client_codecs \<Rightarrow> 's \<Rightarrow> string \<Rightarrow> any_error + (string \<times> u64 option)" where
  "get_expiry S K st input = tryR (contacts_resolve S (k_contacts K) st input) (\<lambda>key.
     tryR (expiry_get S (k_expiry K) st key) (\<lambda>v. Ok (key, v)))"

definition clear_expiry :: "'s storage \<Rightarrow> client_codecs \<Rightarrow> 's \<Rightarrow> string \<Rightarrow> (any_error + string) \<times> 's" where
  "clear_expiry S K st input = tryE (contacts_resolve S (k_contacts K) st input) st (\<lambda>key.
     tryS (expiry_clear S st key) (\<lambda>_ st. (Ok key, st)))"

section \<open>Transcripts\<close>

record conversation_preview =
  cp_user_id :: string
  cp_peer :: string
  cp_display_name :: string
  cp_from_me :: bool
  cp_text :: string
  cp_timestamp :: u64

record search_hit =
  sh_user_id :: string
  sh_peer :: string
  sh_display_name :: string
  sh_from_me :: bool
  sh_text :: string

definition conversation_user_id :: "'s storage \<Rightarrow> client_codecs \<Rightarrow> 's \<Rightarrow> string \<Rightarrow> any_error + string" where
  "conversation_user_id S K st input =
     (let input = str_trim input;
          in_book = tryR (peerbook_load S (k_book K) st) (\<lambda>records. case filter (\<lambda>e. pe_handle e = input) records of
              [e] \<Rightarrow> Ok (pe_user_id e)
            | [] \<Rightarrow> Err (AnyMsg (''no signed record for '' @ quoted input))
            | _ \<Rightarrow> Err (AnyMsg (''more than one person uses '' @ quoted input @ ''; choose a saved contact'')))
      in case user_id_new input of
           Ok uid \<Rightarrow> Ok uid
         | Err _ \<Rightarrow> tryR (contacts_load S (k_contacts K) st input) (\<lambda>found. case found of
             Some ct \<Rightarrow> if ct_user_id ct \<noteq> [] then Ok (ct_user_id ct) else in_book
           | None \<Rightarrow> in_book))"

definition conversation_label :: "'s storage \<Rightarrow> client_codecs \<Rightarrow> 's \<Rightarrow> string \<Rightarrow> any_error + (string \<times> string)" where
  "conversation_label S K st uid = tryR (by_user_id S (k_contacts K) st uid) (\<lambda>found. case found of
      Some ct \<Rightarrow> Ok (ct_handle ct, nickname ct)
    | None \<Rightarrow>
        tryR (map_err (\<lambda>_. AnyMsg ''invalid conversation identity'') (user_id_new uid)) (\<lambda>uid.
        tryR (peerbook_get_by_user_id S (k_book K) st uid) (\<lambda>r.
        tryR (ok_or (AnyMsg ''missing signed record for conversation'') r) (\<lambda>r.
        Ok (rec_handle (s_record r), if str_trim (rec_name (s_record r)) = [] then rec_handle (s_record r) else rec_name (s_record r))))))"

definition clear_history :: "'s storage \<Rightarrow> client_codecs \<Rightarrow> 's \<Rightarrow> string \<Rightarrow> (any_error + string) \<times> 's" where
  "clear_history S K st input = tryE (conversation_user_id S K st input) st (\<lambda>key.
     tryS (history_clear S (k_history K) st key) (\<lambda>_ st. (Ok key, st)))"

definition history_with :: "'s storage \<Rightarrow> client_codecs \<Rightarrow> 's \<Rightarrow> string \<Rightarrow> u64 \<Rightarrow> (any_error + (string \<times> stored_message list)) \<times> 's" where
  "history_with S K st input now = tryE (conversation_user_id S K st input) st (\<lambda>key.
     tryS (history_load_active S (k_history K) st key now) (\<lambda>messages st. (Ok (key, messages), st)))"

fun collect_conversations ::
    "'s storage \<Rightarrow> client_codecs \<Rightarrow> 's \<Rightarrow> u64 \<Rightarrow> string list \<Rightarrow> conversation_preview list \<Rightarrow> (any_error + conversation_preview list) \<times> 's" where
  "collect_conversations S K st now [] out = (Ok out, st)"
| "collect_conversations S K st now (uid # uids) out =
     tryS (history_load_active S (k_history K) st uid now) (\<lambda>messages st.
     if messages = [] then collect_conversations S K st now uids out
     else tryE (conversation_label S K st uid) st (\<lambda>(peer, display_name).
       let m = last messages in
       collect_conversations S K st now uids (out @ [\<lparr>cp_user_id = uid, cp_peer = peer, cp_display_name = display_name,
         cp_from_me = sm_from_me m, cp_text = sm_text m, cp_timestamp = sm_timestamp m\<rparr>])))"

text \<open>A stable sort by descending time.\<close>

definition newest_first :: "conversation_preview list \<Rightarrow> conversation_preview list" where
  "newest_first cs = rev (sort_key cp_timestamp (rev cs))"

definition conversations :: "'s storage \<Rightarrow> client_codecs \<Rightarrow> 's \<Rightarrow> u64 \<Rightarrow> (any_error + conversation_preview list) \<times> 's" where
  "conversations S K st now = tryE (history_peers S (k_history K) st) st (\<lambda>uids.
     tryS (collect_conversations S K st now uids []) (\<lambda>out st. (Ok (newest_first out), st)))"

fun str_contains :: "string \<Rightarrow> string \<Rightarrow> bool" where
  "str_contains [] needle \<longleftrightarrow> needle = []"
| "str_contains (c # s) needle \<longleftrightarrow> starts_with (c # s) needle \<or> str_contains s needle"

fun collect_hits ::
    "(string \<Rightarrow> string) \<Rightarrow> 's storage \<Rightarrow> client_codecs \<Rightarrow> 's \<Rightarrow> string \<Rightarrow> u64 \<Rightarrow> string list \<Rightarrow> search_hit list \<Rightarrow> (any_error + search_hit list) \<times> 's" where
  "collect_hits lower S K st needle now [] hits = (Ok hits, st)"
| "collect_hits lower S K st needle now (uid # uids) hits =
     tryE (conversation_label S K st uid) st (\<lambda>(peer, display_name).
     tryS (history_load_active S (k_history K) st uid now) (\<lambda>messages st.
     collect_hits lower S K st needle now uids (hits @ map (\<lambda>m. \<lparr>sh_user_id = uid, sh_peer = peer, sh_display_name = display_name,
       sh_from_me = sm_from_me m, sh_text = sm_text m\<rparr>) (filter (\<lambda>m. str_contains (lower (sm_text m)) needle) messages))))"

definition search_history ::
    "(string \<Rightarrow> string) \<Rightarrow> 's storage \<Rightarrow> client_codecs \<Rightarrow> 's \<Rightarrow> string \<Rightarrow> u64 \<Rightarrow> (any_error + search_hit list) \<times> 's" where
  "search_history lower S K st query now = tryE (history_peers S (k_history K) st) st (\<lambda>uids.
     collect_hits lower S K st (lower query) now uids [])"

section \<open>Verification\<close>

record verification_info =
  vi_user_id :: string
  vi_handle :: string
  vi_wallet :: wallet_public_key
  vi_safety_number :: string
  vi_level :: trust_level

definition verification_info_for_record ::
    "'s storage \<Rightarrow> crypto \<Rightarrow> flow_codecs \<Rightarrow> 's \<Rightarrow> identity \<Rightarrow> handle \<Rightarrow> signed_record \<Rightarrow> verification_info" where
  "verification_info_for_record S C F st identity h r =
     \<lparr>vi_user_id = rec_user_id (s_record r), vi_handle = h, vi_wallet = rec_wallet (s_record r),
      vi_safety_number = safety_number C (wallet_public C identity) (rec_wallet (s_record r)),
      vi_level = verified_level S (fc_verified F) (fc_contacts F) st (rec_user_id (s_record r)) (rec_wallet (s_record r))\<rparr>"

definition get_verification_info ::
    "'s storage \<Rightarrow> crypto \<Rightarrow> flow_codecs \<Rightarrow> 's \<Rightarrow> identity \<Rightarrow> handle \<Rightarrow> any_error + verification_info" where
  "get_verification_info S C F st identity h = tryR (require_record S (fc_book F) st h) (\<lambda>r.
     tryR (map_err (\<lambda>_. AnyMsg ''peer record failed verification'') (signed_record_verify C (fc_claims F) r)) (\<lambda>_.
     Ok (verification_info_for_record S C F st identity h r)))"

definition mark_verified :: "'s storage \<Rightarrow> flow_codecs \<Rightarrow> 's \<Rightarrow> verification_info \<Rightarrow> (any_error + unit) \<times> 's" where
  "mark_verified S F st info =
     (if vi_level info = Changed
      then (Err (AnyMsg (''identity changed for '' @ quoted (vi_handle info)
        @ ''; compare the new safety number and use --accept-change explicitly'')), st)
      else verified_mark S (fc_verified F) st (vi_user_id info) (vi_wallet info))"

fun repin_contacts :: "'s storage \<Rightarrow> contact_codecs \<Rightarrow> 's \<Rightarrow> verification_info \<Rightarrow> contact list \<Rightarrow> (any_error + unit) \<times> 's" where
  "repin_contacts S c st info [] = (Ok (), st)"
| "repin_contacts S c st info (ct # cts) =
     (if ct_user_id ct = vi_user_id info
      then tryS (contacts_save S c st (ct\<lparr>ct_wallet := vi_wallet info\<rparr>)) (\<lambda>_ st. repin_contacts S c st info cts)
      else repin_contacts S c st info cts)"

definition accept_identity_change :: "'s storage \<Rightarrow> flow_codecs \<Rightarrow> 's \<Rightarrow> verification_info \<Rightarrow> (any_error + unit) \<times> 's" where
  "accept_identity_change S F st info =
     (if vi_level info \<noteq> Changed then (Err (AnyMsg (quoted (vi_handle info) @ '' has no changed identity to accept'')), st)
      else tryS (verified_mark S (fc_verified F) st (vi_user_id info) (vi_wallet info)) (\<lambda>_ st.
        tryE (contacts_list S (fc_contacts F) st) st (\<lambda>cts. repin_contacts S (fc_contacts F) st info cts)))"
section \<open>Messages and groups\<close>

definition send_direct ::
    "'s storage \<Rightarrow> crypto \<Rightarrow> client_codecs \<Rightarrow> identity \<Rightarrow> ('s, 'd) flow_state \<Rightarrow> handle \<Rightarrow> handle \<Rightarrow> signed_record \<Rightarrow> app_message \<Rightarrow>
     ('d, 's) delivery_hook \<Rightarrow> (any_error + send_outcome) \<times> ('s, 'd) flow_state" where
  "send_direct S C K identity w me peer peer_record app deliver =
     tryE (blocklist_load S (k_blocked K) (fl_store w)) w (\<lambda>blocked.
     if is_blocked blocked (rec_user_id (s_record peer_record)) then (Err (AnyMsg ''unblock this person before sending''), w)
     else tryE (require_own_record_for_identity S C (k_book K) (fl_store w) identity me) w (\<lambda>my_record.
       send_app S C (k_flow K) identity w me my_record peer peer_record app deliver))"

fun groups_named :: "'s storage \<Rightarrow> group_codecs \<Rightarrow> 's \<Rightarrow> string \<Rightarrow> string list \<Rightarrow> any_error + stored_group list" where
  "groups_named S c st name [] = Ok []"
| "groups_named S c st name (i # is) =
     tryR (groups_load S c st i) (\<lambda>found.
     tryR (groups_named S c st name is) (\<lambda>rest.
     Ok (case found of Some g \<Rightarrow> if sg_name g = name then g # rest else rest | None \<Rightarrow> rest)))"

definition resolve_group :: "'s storage \<Rightarrow> group_codecs \<Rightarrow> 's \<Rightarrow> string \<Rightarrow> any_error + stored_group" where
  "resolve_group S c st key = tryR (groups_load S c st key) (\<lambda>found. case found of
      Some g \<Rightarrow> Ok g
    | None \<Rightarrow> tryR (groups_list S c st) (\<lambda>ids. tryR (groups_named S c st key ids) (\<lambda>named. case named of
          [g] \<Rightarrow> Ok g
        | [] \<Rightarrow> Err (AnyMsg (''no such group '' @ quoted key))
        | _ \<Rightarrow> Err (AnyMsg (''group name '' @ quoted key @ '' is ambiguous; use the group id'')))))"

record group_summary =
  gsum_id :: string
  gsum_name :: string
  gsum_member_count :: nat

fun summarize_groups :: "'s storage \<Rightarrow> group_codecs \<Rightarrow> 's \<Rightarrow> string list \<Rightarrow> any_error + group_summary list" where
  "summarize_groups S c st [] = Ok []"
| "summarize_groups S c st (i # is) =
     tryR (groups_load S c st i) (\<lambda>found.
     tryR (summarize_groups S c st is) (\<lambda>rest.
     Ok (case found of Some g \<Rightarrow> \<lparr>gsum_id = sg_id g, gsum_name = sg_name g, gsum_member_count = length (sg_members g)\<rparr> # rest | None \<Rightarrow> rest)))"

definition list_groups :: "'s storage \<Rightarrow> group_codecs \<Rightarrow> 's \<Rightarrow> any_error + group_summary list" where
  "list_groups S c st = tryR (groups_list S c st) (summarize_groups S c st)"

definition group_history ::
    "'s storage \<Rightarrow> client_codecs \<Rightarrow> 's \<Rightarrow> string \<Rightarrow> u64 \<Rightarrow> (any_error + (stored_group \<times> group_stored_message list)) \<times> 's" where
  "group_history S K st key now = tryE (resolve_group S (k_groups K) st key) st (\<lambda>g.
     tryS (group_load_active S (k_history K) st (sg_id g) now) (\<lambda>messages st. (Ok (g, messages), st)))"

definition member_of_record :: "signed_record \<Rightarrow> group_member" where
  "member_of_record r = \<lparr>gmem_user_id = rec_user_id (s_record r), gmem_handle = rec_handle (s_record r)\<rparr>"

definition knows_member :: "group_member list \<Rightarrow> user_id \<Rightarrow> bool" where
  "knows_member ms uid \<longleftrightarrow> list_ex (\<lambda>m. gmem_user_id m = uid) ms"

fun stable_members ::
    "'s storage \<Rightarrow> crypto \<Rightarrow> flow_codecs \<Rightarrow> 's \<Rightarrow> string list \<Rightarrow> group_member list \<Rightarrow> (any_error + group_member list) \<times> 's" where
  "stable_members S C F st [] ms = (Ok ms, st)"
| "stable_members S C F st (member # members) ms =
     tryS (map_errS (\<lambda>_. AnyMsg (''unknown or ambiguous group member '' @ quoted member)) (resolve_local_record S C F st member)) (\<lambda>(_, r) st.
     stable_members S C F st members (if knows_member ms (rec_user_id (s_record r)) then ms else ms @ [member_of_record r]))"

definition create_group ::
    "'s storage \<Rightarrow> crypto \<Rightarrow> flow_codecs \<Rightarrow> identity \<Rightarrow> 's \<Rightarrow> platform \<Rightarrow> handle \<Rightarrow> string \<Rightarrow> string list \<Rightarrow> (any_error + stored_group) \<times> 's \<times> platform" where
  "create_group S C F identity st p me name members =
     (let (resolved, st) = stable_members S C F st members [] in
      tryE resolved (st, p) (\<lambda>ms.
      let my_user_id = own_user_id C identity;
          ms = (if knows_member ms my_user_id then ms else ms @ [\<lparr>gmem_user_id = my_user_id, gmem_handle = me\<rparr>]);
          (g, p) = group_new p (my_group_id C identity);
          (i, p) = random_id p;
          stored = note_sender \<lparr>sg_id = i, sg_name = name, sg_members = ms, sg_senders = [], sg_key_shares = [], sg_state = group_export g\<rparr>
            (my_group_id C identity) my_user_id me;
          (saved, st) = groups_save S (fc_groups F) st stored
      in tryE saved (st, p) (\<lambda>_. (Ok stored, st, p))))"

definition group_with_added_member :: "'s storage \<Rightarrow> client_codecs \<Rightarrow> 's \<Rightarrow> string \<Rightarrow> handle \<Rightarrow> any_error + stored_group" where
  "group_with_added_member S K st key member = tryR (resolve_group S (k_groups K) st key) (\<lambda>g.
     tryR (require_record S (k_book K) st member) (\<lambda>r.
     if knows_member (sg_members g) (rec_user_id (s_record r))
     then Err (AnyMsg (quoted member @ '' is already in '' @ quoted (sg_name g)))
     else Ok (g\<lparr>sg_members := sg_members g @ [member_of_record r]\<rparr>)))"

definition client_distribute_group_key ::
    "'s storage \<Rightarrow> crypto \<Rightarrow> flow_codecs \<Rightarrow> identity \<Rightarrow> ('s, 'd) flow_state \<Rightarrow> handle \<Rightarrow> signed_record \<Rightarrow> stored_group \<Rightarrow> group_member list \<Rightarrow>
     ('d, 's) delivery_hook \<Rightarrow> ((any_error + unit) \<times> stored_group) \<times> ('s, 'd) flow_state" where
  "client_distribute_group_key S C F identity w me my_record g targets deliver = (case group_import C (sg_state g) of
      Err _ \<Rightarrow> ((Err (AnyMsg ''bad group state''), g), w)
    | Ok session \<Rightarrow> (case local_net_load S (fc_book F) (fl_store w) of
        Err e \<Rightarrow> ((Err e, g), w)
      | Ok net \<Rightarrow>
          (let (shared, w) = distribute_key S C F identity w net me my_record (sg_id g) (sg_name g) (group_distribution C session)
                 (sg_members g) targets deliver;
               g = fold (\<lambda>share g. note_key_share g share) shared g;
               (saved, st) = groups_save S (fc_groups F) (fl_store w) g
           in ((saved, g), w\<lparr>fl_store := st\<rparr>))))"

definition send_group ::
    "'s storage \<Rightarrow> crypto \<Rightarrow> flow_codecs \<Rightarrow> identity \<Rightarrow> ('s, 'd) flow_state \<Rightarrow> handle \<Rightarrow> stored_group \<Rightarrow> app_message \<Rightarrow> ('d, 's) delivery_hook \<Rightarrow>
     ((any_error + send_outcome) \<times> stored_group) \<times> ('s, 'd) flow_state" where
  "send_group S C F identity w me g app deliver = (case local_net_load S (fc_book F) (fl_store w) of
      Err e \<Rightarrow> ((Err e, g), w)
    | Ok net \<Rightarrow> (case require_own_record S (fc_book F) (fl_store w) me of
        Err e \<Rightarrow> ((Err e, g), w)
      | Ok sender_record \<Rightarrow> group_send S C F identity w net me sender_record g app deliver))"

definition leave_group ::
    "'s storage \<Rightarrow> crypto \<Rightarrow> flow_codecs \<Rightarrow> identity \<Rightarrow> ('s, 'd) flow_state \<Rightarrow> handle \<Rightarrow> signed_record \<Rightarrow> stored_group \<Rightarrow> ('d, 's) delivery_hook \<Rightarrow>
     (any_error + unit) \<times> ('s, 'd) flow_state" where
  "leave_group S C F identity w me my_record g deliver =
     tryE (local_net_load S (fc_book F) (fl_store w)) w (\<lambda>net.
     (Ok (), group_leave S C F identity w net me my_record g deliver))"

definition client_process_item ::
    "'s storage \<Rightarrow> crypto \<Rightarrow> flow_codecs \<Rightarrow> recv_ctx \<Rightarrow> ('s, 'd) flow_state \<Rightarrow> mail_item \<Rightarrow> ('d, 's) delivery_hook \<Rightarrow>
     item_outcome \<times> ('s, 'd) flow_state" where
  "client_process_item S C F r w item deliver = (case local_net_load S (fc_book F) (fl_store w) of
      Err _ \<Rightarrow> (Retry, w)
    | Ok net \<Rightarrow> process_item S C F r w net item deliver)"

section \<open>The outbox\<close>

definition due_outbox_entries :: "'s storage \<Rightarrow> outbox_codecs \<Rightarrow> 's \<Rightarrow> u64 \<Rightarrow> any_error + outbox_entry list" where
  "due_outbox_entries S c st now = tryR (outbox_load S c st) (\<lambda>es. Ok (filter (\<lambda>e. is_due e now) es))"

definition park_outbox ::
    "'s storage \<Rightarrow> outbox_codecs \<Rightarrow> 's \<Rightarrow> string \<Rightarrow> handle \<Rightarrow> signed_record \<Rightarrow> device \<Rightarrow> mail_item \<Rightarrow> u64 \<Rightarrow> (any_error + unit) \<times> 's" where
  "park_outbox S c st delivery_id recipient recipient_record d item now =
     outbox_enqueue S c st delivery_id (rec_user_id (s_record recipient_record)) recipient (device_slot (device_key d)) item now"

definition park_pairwise_outbox ::
    "'s storage \<Rightarrow> outbox_codecs \<Rightarrow> 's \<Rightarrow> string \<Rightarrow> handle \<Rightarrow> signed_record \<Rightarrow> device \<Rightarrow> mail_item \<Rightarrow> bytes \<Rightarrow> u64 \<Rightarrow> (any_error + unit) \<times> 's" where
  "park_pairwise_outbox S c st delivery_id recipient recipient_record d item plaintext now =
     outbox_enqueue_pairwise S c st delivery_id (rec_user_id (s_record recipient_record)) recipient (device_slot (device_key d)) item (Some plaintext) now"

datatype outbox_cancel = CancelEmpty | CancelAll nat | CancelOne string string

text \<open>A delivery id is a digest in hexadecimal, so the slice never splits a character.\<close>

definition short_outbox_id :: "string \<Rightarrow> string" where
  "short_outbox_id i = take (min 12 (length i)) i"

definition status_debug :: "outbox_status \<Rightarrow> string" where
  "status_debug s = (case s of Pending \<Rightarrow> ''Pending'' | Delivered \<Rightarrow> ''Delivered'' | Failed \<Rightarrow> ''Failed'' | Cancelled \<Rightarrow> ''Cancelled'')"

definition cancel_entry :: "outbox_entry \<Rightarrow> outbox_entry" where
  "cancel_entry e = e\<lparr>ob_status := Cancelled, ob_send_after := 0\<rparr>"

definition cancel_outbox :: "'s storage \<Rightarrow> outbox_codecs \<Rightarrow> 's \<Rightarrow> string \<Rightarrow> (any_error + outbox_cancel) \<times> 's" where
  "cancel_outbox S c st i = tryE (outbox_load S c st) st (\<lambda>es.
     if es = [] then (Ok CancelEmpty, st)
     else if i = ''all'' then
       tryS (outbox_save S c st (map (\<lambda>e. if is_pending e then cancel_entry e else e) es)) (\<lambda>_ st.
       (Ok (CancelAll (length (filter is_pending es))), st))
     else case filter (\<lambda>n. starts_with (ob_id (es ! n)) i) [0..<length es] of
         [] \<Rightarrow> (Err (AnyMsg (''no pending local delivery item matches '' @ quoted i)), st)
       | [n] \<Rightarrow>
           let e = es ! n in
           if \<not> is_pending e then (Err (AnyMsg (''local delivery '' @ short_outbox_id (ob_id e) @ '' is already '' @ status_debug (ob_status e))), st)
           else tryS (outbox_save S c st (es[n := cancel_entry e])) (\<lambda>_ st. (Ok (CancelOne (ob_id e) (ob_recipient e)), st))
       | ns \<Rightarrow> (Err (AnyMsg (quoted i @ '' matches '' @ nat_decimal (length ns) @ '' pending items; use a longer id prefix'')), st))"

end
