(* ===== verification/ClientRegistry.thy ===== *)
theory ClientRegistry
  imports Stores RustStr
begin

text \<open>
  The registry client of the native shells (\<open>mycellium-client/src/registry.rs\<close>).

  The HTTP agent is the \<open>ureq\<close> package and is a parameter: a function from a request to an error or
  a response.  A response is its body as the agent reads it: \<open>rs_read n\<close> is the body read under a
  limit of \<open>n\<close> bytes, if that succeeds, and \<open>rs_all\<close> the body under the agent's own limit.  An error
  keeps its outermost message.  Erasing secrets from memory has no effect on values.
\<close>

definition DEFAULT_REGISTRY_URL :: string where
  "DEFAULT_REGISTRY_URL = ''https://registry.mycellium.eu''"

definition LOGIN_LINK_PREFIX :: string where
  "LOGIN_LINK_PREFIX = ''mycellium://login?''"

text \<open>\<open>str::split\<close> at one character.\<close>

fun split_char :: "char \<Rightarrow> string \<Rightarrow> string list" where
  "split_char c [] = [] # []"
| "split_char c (x # xs) = (if x = c then [] # split_char c xs
     else case split_char c xs of [] \<Rightarrow> [x] # [] | part # parts \<Rightarrow> (x # part) # parts)"

definition login_token_from_link :: "string \<Rightarrow> any_error + string" where
  "login_token_from_link link =
     tryR (ok_or (AnyMsg ''invalid Mycellium login link'') (str_strip_prefix LOGIN_LINK_PREFIX (str_trim link))) (\<lambda>query.
     case List.map_filter (str_strip_prefix ''token='') (split_char (CHR ''&'') query) of
       [token] \<Rightarrow>
         if length token \<noteq> 64 \<or> \<not> list_all is_ascii_hexdigit token then Err (AnyMsg ''invalid Mycellium login link'')
         else Ok (to_ascii_lowercase token)
     | _ \<Rightarrow> Err (AnyMsg ''invalid Mycellium login link''))"

record registry_session =
  rs_registry_url :: string
  rs_account_id :: string
  rs_session_token :: string
  rs_session_expires_at :: int

definition session_is_expired :: "registry_session \<Rightarrow> int \<Rightarrow> bool" where
  "session_is_expired s now \<longleftrightarrow> now \<ge> rs_session_expires_at s"

record confirmed_login =
  cl_session :: registry_session
  cl_created :: bool

section \<open>The agent\<close>

datatype http_method = GET | PUT | POST

record agent_request =
  aq_method :: http_method
  aq_url :: string
  aq_authorization :: "string option"
  aq_body :: "bytes option"

datatype agent_error = StatusCode nat | Timeout | OtherError

record agent_response =
  rs_read :: "nat \<Rightarrow> bytes option"
  rs_all :: "bytes option"

record confirm_body =
  cb_account_id :: string
  cb_created :: bool
  cb_session_token :: string
  cb_session_expires_at :: int

record registry_agent =
  ag_call :: "agent_request \<Rightarrow> agent_error + agent_response"
  ag_email :: "string json"
  ag_expires :: "int json"
  ag_token :: "string json"
  ag_confirm :: "confirm_body json"
  ag_record :: "signed_record codec"

record registry_client =
  rk_base_url :: string
  rk_agent :: registry_agent

definition registry_client_new :: "registry_agent \<Rightarrow> string \<Rightarrow> any_error + registry_client" where
  "registry_client_new agent url =
     (let base_url = rev (dropWhile (\<lambda>c. c = CHR ''/'') (rev (str_trim url))) in
      if \<not> (starts_with base_url ''https://'' \<or> starts_with base_url ''http://'')
      then Err (AnyMsg ''registry URL must start with https:// or http://'')
      else Ok \<lparr>rk_base_url = base_url, rk_agent = agent\<rparr>)"

definition client_registry_error :: "string \<Rightarrow> agent_error \<Rightarrow> any_error" where
  "client_registry_error action e =
     (let detail = (case e of
          StatusCode n \<Rightarrow>
            if n = 400 then ''the request was invalid''
            else if n = 401 then ''your login expired; log in again''
            else if n = 403 then ''this login belongs to another account''
            else if n = 404 then ''the registry does not support this operation''
            else if n = 409 then ''a newer or different identity is already active''
            else if n = 413 then ''the request was too large''
            else if n = 429 then ''too many attempts; wait before trying again''
            else ''the registry rejected the request''
        | Timeout \<Rightarrow> ''the registry took too long to respond''
        | OtherError \<Rightarrow> ''the registry could not be reached'')
      in AnyMsg (''could not '' @ action @ '': '' @ detail))"

definition session_bearer :: "registry_session \<Rightarrow> string" where
  "session_bearer s = ''Bearer '' @ rs_session_token s"

definition account_url :: "registry_client \<Rightarrow> registry_session \<Rightarrow> string \<Rightarrow> any_error + string" where
  "account_url k s suffix =
     (if rev (dropWhile (\<lambda>c. c = CHR ''/'') (rev (rs_registry_url s))) \<noteq> rk_base_url k
      then Err (AnyMsg ''registry session belongs to a different registry'')
      else Ok (rk_base_url k @ ''/accounts/'' @ rs_account_id s @ ''/'' @ suffix))"

text \<open>\<open>send_json\<close> fails as a request does when the value cannot be serialized.\<close>

definition post_json :: "registry_client \<Rightarrow> string \<Rightarrow> 'a json \<Rightarrow> 'a \<Rightarrow> agent_error + agent_response" where
  "post_json k path j v = (case json_to_vec j v of
      None \<Rightarrow> Err OtherError
    | Some b \<Rightarrow> ag_call (rk_agent k) \<lparr>aq_method = POST, aq_url = rk_base_url k @ path, aq_authorization = None, aq_body = Some b\<rparr>)"

definition read_json :: "'a json \<Rightarrow> agent_response \<Rightarrow> 'a option" where
  "read_json j r = Option.bind (rs_all r) (json_from_slice j)"

section \<open>Operations\<close>

definition rk_request_email_login :: "registry_client \<Rightarrow> string \<Rightarrow> any_error + int" where
  "rk_request_email_login k email =
     tryR (map_err (client_registry_error ''request login email'') (post_json k ''/login/email/request'' (ag_email (rk_agent k)) email)) (\<lambda>r.
     ok_or (AnyMsg ''registry returned an invalid login response'') (read_json (ag_expires (rk_agent k)) r))"

definition rk_confirm_login :: "registry_client \<Rightarrow> string \<Rightarrow> any_error + confirmed_login" where
  "rk_confirm_login k token =
     tryR (map_err (client_registry_error ''confirm login code'') (post_json k ''/login/confirm'' (ag_token (rk_agent k)) token)) (\<lambda>r.
     tryR (ok_or (AnyMsg ''registry returned an invalid account response'') (read_json (ag_confirm (rk_agent k)) r)) (\<lambda>body.
     Ok \<lparr>cl_session = \<lparr>rs_registry_url = rk_base_url k, rs_account_id = cb_account_id body, rs_session_token = cb_session_token body,
          rs_session_expires_at = cb_session_expires_at body\<rparr>, cl_created = cb_created body\<rparr>))"

definition rk_put_recovery :: "registry_client \<Rightarrow> registry_session \<Rightarrow> bytes \<Rightarrow> any_error + unit" where
  "rk_put_recovery k s secret =
     tryR (account_url k s ''recovery'') (\<lambda>url.
     tryR (map_err (client_registry_error ''store identity recovery'') (ag_call (rk_agent k)
       \<lparr>aq_method = PUT, aq_url = url, aq_authorization = Some (session_bearer s), aq_body = Some secret\<rparr>)) (\<lambda>_. Ok ()))"

definition rk_get_recovery :: "registry_client \<Rightarrow> registry_session \<Rightarrow> any_error + bytes option" where
  "rk_get_recovery k s =
     tryR (account_url k s ''recovery'') (\<lambda>url.
     case ag_call (rk_agent k) \<lparr>aq_method = GET, aq_url = url, aq_authorization = Some (session_bearer s), aq_body = None\<rparr> of
       Err e \<Rightarrow> if e = StatusCode 404 then Ok None else Err (client_registry_error ''load identity recovery'' e)
     | Ok r \<Rightarrow>
         tryR (ok_or (AnyMsg ''could not read identity recovery response'') (rs_read r 64)) (\<lambda>bs.
         if length bs \<noteq> 32 then Err (AnyMsg ''registry returned invalid identity recovery material'') else Ok (Some bs)))"

definition rk_put_record :: "registry_client \<Rightarrow> registry_session \<Rightarrow> signed_record \<Rightarrow> any_error + unit" where
  "rk_put_record k s r =
     tryR (account_url k s ''record'') (\<lambda>url.
     tryR (map_err (client_registry_error ''publish active device'') (ag_call (rk_agent k)
       \<lparr>aq_method = PUT, aq_url = url, aq_authorization = Some (session_bearer s), aq_body = Some (wire_encode (ag_record (rk_agent k)) r)\<rparr>)) (\<lambda>_. Ok ()))"

definition rk_get_record_at :: "crypto \<Rightarrow> claim_codecs \<Rightarrow> registry_client \<Rightarrow> string \<Rightarrow> any_error + signed_record option" where
  "rk_get_record_at C K k url =
     (case ag_call (rk_agent k) \<lparr>aq_method = GET, aq_url = url, aq_authorization = None, aq_body = None\<rparr> of
       Err e \<Rightarrow> if e = StatusCode 404 then Ok None else Err (client_registry_error ''load active device'' e)
     | Ok r \<Rightarrow>
         tryR (ok_or (AnyMsg ''could not read active-device response'') (rs_read r (1024 * 1024 + 1))) (\<lambda>bs.
         tryR (map_err (\<lambda>_. AnyMsg ''registry returned an invalid signed record'') (wire_decode (ag_record (rk_agent k)) bs)) (\<lambda>r.
         tryR (map_err (\<lambda>_. AnyMsg ''registry returned a record with an invalid signature'') (signed_record_verify C K r)) (\<lambda>_.
         Ok (Some r)))))"

definition rk_get_record :: "crypto \<Rightarrow> claim_codecs \<Rightarrow> registry_client \<Rightarrow> string \<Rightarrow> any_error + signed_record option" where
  "rk_get_record C K k account_id = rk_get_record_at C K k (rk_base_url k @ ''/accounts/'' @ account_id @ ''/record'')"

definition rk_get_record_for_user :: "crypto \<Rightarrow> claim_codecs \<Rightarrow> registry_client \<Rightarrow> string \<Rightarrow> any_error + signed_record option" where
  "rk_get_record_for_user C K k uid =
     tryR (map_err (\<lambda>_. AnyMsg ''invalid protocol user id'') (user_id_new uid)) (\<lambda>uid.
     tryR (rk_get_record_at C K k (rk_base_url k @ ''/users/'' @ uid @ ''/record'')) (\<lambda>found. case found of
         Some r \<Rightarrow> if rec_user_id (s_record r) \<noteq> uid then Err (AnyMsg ''registry returned a record for another identity'') else Ok (Some r)
       | None \<Rightarrow> Ok None))"

lemma rk_get_record_at_verified:
  "rk_get_record_at C K k url = Ok (Some r) \<Longrightarrow> signed_record_verify C K r = Ok ()"
  unfolding rk_get_record_at_def
  by (cases "ag_call (rk_agent k) \<lparr>aq_method = GET, aq_url = url, aq_authorization = None, aq_body = None\<rparr>")
    (auto simp: result_elims split: if_splits)

lemma fetched_record_trusted:
  assumes "rk_get_record_for_user C K k uid = Ok (Some r)"
  shows "signed_record_verify C K r = Ok ()" "rec_user_id (s_record r) = uid"
proof -
  from assms have "rk_get_record_at C K k (rk_base_url k @ ''/users/'' @ uid @ ''/record'') = Ok (Some r)" "rec_user_id (s_record r) = uid"
    unfolding rk_get_record_for_user_def by (auto simp: result_elims user_id_new_Ok split: if_splits option.splits)
  with rk_get_record_at_verified show "signed_record_verify C K r = Ok ()" "rec_user_id (s_record r) = uid" by blast+
qed

lemma session_stays_with_its_registry:
  "account_url k s suffix = Ok url \<Longrightarrow> url = rk_base_url k @ ''/accounts/'' @ rs_account_id s @ ''/'' @ suffix"
  by (auto simp: account_url_def split: if_splits)

end
