(* ===== verification/StoreFrame.thy ===== *)
theory StoreFrame
  imports FlowSafety Client
begin

text \<open>
  Which keys the engine writes.  Every engine operation that handles a received item reaches the
  store only through keys outside the inbox of accepted deliveries.  The locale below states
  what a predicate on stores must promise for the operations to keep it, on success and on every
  error path; each operation is then walked once.
\<close>

definition delivery_key :: "bytes \<Rightarrow> bool" where
  "delivery_key k \<longleftrightarrow> take 2 k = str_bytes ''ac''"

lemma inbox_is_delivery_key [simp]: "delivery_key (inbox_key i)" "delivery_key LEGACY_KEY"
  by (simp_all add: delivery_key_def inbox_key_def LEGACY_KEY_def str_bytes_def)

lemma engine_keys [simp]:
  "\<not> delivery_key NAMES_KEY" "\<not> delivery_key (attachment_key i)" "\<not> delivery_key (seg_key HIST i n)" "\<not> delivery_key (seg_key GHIST i n)"
  "\<not> delivery_key (meta_key HIST i)" "\<not> delivery_key (meta_key GHIST i)" "\<not> delivery_key PEER_INDEX" "\<not> delivery_key (group_key i)"
  "\<not> delivery_key GROUPS_INDEX_KEY" "\<not> delivery_key (antirollback_key i)" "\<not> delivery_key PEERBOOK_KEY" "\<not> delivery_key OUTBOX_INDEX_KEY"
  "\<not> delivery_key OUTBOX_LEGACY_KEY" "\<not> delivery_key (entry_key i)"
  by (simp_all add: delivery_key_def NAMES_KEY_def attachment_key_def seg_key_def meta_key_def HIST_def GHIST_def PEER_INDEX_def group_key_def
    GROUPS_INDEX_KEY_def antirollback_key_def PEERBOOK_KEY_def OUTBOX_INDEX_KEY_def OUTBOX_LEGACY_KEY_def entry_key_def str_bytes_def)

named_theorems keeps \<open>operations keep a predicate on stores\<close>

locale store_frame =
  fixes S :: "'s storage" and I :: "'s \<Rightarrow> bool"
  assumes put_keeps: "I st \<Longrightarrow> \<not> delivery_key k \<Longrightarrow> I (snd (st_put S st k v))"
    and batch_keeps: "I st \<Longrightarrow> \<forall>m \<in> set ms. \<not> delivery_key (mutation_key m) \<Longrightarrow> I (snd (st_apply_batch S st ms))"
begin

lemma tryE_keeps [keeps]: "I st \<Longrightarrow> (\<And>a. r = Ok a \<Longrightarrow> I (snd (f a))) \<Longrightarrow> I (snd (tryE r st f))"
  by (cases r) simp_all

lemma tryS_keeps [keeps]: "I (snd rs) \<Longrightarrow> (\<And>a st. I st \<Longrightarrow> I (snd (f a st))) \<Longrightarrow> I (snd (tryS rs f))"
  by (cases rs; cases "fst rs") simp_all

lemma map_errS_keeps [keeps]: "I (snd rs) \<Longrightarrow> I (snd (map_errS f rs))"
  by (simp add: map_errS_def)

lemma ok_else_keeps [keeps]: "I (fl_store w) \<Longrightarrow> (\<And>a. r = Ok a \<Longrightarrow> I (fl_store (snd (f a)))) \<Longrightarrow> I (fl_store (snd (ok_else out w r f)))"
  by (cases r) simp_all

lemma ok_elseS_keeps [keeps]:
  "I (snd rs) \<Longrightarrow> (\<And>a w. I (fl_store w) \<Longrightarrow> I (fl_store (snd (f a w)))) \<Longrightarrow> I (fl_store (snd (ok_elseS out w rs f)))"
  by (cases rs; cases "fst rs") simp_all

lemma io_put_keeps [keeps]: "I st \<Longrightarrow> \<not> delivery_key k \<Longrightarrow> I (snd (io_put S st k v))"
  by (simp add: io_put_def put_keeps keeps)

lemma io_batch_keeps [keeps]: "I st \<Longrightarrow> \<forall>m \<in> set ms. \<not> delivery_key (mutation_key m) \<Longrightarrow> I (snd (io_batch S st ms))"
  by (simp add: io_batch_def batch_keeps keeps)

lemma names_note_keeps [keeps]: "I st \<Longrightarrow> I (snd (names_note S c st i name))"
  unfolding names_note_def by (auto intro!: keeps split: option.split)

lemma save_attachment_keeps [keeps]: "I st \<Longrightarrow> I (snd (save_attachment S F st a))"
  by (auto simp: save_attachment_def attachment_save_def put_keeps split: option.split)

lemma walk_segments_keeps [keeps]:
  "I st \<Longrightarrow> (\<And>n. \<not> delivery_key (seg_key prefix i n)) \<Longrightarrow> I (snd (walk_segments S c st prefix i label changed f ns))"
  by (induction ns arbitrary: st) (auto intro!: keeps)

lemma append_mutations_keys:
  assumes "append_segment_mutations S c cm st prefix i m label = Ok ms" "\<And>n. \<not> delivery_key (seg_key prefix i n)" "\<not> delivery_key (meta_key prefix i)"
  shows "\<forall>m \<in> set ms. \<not> delivery_key (mutation_key m)"
  using assms by (auto simp: append_segment_mutations_def result_elims split: if_splits)

lemma history_append_keeps [keeps]: "I st \<Longrightarrow> I (snd (history_append S H st uid m))"
  unfolding history_append_def Let_def
  by (intro keeps) (auto dest!: append_mutations_keys split: if_splits)

lemma history_edit_keeps [keeps]: "I st \<Longrightarrow> I (snd (history_edit S H st uid i text by_me))"
  and history_delete_keeps [keeps]: "I st \<Longrightarrow> I (snd (history_delete S H st uid i by_me))"
  and group_edit_keeps [keeps]: "I st \<Longrightarrow> I (snd (group_edit S H st g i text sender))"
  and group_delete_keeps [keeps]: "I st \<Longrightarrow> I (snd (group_delete S H st g i sender))"
  by (auto simp: history_edit_def history_delete_def group_edit_def group_delete_def edit_segments_def delete_segments_def intro!: keeps)

lemma group_append_keeps [keeps]: "I st \<Longrightarrow> I (snd (group_append S H st g m))"
  unfolding group_append_def by (auto intro!: keeps dest!: append_mutations_keys)

lemma groups_save_keeps [keeps]: "I st \<Longrightarrow> I (snd (groups_save S c st g))"
  unfolding groups_save_def Let_def by (auto intro!: keeps split: if_splits)

lemma check_and_pin_keeps [keeps]: "I st \<Longrightarrow> I (snd (check_and_pin S C P st uid sr))"
  unfolding check_and_pin_def by (auto intro!: keeps put_keeps split: option.split)

lemma outbox_puts_keys: "outbox_entry_puts S c st es = Ok ms \<Longrightarrow> \<forall>m \<in> set ms. \<not> delivery_key (mutation_key m)"
  by (induction es arbitrary: ms) (auto simp: result_elims Let_def split: if_splits)

lemma outbox_save_keeps [keeps]: "I st \<Longrightarrow> I (snd (outbox_save S c st es))"
  unfolding outbox_save_def Let_def
  by (auto intro!: keeps simp: outbox_save_mutations_def dest!: outbox_puts_keys)

lemma outbox_enqueue_keeps [keeps]: "I st \<Longrightarrow> I (snd (outbox_enqueue_pairwise S c st i uid h dslot item pt now))"
  unfolding outbox_enqueue_pairwise_def outbox_enqueue_at_def
  by (auto intro!: keeps split: option.split)

lemma park_keeps [keeps]: "I st \<Longrightarrow> I (snd (park_outbox S c st i h r d item now))"
  "I st \<Longrightarrow> I (snd (park_pairwise_outbox S c st i h r d item pt now))"
  by (simp_all add: park_outbox_def park_pairwise_outbox_def outbox_enqueue_def keeps)

lemma peerbook_put_keeps [keeps]: "I st \<Longrightarrow> I (snd (peerbook_put S C c st h sr))"
  unfolding peerbook_put_def peerbook_save_def Let_def by (auto intro!: keeps split: if_splits)

lemma resolve_group_target_keeps [keeps]: "I st \<Longrightarrow> I (snd (resolve_group_target S C F me st net m))"
  using resolve_group_target_store [of S C F me st net m] check_and_pin_keeps by metis

lemma run_hook_keeps [keeps]:
  "hook_keeps I deliver \<Longrightarrow> I (fl_store w) \<Longrightarrow> I (fl_store (snd (run_hook deliver w h r d item pt)))"
  by (auto simp: run_hook_def hook_keeps_def split_def Let_def)

lemma distribute_loop_keeps [keeps]:
  assumes hook: "hook_keeps I deliver"
  shows "I (fl_store w) \<Longrightarrow>
    I (fl_store (snd (distribute_loop S C F me w net h0 sr dist pt targets known deliver shared)))"
proof (induction targets arbitrary: w shared)
  case (Cons t targets)
  note res = resolve_group_target_keeps [OF Cons.prems, of C F me net t]
  then show ?case
    using Cons.IH run_hook_keeps [OF hook]
    by (simp add: Let_def split_def split: option.split sum.split)
qed simp

lemma distribute_group_key_keeps [keeps]:
  assumes "hook_keeps I deliver" "I (fl_store w)"
  shows "I (fl_store (snd (distribute_group_key S C F r w net stored session targets deliver)))"
  using distribute_loop_keeps [OF assms] assms(2)
  by (auto simp: distribute_group_key_def distribute_key_def distribute_key_inner_def Let_def split_def intro!: groups_save_keeps split: option.split)

lemma recv_content_keeps [keeps]: "I (fl_store w) \<Longrightarrow> I (fl_store (snd (recv_content S F w uid h app)))"
  unfolding recv_content_def Let_def split_def by (auto intro!: keeps)

lemma recv_direct_keeps [keeps]: "I (fl_store w) \<Longrightarrow> I (fl_store (snd (recv_direct S C F r w env)))"
  unfolding recv_direct_def Let_def split_def by (auto intro!: keeps split: body.split)

lemma recv_invite_known_keeps [keeps]:
  "hook_keeps I deliver \<Longrightarrow> I (fl_store w) \<Longrightarrow> I (fl_store (snd (recv_invite_known S C F r w net uid h payload stored deliver)))"
  unfolding recv_invite_known_def Let_def split_def by (auto intro!: keeps)

lemma recv_invite_join_keeps [keeps]:
  "hook_keeps I deliver \<Longrightarrow> I (fl_store w) \<Longrightarrow> I (fl_store (snd (recv_invite_join S C F r w net uid h payload deliver)))"
  unfolding recv_invite_join_def Let_def split_def by (auto intro!: keeps)

lemma recv_group_invite_keeps [keeps]:
  "hook_keeps I deliver \<Longrightarrow> I (fl_store w) \<Longrightarrow> I (fl_store (snd (recv_group_invite S C F r w net env deliver)))"
  unfolding recv_group_invite_def Let_def split_def by (auto intro!: keeps split: option.split)

lemma recv_group_content_keeps [keeps]: "I (fl_store w) \<Longrightarrow> I (fl_store (snd (recv_group_content S F w g stored sender app)))"
  unfolding recv_group_content_def Let_def split_def by (auto intro!: keeps)

lemma recv_group_plain_keeps [keeps]: "I (fl_store w) \<Longrightarrow> I (fl_store (snd (recv_group_plain S F w g stored sender pt)))"
  unfolding recv_group_plain_def Let_def split_def by (auto intro!: keeps split: body.split)

lemma recv_group_text_keeps [keeps]: "I (fl_store w) \<Longrightarrow> I (fl_store (snd (recv_group_text S C F r w g m)))"
  unfolding recv_group_text_def Let_def split_def by (auto intro!: keeps split: option.split sum.split)

lemma recv_group_leave_keeps [keeps]:
  "hook_keeps I deliver \<Longrightarrow> I (fl_store w) \<Longrightarrow> I (fl_store (snd (recv_group_leave S C F r w net env deliver)))"
  unfolding recv_group_leave_def Let_def split_def by (auto intro!: keeps split: option.split sum.split)

lemma process_item_keeps:
  assumes "hook_keeps I deliver" "I (fl_store w)"
  shows "I (fl_store (snd (client_process_item S C F r w item deliver)))"
  using assms unfolding client_process_item_def process_item_def
  by (auto intro!: keeps split: sum.split mail_item.split)

end

end
