(* ===== verification/ClientRuntime.thy ===== *)
theory ClientRuntime
  imports StoreFrame ClientRegistry
begin

text \<open>
  The delivery runtime of the native shells (\<open>mycellium-client/src/runtime.rs\<close>): pushing a sealed
  item to a device and checking its acknowledgement, accepting an inbound item in one transaction,
  and flushing the outbox.

  The Reticulum stack is a parameter.  A node is a value of type \<open>'n\<close>; \<open>nv_new\<close>, \<open>nv_send\<close> and
  \<open>nv_agent\<close> are what starting a node, a send-and-wait and a registry request give at each use of
  the network, numbered by \<open>dn_tick\<close>; \<open>nv_stopped n\<close> says that another holder of the network shut it
  down before the \<open>n\<close>-th use.  The store of the flush is behind a mutex: \<open>others n\<close> is what other
  threads do to it before the \<open>n\<close>-th acquisition.  A poisoned mutex, left by a thread that
  panicked while holding it, is not modelled.
\<close>

section \<open>The network\<close>

record 'n network_env =
  nv_new :: "nat \<Rightarrow> bytes \<Rightarrow> 'n option"
  nv_send :: "nat \<Rightarrow> 'n \<Rightarrow> reticulum_public_identity \<Rightarrow> bytes \<Rightarrow> bytes option"
  nv_agent :: "nat \<Rightarrow> registry_agent"
  nv_stopped :: "nat \<Rightarrow> bool"

record 'n direct_network =
  dn_private :: bytes
  dn_reticulum :: "'n option"
  dn_registry :: "string option"
  dn_running :: bool
  dn_shut :: "'n list"
  dn_tick :: nat

definition network_new :: "bytes \<Rightarrow> 'n direct_network" where
  "network_new private =
     \<lparr>dn_private = private, dn_reticulum = None, dn_registry = None, dn_running = True, dn_shut = [], dn_tick = 0\<rparr>"

definition with_reticulum :: "bytes \<Rightarrow> 'n \<Rightarrow> 'n direct_network" where
  "with_reticulum private node = (network_new private)\<lparr>dn_reticulum := Some node\<rparr>"

definition set_reticulum :: "'n direct_network \<Rightarrow> 'n \<Rightarrow> 'n direct_network" where
  "set_reticulum nw node =
     (if \<not> dn_running nw then nw\<lparr>dn_shut := dn_shut nw @ [node]\<rparr> else nw\<lparr>dn_reticulum := Some node\<rparr>)"

definition network_shutdown :: "'n direct_network \<Rightarrow> 'n direct_network" where
  "network_shutdown nw =
     (if \<not> dn_running nw then nw
      else let nw = nw\<lparr>dn_running := False\<rparr> in case dn_reticulum nw of
          Some node \<Rightarrow> nw\<lparr>dn_shut := dn_shut nw @ [node]\<rparr>
        | None \<Rightarrow> nw)"

definition is_running :: "'n direct_network \<Rightarrow> bool" where
  "is_running nw = dn_running nw"

text \<open>One use of the network: what other holders of it did meanwhile.\<close>

definition network_use :: "'n network_env \<Rightarrow> 'n direct_network \<Rightarrow> 'n direct_network" where
  "network_use N nw = (let nw = (if nv_stopped N (dn_tick nw) then network_shutdown nw else nw) in nw\<lparr>dn_tick := Suc (dn_tick nw)\<rparr>)"

definition reticulum :: "'n network_env \<Rightarrow> 'n direct_network \<Rightarrow> 'n option \<times> 'n direct_network" where
  "reticulum N nw =
     (let t = dn_tick nw; nw = network_use N nw in
      if \<not> dn_running nw then (None, nw)
      else let nw = (if dn_reticulum nw = None then nw\<lparr>dn_reticulum := nv_new N t (dn_private nw)\<rparr> else nw)
           in (dn_reticulum nw, nw))"

definition use_registry :: "'n direct_network \<Rightarrow> string \<Rightarrow> 'n direct_network" where
  "use_registry nw url = nw\<lparr>dn_registry := Some url\<rparr>"

definition ensure_reticulum :: "'n network_env \<Rightarrow> 'n direct_network \<Rightarrow> (any_error + unit) \<times> 'n direct_network" where
  "ensure_reticulum N nw =
     (if \<not> dn_running nw then (Err (AnyMsg ''direct network is stopped''), nw)
      else let (node, nw) = reticulum N nw
           in (tryR (ok_or (AnyMsg ''Reticulum network is unavailable'') node) (\<lambda>_. Ok ()), nw))"

definition current_registry_record ::
    "crypto \<Rightarrow> claim_codecs \<Rightarrow> 'n network_env \<Rightarrow> 'n direct_network \<Rightarrow> user_id \<Rightarrow> (any_error + signed_record option) \<times> 'n direct_network" where
  "current_registry_record C L N nw uid = (case dn_registry nw of
      None \<Rightarrow> (Ok None, nw)
    | Some url \<Rightarrow> (tryR (registry_client_new (nv_agent N (dn_tick nw)) url) (\<lambda>k. rk_get_record_for_user C L k uid), network_use N nw))"

section \<open>Pushing an item\<close>

definition delivery_id_for_item :: "crypto \<Rightarrow> client_codecs \<Rightarrow> mail_item \<Rightarrow> string" where
  "delivery_id_for_item C K item = hex (payload_digest C (wire_encode (k_item K) item))"

definition verify_delivery_ack :: "crypto \<Rightarrow> client_codecs \<Rightarrow> bytes \<Rightarrow> string \<Rightarrow> bytes \<Rightarrow> device_public_key \<Rightarrow> bool" where
  "verify_delivery_ack C K bs delivery_id payload recipient = (case wire_decode (k_frame K) bs of
      Ok (AckFrame ack) \<Rightarrow> is_ok (ack_verify C (k_ack K) ack delivery_id payload recipient)
    | _ \<Rightarrow> False)"

text \<open>A framed connection, for the transports that keep one open: what sending and receiving give.\<close>

definition exchange_delivery ::
    "crypto \<Rightarrow> client_codecs \<Rightarrow> (bytes \<Rightarrow> bool) \<Rightarrow> (bytes \<Rightarrow> bytes option) \<Rightarrow> bytes \<Rightarrow> string \<Rightarrow> bytes \<Rightarrow> device_public_key \<Rightarrow> bool" where
  "exchange_delivery C K send_frame recv_frame frame delivery_id payload recipient =
     (if \<not> send_frame frame then False
      else case recv_frame frame of
          None \<Rightarrow> False
        | Some bs \<Rightarrow> (case wire_decode (k_frame K) bs of
              Ok (AckFrame ack) \<Rightarrow> is_ok (ack_verify C (k_ack K) ack delivery_id payload recipient)
            | _ \<Rightarrow> False))"

definition direct_push ::
    "crypto \<Rightarrow> client_codecs \<Rightarrow> 'n network_env \<Rightarrow> 'n direct_network \<Rightarrow> device \<Rightarrow> string \<Rightarrow> mail_item \<Rightarrow> bool \<times> 'n direct_network" where
  "direct_push C K N nw d delivery_id item =
     (let payload = wire_encode (k_item K) item;
          frame = wire_encode (k_frame K) (DeliveryFrame delivery_id item);
          (node, nw) = reticulum N nw
      in case node of
           None \<Rightarrow> (False, nw)
         | Some node \<Rightarrow> (case nv_send N (dn_tick nw) node (device_reticulum d) frame of
               None \<Rightarrow> (False, network_use N nw)
             | Some bs \<Rightarrow> (verify_delivery_ack C K bs delivery_id payload (device_key d), network_use N nw)))"

section \<open>Accepting an item\<close>

definition delivery_ack_frame :: "crypto \<Rightarrow> client_codecs \<Rightarrow> identity \<Rightarrow> string \<Rightarrow> bytes \<Rightarrow> bytes" where
  "delivery_ack_frame C K identity delivery_id payload =
     wire_encode (k_frame K) (AckFrame (ack_accepted C (k_ack K) identity delivery_id payload))"

definition envelope_sender :: "mail_item \<Rightarrow> envelope option" where
  "envelope_sender item = (case item of DirectItem env \<Rightarrow> Some env | GroupInvite env \<Rightarrow> Some env | GroupLeave env \<Rightarrow> Some env
    | GroupText _ _ \<Rightarrow> None)"

definition sender_identity_changed :: "'s storage \<Rightarrow> flow_codecs \<Rightarrow> 's \<Rightarrow> mail_item \<Rightarrow> bool" where
  "sender_identity_changed S F st item = (case envelope_sender item of
      None \<Rightarrow> False
    | Some env \<Rightarrow> verified_level S (fc_verified F) (fc_contacts F) st (env_user_id env) (rec_wallet (s_record (env_sender_record env))) = Changed)"

definition remember_sender :: "'s storage \<Rightarrow> crypto \<Rightarrow> peerbook_codecs \<Rightarrow> 's \<Rightarrow> mail_item \<Rightarrow> bool \<times> 's" where
  "remember_sender S C B st item = (case envelope_sender item of
      Some env \<Rightarrow> (let (r, st) = peerbook_put S C B st (env_from env) (env_sender_record env) in (is_ok r, st))
    | None \<Rightarrow> (True, st))"

definition mail_item_sender_device :: "mail_item \<Rightarrow> device_public_key option" where
  "mail_item_sender_device item = (case item of
      GroupText _ message \<Rightarrow> if length (gm_sender message) = 32 then Some (gm_sender message) else None
    | DirectItem env \<Rightarrow> Some (device_key (rec_device (s_record (env_sender_record env))))
    | GroupInvite env \<Rightarrow> Some (device_key (rec_device (s_record (env_sender_record env))))
    | GroupLeave env \<Rightarrow> Some (device_key (rec_device (s_record (env_sender_record env)))))"

text \<open>The closure of \<open>accept_delivery\<close>: items made while handling one are parked in the same transaction.\<close>

definition park_hook :: "'s storage \<Rightarrow> crypto \<Rightarrow> client_codecs \<Rightarrow> u64 \<Rightarrow> (unit, 's) delivery_hook" where
  "park_hook S C K now = (\<lambda>d st h r dev item plaintext.
     let delivery_id = delivery_id_for_item C K item;
         (parked, st) = (case plaintext of
             Some plaintext \<Rightarrow> park_pairwise_outbox S (k_outbox K) st delivery_id h r dev item plaintext now
           | None \<Rightarrow> park_outbox S (k_outbox K) st delivery_id h r dev item now)
     in (case parked of Ok _ \<Rightarrow> OutboxPath | Err _ \<Rightarrow> FailedPath, st, d))"

text \<open>The part inside the transaction, up to the commit: the events and the staged changes.\<close>

definition accept_item ::
    "'s storage \<Rightarrow> crypto \<Rightarrow> client_codecs \<Rightarrow> recv_ctx \<Rightarrow> platform \<Rightarrow> 's \<Rightarrow> string \<Rightarrow> mail_item \<Rightarrow> (flow_event list) option \<times> 's \<times> platform" where
  "accept_item S C K r p tx delivery_id item =
     (let (remembered, tx) = remember_sender S C (k_book K) tx item in
      if \<not> remembered then (None, tx, p)
      else let (now, p) = now_unix_secs p;
               (outcome, w) = client_process_item S C (k_flow K) r
                  \<lparr>fl_store = tx, fl_platform = p, fl_host = (), fl_events = []\<rparr> item (park_hook S C K now)
           in if outcome \<noteq> Accepted then (None, fl_store w, fl_platform w)
              else let (recorded, tx) = inbox_record S (k_inbox K) (fl_store w) delivery_id (payload_digest C (wire_encode (k_item K) item)) now
                   in case recorded of Err _ \<Rightarrow> (None, tx, fl_platform w) | Ok _ \<Rightarrow> (Some (fl_events w), tx, fl_platform w))"

record delivery_result =
  dl_ack :: "bytes option"
  dl_events :: "flow_event list"
  dl_store :: file_store
  dl_platform :: platform

definition accept_delivery ::
    "crypto \<Rightarrow> fs_env \<Rightarrow> storage_mutation list codec \<Rightarrow> client_codecs \<Rightarrow> identity \<Rightarrow> handle \<Rightarrow> signed_record \<Rightarrow> platform \<Rightarrow> file_store \<Rightarrow>
     string \<Rightarrow> mail_item \<Rightarrow> delivery_result" where
  "accept_delivery C E M K identity me my_record p st delivery_id item =
     (let S = file_ops C E M;
          payload = wire_encode (k_item K) item;
          digest = payload_digest C payload;
          refused = \<lparr>dl_ack = None, dl_events = [], dl_store = st, dl_platform = p\<rparr>
      in if delivery_id = [] \<or> length delivery_id > MAX_DELIVERY_ID_LEN \<or> delivery_id \<noteq> delivery_id_for_item C K item then refused
         else case inbox_seen S (k_inbox K) st delivery_id digest of
             Err _ \<Rightarrow> refused
           | Ok Collision \<Rightarrow> refused
           | Ok Duplicate \<Rightarrow> refused\<lparr>dl_ack := Some (delivery_ack_frame C K identity delivery_id payload)\<rparr>
           | Ok New \<Rightarrow>
               if sender_identity_changed S (k_flow K) st item then refused
               else case blocklist_load S (k_blocked K) st of
                   Err _ \<Rightarrow> refused
                 | Ok blocked \<Rightarrow>
                     (let (accepted, tx, p) = accept_item (tx_ops C E) C K
                            \<lparr>rc_identity = identity, rc_me = me, rc_sender_record = my_record, rc_blocked = blocked\<rparr>
                            p (fs_transaction st) delivery_id item
                      in case accepted of
                           None \<Rightarrow> refused\<lparr>dl_platform := p\<rparr>
                         | Some events \<Rightarrow>
                             (let (committed, st) = tx_commit C E M tx in case committed of
                                 Err _ \<Rightarrow> refused\<lparr>dl_store := st, dl_platform := p\<rparr>
                               | Ok _ \<Rightarrow> \<lparr>dl_ack = Some (delivery_ack_frame C K identity delivery_id payload), dl_events = events,
                                    dl_store = st, dl_platform = p\<rparr>)))"

section \<open>Delivering an item\<close>

definition reachability_record :: "'s storage \<Rightarrow> 's \<Rightarrow> string \<Rightarrow> delivery_path \<Rightarrow> bool \<Rightarrow> u64 \<Rightarrow> (io_error + unit) \<times> 's" where
  "reachability_record S st key path ok now = (Ok (), st)"

definition deliver_direct ::
    "'s storage \<Rightarrow> crypto \<Rightarrow> client_codecs \<Rightarrow> 'n network_env \<Rightarrow> 'n direct_network \<Rightarrow> 's \<Rightarrow> device \<Rightarrow> string \<Rightarrow> mail_item \<Rightarrow> u64 \<Rightarrow>
     delivery_path \<times> 's \<times> 'n direct_network" where
  "deliver_direct S C K N nw st d delivery_id item now =
     (let key = device_slot (device_key d);
          (ok, nw) = direct_push C K N nw d delivery_id item;
          (_, st) = reachability_record S st key Direct ok now
      in (if ok then Direct else FailedPath, st, nw))"

definition deliver_parked ::
    "'s storage \<Rightarrow> crypto \<Rightarrow> client_codecs \<Rightarrow> 'n network_env \<Rightarrow> 'n direct_network \<Rightarrow> (any_error + unit) \<times> 's \<Rightarrow> device \<Rightarrow> string \<Rightarrow> mail_item \<Rightarrow> u64 \<Rightarrow>
     delivery_path \<times> 's \<times> 'n direct_network" where
  "deliver_parked S C K N nw parked d delivery_id item now = (case parked of
      (Err _, st) \<Rightarrow> (FailedPath, st, nw)
    | (Ok _, st) \<Rightarrow>
        (let (path, st, nw) = deliver_direct S C K N nw st d delivery_id item now in
         if is_delivered path then (Direct, snd (mark_delivered S (k_outbox K) st delivery_id), nw)
         else (OutboxPath, st, nw)))"

definition deliver_or_park ::
    "'s storage \<Rightarrow> crypto \<Rightarrow> client_codecs \<Rightarrow> 'n network_env \<Rightarrow> 'n direct_network \<Rightarrow> 's \<Rightarrow> handle \<Rightarrow> signed_record \<Rightarrow> device \<Rightarrow> mail_item \<Rightarrow> u64 \<Rightarrow>
     delivery_path \<times> 's \<times> 'n direct_network" where
  "deliver_or_park S C K N nw st recipient recipient_record d item now =
     (let delivery_id = delivery_id_for_item C K item in
      deliver_parked S C K N nw (park_outbox S (k_outbox K) st delivery_id recipient recipient_record d item now) d delivery_id item now)"

definition deliver_pairwise_or_park ::
    "'s storage \<Rightarrow> crypto \<Rightarrow> client_codecs \<Rightarrow> 'n network_env \<Rightarrow> 'n direct_network \<Rightarrow> 's \<Rightarrow> handle \<Rightarrow> signed_record \<Rightarrow> device \<Rightarrow> mail_item \<Rightarrow> bytes \<Rightarrow> u64 \<Rightarrow>
     delivery_path \<times> 's \<times> 'n direct_network" where
  "deliver_pairwise_or_park S C K N nw st recipient recipient_record d item plaintext now =
     (let delivery_id = delivery_id_for_item C K item in
      deliver_parked S C K N nw (park_pairwise_outbox S (k_outbox K) st delivery_id recipient recipient_record d item plaintext now)
        d delivery_id item now)"

section \<open>Readdressing\<close>

definition readdress_pairwise ::
    "crypto \<Rightarrow> claim_codecs \<Rightarrow> platform \<Rightarrow> identity \<Rightarrow> mail_item \<Rightarrow> device \<Rightarrow> bytes \<Rightarrow> (any_error + mail_item) \<times> platform" where
  "readdress_pairwise C L p identity item d plaintext =
     (let seal = (\<lambda>env wrap.
            if \<not> is_ok (signed_record_verify C L (env_sender_record env))
              \<or> rec_wallet (s_record (env_sender_record env)) \<noteq> wallet_public C identity
              \<or> device_key (rec_device (s_record (env_sender_record env))) \<noteq> device_public C identity
            then (Err (AnyMsg ''outbox sender identity does not match this device''), p)
            else tryS (seal_to_with_record C p identity (env_from env) (env_sender_record env) d plaintext) (\<lambda>sealed p. (Ok (wrap sealed), p)))
      in case item of
           DirectItem env \<Rightarrow> seal env DirectItem
         | GroupInvite env \<Rightarrow> seal env GroupInvite
         | GroupLeave env \<Rightarrow> seal env GroupLeave
         | GroupText _ _ \<Rightarrow> (Err (AnyMsg ''group ciphertext is not pairwise''), p))"

definition readdress_parked_delivery ::
    "'s storage \<Rightarrow> crypto \<Rightarrow> client_codecs \<Rightarrow> identity \<Rightarrow> platform \<Rightarrow> 's \<Rightarrow> outbox_entry \<Rightarrow> device \<Rightarrow>
     (any_error + (string \<times> mail_item) option) \<times> 's \<times> platform" where
  "readdress_parked_delivery S C K identity p st e d = (case ob_item e of
      None \<Rightarrow> (Err (AnyMsg ''pending outbox entry has no ciphertext''), st, p)
    | Some item \<Rightarrow>
        (let dslot = device_slot (device_key d) in
         if dslot = ob_slot e then (Ok (Some (ob_id e, item)), st, p)
         else case ob_pairwise_plaintext e of
             None \<Rightarrow> (Ok None, st, p)
           | Some plaintext \<Rightarrow> (case readdress_pairwise C (k_claims K) p identity item d plaintext of
                 (Err err, p) \<Rightarrow> (Err err, st, p)
               | (Ok item, p) \<Rightarrow>
                   (let i = delivery_id_for_item C K item in
                    case readdress_pending S (k_outbox K) st (ob_id e) i dslot item of
                      (Err err, st) \<Rightarrow> (Err err, st, p)
                    | (Ok done_now, st) \<Rightarrow> (Ok (if \<not> done_now then None else Some (i, item)), st, p)))))"

section \<open>Flushing the outbox\<close>

record outbox_flush =
  of_delivered :: nat
  of_waiting :: nat

record ('s, 'n) flush_world =
  fw_store :: 's
  fw_network :: "'n direct_network"
  fw_platform :: platform
  fw_locks :: nat

text \<open>One acquisition of the store's mutex.\<close>

definition locked :: "(nat \<Rightarrow> 's \<Rightarrow> 's) \<Rightarrow> ('s \<Rightarrow> ('e + 'a) \<times> 's) \<Rightarrow> ('s, 'n) flush_world \<Rightarrow> ('e + 'a) \<times> ('s, 'n) flush_world" where
  "locked others op w = (let (r, st) = op (others (fw_locks w) (fw_store w)) in (r, w\<lparr>fw_store := st, fw_locks := Suc (fw_locks w)\<rparr>))"

definition attempt_parked_delivery ::
    "'s storage \<Rightarrow> crypto \<Rightarrow> client_codecs \<Rightarrow> 'n network_env \<Rightarrow> (nat \<Rightarrow> 's \<Rightarrow> 's) \<Rightarrow> device \<Rightarrow> string \<Rightarrow> mail_item \<Rightarrow> u64 \<Rightarrow>
     ('s, 'n) flush_world \<Rightarrow> (any_error + bool) \<times> ('s, 'n) flush_world" where
  "attempt_parked_delivery S C K N others d delivery_id item now w =
     (let (accepted, nw) = direct_push C K N (fw_network w) d delivery_id item;
          w = w\<lparr>fw_network := nw\<rparr>;
          dslot = device_slot (device_key d)
      in locked others (\<lambda>st.
           tryS (map_errS AnyIo (reachability_record S st dslot Direct accepted now)) (\<lambda>_ st.
           tryS (record_attempt S (k_outbox K) C st delivery_id now accepted) (\<lambda>_ st. (Ok accepted, st)))) w)"

text \<open>\<open>mark_failed\<close> or \<open>record_attempt\<close> followed by \<open>continue\<close>.\<close>

definition skip_entry :: "(nat \<Rightarrow> 's \<Rightarrow> 's) \<Rightarrow> ('s \<Rightarrow> (any_error + bool) \<times> 's) \<Rightarrow> ('s, 'n) flush_world \<Rightarrow> (any_error + bool) \<times> ('s, 'n) flush_world" where
  "skip_entry others op w = tryS (locked others op w) (\<lambda>_ w. (Ok False, w))"

definition refresh_from_registry ::
    "'s storage \<Rightarrow> crypto \<Rightarrow> client_codecs \<Rightarrow> 'n network_env \<Rightarrow> (nat \<Rightarrow> 's \<Rightarrow> 's) \<Rightarrow> user_id \<Rightarrow> ('s, 'n) flush_world \<Rightarrow> ('s, 'n) flush_world" where
  "refresh_from_registry S C K N others uid w =
     (let (fetched, nw) = current_registry_record C (k_claims K) N (fw_network w) uid;
          w = w\<lparr>fw_network := nw\<rparr>
      in case fetched of
           Ok (Some r) \<Rightarrow> snd (locked others (\<lambda>st. apply_registry_record S C (k_book K) st uid r) w)
         | _ \<Rightarrow> w)"

text \<open>The rest of one round of the flush loop, once the recipient's record is known to verify.\<close>

definition flush_to_device ::
    "'s storage \<Rightarrow> crypto \<Rightarrow> client_codecs \<Rightarrow> 'n network_env \<Rightarrow> (nat \<Rightarrow> 's \<Rightarrow> 's) \<Rightarrow> identity \<Rightarrow> u64 \<Rightarrow> outbox_entry \<Rightarrow> device \<Rightarrow>
     ('s, 'n) flush_world \<Rightarrow> (any_error + bool) \<times> ('s, 'n) flush_world" where
  "flush_to_device S C K N others identity now e d w = (case ob_item e of
      None \<Rightarrow> skip_entry others (\<lambda>st. mark_failed S (k_outbox K) st (ob_id e)) w
    | Some original_item \<Rightarrow>
        (let current_slot = device_slot (device_key d) in
         if current_slot = ob_slot e then attempt_parked_delivery S C K N others d (ob_id e) original_item now w
         else case ob_pairwise_plaintext e of
             None \<Rightarrow> skip_entry others (\<lambda>st. mark_failed S (k_outbox K) st (ob_id e)) w
           | Some plaintext \<Rightarrow>
               (let (sealed, p) = readdress_pairwise C (k_claims K) (fw_platform w) identity original_item d plaintext;
                    w = w\<lparr>fw_platform := p\<rparr>
                in case sealed of
                     Err _ \<Rightarrow> skip_entry others (\<lambda>st. mark_failed S (k_outbox K) st (ob_id e)) w
                   | Ok new_item \<Rightarrow>
                       (let new_id = delivery_id_for_item C K new_item in
                        tryS (locked others (\<lambda>st. readdress_pending S (k_outbox K) st (ob_id e) new_id current_slot new_item) w) (\<lambda>replaced w.
                        if \<not> replaced then (Ok False, w)
                        else attempt_parked_delivery S C K N others d new_id new_item now w)))))"

definition flush_entry ::
    "'s storage \<Rightarrow> crypto \<Rightarrow> client_codecs \<Rightarrow> 'n network_env \<Rightarrow> (nat \<Rightarrow> 's \<Rightarrow> 's) \<Rightarrow> identity \<Rightarrow> u64 \<Rightarrow> outbox_entry \<Rightarrow>
     ('s, 'n) flush_world \<Rightarrow> (any_error + bool) \<times> ('s, 'n) flush_world" where
  "flush_entry S C K N others identity now e w = (case user_id_new (ob_recipient_user_id e) of
      Err _ \<Rightarrow> skip_entry others (\<lambda>st. mark_failed S (k_outbox K) st (ob_id e)) w
    | Ok uid \<Rightarrow>
        (let w = refresh_from_registry S C K N others uid w in
         tryS (locked others (\<lambda>st. (peerbook_get_by_user_id S (k_book K) st uid, st)) w) (\<lambda>found w. case found of
             None \<Rightarrow> skip_entry others (\<lambda>st. record_attempt S (k_outbox K) C st (ob_id e) now False) w
           | Some r \<Rightarrow>
               if \<not> is_ok (signed_record_verify C (k_claims K) r)
               then skip_entry others (\<lambda>st. record_attempt S (k_outbox K) C st (ob_id e) now False) w
               else flush_to_device S C K N others identity now e (rec_device (s_record r)) w)))"

fun flush_entries ::
    "'s storage \<Rightarrow> crypto \<Rightarrow> client_codecs \<Rightarrow> 'n network_env \<Rightarrow> (nat \<Rightarrow> 's \<Rightarrow> 's) \<Rightarrow> identity \<Rightarrow> u64 \<Rightarrow> outbox_entry list \<Rightarrow>
     ('s, 'n) flush_world \<Rightarrow> (any_error + nat) \<times> ('s, 'n) flush_world" where
  "flush_entries S C K N others identity now [] w = (Ok 0, w)"
| "flush_entries S C K N others identity now (e # es) w =
     tryS (flush_entry S C K N others identity now e w) (\<lambda>delivered w.
     tryS (flush_entries S C K N others identity now es w) (\<lambda>n w. (Ok (if delivered then Suc n else n), w)))"

definition flush_shared_outbox ::
    "'s storage \<Rightarrow> crypto \<Rightarrow> client_codecs \<Rightarrow> 'n network_env \<Rightarrow> (nat \<Rightarrow> 's \<Rightarrow> 's) \<Rightarrow> identity \<Rightarrow> u64 \<Rightarrow>
     ('s, 'n) flush_world \<Rightarrow> (any_error + outbox_flush) \<times> ('s, 'n) flush_world" where
  "flush_shared_outbox S C K N others identity now w =
     tryS (locked others (\<lambda>st. (due_outbox_entries S (k_outbox K) st now, st)) w) (\<lambda>entries w.
     if entries = [] then
       tryS (locked others (\<lambda>st. (outbox_len S (k_outbox K) st, st)) w) (\<lambda>waiting w. (Ok \<lparr>of_delivered = 0, of_waiting = waiting\<rparr>, w))
     else
       tryS (flush_entries S C K N others identity now entries w) (\<lambda>delivered w.
       tryS (locked others (\<lambda>st. (outbox_len S (k_outbox K) st, st)) w) (\<lambda>waiting w.
       (Ok \<lparr>of_delivered = delivered, of_waiting = waiting\<rparr>, w))))"

end
