(* ===== verification/ClientSafety.thy ===== *)
theory ClientSafety
  imports ClientRuntime
begin

text \<open>
  Properties of the delivery runtime: an inbound item is accepted once however often it is sent and
  whatever the disk does, its acknowledgement follows the commit and satisfies the sender's check.
\<close>

section \<open>The transaction of an acceptance\<close>

definition staged :: "crypto \<Rightarrow> fs_env \<Rightarrow> file_store \<Rightarrow> file_tx \<Rightarrow> bool" where
  "staged C E st tx \<longleftrightarrow> tx_inv C E tx \<and> tx_store tx = st \<and> (\<forall>k. delivery_key k \<longrightarrow> tx_changes tx k = None)"

lemma staged_start: "staged C E st (fs_transaction st)"
  by (simp add: staged_def fs_transaction_def tx_inv_def)

lemma staged_insert: "staged C E st tx \<Longrightarrow> \<not> delivery_key k \<Longrightarrow> staged C E st (tx_insert tx k v)"
  by (auto simp: staged_def tx_insert_inv) (auto simp: tx_insert_def)

lemma staged_stage: "staged C E st tx \<Longrightarrow> \<forall>m \<in> set ms. \<not> delivery_key (mutation_key m) \<Longrightarrow> staged C E st (tx_stage tx ms)"
  by (induction tx ms rule: tx_stage.induct) (simp_all add: staged_insert)

interpretation txf: store_frame "tx_ops C E" "staged C E st" for C E st
  by unfold_locales (simp_all add: tx_ops_def tx_put_def tx_apply_batch_def staged_insert staged_stage)

lemma staged_get: "staged C E st tx \<Longrightarrow> delivery_key k \<Longrightarrow> tx_get C E tx k = fs_get C E st k"
  by (simp add: staged_def tx_get_def)

lemma inbox_entry_cong:
  assumes "\<And>k. delivery_key k \<Longrightarrow> st_get S st k = st_get S' st' k"
  shows "inbox_entry S c st i = inbox_entry S' c st' i"
proof -
  have legacy: "legacy_entry S c st i = legacy_entry S' c st' i" by (simp add: legacy_entry_def io_get_def assms)
  show ?thesis unfolding inbox_entry_def io_get_def legacy assms [OF inbox_is_delivery_key(1)] by (rule refl)
qed

lemma inbox_seen_cong:
  assumes "\<And>k. delivery_key k \<Longrightarrow> st_get S st k = st_get S' st' k"
  shows "inbox_seen S c st i d = inbox_seen S' c st' i d"
  unfolding inbox_seen_def using inbox_entry_cong [of S st S' st' c i] assms by simp

lemma inbox_seen_entry:
  "inbox_seen S c st i d = Ok New \<longleftrightarrow> inbox_entry S c st i = Ok None"
  "inbox_seen S c st i d = Ok Duplicate \<longleftrightarrow> (\<exists>e. inbox_entry S c st i = Ok (Some e) \<and> ad_payload_digest e = d)"
  by (auto simp: inbox_seen_def result_elims split: option.splits)

lemma staged_inbox:
  "staged C E st tx \<Longrightarrow> inbox_entry (tx_ops C E) c tx i = inbox_entry (file_ops C E M) c st i"
  by (rule inbox_entry_cong) (simp add: tx_ops_def file_ops_def staged_get)

lemma park_hook_keeps: "hook_keeps (staged C E st) (park_hook (tx_ops C E) C K now)"
  using txf.park_keeps
  by (auto simp: hook_keeps_def park_hook_def Let_def split_def split: option.split)

lemma remember_sender_keeps: "staged C E st tx \<Longrightarrow> staged C E st (snd (remember_sender (tx_ops C E) C B tx item))"
  using txf.peerbook_put_keeps by (auto simp: remember_sender_def split_def Let_def split: option.split)

text \<open>The staged changes of an accepted item mark it as accepted.\<close>

lemma accept_item_marks:
  assumes "codec_ok (c_accepted (k_inbox K))" "inbox_seen (file_ops C E M) (k_inbox K) st i digest = Ok New"
    and "accept_item (tx_ops C E) C K r p (fs_transaction st) i item = (Some events, tx, p')"
    and "digest = payload_digest C (wire_encode (k_item K) item)"
  shows "tx_inv C E tx" "tx_store tx = st" "inbox_seen (tx_ops C E) (k_inbox K) tx i digest = Ok Duplicate"
proof -
  let ?S = "tx_ops C E"
  obtain b tx1 where rem: "remember_sender ?S C (k_book K) (fs_transaction st) item = (b, tx1)" by fastforce
  obtain now p1 where now: "now_unix_secs p = (now, p1)" by fastforce
  obtain out w where pr: "client_process_item ?S C (k_flow K) r
      \<lparr>fl_store = tx1, fl_platform = p1, fl_host = (), fl_events = []\<rparr> item (park_hook ?S C K now) = (out, w)" by fastforce
  from assms(3) rem now pr have rec: "inbox_record ?S (k_inbox K) (fl_store w) i digest now = (Ok (), tx)"
    unfolding accept_item_def assms(4)
    by (auto simp: Let_def split: if_splits prod.splits sum.splits)
  have "staged C E st tx1" using remember_sender_keeps [OF staged_start, of C E st "k_book K" item] rem by simp
  then have "staged C E st (fl_store (snd (client_process_item ?S C (k_flow K) r
      \<lparr>fl_store = tx1, fl_platform = p1, fl_host = (), fl_events = []\<rparr> item (park_hook ?S C K now))))"
    by (intro txf.process_item_keeps park_hook_keeps) simp
  with pr have st: "staged C E st (fl_store w)" by simp
  then have inv: "tx_inv C E (fl_store w)" by (simp add: staged_def)
  have none: "inbox_entry ?S (k_inbox K) (fl_store w) i = Ok None"
    using staged_inbox [OF st] assms(2) inbox_seen_entry(1) by metis
  note spec = tx.inbox_record_spec [OF inv assms(1) rec]
  show "tx_inv C E tx" using spec(1) .
  show "inbox_seen ?S (k_inbox K) tx i digest = Ok Duplicate" using spec(2) none by (simp add: inbox_seen_def)
  from rec none have "io_put ?S (fl_store w) (inbox_key i) (wire_encode (c_accepted (k_inbox K))
      \<lparr>ad_id = i, ad_payload_digest = digest, ad_accepted_at = now\<rparr>) = (Ok (), tx)" by (simp add: inbox_record_def)
  with st show "tx_store tx = st" by (auto simp: io_put_def map_errS_def tx_ops_def tx_put_def staged_def)
qed
section \<open>One delivery\<close>

abbreviation item_digest :: "crypto \<Rightarrow> client_codecs \<Rightarrow> mail_item \<Rightarrow> bytes" where
  "item_digest C K item \<equiv> payload_digest C (wire_encode (k_item K) item)"

definition delivery_id_ok :: "crypto \<Rightarrow> client_codecs \<Rightarrow> string \<Rightarrow> mail_item \<Rightarrow> bool" where
  "delivery_id_ok C K i item \<longleftrightarrow> i \<noteq> [] \<and> length i \<le> MAX_DELIVERY_ID_LEN \<and> i = delivery_id_for_item C K item"

lemma accept_delivery_cases [consumes 1, case_names refused duplicate failed committed]:
  assumes "res = accept_delivery C E M K identity me rec p st i item"
  obtains "dl_ack res = None" "dl_events res = []" "dl_store res = st"
  | "delivery_id_ok C K i item" "inbox_seen (file_ops C E M) (k_inbox K) st i (item_digest C K item) = Ok Duplicate"
    "res = \<lparr>dl_ack = Some (delivery_ack_frame C K identity i (wire_encode (k_item K) item)), dl_events = [], dl_store = st, dl_platform = p\<rparr>"
  | r events tx p' e where "delivery_id_ok C K i item" "inbox_seen (file_ops C E M) (k_inbox K) st i (item_digest C K item) = Ok New"
    "accept_item (tx_ops C E) C K r p (fs_transaction st) i item = (Some events, tx, p')"
    "tx_commit C E M tx = (Err e, dl_store res)" "dl_ack res = None" "dl_events res = []"
  | r events tx p' where "delivery_id_ok C K i item" "inbox_seen (file_ops C E M) (k_inbox K) st i (item_digest C K item) = Ok New"
    "accept_item (tx_ops C E) C K r p (fs_transaction st) i item = (Some events, tx, p')"
    "tx_commit C E M tx = (Ok (), dl_store res)"
    "dl_ack res = Some (delivery_ack_frame C K identity i (wire_encode (k_item K) item))" "dl_events res = events"
proof (cases "delivery_id_ok C K i item")
  case False
  with assms show thesis by (intro that(1)) (auto simp: accept_delivery_def delivery_id_ok_def Let_def)
next
  case idok: True
  let ?S = "file_ops C E M" and ?d = "item_digest C K item"
  have guard: "\<not> (i = [] \<or> length i > MAX_DELIVERY_ID_LEN \<or> i \<noteq> delivery_id_for_item C K item)"
    using idok by (auto simp: delivery_id_ok_def)
  note run = assms [unfolded accept_delivery_def Let_def if_not_P [OF guard]]
  show thesis
  proof (cases "inbox_seen ?S (k_inbox K) st i ?d")
    case (Inl e)
    with run show thesis by (intro that(1)) simp_all
  next
    case seen: (Inr s)
    consider "s = Collision" | "s = Duplicate" | "s = New" "sender_identity_changed ?S (k_flow K) st item \<or> \<not> is_ok (blocklist_load ?S (k_blocked K) st)"
      | blocked where "s = New" "\<not> sender_identity_changed ?S (k_flow K) st item" "blocklist_load ?S (k_blocked K) st = Ok blocked"
      by (cases s; cases "blocklist_load ?S (k_blocked K) st") (auto simp: is_ok_def)
    then show thesis
    proof cases
      case 1
      with run seen show thesis by (intro that(1)) simp_all
    next
      case 2
      with run seen idok show thesis by (intro that(2)) simp_all
    next
      case 3
      with run seen show thesis
        by (intro that(1); cases "blocklist_load ?S (k_blocked K) st") (auto simp: is_ok_def split: if_splits)
    next
      case 4
      let ?r = "\<lparr>rc_identity = identity, rc_me = me, rc_sender_record = rec, rc_blocked = blocked\<rparr>"
      obtain acc tx p' where acc: "accept_item (tx_ops C E) C K ?r p (fs_transaction st) i item = (acc, tx, p')"
        by (metis prod_cases3)
      obtain q st' where commit: "tx_commit C E M tx = (q, st')" by fastforce
      note run4 = run [unfolded seen 4(1,3) sum.case seen.case if_not_P [OF 4(2)] acc prod.case commit]
      show thesis
      proof (cases acc)
        case None
        with run4 show thesis by (intro that(1)) simp_all
      next
        case (Some events)
        note acc' = acc [unfolded Some]
        show thesis
        proof (cases q)
          case (Inl e)
          show thesis by (rule that(3) [OF idok _ acc']) (use run4 seen 4(1) commit Inl Some in simp_all)
        next
          case (Inr u)
          show thesis by (rule that(4) [OF idok _ acc']) (use run4 seen 4(1) commit Inr Some in simp_all)
        qed
      qed
    qed
  qed
qed

lemma committed_view:
  assumes "fs_inv C E M (tx_store tx)" "tx_inv C E tx" "tx_commit C E M tx = (r, st')"
  shows "fs_logical C M st' = fs_logical C M (tx_store tx) \<or> fs_logical C M st' = tx_get C E tx"
    and "r = Ok () \<Longrightarrow> fs_inv C E M st' \<and> fs_get C E st' = tx_get C E tx"
    and "fs_key st' = fs_key (tx_store tx)"
proof -
  from assms(1) have ok: "aead_ok C" "rng_ok E" "codec_ok M" "fs_dir (tx_store tx) JOURNAL_FILE = None" by (simp_all add: fs_inv_def)
  note atomic = fs_apply_batch_atomic [OF ok(1-3) assms(3) [unfolded tx_commit_batch]]
  have view: "apply_mutations (tx_mutations tx) (fs_logical C M (tx_store tx)) = tx_get C E tx"
    using tx_mutations_view [OF assms(2,1)] ok(4) by (simp add: fs_logical_settled)
  show "fs_logical C M st' = fs_logical C M (tx_store tx) \<or> fs_logical C M st' = tx_get C E tx"
    using atomic(1) view by auto
  show "fs_key st' = fs_key (tx_store tx)" using atomic(3) .
  assume "r = Ok ()"
  with atomic(2) view have j: "fs_dir st' JOURNAL_FILE = None" "fs_logical C M st' = tx_get C E tx" by auto
  with assms(1) have "fs_inv C E M st'" by (simp add: fs_inv_def)
  with j fs_get_view [OF this] show "fs_inv C E M st' \<and> fs_get C E st' = tx_get C E tx" by (simp add: fs_logical_settled)
qed
text \<open>Reading the logical contents of a store as a store.\<close>

definition contents :: "(bytes \<Rightarrow> io_error + bytes option) storage" where
  "contents = \<lparr>st_get = (\<lambda>v. v), st_put = (\<lambda>v k b. (Ok (), v(k := Ok (Some b)))), st_delete = (\<lambda>v k. (Ok (), v(k := Ok None))),
     st_apply_batch = (\<lambda>v ms. (Ok (), apply_mutations ms v))\<rparr>"

definition marked :: "crypto \<Rightarrow> storage_mutation list codec \<Rightarrow> client_codecs \<Rightarrow> string \<Rightarrow> mail_item \<Rightarrow> file_store \<Rightarrow> bool" where
  "marked C M K i item st \<longleftrightarrow> inbox_seen contents (k_inbox K) (fs_logical C M st) i (item_digest C K item) = Ok Duplicate"

lemma fs_logical_get: "fs_inv C E M st \<Longrightarrow> fs_logical C M st = fs_get C E st"
  by (simp add: fs_get_view) (simp add: fs_logical_settled fs_inv_def)

lemma marked_settled:
  "fs_inv C E M st \<Longrightarrow> marked C M K i item st \<longleftrightarrow> inbox_seen (file_ops C E M) (k_inbox K) st i (item_digest C K item) = Ok Duplicate"
  unfolding marked_def by (subst inbox_seen_cong [of contents _ "file_ops C E M" st]) (simp_all add: contents_def file_ops_def fs_logical_get)

lemma marked_cong: "fs_logical C M st = fs_logical C M st' \<Longrightarrow> marked C M K i item st = marked C M K i item st'"
  by (simp add: marked_def)

lemma accepted_marks:
  assumes "fs_inv C E M st" "codec_ok (c_accepted (k_inbox K))"
    and "inbox_seen (file_ops C E M) (k_inbox K) st i (item_digest C K item) = Ok New"
    and "accept_item (tx_ops C E) C K r p (fs_transaction st) i item = (Some events, tx, p')"
    and "tx_commit C E M tx = (q, st')"
  shows "fs_logical C M st' = fs_logical C M st \<or> marked C M K i item st'"
    and "q = Ok () \<Longrightarrow> fs_inv C E M st' \<and> marked C M K i item st'"
    and "fs_key st' = fs_key st"
proof -
  note tx = accept_item_marks [OF assms(2-4) refl]
  have "fs_inv C E M (tx_store tx)" using assms(1) tx(2) by simp
  note view = committed_view [OF this tx(1) assms(5), unfolded tx(2)]
  have seen: "marked C M K i item st'" if "fs_logical C M st' = tx_get C E tx"
    unfolding marked_def using tx(3) by (subst inbox_seen_cong [of contents _ "tx_ops C E" tx]) (simp_all add: contents_def tx_ops_def that)
  with view(1) show "fs_logical C M st' = fs_logical C M st \<or> marked C M K i item st'" by blast
  show "fs_key st' = fs_key st" using view(3) .
  assume "q = Ok ()"
  with view(2) have inv: "fs_inv C E M st'" "fs_get C E st' = tx_get C E tx" by auto
  then have "fs_logical C M st' = tx_get C E tx" by (simp add: fs_logical_get)
  with inv seen show "fs_inv C E M st' \<and> marked C M K i item st'" by blast
qed

text \<open>What one delivery does, whatever the disk does.\<close>

lemma accept_delivery_step:
  assumes "fs_inv C E M st" "codec_ok (c_accepted (k_inbox K))" "res = accept_delivery C E M K identity me rec p st i item"
  shows "fs_key (dl_store res) = fs_key st"
    and "dl_ack res = None \<Longrightarrow> dl_events res = [] \<and> (fs_logical C M (dl_store res) = fs_logical C M st \<or> marked C M K i item (dl_store res))"
    and "dl_ack res = Some ack \<Longrightarrow> delivery_id_ok C K i item \<and> ack = delivery_ack_frame C K identity i (wire_encode (k_item K) item)
      \<and> fs_inv C E M (dl_store res) \<and> marked C M K i item (dl_store res)"
    and "marked C M K i item st \<Longrightarrow> dl_events res = [] \<and> dl_store res = st"
proof -
  have "fs_key (dl_store res) = fs_key st
     \<and> (dl_ack res = None \<longrightarrow> dl_events res = [] \<and> (fs_logical C M (dl_store res) = fs_logical C M st \<or> marked C M K i item (dl_store res)))
     \<and> (dl_ack res = Some ack \<longrightarrow> delivery_id_ok C K i item \<and> ack = delivery_ack_frame C K identity i (wire_encode (k_item K) item)
      \<and> fs_inv C E M (dl_store res) \<and> marked C M K i item (dl_store res))
     \<and> (marked C M K i item st \<longrightarrow> dl_events res = [] \<and> dl_store res = st)"
    using assms(3)
  proof (cases rule: accept_delivery_cases)
    case refused
    then show ?thesis by simp
  next
    case duplicate
    then show ?thesis using marked_settled [OF assms(1)] assms(1) by simp
  next
    case (failed r events tx p' e)
    with accepted_marks [OF assms(1,2) failed(2,3,4)] marked_settled [OF assms(1)] show ?thesis by auto
  next
    case (committed r events tx p')
    with accepted_marks [OF assms(1,2) committed(2,3,4)] marked_settled [OF assms(1)] show ?thesis by auto
  qed
  then show "fs_key (dl_store res) = fs_key st"
    and "dl_ack res = None \<Longrightarrow> dl_events res = [] \<and> (fs_logical C M (dl_store res) = fs_logical C M st \<or> marked C M K i item (dl_store res))"
    and "dl_ack res = Some ack \<Longrightarrow> delivery_id_ok C K i item \<and> ack = delivery_ack_frame C K identity i (wire_encode (k_item K) item)
      \<and> fs_inv C E M (dl_store res) \<and> marked C M K i item (dl_store res)"
    and "marked C M K i item st \<Longrightarrow> dl_events res = [] \<and> dl_store res = st" by blast+
qed

text \<open>An unfinished journal makes every read fail, so the item is refused until the store is reopened.\<close>

lemma accept_delivery_locked:
  assumes "fs_dir st JOURNAL_FILE \<noteq> None"
  shows "accept_delivery C E M K identity me rec p st i item = \<lparr>dl_ack = None, dl_events = [], dl_store = st, dl_platform = p\<rparr>"
proof -
  have "\<exists>e. inbox_seen (file_ops C E M) c st i d = Err e" for c d
    using assms by (auto simp: inbox_seen_def inbox_entry_def io_get_def file_ops_def fs_get_def ensure_ready_def)
  then obtain e where "inbox_seen (file_ops C E M) (k_inbox K) st i (item_digest C K item) = Err e" by blast
  then show ?thesis unfolding accept_delivery_def Let_def by (simp only: sum.case if_cancel)
qed

lemma redelivery_acknowledged:
  assumes "fs_inv C E M st" "marked C M K i item st" "delivery_id_ok C K i item"
  shows "accept_delivery C E M K identity me rec p st i item
    = \<lparr>dl_ack = Some (delivery_ack_frame C K identity i (wire_encode (k_item K) item)), dl_events = [], dl_store = st, dl_platform = p\<rparr>"
  using assms(2,3) unfolding marked_settled [OF assms(1)] by (auto simp: accept_delivery_def Let_def delivery_id_ok_def)

lemma ack_frame_verifies:
  assumes "ed_ok C" "codec_ok (k_frame K)" "delivery_id_ok C K i item"
  shows "verify_delivery_ack C K (delivery_ack_frame C K identity i (wire_encode (k_item K) item)) i (wire_encode (k_item K) item) (device_public C identity)"
proof -
  have "i \<noteq> []" "length i \<le> MAX_DELIVERY_ID_LEN" using assms(3) unfolding delivery_id_ok_def by blast+
  from ack_accepted_verifies [OF assms(1) this, of "k_ack K" identity "wire_encode (k_item K) item"] assms(2) show ?thesis
    by (simp add: verify_delivery_ack_def delivery_ack_frame_def is_ok_def)
qed
section \<open>Repeated delivery\<close>

text \<open>
  A run of the receiver as one item is sent to it again and again: attempts under any disk faults,
  reopenings of the store after a crash or a failed write, and any other changes of the store that
  keep the inbox entry of the item.  The log holds what each attempt answered and showed.
\<close>

inductive delivery_run ::
    "crypto \<Rightarrow> storage_mutation list codec \<Rightarrow> client_codecs \<Rightarrow> identity \<Rightarrow> string \<Rightarrow> mail_item \<Rightarrow> file_store \<Rightarrow>
     file_store \<Rightarrow> (bytes option \<times> flow_event list) list \<Rightarrow> bool"
  for C M K identity i item st0 where
  dr_start: "delivery_run C M K identity i item st0 st0 []"
| dr_attempt: "delivery_run C M K identity i item st0 st log \<Longrightarrow> rng_ok E \<Longrightarrow> \<forall>n. \<not> unreadable E n \<Longrightarrow>
    res = accept_delivery C E M K identity me rec p st i item \<Longrightarrow>
    delivery_run C M K identity i item st0 (dl_store res) (log @ [(dl_ack res, dl_events res)])"
| dr_reopen: "delivery_run C M K identity i item st0 st log \<Longrightarrow> rng_ok E \<Longrightarrow>
    fs_open C E M lock (fs_dir st) (fs_key st) t = (r, dir) \<Longrightarrow> st' = case_sum (\<lambda>_. st\<lparr>fs_dir := dir\<rparr>) (\<lambda>opened. opened) r \<Longrightarrow>
    delivery_run C M K identity i item st0 st' log"
| dr_other: "delivery_run C M K identity i item st0 st log \<Longrightarrow> rng_ok E \<Longrightarrow>
    \<forall>m \<in> set ms. mutation_key m \<notin> {inbox_key i, LEGACY_KEY} \<Longrightarrow> fs_apply_batch C E M st ms = (r, st') \<Longrightarrow>
    delivery_run C M K identity i item st0 st' log"

lemma marked_other:
  assumes "\<forall>m \<in> set ms. mutation_key m \<notin> {inbox_key i, LEGACY_KEY}"
    and "fs_logical C M st' = fs_logical C M st \<or> fs_logical C M st' = apply_mutations ms (fs_logical C M st)"
  shows "marked C M K i item st' \<longleftrightarrow> marked C M K i item st"
proof -
  have same: "fs_logical C M st' k = fs_logical C M st k" if "k \<in> {inbox_key i, LEGACY_KEY}" for k
  proof -
    have "k \<notin> mutation_key ` set ms" using assms(1) that by (auto simp: image_iff)
    with assms(2) show ?thesis by (auto simp: apply_mutations_other)
  qed
  have legacy: "legacy_entry contents c (fs_logical C M st') i = legacy_entry contents c (fs_logical C M st) i" for c
    using same [of LEGACY_KEY] by (simp add: legacy_entry_def io_get_def contents_def)
  have get: "io_get contents (fs_logical C M st') (inbox_key i) = io_get contents (fs_logical C M st) (inbox_key i)"
    using same [of "inbox_key i"] by (simp add: io_get_def contents_def)
  show ?thesis unfolding marked_def inbox_seen_def inbox_entry_def legacy get by (rule refl)
qed

lemma delivery_run_once:
  assumes "delivery_run C M K identity i item st0 st log" "aead_ok C" "codec_ok M" "codec_ok (c_accepted (k_inbox K))"
  shows "((\<exists>x \<in> set log. fst x \<noteq> None) \<longrightarrow> marked C M K i item st \<and> delivery_id_ok C K i item)
     \<and> (\<forall>x \<in> set log. snd x \<noteq> [] \<longrightarrow> fst x \<noteq> None)
     \<and> (\<forall>x \<in> set log. \<forall>ack. fst x = Some ack \<longrightarrow> ack = delivery_ack_frame C K identity i (wire_encode (k_item K) item))
     \<and> length (filter (\<lambda>x. snd x \<noteq> []) log) \<le> 1"
  using assms
proof induction
  case dr_start
  then show ?case by simp
next
  case (dr_attempt st log E res me rec p)
  show ?case
  proof (cases "fs_dir st JOURNAL_FILE = None")
    case False
    with dr_attempt accept_delivery_locked [OF False] show ?thesis by auto
  next
    case True
    with dr_attempt have inv: "fs_inv C E M st" by (simp add: fs_inv_def)
    note step = accept_delivery_step [OF inv dr_attempt.prems(3) dr_attempt.hyps(4)]
    show ?thesis
    proof (cases "marked C M K i item st")
      case True
      with step(4) dr_attempt.IH [OF dr_attempt.prems] step(3) show ?thesis by (cases "dl_ack res") auto
    next
      case False
      with dr_attempt.IH [OF dr_attempt.prems] have "\<forall>x \<in> set log. fst x = None \<and> snd x = []" by blast
      then have "filter (\<lambda>x. snd x \<noteq> []) log = []" "\<forall>x \<in> set log. fst x = None \<and> snd x = []" by (auto simp: filter_empty_conv)
      with step(2,3) show ?thesis by (cases "dl_ack res") auto
    qed
  qed
next
  case (dr_reopen st log E lock t r dir st')
  note open_log = fs_open_logical [OF dr_reopen.prems(1) dr_reopen.hyps(2,3)]
  have "fs_logical C M st' = fs_logical C M st"
    using open_log dr_reopen.hyps(4) by (cases r) auto
  with dr_reopen.IH [OF dr_reopen.prems] marked_cong show ?case by blast
next
  case (dr_other st log E ms r st')
  from fs_apply_batch_atomic(1) [OF dr_other.prems(1) dr_other.hyps(2) dr_other.prems(2) dr_other.hyps(4)]
  have "fs_logical C M st' = fs_logical C M st \<or> fs_logical C M st' = apply_mutations ms (fs_logical C M st)" by blast
  with marked_other [OF dr_other.hyps(3)] dr_other.IH [OF dr_other.prems] show ?case by blast
qed
section \<open>A sample client\<close>

definition s_delivery_ack :: "delivery_ack scodec" where
  "s_delivery_ack = s_iso (\<lambda>a. (ack_delivery_id a, ack_payload_digest a, ack_recipient_device a, ack_signature a))
     (\<lambda>(i, d, r, s). \<lparr>ack_delivery_id = i, ack_payload_digest = d, ack_recipient_device = r, ack_signature = s\<rparr>)
     (s_pair s_string (s_pair s_bytes (s_pair s_bytes s_bytes)))"

definition s_discovery :: "discovery_record scodec" where
  "s_discovery = s_iso (\<lambda>d. (disc_user_id d, disc_handle d, disc_record d))
     (\<lambda>(u, h, r). \<lparr>disc_user_id = u, disc_handle = h, disc_record = r\<rparr>) (s_pair s_string (s_pair s_string s_signed_record))"

definition s_peer_frame :: "peer_frame scodec" where
  "s_peer_frame = s_iso
     (\<lambda>f. case f of DeliveryFrame i m \<Rightarrow> Inl (Inl (i, m)) | AckFrame a \<Rightarrow> Inl (Inr a)
        | DiscoveryRequest q \<Rightarrow> Inr (Inl q) | DiscoveryResponse r \<Rightarrow> Inr (Inr r))
     (\<lambda>x. case x of Inl (Inl (i, m)) \<Rightarrow> DeliveryFrame i m | Inl (Inr a) \<Rightarrow> AckFrame a
        | Inr (Inl q) \<Rightarrow> DiscoveryRequest q | Inr (Inr r) \<Rightarrow> DiscoveryResponse r)
     (s_sum (s_sum (s_pair s_string s_mail_item) s_delivery_ack) (s_sum (s_list s_string) (s_list s_discovery)))"

lemma s_delivery_ack_ok [sample_ok]: "scodec_ok s_delivery_ack" and s_discovery_ok [sample_ok]: "scodec_ok s_discovery"
  unfolding s_delivery_ack_def s_discovery_def by (intro s_iso_ok; simp add: sample_ok)+

lemma s_peer_frame_ok [sample_ok]: "scodec_ok s_peer_frame"
  unfolding s_peer_frame_def by (rule s_iso_ok) (simp_all add: sample_ok split: peer_frame.split)

definition sample_client :: client_codecs where
  "sample_client = \<lparr>k_flow = sample_flow, k_outbox = sample_outbox_codecs, k_inbox = sample_inbox, k_blocked = sample_codec (s_list s_string),
     k_draft = sample_codec s_string, k_expiry = sample_codec s_word, k_item = sample_codec s_mail_item, k_frame = sample_codec s_peer_frame,
     k_ack = sample_ack_codec\<rparr>"

lemma sample_client_simps [simp]: "k_flow sample_client = sample_flow" "k_outbox sample_client = sample_outbox_codecs"
  "k_inbox sample_client = sample_inbox" "k_blocked sample_client = sample_codec (s_list s_string)"
  "k_item sample_client = sample_codec s_mail_item" "k_frame sample_client = sample_codec s_peer_frame" "k_ack sample_client = sample_ack_codec"
  by (simp_all add: sample_client_def)

abbreviation sample_disk :: fs_env where
  "sample_disk \<equiv> sample_env (\<lambda>_. NoFault)"

abbreviation sample_txs :: "file_tx storage" where
  "sample_txs \<equiv> tx_ops sample_crypto sample_disk"

abbreviation sample_id :: "mail_item \<Rightarrow> string" where
  "sample_id \<equiv> delivery_id_for_item sample_crypto sample_client"

lemma hex_length [simp]: "length (hex bs) = 2 * length bs"
  by (induction bs) auto

lemma sample_id_ok: "delivery_id_ok sample_crypto sample_client (sample_id item) item"
proof -
  have "length (sample_id item) = 64"
    using sample_sha_len(1) by (simp add: delivery_id_for_item_def payload_digest_def sha256_len_def)
  then show ?thesis by (auto simp: delivery_id_ok_def MAX_DELIVERY_ID_LEN_def)
qed

lemma sample_tx_simps: "\<exists>tx'. st_put sample_txs tx k v = (Ok (), tx')" "st_get sample_txs (fs_transaction sample_store) k = Ok None"
  using sample_store_ops(3) [of k]
  by (simp_all add: tx_ops_def tx_put_def tx_get_def fs_transaction_def sample_ops_def file_ops_def io_get_def)

lemma sample_remember:
  obtains tx where "peerbook_put sample_txs sample_crypto sample_book_codecs (fs_transaction sample_store) ''ari'' (sample_signed 1) = (Ok (), tx)"
    "\<exists>es. peerbook_load sample_txs sample_book_codecs tx = Ok es"
proof -
  let ?S = sample_txs and ?tx = "fs_transaction sample_store" and ?uid = "rec_user_id (s_record (sample_signed 1))"
  have load0: "antirollback_load ?S sample_pin_codecs ?tx ?uid = Ok (Some default_pins)"
    using sample_tx_simps(2) by (simp add: antirollback_load_def)
  have "\<not> identity_rolled_back sample_crypto sample_pin_codecs default_pins r" "\<not> device_rolled_back sample_crypto sample_pin_codecs default_pins r" for r
    by (simp_all add: identity_rolled_back_def device_rolled_back_def default_pins_def)
  with check_and_pin_accepts [OF load0 _ _ sample_tx_simps(1)] obtain tx1
    where pin: "check_and_pin ?S sample_crypto sample_pin_codecs ?tx ?uid (sample_signed 1) = (Ok True, tx1)" by blast
  have inv: "tx_inv sample_crypto sample_disk ?tx" using staged_start by (simp add: staged_def)
  have l0: "peerbook_load ?S sample_book_codecs ?tx = Ok []" using sample_tx_simps(2) by (simp add: peerbook_load_def io_get_def)
  with tx.check_and_pin_frame [OF inv pin, of PEERBOOK_KEY] have l1: "peerbook_load ?S sample_book_codecs tx1 = Ok []"
    by (simp add: peerbook_load_def io_get_def)
  have "address (reticulum_public sample_crypto (sample_identity 3)) \<noteq> replicate 16 0" by code_simp
  then have "address (device_reticulum (rec_device (s_record (sample_signed 1)))) \<noteq> replicate 16 0"
    by (simp add: sample_signed_def signed_record_sign_def sample_record_def device_create_def Let_def device_reticulum_def)
  moreover have "verify_handle sample_crypto ''ari'' (sample_signed 1) = Ok ()"
    by (simp add: verify_handle_def sample_signed_def signed_record_sign_def sample_record_def)
  moreover obtain tx where "io_put ?S tx1 PEERBOOK_KEY (wire_encode (c_book sample_book_codecs) (book_insert ''ari'' (sample_signed 1) [])) = (Ok (), tx)"
    using sample_tx_simps(1) io_put_Ok by metis
  ultimately have put: "peerbook_put ?S sample_crypto sample_book_codecs ?tx ''ari'' (sample_signed 1) = (Ok (), tx)"
    using pin l1 sample_signed_verifies [of 1] unfolding peerbook_put_def by (simp add: sample_book_codecs_def peerbook_save_def)
  with tx.peerbook_put_spec(2) [OF inv sample_book_codecs_ok(1) l0 put] that show thesis by blast
qed

text \<open>A read receipt from one sample identity is accepted and shown by the other.\<close>

lemma sample_accept:
  obtains env res where "res = accept_delivery sample_crypto sample_disk sample_batch sample_client (sample_identity 4) ''bo'' (sample_signed 1)
      sample_platform sample_store (sample_id (DirectItem env)) (DirectItem env)"
    "dl_ack res \<noteq> None" "dl_events res = [ReceiptEvent (env_user_id env) ''ari'' ''m1'' True]"
proof -
  let ?S = sample_txs and ?r = "\<lparr>rc_identity = sample_identity 4, rc_me = ''bo'', rc_sender_record = sample_signed 1, rc_blocked = []\<rparr>"
  obtain env where env: "open_envelope sample_crypto sample_claims (sample_identity 4) env = Ok (''ari'', app_encode (sample_codec s_app) sample_receipt)"
    and rec: "env_sender_record env = sample_signed 1" by (rule sample_envelope [OF sample_app_length(2)])
  have "env_from env = ''ari''" using env by (auto simp: open_envelope_def result_elims Let_def split: if_splits)
  let ?item = "DirectItem env"
  obtain tx where put: "peerbook_put ?S sample_crypto sample_book_codecs (fs_transaction sample_store) ''ari'' (sample_signed 1) = (Ok (), tx)"
    and book: "\<exists>es. peerbook_load ?S sample_book_codecs tx = Ok es" by (rule sample_remember)
  obtain now p1 where now: "now_unix_secs sample_platform = (now, p1)" by fastforce
  let ?w = "\<lparr>fl_store = tx, fl_platform = p1, fl_host = (), fl_events = []\<rparr>"
  have dec: "app_decode (sample_codec s_app) (app_encode (sample_codec s_app) sample_receipt) = Ok sample_receipt"
    by (simp add: app_decode_def app_encode_def sample_ok)
  obtain net where net: "local_net_load ?S (fc_book sample_flow) tx = Ok net"
    using book by (auto simp: local_net_load_def sample_flow_def)
  obtain w where run: "client_process_item ?S sample_crypto sample_flow ?r ?w ?item (park_hook ?S sample_crypto sample_client now) = (Accepted, w)"
    and ev: "fl_events w = [ReceiptEvent (env_user_id env) ''ari'' ''m1'' True]"
    using env dec net by (auto simp: client_process_item_def process_item_def recv_direct_def sample_receipt_def is_blocked_def)
  let ?digest = "item_digest sample_crypto sample_client ?item"
  have new: "inbox_seen sample_ops sample_inbox sample_store i d = Ok New" for i d
    by (simp add: inbox_seen_def inbox_entry_def legacy_entry_def sample_store_ops)
  have rem: "remember_sender ?S sample_crypto (fc_book sample_flow) (fs_transaction sample_store) ?item = (True, tx)"
    using put \<open>env_from env = ''ari''\<close> rec by (simp add: remember_sender_def envelope_sender_def is_ok_def sample_flow_def)
  have "staged sample_crypto sample_disk sample_store tx"
    using remember_sender_keeps [OF staged_start, of sample_crypto sample_disk sample_store "fc_book sample_flow" ?item] rem by simp
  then have "staged sample_crypto sample_disk sample_store (fl_store (snd (client_process_item ?S sample_crypto sample_flow ?r ?w ?item
      (park_hook ?S sample_crypto sample_client now))))"
    by (intro txf.process_item_keeps park_hook_keeps) simp
  with run have st: "staged sample_crypto sample_disk sample_store (fl_store w)" by simp
  have none: "inbox_entry ?S sample_inbox (fl_store w) i = Ok None" for i
    using staged_inbox [OF st, of sample_inbox i sample_batch] new [unfolded inbox_seen_entry] by (simp add: sample_ops_def)
  then obtain tx2 where recd: "inbox_record ?S sample_inbox (fl_store w) (sample_id ?item) ?digest now = (Ok (), tx2)"
    using sample_tx_simps(1) io_put_Ok unfolding inbox_record_def by (metis (no_types, lifting) option.case(1) tryE_simps(1))
  have acc: "accept_item ?S sample_crypto sample_client ?r sample_platform (fs_transaction sample_store) (sample_id ?item) ?item
      = (Some [ReceiptEvent (env_user_id env) ''ari'' ''m1'' True], tx2, fl_platform w)"
    using rem now run ev recd by (simp add: accept_item_def)
  have tx2: "tx_store tx2 = sample_store"
    by (rule accept_item_marks(2) [OF _ _ acc refl]) (use new sample_inbox_ok in \<open>simp_all add: sample_ops_def\<close>)
  obtain st' where commit: "tx_commit sample_crypto sample_disk sample_batch tx2 = (Ok (), st')"
    using sample_batch_accepts [OF sample_fs_inv, of "tx_mutations tx2"]
    by (auto simp: tx_commit_batch tx2 sample_ops_def file_ops_def io_batch_Ok)
  have "\<not> sender_identity_changed sample_ops sample_flow sample_store ?item"
    by (simp add: sender_identity_changed_def envelope_sender_def sample_level)
  moreover have "blocklist_load sample_ops (sample_codec (s_list s_string)) sample_store = Ok []"
    by (simp add: blocklist_load_def sample_store_ops)
  moreover have "\<not> (sample_id ?item = [] \<or> length (sample_id ?item) > MAX_DELIVERY_ID_LEN)" using sample_id_ok [of ?item] by (simp add: delivery_id_ok_def)
  ultimately show thesis
    using new acc commit by (intro that [of _ env, OF refl]) (simp_all add: accept_delivery_def Let_def sample_ops_def)
qed

section \<open>Properties\<close>

text \<open>
  C19: acknowledged means stored.  An acknowledgement is produced only for an item whose delivery
  id is its digest, only when the committed store already remembers the item as accepted, and it
  passes the sender's check for this device.  Without one, nothing was shown; and whatever write
  failed, the store a later start recovers is the one before the attempt or remembers the item.
\<close>

theorem acknowledged_means_stored:
  assumes "fs_inv C E M st" "codec_ok (c_accepted (k_inbox K))" "ed_ok C" "codec_ok (k_frame K)"
    and "res = accept_delivery C E M K identity me rec p st i item"
  shows "case dl_ack res of
      Some ack \<Rightarrow> i = delivery_id_for_item C K item
        \<and> verify_delivery_ack C K ack i (wire_encode (k_item K) item) (device_public C identity)
        \<and> inbox_seen (file_ops C E M) (k_inbox K) (dl_store res) i (item_digest C K item) = Ok Duplicate
    | None \<Rightarrow> dl_events res = []
        \<and> (\<forall>E' lock t st2 dir. rng_ok E' \<and> (\<forall>n. \<not> unreadable E' n)
             \<and> fs_open C E' M lock (fs_dir (dl_store res)) (fs_key st) t = (Ok st2, dir) \<longrightarrow>
               fs_get C E' st2 = fs_get C E st
               \<or> inbox_seen (file_ops C E' M) (k_inbox K) st2 i (item_digest C K item) = Ok Duplicate)"
proof (cases "dl_ack res")
  case (Some ack)
  with accept_delivery_step(3) [OF assms(1,2,5) Some] ack_frame_verifies [OF assms(3,4)] marked_settled
  show ?thesis unfolding delivery_id_ok_def by auto
next
  case None
  note step = accept_delivery_step [OF assms(1,2,5)]
  from assms(1) have ok: "aead_ok C" "codec_ok M" by (simp_all add: fs_inv_def)
  have "fs_get C E' st2 = fs_get C E st \<or> inbox_seen (file_ops C E' M) (k_inbox K) st2 i (item_digest C K item) = Ok Duplicate"
    if E': "rng_ok E'" "\<forall>n. \<not> unreadable E' n" and run: "fs_open C E' M lock (fs_dir (dl_store res)) (fs_key st) t = (Ok st2, dir)" for E' lock t st2 dir
  proof -
    from fs_open_logical(2) [OF ok(1) E'(1) run [folded step(1)] refl]
    have "fs_dir st2 JOURNAL_FILE = None" and log: "fs_logical C M st2 = fs_logical C M (dl_store res)" by auto
    with ok E' have inv: "fs_inv C E' M st2" by (simp add: fs_inv_def)
    from step(2) [OF None] show ?thesis
      using log marked_cong [OF log, of K i item] marked_settled [OF inv] fs_logical_get [OF inv] fs_logical_get [OF assms(1)] by auto
  qed
  with step(2) [OF None] None show ?thesis by simp blast
qed

theorem acknowledged_means_stored_witness:
  "\<exists>env ack res. res = accept_delivery sample_crypto sample_disk sample_batch sample_client (sample_identity 4) ''bo'' (sample_signed 1)
      sample_platform sample_store (sample_id (DirectItem env)) (DirectItem env)
    \<and> dl_ack res = Some ack \<and> dl_events res \<noteq> []
    \<and> verify_delivery_ack sample_crypto sample_client ack (sample_id (DirectItem env)) (wire_encode (k_item sample_client) (DirectItem env))
        (device_public sample_crypto (sample_identity 4))
    \<and> inbox_seen sample_ops sample_inbox (dl_store res) (sample_id (DirectItem env)) (item_digest sample_crypto sample_client (DirectItem env)) = Ok Duplicate"
proof -
  obtain env res where res: "res = accept_delivery sample_crypto sample_disk sample_batch sample_client (sample_identity 4) ''bo'' (sample_signed 1)
      sample_platform sample_store (sample_id (DirectItem env)) (DirectItem env)"
    and ev: "dl_ack res \<noteq> None" "dl_events res = [ReceiptEvent (env_user_id env) ''ari'' ''m1'' True]" by (rule sample_accept)
  from ev obtain ack where ack: "dl_ack res = Some ack" by blast
  have "codec_ok (c_accepted (k_inbox sample_client))" "ed_ok sample_crypto" "codec_ok (k_frame sample_client)"
    by (simp_all add: sample_ok)
  from acknowledged_means_stored [OF sample_fs_inv this res] res ack ev show ?thesis
    by (intro exI [of _ env] exI [of _ ack] exI [of _ res]) (simp add: sample_ops_def)
qed

text \<open>
  C18: one item is accepted once.  However often an item is delivered, under any write faults,
  crashes and restarts, and any other changes of the store, at most one delivery shows anything to
  the user, and that one is acknowledged.  Once a delivery was acknowledged, every later delivery
  to the working store is acknowledged again with no event and no change.
\<close>

theorem delivered_once:
  assumes "delivery_run C M K identity i item st0 st log" "aead_ok C" "codec_ok M" "codec_ok (c_accepted (k_inbox K))"
  shows "length (filter (\<lambda>(ack, events). events \<noteq> []) log) \<le> 1
    \<and> (\<forall>(ack, events) \<in> set log. events \<noteq> [] \<longrightarrow> ack \<noteq> None)
    \<and> ((\<exists>(ack, events) \<in> set log. ack \<noteq> None) \<and> fs_inv C E M st \<longrightarrow>
        accept_delivery C E M K identity me rec p st i item
          = \<lparr>dl_ack = Some (delivery_ack_frame C K identity i (wire_encode (k_item K) item)), dl_events = [], dl_store = st, dl_platform = p\<rparr>)"
  using delivery_run_once [OF assms] redelivery_acknowledged [of C E M st K i item identity me rec p]
  by (auto simp: split_def)

theorem delivered_once_witness:
  "\<exists>env st ack events. events \<noteq> []
    \<and> delivery_run sample_crypto sample_batch sample_client (sample_identity 4) (sample_id (DirectItem env)) (DirectItem env) sample_store st
        [(Some ack, events), (Some ack, [])]
    \<and> accept_delivery sample_crypto sample_disk sample_batch sample_client (sample_identity 4) ''bo'' (sample_signed 1) sample_platform st
        (sample_id (DirectItem env)) (DirectItem env)
      = \<lparr>dl_ack = Some ack, dl_events = [], dl_store = st, dl_platform = sample_platform\<rparr>"
proof -
  obtain env res where res: "res = accept_delivery sample_crypto sample_disk sample_batch sample_client (sample_identity 4) ''bo'' (sample_signed 1)
      sample_platform sample_store (sample_id (DirectItem env)) (DirectItem env)"
    and ev: "dl_ack res \<noteq> None" "dl_events res = [ReceiptEvent (env_user_id env) ''ari'' ''m1'' True]" by (rule sample_accept)
  from ev obtain ack where ack: "dl_ack res = Some ack" by blast
  let ?item = "DirectItem env" and ?st = "dl_store res"
  let ?run = "delivery_run sample_crypto sample_batch sample_client (sample_identity 4) (sample_id ?item) ?item sample_store"
  have codec: "codec_ok (c_accepted (k_inbox sample_client))" by (simp add: sample_ok)
  from sample_fs_inv have disk: "aead_ok sample_crypto" "rng_ok sample_disk" "codec_ok sample_batch" "\<forall>n. \<not> unreadable sample_disk n"
    by (simp_all add: fs_inv_def)
  note step = accept_delivery_step(3) [OF sample_fs_inv codec res ack]
  have run1: "?run ?st [(Some ack, dl_events res)]"
    using dr_attempt [OF dr_start disk(2,4) res] ack by simp
  have again: "accept_delivery sample_crypto sample_disk sample_batch sample_client (sample_identity 4) ''bo'' (sample_signed 1) sample_platform ?st
      (sample_id ?item) ?item = \<lparr>dl_ack = Some ack, dl_events = [], dl_store = ?st, dl_platform = sample_platform\<rparr>"
    using delivered_once [OF run1 disk(1,3) codec, of sample_disk "''bo''" "sample_signed 1" sample_platform] step by simp
  have "?run ?st [(Some ack, dl_events res), (Some ack, [])]"
    using dr_attempt [OF run1 disk(2,4) again [symmetric]] by simp
  with again ev(2) show ?thesis by (intro exI [of _ env] exI [of _ ?st] exI [of _ ack] exI [of _ "dl_events res"]) simp
qed

end
