(* ===== verification/GroupDelivery.thy ===== *)
theory GroupDelivery
  imports ClientSafety
begin

text \<open>
  The command line client's delivery closure (\<open>mycellium-cli/src/app/mod.rs\<close>) and what it means for
  group messages: a group message is one ciphertext for all members, and a delivery id is the digest
  of the sealed item, so all its deliveries share one id, which the outbox gives to one recipient.
\<close>

definition cli_deliver_or_park :: "'s storage \<Rightarrow> crypto \<Rightarrow> client_codecs \<Rightarrow> 'n network_env \<Rightarrow> u64 \<Rightarrow> ('n direct_network, 's) delivery_hook" where
  "cli_deliver_or_park S C K N now = (\<lambda>nw st recipient recipient_record d item pairwise_plaintext. case pairwise_plaintext of
      Some plaintext \<Rightarrow> deliver_pairwise_or_park S C K N nw st recipient recipient_record d item plaintext now
    | None \<Rightarrow> deliver_or_park S C K N nw st recipient recipient_record d item now)"

section \<open>The outbox as its contents\<close>

definition outbox_key :: "bytes \<Rightarrow> bool" where
  "outbox_key k \<longleftrightarrow> k = OUTBOX_INDEX_KEY \<or> k = OUTBOX_LEGACY_KEY \<or> k \<in> range entry_key"

lemma pins_not_outbox: "antirollback_key u \<noteq> OUTBOX_INDEX_KEY" "antirollback_key u \<noteq> OUTBOX_LEGACY_KEY" "antirollback_key u \<noteq> entry_key i"
  by (simp_all add: OUTBOX_INDEX_KEY_def OUTBOX_LEGACY_KEY_def entry_key_def antirollback_key_def str_bytes_def)

lemma outbox_key_simps [simp]: "outbox_key OUTBOX_INDEX_KEY" "outbox_key OUTBOX_LEGACY_KEY" "outbox_key (entry_key i)" "\<not> outbox_key (antirollback_key u)"
  by (simp_all add: outbox_key_def image_iff pins_not_outbox)

lemma outbox_load_cong:
  assumes "\<And>k. outbox_key k \<Longrightarrow> st_get S st k = st_get S' st' k"
  shows "outbox_load S c st = outbox_load S' c st'"
proof -
  have get: "io_get S st k = io_get S' st' k" if "outbox_key k" for k using assms [OF that] by (simp add: io_get_def)
  have "outbox_load_entries S c st ids = outbox_load_entries S' c st' ids" for ids
  proof (induction ids)
    case (Cons i ids)
    then show ?case by (simp only: outbox_load_entries.simps get outbox_key_simps)
  qed simp
  then have "outbox_load_entries S c st = outbox_load_entries S' c st'" by (rule ext)
  then show ?thesis unfolding outbox_load_def by (simp only: get outbox_key_simps)
qed

lemma outbox_entry_puts_cong:
  assumes "st_get S st = st_get S' st'"
  shows "outbox_entry_puts S c st es = outbox_entry_puts S' c st' es"
proof (induction es)
  case (Cons e es)
  then show ?case unfolding outbox_entry_puts.simps Let_def io_get_def assms by (simp only:)
qed simp

interpretation contents: kv_store contents "\<lambda>_. True"
  by unfold_locales (auto simp: contents_def)

lemma outbox_save_contents:
  assumes "fs_inv C E M st" "outbox_save (file_ops C E M) c st es = (r, st')"
  shows "fs_logical C M st' = fs_logical C M st \<or> outbox_save contents c (fs_logical C M st) es = (Ok (), fs_logical C M st')"
proof -
  let ?V = "fs_logical C M st"
  have get: "st_get (file_ops C E M) st = st_get contents ?V" using fs_logical_get [OF assms(1)] by (simp add: file_ops_def contents_def)
  have io: "io_get (file_ops C E M) st k = io_get contents ?V k" for k by (simp add: io_get_def get)
  have load: "outbox_load (file_ops C E M) c st = outbox_load contents c ?V" by (rule outbox_load_cong) (simp add: get)
  have puts: "outbox_entry_puts (file_ops C E M) c st es = outbox_entry_puts contents c ?V es" by (rule outbox_entry_puts_cong [OF get])
  have batch: "fs_logical C M (snd (io_batch (file_ops C E M) st ms)) = ?V
      \<or> io_batch contents ?V ms = (Ok (), fs_logical C M (snd (io_batch (file_ops C E M) st ms)))" for ms
  proof -
    obtain q st1 where run: "fs_apply_batch C E M st ms = (q, st1)" by fastforce
    from assms(1) have "aead_ok C" "rng_ok E" "codec_ok M" by (simp_all add: fs_inv_def)
    from fs_apply_batch_atomic(1) [OF this run] show ?thesis
      by (auto simp: io_batch_def file_ops_def contents_def run map_errS_def)
  qed
  have st': "st' = snd (outbox_save (file_ops C E M) c st es)" using assms(2) by simp
  show ?thesis unfolding st' outbox_save_def io load puts Let_def
    using batch by (auto simp: tryE_def simp del: io_get_Ok io_batch_Ok split: sum.split)
qed

text \<open>The delivery id belongs to a user: an outbox entry has it.\<close>

definition owned :: "crypto \<Rightarrow> storage_mutation list codec \<Rightarrow> outbox_codecs \<Rightarrow> string \<Rightarrow> user_id \<Rightarrow> file_store \<Rightarrow> bool" where
  "owned C M c i u st \<longleftrightarrow> (\<exists>es e. outbox_load contents c (fs_logical C M st) = Ok es \<and> List.find (\<lambda>e. ob_id e = i) es = Some e
     \<and> ob_recipient_user_id e = u)"

lemma outbox_load_ready:
  assumes "outbox_load (file_ops C E M) c st = Ok es"
  shows "fs_dir st JOURNAL_FILE = None"
proof (rule ccontr)
  assume "fs_dir st JOURNAL_FILE \<noteq> None"
  then have "\<exists>e. io_get (file_ops C E M) st k = Err e" for k
    by (auto simp: io_get_def file_ops_def fs_get_def ensure_ready_def)
  then obtain e where "io_get (file_ops C E M) st OUTBOX_INDEX_KEY = Err e" by blast
  with assms show False by (simp add: outbox_load_def)
qed

lemma outbox_load_contents:
  assumes "fs_inv C E M st"
  shows "outbox_load (file_ops C E M) c st = outbox_load contents c (fs_logical C M st)"
  by (rule outbox_load_cong) (simp add: file_ops_def contents_def fs_logical_get [OF assms])

text \<open>What is relied on of the disk and the ciphers: writes may fail at any point, reads do not.\<close>

definition disk_ok :: "crypto \<Rightarrow> fs_env \<Rightarrow> storage_mutation list codec \<Rightarrow> bool" where
  "disk_ok C E M \<longleftrightarrow> aead_ok C \<and> rng_ok E \<and> codec_ok M \<and> (\<forall>n. \<not> unreadable E n)"

lemma ready_inv: "disk_ok C E M \<Longrightarrow> fs_dir st JOURNAL_FILE = None \<Longrightarrow> fs_inv C E M st"
  by (simp add: fs_inv_def disk_ok_def)

lemma owned_load:
  assumes "disk_ok C E M" "owned C M c i u st" "outbox_load (file_ops C E M) c st = Ok es"
  shows "\<exists>e. List.find (\<lambda>e. ob_id e = i) es = Some e \<and> ob_recipient_user_id e = u"
  using assms outbox_load_contents [OF ready_inv [OF assms(1) outbox_load_ready [OF assms(3)]]] by (auto simp: owned_def)

text \<open>An id that belongs to one user cannot be parked for another.\<close>

lemma park_refused:
  assumes "disk_ok C E M" "owned C M (k_outbox K) (delivery_id_for_item C K item) u st" "rec_user_id (s_record r) \<noteq> u"
  shows "\<exists>e. park_outbox (file_ops C E M) (k_outbox K) st (delivery_id_for_item C K item) h r d item now = (Err e, st)"
proof (cases "outbox_load (file_ops C E M) (k_outbox K) st")
  case (Inl e)
  then show ?thesis by (simp add: park_outbox_def outbox_enqueue_def outbox_enqueue_pairwise_def outbox_enqueue_at_def)
next
  case (Inr es)
  with owned_load [OF assms(1,2)] obtain e where "List.find (\<lambda>e. ob_id e = delivery_id_for_item C K item) es = Some e" "ob_recipient_user_id e = u" by blast
  with Inr assms(3) show ?thesis by (simp add: park_outbox_def outbox_enqueue_def outbox_enqueue_pairwise_def outbox_enqueue_at_def)
qed

lemma find_snoc: "List.find p xs = None \<Longrightarrow> p x \<Longrightarrow> List.find p (xs @ [x]) = Some x"
  by (induction xs) (auto split: if_splits)

lemma parked_owned:
  assumes disk: "disk_ok C E M" and "outbox_codecs_ok (k_outbox K)" "park_outbox (file_ops C E M) (k_outbox K) st i h r d item now = (Ok (), st')"
  shows "fs_inv C E M st'" "owned C M (k_outbox K) i (rec_user_id (s_record r)) st'"
proof -
  let ?S = "file_ops C E M" and ?c = "k_outbox K" and ?u = "rec_user_id (s_record r)"
  from assms(3) obtain es where es: "outbox_load ?S ?c st = Ok es"
    by (auto simp: park_outbox_def outbox_enqueue_def outbox_enqueue_pairwise_def outbox_enqueue_at_def result_elims)
  have inv: "fs_inv C E M st" by (rule ready_inv [OF disk outbox_load_ready [OF es]])
  have "fs_inv C E M st' \<and> owned C M ?c i ?u st'"
  proof (cases "List.find (\<lambda>e. ob_id e = i) es")
    case None
    then obtain e where save: "outbox_save ?S ?c st (es @ [e]) = (Ok (), st')" and e: "ob_id e = i" "ob_recipient_user_id e = ?u"
      using assms(3) es by (auto simp: park_outbox_def outbox_enqueue_def outbox_enqueue_pairwise_def outbox_enqueue_at_def)
    note spec = fs.outbox_save_spec [OF inv assms(2) save]
    with outbox_load_contents [OF spec(1)] e find_snoc [OF None, of e] show ?thesis by (auto simp: owned_def)
  next
    case (Some e)
    with assms(3) es have "st' = st" "ob_recipient_user_id e = ?u"
      by (auto simp: park_outbox_def outbox_enqueue_def outbox_enqueue_pairwise_def outbox_enqueue_at_def split: if_splits)
    with inv es Some outbox_load_contents [OF inv] show ?thesis by (auto simp: owned_def)
  qed
  then show "fs_inv C E M st'" "owned C M ?c i ?u st'" by blast+
qed

lemma find_map_status:
  "List.find (\<lambda>e. ob_id e = i) es = Some e \<Longrightarrow> (\<And>e. ob_id (f e) = ob_id e \<and> ob_recipient_user_id (f e) = ob_recipient_user_id e) \<Longrightarrow>
   \<exists>e'. List.find (\<lambda>e. ob_id e = i) (map f es) = Some e' \<and> ob_recipient_user_id e' = ob_recipient_user_id e"
  by (induction es) (auto split: if_splits)

lemma mark_delivered_owned:
  assumes disk: "disk_ok C E M" and "outbox_codecs_ok c" "fs_inv C E M st" "owned C M c i u st"
  shows "owned C M c i u (snd (mark_delivered (file_ops C E M) c st j))"
proof (cases "outbox_load (file_ops C E M) c st")
  case (Inl e)
  with assms show ?thesis by (simp add: mark_delivered_def outbox_set_status_def)
next
  case (Inr es)
  let ?f = "\<lambda>e. if ob_id e = j then apply_status Delivered e else e"
  obtain r st' where save: "outbox_save (file_ops C E M) c st (map ?f es) = (r, st')" by fastforce
  from owned_load [OF disk assms(4) Inr] obtain e where e: "List.find (\<lambda>e. ob_id e = i) es = Some e" "ob_recipient_user_id e = u" by blast
  have keep: "ob_id (?f e) = ob_id e \<and> ob_recipient_user_id (?f e) = ob_recipient_user_id e" for e
    by (simp add: apply_status_def Let_def)
  from outbox_save_contents [OF assms(3) save] have "owned C M c i u st'"
  proof
    assume "fs_logical C M st' = fs_logical C M st"
    with assms(4) show ?thesis by (simp add: owned_def)
  next
    assume "outbox_save contents c (fs_logical C M st) (map ?f es) = (Ok (), fs_logical C M st')"
    from contents.outbox_save_spec(3) [OF _ assms(2) this] find_map_status [OF e(1), of ?f, OF keep] e(2) show ?thesis
      by (auto simp: owned_def)
  qed
  moreover have "snd (mark_delivered (file_ops C E M) c st j) \<in> {st, st'}"
    using Inr save by (cases r) (auto simp: mark_delivered_def outbox_set_status_def Let_def)
  ultimately show ?thesis using assms(4) by auto
qed

lemma deliver_cases:
  assumes disk: "disk_ok C E M" and "outbox_codecs_ok (k_outbox K)"
    and "deliver_or_park (file_ops C E M) C K N nw st h r d item now = (path, st', nw')"
  shows "path \<noteq> FailedPath \<Longrightarrow> owned C M (k_outbox K) (delivery_id_for_item C K item) (rec_user_id (s_record r)) st'"
    and "owned C M (k_outbox K) (delivery_id_for_item C K item) u st \<Longrightarrow> rec_user_id (s_record r) \<noteq> u \<Longrightarrow>
      path = FailedPath \<and> st' = st \<and> nw' = nw"
proof -
  let ?S = "file_ops C E M" and ?i = "delivery_id_for_item C K item"
  obtain q st1 where park: "park_outbox ?S (k_outbox K) st ?i h r d item now = (q, st1)" by fastforce
  obtain ok nw1 where push: "direct_push C K N nw d ?i item = (ok, nw1)" by fastforce
  show "path = FailedPath \<and> st' = st \<and> nw' = nw" if "owned C M (k_outbox K) ?i u st" "rec_user_id (s_record r) \<noteq> u"
    using park_refused [OF disk that, of h d now] assms(3) by (auto simp: deliver_or_park_def deliver_parked_def)
  assume path: "path \<noteq> FailedPath"
  with assms(3) park have q: "q = Ok ()" by (cases q) (auto simp: deliver_or_park_def deliver_parked_def)
  note spec = parked_owned [OF disk assms(2) park [unfolded q]]
  have "st' \<in> {st1, snd (mark_delivered ?S (k_outbox K) st1 ?i)}"
    using assms(3) park q push
    by (auto simp: deliver_or_park_def deliver_parked_def deliver_direct_def reachability_record_def Let_def is_delivered_def split: if_splits)
  with spec mark_delivered_owned [OF disk assms(2) spec] show "owned C M (k_outbox K) ?i (rec_user_id (s_record r)) st'" by auto
qed

lemma check_and_pin_store:
  "snd (check_and_pin S C P st uid sr) = st \<or> (\<exists>v. snd (check_and_pin S C P st uid sr) = snd (st_put S st (antirollback_key uid) v))"
proof (cases "antirollback_load S P st uid")
  case (Inr found)
  then show ?thesis by (cases found) (auto simp: check_and_pin_def tryS_def split: sum.split)
qed (simp add: check_and_pin_def)

lemma pin_keeps_owned:
  assumes "disk_ok C E M" "owned C M c i u st"
  shows "owned C M c i u (snd (check_and_pin (file_ops C E M) C P st uid sr))"
proof -
  let ?st = "snd (check_and_pin (file_ops C E M) C P st uid sr)"
  consider "?st = st" | v where "?st = snd (fs_put C E st (antirollback_key uid) v)"
    using check_and_pin_store [of "file_ops C E M" C P st uid sr] by (auto simp: file_ops_def)
  then show ?thesis
  proof cases
    case 1
    with assms show ?thesis by simp
  next
    case 2
    obtain q st' where put: "fs_put C E st (antirollback_key uid) v = (q, st')" by fastforce
    from assms(1) have "aead_ok C" "rng_ok E" by (simp_all add: disk_ok_def)
    from fs_put_atomic(1) [OF this put, of M]
    have "outbox_load contents c (fs_logical C M ?st) = outbox_load contents c (fs_logical C M st)"
      by (intro outbox_load_cong) (auto simp: 2 put contents_def)
    with assms show ?thesis by (simp add: owned_def)
  qed
qed

lemma resolve_keeps_owned:
  "disk_ok C E M \<Longrightarrow> owned C M c i u st \<Longrightarrow> owned C M c i u (snd (resolve_group_target (file_ops C E M) C F me st net m))"
  using resolve_group_target_store [of "file_ops C E M" C F me st net m] pin_keeps_owned by metis

lemma resolve_user: "resolve_group_target S C' F me st net m = (Some (h, r), st') \<Longrightarrow> rec_user_id (s_record r) = gmem_user_id m"
  by (auto simp: resolve_group_target_def ok_else_def Let_def user_id_new_def split: sum.splits prod.splits bool.splits if_splits)

lemma tally_failed [simp]: "so_direct (tally FailedPath out) = so_direct out" "so_outboxed (tally FailedPath out) = so_outboxed out"
  by (simp_all add: tally_def)

lemma fan_out_owned:
  assumes disk: "disk_ok C E M" and codecs: "outbox_codecs_ok (k_outbox K)"
  shows "owned C M (k_outbox K) (delivery_id_for_item C K item) u (fl_store w) \<Longrightarrow> u \<notin> gmem_user_id ` set members \<Longrightarrow>
    fan_out (file_ops C E M) C F me w net item members (cli_deliver_or_park (file_ops C E M) C K N now) out = (out', w') \<Longrightarrow>
    so_direct out' = so_direct out \<and> so_outboxed out' = so_outboxed out"
proof (induction members arbitrary: w out)
  case (Cons m members)
  let ?S = "file_ops C E M"
  obtain found st where res: "resolve_group_target ?S C F me (fl_store w) net m = (found, st)" by fastforce
  have own: "owned C M (k_outbox K) (delivery_id_for_item C K item) u st"
    using resolve_keeps_owned [OF disk Cons.prems(1), of F me net m] res by simp
  show ?case
  proof (cases found)
    case None
    with Cons.prems(3) res have "fan_out ?S C F me (w\<lparr>fl_store := st\<rparr>) net item members (cli_deliver_or_park ?S C K N now) out = (out', w')" by simp
    from Cons.IH [OF _ _ this] own Cons.prems(2) show ?thesis by simp
  next
    case (Some hr)
    obtain h r where hr: "hr = (h, r)" by fastforce
    have user: "rec_user_id (s_record r) \<noteq> u" using resolve_user [OF res [unfolded Some hr]] Cons.prems(2) by auto
    obtain path st1 nw1 where run: "deliver_or_park ?S C K N (fl_host w) st h r (rec_device (s_record r)) item now = (path, st1, nw1)" by (metis prod_cases3)
    have failed: "path = FailedPath \<and> st1 = st" using deliver_cases(2) [OF disk codecs run own user] by simp
    from Cons.prems(3) res Some hr run failed own Cons.prems(2)
    show ?thesis
      using Cons.IH [of "w\<lparr>fl_store := st\<rparr>" out] Cons.IH [of "w\<lparr>fl_store := st, fl_host := nw1\<rparr>" "tally FailedPath out"]
      by (auto simp: Let_def run_hook_def cli_deliver_or_park_def split: if_splits)
  qed
qed simp
lemma fan_out_one:
  assumes disk: "disk_ok C E M" and codecs: "outbox_codecs_ok (k_outbox K)"
  shows "distinct (map gmem_user_id members) \<Longrightarrow> so_direct out = 0 \<and> so_outboxed out = 0 \<Longrightarrow>
    fan_out (file_ops C E M) C F me w net item members (cli_deliver_or_park (file_ops C E M) C K N now) out = (out', w') \<Longrightarrow>
    unat (so_direct out') + unat (so_outboxed out') \<le> 1"
proof (induction members arbitrary: w out)
  case (Cons m members)
  let ?S = "file_ops C E M" and ?hook = "cli_deliver_or_park (file_ops C E M) C K N now"
  obtain found st where res: "resolve_group_target ?S C F me (fl_store w) net m = (found, st)" by fastforce
  note dist = Cons.prems(1) [simplified]
  show ?case
  proof (cases "\<exists>h r. found = Some (h, r) \<and> device_key (rec_device (s_record r)) \<noteq> device_public C me")
    case False
    with Cons.prems(3) res have "fan_out ?S C F me (w\<lparr>fl_store := st\<rparr>) net item members ?hook out = (out', w')"
      by (cases found) (auto simp: Let_def)
    from Cons.IH [OF _ Cons.prems(2) this] dist show ?thesis by simp
  next
    case True
    then obtain h r where hr: "found = Some (h, r)" "device_key (rec_device (s_record r)) \<noteq> device_public C me" by blast
    obtain path st1 nw1 where run: "deliver_or_park ?S C K N (fl_host w) st h r (rec_device (s_record r)) item now = (path, st1, nw1)" by (metis prod_cases3)
    have rest: "fan_out ?S C F me (w\<lparr>fl_store := st1, fl_host := nw1\<rparr>) net item members ?hook (tally path out) = (out', w')"
      using Cons.prems(3) res hr run by (simp add: Let_def run_hook_def cli_deliver_or_park_def)
    show ?thesis
    proof (cases "path = FailedPath")
      case True
      with Cons.IH [OF _ _ rest] dist Cons.prems(2) show ?thesis by simp
    next
      case False
      have "owned C M (k_outbox K) (delivery_id_for_item C K item) (gmem_user_id m) st1"
        using deliver_cases(1) [OF disk codecs run False] resolve_user [OF res [unfolded hr(1)]] by simp
      with fan_out_owned [OF disk codecs _ _ rest, of "gmem_user_id m"] dist
      have "so_direct out' = so_direct (tally path out)" "so_outboxed out' = so_outboxed (tally path out)" by auto
      with Cons.prems(2) False show ?thesis by (cases path) (simp_all add: tally_def)
    qed
  qed
qed simp

lemma group_send_fan_out:
  assumes "group_send S C F me w net h sr g app deliver = ((Ok out, g'), w')"
  shows "\<exists>w1 item w2. fan_out S C F me w1 net item (sg_members g) deliver (new_outcome (msg_id app)) = (out, w2)"
proof (cases "group_import C (sg_state g)")
  case (Inl e)
  with assms show ?thesis by (simp add: group_send_def)
next
  case (Inr session)
  obtain shared w1 where d: "distribute_key_inner S C F me w net h sr (sg_id g) (sg_name g) (group_distribution C session)
      (sg_members g) (sg_members g) (sg_key_shares g) deliver = (shared, w1)" by fastforce
  let ?g1 = "fold (\<lambda>share g. note_key_share g share) shared g"
  obtain s1 st1 where s1: "(if shared = [] then (Ok (), fl_store w1) else groups_save S (fc_groups F) (fl_store w1) ?g1) = (s1, st1)" by fastforce
  obtain e2 st2 where e2: "own_group_edit S F st1 (sg_id g) h app = (e2, st2)" by fastforce
  obtain gm session' where enc: "group_encrypt C session (app_encode (fc_app F) app) (group_ad (sg_id g)) = (gm, session')" by fastforce
  obtain s3 st3 where s3: "groups_save S (fc_groups F) st2 (?g1\<lparr>sg_state := group_export session'\<rparr>) = (s3, st3)" by fastforce
  obtain out1 w4 where f: "fan_out S C F me (w1\<lparr>fl_store := st3\<rparr>) net (GroupText (sg_id g) gm) (sg_members g) deliver (new_outcome (msg_id app)) = (out1, w4)"
    by fastforce
  note run = assms [unfolded group_send_def Inr sum.case d Let_def prod.case s1]
  have "out1 = out"
    using run e2 enc s3 f by (cases s1; cases e2; cases s3) (auto simp: fold_note_key_share split: if_splits sum.splits prod.splits)
  with f show ?thesis by blast
qed
lemma direct_push_acknowledged:
  assumes "direct_push C K N nw d i item = (True, nw')"
  shows "\<exists>t node bs. nv_send N t node (device_reticulum d) (wire_encode (k_frame K) (DeliveryFrame i item)) = Some bs
    \<and> verify_delivery_ack C K bs i (wire_encode (k_item K) item) (device_key d)"
  using assms by (auto simp: direct_push_def Let_def split: prod.splits option.splits)

lemma parked_entry:
  assumes "disk_ok C E M" "outbox_codecs_ok (k_outbox K)"
    and "park_outbox (file_ops C E M) (k_outbox K) st i h r d item now = (Ok (), st')"
  shows "\<exists>es e. outbox_load (file_ops C E M) (k_outbox K) st' = Ok es \<and> e \<in> set es \<and> ob_id e = i
    \<and> ob_recipient_user_id e = rec_user_id (s_record r) \<and> ob_slot e = device_slot (device_key d)
    \<and> ((\<forall>es0. outbox_load (file_ops C E M) (k_outbox K) st = Ok es0 \<longrightarrow> i \<notin> ob_id ` set es0) \<longrightarrow> is_pending e \<and> ob_item e = Some item)"
proof -
  let ?S = "file_ops C E M" and ?c = "k_outbox K"
  from assms(3) obtain es where es: "outbox_load ?S ?c st = Ok es"
    by (auto simp: park_outbox_def outbox_enqueue_def outbox_enqueue_pairwise_def outbox_enqueue_at_def result_elims)
  have inv: "fs_inv C E M st" by (rule ready_inv [OF assms(1) outbox_load_ready [OF es]])
  show ?thesis
  proof (cases "List.find (\<lambda>e. ob_id e = i) es")
    case None
    then obtain e where save: "outbox_save ?S ?c st (es @ [e]) = (Ok (), st')"
      and e: "ob_id e = i" "ob_recipient_user_id e = rec_user_id (s_record r)" "ob_slot e = device_slot (device_key d)" "is_pending e" "ob_item e = Some item"
      using assms(3) es by (auto simp: park_outbox_def outbox_enqueue_def outbox_enqueue_pairwise_def outbox_enqueue_at_def is_pending_def)
    with fs.outbox_save_spec(3) [OF inv assms(2) save] show ?thesis by (intro exI [of _ "es @ [e]"] exI [of _ e]) simp
  next
    case (Some e)
    with assms(3) es have "st' = st" "ob_recipient_user_id e = rec_user_id (s_record r)" "ob_slot e = device_slot (device_key d)"
      by (auto simp: park_outbox_def outbox_enqueue_def outbox_enqueue_pairwise_def outbox_enqueue_at_def split: if_splits)
    moreover have "e \<in> set es" "ob_id e = i" using Some by (auto dest: find_Some_prop)
    ultimately show ?thesis using es by (intro exI [of _ es] exI [of _ e]) auto
  qed
qed

section \<open>Properties\<close>

text \<open>
  C26: a reported outcome is true.  A delivery reported as direct was answered by an acknowledgement
  that verifies for the recipient's device, this delivery id and these bytes.  One reported as queued is
  in the stored outbox for the recipient and device, pending with the sealed item when its id was new.
  One reported as failed never reached the network: nothing is sent that was not stored first.
\<close>

theorem delivery_report_true:
  assumes "disk_ok C E M" "outbox_codecs_ok (k_outbox K)"
    and "deliver_or_park (file_ops C E M) C K N nw st h r d item now = (path, st', nw')"
    and "i = delivery_id_for_item C K item"
  shows "case path of
      Direct \<Rightarrow> \<exists>t node bs. nv_send N t node (device_reticulum d) (wire_encode (k_frame K) (DeliveryFrame i item)) = Some bs
        \<and> verify_delivery_ack C K bs i (wire_encode (k_item K) item) (device_key d)
    | OutboxPath \<Rightarrow> \<exists>es e. outbox_load (file_ops C E M) (k_outbox K) st' = Ok es \<and> e \<in> set es \<and> ob_id e = i
        \<and> ob_recipient_user_id e = rec_user_id (s_record r) \<and> ob_slot e = device_slot (device_key d)
        \<and> ((\<forall>es0. outbox_load (file_ops C E M) (k_outbox K) st = Ok es0 \<longrightarrow> i \<notin> ob_id ` set es0) \<longrightarrow> is_pending e \<and> ob_item e = Some item)
    | FailedPath \<Rightarrow> nw' = nw"
proof -
  obtain q st1 where park: "park_outbox (file_ops C E M) (k_outbox K) st i h r d item now = (q, st1)" by fastforce
  obtain ok nw1 where push: "direct_push C K N nw d i item = (ok, nw1)" by fastforce
  show ?thesis
  proof (cases q)
    case (Inl e)
    with assms(3,4) park show ?thesis by (auto simp: deliver_or_park_def deliver_parked_def)
  next
    case (Inr u)
    with assms(3,4) park push have "path = (if ok then Direct else OutboxPath)" "\<not> ok \<longrightarrow> st' = st1"
      by (auto simp: deliver_or_park_def deliver_parked_def deliver_direct_def reachability_record_def Let_def is_delivered_def split: if_splits)
    with push direct_push_acknowledged [of C K N nw d i item nw1] parked_entry [OF assms(1,2), of st i h r d item now st1] park Inr
    show ?thesis by (cases ok) auto
  qed
qed

definition no_agent :: registry_agent where
  "no_agent = \<lparr>ag_call = (\<lambda>_. Err Timeout), ag_email = \<lparr>json_to_vec = (\<lambda>_. None), json_from_slice = (\<lambda>_. None)\<rparr>,
     ag_expires = \<lparr>json_to_vec = (\<lambda>_. None), json_from_slice = (\<lambda>_. None)\<rparr>, ag_token = \<lparr>json_to_vec = (\<lambda>_. None), json_from_slice = (\<lambda>_. None)\<rparr>,
     ag_confirm = \<lparr>json_to_vec = (\<lambda>_. None), json_from_slice = (\<lambda>_. None)\<rparr>, ag_record = sample_codec s_signed_record\<rparr>"

definition offline :: "unit network_env" where
  "offline = \<lparr>nv_new = (\<lambda>_ _. None), nv_send = (\<lambda>_ _ _ _. None), nv_agent = (\<lambda>_. no_agent), nv_stopped = (\<lambda>_. False)\<rparr>"

lemma sample_disk_ok: "disk_ok sample_crypto sample_disk sample_batch"
  using sample_fs_inv by (simp add: fs_inv_def disk_ok_def)

lemma sample_parks:
  obtains st' nw' where "deliver_or_park sample_ops sample_crypto sample_client offline (network_new []) sample_store ''bob'' (sample_signed 1)
     (rec_device (s_record (sample_signed 1))) sample_item 7 = (OutboxPath, st', nw')"
proof -
  let ?d = "rec_device (s_record (sample_signed 1))" and ?i = "sample_id sample_item"
  have "\<exists>st'. outbox_save sample_ops sample_outbox_codecs sample_store [e] = (Ok (), st')" for e
    using sample_store_ops(2) by (simp add: outbox_save_def sample_outbox_empty sample_store_ops(3) Let_def del: io_batch_Ok)
  then obtain st' where "park_outbox sample_ops sample_outbox_codecs sample_store ?i ''bob'' (sample_signed 1) ?d sample_item 7 = (Ok (), st')"
    by (auto simp: park_outbox_def outbox_enqueue_def outbox_enqueue_pairwise_def outbox_enqueue_at_def sample_outbox_empty)
  moreover obtain nw' where "direct_push sample_crypto sample_client offline (network_new []) ?d ?i sample_item = (False, nw')"
    by (simp add: direct_push_def reticulum_def network_use_def network_new_def offline_def Let_def)
  ultimately have "deliver_or_park sample_ops sample_crypto sample_client offline (network_new []) sample_store ''bob'' (sample_signed 1) ?d sample_item 7
      = (OutboxPath, st', nw')"
    by (simp add: deliver_or_park_def deliver_parked_def deliver_direct_def reachability_record_def is_delivered_def Let_def)
  then show thesis by (rule that)
qed

theorem delivery_report_true_witness:
  "\<exists>st' nw'. deliver_or_park sample_ops sample_crypto sample_client offline (network_new []) sample_store ''bob'' (sample_signed 1)
       (rec_device (s_record (sample_signed 1))) sample_item 7 = (OutboxPath, st', nw')
     \<and> (\<exists>es e. outbox_load sample_ops sample_outbox_codecs st' = Ok es \<and> e \<in> set es \<and> is_pending e \<and> ob_item e = Some sample_item)"
proof -
  obtain st' nw' where run: "deliver_or_park sample_ops sample_crypto sample_client offline (network_new []) sample_store ''bob'' (sample_signed 1)
     (rec_device (s_record (sample_signed 1))) sample_item 7 = (OutboxPath, st', nw')" by (rule sample_parks)
  from delivery_report_true [OF sample_disk_ok _ run [unfolded sample_ops_def] refl] sample_outbox_codecs_ok
  have "\<exists>es e. outbox_load sample_ops sample_outbox_codecs st' = Ok es \<and> e \<in> set es \<and> is_pending e \<and> ob_item e = Some sample_item"
    using sample_outbox_empty by (auto simp: sample_ops_def)
  with run show ?thesis by blast
qed

text \<open>
  C13: a group message reaches at most one other member.  The message is one ciphertext, so its
  deliveries share one delivery id, and the outbox refuses an id that already belongs to another user:
  once it was delivered or queued for one member, delivering it to a different one fails without
  touching the store or the network, and a group send never counts more than one member as reached.
\<close>

theorem group_message_reaches_one:
  assumes "disk_ok C E M" "outbox_codecs_ok (k_outbox K)"
    and "deliver_or_park (file_ops C E M) C K N nw st h r d item now = (path, st1, nw1)" "path \<noteq> FailedPath"
    and "rec_user_id (s_record r') \<noteq> rec_user_id (s_record r)"
  shows "deliver_or_park (file_ops C E M) C K N nw1 st1 h' r' d' item now' = (FailedPath, st1, nw1)
    \<and> (\<forall>F me w net sr g app out g' w'. distinct (map gmem_user_id (sg_members g)) \<and>
        group_send (file_ops C E M) C F me w net h sr g app (cli_deliver_or_park (file_ops C E M) C K N now) = ((Ok out, g'), w') \<longrightarrow>
        unat (so_direct out) + unat (so_outboxed out) \<le> 1)"
proof (intro conjI allI impI)
  note own = deliver_cases(1) [OF assms(1,2,3,4)]
  obtain path' st2 nw2 where run: "deliver_or_park (file_ops C E M) C K N nw1 st1 h' r' d' item now' = (path', st2, nw2)" by (metis prod_cases3)
  from deliver_cases(2) [OF assms(1,2) run own assms(5)] run
  show "deliver_or_park (file_ops C E M) C K N nw1 st1 h' r' d' item now' = (FailedPath, st1, nw1)" by simp
next
  fix F me w net sr g app out g' w'
  assume a: "distinct (map gmem_user_id (sg_members g)) \<and>
    group_send (file_ops C E M) C F me w net h sr g app (cli_deliver_or_park (file_ops C E M) C K N now) = ((Ok out, g'), w')"
  then obtain w1 item' w2 where "fan_out (file_ops C E M) C F me w1 net item' (sg_members g)
      (cli_deliver_or_park (file_ops C E M) C K N now) (new_outcome (msg_id app)) = (out, w2)"
    using group_send_fan_out by blast
  from fan_out_one [OF assms(1,2) _ _ this] a show "unat (so_direct out) + unat (so_outboxed out) \<le> 1"
    by (simp add: new_outcome_def)
qed

theorem group_message_reaches_one_witness:
  "\<exists>st1 nw1. deliver_or_park sample_ops sample_crypto sample_client offline (network_new []) sample_store ''bob'' (sample_signed 1)
       (rec_device (s_record (sample_signed 1))) sample_item 7 = (OutboxPath, st1, nw1)
     \<and> deliver_or_park sample_ops sample_crypto sample_client offline nw1 st1 ''cy''
         ((sample_signed 1)\<lparr>s_record := (s_record (sample_signed 1))\<lparr>rec_user_id := ''x''\<rparr>\<rparr>)
         (rec_device (s_record (sample_signed 1))) sample_item 8 = (FailedPath, st1, nw1)"
proof -
  let ?r' = "(sample_signed 1)\<lparr>s_record := (s_record (sample_signed 1))\<lparr>rec_user_id := ''x''\<rparr>\<rparr>"
  obtain st1 nw1 where run: "deliver_or_park sample_ops sample_crypto sample_client offline (network_new []) sample_store ''bob'' (sample_signed 1)
     (rec_device (s_record (sample_signed 1))) sample_item 7 = (OutboxPath, st1, nw1)" by (rule sample_parks)
  have "length (rec_user_id (s_record (sample_signed 1))) = 64"
    by (simp add: sample_signed_def signed_record_sign_def sample_record_def user_id_from_wallet_def sample_crypto_def)
  then have "rec_user_id (s_record ?r') \<noteq> rec_user_id (s_record (sample_signed 1))"
    by (intro notI) (simp add: eq_commute [of "''x''"])
  from group_message_reaches_one [OF sample_disk_ok _ run [unfolded sample_ops_def] _ this, of "''cy''" "rec_device (s_record (sample_signed 1))" 8]
    sample_outbox_codecs_ok run show ?thesis by (auto simp: sample_ops_def)
qed

end
