(* ===== verification/IdentityFile.thy ===== *)
theory IdentityFile
  imports FileStore Ident RustStr
begin

text \<open>
  The identity at rest (\<open>mycellium-storage/src/seal.rs\<close> and \<open>store.rs\<close>): sealing under a passphrase,
  and the file that holds the sealed account.

  Argon2, the system's randomness, the JSON serializer and the terminal prompt are parameters
  (record \<open>seal_env\<close>); the calls of each are numbered.  The disk is the directory of a \<open>file_store\<close>,
  with full paths as names, under the write faults of \<open>fs_env\<close>; its key plays no role here.  Paths are
  Unix paths.  The configuration is set at most once per process and is the state of \<open>configure\<close>.
\<close>

section \<open>Sealing\<close>

record sealed =
  sl_salt :: bytes
  sl_nonce :: bytes
  sl_ciphertext :: bytes

record secret =
  sc_wallet_secret :: bytes
  sc_device_seed :: bytes

datatype seal_error = KeyDerivation string | SealRandom string | SealEncrypt | WrongKeyOrCorrupt | Corrupt

definition seal_error_display :: "seal_error \<Rightarrow> string" where
  "seal_error_display e = (case e of
      KeyDerivation t \<Rightarrow> ''key derivation failed: '' @ t
    | SealRandom t \<Rightarrow> ''failed to gather randomness: '' @ t
    | SealEncrypt \<Rightarrow> ''failed to seal secret''
    | WrongKeyOrCorrupt \<Rightarrow> ''wrong passphrase or corrupt data''
    | Corrupt \<Rightarrow> ''sealed data is corrupt'')"

record seal_env =
  se_argon2 :: "bytes \<Rightarrow> bytes \<Rightarrow> string + bytes"
  se_random :: "nat \<Rightarrow> nat \<Rightarrow> string + bytes"
  se_sealed :: "sealed json"
  se_secret :: "secret json"
  se_json_error :: string
  se_prompt :: "nat \<Rightarrow> string \<Rightarrow> string + string"

definition seal_derive_key :: "seal_env \<Rightarrow> string \<Rightarrow> bytes \<Rightarrow> seal_error + bytes" where
  "seal_derive_key X passphrase salt = map_err KeyDerivation (se_argon2 X (str_bytes passphrase) salt)"

definition seal :: "crypto \<Rightarrow> seal_env \<Rightarrow> nat \<Rightarrow> string \<Rightarrow> bytes \<Rightarrow> seal_error + bytes" where
  "seal C X t passphrase plaintext =
     tryR (map_err SealRandom (se_random X t 16)) (\<lambda>salt.
     tryR (map_err SealRandom (se_random X (Suc t) 12)) (\<lambda>nonce.
     tryR (seal_derive_key X passphrase salt) (\<lambda>key.
     let sealed = \<lparr>sl_salt = salt, sl_nonce = nonce, sl_ciphertext = chacha_encrypt C key nonce plaintext []\<rparr>
     in ok_or SealEncrypt (json_to_vec (se_sealed X) sealed))))"

definition unseal :: "crypto \<Rightarrow> seal_env \<Rightarrow> string \<Rightarrow> bytes \<Rightarrow> seal_error + bytes" where
  "unseal C X passphrase bs =
     tryR (ok_or Corrupt (json_from_slice (se_sealed X) bs)) (\<lambda>sealed.
     tryR (seal_derive_key X passphrase (sl_salt sealed)) (\<lambda>key.
     if length (sl_nonce sealed) \<noteq> 12 then Err Corrupt
     else ok_or WrongKeyOrCorrupt (chacha_decrypt C key (sl_nonce sealed) (sl_ciphertext sealed) [])))"

section \<open>Configuration\<close>

record client_config =
  cc_data_dir :: string
  cc_passphrase :: "string option"
  cc_display_name :: string
  cc_dht_bootstrap :: "string list"

definition default_config :: client_config where
  "default_config = \<lparr>cc_data_dir = ''.mycellium'', cc_passphrase = None, cc_display_name = [], cc_dht_bootstrap = []\<rparr>"

definition configure :: "client_config option \<Rightarrow> client_config \<Rightarrow> (any_error + unit) \<times> client_config option" where
  "configure cell c = (case cell of
      None \<Rightarrow> (Ok (), Some c)
    | Some _ \<Rightarrow> (Err (AnyMsg ''client storage is already configured''), cell))"

definition config_of :: "client_config option \<Rightarrow> client_config" where
  "config_of cell = (case cell of Some c \<Rightarrow> c | None \<Rightarrow> default_config)"

definition config_display_name :: "client_config option \<Rightarrow> string" where
  "config_display_name cell = cc_display_name (config_of cell)"

definition home :: "client_config option \<Rightarrow> string" where
  "home cell = cc_data_dir (config_of cell)"

definition path_join :: "string \<Rightarrow> string \<Rightarrow> string" where
  "path_join d name = (if d = [] then name else if last d = CHR ''/'' then d @ name else d @ ''/'' @ name)"

definition identity_path :: "string \<Rightarrow> string" where
  "identity_path d = path_join d ''identity.enc''"

definition exists_in :: "file_store \<Rightarrow> string \<Rightarrow> bool" where
  "exists_in disk d \<longleftrightarrow> fs_dir disk (identity_path d) \<noteq> None"

section \<open>Passphrases\<close>

definition MIN_PASSPHRASE_LEN :: nat where
  "MIN_PASSPHRASE_LEN = 8"

text \<open>\<open>chars().count()\<close>: the bytes that do not continue a character.\<close>

definition chars_count :: "string \<Rightarrow> nat" where
  "chars_count s = length (filter (\<lambda>c. \<not> utf8_cont (of_char c)) s)"

definition trim_line_end :: "string \<Rightarrow> string" where
  "trim_line_end s = rev (dropWhile (\<lambda>c. c = CHR 0x0D \<or> c = CHR 0x0A) (rev s))"

definition read_passphrase :: "seal_env \<Rightarrow> client_config option \<Rightarrow> nat \<Rightarrow> string \<Rightarrow> any_error + string" where
  "read_passphrase X cell n prompt = (case cc_passphrase (config_of cell) of
      Some p \<Rightarrow> Ok p
    | None \<Rightarrow>
        tryR (map_err AnyMsg (se_prompt X n (prompt @ '': ''))) (\<lambda>line.
        let line = trim_line_end line in
        if line = [] then Err (AnyMsg ''an empty passphrase is not allowed'') else Ok line))"

definition new_passphrase :: "seal_env \<Rightarrow> client_config option \<Rightarrow> string \<Rightarrow> any_error + string" where
  "new_passphrase X cell prompt =
     (if cc_passphrase (config_of cell) \<noteq> None then read_passphrase X cell 0 prompt
      else tryR (read_passphrase X cell 0 prompt) (\<lambda>first.
        tryR (map_err AnyMsg (se_prompt X 1 ''Confirm passphrase: '')) (\<lambda>again.
        if first \<noteq> trim_line_end again then Err (AnyMsg ''passphrases did not match'') else Ok first)))"

section \<open>The identity file\<close>

definition seal_identity :: "crypto \<Rightarrow> seal_env \<Rightarrow> nat \<Rightarrow> identity \<Rightarrow> string \<Rightarrow> any_error + bytes" where
  "seal_identity C X t i passphrase =
     tryR (ok_or (AnyMsg (se_json_error X)) (json_to_vec (se_secret X) \<lparr>sc_wallet_secret = wallet_secret i, sc_device_seed = device_seed i\<rparr>)) (\<lambda>plaintext.
     map_err (\<lambda>e. AnyMsg (''failed to encrypt identity: '' @ seal_error_display e)) (seal C X t passphrase plaintext))"

definition save_identity_with_passphrase_at ::
    "crypto \<Rightarrow> seal_env \<Rightarrow> fs_env \<Rightarrow> nat \<Rightarrow> file_store \<Rightarrow> string \<Rightarrow> identity \<Rightarrow> string \<Rightarrow> (any_error + unit) \<times> file_store" where
  "save_identity_with_passphrase_at C X E t disk d i passphrase =
     (if chars_count passphrase < MIN_PASSPHRASE_LEN then (Err (AnyMsg ''passphrase must be at least 8 characters''), disk)
      else tryE (seal_identity C X t i passphrase) disk (\<lambda>sealed.
        map_errS AnyIo (atomic_write E disk (identity_path d) sealed)))"

definition save_identity ::
    "crypto \<Rightarrow> seal_env \<Rightarrow> fs_env \<Rightarrow> nat \<Rightarrow> client_config option \<Rightarrow> file_store \<Rightarrow> identity \<Rightarrow> (any_error + unit) \<times> file_store" where
  "save_identity C X E t cell disk i =
     tryE (new_passphrase X cell ''Choose a passphrase to encrypt your identity'') disk (\<lambda>passphrase.
     save_identity_with_passphrase_at C X E t disk (home cell) i passphrase)"

definition open_identity_with_passphrase :: "crypto \<Rightarrow> seal_env \<Rightarrow> bytes \<Rightarrow> string \<Rightarrow> any_error + identity" where
  "open_identity_with_passphrase C X bs passphrase =
     tryR (map_err (\<lambda>e. case e of
         Corrupt \<Rightarrow> AnyMsg ''identity file is corrupt''
       | WrongKeyOrCorrupt \<Rightarrow> AnyMsg ''wrong passphrase or corrupt identity''
       | other \<Rightarrow> AnyMsg (seal_error_display other)) (unseal C X passphrase bs)) (\<lambda>plaintext.
     tryR (ok_or (AnyMsg ''decrypted identity is corrupt'') (json_from_slice (se_secret X) plaintext)) (\<lambda>s.
     if length (sc_device_seed s) \<noteq> 32 then Err (AnyMsg ''identity file has a malformed device seed'')
     else if length (sc_wallet_secret s) \<noteq> 32 then Err (AnyMsg ''identity file has a malformed wallet secret'')
     else map_err (\<lambda>_. AnyMsg ''stored account key is invalid'') (from_wallet_secret C (sc_wallet_secret s) (sc_device_seed s))))"

definition open_identity :: "crypto \<Rightarrow> seal_env \<Rightarrow> client_config option \<Rightarrow> bytes \<Rightarrow> any_error + identity" where
  "open_identity C X cell bs =
     tryR (read_passphrase X cell 0 ''Passphrase to unlock your identity'') (open_identity_with_passphrase C X bs)"

definition load_identity :: "crypto \<Rightarrow> seal_env \<Rightarrow> fs_env \<Rightarrow> client_config option \<Rightarrow> file_store \<Rightarrow> any_error + identity" where
  "load_identity C X E cell disk =
     tryR (map_err (\<lambda>_. AnyMsg (''no identity found '' @ em_dash @ '' run `mycellium identity-new` first''))
       (fs_read E disk (identity_path (home cell)))) (open_identity C X cell)"

definition load_identity_with_passphrase_from ::
    "crypto \<Rightarrow> seal_env \<Rightarrow> fs_env \<Rightarrow> file_store \<Rightarrow> string \<Rightarrow> string \<Rightarrow> any_error + identity" where
  "load_identity_with_passphrase_from C X E disk d passphrase =
     tryR (map_err (\<lambda>_. AnyMsg (''no identity found at '' @ identity_path d)) (fs_read E disk (identity_path d))) (\<lambda>bs.
     open_identity_with_passphrase C X bs passphrase)"

section \<open>What is relied on\<close>

text \<open>Argon2 with its default parameters accepts a salt of 16 bytes; the random source fills what is asked.\<close>

definition seal_env_ok :: "seal_env \<Rightarrow> bool" where
  "seal_env_ok X \<longleftrightarrow> (\<forall>p salt. length salt = 16 \<longrightarrow> is_ok (se_argon2 X p salt)) \<and> (\<forall>t n bs. se_random X t n = Ok bs \<longrightarrow> length bs = n)
     \<and> json_ok (se_sealed X) \<and> json_ok (se_secret X)"

section \<open>Facts\<close>

lemma unseal_seal:
  assumes "aead_ok C" "seal_env_ok X" "seal C X t passphrase plaintext = Ok bs"
  shows "unseal C X passphrase bs = Ok plaintext"
proof -
  from assms(3) obtain salt nonce key where s: "se_random X t 16 = Ok salt" "se_random X (Suc t) 12 = Ok nonce"
    "seal_derive_key X passphrase salt = Ok key"
    and b: "json_to_vec (se_sealed X) \<lparr>sl_salt = salt, sl_nonce = nonce, sl_ciphertext = chacha_encrypt C key nonce plaintext []\<rparr> = Some bs"
    by (auto simp: seal_def result_elims Let_def)
  have "length nonce = 12" using assms(2) s(2) by (auto simp: seal_env_ok_def)
  moreover have "json_from_slice (se_sealed X) bs = Some \<lparr>sl_salt = salt, sl_nonce = nonce, sl_ciphertext = chacha_encrypt C key nonce plaintext []\<rparr>"
    using assms(2) b unfolding seal_env_ok_def json_ok_def by (metis option.inject)
  ultimately show ?thesis using s(3) assms(1) by (simp add: unseal_def aead_okD)
qed

lemma open_sealed_identity:
  assumes "aead_ok C" "seal_env_ok X" "identity_ok C i" "length (wallet_secret i) = 32" "length (device_seed i) = 32"
    and "seal_identity C X t i passphrase = Ok bs"
  shows "open_identity_with_passphrase C X bs passphrase = Ok i"
proof -
  let ?s = "\<lparr>sc_wallet_secret = wallet_secret i, sc_device_seed = device_seed i\<rparr>"
  from assms(6) obtain plaintext where p: "json_to_vec (se_secret X) ?s = Some plaintext" and s: "seal C X t passphrase plaintext = Ok bs"
    by (auto simp: seal_identity_def result_elims)
  have "json_from_slice (se_secret X) plaintext = Some ?s"
    using assms(2) p unfolding seal_env_ok_def json_ok_def by (metis option.inject)
  with unseal_seal [OF assms(1,2) s] assms(3-5) show ?thesis
    by (simp add: open_identity_with_passphrase_def from_wallet_secret_def identity_ok_def)
qed

lemma save_identity_cases:
  assumes "save_identity_with_passphrase_at C X E t disk d i passphrase = (r, disk')"
  obtains e where "r = Err e" "disk' = disk"
  | bs where "chars_count passphrase \<ge> MIN_PASSPHRASE_LEN" "seal_identity C X t i passphrase = Ok bs"
      "fs_dir disk' = fs_dir disk \<or> fs_dir disk' = (fs_dir disk)(identity_path d \<mapsto> bs)"
      "r = Ok () \<longrightarrow> fs_dir disk' = (fs_dir disk)(identity_path d \<mapsto> bs)"
proof (cases "chars_count passphrase < MIN_PASSPHRASE_LEN")
  case True
  with assms that(1) show thesis by (auto simp: save_identity_with_passphrase_at_def)
next
  case False
  show thesis
  proof (cases "seal_identity C X t i passphrase")
    case (Inl e)
    with False assms that(1) show thesis by (auto simp: save_identity_with_passphrase_at_def)
  next
    case (Inr bs)
    with False assms have "map_errS AnyIo (atomic_write E disk (identity_path d) bs) = (r, disk')"
      by (simp add: save_identity_with_passphrase_at_def)
    with False Inr show thesis
      by (intro that(2)) (auto simp: atomic_write_def fs_write_def map_errS_def split: fault.splits)
  qed
qed

section \<open>Properties\<close>

text \<open>
  C33: the account survives on disk.  A successful save of an account is followed by a load, with the
  same passphrase, of exactly that account.  A save that fails at any point leaves the old file or
  the complete new one.  Accounts in other directories are untouched, and a passphrase of fewer than
  eight characters is refused before anything is written.
\<close>

theorem identity_file_survives:
  assumes "aead_ok C" "seal_env_ok X" "identity_ok C i" "length (wallet_secret i) = 32" "length (device_seed i) = 32"
    and "\<forall>n. \<not> unreadable E n" "save_identity_with_passphrase_at C X E t disk d i passphrase = (r, disk')"
  shows "(r = Ok () \<longrightarrow> load_identity_with_passphrase_from C X E disk' d passphrase = Ok i)
    \<and> (load_identity_with_passphrase_from C X E disk' d passphrase = Ok i \<or> fs_dir disk' = fs_dir disk)
    \<and> (identity_path d' \<noteq> identity_path d \<longrightarrow>
        load_identity_with_passphrase_from C X E disk' d' other = load_identity_with_passphrase_from C X E disk d' other)
    \<and> (chars_count passphrase < MIN_PASSPHRASE_LEN \<longrightarrow> r \<noteq> Ok () \<and> disk' = disk)"
  using assms(7)
proof (cases rule: save_identity_cases)
  case (1 e)
  then show ?thesis by simp
next
  case (2 bs)
  from open_sealed_identity [OF assms(1-5) 2(2)] 2(1,3,4) assms(6) show ?thesis
    by (auto simp: load_identity_with_passphrase_from_def fs_read_def)
qed

definition sample_seal :: seal_env where
  "sample_seal = \<lparr>se_argon2 = (\<lambda>p salt. Ok (replicate 32 (sum_list p + sum_list salt))), se_random = (\<lambda>t n. Ok (replicate n 5)),
     se_sealed = \<lparr>json_to_vec = (\<lambda>s. Some (wire_encode (sample_codec (s_pair s_bytes (s_pair s_bytes s_bytes))) (sl_salt s, sl_nonce s, sl_ciphertext s))),
       json_from_slice = (\<lambda>b. map_option (\<lambda>(s, n, c). \<lparr>sl_salt = s, sl_nonce = n, sl_ciphertext = c\<rparr>)
         (ok_opt (wire_decode (sample_codec (s_pair s_bytes (s_pair s_bytes s_bytes))) b)))\<rparr>,
     se_secret = \<lparr>json_to_vec = (\<lambda>s. Some (wire_encode (sample_codec (s_pair s_bytes s_bytes)) (sc_wallet_secret s, sc_device_seed s))),
       json_from_slice = (\<lambda>b. map_option (\<lambda>(w, d). \<lparr>sc_wallet_secret = w, sc_device_seed = d\<rparr>)
         (ok_opt (wire_decode (sample_codec (s_pair s_bytes s_bytes)) b)))\<rparr>,
     se_json_error = [], se_prompt = (\<lambda>_ _. Ok ''correct horse'')\<rparr>"

lemma sample_seal_ok: "seal_env_ok sample_seal"
  by (auto simp: seal_env_ok_def sample_seal_def json_ok_def is_ok_def sample_ok)

definition sample_account :: identity where
  "sample_account = (case identity_build sample_crypto (replicate 32 3) (replicate 32 4) of Ok i \<Rightarrow> i | Err _ \<Rightarrow> sample_identity 3)"

theorem identity_file_survives_witness:
  "\<exists>disk'. save_identity_with_passphrase_at sample_crypto sample_seal (sample_env (\<lambda>_. NoFault)) 0 sample_store ''home'' sample_account ''correct horse'' = (Ok (), disk')
     \<and> load_identity_with_passphrase_from sample_crypto sample_seal (sample_env (\<lambda>_. NoFault)) disk' ''home'' ''correct horse'' = Ok sample_account"
proof -
  let ?E = "sample_env (\<lambda>_. NoFault)"
  obtain i where i: "identity_build sample_crypto (replicate 32 3) (replicate 32 4) = Ok i" "sample_account = i"
    by (simp add: sample_account_def identity_build_def sample_crypto_def)
  have "wallet_secret i = replicate 32 3" "device_seed i = replicate 32 4" using i(1) by (auto simp: identity_build_def split: if_splits)
  with i have acc: "identity_ok sample_crypto sample_account" "length (wallet_secret sample_account) = 32" "length (device_seed sample_account) = 32"
    by (simp_all add: identity_ok_def)
  have "chars_count ''correct horse'' = 13" by code_simp
  then obtain disk' where run: "save_identity_with_passphrase_at sample_crypto sample_seal ?E 0 sample_store ''home'' sample_account ''correct horse'' = (Ok (), disk')"
    by (simp add: save_identity_with_passphrase_at_def seal_identity_def seal_def seal_derive_key_def sample_seal_def MIN_PASSPHRASE_LEN_def
      atomic_write_def fs_write_def sample_env_def map_errS_def Let_def)
  have "aead_ok sample_crypto" "\<forall>n. \<not> unreadable ?E n" using sample_fs_inv by (simp_all add: fs_inv_def)
  from identity_file_survives [OF this(1) sample_seal_ok acc this(2) run] run show ?thesis by blast
qed

end
