(* ===== verification/Backup.thy ===== *)
theory Backup
  imports IdentityFile "HOL-Library.Sublist"
begin

text \<open>
  Backups of the local data (\<open>mycellium-cli/src/app/backup.rs\<close>): exporting the account and its store to
  one file, importing such a file into a fresh data directory, and wiping the directory.

  The file system is a tree of nodes under paths, a path being the list of its components; the empty
  path is the current directory.  Every changing call is numbered and may fail before or after its
  effect, as in \<open>fs_env\<close>, and a recursive removal may fail half-way; a process that dies is the schedule
  in which all later calls fail before their effect.  Listing a directory is a parameter.  Node names are
  valid UTF-8, on which \<open>to_string_lossy\<close> is the identity; file modes are not modelled.
\<close>

section \<open>Paths\<close>

type_synonym path = "string list"

fun split_all :: "char \<Rightarrow> string \<Rightarrow> string list" where
  "split_all c [] = [[]]"
| "split_all c (x # xs) = (if x = c then [] # split_all c xs else (x # hd (split_all c xs)) # tl (split_all c xs))"

text \<open>\<open>Path::components\<close>: repeated and trailing separators and \<open>.\<close> are normalized away.\<close>

definition components :: "string \<Rightarrow> path" where
  "components s = (if s \<noteq> [] \<and> hd s = CHR ''/'' then [''/''] else []) @ filter (\<lambda>c. c \<noteq> [] \<and> c \<noteq> ''.'') (split_all (CHR ''/'') s)"

definition path_parent :: "path \<Rightarrow> path option" where
  "path_parent p = (if p = [] \<or> last p = ''/'' then None else Some (butlast p))"

definition path_file_name :: "path \<Rightarrow> string option" where
  "path_file_name p = (if p = [] \<or> last p = ''/'' \<or> last p = ''..'' then None else Some (last p))"

section \<open>The file system\<close>

datatype node = FileNode bytes | DirNode

record disk =
  dk_node :: "path \<Rightarrow> node option"
  dk_tick :: nat

record disk_env =
  de_fault :: "nat \<Rightarrow> fault"
  de_removed :: "nat \<Rightarrow> path \<Rightarrow> bool"
  de_list :: "(path \<Rightarrow> node option) \<Rightarrow> path \<Rightarrow> io_error + string list"
  de_lock :: try_lock
  de_store :: fs_env

definition disk_op :: "disk_env \<Rightarrow> disk \<Rightarrow> (disk \<Rightarrow> disk) \<Rightarrow> (io_error + unit) \<times> disk" where
  "disk_op E dk effect = (let next_tick = (\<lambda>dk. dk\<lparr>dk_tick := Suc (dk_tick dk)\<rparr>) in case de_fault E (dk_tick dk) of
      NoFault \<Rightarrow> (Ok (), next_tick (effect dk))
    | FaultBefore \<Rightarrow> (Err (IoOther ''operation failed''), next_tick dk)
    | FaultAfter \<Rightarrow> (Err (IoOther ''sync failed''), next_tick (effect dk)))"

definition disk_set :: "path \<Rightarrow> node \<Rightarrow> disk \<Rightarrow> disk" where
  "disk_set p n dk = dk\<lparr>dk_node := (dk_node dk)(p \<mapsto> n)\<rparr>"

definition disk_exists :: "disk \<Rightarrow> path \<Rightarrow> bool" where
  "disk_exists dk p \<longleftrightarrow> dk_node dk p \<noteq> None"

definition disk_read :: "disk_env \<Rightarrow> disk \<Rightarrow> string \<Rightarrow> io_error + bytes" where
  "disk_read E dk s = (if unreadable (de_store E) s then Err (IoOther ''read failed'')
     else case dk_node dk (components s) of Some (FileNode bs) \<Rightarrow> Ok bs | Some DirNode \<Rightarrow> Err (IoOther ''is a directory'') | None \<Rightarrow> Err NotFound)"

definition create_dir :: "disk_env \<Rightarrow> disk \<Rightarrow> path \<Rightarrow> (io_error + unit) \<times> disk" where
  "create_dir E dk p = (case dk_node dk p of
      Some DirNode \<Rightarrow> (Ok (), dk)
    | Some (FileNode _) \<Rightarrow> (Err (IoOther ''not a directory''), dk)
    | None \<Rightarrow> disk_op E dk (disk_set p DirNode))"

fun create_dirs :: "disk_env \<Rightarrow> disk \<Rightarrow> path list \<Rightarrow> (io_error + unit) \<times> disk" where
  "create_dirs E dk [] = (Ok (), dk)"
| "create_dirs E dk (p # ps) = tryS (create_dir E dk p) (\<lambda>_ dk. create_dirs E dk ps)"

definition create_private_dir :: "disk_env \<Rightarrow> disk \<Rightarrow> path \<Rightarrow> (io_error + unit) \<times> disk" where
  "create_private_dir E dk p = create_dirs E dk (map (\<lambda>k. take k p) [1..<Suc (length p)])"

definition disk_atomic_write :: "disk_env \<Rightarrow> disk \<Rightarrow> path \<Rightarrow> bytes \<Rightarrow> (io_error + unit) \<times> disk" where
  "disk_atomic_write E dk p bs =
     tryE (ok_or (IoOther ''path has no parent'') (path_parent p)) dk (\<lambda>parent.
     tryS (create_private_dir E dk parent) (\<lambda>_ dk.
     tryE (ok_or (IoOther ''invalid file name'') (path_file_name p)) dk (\<lambda>_.
     if dk_node dk p = Some DirNode then (Err (IoOther ''is a directory''), dk)
     else disk_op E dk (disk_set p (FileNode bs)))))"

definition remove_tree :: "path \<Rightarrow> disk \<Rightarrow> disk" where
  "remove_tree p dk = dk\<lparr>dk_node := (\<lambda>q. if prefix p q then None else dk_node dk q)\<rparr>"

definition remove_dir :: "disk_env \<Rightarrow> disk \<Rightarrow> path \<Rightarrow> (io_error + unit) \<times> disk" where
  "remove_dir E dk p =
     tryE (de_list E (dk_node dk) p) dk (\<lambda>names.
     if names \<noteq> [] \<or> path_file_name p = None then (Err (IoOther ''cannot remove directory''), dk)
     else disk_op E dk (remove_tree p))"

definition remove_dir_all :: "disk_env \<Rightarrow> disk \<Rightarrow> path \<Rightarrow> (io_error + unit) \<times> disk" where
  "remove_dir_all E dk p = (let t = dk_tick dk in case de_fault E t of
      NoFault \<Rightarrow> (Ok (), (remove_tree p dk)\<lparr>dk_tick := Suc t\<rparr>)
    | _ \<Rightarrow> (Err (IoOther ''remove failed''),
        dk\<lparr>dk_node := (\<lambda>q. if prefix p q \<and> de_removed E t q then None else dk_node dk q), dk_tick := Suc t\<rparr>))"

definition move_tree :: "path \<Rightarrow> path \<Rightarrow> disk \<Rightarrow> disk" where
  "move_tree p d dk = dk\<lparr>dk_node := (\<lambda>q. if prefix d q then dk_node dk (p @ drop (length d) q) else if prefix p q then None else dk_node dk q)\<rparr>"

definition rename_dir :: "disk_env \<Rightarrow> disk \<Rightarrow> path \<Rightarrow> path \<Rightarrow> (io_error + unit) \<times> disk" where
  "rename_dir E dk p d =
     (if \<not> disk_exists dk p then (Err NotFound, dk)
      else if disk_exists dk d \<and> \<not> (dk_node dk d = Some DirNode \<and> de_list E (dk_node dk) d = Ok []) then (Err (IoOther ''destination exists''), dk)
      else disk_op E dk (move_tree p d))"

definition sync_dir :: "disk_env \<Rightarrow> disk \<Rightarrow> path \<Rightarrow> (io_error + unit) \<times> disk" where
  "sync_dir E dk p = (if disk_exists dk p \<or> p = [] then disk_op E dk id else (Err NotFound, dk))"

text \<open>The disk as \<open>store.rs\<close> reads it.\<close>

definition disk_files :: "disk \<Rightarrow> file_store" where
  "disk_files dk = \<lparr>fs_dir = (\<lambda>s. case dk_node dk (components s) of Some (FileNode bs) \<Rightarrow> Some bs | _ \<Rightarrow> None), fs_key = [], fs_tick = 0\<rparr>"

section \<open>Opening the store of an account\<close>

definition LOCK_FILE :: string where
  "LOCK_FILE = ''.process-lock-v1''"

definition store_dir :: "client_config option \<Rightarrow> path" where
  "store_dir cell = components (home cell) @ [''history'']"

definition dir_view :: "disk \<Rightarrow> path \<Rightarrow> string \<Rightarrow> bytes option" where
  "dir_view dk h n = (case dk_node dk (h @ [n]) of Some (FileNode bs) \<Rightarrow> Some bs | _ \<Rightarrow> None)"

text \<open>The entries of the directory as opening the store left them.\<close>

definition dir_update :: "path \<Rightarrow> (string \<Rightarrow> bytes option) \<Rightarrow> disk \<Rightarrow> disk" where
  "dir_update h dir dk = dk\<lparr>dk_node := (\<lambda>q. if q \<noteq> [] \<and> butlast q = h \<and> dir (last q) \<noteq> dir_view dk h (last q)
     then map_option FileNode (dir (last q)) else dk_node dk q)\<rparr>"

definition open_lock_file :: "disk_env \<Rightarrow> disk \<Rightarrow> path \<Rightarrow> (io_error + unit) \<times> disk" where
  "open_lock_file E dk p = (case dk_node dk p of
      Some (FileNode _) \<Rightarrow> (Ok (), dk)
    | Some DirNode \<Rightarrow> (Err (IoOther ''is a directory''), dk)
    | None \<Rightarrow> disk_op E dk (disk_set p (FileNode [])))"

definition open_store ::
    "crypto \<Rightarrow> disk_env \<Rightarrow> storage_mutation list codec \<Rightarrow> disk \<Rightarrow> path \<Rightarrow> bytes \<Rightarrow> (io_error + unit) \<times> disk" where
  "open_store C E M dk h key =
     tryS (create_private_dir E dk h) (\<lambda>_ dk.
     tryS (open_lock_file E dk (h @ [LOCK_FILE])) (\<lambda>_ dk.
     let (r, dir) = fs_open C (de_store E) M (de_lock E) (dir_view dk h) key (dk_tick dk)
     in (tryR r (\<lambda>_. Ok ()), (dir_update h dir dk)\<lparr>dk_tick := Suc (dk_tick dk)\<rparr>)))"

definition open_history ::
    "crypto \<Rightarrow> disk_env \<Rightarrow> storage_mutation list codec \<Rightarrow> client_config option \<Rightarrow> disk \<Rightarrow> identity \<Rightarrow> (any_error + unit) \<times> disk" where
  "open_history C E M cell dk i =
     map_errS (\<lambda>_. AnyMsg ''could not open local history store'') (open_store C E M dk (store_dir cell) (storage_key C i))"
section \<open>The commands\<close>

definition wipe :: "disk_env \<Rightarrow> client_config option \<Rightarrow> disk \<Rightarrow> bool \<Rightarrow> (any_error + unit) \<times> disk" where
  "wipe E cell dk yes =
     (if \<not> yes then (Err (AnyMsg ''this erases ALL local data (identity + messages); re-run with --yes to confirm''), dk)
      else if disk_exists dk (components (home cell))
      then map_errS (\<lambda>_. AnyMsg ''could not wipe data directory'') (remove_dir_all E dk (components (home cell)))
      else (Ok (), dk))"

record backup =
  bk_identity :: bytes
  bk_store :: "(string \<times> bytes) list"

fun collect_entries :: "disk_env \<Rightarrow> disk \<Rightarrow> string \<Rightarrow> string list \<Rightarrow> io_error + (string \<times> bytes) list" where
  "collect_entries E dk h [] = Ok []"
| "collect_entries E dk h (n # ns) = (case dk_node dk (components h @ [n]) of
      Some (FileNode bs) \<Rightarrow>
        if unreadable (de_store E) (path_join h n) then Err (IoOther ''read failed'')
        else tryR (collect_entries E dk h ns) (\<lambda>es. Ok ((n, bs) # es))
    | _ \<Rightarrow> collect_entries E dk h ns)"

text \<open>Every regular file of the store's directory.\<close>

definition export_entries :: "disk_env \<Rightarrow> disk \<Rightarrow> string \<Rightarrow> any_error + (string \<times> bytes) list" where
  "export_entries E dk h =
     (if disk_exists dk (components h) then map_err AnyIo (tryR (de_list E (dk_node dk) (components h)) (collect_entries E dk h)) else Ok [])"

definition export_backup ::
    "crypto \<Rightarrow> seal_env \<Rightarrow> disk_env \<Rightarrow> storage_mutation list codec \<Rightarrow> backup codec \<Rightarrow> client_config option \<Rightarrow> disk \<Rightarrow> string \<Rightarrow>
     (any_error + unit) \<times> disk" where
  "export_backup C X E M B cell dk dest =
     tryE (load_identity C X (de_store E) cell (disk_files dk)) dk (\<lambda>i.
     tryS (open_history C E M cell dk i) (\<lambda>_ dk.
     tryE (map_err (\<lambda>_. AnyMsg ''could not read identity'') (disk_read E dk (identity_path (home cell)))) dk (\<lambda>ident.
     tryE (export_entries E dk (path_join (home cell) ''history'')) dk (\<lambda>entries.
     map_errS (\<lambda>_. AnyMsg ''could not write backup'')
       (disk_atomic_write E dk (components dest) (wire_encode B \<lparr>bk_identity = ident, bk_store = entries\<rparr>))))))"

definition entry_name_ok :: "string list \<Rightarrow> string \<Rightarrow> bool" where
  "entry_name_ok seen n \<longleftrightarrow> n \<noteq> [] \<and> even (length n) \<and> list_all is_ascii_hexdigit n \<and> n \<notin> set seen"

fun check_names :: "string list \<Rightarrow> (string \<times> bytes) list \<Rightarrow> any_error + unit" where
  "check_names seen [] = Ok ()"
| "check_names seen ((n, _) # es) =
     (if entry_name_ok seen n then check_names (n # seen) es
      else Err (AnyMsg ''backup contains an invalid or duplicate store entry name''))"

fun write_entries :: "disk_env \<Rightarrow> disk \<Rightarrow> path \<Rightarrow> (string \<times> bytes) list \<Rightarrow> (io_error + unit) \<times> disk" where
  "write_entries E dk h [] = (Ok (), dk)"
| "write_entries E dk h ((n, bs) # es) = tryS (disk_atomic_write E dk (h @ [n]) bs) (\<lambda>_ dk. write_entries E dk h es)"

definition staging_path :: "path \<Rightarrow> string \<Rightarrow> path" where
  "staging_path parent name = parent @ [''.'' @ name @ ''.import-staging'']"

text \<open>The closure of \<open>publish_backup_tree\<close>: build the tree in the staging directory and rename it.\<close>

definition stage_tree :: "disk_env \<Rightarrow> disk \<Rightarrow> path \<Rightarrow> backup \<Rightarrow> (io_error + unit) \<times> disk" where
  "stage_tree E dk staging b =
     (let h = staging @ [''history''] in
      tryS (create_private_dir E dk h) (\<lambda>_ dk.
      tryS (disk_atomic_write E dk (staging @ [''identity.enc'']) (bk_identity b)) (\<lambda>_ dk.
      tryS (write_entries E dk h (bk_store b)) (\<lambda>_ dk.
      tryS (sync_dir E dk h) (\<lambda>_ dk.
      sync_dir E dk staging)))))"

definition stage_and_rename :: "disk_env \<Rightarrow> disk \<Rightarrow> path \<Rightarrow> path \<Rightarrow> path \<Rightarrow> backup \<Rightarrow> (io_error + unit) \<times> disk" where
  "stage_and_rename E dk parent staging destination b =
     tryS (stage_tree E dk staging b) (\<lambda>_ dk.
     tryS (rename_dir E dk staging destination) (\<lambda>_ dk.
     sync_dir E dk parent))"

definition clear_destination :: "disk_env \<Rightarrow> disk \<Rightarrow> path \<Rightarrow> (any_error + unit) \<times> disk" where
  "clear_destination E dk destination =
     (if \<not> disk_exists dk destination then (Ok (), dk)
      else tryE (map_err AnyIo (de_list E (dk_node dk) destination)) dk (\<lambda>entries.
        if entries \<noteq> [] then (Err (AnyMsg ''data directory is not empty''), dk)
        else map_errS AnyIo (remove_dir E dk destination)))"

definition parent_or_here :: "path \<Rightarrow> path" where
  "parent_or_here p = (case path_parent p of Some d \<Rightarrow> d | None \<Rightarrow> [])"

definition discard_staging :: "disk_env \<Rightarrow> disk \<Rightarrow> path \<Rightarrow> (any_error + unit) \<times> disk" where
  "discard_staging E dk staging = (if disk_exists dk staging then map_errS AnyIo (remove_dir_all E dk staging) else (Ok (), dk))"

definition publish_backup_tree :: "disk_env \<Rightarrow> disk \<Rightarrow> path \<Rightarrow> backup \<Rightarrow> (any_error + unit) \<times> disk" where
  "publish_backup_tree E dk destination b =
     tryS (clear_destination E dk destination) (\<lambda>_ dk.
     let parent = parent_or_here destination in
     tryS (map_errS AnyIo (create_private_dir E dk parent)) (\<lambda>_ dk.
     tryE (ok_or (AnyMsg ''invalid data directory'') (path_file_name destination)) dk (\<lambda>name.
     let staging = staging_path parent name in
     tryS (discard_staging E dk staging) (\<lambda>_ dk.
     let (result, dk) = stage_and_rename E dk parent staging destination b
     in (map_err AnyIo result, if is_ok result then dk else snd (remove_dir_all E dk staging))))))"

definition import_backup ::
    "crypto \<Rightarrow> seal_env \<Rightarrow> disk_env \<Rightarrow> backup codec \<Rightarrow> client_config option \<Rightarrow> disk \<Rightarrow> string \<Rightarrow> (any_error + unit) \<times> disk" where
  "import_backup C X E B cell dk src =
     (if disk_exists dk (components (identity_path (home cell)))
      then (Err (AnyMsg (''an identity already exists at '' @ identity_path (home cell) @ '' '' @ em_dash @ '' import into a fresh configured data directory'')), dk)
      else tryE (map_err (\<lambda>_. AnyMsg ''could not read backup'') (disk_read E dk src)) dk (\<lambda>bs.
        tryE (map_err (\<lambda>_. AnyMsg ''not a valid backup file'') (wire_decode B bs)) dk (\<lambda>b.
        tryE (open_identity C X cell (bk_identity b)) dk (\<lambda>_.
        tryE (check_names [] (bk_store b)) dk (\<lambda>_.
        publish_backup_tree E dk (components (home cell)) b)))))"

section \<open>Path facts\<close>

lemma split_all_not_empty [simp]: "split_all c s \<noteq> []"
  by (induction s) auto

lemma split_all_append: "split_all c (s @ c # t) = split_all c s @ split_all c t"
  by (induction s) (auto simp: tl_append hd_append split: list.split)

lemma split_all_none: "c \<notin> set s \<Longrightarrow> split_all c s = [s]"
  by (induction s) auto

lemma components_sep:
  assumes "CHR ''/'' \<notin> set n" "n \<noteq> []" "n \<noteq> ''.''" "d \<noteq> []"
  shows "components (d @ ''/'' @ n) = components d @ [n]"
  using assms by (simp add: components_def split_all_append split_all_none)

lemma components_slash: "e \<noteq> [] \<Longrightarrow> components (e @ ''/'') = components e"
  using split_all_append [of "CHR ''/''" e "[]"] by (simp add: components_def)

lemma components_join:
  assumes n: "CHR ''/'' \<notin> set n" "n \<noteq> []" "n \<noteq> ''.''"
  shows "components (path_join d n) = components d @ [n]"
proof -
  have plain: "components n = [n]" using n by (cases n) (auto simp: components_def split_all_none)
  consider "d = []" | e where "d = e @ ''/''" "e \<noteq> []" | "d = ''/''" | "d \<noteq> []" "last d \<noteq> CHR ''/''"
    by (metis append_butlast_last_id append_Nil)
  then show ?thesis
  proof cases
    case 1
    with plain show ?thesis by (simp add: path_join_def) (simp add: components_def)
  next
    case (2 e)
    with n show ?thesis by (simp add: path_join_def components_slash) (simp add: components_sep [simplified])
  next
    case 3
    with n show ?thesis by (simp add: path_join_def components_def split_all_none)
  next
    case 4
    with n show ?thesis by (simp add: path_join_def components_sep [simplified])
  qed
qed

lemma components_identity: "components (identity_path d) = components d @ [''identity.enc'']"
  by (simp add: identity_path_def components_join)

lemma components_history: "components (path_join d ''history'') = components d @ [''history'']"
  by (simp add: components_join)

section \<open>What the calls do to the tree\<close>

lemma disk_op_cases:
  assumes "disk_op E dk effect = (r, dk')"
  obtains "dk_node dk' = dk_node (effect dk)" | "r \<noteq> Ok ()" "dk_node dk' = dk_node dk"
  using assms by (auto simp: disk_op_def Let_def split: fault.splits)

lemma create_dirs_nodes:
  assumes "create_dirs E dk ps = (r, dk')"
  shows "\<forall>q. dk_node dk' q = dk_node dk q \<or> (q \<in> set ps \<and> dk_node dk q = None \<and> dk_node dk' q = Some DirNode)"
    and "r = Ok () \<longrightarrow> (\<forall>p \<in> set ps. dk_node dk' p = Some DirNode)"
proof -
  have "(\<forall>q. dk_node dk' q = dk_node dk q \<or> (q \<in> set ps \<and> dk_node dk q = None \<and> dk_node dk' q = Some DirNode))
     \<and> (r = Ok () \<longrightarrow> (\<forall>p \<in> set ps. dk_node dk' p = Some DirNode))"
    using assms
  proof (induction ps arbitrary: dk)
    case (Cons p ps)
    obtain q dk1 where run: "create_dir E dk p = (q, dk1)" by fastforce
    have step: "dk_node dk1 = dk_node dk \<or> (dk_node dk p = None \<and> dk_node dk1 = (dk_node dk)(p \<mapsto> DirNode))" "q = Ok () \<longrightarrow> dk_node dk1 p = Some DirNode"
      using run by (auto simp: create_dir_def disk_op_def disk_set_def Let_def split: option.splits node.splits fault.splits)
    show ?case
    proof (cases q)
      case (Inl e)
      with Cons.prems run step show ?thesis by (auto split: if_splits)
    next
      case (Inr u)
      with Cons.prems run have "create_dirs E dk1 ps = (r, dk')" by simp
      from Cons.IH [OF this] step Inr show ?thesis by (auto split: if_splits) (metis option.distinct(1))+
    qed
  qed simp
  then show "\<forall>q. dk_node dk' q = dk_node dk q \<or> (q \<in> set ps \<and> dk_node dk q = None \<and> dk_node dk' q = Some DirNode)"
    "r = Ok () \<longrightarrow> (\<forall>p \<in> set ps. dk_node dk' p = Some DirNode)" by blast+
qed

lemma set_path_prefixes: "set (map (\<lambda>k. take k p) [1..<Suc (length p)]) = {q. q \<noteq> [] \<and> prefix q p}"
proof (intro equalityI subsetI)
  fix q assume "q \<in> {q. q \<noteq> [] \<and> prefix q p}"
  then have "q = take (length q) p" "length q \<in> {1..<Suc (length p)}" by (auto simp: prefix_def Suc_le_eq)
  then show "q \<in> set (map (\<lambda>k. take k p) [1..<Suc (length p)])" unfolding set_map set_upt by (rule image_eqI)
qed (auto simp: take_is_prefix)

lemma create_private_dir_nodes:
  assumes "create_private_dir E dk p = (r, dk')"
  shows "dk_node dk' q = dk_node dk q \<or> (q \<noteq> [] \<and> prefix q p \<and> dk_node dk q = None \<and> dk_node dk' q = Some DirNode)"
    and "r = Ok () \<Longrightarrow> q \<noteq> [] \<Longrightarrow> prefix q p \<Longrightarrow> dk_node dk' q = Some DirNode"
  using create_dirs_nodes [OF assms [unfolded create_private_dir_def]] unfolding set_path_prefixes by auto

section \<open>Exports\<close>

text \<open>Opening the store leaves every name that is neither an entry nor the journal as it was.\<close>

definition foreign_name :: "string \<Rightarrow> bool" where
  "foreign_name n \<longleftrightarrow> n \<noteq> JOURNAL_FILE \<and> (\<forall>k. n \<noteq> fs_path k)"

lemma put_raw_foreign: "foreign_name n \<Longrightarrow> fs_dir (snd (put_raw C E st k v)) n = fs_dir st n"
  by (auto simp: put_raw_def fs_encrypt_def atomic_write_def fs_write_def foreign_name_def tryS_def split: option.split fault.split)

lemma delete_raw_foreign: "foreign_name n \<Longrightarrow> fs_dir (snd (delete_raw E st k)) n = fs_dir st n"
  by (auto simp: delete_raw_def fs_write_def foreign_name_def split: option.split fault.split)
lemma fs_apply_foreign: "foreign_name n \<Longrightarrow> fs_dir (snd (fs_apply C E st ms)) n = fs_dir st n"
  unfolding fs_apply_def
proof (induction ms arbitrary: st)
  case (Cons m ms)
  let ?step = "case m of Put key value \<Rightarrow> put_raw C E st key value | Delete key \<Rightarrow> delete_raw E st key"
  have "fs_dir (snd ?step) n = fs_dir st n"
    using Cons.prems by (simp add: put_raw_foreign delete_raw_foreign split: storage_mutation.split)
  with Cons show ?case by (simp add: tryS_def split: sum.split)
qed simp

lemma fs_open_foreign:
  assumes "foreign_name n"
  shows "snd (fs_open C E M lock dir key start) n = dir n"
proof -
  let ?st = "\<lparr>fs_dir = dir, fs_key = key, fs_tick = start\<rparr>"
  have finish: "fs_dir (snd (finish_transaction E st)) n = fs_dir st n" for st
    using assms by (auto simp: finish_transaction_def fs_write_def foreign_name_def split: fault.split)
  have "fs_dir (snd (recover_transaction C E M ?st)) n = dir n"
    using fs_apply_foreign [OF assms, of C E ?st]
    by (auto simp: recover_transaction_def tryE_def tryS_def finish split: sum.split io_error.split)
  then show ?thesis by (auto simp: fs_open_def Let_def split: try_lock.split prod.split sum.split)
qed

lemma lock_file_foreign: "foreign_name LOCK_FILE"
proof -
  have "\<not> list_all is_lower_hex LOCK_FILE" by (simp add: LOCK_FILE_def is_lower_hex_dot)
  moreover have "list_all is_lower_hex (fs_path k)" for k by (simp add: fs_path_def hex_lower)
  moreover have "LOCK_FILE \<noteq> JOURNAL_FILE" by (simp add: LOCK_FILE_def JOURNAL_FILE_def)
  ultimately show ?thesis unfolding foreign_name_def by metis
qed

text \<open>Opening a store leaves its lock file in the directory.\<close>

lemma open_store_lock:
  assumes "open_store C E M dk h key = (Ok (), dk')" "h \<noteq> []"
  shows "\<exists>bs. dk_node dk' (h @ [LOCK_FILE]) = Some (FileNode bs)" "dk_node dk' h = Some DirNode"
proof -
  from assms obtain dk1 dk2 r dir where made: "create_private_dir E dk h = (Ok (), dk1)"
    and lock: "open_lock_file E dk1 (h @ [LOCK_FILE]) = (Ok (), dk2)"
    and opened: "fs_open C (de_store E) M (de_lock E) (dir_view dk2 h) key (dk_tick dk2) = (r, dir)"
    and dk': "dk' = (dir_update h dir dk2)\<lparr>dk_tick := Suc (dk_tick dk2)\<rparr>"
    by (auto simp: open_store_def result_elims Let_def split_beta intro: that [OF _ _ prod.collapse [symmetric]])
  from lock obtain bs where bs: "dk_node dk2 (h @ [LOCK_FILE]) = Some (FileNode bs)"
    by (auto simp: open_lock_file_def disk_op_def disk_set_def Let_def split: option.splits node.splits fault.splits)
  have "dir LOCK_FILE = dir_view dk2 h LOCK_FILE" using fs_open_foreign [OF lock_file_foreign] opened by (metis snd_conv)
  with bs show "\<exists>bs. dk_node dk' (h @ [LOCK_FILE]) = Some (FileNode bs)" by (simp add: dk' dir_update_def)
  have "dk_node dk1 h = Some DirNode" by (rule create_private_dir_nodes(2) [OF made refl assms(2)]) simp
  with lock have "dk_node dk2 h = Some DirNode"
    by (auto simp: open_lock_file_def disk_op_def disk_set_def Let_def split: option.splits node.splits fault.splits)
  moreover have "butlast h \<noteq> h" using assms(2) by (metis length_butlast length_0_conv diff_less le_zero_eq less_irrefl less_one linorder_not_less)
  ultimately show "dk_node dk' h = Some DirNode" by (simp add: dk' dir_update_def)
qed

lemma dir_update_same: "dir_update h (dir_view dk h) dk = dk"
  by (simp add: dir_update_def)

text \<open>A directory listing names exactly the entries of the directory.\<close>

definition listing_ok :: "disk_env \<Rightarrow> bool" where
  "listing_ok E \<longleftrightarrow> (\<forall>nodes p names. de_list E nodes p = Ok names \<longrightarrow> set names = {n. nodes (p @ [n]) \<noteq> None})"

lemma collect_entries_file:
  "collect_entries E dk h ns = Ok es \<Longrightarrow> n \<in> set ns \<Longrightarrow> dk_node dk (components h @ [n]) = Some (FileNode bs) \<Longrightarrow> (n, bs) \<in> set es"
  by (induction ns arbitrary: es) (auto simp: result_elims split: option.splits node.splits if_splits)

lemma check_names_hex: "check_names seen es = Ok () \<Longrightarrow> (n, bs) \<in> set es \<Longrightarrow> list_all is_ascii_hexdigit n"
  by (induction seen es rule: check_names.induct) (auto simp: entry_name_ok_def split: if_splits)

lemma lock_file_not_hex: "\<not> list_all is_ascii_hexdigit LOCK_FILE"
  by (simp add: LOCK_FILE_def is_ascii_hexdigit_def)

lemma disk_atomic_write_stored: "disk_atomic_write E dk p bs = (Ok (), dk') \<Longrightarrow> dk_node dk' p = Some (FileNode bs)"
  by (auto simp: disk_atomic_write_def disk_op_def disk_set_def Let_def result_elims split: if_splits fault.splits)

lemma export_holds_lock:
  assumes "listing_ok E" "export_backup C X E M B cell dk dest = (Ok (), dk')"
  shows "\<exists>ident entries bs. dk_node dk' (components dest) = Some (FileNode (wire_encode B \<lparr>bk_identity = ident, bk_store = entries\<rparr>))
    \<and> (LOCK_FILE, bs) \<in> set entries"
proof -
  let ?h = "path_join (home cell) ''history''"
  from assms(2) obtain i dk1 ident entries where opened: "open_history C E M cell dk i = (Ok (), dk1)"
    and entries: "export_entries E dk1 ?h = Ok entries"
    and written: "disk_atomic_write E dk1 (components dest) (wire_encode B \<lparr>bk_identity = ident, bk_store = entries\<rparr>) = (Ok (), dk')"
    unfolding export_backup_def by (auto simp: tryE_Ok tryS_Ok map_errS_Ok)
  from opened obtain bs where lock: "dk_node dk1 (components ?h @ [LOCK_FILE]) = Some (FileNode bs)" and dir: "disk_exists dk1 (components ?h)"
    unfolding open_history_def map_errS_Ok store_dir_def components_history disk_exists_def using open_store_lock by blast
  with entries obtain names where names: "de_list E (dk_node dk1) (components ?h) = Ok names" "collect_entries E dk1 ?h names = Ok entries"
    by (auto simp: export_entries_def result_elims)
  with assms(1) lock have "LOCK_FILE \<in> set names" by (auto simp: listing_ok_def)
  from collect_entries_file [OF names(2) this lock] have "(LOCK_FILE, bs) \<in> set entries" .
  with disk_atomic_write_stored [OF written] show ?thesis by blast
qed
lemma import_refused:
  assumes "codec_ok B" "disk_read E dk src = Ok (wire_encode B b)" "(n, bs) \<in> set (bk_store b)" "\<not> list_all is_ascii_hexdigit n"
  shows "\<exists>e. import_backup C X E B cell dk src = (Err e, dk)"
proof -
  have "check_names [] (bk_store b) \<noteq> Ok ()" using check_names_hex assms(3,4) by blast
  then obtain e where "check_names [] (bk_store b) = Err e" by (cases "check_names [] (bk_store b)") auto
  with assms(1,2) show ?thesis by (cases "open_identity C X cell (bk_identity b)") (auto simp: import_backup_def)
qed

section \<open>Imports\<close>

text \<open>Every node lies in a directory.\<close>

definition tree_ok :: "disk \<Rightarrow> bool" where
  "tree_ok dk \<longleftrightarrow> (\<forall>q n. q \<noteq> [] \<longrightarrow> dk_node dk (q @ [n]) \<noteq> None \<longrightarrow> dk_node dk q = Some DirNode)"

definition below :: "disk \<Rightarrow> path \<Rightarrow> path \<Rightarrow> node option" where
  "below dk p q = dk_node dk (p @ q)"

lemma tree_ok_absent:
  assumes "tree_ok dk" "p \<noteq> []" "dk_node dk p = None"
  shows "below dk p q = None"
proof (induction q rule: rev_induct)
  case Nil
  with assms(3) show ?case by (simp add: below_def)
next
  case (snoc n q)
  then have "dk_node dk (p @ q) \<noteq> Some DirNode" by (simp add: below_def)
  moreover have "p @ q \<noteq> []" using assms(2) by simp
  ultimately have "dk_node dk ((p @ q) @ [n]) = None" using assms(1) unfolding tree_ok_def by blast
  then show ?case by (simp add: below_def)
qed

lemma tree_ok_no_entries:
  assumes "tree_ok dk" "p \<noteq> []" "\<And>n. dk_node dk (p @ [n]) = None" "q \<noteq> []"
  shows "below dk p q = None"
proof -
  obtain n r where q: "q = n # r" using assms(4) by (cases q) auto
  have "below dk (p @ [n]) r = None" using assms(3) by (intro tree_ok_absent [OF assms(1)]) simp_all
  then show ?thesis by (simp add: below_def q)
qed

text \<open>The tree of a backup, relative to its data directory.\<close>

definition entry_tree :: "(path \<Rightarrow> node option) \<Rightarrow> (string \<times> bytes) list \<Rightarrow> path \<Rightarrow> node option" where
  "entry_tree m es q = (case q of
      [h, n] \<Rightarrow> if h = ''history'' then (case map_of es n of Some bs \<Rightarrow> Some (FileNode bs) | None \<Rightarrow> m q) else m q
    | _ \<Rightarrow> m q)"

definition backup_tree :: "backup \<Rightarrow> path \<Rightarrow> node option" where
  "backup_tree b = entry_tree [[] \<mapsto> DirNode, [''history''] \<mapsto> DirNode, [''identity.enc''] \<mapsto> FileNode (bk_identity b)] (bk_store b)"

lemma entry_tree_Nil [simp]: "entry_tree m [] = m"
  by (rule ext) (simp add: entry_tree_def split: list.split)

lemma entry_tree_Cons:
  assumes "n \<notin> fst ` set es"
  shows "entry_tree m ((n, bs) # es) = entry_tree (m([''history'', n] \<mapsto> FileNode bs)) es"
proof -
  have "map_of es n = None" using assms by (auto simp: map_of_eq_None_iff)
  then show ?thesis by (intro ext) (auto simp: entry_tree_def split: list.split option.split)
qed

text \<open>A change that stays below a directory, up to creating the directories above it.\<close>

definition stays_below :: "path \<Rightarrow> disk \<Rightarrow> disk \<Rightarrow> bool" where
  "stays_below s dk dk' \<longleftrightarrow> (\<forall>q. \<not> prefix s q \<longrightarrow> \<not> prefix q s \<longrightarrow> dk_node dk' q = dk_node dk q)"

lemma stays_below_refl [simp]: "stays_below s dk dk"
  by (simp add: stays_below_def)

lemma stays_below_trans: "stays_below s dk dk1 \<Longrightarrow> stays_below s dk1 dk2 \<Longrightarrow> stays_below s dk dk2"
  by (simp add: stays_below_def)

lemma stays_below_nodes: "dk_node dk' = dk_node dk \<Longrightarrow> stays_below s dk dk'"
  by (simp add: stays_below_def)

lemma create_private_dir_stays:
  assumes "create_private_dir E dk p = (r, dk')" "prefix s p"
  shows "stays_below s dk dk'"
  unfolding stays_below_def
proof (intro allI impI)
  fix q assume "\<not> prefix s q" "\<not> prefix q s"
  with assms(2) have "\<not> prefix q p" by (metis prefix_same_cases)
  with create_private_dir_nodes(1) [OF assms(1)] show "dk_node dk' q = dk_node dk q" by metis
qed

lemma disk_op_set:
  assumes "disk_op E dk (disk_set p n) = (r, dk')"
  shows "dk_node dk' = dk_node dk \<or> dk_node dk' = (dk_node dk)(p \<mapsto> n)" "r = Ok () \<Longrightarrow> dk_node dk' = (dk_node dk)(p \<mapsto> n)"
  using assms by (auto simp: disk_op_def disk_set_def Let_def split: fault.splits)

lemma atomic_write_run:
  assumes "disk_atomic_write E dk (p @ [n]) bs = (r, dk')" "n \<noteq> ''/''"
  obtains q dk1 where "create_private_dir E dk p = (q, dk1)" "dk_node dk' = dk_node dk1 \<or> dk_node dk' = (dk_node dk1)(p @ [n] \<mapsto> FileNode bs)"
    "r = Ok () \<longrightarrow> q = Ok () \<and> dk_node dk' = (dk_node dk1)(p @ [n] \<mapsto> FileNode bs)"
proof -
  obtain q dk1 where made: "create_private_dir E dk p = (q, dk1)" by fastforce
  show thesis
  proof (rule that [OF made])
    from assms made show "dk_node dk' = dk_node dk1 \<or> dk_node dk' = (dk_node dk1)(p @ [n] \<mapsto> FileNode bs)"
      by (cases q) (auto simp: disk_atomic_write_def path_parent_def path_file_name_def split: if_splits dest: disk_op_set(1))
    from assms made show "r = Ok () \<longrightarrow> q = Ok () \<and> dk_node dk' = (dk_node dk1)(p @ [n] \<mapsto> FileNode bs)"
      by (cases q) (auto simp: disk_atomic_write_def path_parent_def path_file_name_def split: if_splits dest: disk_op_set(2))
  qed
qed

lemma atomic_write_stays:
  assumes "disk_atomic_write E dk (p @ [n]) bs = (r, dk')" "n \<noteq> ''/''" "prefix s p"
  shows "stays_below s dk dk'"
  using assms(1,2)
proof (cases rule: atomic_write_run)
  case (1 q dk1)
  from create_private_dir_stays [OF 1(1) assms(3)] have "stays_below s dk dk1" .
  moreover have "stays_below s dk1 dk'" using 1(2) assms(3) by (auto simp: stays_below_def)
  ultimately show ?thesis by (rule stays_below_trans)
qed

lemma atomic_write_below:
  assumes "disk_atomic_write E dk (s @ p @ [n]) bs = (Ok (), dk')" "n \<noteq> ''/''" "\<And>q. prefix q p \<Longrightarrow> below dk s q = Some DirNode" "s \<noteq> []"
  shows "below dk' s = (below dk s)(p @ [n] \<mapsto> FileNode bs)"
proof -
  from assms(1,2) obtain q dk1 where made: "create_private_dir E dk (s @ p) = (q, dk1)" and "dk_node dk' = (dk_node dk1)((s @ p) @ [n] \<mapsto> FileNode bs)"
    by (metis atomic_write_run append_assoc)
  moreover have "below dk1 s = below dk s"
  proof (rule ext)
    fix q show "below dk1 s q = below dk s q"
      using create_private_dir_nodes(1) [OF made, of "s @ q"] assms(3) [of q] by (auto simp: below_def)
  qed
  ultimately show ?thesis by (auto simp: below_def fun_eq_iff)
qed
lemma tryS_stays:
  assumes "stays_below s dk (snd rs)" "\<And>a dk1. rs = (Ok a, dk1) \<Longrightarrow> stays_below s dk1 (snd (f a dk1))"
  shows "stays_below s dk (snd (tryS rs f))"
  using assms by (cases rs; cases "fst rs") (auto intro: stays_below_trans)

lemma sync_dir_nodes [simp]: "dk_node (snd (sync_dir E dk p)) = dk_node dk"
  by (simp add: sync_dir_def disk_op_def Let_def split: fault.split)

lemma sync_dir_stays: "stays_below s dk (snd (sync_dir E dk p))"
  by (rule stays_below_nodes) simp

lemma remove_dir_all_below:
  "\<not> prefix s q \<Longrightarrow> dk_node (snd (remove_dir_all E dk s)) q = dk_node dk q"
  "remove_dir_all E dk s = (Ok (), dk') \<Longrightarrow> below dk' s q = None"
  by (auto simp: remove_dir_all_def remove_tree_def below_def Let_def split: fault.splits)

definition plain_names :: "(string \<times> bytes) list \<Rightarrow> bool" where
  "plain_names es \<longleftrightarrow> distinct (map fst es) \<and> (\<forall>n \<in> fst ` set es. n \<noteq> ''/'')"

lemma check_names_plain: "check_names seen es = Ok () \<Longrightarrow> plain_names es \<and> set seen \<inter> fst ` set es = {}"
proof (induction seen es rule: check_names.induct)
  case (2 seen n bs es)
  then have "entry_name_ok seen n" "plain_names es \<and> set (n # seen) \<inter> fst ` set es = {}" by (auto split: if_splits)
  moreover have "\<not> list_all is_ascii_hexdigit ''/''" by (simp add: is_ascii_hexdigit_def)
  ultimately show ?case by (auto simp: plain_names_def entry_name_ok_def)
qed (simp add: plain_names_def)

lemma write_entries_stays:
  "plain_names es \<Longrightarrow> prefix s h \<Longrightarrow> stays_below s dk (snd (write_entries E dk h es))"
proof (induction es arbitrary: dk)
  case (Cons e es)
  obtain n bs where e: "e = (n, bs)" by fastforce
  from Cons.prems e have n: "n \<noteq> ''/''" "plain_names es" by (auto simp: plain_names_def)
  have "stays_below s dk (snd (disk_atomic_write E dk (h @ [n]) bs))"
    using atomic_write_stays [OF prod.collapse [symmetric] n(1) Cons.prems(2)] .
  with Cons n show ?case unfolding e write_entries.simps by (intro tryS_stays) auto
qed simp

lemma write_entries_below:
  assumes "write_entries E dk (s @ [''history'']) es = (Ok (), dk')" "plain_names es" "s \<noteq> []"
    and "below dk s [] = Some DirNode" "below dk s [''history''] = Some DirNode"
  shows "below dk' s = entry_tree (below dk s) es"
  using assms
proof (induction es arbitrary: dk)
  case (Cons e es)
  obtain n bs where e: "e = (n, bs)" by fastforce
  from Cons.prems(1) obtain dk1 where written: "disk_atomic_write E dk (s @ [''history''] @ [n]) bs = (Ok (), dk1)"
    and rest: "write_entries E dk1 (s @ [''history'']) es = (Ok (), dk')"
    by (auto simp: e result_elims)
  have n: "n \<noteq> ''/''" "plain_names es" "n \<notin> fst ` set es" using Cons.prems(2) by (auto simp: plain_names_def e)
  have dirs: "below dk s q = Some DirNode" if "prefix q [''history'']" for q
    using that Cons.prems(4,5) by (auto simp: prefix_Cons)
  from atomic_write_below [OF written n(1) dirs Cons.prems(3)]
  have step: "below dk1 s = (below dk s)([''history'', n] \<mapsto> FileNode bs)" by simp
  have "below dk' s = entry_tree (below dk1 s) es"
    by (rule Cons.IH [OF rest n(2) Cons.prems(3)]) (simp_all add: step Cons.prems(4,5))
  then show ?case unfolding e step entry_tree_Cons [OF n(3)] .
qed simp

lemma stage_tree_stays:
  assumes "plain_names (bk_store b)"
  shows "stays_below s dk (snd (stage_tree E dk s b))"
proof -
  have "stays_below s dk (snd (create_private_dir E dk (s @ [''history''])))" for dk
    using create_private_dir_stays [OF prod.collapse [symmetric]] by (metis prefixI)
  moreover have "stays_below s dk (snd (disk_atomic_write E dk (s @ [''identity.enc'']) (bk_identity b)))" for dk
    by (rule atomic_write_stays [OF prod.collapse [symmetric]]) simp_all
  moreover have "stays_below s dk (snd (write_entries E dk (s @ [''history'']) (bk_store b)))" for dk
    by (rule write_entries_stays [OF assms]) simp
  ultimately show ?thesis unfolding stage_tree_def Let_def by (intro tryS_stays sync_dir_stays)
qed

lemma stage_tree_below:
  assumes "stage_tree E dk s b = (Ok (), dk')" "plain_names (bk_store b)" "s \<noteq> []" "below dk s = (\<lambda>_. None)"
  shows "below dk' s = backup_tree b"
proof -
  from assms(1) obtain dk1 dk2 dk3 dk4 where made: "create_private_dir E dk (s @ [''history'']) = (Ok (), dk1)"
    and ident: "disk_atomic_write E dk1 (s @ [] @ [''identity.enc'']) (bk_identity b) = (Ok (), dk2)"
    and entries: "write_entries E dk2 (s @ [''history'']) (bk_store b) = (Ok (), dk3)"
    and synced: "sync_dir E dk3 (s @ [''history'']) = (Ok (), dk4)" "sync_dir E dk4 s = (Ok (), dk')"
    by (auto simp: stage_tree_def Let_def result_elims)
  have same: "dk_node dk' = dk_node dk3" using sync_dir_nodes synced by (metis snd_conv)
  have dirs: "below dk1 s = [[] \<mapsto> DirNode, [''history''] \<mapsto> DirNode]"
  proof (rule ext)
    fix q
    have "below dk s q = None" using assms(4) by simp
    moreover have "prefix (s @ q) (s @ [''history'']) \<longleftrightarrow> q = [] \<or> q = [''history'']" by (auto simp: prefix_Cons)
    ultimately show "below dk1 s q = [[] \<mapsto> DirNode, [''history''] \<mapsto> DirNode] q"
      using create_private_dir_nodes [OF made, of "s @ q"] assms(3) by (auto simp: below_def)
  qed
  have "below dk2 s = (below dk1 s)([] @ [''identity.enc''] \<mapsto> FileNode (bk_identity b))"
    by (rule atomic_write_below [OF ident]) (simp_all add: dirs assms(3))
  then have files: "below dk2 s = [[] \<mapsto> DirNode, [''history''] \<mapsto> DirNode, [''identity.enc''] \<mapsto> FileNode (bk_identity b)]"
    by (simp add: dirs)
  have "below dk3 s = entry_tree (below dk2 s) (bk_store b)"
    by (rule write_entries_below [OF entries assms(2,3)]) (simp_all add: files)
  moreover have "below dk' s = below dk3 s" by (simp add: below_def same fun_eq_iff)
  ultimately show ?thesis by (simp add: files backup_tree_def)
qed
lemma rename_dir_outcome:
  assumes "rename_dir E dk p d = (r, dk')"
  shows "dk_node dk' = dk_node dk \<or> dk_node dk' = dk_node (move_tree p d dk)" "r = Ok () \<longrightarrow> dk_node dk' = dk_node (move_tree p d dk)"
  using assms by (auto simp: rename_dir_def disk_op_def Let_def split: if_splits fault.splits)

text \<open>Publishing replaces the absent destination by the complete tree in one step, or not at all.\<close>

lemma stage_and_rename_outcome:
  assumes run: "stage_and_rename E dk parent s d b = (r, dk')" and plain: "plain_names (bk_store b)"
    and clean: "s \<noteq> []" "below dk s = (\<lambda>_. None)"
    and apart: "\<And>q. prefix d q \<Longrightarrow> \<not> prefix s q" "\<And>q. prefix d q \<Longrightarrow> \<not> prefix q s"
  shows "\<forall>q. \<not> prefix s q \<longrightarrow> \<not> prefix q s \<longrightarrow> \<not> prefix d q \<longrightarrow> dk_node dk' q = dk_node dk q"
    and "below dk' d = below dk d \<or> below dk' d = backup_tree b" and "r = Ok () \<longrightarrow> below dk' d = backup_tree b"
proof -
  obtain r1 dk1 where staged: "stage_tree E dk s b = (r1, dk1)" by fastforce
  obtain r2 dk2 where renamed: "rename_dir E dk1 s d = (r2, dk2)" by fastforce
  have keep: "stays_below s dk dk1" using stage_tree_stays [OF plain, of s dk E] staged by simp
  have same: "below dk1 d = below dk d" using keep apart by (auto simp: stays_below_def below_def fun_eq_iff)
  have moved: "below (move_tree s d dk1) d = below dk1 s" by (simp add: move_tree_def below_def fun_eq_iff)
  have "(\<forall>q. \<not> prefix s q \<longrightarrow> \<not> prefix q s \<longrightarrow> \<not> prefix d q \<longrightarrow> dk_node dk' q = dk_node dk q)
     \<and> (below dk' d = below dk d \<or> below dk' d = backup_tree b) \<and> (r = Ok () \<longrightarrow> below dk' d = backup_tree b)"
  proof (cases "r1 = Ok ()")
    case False
    then have "r \<noteq> Ok ()" "dk' = dk1" using run staged by (cases r1; auto simp: stage_and_rename_def)+
    with keep same show ?thesis by (simp add: stays_below_def)
  next
    case True
    from stage_tree_below [OF staged [unfolded True] plain clean] have full: "below dk1 s = backup_tree b" .
    have nodes: "dk_node dk' = dk_node dk2" and ok: "r = Ok () \<longrightarrow> r2 = Ok ()"
      using run staged True renamed sync_dir_nodes [of E dk2 parent] by (cases r2; auto simp: stage_and_rename_def)+
    from rename_dir_outcome [OF renamed] nodes ok
    consider "dk_node dk' = dk_node dk1" "r \<noteq> Ok ()" | "dk_node dk' = dk_node (move_tree s d dk1)" by metis
    then show ?thesis
    proof cases
      case 1
      with keep same show ?thesis by (simp add: stays_below_def below_def fun_eq_iff)
    next
      case 2
      then have "below dk' d = backup_tree b" using moved full by (simp add: below_def fun_eq_iff)
      with 2 keep show ?thesis by (auto simp: stays_below_def move_tree_def)
    qed
  qed
  then show "\<forall>q. \<not> prefix s q \<longrightarrow> \<not> prefix q s \<longrightarrow> \<not> prefix d q \<longrightarrow> dk_node dk' q = dk_node dk q"
    "below dk' d = below dk d \<or> below dk' d = backup_tree b" "r = Ok () \<longrightarrow> below dk' d = backup_tree b" by blast+
qed

lemma clear_destination_outcome:
  assumes "clear_destination E dk d = (r, dk')" "listing_ok E" "tree_ok dk" "d \<noteq> []"
  shows "(\<forall>q. \<not> prefix d q \<longrightarrow> dk_node dk' q = dk_node dk q)
    \<and> (below dk' d = below dk d \<or> (\<forall>q. q \<noteq> [] \<longrightarrow> below dk d q = None) \<and> below dk' d = (\<lambda>_. None))
    \<and> (r = Ok () \<longrightarrow> (\<forall>q. q \<noteq> [] \<longrightarrow> below dk d q = None) \<and> below dk' d = (\<lambda>_. None))"
proof (cases "disk_exists dk d \<and> de_list E (dk_node dk) d = Ok []")
  case True
  then have "set [] = {n. dk_node dk (d @ [n]) \<noteq> None}" using assms(2) unfolding listing_ok_def by blast
  then have "\<And>n. dk_node dk (d @ [n]) = None" by auto
  from tree_ok_no_entries [OF assms(3,4) this] have "\<forall>q. q \<noteq> [] \<longrightarrow> below dk d q = None" by blast
  with assms(1) True show ?thesis
    by (auto simp: clear_destination_def remove_dir_def disk_op_def remove_tree_def below_def Let_def fun_eq_iff split: if_splits fault.splits)
next
  case False
  show ?thesis
  proof (cases "disk_exists dk d")
    case True
    with False assms(1) have "r \<noteq> Ok ()" "dk' = dk"
      by (cases "de_list E (dk_node dk) d"; auto simp: clear_destination_def)+
    then show ?thesis by simp
  next
    case False
    with tree_ok_absent [OF assms(3,4)] assms(1) show ?thesis by (auto simp: clear_destination_def disk_exists_def fun_eq_iff)
  qed
qed
text \<open>The staging directory beside a data directory, and what an import may touch.\<close>

definition staging_of :: "path \<Rightarrow> path" where
  "staging_of d = staging_path (parent_or_here d) (last d)"

definition touches_only :: "path \<Rightarrow> disk \<Rightarrow> disk \<Rightarrow> bool" where
  "touches_only d dk dk' \<longleftrightarrow> (\<forall>q. \<not> prefix d q \<longrightarrow> \<not> prefix q d \<longrightarrow> \<not> prefix (staging_of d) q \<longrightarrow> dk_node dk' q = dk_node dk q)"

lemma touches_only_trans: "touches_only d dk dk1 \<Longrightarrow> touches_only d dk1 dk2 \<Longrightarrow> touches_only d dk dk2"
  by (simp add: touches_only_def)

lemma prefix_parent:
  assumes "prefix q (parent_or_here d)" "q \<noteq> []"
  shows "prefix q d \<and> \<not> prefix d q"
proof -
  have d: "parent_or_here d = butlast d" "d \<noteq> []"
    using assms by (auto simp: parent_or_here_def path_parent_def split: if_splits)
  have "\<not> prefix d q"
  proof
    assume "prefix d q"
    with assms(1) d have "length d \<le> length (butlast d)" by (metis prefix_length_le order_trans)
    with d(2) show False by (cases d rule: rev_cases) simp_all
  qed
  with assms(1) d show ?thesis by (metis append_butlast_last_id prefix_append)
qed

lemma named_path: "path_file_name d = Some name \<Longrightarrow> d = parent_or_here d @ [name] \<and> name = last d"
  by (auto simp: path_file_name_def parent_or_here_def path_parent_def split: if_splits)

lemma sibling_prefix: "prefix (p @ [a]) q \<Longrightarrow> prefix (p @ [b]) q \<Longrightarrow> a = b"
  by (auto simp: prefix_def)

lemma staging_apart:
  assumes "path_file_name d = Some name" "prefix d q"
  shows "\<not> prefix (staging_of d) q" "\<not> prefix q (staging_of d)"
proof -
  let ?s = "''.'' @ name @ ''.import-staging''"
  from named_path [OF assms(1)] have d: "d = parent_or_here d @ [name]" and l: "last d = name" by blast+
  have sd: "staging_of d = parent_or_here d @ [?s]" by (simp add: staging_of_def staging_path_def l)
  have "length ?s \<noteq> length name" by simp
  then have ne: "?s \<noteq> name" by metis
  have q: "prefix (parent_or_here d @ [name]) q" by (rule subst [OF d, of "\<lambda>d. prefix d q"]) (rule assms(2))
  show "\<not> prefix (staging_of d) q" using sibling_prefix [OF _ q] ne unfolding sd by blast
  show "\<not> prefix q (staging_of d)"
  proof
    assume "prefix q (staging_of d)"
    from sibling_prefix [OF _ prefix_order.trans [OF q this], of ?s] ne show False unfolding sd by blast
  qed
qed

lemma staging_prefix:
  assumes "path_file_name d = Some name" "prefix q (staging_of d)" "\<not> prefix (staging_of d) q"
  shows "prefix q d"
proof -
  have "q = staging_of d \<or> prefix q (parent_or_here d)" using assms(2) unfolding staging_of_def staging_path_def by (simp only: prefix_snoc)
  with assms(3) have "prefix q (parent_or_here d)" by (metis prefix_order.refl)
  with prefix_parent [of q d] show ?thesis by (cases "q = []") auto
qed

lemma create_parent_outcome:
  assumes "create_private_dir E dk (parent_or_here d) = (r, dk')"
  shows "touches_only d dk dk'" "below dk' d = below dk d" "path_file_name d \<noteq> None \<Longrightarrow> below dk' (staging_of d) = below dk (staging_of d)"
proof -
  have same: "dk_node dk' q = dk_node dk q" if "\<not> (prefix q d \<and> \<not> prefix d q)" for q
    using create_private_dir_nodes(1) [OF assms, of q] prefix_parent [of q d] that by auto
  then show "touches_only d dk dk'" by (simp add: touches_only_def)
  from same show "below dk' d = below dk d" by (simp add: below_def fun_eq_iff)
  show "below dk' (staging_of d) = below dk (staging_of d)" if "path_file_name d \<noteq> None"
  proof (rule ext)
    fix q
    have "\<not> prefix (staging_of d @ q) d" using that staging_apart(1) [OF _ prefix_order.refl] by (auto dest: append_prefixD)
    then show "below dk' (staging_of d) q = below dk (staging_of d) q" using same by (simp add: below_def)
  qed
qed
lemma publish_named:
  assumes run: "publish_backup_tree E dk d b = (r, dk')" and cleared: "clear_destination E dk d = (Ok (), dk1)" "below dk1 d = (\<lambda>_. None)"
    and name: "path_file_name d = Some name" and plain: "plain_names (bk_store b)"
    and absent: "dk_node dk1 (staging_of d) = None \<Longrightarrow> below dk1 (staging_of d) = (\<lambda>_. None)"
  shows "touches_only d dk1 dk' \<and> (below dk' d = (\<lambda>_. None) \<or> below dk' d = backup_tree b) \<and> (r = Ok () \<longrightarrow> below dk' d = backup_tree b)"
proof -
  let ?s = "staging_of d"
  have s: "staging_path (parent_or_here d) name = ?s" "?s \<noteq> []" using named_path [OF name] by (simp_all add: staging_of_def staging_path_def)
  obtain r2 dk2 where made: "create_private_dir E dk1 (parent_or_here d) = (r2, dk2)" by fastforce
  obtain r3 dk3 where gone: "discard_staging E dk2 ?s = (r3, dk3)" by fastforce
  obtain r4 dk4 where put: "stage_and_rename E dk3 (parent_or_here d) ?s d b = (r4, dk4)" by fastforce
  note parent = create_parent_outcome [OF made]
  have b2: "below dk2 d = (\<lambda>_. None)" using parent(2) cleared(2) by simp
  have away: "\<not> prefix ?s (d @ q)" for q using staging_apart(1) [OF name] by simp
  have keep3: "\<not> prefix ?s q \<Longrightarrow> dk_node dk3 q = dk_node dk2 q" for q
    using gone remove_dir_all_below(1) [of ?s q E dk2] by (auto simp: discard_staging_def map_errS_def split: if_splits)
  have t3: "touches_only d dk1 dk3" using parent(1) keep3 by (simp add: touches_only_def)
  have b3: "below dk3 d = (\<lambda>_. None)" using b2 keep3 away by (simp add: below_def fun_eq_iff)
  have keep5: "\<not> prefix ?s q \<Longrightarrow> dk_node (snd (remove_dir_all E dk4 ?s)) q = dk_node dk4 q" for q by (rule remove_dir_all_below(1))
  show ?thesis
  proof (cases "r2 = Ok () \<and> r3 = Ok ()")
    case False
    with run cleared(1) made gone name s have "r \<noteq> Ok () \<and> (dk' = dk2 \<or> dk' = dk3)"
      by (cases r2; cases r3; auto simp: publish_backup_tree_def Let_def)
    with parent(1) t3 b2 b3 show ?thesis by auto
  next
    case True
    have clean: "below dk3 ?s = (\<lambda>_. None)"
    proof (cases "disk_exists dk2 ?s")
      case True
      with \<open>r2 = Ok () \<and> r3 = Ok ()\<close> gone show ?thesis
        by (auto simp: discard_staging_def map_errS_Ok fun_eq_iff intro: remove_dir_all_below(2))
    next
      case False
      have "below dk2 ?s = below dk1 ?s" using parent(3) name by simp
      moreover from this have "dk_node dk2 ?s = dk_node dk1 ?s" by (metis append_Nil2 below_def)
      ultimately show ?thesis using False gone absent by (simp add: discard_staging_def disk_exists_def)
    qed
    note out = stage_and_rename_outcome [OF put plain s(2) clean staging_apart [OF name]]
    have "publish_backup_tree E dk d b = (map_err AnyIo r4, if is_ok r4 then dk4 else snd (remove_dir_all E dk4 ?s))"
      using cleared(1) made gone True name put by (simp add: publish_backup_tree_def Let_def s(1))
    with run have r: "r = map_err AnyIo r4" "dk' = (if is_ok r4 then dk4 else snd (remove_dir_all E dk4 ?s))" by simp_all
    then have keep: "\<not> prefix ?s q \<Longrightarrow> dk_node dk' q = dk_node dk4 q" for q using keep5 by simp
    have "below dk' d = below dk4 d" using keep away by (simp add: below_def fun_eq_iff)
    moreover have "touches_only d dk3 dk'"
      unfolding touches_only_def
    proof (intro allI impI)
      fix q assume q: "\<not> prefix d q" "\<not> prefix q d" "\<not> prefix ?s q"
      have "\<not> prefix q ?s" using staging_prefix [OF name _ q(3)] q(2) by blast
      with out(1) q keep [OF q(3)] show "dk_node dk' q = dk_node dk3 q" by simp
    qed
    moreover have "r = Ok () \<longrightarrow> r4 = Ok ()" using r(1) by (cases r4) auto
    ultimately show ?thesis using out(2,3) b3 touches_only_trans [OF t3] by metis
  qed
qed
lemma publish_unnamed:
  assumes "publish_backup_tree E dk d b = (r, dk')" "path_file_name d = None"
  shows "touches_only d dk dk' \<and> below dk' d = below dk d \<and> r \<noteq> Ok ()"
proof -
  obtain r1 dk1 where cleared: "clear_destination E dk d = (r1, dk1)" by fastforce
  obtain r2 dk2 where made: "create_private_dir E dk1 (parent_or_here d) = (r2, dk2)" by fastforce
  have "dk1 = dk"
    using cleared assms(2) by (cases "de_list E (dk_node dk) d") (auto simp: clear_destination_def remove_dir_def map_errS_def split: if_splits)
  moreover have "r \<noteq> Ok () \<and> (dk' = dk1 \<or> dk' = dk2)"
    using assms cleared made by (cases r1; cases r2; auto simp: publish_backup_tree_def Let_def)
  ultimately show ?thesis using create_parent_outcome(1,2) [OF made] by (auto simp: touches_only_def)
qed

lemma publish_outcome:
  assumes run: "publish_backup_tree E dk d b = (r, dk')" and ok: "listing_ok E" "tree_ok dk" "plain_names (bk_store b)"
  shows "touches_only d dk dk'
    \<and> (below dk' d = below dk d \<or> (\<forall>q. q \<noteq> [] \<longrightarrow> below dk d q = None) \<and> (below dk' d = (\<lambda>_. None) \<or> below dk' d = backup_tree b))
    \<and> (r = Ok () \<longrightarrow> below dk' d = backup_tree b)"
proof (cases "path_file_name d")
  case None
  with publish_unnamed [OF run] show ?thesis by blast
next
  case (Some name)
  have d: "d \<noteq> []" "staging_of d \<noteq> []" using Some by (auto simp: path_file_name_def staging_of_def staging_path_def)
  obtain r1 dk1 where cleared: "clear_destination E dk d = (r1, dk1)" by fastforce
  note c = clear_destination_outcome [OF cleared ok(1,2) d(1)]
  have t1: "touches_only d dk dk1" using c by (simp add: touches_only_def)
  show ?thesis
  proof (cases "r1 = Ok ()")
    case False
    then have "r \<noteq> Ok ()" "dk' = dk1" using run cleared by (cases r1; auto simp: publish_backup_tree_def)+
    with c t1 show ?thesis by auto
  next
    case True
    have stage: "below dk1 (staging_of d) q = below dk (staging_of d) q" for q
    proof -
      have "\<not> prefix d (staging_of d @ q)" using staging_apart(1) [OF Some, of "staging_of d @ q"] by auto
      with c show ?thesis by (simp add: below_def)
    qed
    have "below dk1 (staging_of d) = (\<lambda>_. None)" if "dk_node dk1 (staging_of d) = None"
    proof -
      have "dk_node dk (staging_of d) = None" using that stage [of "[]"] by (simp add: below_def)
      from tree_ok_absent [OF ok(2) d(2) this] show ?thesis by (simp add: fun_eq_iff stage)
    qed
    from publish_named [OF run cleared [unfolded True] _ Some ok(3) this] c True t1 touches_only_trans [OF t1]
    show ?thesis by auto
  qed
qed

definition backup_at :: "disk_env \<Rightarrow> backup codec \<Rightarrow> disk \<Rightarrow> string \<Rightarrow> backup \<Rightarrow> bool" where
  "backup_at E B dk src b \<longleftrightarrow> (\<exists>bs. disk_read E dk src = Ok bs \<and> wire_decode B bs = Ok b)"

lemma import_cases:
  assumes "import_backup C X E B cell dk src = (r, dk')"
  obtains (refused) "r \<noteq> Ok ()" "dk' = dk"
  | (published) b i where "\<not> disk_exists dk (components (identity_path (home cell)))" "backup_at E B dk src b"
      "open_identity C X cell (bk_identity b) = Ok i" "plain_names (bk_store b)"
      "publish_backup_tree E dk (components (home cell)) b = (r, dk')"
proof (cases "\<not> disk_exists dk (components (identity_path (home cell))) \<and> (\<exists>b i. backup_at E B dk src b
    \<and> open_identity C X cell (bk_identity b) = Ok i \<and> check_names [] (bk_store b) = Ok ())")
  case True
  then obtain b i where *: "\<not> disk_exists dk (components (identity_path (home cell)))" "backup_at E B dk src b"
    "open_identity C X cell (bk_identity b) = Ok i" "check_names [] (bk_store b) = Ok ()" by blast
  with assms have "publish_backup_tree E dk (components (home cell)) b = (r, dk')"
    by (auto simp: import_backup_def backup_at_def)
  with * check_names_plain [OF *(4)] show thesis by (intro published) auto
next
  case False
  with assms have "r \<noteq> Ok () \<and> dk' = dk"
    by (auto simp: import_backup_def backup_at_def tryE_def map_err_def split: if_splits sum.splits)
  with refused show thesis by blast
qed

lemma backup_tree_loads:
  assumes "below dk' (components (home cell)) = backup_tree b" "open_identity C X cell (bk_identity b) = Ok i"
    and "\<not> unreadable (de_store E) (identity_path (home cell))"
  shows "load_identity C X (de_store E) cell (disk_files dk') = Ok i"
proof -
  have "dk_node dk' (components (identity_path (home cell))) = Some (FileNode (bk_identity b))"
    using fun_cong [OF assms(1), of "[''identity.enc'']"] by (simp add: components_identity below_def backup_tree_def entry_tree_def)
  with assms(2,3) show ?thesis by (simp add: load_identity_def fs_read_def disk_files_def)
qed

section \<open>Properties\<close>

text \<open>
  C9: no exported backup can be imported.  Opening the store leaves its lock file beside the entries, an
  export packs every file of that directory, and an import accepts only names made of hexadecimal
  digits: whatever a successful export wrote is refused by every later import of it, on any device, in
  any data directory and with any passphrase, without any effect.
\<close>

theorem exported_backup_refused:
  assumes "codec_ok B" "listing_ok E" "export_backup C X E M B cell dk dest = (Ok (), dk')"
  shows "\<exists>bs. dk_node dk' (components dest) = Some (FileNode bs)
    \<and> (\<forall>C' X' E' cell' dk2 src. dk_node dk2 (components src) = Some (FileNode bs) \<longrightarrow>
        (\<exists>e. import_backup C' X' E' B cell' dk2 src = (Err e, dk2)))"
proof -
  from export_holds_lock [OF assms(2,3)] obtain ident entries lock where
    stored: "dk_node dk' (components dest) = Some (FileNode (wire_encode B \<lparr>bk_identity = ident, bk_store = entries\<rparr>))"
    and lock: "(LOCK_FILE, lock) \<in> set entries" by blast
  let ?b = "\<lparr>bk_identity = ident, bk_store = entries\<rparr>"
  have "\<exists>e. import_backup C' X' E' B cell' dk2 src = (Err e, dk2)" if "dk_node dk2 (components src) = Some (FileNode (wire_encode B ?b))" for C' X' E' cell' dk2 src
  proof (cases "unreadable (de_store E') src")
    case True
    then show ?thesis by (simp add: import_backup_def disk_read_def)
  next
    case False
    with that have "disk_read E' dk2 src = Ok (wire_encode B ?b)" by (simp add: disk_read_def)
    from import_refused [OF assms(1) this _ lock_file_not_hex] lock show ?thesis by auto
  qed
  with stored show ?thesis by blast
qed

text \<open>Samples for the witnesses: a file system that never fails, an account and its backup.\<close>

definition sample_list :: "(path \<Rightarrow> node option) \<Rightarrow> path \<Rightarrow> io_error + string list" where
  "sample_list nodes p = (if {n. nodes (p @ [n]) \<noteq> None} \<subseteq> {LOCK_FILE} then Ok (filter (\<lambda>n. nodes (p @ [n]) \<noteq> None) [LOCK_FILE])
     else Err (IoOther ''too many entries''))"

definition sample_disk_env :: disk_env where
  "sample_disk_env = \<lparr>de_fault = (\<lambda>_. NoFault), de_removed = (\<lambda>_ _. False), de_list = sample_list, de_lock = LockAcquired,
     de_store = sample_env (\<lambda>_. NoFault)\<rparr>"

definition sample_config :: "client_config option" where
  "sample_config = Some (default_config\<lparr>cc_data_dir := ''home'', cc_passphrase := Some ''correct horse''\<rparr>)"

definition sample_sealed :: bytes where
  "sample_sealed = (case seal_identity sample_crypto sample_seal 0 sample_account ''correct horse'' of Ok bs \<Rightarrow> bs | Err _ \<Rightarrow> [])"

definition sample_backup_codec :: "backup codec" where
  "sample_backup_codec = sample_codec (s_iso (\<lambda>b. (bk_identity b, bk_store b)) (\<lambda>(i, es). \<lparr>bk_identity = i, bk_store = es\<rparr>)
     (s_pair s_bytes (s_list (s_pair s_string s_bytes))))"

definition sample_disk :: "(path \<Rightarrow> node option) \<Rightarrow> disk" where
  "sample_disk nodes = \<lparr>dk_node = nodes, dk_tick = 0\<rparr>"

lemma sample_disk_env_fields [simp]:
  "de_fault sample_disk_env t = NoFault" "\<not> unreadable (de_store sample_disk_env) n"
  by (simp_all add: sample_disk_env_def sample_env_def)

lemma sample_listing_ok: "listing_ok sample_disk_env"
  by (auto simp: listing_ok_def sample_disk_env_def sample_list_def split: if_splits)

lemma sample_backup_codec_ok: "codec_ok sample_backup_codec"
  unfolding sample_backup_codec_def by (intro sample_codec_ok s_iso_ok) (simp_all add: sample_ok)

lemma sample_home [simp]: "home sample_config = ''home''" "components ''home'' = [''home'']" "components ''backup'' = [''backup'']"
  by (simp_all add: home_def config_of_def sample_config_def default_config_def components_def)

lemma sample_sealed_opens: "open_identity sample_crypto sample_seal sample_config sample_sealed = Ok sample_account"
proof -
  obtain i where i: "identity_build sample_crypto (replicate 32 3) (replicate 32 4) = Ok i" "sample_account = i"
    by (simp add: sample_account_def identity_build_def sample_crypto_def)
  have "wallet_secret i = replicate 32 3" "device_seed i = replicate 32 4" using i(1) by (auto simp: identity_build_def split: if_splits)
  with i have acc: "identity_ok sample_crypto sample_account" "length (wallet_secret sample_account) = 32" "length (device_seed sample_account) = 32"
    by (simp_all add: identity_ok_def)
  obtain bs where "seal_identity sample_crypto sample_seal 0 sample_account ''correct horse'' = Ok bs"
    by (simp add: seal_identity_def seal_def seal_derive_key_def sample_seal_def Let_def)
  then have "seal_identity sample_crypto sample_seal 0 sample_account ''correct horse'' = Ok sample_sealed" by (simp add: sample_sealed_def)
  from open_sealed_identity [OF sample_aead_ok sample_seal_ok acc this] show ?thesis
    by (simp add: open_identity_def read_passphrase_def config_of_def sample_config_def)
qed

theorem exported_backup_refused_witness:
  "\<exists>dk' bs. export_backup sample_crypto sample_seal sample_disk_env sample_batch sample_backup_codec sample_config
       (sample_disk [[''home''] \<mapsto> DirNode, [''home'', ''identity.enc''] \<mapsto> FileNode sample_sealed]) ''backup'' = (Ok (), dk')
     \<and> dk_node dk' [''backup''] = Some (FileNode bs)
     \<and> (\<exists>e. import_backup sample_crypto sample_seal sample_disk_env sample_backup_codec sample_config (sample_disk [[''backup''] \<mapsto> FileNode bs]) ''backup''
          = (Err e, sample_disk [[''backup''] \<mapsto> FileNode bs]))"
proof -
  let ?dk = "sample_disk [[''home''] \<mapsto> DirNode, [''home'', ''identity.enc''] \<mapsto> FileNode sample_sealed]"
  let ?run = "export_backup sample_crypto sample_seal sample_disk_env sample_batch sample_backup_codec sample_config ?dk ''backup''"
  have loaded: "load_identity sample_crypto sample_seal (de_store sample_disk_env) sample_config (disk_files ?dk) = Ok sample_account"
    using sample_sealed_opens by (simp add: load_identity_def fs_read_def disk_files_def components_identity sample_disk_def sample_disk_env_def sample_env_def)
  let ?nodes = "[[''home''] \<mapsto> DirNode, [''home'', ''identity.enc''] \<mapsto> FileNode sample_sealed, [''home'', ''history''] \<mapsto> DirNode]"
  have made: "create_private_dir sample_disk_env ?dk [''home'', ''history''] = (Ok (), \<lparr>dk_node = ?nodes, dk_tick = Suc 0\<rparr>)"
    by (simp add: create_private_dir_def upt_rec create_dir_def disk_op_def disk_set_def sample_disk_def sample_disk_env_def)
  let ?dk2 = "\<lparr>dk_node = ?nodes([''home'', ''history'', LOCK_FILE] \<mapsto> FileNode []), dk_tick = 2\<rparr>"
  have locked: "open_lock_file sample_disk_env \<lparr>dk_node = ?nodes, dk_tick = Suc 0\<rparr> [''home'', ''history'', LOCK_FILE] = (Ok (), ?dk2)"
    by (simp add: open_lock_file_def disk_op_def disk_set_def sample_disk_env_def LOCK_FILE_def)
  have view: "fs_open C (de_store sample_disk_env) M (de_lock sample_disk_env) (dir_view ?dk2 [''home'', ''history'']) key t
      = (Ok \<lparr>fs_dir = dir_view ?dk2 [''home'', ''history''], fs_key = key, fs_tick = t\<rparr>, dir_view ?dk2 [''home'', ''history''])" for C M key t
    by (simp add: fs_open_def recover_transaction_def fs_read_def dir_view_def sample_disk_env_def sample_env_def LOCK_FILE_def JOURNAL_FILE_def)
  let ?dk3 = "\<lparr>dk_node = ?nodes([''home'', ''history'', LOCK_FILE] \<mapsto> FileNode []), dk_tick = 3\<rparr>"
  have opened: "open_history sample_crypto sample_disk_env sample_batch sample_config ?dk sample_account = (Ok (), ?dk3)"
    by (simp add: open_history_def open_store_def store_dir_def made locked view dir_update_same)
  have listed: "de_list sample_disk_env (dk_node ?dk3) [''home'', ''history''] = Ok [LOCK_FILE]"
    by (simp add: sample_disk_env_def sample_list_def)
  have entries: "export_entries sample_disk_env ?dk3 (path_join ''home'' ''history'') = Ok [(LOCK_FILE, [])]"
    using listed by (simp add: export_entries_def components_history disk_exists_def)
  obtain dk' where run: "?run = (Ok (), dk')"
    by (simp add: export_backup_def loaded opened entries disk_read_def components_identity
      disk_atomic_write_def path_parent_def path_file_name_def create_private_dir_def disk_op_def)
  from exported_backup_refused [OF sample_backup_codec_ok sample_listing_ok run] obtain bs where
    bs: "dk_node dk' [''backup''] = Some (FileNode bs)" "\<And>C' X' E' cell' dk2 src. dk_node dk2 (components src) = Some (FileNode bs) \<Longrightarrow>
        \<exists>e. import_backup C' X' E' sample_backup_codec cell' dk2 src = (Err e, dk2)" by auto
  have "dk_node (sample_disk [[''backup''] \<mapsto> FileNode bs]) (components ''backup'') = Some (FileNode bs)" by (simp add: sample_disk_def)
  from bs(2) [OF this] bs(1) run show ?thesis by blast
qed

text \<open>
  C30: an import is all or nothing.  Whatever fails, and wherever the process stops, the data directory is
  left as it was, or it held nothing and is now absent or the complete tree of the backup; nothing
  outside the directory, its staging directory and the directories above it changes.  An import that
  succeeds has published the complete tree, in which the account opens as it did before publishing; an
  account that already exists is never replaced.
\<close>

theorem import_all_or_nothing:
  assumes "listing_ok E" "tree_ok dk" "import_backup C X E B cell dk src = (r, dk')"
  shows "let d = components (home cell) in
     touches_only d dk dk'
     \<and> (below dk' d = below dk d
        \<or> (\<forall>q. q \<noteq> [] \<longrightarrow> below dk d q = None) \<and> (below dk' d = (\<lambda>_. None) \<or> (\<exists>b. backup_at E B dk src b \<and> below dk' d = backup_tree b)))
     \<and> (r = Ok () \<longrightarrow> (\<exists>b i. backup_at E B dk src b \<and> below dk' d = backup_tree b \<and> open_identity C X cell (bk_identity b) = Ok i
          \<and> (\<not> unreadable (de_store E) (identity_path (home cell)) \<longrightarrow> load_identity C X (de_store E) cell (disk_files dk') = Ok i)))
     \<and> (disk_exists dk (d @ [''identity.enc'']) \<longrightarrow> dk' = dk \<and> r \<noteq> Ok ())"
  using assms(3)
proof (cases rule: import_cases)
  case refused
  then show ?thesis by (simp add: touches_only_def)
next
  case (published b i)
  from publish_outcome [OF published(5) assms(1,2) published(4)] published(1-3) backup_tree_loads show ?thesis
    unfolding Let_def components_identity [symmetric] by blast
qed

definition sample_backup :: backup where
  "sample_backup = \<lparr>bk_identity = sample_sealed, bk_store = [(''00ff'', [1])]\<rparr>"

theorem import_all_or_nothing_witness:
  "let dk = sample_disk [[''backup''] \<mapsto> FileNode (wire_encode sample_backup_codec sample_backup)] in
     \<exists>dk'. import_backup sample_crypto sample_seal sample_disk_env sample_backup_codec sample_config dk ''backup'' = (Ok (), dk')
       \<and> load_identity sample_crypto sample_seal (de_store sample_disk_env) sample_config (disk_files dk') = Ok sample_account
       \<and> dk_node dk' [''home'', ''history'', ''00ff''] = Some (FileNode [1])"
proof -
  let ?f = "FileNode (wire_encode sample_backup_codec sample_backup)"
  let ?dk = "sample_disk [[''backup''] \<mapsto> ?f]"
  let ?run = "import_backup sample_crypto sample_seal sample_disk_env sample_backup_codec sample_config ?dk ''backup''"
  have "fst (publish_backup_tree sample_disk_env ?dk [''home''] sample_backup) = Ok ()"
    by (simp add: publish_backup_tree_def clear_destination_def parent_or_here_def path_parent_def path_file_name_def staging_path_def
      discard_staging_def stage_and_rename_def stage_tree_def sync_dir_def rename_dir_def disk_exists_def sample_disk_def
      create_private_dir_def upt_rec create_dir_def disk_op_def disk_set_def sample_disk_env_def disk_atomic_write_def
      move_tree_def sample_backup_def Let_def)
  then obtain dk' where pub: "publish_backup_tree sample_disk_env ?dk [''home''] sample_backup = (Ok (), dk')" by (metis prod.collapse)
  have src: "disk_read sample_disk_env ?dk ''backup'' = Ok (wire_encode sample_backup_codec sample_backup)" by (simp add: disk_read_def sample_disk_def)
  have names: "check_names [] (bk_store sample_backup) = Ok ()" by (simp add: sample_backup_def entry_name_ok_def is_ascii_hexdigit_def)
  have run: "?run = (Ok (), dk')"
    using sample_sealed_opens pub names src sample_backup_codec_ok
    by (simp add: import_backup_def components_identity disk_exists_def) (simp add: sample_disk_def sample_backup_def)
  have "tree_ok ?dk" by (auto simp: tree_ok_def sample_disk_def)
  from import_all_or_nothing [OF sample_listing_ok this run] src sample_backup_codec_ok sample_sealed_opens
  have "load_identity sample_crypto sample_seal (de_store sample_disk_env) sample_config (disk_files dk') = Ok sample_account"
    and "below dk' [''home''] = backup_tree sample_backup"
    by (auto simp: Let_def backup_at_def sample_backup_def)
  moreover from fun_cong [OF this(2), of "[''history'', ''00ff'']"] have "dk_node dk' [''home'', ''history'', ''00ff''] = Some (FileNode [1])"
    by (simp add: below_def backup_tree_def entry_tree_def sample_backup_def)
  ultimately show ?thesis using run by (auto simp: Let_def)
qed

end
