(* ===== verification/Transport.thy ===== *)
theory Transport
  imports Ident RustStr "HOL-Library.Sublist"
begin

text \<open>
  The transport adapters (\<open>mycellium-transport/src\<close>): the length-prefixed framing every connection
  shares, TCP connections, the addresses that may be dialled, and waiting for the reply on a Reticulum link.

  A connection is a byte stream: the bytes that arrive before a read gives up, and the bytes written so
  far.  A write may stop after any number of bytes.  Name resolution, connecting, the libp2p address
  parser and the Reticulum stack are parameters.  The timeout of the libp2p adapter around a frame gives
  an error where the TCP adapter's socket timeout does, so both are the same operations on the stream.
\<close>

datatype net_error =
    NetInvalidInput string
  | NetInvalidData string
  | NetTimedOut
  | NetUnexpectedEof
  | NetUnsupported string
  | NetOther string

section \<open>Frames\<close>

definition MAX_FRAME :: nat where
  "MAX_FRAME = 16 * 1024 * 1024"

definition frame_header :: "nat \<Rightarrow> net_error + bytes" where
  "frame_header len = (if len > MAX_FRAME then Err (NetInvalidInput ''frame too large'') else Ok (to_be_bytes32 (of_nat len)))"

definition from_be_bytes32 :: "bytes \<Rightarrow> u32" where
  "from_be_bytes32 bs = from_le_bytes32 (rev bs)"

definition frame_len :: "bytes \<Rightarrow> net_error + nat" where
  "frame_len header = (let n = unat (from_be_bytes32 header) in if n > MAX_FRAME then Err (NetInvalidData ''frame too large'') else Ok n)"

section \<open>Connections\<close>

record socket =
  sk_in :: bytes
  sk_closed :: bool
  sk_out :: bytes
  sk_tick :: nat

record socket_env =
  sv_stop :: "nat \<Rightarrow> nat option"
  sv_flush :: "nat \<Rightarrow> bool"

definition write_all :: "socket_env \<Rightarrow> socket \<Rightarrow> bytes \<Rightarrow> (net_error + unit) \<times> socket" where
  "write_all V s bs = (let t = sk_tick s; s = s\<lparr>sk_tick := Suc t\<rparr> in case sv_stop V t of
      None \<Rightarrow> (Ok (), s\<lparr>sk_out := sk_out s @ bs\<rparr>)
    | Some k \<Rightarrow> (Err NetTimedOut, s\<lparr>sk_out := sk_out s @ take k bs\<rparr>))"

definition flush :: "socket_env \<Rightarrow> socket \<Rightarrow> (net_error + unit) \<times> socket" where
  "flush V s = (if sv_flush V (sk_tick s) then Ok () else Err NetTimedOut, s\<lparr>sk_tick := Suc (sk_tick s)\<rparr>)"

definition read_exact :: "socket \<Rightarrow> nat \<Rightarrow> (net_error + bytes) \<times> socket" where
  "read_exact s n =
     (if n \<le> length (sk_in s) then (Ok (take n (sk_in s)), s\<lparr>sk_in := drop n (sk_in s)\<rparr>)
      else (Err (if sk_closed s then NetUnexpectedEof else NetTimedOut), s\<lparr>sk_in := []\<rparr>))"

definition conn_send :: "socket_env \<Rightarrow> socket \<Rightarrow> bytes \<Rightarrow> (net_error + unit) \<times> socket" where
  "conn_send V s bs =
     tryE (frame_header (length bs)) s (\<lambda>header.
     tryS (write_all V s header) (\<lambda>_ s.
     tryS (write_all V s bs) (\<lambda>_ s.
     flush V s)))"

definition conn_recv :: "socket \<Rightarrow> (net_error + bytes) \<times> socket" where
  "conn_recv s =
     tryS (read_exact s 4) (\<lambda>header s.
     tryE (frame_len header) s (\<lambda>n.
     read_exact s n))"

section \<open>TCP\<close>

datatype sock_addr = V4 string u32 | V6 string u32

definition is_ipv6 :: "sock_addr \<Rightarrow> bool" where
  "is_ipv6 a = (case a of V6 _ _ \<Rightarrow> True | V4 _ _ \<Rightarrow> False)"

record 'l tcp_env =
  tv_resolve :: "string \<Rightarrow> net_error + sock_addr list"
  tv_connect :: "sock_addr \<Rightarrow> net_error + socket"
  tv_bind :: "sock_addr \<Rightarrow> net_error + 'l"
  tv_accept :: "'l \<Rightarrow> net_error + socket"
  tv_timeouts :: "socket \<Rightarrow> net_error + unit"

definition dial_timed :: "'l tcp_env \<Rightarrow> string \<Rightarrow> net_error + socket" where
  "dial_timed T addr =
     tryR (tv_resolve T addr) (\<lambda>candidates.
     tryR (ok_or (NetInvalidInput ''could not resolve address'') (List.find is_ipv6 candidates)) (\<lambda>sockaddr.
     tryR (tv_connect T sockaddr) (\<lambda>stream.
     tryR (tv_timeouts T stream) (\<lambda>_. Ok stream))))"

definition tcp_listening :: "'l tcp_env \<Rightarrow> string \<Rightarrow> net_error + 'l option" where
  "tcp_listening T addr =
     tryR (tv_resolve T addr) (\<lambda>candidates.
     tryR (ok_or (NetInvalidInput ''IPv4 is not a Mycellium transport address'') (List.find is_ipv6 candidates)) (\<lambda>sockaddr.
     tryR (tv_bind T sockaddr) (\<lambda>l. Ok (Some l))))"

definition tcp_dial :: "'l tcp_env \<Rightarrow> bytes \<Rightarrow> net_error + socket" where
  "tcp_dial T peer = tryR (ok_or (NetInvalidInput ''peer id is not an address'') (str_from_utf8 peer)) (dial_timed T)"

definition tcp_accept :: "'l tcp_env \<Rightarrow> 'l option \<Rightarrow> net_error + socket" where
  "tcp_accept T listener =
     tryR (ok_or (NetUnsupported ''transport is dial-only'') listener) (\<lambda>l.
     tryR (tv_accept T l) (\<lambda>stream.
     tryR (tv_timeouts T stream) (\<lambda>_. Ok stream)))"

section \<open>Multiaddresses\<close>

datatype protocol = Ip4 string | Ip6 string | Dns4 string | Tcp u32 | Udp u32 | QuicV1 | P2p string | OtherProtocol string

definition ensure_no_ipv4 :: "protocol list \<Rightarrow> string + unit" where
  "ensure_no_ipv4 addr = (if list_ex (\<lambda>p. case p of Ip4 _ \<Rightarrow> True | Dns4 _ \<Rightarrow> True | _ \<Rightarrow> False) addr
     then Err ''IPv4 is not a Mycellium transport address'' else Ok ())"

definition peer_from_multiaddr :: "protocol list \<Rightarrow> string option" where
  "peer_from_multiaddr addr = foldl (\<lambda>acc p. case p of P2p peer \<Rightarrow> Some peer | _ \<Rightarrow> acc) None addr"

definition peer_and_base_multiaddr :: "protocol list \<Rightarrow> (string \<times> protocol list) option" where
  "peer_and_base_multiaddr addr =
     (let (peer, base) = foldl (\<lambda>(peer, base) p. case p of P2p i \<Rightarrow> (Some i, base) | other \<Rightarrow> (peer, base @ [other])) (None, []) addr
      in map_option (\<lambda>i. (i, base)) peer)"

definition socket_to_multiaddr :: "sock_addr \<Rightarrow> protocol list option" where
  "socket_to_multiaddr a = (case a of V4 _ _ \<Rightarrow> None | V6 ip port \<Rightarrow> Some [Ip6 ip, Tcp port])"

text \<open>\<open>unreachable!\<close> is the outer \<open>None\<close>.\<close>

definition listen_multiaddr :: "(string \<Rightarrow> sock_addr option) \<Rightarrow> string \<Rightarrow> (string + protocol list) option" where
  "listen_multiaddr parse addr = (case parse addr of
      None \<Rightarrow> Some (Err ''address must be IPv6 host:port, e.g. [::1]:9001'')
    | Some s \<Rightarrow> if \<not> is_ipv6 s then Some (Err ''IPv4 is not a Mycellium transport address'') else map_option Ok (socket_to_multiaddr s))"

definition quic_listen_multiaddr :: "(string \<Rightarrow> sock_addr option) \<Rightarrow> string \<Rightarrow> string + protocol list" where
  "quic_listen_multiaddr parse addr = (case parse addr of
      None \<Rightarrow> Err ''address must be IPv6 host:port, e.g. [::]:0''
    | Some (V4 _ _) \<Rightarrow> Err ''IPv4 is not a Mycellium transport address''
    | Some (V6 ip port) \<Rightarrow> Ok [Ip6 ip, Udp port, QuicV1])"

definition parse_multiaddr :: "(string \<Rightarrow> protocol list option) \<Rightarrow> string \<Rightarrow> string + protocol list" where
  "parse_multiaddr parse addr =
     tryR (ok_or ([CHR 0x27] @ addr @ [CHR 0x27] @ '' is not a valid multiaddr'') (parse addr)) (\<lambda>parsed.
     tryR (ensure_no_ipv4 parsed) (\<lambda>_. Ok parsed))"

fun parse_multiaddrs :: "(string \<Rightarrow> protocol list option) \<Rightarrow> string list \<Rightarrow> string + protocol list list" where
  "parse_multiaddrs parse [] = Ok []"
| "parse_multiaddrs parse (addr # addrs) =
     tryR (parse_multiaddr parse addr) (\<lambda>parsed.
     if peer_and_base_multiaddr parsed = None then Err (''bootstrap multiaddr must include /p2p/<peer-id>: '' @ addr)
     else tryR (parse_multiaddrs parse addrs) (\<lambda>rest. Ok (parsed # rest)))"

section \<open>Reticulum\<close>

definition destination_desc :: "crypto \<Rightarrow> (bytes \<Rightarrow> bytes \<Rightarrow> bytes) \<Rightarrow> reticulum_public_identity \<Rightarrow> string + bytes" where
  "destination_desc C rns_address d =
     (if \<not> reticulum_verify C d then Err ''invalid Reticulum destination identity''
      else let desc = rns_address (encryption_key d) (signing_key d)
           in if desc \<noteq> address d then Err ''Reticulum destination address mismatch'' else Ok desc)"

text \<open>What one turn of the waiting loop sees: the clock, and what \<open>select!\<close> returned.\<close>

datatype link_event = DataEvent bytes bytes | DataLost | ResourceComplete bytes bytes | ResourceOther bytes | ResourceLost | Slept

partial_function (option) await_reply :: "nat \<Rightarrow> bytes \<Rightarrow> (nat \<Rightarrow> nat \<times> link_event) \<Rightarrow> nat \<Rightarrow> (net_error + bytes) option" where
  "await_reply deadline link events i =
     (if fst (events i) \<ge> deadline then Some (Err NetTimedOut)
      else case snd (events i) of
        DataEvent l bs \<Rightarrow> if l = link then Some (Ok bs) else await_reply deadline link events (Suc i)
      | ResourceComplete l bs \<Rightarrow> if l = link then Some (Ok bs) else await_reply deadline link events (Suc i)
      | _ \<Rightarrow> await_reply deadline link events (Suc i))"

section \<open>Waiting ends\<close>

lemma await_reply_returns:
  assumes "deadline \<le> fst (events (i + n))"
  shows "\<exists>r. await_reply deadline link events i = Some r"
  using assms
proof (induction n arbitrary: i)
  case 0
  then show ?case by (subst await_reply.simps) simp
next
  case (Suc n)
  then obtain r where "await_reply deadline link events (Suc i) = Some r" by fastforce
  then show ?case by (subst await_reply.simps) (simp split: link_event.split)
qed

definition heard :: "nat \<Rightarrow> bytes \<Rightarrow> (nat \<Rightarrow> nat \<times> link_event) \<Rightarrow> nat \<Rightarrow> bytes \<Rightarrow> bool" where
  "heard deadline link events i bs \<longleftrightarrow>
     (\<exists>j \<ge> i. fst (events j) < deadline \<and> (snd (events j) = DataEvent link bs \<or> snd (events j) = ResourceComplete link bs))"

lemma heard_Suc: "heard deadline link events (Suc i) bs \<Longrightarrow> heard deadline link events i bs"
  by (auto simp: heard_def dest: Suc_leD)

lemma await_reply_own_link:
  assumes "await_reply deadline link events i = Some (Ok bs)"
  shows "heard deadline link events i bs"
proof -
  have "\<forall>bs. r = Ok bs \<longrightarrow> heard deadline link events i bs" if "await_reply deadline link events i = Some r" for r
  proof (rule await_reply.raw_induct [of "\<lambda>dl l ev i r. \<forall>bs. r = Ok bs \<longrightarrow> heard dl l ev i bs", OF _ that], intro allI impI)
    fix aw dl l ev i r bs
    assume IH: "\<And>dl l ev i r. aw dl l ev i = Some r \<Longrightarrow> \<forall>bs. r = Ok bs \<longrightarrow> heard dl l ev i bs" and r: "r = Ok bs"
      and step: "(if dl \<le> fst (ev i) then Some (Err NetTimedOut) else case snd (ev i) of
        DataEvent l' bs \<Rightarrow> if l' = l then Some (Ok bs) else aw dl l ev (Suc i)
      | ResourceComplete l' bs \<Rightarrow> if l' = l then Some (Ok bs) else aw dl l ev (Suc i)
      | _ \<Rightarrow> aw dl l ev (Suc i)) = Some r"
    have "heard dl l ev i bs" if "aw dl l ev (Suc i) = Some r" using IH [OF that] r heard_Suc by blast
    moreover have "heard dl l ev i bs" if "fst (ev i) < dl" "snd (ev i) = DataEvent l bs \<or> snd (ev i) = ResourceComplete l bs"
      using that by (auto simp: heard_def)
    ultimately show "heard dl l ev i bs" using step r by (auto simp: not_le split: if_splits link_event.splits)
  qed
  with assms show ?thesis by blast
qed

section \<open>Frames on a stream\<close>

lemma frame_len_header: "n \<le> MAX_FRAME \<Longrightarrow> frame_len (to_be_bytes32 (of_nat n)) = Ok n"
proof -
  assume n: "n \<le> MAX_FRAME"
  have "to_be_bytes32 m = rev (to_le_bytes32 m)" for m by (simp add: to_be_bytes32_def to_le_bytes32_def)
  moreover have "unat (of_nat n :: u32) = n" using n by (simp add: unat_of_nat MAX_FRAME_def take_bit_eq_mod)
  ultimately show ?thesis using n by (simp add: frame_len_def from_be_bytes32_def)
qed

definition frame :: "bytes \<Rightarrow> bytes" where
  "frame m = to_be_bytes32 (of_nat (length m)) @ m"

definition incoming :: "bytes \<Rightarrow> socket" where
  "incoming bs = \<lparr>sk_in = bs, sk_closed = True, sk_out = [], sk_tick = 0\<rparr>"

lemma length_to_be_bytes32 [simp]: "length (to_be_bytes32 n) = 4"
  by (simp add: to_be_bytes32_def)
lemma conn_recv_frame: "length m \<le> MAX_FRAME \<Longrightarrow> conn_recv (s\<lparr>sk_in := frame m @ rest\<rparr>) = (Ok m, s\<lparr>sk_in := rest\<rparr>)"
  by (simp add: conn_recv_def read_exact_def frame_def frame_len_header)

lemma conn_recv_consumes:
  assumes "conn_recv s = (Ok m, s')"
  shows "length (sk_in s') < length (sk_in s)" "length m \<le> MAX_FRAME"
  using assms by (auto simp: conn_recv_def read_exact_def frame_len_def Let_def result_elims split: if_splits)

text \<open>A strict part of a frame gives an error.\<close>

lemma conn_recv_short:
  assumes "length m \<le> MAX_FRAME" "prefix bs (frame m)" "bs \<noteq> frame m"
  shows "\<exists>e s'. conn_recv (s\<lparr>sk_in := bs\<rparr>) = (Err e, s')"
proof (cases "length bs < 4")
  case True
  then show ?thesis by (simp add: conn_recv_def read_exact_def)
next
  case False
  from assms(2) obtain z where "frame m = bs @ z" by (auto simp: prefix_def)
  then have "take 4 bs = take 4 (frame m)" using False by simp
  then have "take 4 bs = to_be_bytes32 (of_nat (length m))" by (simp add: frame_def)
  moreover have "length bs < length (frame m)" using assms(2,3) by (metis prefix_length_less prefix_order.less_le)
  then have "\<not> length m \<le> length bs - 4" using False by (simp add: frame_def)
  ultimately show ?thesis using False assms(1) by (simp add: conn_recv_def read_exact_def frame_len_header)
qed

function recv_frames :: "socket \<Rightarrow> bytes list" where
  "recv_frames s = (case conn_recv s of (Ok m, s') \<Rightarrow> m # recv_frames s' | (Err _, _) \<Rightarrow> [])"
  by auto
termination
  by (relation "measure (length \<circ> sk_in)") (auto dest!: sym [of _ "conn_recv _"] simp: conn_recv_consumes(1))

declare recv_frames.simps [simp del]

lemma recv_frames_frame:
  "length m \<le> MAX_FRAME \<Longrightarrow> recv_frames (s\<lparr>sk_in := frame m @ rest\<rparr>) = m # recv_frames (s\<lparr>sk_in := rest\<rparr>)"
  by (subst recv_frames.simps) (simp add: conn_recv_frame)

lemma recv_frames_Nil: "recv_frames (s\<lparr>sk_in := []\<rparr>) = []"
  by (subst recv_frames.simps) (simp add: conn_recv_def read_exact_def)

lemma recv_frames_all: "list_all (\<lambda>m. length m \<le> MAX_FRAME) ms \<Longrightarrow> recv_frames (s\<lparr>sk_in := concat (map frame ms)\<rparr>) = ms"
  by (induction ms) (simp_all add: recv_frames_Nil recv_frames_frame)

lemma recv_frames_prefix:
  "list_all (\<lambda>m. length m \<le> MAX_FRAME) ms \<Longrightarrow> prefix bs (concat (map frame ms)) \<Longrightarrow> prefix (recv_frames (s\<lparr>sk_in := bs\<rparr>)) ms"
proof (induction ms arbitrary: bs)
  case Nil
  then show ?case by (simp add: recv_frames_Nil)
next
  case (Cons m ms)
  then have m: "length m \<le> MAX_FRAME" and bs: "prefix bs (frame m @ concat (map frame ms))" by simp_all
  show ?case
  proof (cases "prefix bs (frame m) \<and> bs \<noteq> frame m")
    case True
    with conn_recv_short [OF m] obtain e s' where "conn_recv (s\<lparr>sk_in := bs\<rparr>) = (Err e, s')" by blast
    then show ?thesis by (subst recv_frames.simps) simp
  next
    case False
    with bs obtain rest where "bs = frame m @ rest" "prefix rest (concat (map frame ms))" by (auto simp: prefix_append)
    with Cons m show ?thesis by (simp add: recv_frames_frame)
  qed
qed

section \<open>Sending on a connection\<close>

lemma conn_send_out:
  assumes "conn_send V s m = (r, s')"
  shows "if MAX_FRAME < length m then r \<noteq> Ok () \<and> s' = s
    else \<exists>p. sk_out s' = sk_out s @ p \<and> prefix p (frame m) \<and> (r = Ok () \<longrightarrow> p = frame m)"
proof (cases "MAX_FRAME < length m")
  case True
  with assms show ?thesis by (auto simp: conn_send_def frame_header_def)
next
  case False
  let ?h = "to_be_bytes32 (of_nat (length m))"
  have "prefix (take k ?h) (frame m)" "prefix (?h @ take k m) (frame m)" for k
    by (simp_all add: frame_def take_is_prefix prefix_prefix)
  with False assms show ?thesis
    by (auto simp: conn_send_def frame_header_def write_all_def flush_def Let_def frame_def [symmetric] split: option.splits if_splits)
qed

fun send_all :: "socket_env \<Rightarrow> socket \<Rightarrow> bytes list \<Rightarrow> (net_error + unit) \<times> socket" where
  "send_all V s [] = (Ok (), s)"
| "send_all V s (m # ms) = tryS (conn_send V s m) (\<lambda>_ s. send_all V s ms)"

lemma send_all_out:
  assumes "send_all V s ms = (r, s')"
  shows "\<exists>p. sk_out s' = sk_out s @ p \<and> prefix p (concat (map frame (takeWhile (\<lambda>m. length m \<le> MAX_FRAME) ms)))
    \<and> (r = Ok () \<longrightarrow> list_all (\<lambda>m. length m \<le> MAX_FRAME) ms \<and> p = concat (map frame ms))"
  using assms
proof (induction ms arbitrary: s)
  case (Cons m ms)
  obtain r1 s1 where run: "conn_send V s m = (r1, s1)" by fastforce
  note out = conn_send_out [OF run]
  show ?case
  proof (cases r1)
    case (Inl e)
    with Cons.prems run have "r = Err e" "s' = s1" by simp_all
    with out Inl show ?thesis by (auto split: if_splits intro: prefix_order.trans)
  next
    case (Inr u)
    with Cons.prems run have rest: "send_all V s1 ms = (r, s')" by simp
    from out Inr have m: "length m \<le> MAX_FRAME" "sk_out s1 = sk_out s @ frame m" by (auto split: if_splits)
    from Cons.IH [OF rest] m show ?thesis by auto
  qed
qed simp

section \<open>Properties\<close>

text \<open>
  C23: framing is faithful.  Whatever part of the bytes of any sequence of sends arrives, wherever a write
  stopped, the receiver reads a prefix of the messages, each whole and in order, and reads them all when
  every send succeeded and everything arrived.  A message beyond the frame bound is refused before a
  byte is written, and no header makes the receiver allocate more than the bound.
\<close>

theorem frames_arrive_in_order:
  assumes "send_all V s ms = (r, s')" "sk_out s = []" "prefix arrived (sk_out s')"
  shows "prefix (recv_frames (incoming arrived)) ms
    \<and> (r = Ok () \<and> arrived = sk_out s' \<longrightarrow> recv_frames (incoming arrived) = ms)
    \<and> (MAX_FRAME < length m \<longrightarrow> (\<exists>e. conn_send V s m = (Err e, s)))
    \<and> (frame_len header = Ok n \<longrightarrow> n \<le> MAX_FRAME)"
proof -
  have inc: "incoming bs = (incoming [])\<lparr>sk_in := bs\<rparr>" for bs by (simp add: incoming_def)
  let ?small = "takeWhile (\<lambda>m. length m \<le> MAX_FRAME) ms"
  have small: "list_all (\<lambda>m. length m \<le> MAX_FRAME) ?small" by (auto simp: list_all_iff dest: set_takeWhileD)
  from send_all_out [OF assms(1)] assms(2) have p: "prefix (sk_out s') (concat (map frame ?small))"
    "r = Ok () \<longrightarrow> list_all (\<lambda>m. length m \<le> MAX_FRAME) ms \<and> sk_out s' = concat (map frame ms)" by auto
  from recv_frames_prefix [OF small prefix_order.trans [OF assms(3) p(1)]]
  have "prefix (recv_frames (incoming arrived)) ?small" by (subst inc)
  then have "prefix (recv_frames (incoming arrived)) ms" by (metis prefix_order.trans takeWhile_dropWhile_id prefixI)
  moreover have "r = Ok () \<and> arrived = sk_out s' \<longrightarrow> recv_frames (incoming arrived) = ms"
    using p(2) recv_frames_all [of ms "incoming []"] by (subst inc) auto
  moreover have "MAX_FRAME < length m \<longrightarrow> (\<exists>e. conn_send V s m = (Err e, s))" by (simp add: conn_send_def frame_header_def)
  ultimately show ?thesis by (auto simp: frame_len_def Let_def split: if_splits)
qed

theorem frames_arrive_in_order_witness:
  "\<exists>s'. send_all \<lparr>sv_stop = (\<lambda>t. if t = 4 then Some 1 else None), sv_flush = (\<lambda>_. True)\<rparr> (incoming []) [[1, 2], [3, 4, 5]] = (Err NetTimedOut, s')
     \<and> sk_out s' = [0, 0, 0, 2, 1, 2, 0, 0, 0, 3, 3] \<and> prefix (recv_frames (incoming (sk_out s'))) [[1, 2], [3, 4, 5]]"
proof -
  let ?V = "\<lparr>sv_stop = (\<lambda>t. if t = 4 then Some 1 else None), sv_flush = (\<lambda>_. True)\<rparr>"
  obtain s' where run: "send_all ?V (incoming []) [[1, 2], [3, 4, 5]] = (Err NetTimedOut, s')" and out: "sk_out s' = [0, 0, 0, 2, 1, 2, 0, 0, 0, 3, 3]"
    by (simp add: incoming_def conn_send_def frame_header_def write_all_def flush_def MAX_FRAME_def to_be_bytes32_def drop_bit_eq_div)
  have "sk_out (incoming []) = []" by (simp add: incoming_def)
  from frames_arrive_in_order [OF run this prefix_order.refl, of "[]" "[]" 0] run out show ?thesis by blast
qed

end
