(* ===== verification/Mobile.thy ===== *)
theory Mobile
  imports ClientRuntime "HOL-Library.List_Lexorder"
begin

text \<open>
  The native client of the Android and Apple shells (\<open>mycellium-mobile/src/lib.rs\<close>): login, the profile,
  sending, receiving, the event queue and the state a shell shows, over the client crate.

  The client is the record \<open>mobile\<close>; the shared cells of a session are fields of \<open>mobile_session\<close>.  The
  local store is its directory \<open>mb_dir\<close> until a session opens it.  Each call of the interface, and each
  round of a worker thread (listener, outbox, account monitor), is one step of the client; what other
  threads do to the store between two acquisitions of its lock is \<open>me_others\<close>.  The answers of the
  registry during the life of one registry client object are \<open>me_agent\<close> at the number of that object.
  Operating system, network, codecs and Unicode lower case are parameters in \<open>mobile_env\<close>; that the data
  directory can be created is taken for granted.  An error
  keeps its outermost message, and a panic or a sampling loop that does not end is \<open>None\<close>.
\<close>

record 'n mobile_env =
  me_crypto :: crypto
  me_fs :: fs_env
  me_batch :: "storage_mutation list codec"
  me_codecs :: client_codecs
  me_network :: "'n network_env"
  me_agent :: "nat \<Rightarrow> registry_agent"
  me_session :: "registry_session codec"
  me_lower :: "string \<Rightarrow> string"
  me_lock :: try_lock
  me_others :: "nat \<Rightarrow> file_store \<Rightarrow> file_store"

abbreviation me_ops :: "'n mobile_env \<Rightarrow> file_store storage" where
  "me_ops V \<equiv> file_ops (me_crypto V) (me_fs V) (me_batch V)"

definition REGISTRY_SESSION_KEY :: bytes where
  "REGISTRY_SESSION_KEY = str_bytes ''mobile:registry-session:v1''"

definition IDENTITY_SECRET_LEN :: nat where
  "IDENTITY_SECRET_LEN = 64"

section \<open>State\<close>

datatype client_state = NeedsLogin | NeedsProfile | Ready | Replaced

datatype delivery_state = DeliveredNow | PendingDelivery

datatype event_kind = MessageKind | DeliveredKind | DeviceReplacedKind | NoticeKind | ErrorKind

record client_event =
  ce_kind :: event_kind
  ce_message :: string
  ce_user :: "string option"

record login_result =
  lr_created :: bool
  lr_state :: client_state
  lr_identity_secret :: "bytes option"

record profile_info =
  pi_user_id :: string
  pi_handle :: string
  pi_display_name :: string
  pi_connection_card :: string

record 'n mobile_session =
  ms_identity :: identity
  ms_store :: file_store
  ms_network :: "'n direct_network"
  ms_own_record :: "signed_record option"
  ms_listening :: bool
  ms_current :: bool

record 'n mobile =
  mb_url :: string
  mb_account :: "registry_session option"
  mb_session :: "'n mobile_session option"
  mb_events :: "client_event list"
  mb_outbox_started :: bool
  mb_monitor_started :: bool
  mb_dir :: "string \<Rightarrow> bytes option"
  mb_platform :: platform
  mb_tick :: nat

section \<open>Events\<close>

definition MAX_EVENTS :: nat where
  "MAX_EVENTS = 256"

definition push_event :: "client_event \<Rightarrow> client_event list \<Rightarrow> client_event list" where
  "push_event e es = (if length es = MAX_EVENTS then tl es else es) @ [e]"

definition translate_event :: "flow_event \<Rightarrow> client_event option" where
  "translate_event e = (case e of
      DirectMessageEvent uid h _ _ _ \<Rightarrow> Some \<lparr>ce_kind = MessageKind, ce_message = ''New message from '' @ h, ce_user = Some uid\<rparr>
    | ReceiptEvent uid h _ _ \<Rightarrow> Some \<lparr>ce_kind = DeliveredKind, ce_message = ''Delivered to '' @ h, ce_user = None\<rparr>
    | _ \<Rightarrow> None)"

definition sink_emit :: "client_event list \<Rightarrow> flow_event \<Rightarrow> client_event list" where
  "sink_emit es e = (case translate_event e of Some c \<Rightarrow> push_event c es | None \<Rightarrow> es)"

definition mobile_push :: "client_event \<Rightarrow> 'n mobile \<Rightarrow> 'n mobile" where
  "mobile_push e mb = mb\<lparr>mb_events := push_event e (mb_events mb)\<rparr>"

definition poll_events :: "'n mobile \<Rightarrow> client_event list \<times> 'n mobile" where
  "poll_events mb = (mb_events mb, mb\<lparr>mb_events := []\<rparr>)"

section \<open>Identity secrets\<close>

definition encode_identity_secret :: "identity \<Rightarrow> bytes" where
  "encode_identity_secret i = wallet_secret i @ device_seed i"

definition decode_identity_secret :: "crypto \<Rightarrow> bytes \<Rightarrow> any_error + identity" where
  "decode_identity_secret C secret =
     (if length secret \<noteq> IDENTITY_SECRET_LEN then Err (AnyMsg ''secure identity is malformed'')
      else map_err (\<lambda>_. AnyMsg ''secure identity is invalid'') (from_wallet_secret C (take 32 secret) (drop 32 secret)))"

section \<open>Sessions\<close>

definition own_entry :: "crypto \<Rightarrow> identity \<Rightarrow> peer_entry list \<Rightarrow> signed_record option" where
  "own_entry C i records = map_option pe_record (List.find (\<lambda>e. rec_wallet (s_record (pe_record e)) = wallet_public C i) records)"

definition open_session ::
    "'n mobile_env \<Rightarrow> (string \<Rightarrow> bytes option) \<Rightarrow> nat \<Rightarrow> identity \<Rightarrow> (any_error + 'n mobile_session) \<times> (string \<Rightarrow> bytes option)" where
  "open_session V dir start i =
     (let C = me_crypto V in case fs_open C (me_fs V) (me_batch V) (me_lock V) dir (storage_key C i) start of
        (Err e, dir) \<Rightarrow> (Err (AnyIo e), dir)
      | (Ok st, dir) \<Rightarrow>
          tryE (peerbook_load (me_ops V) (k_book (me_codecs V)) st) dir (\<lambda>records.
          (Ok \<lparr>ms_identity = i, ms_store = st, ms_network = network_new (reticulum_private_bytes C i),
             ms_own_record = own_entry C i records, ms_listening = False, ms_current = True\<rparr>, dir)))"

definition save_account_session :: "'n mobile_env \<Rightarrow> file_store \<Rightarrow> registry_session \<Rightarrow> (any_error + unit) \<times> file_store" where
  "save_account_session V st session = io_put (me_ops V) st REGISTRY_SESSION_KEY (wire_encode (me_session V) session)"

definition load_account_session :: "'n mobile_env \<Rightarrow> file_store \<Rightarrow> any_error + registry_session option" where
  "load_account_session V st =
     tryR (io_get (me_ops V) st REGISTRY_SESSION_KEY) (\<lambda>bs. case bs of
       None \<Rightarrow> Ok None
     | Some b \<Rightarrow> map_err (\<lambda>_. AnyMsg ''stored registry login is corrupt'') (tryR (wire_decode (me_session V) b) (\<lambda>s. Ok (Some s))))"

definition local_own_record :: "'n mobile_env \<Rightarrow> 'n mobile_session \<Rightarrow> any_error + signed_record option" where
  "local_own_record V s =
     tryR (peerbook_load (me_ops V) (k_book (me_codecs V)) (ms_store s)) (\<lambda>records. Ok (own_entry (me_crypto V) (ms_identity s) records))"

definition display_name :: "signed_record \<Rightarrow> string" where
  "display_name r = (if str_trim (rec_name (s_record r)) = [] then rec_handle (s_record r) else rec_name (s_record r))"

definition profile_info_of :: "'n mobile_env \<Rightarrow> signed_record \<Rightarrow> profile_info" where
  "profile_info_of V r = \<lparr>pi_user_id = rec_user_id (s_record r), pi_handle = rec_handle (s_record r), pi_display_name = display_name r,
     pi_connection_card = record_encode (k_book (me_codecs V)) r\<rparr>"

definition require_session :: "'n mobile \<Rightarrow> any_error + 'n mobile_session" where
  "require_session mb = ok_or (AnyMsg ''log in first'') (mb_session mb)"

definition require_current_session :: "'n mobile \<Rightarrow> any_error + 'n mobile_session" where
  "require_current_session mb =
     tryR (require_session mb) (\<lambda>s.
     if \<not> ms_current s then Err (AnyMsg ''this device was replaced; log in to make it active again'') else Ok s)"

definition current_state :: "'n mobile \<Rightarrow> client_state" where
  "current_state mb = (case mb_session mb of
      None \<Rightarrow> NeedsLogin
    | Some s \<Rightarrow> if \<not> ms_current s then Replaced
        else if ms_own_record s \<noteq> None then Ready
        else if mb_account mb \<noteq> None then NeedsProfile else NeedsLogin)"

definition put_session :: "'n mobile_session \<Rightarrow> 'n mobile \<Rightarrow> 'n mobile" where
  "put_session s mb = mb\<lparr>mb_session := Some s, mb_dir := fs_dir (ms_store s)\<rparr>"

definition profile_inner :: "'n mobile_env \<Rightarrow> 'n mobile \<Rightarrow> any_error + profile_info option" where
  "profile_inner V mb = (case require_session mb of
      Err _ \<Rightarrow> Ok None
    | Ok s \<Rightarrow> tryR (local_own_record V s) (\<lambda>found.
        Ok (map_option (profile_info_of V) (case ms_own_record s of Some r \<Rightarrow> Some r | None \<Rightarrow> found))))"

section \<open>The profile\<close>

definition start_listener :: "'n mobile_env \<Rightarrow> bool \<Rightarrow> 'n mobile_session \<Rightarrow> 'n mobile \<Rightarrow> 'n mobile" where
  "start_listener V start s mb =
     (if \<not> start then put_session s mb
      else let (node, nw) = reticulum (me_network V) (ms_network s); s = s\<lparr>ms_network := nw\<rparr> in case node of
          None \<Rightarrow> mobile_push \<lparr>ce_kind = ErrorKind, ce_message = ''Could not start Reticulum node'', ce_user = None\<rparr> (put_session s mb)
        | Some _ \<Rightarrow> put_session (s\<lparr>ms_listening := True\<rparr>) mb)"

definition announce_record ::
    "'n mobile_env \<Rightarrow> registry_client \<Rightarrow> registry_session \<Rightarrow> u64 \<Rightarrow> signed_record \<Rightarrow> any_error + unit" where
  "announce_record V k account now r =
     (if session_is_expired account (sint now)
      then tryR (rk_get_record (me_crypto V) (k_claims (me_codecs V)) k (rs_account_id account)) (\<lambda>found.
        if found \<noteq> Some r then Err (AnyMsg ''log in again to publish profile or device changes'') else Ok ())
      else rk_put_record k account r)"

definition publish_profile_values :: "'n mobile_env \<Rightarrow> 'n mobile \<Rightarrow> handle \<Rightarrow> string \<Rightarrow> (any_error + profile_info) \<times> 'n mobile" where
  "publish_profile_values V mb h name =
     tryE (require_session mb) mb (\<lambda>s.
     let start = \<not> ms_listening s;
         (built, st, p) = publish_active_device_record (me_ops V) (me_crypto V) (k_book (me_codecs V)) (ms_store s) (mb_platform mb) (ms_identity s) h name;
         s = s\<lparr>ms_store := st\<rparr>;
         mb = (put_session s mb)\<lparr>mb_platform := p\<rparr>
     in tryE built mb (\<lambda>r.
        let mb = start_listener V start (s\<lparr>ms_own_record := Some r\<rparr>) mb;
            current = (\<lambda>mb. case mb_session mb of Some s \<Rightarrow> put_session (s\<lparr>ms_current := True\<rparr>) mb | None \<Rightarrow> mb)
        in case mb_account mb of
             None \<Rightarrow> (Ok (profile_info_of V r), current mb)
           | Some account \<Rightarrow>
               let t = mb_tick mb; mb = mb\<lparr>mb_tick := Suc t\<rparr> in
               tryE (registry_client_new (me_agent V t) (rs_registry_url account)) mb (\<lambda>k.
               let (now, p) = now_unix_secs (mb_platform mb); mb = mb\<lparr>mb_platform := p\<rparr> in
               tryE (announce_record V k account now r) mb (\<lambda>_.
               let mb = (case mb_session mb of Some s \<Rightarrow> put_session (s\<lparr>ms_network := use_registry (ms_network s) (rs_registry_url account)\<rparr>) mb | None \<Rightarrow> mb)
               in (Ok (profile_info_of V r), current mb)))))"

definition publish_profile :: "'n mobile_env \<Rightarrow> 'n mobile \<Rightarrow> string \<Rightarrow> string \<Rightarrow> (any_error + profile_info) \<times> 'n mobile" where
  "publish_profile V mb h name =
     tryE (map_err (\<lambda>_. AnyMsg ''use lowercase letters, numbers, or underscores for the handle'') (handle_new (me_lower V (str_trim h)))) mb (\<lambda>h.
     if str_trim name = [] then (Err (AnyMsg ''enter your display name''), mb)
     else publish_profile_values V mb h (str_trim name))"

definition republish_existing_profile :: "'n mobile_env \<Rightarrow> 'n mobile \<Rightarrow> (any_error + profile_info) \<times> 'n mobile" where
  "republish_existing_profile V mb =
     tryE (require_session mb) mb (\<lambda>s.
     let record = (case ms_own_record s of Some r \<Rightarrow> Some r | None \<Rightarrow> (case local_own_record V s of Ok found \<Rightarrow> found | Err _ \<Rightarrow> None)) in
     tryE (ok_or (AnyMsg ''finish setting up your profile'') record) mb (\<lambda>r.
     publish_profile_values V mb (rec_handle (s_record r)) (display_name r)))"
section \<open>Logging in\<close>

definition mobile_request_email_login :: "'n mobile_env \<Rightarrow> 'n mobile \<Rightarrow> string \<Rightarrow> (any_error + nat) \<times> 'n mobile" where
  "mobile_request_email_login V mb email =
     (let email = str_trim email; t = mb_tick mb in
      if email = [] then (Err (AnyMsg ''enter your email address''), mb)
      else (tryR (registry_client_new (me_agent V t) (mb_url mb)) (\<lambda>k.
              tryR (rk_request_email_login k email) (\<lambda>expires.
              if expires < 0 then Err (AnyMsg ''registry returned an invalid expiry'') else Ok (nat expires))),
            mb\<lparr>mb_tick := Suc t\<rparr>))"

text \<open>What the registry holds of an account must be this identity's; a missing recovery secret is stored.\<close>

definition check_identity ::
    "'n mobile_env \<Rightarrow> registry_client \<Rightarrow> registry_session \<Rightarrow> identity \<Rightarrow> bytes option \<Rightarrow> signed_record option \<Rightarrow> string \<Rightarrow> string \<Rightarrow> any_error + unit" where
  "check_identity V k session i recovery remote other_secret other_record =
     (if recovery \<noteq> None \<and> recovery \<noteq> Some (wallet_secret i) then Err (AnyMsg other_secret)
      else if (\<exists>r \<in> set_option remote. rec_user_id (s_record r) \<noteq> own_user_id (me_crypto V) i) then Err (AnyMsg other_record)
      else if recovery = None then rk_put_recovery k session (wallet_secret i) else Ok ())"

definition new_login_identity ::
    "'n mobile_env \<Rightarrow> platform \<Rightarrow> bytes option \<Rightarrow> ((any_error + identity) \<times> platform) option" where
  "new_login_identity V p recovery = map_option (map_errS AnyCore) (case recovery of
      Some secret \<Rightarrow> Some (identity_adopt (me_crypto V) p secret)
    | None \<Rightarrow> identity_generate (me_crypto V) p)"

text \<open>The session a confirmed login runs with, and the secret of an identity made for it.\<close>

definition login_session ::
    "'n mobile_env \<Rightarrow> registry_client \<Rightarrow> registry_session \<Rightarrow> bytes option \<Rightarrow> signed_record option \<Rightarrow> 'n mobile \<Rightarrow>
     ((any_error + 'n mobile_session \<times> bytes option) \<times> 'n mobile) option" where
  "login_session V k session recovery remote mb = (case mb_session mb of
      Some s \<Rightarrow> Some (tryR (check_identity V k session (ms_identity s) recovery remote
          ''that email belongs to a different Mycellium identity'' ''that email publishes a different Mycellium identity'') (\<lambda>_. Ok (s, None)), mb)
    | None \<Rightarrow>
        if recovery = None \<and> remote \<noteq> None then Some (Err (AnyMsg ''this account has an identity record but no recovery material''), mb)
        else (case new_login_identity V (mb_platform mb) recovery of
            None \<Rightarrow> None
          | Some (made, p) \<Rightarrow>
              let mb = mb\<lparr>mb_platform := p\<rparr> in
              Some (tryE made mb (\<lambda>i.
                if (\<exists>r \<in> set_option remote. rec_user_id (s_record r) \<noteq> own_user_id (me_crypto V) i)
                then (Err (AnyMsg ''the recovered identity does not match the account record''), mb)
                else tryE (if recovery = None then rk_put_recovery k session (wallet_secret i) else Ok ()) mb (\<lambda>_.
                  let (opened, dir) = open_session V (mb_dir mb) (mb_tick mb) i; mb = mb\<lparr>mb_dir := dir\<rparr>
                  in (tryR opened (\<lambda>s. Ok (s, Some (encode_identity_secret i))), mb))))))"

text \<open>The block that holds the store's lock: the session as it is left, whether or not it succeeds.\<close>

definition store_login :: "'n mobile_env \<Rightarrow> 'n mobile_session \<Rightarrow> registry_session \<Rightarrow> signed_record option \<Rightarrow> (any_error + unit) \<times> 'n mobile_session" where
  "store_login V s session remote =
     (let (saved, st) = save_account_session V (ms_store s) session; s = s\<lparr>ms_store := st\<rparr> in
      tryE saved s (\<lambda>_. case remote of
          None \<Rightarrow> (Ok (), s)
        | Some r \<Rightarrow>
            let (imported, st) = peerbook_put (me_ops V) (me_crypto V) (k_book (me_codecs V)) (ms_store s) (rec_handle (s_record r)) r;
                s = s\<lparr>ms_store := st\<rparr>
            in tryE imported s (\<lambda>_. (Ok (), s\<lparr>ms_own_record := Some r\<rparr>))))"

text \<open>A session that was already there keeps what was done to its store; a new one is dropped with it.\<close>

definition keep_session :: "'n mobile_session \<Rightarrow> 'n mobile \<Rightarrow> 'n mobile" where
  "keep_session s mb = (case mb_session mb of Some _ \<Rightarrow> put_session s mb | None \<Rightarrow> mb\<lparr>mb_dir := fs_dir (ms_store s)\<rparr>)"

definition start_workers :: "'n mobile \<Rightarrow> 'n mobile" where
  "start_workers mb = (case mb_session mb of
      None \<Rightarrow> mb
    | Some _ \<Rightarrow> mb\<lparr>mb_outbox_started := True, mb_monitor_started := mb_monitor_started mb \<or> mb_account mb \<noteq> None\<rparr>)"

definition finish_login :: "'n mobile_env \<Rightarrow> bool \<Rightarrow> signed_record option \<Rightarrow> bytes option \<Rightarrow> 'n mobile \<Rightarrow> (any_error + login_result) \<times> 'n mobile" where
  "finish_login V created remote secret mb =
     (let mb = start_workers mb;
          answer = (\<lambda>mb. (Ok \<lparr>lr_created = created, lr_state = current_state mb, lr_identity_secret = secret\<rparr>, mb))
      in tryE (if remote \<noteq> None then Ok True else tryR (profile_inner V mb) (\<lambda>profile. Ok (profile \<noteq> None))) mb (\<lambda>republish.
         if republish then tryS (republish_existing_profile V mb) (\<lambda>_ mb. answer mb) else answer mb))"

text \<open>The questions a login asks of the registry, and what is done with the session that came of them.\<close>

definition login_answers ::
    "'n mobile_env \<Rightarrow> 'n mobile \<Rightarrow> string \<Rightarrow> any_error + (registry_client \<times> confirmed_login \<times> bytes option \<times> signed_record option)" where
  "login_answers V mb code =
     tryR (registry_client_new (me_agent V (mb_tick mb)) (mb_url mb)) (\<lambda>k.
     tryR (rk_confirm_login k code) (\<lambda>login.
     if (\<exists>a \<in> set_option (mb_account mb). rs_account_id a \<noteq> rs_account_id (cl_session login))
     then Err (AnyMsg ''that email belongs to a different Mycellium account'')
     else tryR (rk_get_recovery k (cl_session login)) (\<lambda>recovery.
       tryR (rk_get_record (me_crypto V) (k_claims (me_codecs V)) k (rs_account_id (cl_session login))) (\<lambda>remote.
       Ok (k, login, recovery, remote)))))"

definition enter_login ::
    "'n mobile_env \<Rightarrow> confirmed_login \<Rightarrow> signed_record option \<Rightarrow> 'n mobile_session \<Rightarrow> bytes option \<Rightarrow> 'n mobile \<Rightarrow>
     (any_error + login_result) \<times> 'n mobile" where
  "enter_login V login remote s secret mb =
     (let (stored, s) = store_login V s (cl_session login) remote in case stored of
        Err e \<Rightarrow> (Err e, keep_session s mb)
      | Ok _ \<Rightarrow> finish_login V (cl_created login) remote secret ((put_session s mb)\<lparr>mb_account := Some (cl_session login)\<rparr>))"

definition confirm_email_login_inner ::
    "'n mobile_env \<Rightarrow> 'n mobile \<Rightarrow> string \<Rightarrow> ((any_error + login_result) \<times> 'n mobile) option" where
  "confirm_email_login_inner V mb code =
     (let code = str_trim code in
      if code = [] then Some (Err (AnyMsg ''enter the code from your email''), mb)
      else let asked = login_answers V mb code; mb = mb\<lparr>mb_tick := Suc (mb_tick mb)\<rparr>
           in case asked of
                Err e \<Rightarrow> Some (Err e, mb)
              | Ok (k, login, recovery, remote) \<Rightarrow>
                  (case login_session V k (cl_session login) recovery remote mb of
                     None \<Rightarrow> None
                   | Some (opened, mb) \<Rightarrow> Some (tryE opened mb (\<lambda>(s, secret). enter_login V login remote s secret mb))))"

definition confirm_email_login_link ::
    "'n mobile_env \<Rightarrow> 'n mobile \<Rightarrow> string \<Rightarrow> ((any_error + login_result) \<times> 'n mobile) option" where
  "confirm_email_login_link V mb link = (case login_token_from_link link of
      Err e \<Rightarrow> Some (Err e, mb)
    | Ok token \<Rightarrow> confirm_email_login_inner V mb token)"
section \<open>Sending\<close>

definition trust_error_message :: "trust_error \<Rightarrow> any_error" where
  "trust_error_message e = AnyMsg (case e of
      IdentityChanged \<Rightarrow> ''their identity changed; review it before sending''
    | StaleRecord \<Rightarrow> ''their saved identity record is stale''
    | UnverifiedRecord \<Rightarrow> ''their identity record is invalid''
    | BadHandle \<Rightarrow> ''person not found; add their connection card first'')"

text \<open>The delivery closure: an item is parked in the transaction and remembered for after the commit.\<close>

definition prepare_hook ::
    "'s storage \<Rightarrow> crypto \<Rightarrow> client_codecs \<Rightarrow> u64 \<Rightarrow> ((string \<times> device \<times> mail_item) list, 's) delivery_hook" where
  "prepare_hook S C K now = (\<lambda>prepared st h r d item plaintext.
     let delivery_id = delivery_id_for_item C K item;
         (parked, st) = (case plaintext of
             Some plaintext \<Rightarrow> park_pairwise_outbox S (k_outbox K) st delivery_id h r d item plaintext now
           | None \<Rightarrow> park_outbox S (k_outbox K) st delivery_id h r d item now)
     in case parked of
          Ok _ \<Rightarrow> (OutboxPath, st, prepared @ [(delivery_id, d, item)])
        | Err _ \<Rightarrow> (FailedPath, st, prepared))"

fun attempt_prepared ::
    "'n mobile_env \<Rightarrow> u64 \<Rightarrow> (string \<times> device \<times> mail_item) list \<Rightarrow> send_outcome \<Rightarrow> (file_store, 'n) flush_world \<Rightarrow>
     (any_error + send_outcome) \<times> (file_store, 'n) flush_world" where
  "attempt_prepared V now [] out w = (Ok out, w)"
| "attempt_prepared V now ((delivery_id, d, item) # rest) out w =
     tryS (attempt_parked_delivery (me_ops V) (me_crypto V) (me_codecs V) (me_network V) (me_others V) d delivery_id item now w) (\<lambda>accepted w.
     attempt_prepared V now rest
       (if accepted then out\<lparr>so_outboxed := saturating_sub (so_outboxed out) 1, so_direct := so_direct out + 1, so_delivered := so_delivered out + 1\<rparr> else out) w)"

text \<open>Building, parking and committing the message; the store as it is left.\<close>

definition prepare_text ::
    "'n mobile_env \<Rightarrow> 'n mobile_session \<Rightarrow> platform \<Rightarrow> signed_record option \<Rightarrow> string \<Rightarrow> app_message \<Rightarrow> signed_record \<Rightarrow>
     (any_error + send_outcome \<times> (string \<times> device \<times> mail_item) list \<times> u64) \<times> file_store \<times> platform" where
  "prepare_text V s p refreshed uid app own =
     (let C = me_crypto V; K = me_codecs V; S = me_ops V;
          st = (case refreshed of Some r \<Rightarrow> snd (apply_registry_record S C (k_book K) (ms_store s) uid r) | None \<Rightarrow> ms_store s);
          (resolved, st) = resolve_local_record S C (k_flow K) st uid
      in tryE (map_err trust_error_message resolved) (st, p) (\<lambda>(peer, peer_record).
         let info = verification_info_for_record S C (k_flow K) st (ms_identity s) peer peer_record in
         if \<not> (vi_level info = Pinned \<or> vi_level info = Verified) then (Err (AnyMsg ''add this person before messaging them''), st, p)
         else let (now, p) = now_unix_secs p;
                  (sent, w) = send_direct (tx_ops C (me_fs V)) C K (ms_identity s)
                    \<lparr>fl_store = fs_transaction st, fl_platform = p, fl_host = [], fl_events = []\<rparr>
                    (rec_handle (s_record own)) peer peer_record app (prepare_hook (tx_ops C (me_fs V)) C K now);
                  p = fl_platform w
              in tryE sent (st, p) (\<lambda>out.
                 let (committed, st) = tx_commit C (me_fs V) (me_batch V) (fl_store w)
                 in tryE (map_err AnyIo committed) (st, p) (\<lambda>_. (Ok (out, fl_host w, now), st, p)))))"

definition send_text_inner :: "'n mobile_env \<Rightarrow> 'n mobile \<Rightarrow> string \<Rightarrow> string \<Rightarrow> (any_error + delivery_state) \<times> 'n mobile" where
  "send_text_inner V mb uid text =
     tryE (require_current_session mb) mb (\<lambda>s.
     if str_trim text = [] then (Err (AnyMsg ''write a message first''), mb)
     else tryE (ok_or (AnyMsg ''finish setting up your profile'') (ms_own_record s)) mb (\<lambda>own.
       let (bs, p) = fill_random (mb_platform mb) 16;
           (now, p) = now_unix_secs p;
           app = \<lparr>msg_id = hex bs, msg_timestamp = now, msg_expires_at = None, msg_body = Text (str_trim text)\<rparr>;
           t = mb_tick mb;
           refreshed = (case tryR (registry_client_new (me_agent V t) (mb_url mb)) (\<lambda>k.
               rk_get_record_for_user (me_crypto V) (k_claims (me_codecs V)) k uid) of Ok found \<Rightarrow> found | Err _ \<Rightarrow> None);
           (prepared, st, p) = prepare_text V s p refreshed uid app own;
           s = s\<lparr>ms_store := st\<rparr>;
           mb = (put_session s mb)\<lparr>mb_platform := p, mb_tick := Suc t\<rparr>
       in tryE prepared mb (\<lambda>(out, items, now).
          let (tried, w) = attempt_prepared V now items out
                \<lparr>fw_store = ms_store s, fw_network = ms_network s, fw_platform = mb_platform mb, fw_locks = mb_tick mb\<rparr>;
              mb = put_session (s\<lparr>ms_store := fw_store w, ms_network := fw_network w\<rparr>) mb
          in tryE tried mb (\<lambda>out.
             (if so_direct out > 0 then Ok DeliveredNow
              else if so_outboxed out > 0 then Ok PendingDelivery
              else Err (AnyMsg ''message could not be sent or saved for retry''), mb)))))"

definition flush_session :: "'n mobile_env \<Rightarrow> 'n mobile_session \<Rightarrow> 'n mobile \<Rightarrow> (any_error + outbox_flush) \<times> 'n mobile" where
  "flush_session V s mb =
     (let (now, p) = now_unix_secs (mb_platform mb);
          (flushed, w) = flush_shared_outbox (me_ops V) (me_crypto V) (me_codecs V) (me_network V) (me_others V) (ms_identity s) now
            \<lparr>fw_store = ms_store s, fw_network = ms_network s, fw_platform = p, fw_locks = mb_tick mb\<rparr>
      in (flushed, (put_session (s\<lparr>ms_store := fw_store w, ms_network := fw_network w\<rparr>) mb)\<lparr>mb_platform := fw_platform w, mb_tick := Suc (mb_tick mb)\<rparr>))"

definition retry_pending :: "'n mobile_env \<Rightarrow> 'n mobile \<Rightarrow> (any_error + nat) \<times> 'n mobile" where
  "retry_pending V mb =
     tryE (require_current_session mb) mb (\<lambda>s.
     let (due, st) = make_all_due (me_ops V) (k_outbox (me_codecs V)) (ms_store s);
         s = s\<lparr>ms_store := st\<rparr>; mb = put_session s mb
     in tryE due mb (\<lambda>_. tryS (flush_session V s mb) (\<lambda>r mb. (Ok (of_waiting r), mb))))"

definition pending_count :: "'n mobile_env \<Rightarrow> 'n mobile \<Rightarrow> any_error + nat" where
  "pending_count V mb = tryR (require_session mb) (\<lambda>s.
     tryR (outbox_load (me_ops V) (k_outbox (me_codecs V)) (ms_store s)) (\<lambda>es. Ok (length (filter is_pending es))))"

section \<open>Workers\<close>

text \<open>One round of the outbox worker.\<close>

definition outbox_round :: "'n mobile_env \<Rightarrow> 'n mobile \<Rightarrow> 'n mobile" where
  "outbox_round V mb = (case mb_session mb of
      None \<Rightarrow> mb
    | Some s \<Rightarrow>
        if \<not> mb_outbox_started mb \<or> \<not> is_running (ms_network s) \<or> \<not> ms_current s then mb
        else (case flush_session V s mb of
            (Ok r, mb) \<Rightarrow> if of_delivered r > 0
              then mobile_push \<lparr>ce_kind = DeliveredKind, ce_message = ''Delivered '' @ nat_decimal (of_delivered r) @ '' pending message(s)'', ce_user = None\<rparr> mb
              else mb
          | (Err _, mb) \<Rightarrow> mb))"

definition active_here :: "'n mobile_env \<Rightarrow> 'n mobile_session \<Rightarrow> signed_record \<Rightarrow> bool" where
  "active_here V s r \<longleftrightarrow> rec_user_id (s_record r) = own_user_id (me_crypto V) (ms_identity s)
     \<and> device_key (rec_device (s_record r)) = device_public (me_crypto V) (ms_identity s)"

text \<open>One round of the account monitor.\<close>

definition monitor_round :: "'n mobile_env \<Rightarrow> 'n mobile \<Rightarrow> 'n mobile" where
  "monitor_round V mb = (case (mb_session mb, mb_account mb) of
      (Some s, Some account) \<Rightarrow>
        if \<not> mb_monitor_started mb \<or> \<not> is_running (ms_network s) then mb
        else let t = mb_tick mb; mb = mb\<lparr>mb_tick := Suc t\<rparr> in
          (case tryR (registry_client_new (me_agent V t) (rs_registry_url account)) (\<lambda>k.
              rk_get_record (me_crypto V) (k_claims (me_codecs V)) k (rs_account_id account)) of
             Ok (Some r) \<Rightarrow>
               let is_current = active_here V s r; mb' = put_session (s\<lparr>ms_current := is_current\<rparr>) mb in
               if ms_current s \<and> \<not> is_current
               then mobile_push \<lparr>ce_kind = DeviceReplacedKind, ce_message = ''This device was replaced. Sending is disabled.'', ce_user = None\<rparr> mb'
               else mb'
           | _ \<Rightarrow> mb)
    | _ \<Rightarrow> mb)"

definition refresh_device_status_inner :: "'n mobile_env \<Rightarrow> 'n mobile \<Rightarrow> (any_error + client_state) \<times> 'n mobile" where
  "refresh_device_status_inner V mb =
     tryE (require_session mb) mb (\<lambda>s. case mb_account mb of
         None \<Rightarrow> (Ok (current_state mb), mb)
       | Some account \<Rightarrow>
           let t = mb_tick mb; mb = mb\<lparr>mb_tick := Suc t\<rparr> in
           tryE (tryR (registry_client_new (me_agent V t) (rs_registry_url account)) (\<lambda>k.
             rk_get_record (me_crypto V) (k_claims (me_codecs V)) k (rs_account_id account))) mb (\<lambda>found.
           let mb = (case found of Some r \<Rightarrow> put_session (s\<lparr>ms_current := active_here V s r\<rparr>) mb | None \<Rightarrow> mb)
           in (Ok (current_state mb), mb)))"

definition refresh_connectivity :: "'n mobile_env \<Rightarrow> 'n mobile \<Rightarrow> (any_error + unit) \<times> 'n mobile" where
  "refresh_connectivity V mb =
     tryE (require_session mb) mb (\<lambda>s.
     let (r, nw) = ensure_reticulum (me_network V) (ms_network s) in (r, put_session (s\<lparr>ms_network := nw\<rparr>) mb))"

text \<open>Serving one inbound frame: the reply, and the client afterwards.\<close>

definition serve_mobile_connection :: "'n mobile_env \<Rightarrow> 'n mobile \<Rightarrow> bytes \<Rightarrow> bytes option \<times> 'n mobile" where
  "serve_mobile_connection V mb inbound = (case mb_session mb of
      None \<Rightarrow> (None, mb)
    | Some s \<Rightarrow>
        if \<not> is_running (ms_network s) \<or> \<not> ms_current s then (None, mb)
        else (case wire_decode (k_frame (me_codecs V)) inbound of
            Ok (DeliveryFrame delivery_id item) \<Rightarrow>
              if mail_item_sender_device item = None then (None, mb)
              else (case ms_own_record s of
                  None \<Rightarrow> (None, mb)
                | Some r \<Rightarrow>
                    let d = accept_delivery (me_crypto V) (me_fs V) (me_batch V) (me_codecs V) (ms_identity s) (rec_handle (s_record r)) r
                          (mb_platform mb) (ms_store s) delivery_id item
                    in (dl_ack d, (put_session (s\<lparr>ms_store := dl_store d\<rparr>) mb)\<lparr>mb_platform := dl_platform d,
                          mb_events := foldl sink_emit (mb_events mb) (dl_events d)\<rparr>))
          | _ \<Rightarrow> (None, mb)))"

text \<open>The listener thread ends when the node fails while the network is running.\<close>

definition listener_stopped :: "string \<Rightarrow> 'n mobile \<Rightarrow> 'n mobile" where
  "listener_stopped cause mb = (case mb_session mb of
      None \<Rightarrow> mb
    | Some s \<Rightarrow> if \<not> ms_listening s \<or> \<not> is_running (ms_network s) then mb
        else mobile_push \<lparr>ce_kind = ErrorKind, ce_message = ''Incoming connection stopped: '' @ cause, ce_user = None\<rparr> mb)"

definition mobile_drop :: "'n mobile \<Rightarrow> 'n mobile" where
  "mobile_drop mb = (case mb_session mb of
      Some s \<Rightarrow> put_session (s\<lparr>ms_current := False, ms_network := network_shutdown (ms_network s)\<rparr>) mb
    | None \<Rightarrow> mb)"
section \<open>Reading and contacts\<close>

text \<open>A call that runs on the store of the session under its lock.\<close>

definition with_store :: "'n mobile \<Rightarrow> ('n mobile_session \<Rightarrow> file_store \<Rightarrow> (any_error + 'a) \<times> file_store) \<Rightarrow> (any_error + 'a) \<times> 'n mobile" where
  "with_store mb f =
     tryE (require_session mb) mb (\<lambda>s. let (r, st) = f s (ms_store s) in (r, put_session (s\<lparr>ms_store := st\<rparr>) mb))"

record conversation_info =
  ci_user_id :: string
  ci_handle :: string
  ci_display_name :: string
  ci_preview :: string
  ci_timestamp :: u64
  ci_from_me :: bool

record message_info =
  mi_id :: string
  mi_text :: string
  mi_timestamp :: u64
  mi_from_me :: bool

record attachment_info =
  ai_id :: string
  ai_name :: string
  ai_mime :: string
  ai_data :: bytes

definition mobile_conversations :: "'n mobile_env \<Rightarrow> 'n mobile \<Rightarrow> u64 \<Rightarrow> (any_error + conversation_info list) \<times> 'n mobile" where
  "mobile_conversations V mb now = with_store mb (\<lambda>s st.
     tryS (conversations (me_ops V) (me_codecs V) st now) (\<lambda>items st.
       (Ok (map (\<lambda>item. \<lparr>ci_user_id = cp_user_id item, ci_handle = cp_peer item, ci_display_name = cp_display_name item, ci_preview = cp_text item,
          ci_timestamp = cp_timestamp item, ci_from_me = cp_from_me item\<rparr>) items), st)))"

definition mobile_messages :: "'n mobile_env \<Rightarrow> 'n mobile \<Rightarrow> string \<Rightarrow> u64 \<Rightarrow> (any_error + message_info list) \<times> 'n mobile" where
  "mobile_messages V mb uid now = with_store mb (\<lambda>s st.
     tryS (history_with (me_ops V) (me_codecs V) st uid now) (\<lambda>(_, messages) st.
       (Ok (map (\<lambda>item. \<lparr>mi_id = sm_id item, mi_text = sm_text item, mi_timestamp = sm_timestamp item, mi_from_me = sm_from_me item\<rparr>) messages), st)))"

definition mobile_attachment :: "'n mobile_env \<Rightarrow> 'n mobile \<Rightarrow> string \<Rightarrow> any_error + attachment_info option" where
  "mobile_attachment V mb i = tryR (require_session mb) (\<lambda>s.
     tryR (attachment_load (me_ops V) (fc_attachment (k_flow (me_codecs V))) (ms_store s) i) (\<lambda>found.
     Ok (map_option (\<lambda>a. \<lparr>ai_id = att_id a, ai_name = att_name a, ai_mime = att_mime a, ai_data = att_data a\<rparr>) found)))"

definition mobile_contacts :: "'n mobile_env \<Rightarrow> 'n mobile \<Rightarrow> any_error + contact_entry list" where
  "mobile_contacts V mb = tryR (require_session mb) (\<lambda>s.
     tryR (list_contacts (me_ops V) (me_codecs V) (ms_store s)) (\<lambda>cts. Ok (sort_key (\<lambda>ct. me_lower V (ce_nickname ct)) cts)))"

definition mobile_add_contact ::
    "'n mobile_env \<Rightarrow> 'n mobile \<Rightarrow> string \<Rightarrow> string option \<Rightarrow> ((any_error + contact_entry) \<times> 'n mobile) option" where
  "mobile_add_contact V mb conn_card nick = (case record_decode (me_crypto V) (k_book (me_codecs V)) (str_trim conn_card) of
      None \<Rightarrow> None
    | Some decoded \<Rightarrow> Some (tryE decoded mb (\<lambda>r.
        let nick = (case nick of
              Some n \<Rightarrow> if str_trim n = [] then display_name r else str_trim n
            | None \<Rightarrow> display_name r)
        in with_store mb (\<lambda>s st. tryS (add_contact_from_record (me_ops V) (me_crypto V) (me_codecs V) st nick r) (\<lambda>_ st.
             (Ok \<lparr>ce_nickname = nick, ce_handle = rec_handle (s_record r), ce_user_id = rec_user_id (s_record r), ce_verified = False\<rparr>, st))))))"

definition mobile_remove_contact :: "'n mobile_env \<Rightarrow> 'n mobile \<Rightarrow> string \<Rightarrow> (any_error + unit) \<times> 'n mobile" where
  "mobile_remove_contact V mb nick = with_store mb (\<lambda>s st. contacts_remove (me_ops V) (k_contacts (me_codecs V)) st (str_trim nick))"

definition record_for_user :: "'n mobile_env \<Rightarrow> file_store \<Rightarrow> string \<Rightarrow> any_error + signed_record" where
  "record_for_user V st uid =
     tryR (map_err (\<lambda>_. AnyMsg ''invalid user identity'') (user_id_new uid)) (\<lambda>uid.
     tryR (peerbook_load (me_ops V) (k_book (me_codecs V)) st) (\<lambda>records.
     ok_or (AnyMsg ''this person's signed record is missing'') (map_option pe_record (List.find (\<lambda>e. pe_user_id e = uid) records))))"

definition contact_info :: "'n mobile_env \<Rightarrow> 'n mobile_session \<Rightarrow> file_store \<Rightarrow> string \<Rightarrow> any_error + verification_info" where
  "contact_info V s st uid = tryR (record_for_user V st uid) (\<lambda>r.
     Ok (verification_info_for_record (me_ops V) (me_crypto V) (k_flow (me_codecs V)) st (ms_identity s) (rec_handle (s_record r)) r))"

definition mobile_trust_label :: "trust_level \<Rightarrow> string" where
  "mobile_trust_label t = (case t of Verified \<Rightarrow> ''Verified'' | Pinned \<Rightarrow> ''Saved'' | Changed \<Rightarrow> ''Identity changed'' | Unverified \<Rightarrow> ''Unverified'')"

record contact_security_info =
  csi_user_id :: string
  csi_handle :: string
  csi_safety_number :: string
  csi_trust :: string
  csi_identity_changed :: bool
  csi_blocked :: bool

definition contact_security :: "'n mobile_env \<Rightarrow> 'n mobile \<Rightarrow> string \<Rightarrow> any_error + contact_security_info" where
  "contact_security V mb uid = tryR (require_session mb) (\<lambda>s.
     tryR (contact_info V s (ms_store s) uid) (\<lambda>info.
     tryR (blocklist_load (me_ops V) (k_blocked (me_codecs V)) (ms_store s)) (\<lambda>blocked.
     Ok \<lparr>csi_user_id = vi_user_id info, csi_handle = vi_handle info, csi_safety_number = vi_safety_number info,
       csi_trust = mobile_trust_label (vi_level info), csi_identity_changed = (vi_level info = Changed), csi_blocked = list_ex (\<lambda>i. i = uid) blocked\<rparr>)))"

definition set_contact_blocked :: "'n mobile_env \<Rightarrow> 'n mobile \<Rightarrow> string \<Rightarrow> bool \<Rightarrow> (any_error + unit) \<times> 'n mobile" where
  "set_contact_blocked V mb uid blocked =
     tryE (map_err (\<lambda>_. AnyMsg ''invalid protocol user id'') (user_id_new uid)) mb (\<lambda>_.
     with_store mb (\<lambda>s st. set_blocked (me_ops V) (k_blocked (me_codecs V)) st uid blocked))"

definition verify_contact :: "'n mobile_env \<Rightarrow> 'n mobile \<Rightarrow> string \<Rightarrow> (any_error + unit) \<times> 'n mobile" where
  "verify_contact V mb uid = with_store mb (\<lambda>s st.
     tryE (contact_info V s st uid) st (\<lambda>info. mark_verified (me_ops V) (k_flow (me_codecs V)) st info))"

definition mobile_accept_identity_change :: "'n mobile_env \<Rightarrow> 'n mobile \<Rightarrow> string \<Rightarrow> (any_error + unit) \<times> 'n mobile" where
  "mobile_accept_identity_change V mb uid = with_store mb (\<lambda>s st.
     tryE (contact_info V s st uid) st (\<lambda>info. accept_identity_change (me_ops V) (k_flow (me_codecs V)) st info))"

section \<open>Starting\<close>

definition mobile_new :: "string \<Rightarrow> (string \<Rightarrow> bytes option) \<Rightarrow> platform \<Rightarrow> nat \<Rightarrow> 'n mobile" where
  "mobile_new url dir p t = \<lparr>mb_url = url, mb_account = None, mb_session = None, mb_events = [], mb_outbox_started = False,
     mb_monitor_started = False, mb_dir = dir, mb_platform = p, mb_tick = t\<rparr>"

definition resume_session :: "'n mobile_env \<Rightarrow> 'n mobile \<Rightarrow> bytes option \<Rightarrow> (any_error + 'n mobile_session option \<times> registry_session option) \<times> 'n mobile" where
  "resume_session V mb secret = (case secret of
      None \<Rightarrow> (Ok (None, None), mb)
    | Some secret \<Rightarrow>
        tryE (decode_identity_secret (me_crypto V) secret) mb (\<lambda>i.
        let (opened, dir) = open_session V (mb_dir mb) (mb_tick mb) i; mb = mb\<lparr>mb_dir := dir\<rparr>
        in tryE opened mb (\<lambda>s. tryE (load_account_session V (ms_store s)) mb (\<lambda>account. (Ok (Some s, account), mb)))))"

text \<open>The client when opening succeeds; on failure there is none, and the directory is as it was left.\<close>

definition open_inner ::
    "'n mobile_env \<Rightarrow> (string \<Rightarrow> bytes option) \<Rightarrow> platform \<Rightarrow> nat \<Rightarrow> bytes option \<Rightarrow> string option \<Rightarrow> (any_error + 'n mobile) \<times> (string \<Rightarrow> bytes option)" where
  "open_inner V dir p t secret url =
     (let url = (case url of Some u \<Rightarrow> if str_trim u = [] then DEFAULT_REGISTRY_URL else u | None \<Rightarrow> DEFAULT_REGISTRY_URL) in
      tryE (registry_client_new (me_agent V t) url) dir (\<lambda>_.
      let (resumed, mb) = resume_session V (mobile_new url dir p (Suc t)) secret in
      tryE resumed (mb_dir mb) (\<lambda>(session, account).
      case session of
        None \<Rightarrow> (Ok (mb\<lparr>mb_account := account\<rparr>), mb_dir mb)
      | Some s \<Rightarrow>
          let mb = start_workers ((put_session s mb)\<lparr>mb_account := account\<rparr>) in
          tryE (profile_inner V mb) (mb_dir mb) (\<lambda>profile.
          let mb = (if profile = None then mb
                else case republish_existing_profile V mb of
                    (Ok _, mb) \<Rightarrow> mb
                  | (Err e, mb) \<Rightarrow> mobile_push \<lparr>ce_kind = NoticeKind, ce_message = ''Direct reachability will retry: '' @ any_display e, ce_user = None\<rparr> mb)
          in (Ok mb, mb_dir mb)))))"

end
