(* ===== verification/MobileSafety.thy ===== *)
theory MobileSafety
  imports Mobile ClientSafety GroupDelivery
begin

text \<open>
  What is proved of the native client of \<open>Mobile\<close>: what every step keeps, which identity a login
  runs with, that a replaced device is silent, and how a failed login loses the device.
\<close>

section \<open>What every step keeps\<close>

definition mb_identity :: "'n mobile \<Rightarrow> identity option" where
  "mb_identity mb = map_option ms_identity (mb_session mb)"

definition mb_account_id :: "'n mobile \<Rightarrow> string option" where
  "mb_account_id mb = map_option rs_account_id (mb_account mb)"

definition dir_current :: "'n mobile \<Rightarrow> bool" where
  "dir_current mb \<longleftrightarrow> (\<forall>s. mb_session mb = Some s \<longrightarrow> mb_dir mb = fs_dir (ms_store s))"

definition keeps_client :: "'n mobile \<Rightarrow> 'n mobile \<Rightarrow> bool" where
  "keeps_client mb mb' \<longleftrightarrow> (\<forall>i. mb_identity mb = Some i \<longrightarrow> mb_identity mb' = Some i)
     \<and> (\<forall>a. mb_account_id mb = Some a \<longrightarrow> mb_account_id mb' = Some a)
     \<and> (length (mb_events mb) \<le> MAX_EVENTS \<longrightarrow> length (mb_events mb') \<le> MAX_EVENTS)
     \<and> (dir_current mb \<longrightarrow> dir_current mb') \<and> mb_url mb' = mb_url mb"

lemma kept_refl [simp]: "keeps_client mb mb"
  by (simp add: keeps_client_def)

lemma kept_trans: "keeps_client mb mb1 \<Longrightarrow> keeps_client mb1 mb2 \<Longrightarrow> keeps_client mb mb2"
  by (simp add: keeps_client_def)

lemma push_event_bound: "length es \<le> MAX_EVENTS \<Longrightarrow> length (push_event e es) \<le> MAX_EVENTS"
  by (auto simp: push_event_def MAX_EVENTS_def)

lemma sink_emit_bound: "length es \<le> MAX_EVENTS \<Longrightarrow> length (foldl sink_emit es fs) \<le> MAX_EVENTS"
  by (induction fs arbitrary: es) (simp_all add: sink_emit_def push_event_bound split: option.split)

text \<open>Changing only the platform and the counters, the store and network of the session, or the events.\<close>

lemma kept_inert [simp]:
  "keeps_client mb (mb'\<lparr>mb_platform := p\<rparr>) \<longleftrightarrow> keeps_client mb mb'" "keeps_client mb (mb'\<lparr>mb_tick := t\<rparr>) \<longleftrightarrow> keeps_client mb mb'"
  "keeps_client (mb\<lparr>mb_platform := p\<rparr>) mb' \<longleftrightarrow> keeps_client mb mb'" "keeps_client (mb\<lparr>mb_tick := t\<rparr>) mb' \<longleftrightarrow> keeps_client mb mb'"
  "keeps_client mb (mb'\<lparr>mb_outbox_started := b\<rparr>) \<longleftrightarrow> keeps_client mb mb'" "keeps_client mb (mb'\<lparr>mb_monitor_started := b\<rparr>) \<longleftrightarrow> keeps_client mb mb'"
  by (simp_all add: keeps_client_def mb_identity_def mb_account_id_def dir_current_def)

lemma kept_put_session:
  assumes "keeps_client mb mb'" "mb_identity mb = None \<or> mb_identity mb = Some (ms_identity s)"
  shows "keeps_client mb (put_session s mb')"
  using assms by (auto simp: keeps_client_def put_session_def mb_identity_def mb_account_id_def dir_current_def)

lemma kept_push: "keeps_client mb mb' \<Longrightarrow> keeps_client mb (mobile_push e mb')"
  by (auto simp: keeps_client_def mobile_push_def mb_identity_def mb_account_id_def dir_current_def push_event_bound)

lemma kept_tryE: "keeps_client mb mb0 \<Longrightarrow> (\<And>a. r = Ok a \<Longrightarrow> keeps_client mb (snd (f a))) \<Longrightarrow> keeps_client mb (snd (tryE r mb0 f))"
  by (cases r) simp_all

lemma kept_tryS: "keeps_client mb (snd rs) \<Longrightarrow> (\<And>a m. rs = (Ok a, m) \<Longrightarrow> keeps_client m (snd (f a m))) \<Longrightarrow> keeps_client mb (snd (tryS rs f))"
  by (cases rs; cases "fst rs") (auto intro: kept_trans)

lemma session_identity: "require_session mb = Ok s \<Longrightarrow> mb_identity mb = Some (ms_identity s)"
  by (auto simp: require_session_def mb_identity_def)

lemma current_session_identity: "require_current_session mb = Ok s \<Longrightarrow> mb_identity mb = Some (ms_identity s)"
  by (auto simp: require_current_session_def result_elims session_identity split: if_splits)

lemmas kept_rules = kept_tryE kept_tryS kept_put_session kept_push

lemma start_listener_kept:
  "mb_identity mb = Some (ms_identity s) \<Longrightarrow> keeps_client mb mb' \<Longrightarrow> keeps_client mb (start_listener V start s mb')"
  by (auto simp: start_listener_def Let_def split_beta intro!: kept_push kept_put_session split: option.split)

lemma start_listener_session:
  "\<exists>s'. mb_session (start_listener V start s mb) = Some s' \<and> ms_identity s' = ms_identity s \<and> ms_store s' = ms_store s"
  by (auto simp: start_listener_def put_session_def mobile_push_def Let_def split_beta split: option.split)

lemma with_store_kept: "keeps_client mb (snd (with_store mb f))"
  unfolding with_store_def Let_def split_beta
  by (intro kept_tryE) (auto intro!: kept_put_session simp: session_identity)

lemma put_session_simps [simp]:
  "mb_session (put_session s mb) = Some s" "mb_account (put_session s mb) = mb_account mb"
  "mb_events (put_session s mb) = mb_events mb" "mb_tick (put_session s mb) = mb_tick mb"
  "mb_platform (put_session s mb) = mb_platform mb" "mb_url (put_session s mb) = mb_url mb"
  "put_session s (put_session s' mb) = put_session s mb"
  by (simp_all add: put_session_def)

lemma kept_put_inert [simp]:
  "keeps_client mb (put_session s (mb'\<lparr>mb_platform := p\<rparr>)) \<longleftrightarrow> keeps_client mb (put_session s mb')"
  "keeps_client mb (put_session s (mb'\<lparr>mb_tick := t\<rparr>)) \<longleftrightarrow> keeps_client mb (put_session s mb')"
  by (simp_all add: put_session_def keeps_client_def mb_identity_def mb_account_id_def dir_current_def)

lemma kept_update_session:
  assumes "mb_session mb' = Some s" "keeps_client mb mb'" "ms_identity s' = ms_identity s"
  shows "keeps_client mb (put_session s' mb')"
  using assms by (auto simp: keeps_client_def put_session_def mb_identity_def mb_account_id_def dir_current_def)

lemma publish_values_kept: "keeps_client mb (snd (publish_profile_values V mb h name))"
proof (cases "require_session mb")
  case (Inr s)
  let ?p = "publish_active_device_record (me_ops V) (me_crypto V) (k_book (me_codecs V)) (ms_store s) (mb_platform mb) (ms_identity s) h name"
  let ?s = "s\<lparr>ms_store := fst (snd ?p)\<rparr>"
  let ?m1 = "(put_session ?s mb)\<lparr>mb_platform := snd (snd ?p)\<rparr>"
  note i = session_identity [OF Inr]
  have k1: "keeps_client mb ?m1" using i by (auto intro!: kept_put_session)
  show ?thesis
  proof (cases "fst ?p")
    case (Inl e)
    with Inr k1 show ?thesis by (simp add: publish_profile_values_def Let_def split_beta)
  next
    case ok: (Inr r)
    define m2 where "m2 = start_listener V (\<not> ms_listening s) (?s\<lparr>ms_own_record := Some r\<rparr>) ?m1"
    have k2: "keeps_client mb m2" using i k1 by (auto intro!: start_listener_kept simp: m2_def)
    obtain s2 where s2: "mb_session m2 = Some s2" using start_listener_session by (fastforce simp: m2_def)
    note upd = kept_update_session [OF s2 k2]
    show ?thesis using Inr ok k2 s2
      by (auto simp: publish_profile_values_def Let_def split_beta simp flip: m2_def intro!: kept_tryE upd split: option.split)
  qed
qed (simp add: publish_profile_values_def)

lemma publish_profile_kept: "keeps_client mb (snd (publish_profile V mb h name))"
  by (auto simp: publish_profile_def intro!: kept_tryE publish_values_kept)

lemma republish_kept: "keeps_client mb (snd (republish_existing_profile V mb))"
  by (auto simp: republish_existing_profile_def Let_def intro!: kept_tryE publish_values_kept)

lemma flush_session_kept:
  "mb_identity mb = Some (ms_identity s) \<Longrightarrow> keeps_client mb mb' \<Longrightarrow> keeps_client mb (snd (flush_session V s mb'))"
  by (auto simp: flush_session_def Let_def split_beta intro!: kept_put_session)

lemma kept_tryS_from: "keeps_client mb (snd rs) \<Longrightarrow> (\<And>a m. keeps_client mb m \<Longrightarrow> keeps_client mb (snd (f a m))) \<Longrightarrow> keeps_client mb (snd (tryS rs f))"
  by (cases rs; cases "fst rs") auto

lemma retry_pending_kept: "keeps_client mb (snd (retry_pending V mb))"
  unfolding retry_pending_def Let_def split_beta
  by (intro kept_tryE kept_tryS_from flush_session_kept kept_put_session) (auto dest!: current_session_identity)

lemma outbox_round_kept: "keeps_client mb (outbox_round V mb)"
proof (cases "mb_session mb")
  case (Some s)
  then have "keeps_client mb (snd (flush_session V s mb))" by (intro flush_session_kept) (simp_all add: mb_identity_def)
  with Some show ?thesis by (cases "flush_session V s mb") (auto simp: outbox_round_def intro!: kept_push split: sum.split)
qed (simp add: outbox_round_def)

lemma monitor_round_kept: "keeps_client mb (monitor_round V mb)"
  by (auto simp: monitor_round_def Let_def mb_identity_def intro!: kept_push kept_put_session
    split: option.split sum.split prod.split)

lemma refresh_device_status_kept: "keeps_client mb (snd (refresh_device_status_inner V mb))"
  unfolding refresh_device_status_inner_def Let_def
  by (intro kept_tryE) (auto intro!: kept_tryE kept_put_session dest!: session_identity split: option.split)

lemma refresh_connectivity_kept: "keeps_client mb (snd (refresh_connectivity V mb))"
  unfolding refresh_connectivity_def Let_def split_beta
  by (intro kept_tryE) (auto intro!: kept_put_session dest!: session_identity)

lemma serve_kept: "keeps_client mb (snd (serve_mobile_connection V mb inbound))"
proof -
  have ev: "keeps_client mb (m\<lparr>mb_events := foldl sink_emit (mb_events mb) fs\<rparr>)" if "keeps_client mb m" for m :: "'a mobile" and fs
    using that by (auto simp: keeps_client_def mb_identity_def mb_account_id_def dir_current_def sink_emit_bound)
  show ?thesis
    by (auto simp: serve_mobile_connection_def Let_def mb_identity_def intro!: kept_put_session ev
      split: option.split sum.split peer_frame.split)
qed

lemma listener_stopped_kept: "keeps_client mb (listener_stopped cause mb)"
  by (auto simp: listener_stopped_def intro!: kept_push split: option.split)

lemma send_text_kept: "keeps_client mb (snd (send_text_inner V mb uid text))"
  unfolding send_text_inner_def Let_def split_beta
  by (auto intro!: kept_tryE kept_put_session dest!: current_session_identity)

lemma poll_events_kept: "keeps_client mb (snd (poll_events mb))"
  by (auto simp: poll_events_def keeps_client_def mb_identity_def mb_account_id_def dir_current_def)

lemma mobile_drop_kept: "keeps_client mb (mobile_drop mb)"
  by (auto simp: mobile_drop_def mb_identity_def intro!: kept_put_session split: option.split)

lemma start_workers_kept: "keeps_client mb mb' \<Longrightarrow> keeps_client mb (start_workers mb')"
  by (auto simp: start_workers_def split: option.split)

lemma finish_login_kept: "keeps_client mb mb' \<Longrightarrow> keeps_client mb (snd (finish_login V created remote secret mb'))"
  unfolding finish_login_def Let_def
  by (auto intro!: kept_tryE kept_tryS_from start_workers_kept intro: kept_trans [OF _ republish_kept])

lemma store_login_identity [simp]: "ms_identity (snd (store_login V s session remote)) = ms_identity s"
  by (auto simp: store_login_def Let_def split_beta tryE_def split: sum.split option.split)

lemma login_session_kept:
  assumes "login_session V k session recovery remote mb = Some (opened, mb')"
  shows "keeps_client mb mb'" "mb_account mb' = mb_account mb" "mb_session mb' = mb_session mb"
    "\<And>s secret. opened = Ok (s, secret) \<Longrightarrow> mb_identity mb = None \<or> mb_identity mb = Some (ms_identity s)"
  using assms
  by (auto simp: login_session_def Let_def split_beta tryE_def tryR_Ok mb_identity_def keeps_client_def mb_account_id_def dir_current_def
    split: option.splits sum.splits if_splits)

lemma kept_account:
  assumes "keeps_client mb mb'" "mb_account mb' = mb_account mb" "\<forall>b. mb_account mb = Some b \<longrightarrow> rs_account_id b = rs_account_id a"
  shows "keeps_client mb (mb'\<lparr>mb_account := Some a\<rparr>)"
  using assms by (auto simp: keeps_client_def mb_identity_def mb_account_id_def dir_current_def)

lemma keep_session_kept:
  "keeps_client mb mb' \<Longrightarrow> mb_identity mb = None \<or> mb_identity mb = Some (ms_identity s) \<Longrightarrow> keeps_client mb (keep_session s mb')"
  by (auto simp: keep_session_def intro!: kept_put_session split: option.split)
    (auto simp: keeps_client_def mb_identity_def mb_account_id_def dir_current_def)

lemma confirm_login_cases:
  assumes "confirm_email_login_inner V mb code = Some (r, mb')"
  obtains (refused) t e where "r = Err e" "mb' = mb\<lparr>mb_tick := t\<rparr>"
  | (answered) k login recovery remote opened m where "login_answers V mb (str_trim code) = Ok (k, login, recovery, remote)"
      "login_session V k (cl_session login) recovery remote (mb\<lparr>mb_tick := Suc (mb_tick mb)\<rparr>) = Some (opened, m)"
      "(r, mb') = tryE opened m (\<lambda>(s, secret). enter_login V login remote s secret m)"
proof (cases "str_trim code = []")
  case True
  with assms show ?thesis by (intro refused [of _ "mb_tick mb"]) (auto simp: confirm_email_login_inner_def)
next
  case False
  with assms refused answered show ?thesis
    by (auto simp: confirm_email_login_inner_def Let_def split: option.splits sum.splits)
qed

lemma answers_account:
  "login_answers V mb code = Ok (k, login, recovery, remote) \<Longrightarrow>
   mb_account mb = Some b \<Longrightarrow> rs_account_id b = rs_account_id (cl_session login)"
  by (auto simp: login_answers_def tryR_Ok split: if_splits)

lemma enter_login_kept:
  assumes "keeps_client mb m" "mb_account m = mb_account mb" "mb_identity mb = None \<or> mb_identity mb = Some (ms_identity s)"
    "\<forall>b. mb_account mb = Some b \<longrightarrow> rs_account_id b = rs_account_id (cl_session login)"
  shows "keeps_client mb (snd (enter_login V login remote s secret m))"
  using assms
  by (auto simp: enter_login_def Let_def split_beta intro!: keep_session_kept finish_login_kept kept_account kept_put_session
    split: sum.split)

lemma confirm_login_kept: "confirm_email_login_inner V mb code = Some (r, mb') \<Longrightarrow> keeps_client mb mb'"
proof (erule confirm_login_cases)
  fix k login recovery remote opened m
  assume a: "login_answers V mb (str_trim code) = Ok (k, login, recovery, remote)"
    and l: "login_session V k (cl_session login) recovery remote (mb\<lparr>mb_tick := Suc (mb_tick mb)\<rparr>) = Some (opened, m)"
    and r: "(r, mb') = tryE opened m (\<lambda>(s, secret). enter_login V login remote s secret m)"
  note ls = login_session_kept [OF l]
  have "keeps_client mb (snd (tryE opened m (\<lambda>(s, secret). enter_login V login remote s secret m)))"
    using ls answers_account [OF a]
    by (auto intro!: kept_tryE enter_login_kept simp: mb_identity_def)
  then show "keeps_client mb mb'" by (simp flip: r)
qed simp

section \<open>Runs\<close>

text \<open>The calls of the interface that can change the client, and the rounds of its workers.\<close>

datatype mobile_act =
    RequestLogin string | ConfirmLogin string | ConfirmLink string
  | Publish string string | SendText string string | RetryPending
  | OutboxRound | MonitorRound | ServeFrame bytes | RefreshStatus | RefreshConnectivity | PollEvents
  | Conversations u64 | Messages string u64 | AddContact string "string option" | RemoveContact string
  | SetBlocked string bool | VerifyContact string | AcceptChange string | ListenerStopped string

fun mobile_do :: "'n mobile_env \<Rightarrow> mobile_act \<Rightarrow> 'n mobile \<Rightarrow> 'n mobile option" where
  "mobile_do V (RequestLogin email) mb = Some (snd (mobile_request_email_login V mb email))"
| "mobile_do V (ConfirmLogin code) mb = map_option snd (confirm_email_login_inner V mb code)"
| "mobile_do V (ConfirmLink link) mb = map_option snd (confirm_email_login_link V mb link)"
| "mobile_do V (Publish h name) mb = Some (snd (publish_profile V mb h name))"
| "mobile_do V (SendText uid text) mb = Some (snd (send_text_inner V mb uid text))"
| "mobile_do V RetryPending mb = Some (snd (retry_pending V mb))"
| "mobile_do V OutboxRound mb = Some (outbox_round V mb)"
| "mobile_do V MonitorRound mb = Some (monitor_round V mb)"
| "mobile_do V (ServeFrame bs) mb = Some (snd (serve_mobile_connection V mb bs))"
| "mobile_do V RefreshStatus mb = Some (snd (refresh_device_status_inner V mb))"
| "mobile_do V RefreshConnectivity mb = Some (snd (refresh_connectivity V mb))"
| "mobile_do V PollEvents mb = Some (snd (poll_events mb))"
| "mobile_do V (Conversations now) mb = Some (snd (mobile_conversations V mb now))"
| "mobile_do V (Messages uid now) mb = Some (snd (mobile_messages V mb uid now))"
| "mobile_do V (AddContact conn nick) mb = map_option snd (mobile_add_contact V mb conn nick)"
| "mobile_do V (RemoveContact nick) mb = Some (snd (mobile_remove_contact V mb nick))"
| "mobile_do V (SetBlocked uid b) mb = Some (snd (set_contact_blocked V mb uid b))"
| "mobile_do V (VerifyContact uid) mb = Some (snd (verify_contact V mb uid))"
| "mobile_do V (ListenerStopped cause) mb = Some (listener_stopped cause mb)"
| "mobile_do V (AcceptChange uid) mb = Some (snd (mobile_accept_identity_change V mb uid))"

inductive mobile_run :: "'n mobile_env \<Rightarrow> 'n mobile \<Rightarrow> mobile_act list \<Rightarrow> 'n mobile \<Rightarrow> bool" for V :: "'n mobile_env" where
  start: "mobile_run V mb [] mb"
| act: "mobile_run V mb as m \<Longrightarrow> mobile_do V a m = Some mb' \<Longrightarrow> mobile_run V mb (as @ [a]) mb'"

lemma request_login_kept: "keeps_client mb (snd (mobile_request_email_login V mb email))"
  by (auto simp: mobile_request_email_login_def Let_def)

lemma confirm_link_kept: "confirm_email_login_link V mb link = Some (r, mb') \<Longrightarrow> keeps_client mb mb'"
  by (auto simp: confirm_email_login_link_def intro: confirm_login_kept split: sum.splits)

lemma add_contact_kept: "mobile_add_contact V mb conn nick = Some x \<Longrightarrow> keeps_client mb (snd x)"
  by (auto simp: mobile_add_contact_def Let_def intro!: kept_tryE with_store_kept split: option.splits)

lemma mobile_do_kept: "mobile_do V a mb = Some mb' \<Longrightarrow> keeps_client mb mb'"
  by (cases a)
    (auto simp: mobile_conversations_def mobile_messages_def mobile_remove_contact_def set_contact_blocked_def
      verify_contact_def mobile_accept_identity_change_def
      intro: request_login_kept confirm_login_kept confirm_link_kept publish_profile_kept send_text_kept retry_pending_kept
        outbox_round_kept monitor_round_kept serve_kept listener_stopped_kept refresh_device_status_kept refresh_connectivity_kept
        poll_events_kept with_store_kept add_contact_kept [where x = "(r, m)" for r m, simplified] kept_tryE [OF kept_refl with_store_kept])

lemma mobile_run_kept: "mobile_run V mb as mb' \<Longrightarrow> keeps_client mb mb'"
  by (induction rule: mobile_run.induct) (auto intro: kept_trans mobile_do_kept)

section \<open>What a login leaves in the store\<close>

definition sealed_under :: "crypto \<Rightarrow> bytes \<Rightarrow> file_store \<Rightarrow> bool" where
  "sealed_under C key st \<longleftrightarrow> fs_key st = key \<and> fs_dir st JOURNAL_FILE = None
     \<and> (\<forall>n blob. fs_dir st n = Some blob \<longrightarrow> (\<exists>nonce m a. length nonce = 12 \<and> blob = nonce @ chacha_encrypt C key nonce m a))"

definition later :: "crypto \<Rightarrow> bytes \<Rightarrow> file_store \<Rightarrow> file_store \<Rightarrow> bool" where
  "later C key st st' \<longleftrightarrow> (sealed_under C key st \<longrightarrow> sealed_under C key st')
     \<and> (\<forall>n. fs_dir st n \<noteq> None \<longrightarrow> fs_dir st' n \<noteq> None)"

lemma later_refl [simp]: "later C key st st"
  by (simp add: later_def)

lemma later_trans: "later C key st st1 \<Longrightarrow> later C key st1 st2 \<Longrightarrow> later C key st st2"
  by (simp add: later_def)

lemma later_put:
  assumes "rng_ok E"
  shows "later C key st (snd (fs_put C E st k v))"
  using assms
  by (auto simp: fs_put_def put_raw_def fs_encrypt_def atomic_write_def fs_write_def tick_def tryE_def tryS_def
    later_def sealed_under_def rng_ok_def split: sum.split option.split fault.split)

lemma later_tryE: "later C key st st0 \<Longrightarrow> (\<And>a. r = Ok a \<Longrightarrow> later C key st (snd (f a))) \<Longrightarrow> later C key st (snd (tryE r st0 f))"
  by (cases r) simp_all

lemma later_tryS: "later C key st (snd rs) \<Longrightarrow> (\<And>a m. later C key m (snd (f a m))) \<Longrightarrow> later C key st (snd (tryS rs f))"
  by (cases rs; cases "fst rs") (auto intro: later_trans)

lemma later_io_put: "rng_ok E \<Longrightarrow> later C key st (snd (io_put (file_ops C E M) st k v))"
  by (simp add: io_put_def map_errS_def file_ops_def later_put)

lemma later_check_and_pin: "rng_ok E \<Longrightarrow> later C key st (snd (check_and_pin (file_ops C E M) C P st uid sr))"
  unfolding check_and_pin_def by (auto intro!: later_tryE later_tryS simp: file_ops_def later_put split: option.split)

lemma later_peerbook_put: "rng_ok E \<Longrightarrow> later C key st (snd (peerbook_put (file_ops C E M) C c st h sr))"
  unfolding peerbook_put_def peerbook_save_def
  by (auto intro!: later_tryE later_tryS later_io_put simp: map_errS_def later_check_and_pin)

lemma later_publish:
  "rng_ok E \<Longrightarrow> later C key st (fst (snd (publish_active_device_record (file_ops C E M) C B st p i h name)))"
  unfolding publish_active_device_record_def Let_def split_beta using later_peerbook_put [of E C key]
  by (auto simp: tryE_def split: sum.split)

definition later_store :: "crypto \<Rightarrow> bytes \<Rightarrow> file_store \<Rightarrow> 'n mobile \<Rightarrow> bool" where
  "later_store C key st mb \<longleftrightarrow> (\<exists>s. mb_session mb = Some s \<and> later C key st (ms_store s))"

lemma later_store_simps [simp]:
  "later_store C key st (put_session s mb) \<longleftrightarrow> later C key st (ms_store s)"
  "later_store C key st (mb\<lparr>mb_platform := p\<rparr>) \<longleftrightarrow> later_store C key st mb"
  "later_store C key st (mb\<lparr>mb_tick := t\<rparr>) \<longleftrightarrow> later_store C key st mb"
  by (simp_all add: later_store_def)

lemma later_store_tryE: "later_store C key st mb \<Longrightarrow> (\<And>a. r = Ok a \<Longrightarrow> later_store C key st (snd (f a))) \<Longrightarrow> later_store C key st (snd (tryE r mb f))"
  by (cases r) simp_all

lemma publish_values_later:
  assumes "rng_ok (me_fs V)" "mb_session mb = Some s"
  shows "later_store (me_crypto V) key (ms_store s) (snd (publish_profile_values V mb h name))"
proof -
  let ?p = "publish_active_device_record (me_ops V) (me_crypto V) (k_book (me_codecs V)) (ms_store s) (mb_platform mb) (ms_identity s) h name"
  let ?s = "s\<lparr>ms_store := fst (snd ?p)\<rparr>"
  let ?m1 = "(put_session ?s mb)\<lparr>mb_platform := snd (snd ?p)\<rparr>"
  from assms(2) have r: "require_session mb = Ok s" by (simp add: require_session_def)
  note l = later_publish [OF assms(1), of "me_crypto V" key "ms_store s"]
  show ?thesis
  proof (cases "fst ?p")
    case (Inl e)
    with r l show ?thesis by (simp add: publish_profile_values_def Let_def split_beta)
  next
    case ok: (Inr rd)
    define m2 where "m2 = start_listener V (\<not> ms_listening s) (?s\<lparr>ms_own_record := Some rd\<rparr>) ?m1"
    obtain s2 where s2: "mb_session m2 = Some s2" "ms_store s2 = fst (snd ?p)"
      using start_listener_session [of V "\<not> ms_listening s" "?s\<lparr>ms_own_record := Some rd\<rparr>" ?m1] by (auto simp: m2_def)
    then have l2: "later_store (me_crypto V) key (ms_store s) m2" using l by (simp add: later_store_def)
    show ?thesis using r ok s2 l2 l
      by (auto simp: publish_profile_values_def Let_def split_beta simp flip: m2_def intro!: later_store_tryE split: option.split)
  qed
qed

lemma republish_later:
  "rng_ok (me_fs V) \<Longrightarrow> mb_session mb = Some s \<Longrightarrow> later_store (me_crypto V) key (ms_store s) (snd (republish_existing_profile V mb))"
  unfolding republish_existing_profile_def Let_def
  by (auto intro!: later_store_tryE publish_values_later simp: require_session_def) (simp_all add: later_store_def)

lemma finish_login_later:
  assumes "rng_ok (me_fs V)" "mb_session mb = Some s"
  shows "later_store (me_crypto V) key (ms_store s) (snd (finish_login V created remote secret mb))"
proof -
  have w: "mb_session (start_workers mb) = Some s" using assms(2) by (simp add: start_workers_def)
  then have "later_store (me_crypto V) key (ms_store s) (start_workers mb)" by (simp add: later_store_def)
  moreover have ts: "later_store (me_crypto V) key (ms_store s) (snd (tryS rs (\<lambda>_ mb. (Ok (a mb), mb))))"
    if "later_store (me_crypto V) key (ms_store s) (snd rs)" for rs :: "(any_error + profile_info) \<times> 'a mobile" and a :: "'a mobile \<Rightarrow> login_result"
    using that by (cases "fst rs") (simp_all add: tryS_def)
  ultimately show ?thesis using republish_later [OF assms(1) w]
    unfolding finish_login_def Let_def by (auto intro!: later_store_tryE ts)
qed

lemma finish_login_secret: "finish_login V created remote secret mb = (Ok r, mb') \<Longrightarrow> lr_identity_secret r = secret"
  unfolding finish_login_def Let_def by (auto simp: tryE_Ok tryS_Ok split: if_splits)

lemma enter_login_secret: "enter_login V login remote s secret mb = (Ok r, mb') \<Longrightarrow> lr_identity_secret r = secret"
  by (auto simp: enter_login_def Let_def split_beta dest: finish_login_secret split: sum.splits)

text \<open>Once the client has a session, no login returns a secret.\<close>

lemma no_second_secret:
  assumes "mb_session mb \<noteq> None" "confirm_email_login_inner V mb code = Some (Ok r, mb')"
  shows "lr_identity_secret r = None"
  using assms(2)
proof (cases rule: confirm_login_cases)
  case (answered k login recovery remote opened m)
  from answered(3) [symmetric] obtain s secret where o: "opened = Ok (s, secret)"
    and e: "enter_login V login remote s secret m = (Ok r, mb')" by (auto simp: tryE_Ok)
  from answered(2) o assms(1) have "secret = None" by (auto simp: login_session_def tryR_Ok)
  with enter_login_secret [OF e] show ?thesis by simp
qed simp

text \<open>A login that fails after it entered its session left a book of signed records in the store.\<close>

definition BOOK_FILE :: string where
  "BOOK_FILE = fs_path PEERBOOK_KEY"

lemma put_ok_file: "fs_put C E st k v = (Ok (), st') \<Longrightarrow> fs_dir st' (fs_path k) \<noteq> None"
  by (auto simp: fs_put_def put_raw_def atomic_write_def fs_write_def tick_def tryE_Ok tryS_Ok split: fault.splits)
    (metis fault.exhaust)

lemma put_other_file: "fs_put C E st k v = (r, st') \<Longrightarrow> n \<noteq> fs_path k \<Longrightarrow> fs_dir st' n = fs_dir st n"
  by (auto simp: fs_put_def put_raw_def fs_encrypt_def atomic_write_def fs_write_def tick_def tryE_def tryS_def
    split: sum.splits fault.splits option.splits)

lemma peerbook_put_file:
  "peerbook_put (file_ops C E M) C c st h sr = (Ok (), st') \<Longrightarrow> fs_dir st' BOOK_FILE \<noteq> None"
  by (auto simp: peerbook_put_def peerbook_save_def BOOK_FILE_def tryE_Ok tryS_Ok file_ops_def dest!: put_ok_file split: if_splits)

lemma fresh_load:
  "fs_dir st BOOK_FILE = None \<Longrightarrow> fs_dir st JOURNAL_FILE = None \<Longrightarrow>
   peerbook_load (file_ops C E M) c st = (if unreadable E BOOK_FILE then Err (AnyIo (IoOther ''read failed'')) else Ok [])"
  by (simp add: peerbook_load_def io_get_def file_ops_def fs_get_def ensure_ready_def fs_read_def BOOK_FILE_def ok_or_def)

lemma fresh_open:
  assumes "open_session V Map.empty t i = (Ok s, dir)"
  shows "ms_identity s = i \<and> ms_own_record s = None \<and> ms_store s = \<lparr>fs_dir = Map.empty, fs_key = storage_key (me_crypto V) i, fs_tick = t\<rparr>
    \<and> \<not> unreadable (me_fs V) BOOK_FILE"
proof -
  let ?st = "\<lparr>fs_dir = Map.empty, fs_key = storage_key (me_crypto V) i, fs_tick = t\<rparr>"
  from assms obtain st a where o: "fs_open (me_crypto V) (me_fs V) (me_batch V) (me_lock V) Map.empty (storage_key (me_crypto V) i) t = (Ok st, dir)"
    and l: "peerbook_load (me_ops V) (k_book (me_codecs V)) st = Ok a"
    and s: "s = \<lparr>ms_identity = i, ms_store = st, ms_network = network_new (reticulum_private_bytes (me_crypto V) i),
      ms_own_record = own_entry (me_crypto V) i a, ms_listening = False, ms_current = True\<rparr>"
    by (auto simp: open_session_def Let_def tryE_Ok split: prod.splits sum.splits)
  from o have st: "st = ?st"
    by (auto simp: fs_open_def recover_transaction_def fs_read_def ok_or_def Let_def split: try_lock.splits if_splits)
  with l have "a = []" "\<not> unreadable (me_fs V) BOOK_FILE" by (simp_all add: fresh_load split: if_splits)
  with s st show ?thesis by (simp add: own_entry_def)
qed

lemma session_file_not_book: "REGISTRY_SESSION_KEY \<noteq> PEERBOOK_KEY"
  by (simp add: REGISTRY_SESSION_KEY_def PEERBOOK_KEY_def str_bytes_def)

lemma store_login_files:
  assumes "store_login V s session remote = (Ok (), s')"
  shows "remote \<noteq> None \<Longrightarrow> fs_dir (ms_store s') BOOK_FILE \<noteq> None"
    "remote = None \<Longrightarrow> ms_own_record s' = ms_own_record s \<and> fs_dir (ms_store s') BOOK_FILE = fs_dir (ms_store s) BOOK_FILE
       \<and> fs_dir (ms_store s') JOURNAL_FILE = fs_dir (ms_store s) JOURNAL_FILE"
proof -
  from assms obtain st where saved: "save_account_session V (ms_store s) session = (Ok (), st)"
    and rest: "(case remote of None \<Rightarrow> (Ok (), s\<lparr>ms_store := st\<rparr>)
      | Some r \<Rightarrow> let (imported, st) = peerbook_put (me_ops V) (me_crypto V) (k_book (me_codecs V)) st (rec_handle (s_record r)) r;
            s = s\<lparr>ms_store := st\<rparr> in tryE imported s (\<lambda>_. (Ok (), s\<lparr>ms_own_record := Some r\<rparr>))) = (Ok (), s')"
    by (auto simp: store_login_def Let_def split_beta tryE_Ok split: option.splits)
      (metis surjective_pairing)+
  have other: "fs_dir st n = fs_dir (ms_store s) n" if "n \<noteq> fs_path REGISTRY_SESSION_KEY" for n
    using saved that by (auto simp: save_account_session_def file_ops_def intro: put_other_file)
  show "remote \<noteq> None \<Longrightarrow> fs_dir (ms_store s') BOOK_FILE \<noteq> None"
    using rest by (auto simp: Let_def split_beta tryE_Ok dest!: peerbook_put_file [OF prod_eqI, simplified])
  show "remote = None \<Longrightarrow> ms_own_record s' = ms_own_record s \<and> fs_dir (ms_store s') BOOK_FILE = fs_dir (ms_store s) BOOK_FILE
       \<and> fs_dir (ms_store s') JOURNAL_FILE = fs_dir (ms_store s) JOURNAL_FILE"
    using rest other [of BOOK_FILE] other [of JOURNAL_FILE] session_file_not_book by (auto simp: BOOK_FILE_def)
qed

lemma store_login_later:
  "rng_ok (me_fs V) \<Longrightarrow> later (me_crypto V) key (ms_store s) (ms_store (snd (store_login V s session remote)))"
  using later_io_put [of "me_fs V" "me_crypto V" key] later_peerbook_put [of "me_fs V" "me_crypto V" key] later_trans
  by (auto simp: store_login_def save_account_session_def Let_def split_beta tryE_def split: sum.split option.split) (blast intro: later_trans)+

lemma login_session_new:
  assumes "mb_session mb = None" "login_session V k session recovery remote mb = Some (Ok (s, secret), m)"
  shows "\<exists>i p dir. new_login_identity V (mb_platform mb) recovery = Some (Ok i, p) \<and> open_session V (mb_dir mb) (mb_tick mb) i = (Ok s, dir)
    \<and> secret = Some (encode_identity_secret i) \<and> (\<forall>r. remote = Some r \<longrightarrow> rec_user_id (s_record r) = own_user_id (me_crypto V) i)
    \<and> (recovery = None \<longrightarrow> rk_put_recovery k session (wallet_secret i) = Ok ())"
  using assms
  by (auto simp: login_session_def Let_def split_beta tryE_Ok tryR_Ok split: if_splits option.splits)
    (metis prod.collapse)+

lemma finish_login_unknown:
  assumes "mb_session mb = Some s" "ms_own_record s = None" "fs_dir (ms_store s) BOOK_FILE = None" "fs_dir (ms_store s) JOURNAL_FILE = None"
    and "\<not> unreadable (me_fs V) BOOK_FILE"
  shows "\<exists>r. fst (finish_login V created None secret mb) = Ok r"
  using assms
  by (simp add: finish_login_def start_workers_def Let_def profile_inner_def require_session_def local_own_record_def fresh_load own_entry_def ok_or_def)

lemma failed_login_store:
  assumes "rng_ok (me_fs V)" "mb_session mb = None" "mb_dir mb = Map.empty"
    and failed: "confirm_email_login_inner V mb code = Some (Err e, mb')" and s: "mb_session mb' = Some s"
  shows "sealed_under (me_crypto V) (storage_key (me_crypto V) (ms_identity s)) (ms_store s)
    \<and> fs_dir (ms_store s) BOOK_FILE \<noteq> None \<and> mb_dir mb' = fs_dir (ms_store s)"
  using failed
proof (cases rule: confirm_login_cases)
  case (answered k login recovery remote opened m)
  let ?C = "me_crypto V"
  note ls = login_session_kept [OF answered(2)]
  have m: "mb_session m = None" using ls(3) assms(2) by simp
  from answered(3) [symmetric] s m obtain s0 secret where o: "opened = Ok (s0, secret)"
    and e: "enter_login V login remote s0 secret m = (Err e, mb')" by (cases opened) auto
  from login_session_new [OF _ answered(2) [unfolded o]] assms(2,3) obtain i dir where
    op: "open_session V Map.empty (Suc (mb_tick mb)) i = (Ok s0, dir)" by auto
  note s0 = fresh_open [OF op]
  obtain s1 where st: "store_login V s0 (cl_session login) remote = (Ok (), s1)"
    and f: "finish_login V (cl_created login) remote secret ((put_session s1 m)\<lparr>mb_account := Some (cl_session login)\<rparr>) = (Err e, mb')"
    using e s m by (auto simp: enter_login_def keep_session_def Let_def split: prod.splits sum.splits)
  let ?m2 = "(put_session s1 m)\<lparr>mb_account := Some (cl_session login)\<rparr>"
  have k: "keeps_client ?m2 mb'" using finish_login_kept [OF kept_refl] by (metis f snd_conv)
  have i: "ms_identity s1 = i" using store_login_identity [of V s0] st s0 by (metis snd_conv)
  with k s have ids: "ms_identity s = i" by (auto simp: keeps_client_def mb_identity_def)
  have dir: "mb_dir mb' = fs_dir (ms_store s)" using k s by (auto simp: keeps_client_def dir_current_def put_session_def)
  have l: "later ?C key (ms_store s1) (ms_store s)" for key
    using finish_login_later [OF assms(1), of ?m2 s1 key "cl_created login" remote secret] f s by (auto simp: later_store_def)
  have l1: "later ?C key (ms_store s0) (ms_store s1)" for key
    using store_login_later [OF assms(1), of key s0] st by (metis snd_conv)
  have "sealed_under ?C (storage_key ?C i) (ms_store s0)" using s0 by (simp add: sealed_under_def)
  with l l1 have sealed: "sealed_under ?C (storage_key ?C i) (ms_store s)" by (auto simp: later_def)
  have "remote \<noteq> None"
  proof
    assume r: "remote = None"
    from store_login_files(2) [OF st r] s0 have "ms_own_record s1 = None" "fs_dir (ms_store s1) BOOK_FILE = None" "fs_dir (ms_store s1) JOURNAL_FILE = None"
      by simp_all
    from finish_login_unknown [of ?m2, OF _ this, of V "cl_created login" secret] s0 f r show False by simp
  qed
  from store_login_files(1) [OF st this] l [of "[]"] have "fs_dir (ms_store s) BOOK_FILE \<noteq> None" by (auto simp: later_def)
  with sealed ids dir show ?thesis by simp
qed (use assms in simp)

lemma foreign_open:
  assumes "sealed_under C key st" "fs_dir st BOOK_FILE \<noteq> None" and V: "me_crypto V = C"
    and foreign: "\<forall>n n' m a. chacha_decrypt C (storage_key C i) n' (chacha_encrypt C key n m a) PEERBOOK_KEY = None"
  shows "\<exists>e. open_session V (fs_dir st) t i = (Err e, fs_dir st)"
proof -
  let ?st = "\<lparr>fs_dir = fs_dir st, fs_key = storage_key C i, fs_tick = t\<rparr>"
  obtain nonce m a where blob: "fs_dir st BOOK_FILE = Some (nonce @ chacha_encrypt C key nonce m a)" "length nonce = 12"
    using assms(1,2) unfolding sealed_under_def by blast
  have j: "fs_dir st JOURNAL_FILE = None" using assms(1) by (simp add: sealed_under_def)
  have "\<exists>e. fs_get C (me_fs V) ?st PEERBOOK_KEY = Err e"
    using blob j foreign by (cases "unreadable (me_fs V) (fs_path PEERBOOK_KEY)")
      (simp_all add: fs_get_def ensure_ready_def fs_read_def BOOK_FILE_def fs_decrypt_def ok_or_def)
  then obtain e where load: "peerbook_load (me_ops V) (k_book (me_codecs V)) ?st = Err e"
    using V by (auto simp: peerbook_load_def io_get_def file_ops_def)
  have "fs_open C (me_fs V) (me_batch V) (me_lock V) (fs_dir st) (storage_key C i) t \<in> {(Ok ?st, fs_dir st)} \<union> {(Err e, fs_dir st) | e. True}"
    using j by (auto simp: fs_open_def recover_transaction_def fs_read_def ok_or_def Let_def split: try_lock.splits)
  with load V show ?thesis by (auto simp: open_session_def Let_def)
qed

lemma foreign_login:
  assumes "sealed_under C key st" "fs_dir st BOOK_FILE \<noteq> None" "me_crypto V = C"
    and m0: "mb_session mb = None" "mb_dir mb = fs_dir st"
    and foreign: "\<forall>recovery i p n n' m a. new_login_identity V (mb_platform mb) recovery = Some (Ok i, p) \<longrightarrow>
        chacha_decrypt C (storage_key C i) n' (chacha_encrypt C key n m a) PEERBOOK_KEY = None"
    and run: "confirm_email_login_inner V mb code = Some (r, mb')"
  shows "(\<exists>e. r = Err e) \<and> mb_session mb' = None \<and> mb_dir mb' = mb_dir mb"
  using run
proof (cases rule: confirm_login_cases)
  case (answered k login recovery remote opened m)
  note ls = login_session_kept(3) [OF answered(2)]
  have "(\<exists>e. opened = Err e) \<and> mb_dir m = mb_dir mb"
  proof (cases "new_login_identity V (mb_platform mb) recovery")
    case (Some x)
    show ?thesis
    proof (cases "fst x")
      case (Inl e)
      with Some answered(2) m0 show ?thesis by (cases x) (auto simp: login_session_def Let_def split: if_splits)
    next
      case (Inr i)
      obtain e where "open_session V (fs_dir st) (Suc (mb_tick mb)) i = (Err e, fs_dir st)"
        using foreign_open [OF assms(1-3)] foreign Some Inr by (metis prod.collapse)
      with Some Inr answered(2) m0 show ?thesis
        by (cases x) (auto simp: login_session_def Let_def tryE_def split: if_splits sum.splits)
    qed
  qed (use answered(2) m0 in \<open>auto simp: login_session_def split: if_splits\<close>)
  with answered(3) ls m0(1) show ?thesis by auto
qed (use m0 in simp)

lemma run_keeps_session: "mobile_run V mb as mb' \<Longrightarrow> mb_session mb \<noteq> None \<Longrightarrow> mb_session mb' \<noteq> None"
  using mobile_run_kept by (fastforce simp: keeps_client_def mb_identity_def)

section \<open>Which identity a login runs with\<close>

lemma identity_build_fields:
  "identity_build C ws seed = Ok i \<Longrightarrow> wallet_secret i = ws \<and> device_seed i = seed"
  by (auto simp: identity_build_def split: if_splits)

lemma draw_length:
  "draw_wallet_secret C p = Some wp \<Longrightarrow> \<forall>i n. length (entropy p i n) = n \<Longrightarrow>
   length (fst wp) = 32 \<and> entropy (snd wp) = entropy p"
proof (induction rule: draw_wallet_secret.raw_induct [rotated, consumes 1])
  case 1
  then show ?case by (auto simp: fill_random_def Let_def split: if_splits)
qed

lemma login_identity_secret:
  assumes "new_login_identity V p recovery = Some (Ok i, p')" "\<forall>i n. length (entropy p i n) = n"
    and "\<forall>ws. recovery = Some ws \<longrightarrow> length ws = 32"
  shows "decode_identity_secret (me_crypto V) (encode_identity_secret i) = Ok i" "\<forall>ws. recovery = Some ws \<longrightarrow> wallet_secret i = ws"
proof -
  obtain ws seed where b: "identity_build (me_crypto V) ws seed = Ok i" and l: "length ws = 32" "length seed = 32"
    and r: "\<forall>w. recovery = Some w \<longrightarrow> w = ws"
    using assms
    by (fastforce simp: new_login_identity_def identity_adopt_def identity_generate_def fill_random_def map_errS_Ok Let_def
      dest: draw_length split: option.splits)
  with identity_build_fields [OF b] show "decode_identity_secret (me_crypto V) (encode_identity_secret i) = Ok i"
    by (simp add: decode_identity_secret_def encode_identity_secret_def IDENTITY_SECRET_LEN_def from_wallet_secret_def)
  from identity_build_fields [OF b] r show "\<forall>ws. recovery = Some ws \<longrightarrow> wallet_secret i = ws" by blast
qed

lemma recovery_length:
  assumes "rk_get_recovery k s = Ok (Some ws)"
  shows "length ws = 32"
proof -
  from assms obtain url where url: "account_url k s ''recovery'' = Ok url" by (auto simp: rk_get_recovery_def tryR_Ok)
  let ?q = "\<lparr>aq_method = GET, aq_url = url, aq_authorization = Some (session_bearer s), aq_body = None\<rparr>"
  from assms url show ?thesis by (cases "ag_call (rk_agent k) ?q") (auto simp: rk_get_recovery_def tryR_Ok split: if_splits)
qed

lemma answers_recovery: "login_answers V mb code = Ok (k, login, Some ws, remote) \<Longrightarrow> length ws = 32"
  by (auto simp: login_answers_def tryR_Ok dest: recovery_length split: if_splits)

lemma check_identity_Ok:
  "check_identity V k session i recovery remote m1 m2 = Ok () \<longleftrightarrow>
     (\<forall>ws. recovery = Some ws \<longrightarrow> wallet_secret i = ws)
     \<and> (recovery = None \<longrightarrow> rk_put_recovery k session (wallet_secret i) = Ok ())
     \<and> (\<forall>r. remote = Some r \<longrightarrow> rec_user_id (s_record r) = own_user_id (me_crypto V) i)"
  by (auto simp: check_identity_def)

lemma open_session_identity: "open_session V dir t i = (Ok s, d) \<Longrightarrow> ms_identity s = i"
  by (auto simp: open_session_def Let_def tryE_Ok split: prod.splits sum.splits)

lemma enter_login_session:
  assumes "enter_login V login remote s secret m = (Ok r, mb')"
  shows "\<exists>s'. mb_session mb' = Some s' \<and> ms_identity s' = ms_identity s" "lr_identity_secret r = secret"
    "\<exists>a. mb_account mb' = Some a \<and> rs_account_id a = rs_account_id (cl_session login)"
proof -
  obtain s1 where st: "store_login V s (cl_session login) remote = (Ok (), s1)"
    and f: "finish_login V (cl_created login) remote secret ((put_session s1 m)\<lparr>mb_account := Some (cl_session login)\<rparr>) = (Ok r, mb')"
    using assms by (auto simp: enter_login_def Let_def split: prod.splits sum.splits)
  have "ms_identity s1 = ms_identity s" using store_login_identity [of V s] st by (metis snd_conv)
  moreover have "keeps_client ((put_session s1 m)\<lparr>mb_account := Some (cl_session login)\<rparr>) mb'"
    using finish_login_kept [OF kept_refl] by (metis f snd_conv)
  ultimately show "\<exists>s'. mb_session mb' = Some s' \<and> ms_identity s' = ms_identity s"
    "\<exists>a. mb_account mb' = Some a \<and> rs_account_id a = rs_account_id (cl_session login)"
    by (auto simp: keeps_client_def mb_identity_def mb_account_id_def)
  show "lr_identity_secret r = secret" using enter_login_secret [OF assms] .
qed

section \<open>Sample clients\<close>

text \<open>A cipher that recognizes its key, and a registry that fails after the login was confirmed.\<close>

definition lock_crypto :: crypto where
  "lock_crypto = sample_crypto\<lparr>hkdf_sha512 := (\<lambda>ikm info n. take n (ikm @ replicate n 0)),
     chacha_encrypt := (\<lambda>k n m a. k @ m),
     chacha_decrypt := (\<lambda>k n c a. if take (length k) c = k then Some (drop (length k) c) else None)\<rparr>"

definition constant_json :: "'a \<Rightarrow> 'a json" where
  "constant_json v = \<lparr>json_to_vec = (\<lambda>_. Some []), json_from_slice = (\<lambda>_. Some v)\<rparr>"

definition answering :: "bytes \<Rightarrow> agent_response" where
  "answering bs = \<lparr>rs_read = (\<lambda>_. Some bs), rs_all = Some bs\<rparr>"

definition lock_agent :: "(agent_request \<Rightarrow> agent_error + agent_response) \<Rightarrow> registry_agent" where
  "lock_agent call = \<lparr>ag_call = call, ag_email = constant_json [], ag_expires = constant_json 0, ag_token = constant_json [],
     ag_confirm = constant_json \<lparr>cb_account_id = ''a'', cb_created = False, cb_session_token = ''t'', cb_session_expires_at = 2000\<rparr>,
     ag_record = sample_codec s_signed_record\<rparr>"

definition known_account :: "agent_request \<Rightarrow> agent_error + agent_response" where
  "known_account q = (if aq_method q = POST then Ok (answering [])
     else if aq_authorization q \<noteq> None then Ok (answering (replicate 32 3))
     else Ok (answering (wire_encode (sample_codec s_signed_record) (sample_signed 1))))"

definition lock_env :: "unit mobile_env" where
  "lock_env = \<lparr>me_crypto = lock_crypto, me_fs = sample_env (\<lambda>_. NoFault), me_batch = sample_batch, me_codecs = sample_client,
     me_network = offline, me_agent = (\<lambda>t. lock_agent (if t = 1 then (\<lambda>_. Err Timeout) else known_account)),
     me_session = sample_codec (s_iso (\<lambda>s. (rs_registry_url s, rs_account_id s, rs_session_token s, nat (rs_session_expires_at s)))
       (\<lambda>(u, a, t, e). \<lparr>rs_registry_url = u, rs_account_id = a, rs_session_token = t, rs_session_expires_at = int e\<rparr>)
       (s_pair s_string (s_pair s_string (s_pair s_string s_nat)))),
     me_lower = id, me_lock = LockAcquired, me_others = (\<lambda>_. id)\<rparr>"

definition lock_mobile :: "(string \<Rightarrow> bytes option) \<Rightarrow> nat \<Rightarrow> unit mobile" where
  "lock_mobile dir n = mobile_new ''https://r'' dir (sample_platform\<lparr>draws := n\<rparr>) n"

lemma lock_crypto_simps [simp]:
  "sha256 lock_crypto = sha256 sample_crypto" "k256_public_ok lock_crypto = k256_public_ok sample_crypto"
  "k256_signature_ok lock_crypto = k256_signature_ok sample_crypto" "k256_verify lock_crypto = k256_verify sample_crypto"
  "k256_public lock_crypto = k256_public sample_crypto" "k256_secret_ok lock_crypto = k256_secret_ok sample_crypto"
  "ed_public_ok lock_crypto = ed_public_ok sample_crypto" "ed_verify lock_crypto = ed_verify sample_crypto"
  "ed_verify_strict lock_crypto = ed_verify_strict sample_crypto"
  by (simp_all add: lock_crypto_def)

lemma lock_verifies: "signed_record_verify lock_crypto K r = signed_record_verify sample_crypto K r"
  by (simp add: signed_record_verify_def wallet_verify_def device_verify_def user_id_from_wallet_def
    reticulum_verify_def derived_address_def reticulum_address_def Let_def)

lemma lock_code [simp]: "str_trim ''7'' = ''7''"
  by code_simp

lemma lock_url [simp]: "str_trim ''https://r'' = ''https://r''"
  by code_simp

lemma lock_address: "address (reticulum_public sample_crypto (sample_identity 3)) \<noteq> replicate 16 0"
  by code_simp

lemma lock_client: "registry_client_new agent ''https://r'' = Ok \<lparr>rk_base_url = ''https://r'', rk_agent = agent\<rparr>"
  by (simp add: registry_client_new_def starts_with_def)

lemma lock_env_simps [simp]:
  "me_crypto lock_env = lock_crypto" "me_fs lock_env = sample_env (\<lambda>_. NoFault)" "me_codecs lock_env = sample_client"
  "me_agent lock_env t = lock_agent (if t = 1 then (\<lambda>_. Err Timeout) else known_account)" "me_lock lock_env = LockAcquired"
  by (simp_all add: lock_env_def)

lemma lock_mobile_simps [simp]:
  "mb_url (lock_mobile dir n) = ''https://r''" "mb_session (lock_mobile dir n) = None" "mb_account (lock_mobile dir n) = None"
  "mb_dir (lock_mobile dir n) = dir" "mb_tick (lock_mobile dir n) = n" "mb_platform (lock_mobile dir n) = sample_platform\<lparr>draws := n\<rparr>"
  by (simp_all add: lock_mobile_def mobile_new_def)

definition lock_login :: confirmed_login where
  "lock_login = \<lparr>cl_session = \<lparr>rs_registry_url = ''https://r'', rs_account_id = ''a'', rs_session_token = ''t'', rs_session_expires_at = 2000\<rparr>,
     cl_created = False\<rparr>"

lemma lock_answers:
  assumes "n \<noteq> 1"
  shows "login_answers lock_env (lock_mobile dir n) ''7'' =
    Ok (\<lparr>rk_base_url = ''https://r'', rk_agent = lock_agent known_account\<rparr>, lock_login, Some (replicate 32 3), Some (sample_signed 1))"
  using assms sample_signed_verifies [of 1] sample_codec_ok [OF s_signed_record_ok]
  by (simp add: login_answers_def lock_client rk_confirm_login_def post_json_def read_json_def lock_agent_def constant_json_def
    known_account_def answering_def rk_get_recovery_def account_url_def rk_get_record_def rk_get_record_at_def lock_verifies lock_login_def ok_or_def)

lemma lock_keys:
  "new_login_identity lock_env (sample_platform\<lparr>draws := n\<rparr>) recovery = Some (Ok i, p) \<Longrightarrow>
   storage_key lock_crypto i \<in> {replicate 32 (of_nat n + 1), replicate 32 (of_nat n + 2)}"
  by (subst (asm) new_login_identity_def, subst (asm) identity_generate_def, subst (asm) draw_wallet_secret.simps)
    (auto simp: identity_adopt_def identity_build_def fill_random_def sample_platform_def storage_key_def derive_key_def lock_crypto_def sample_crypto_def
      map_errS_Ok add.commute split: option.splits if_splits)

definition lock_identity :: identity where
  "lock_identity = \<lparr>wallet_secret = replicate 32 3, device_seed = replicate 32 1, wallet_key = replicate 32 3,
     device_secret = replicate 32 1, messaging_secret = replicate 32 1, signed_pre_key_secret = replicate 32 1\<rparr>"

lemma lock_identity_made:
  "\<exists>p. new_login_identity lock_env (sample_platform\<lparr>draws := 0\<rparr>) (Some (replicate 32 3)) = Some (Ok lock_identity, p)"
  by (simp add: new_login_identity_def identity_adopt_def identity_build_def fill_random_def sample_platform_def derive_key_def lock_crypto_def
    sample_crypto_def lock_identity_def map_errS_def)

lemma lock_own: "rec_user_id (s_record (sample_signed 1)) = own_user_id lock_crypto lock_identity"
  by (simp add: sample_signed_def signed_record_sign_def sample_record_def own_user_id_def wallet_public_def user_id_from_wallet_def
    lock_identity_def sample_identity_def)

lemma sample_opens:
  assumes "me_fs V = sample_env (\<lambda>_. NoFault)" "me_lock V = LockAcquired"
  shows "\<exists>s. open_session V Map.empty t i = (Ok s, Map.empty)"
  using assms by (simp add: open_session_def fs_open_def recover_transaction_def fs_read_def sample_env_def ok_or_def fresh_load Let_def)

text \<open>A device cannot be announced to a registry that does not answer.\<close>

lemma start_listener_simps [simp]:
  "mb_account (start_listener V start s mb) = mb_account mb" "mb_tick (start_listener V start s mb) = mb_tick mb"
  by (auto simp: start_listener_def mobile_push_def Let_def split_beta split: option.split)

lemma publish_unreachable:
  assumes "mb_account mb = Some a" "ag_call (me_agent V (mb_tick mb)) = (\<lambda>_. Err Timeout)"
  shows "\<exists>e. fst (publish_profile_values V mb h name) = Err e"
proof -
  have refused: "announce_record V k a now r \<noteq> Ok ()" if "registry_client_new (me_agent V (mb_tick mb)) url = Ok k" for k now r url
  proof -
    from that have "ag_call (rk_agent k) = (\<lambda>_. Err Timeout)" using assms(2)
      by (auto simp: registry_client_new_def Let_def split: if_splits)
    then show ?thesis
      by (cases "account_url k a ''record''") (simp_all add: announce_record_def rk_get_record_def rk_get_record_at_def rk_put_record_def)
  qed
  show ?thesis using assms(1)
    unfolding publish_profile_values_def Let_def split_beta
    by (auto simp: tryE_def refused split: sum.splits option.splits)
qed

lemma finish_login_unreachable:
  assumes "mb_session mb = Some s" "ms_own_record s \<noteq> None" "mb_account mb = Some a" "ag_call (me_agent V (mb_tick mb)) = (\<lambda>_. Err Timeout)"
  shows "\<exists>e. fst (finish_login V created (Some r) secret mb) = Err e"
proof -
  have w: "mb_session (start_workers mb) = Some s" "mb_account (start_workers mb) = Some a" "mb_tick (start_workers mb) = mb_tick mb"
    using assms(1,3) by (simp_all add: start_workers_def)
  have "\<exists>e. fst (republish_existing_profile V (start_workers mb)) = Err e"
    using publish_unreachable [OF w(2), of V] w assms(2,4) by (auto simp: republish_existing_profile_def require_session_def ok_or_def)
  then show ?thesis by (auto simp: finish_login_def Let_def tryS_def)
qed

lemma peerbook_put_fresh:
  assumes E: "no_faults E" and st: "fs_dir st JOURNAL_FILE = None" "fs_dir st BOOK_FILE = None"
    "fs_dir st (fs_path (antirollback_key (rec_user_id (s_record sr)))) = None"
    and sr: "verify_handle C h sr = Ok ()" "signed_record_verify C (c_book_claims c) sr = Ok ()"
    "address (device_reticulum (rec_device (s_record sr))) \<noteq> replicate 16 0"
  shows "\<exists>st'. peerbook_put (file_ops C E M) C c st h sr = (Ok (), st')"
proof -
  let ?S = "file_ops C E M" and ?uid = "rec_user_id (s_record sr)"
  have readable: "\<not> unreadable E n" for n using E by (simp add: no_faults_def)
  have load: "antirollback_load ?S (c_book_pins c) st ?uid = Ok (Some default_pins)"
    using st readable by (simp add: antirollback_load_def file_ops_def fs_get_def ensure_ready_def fs_read_def ok_or_def)
  obtain st1 where put: "fs_put C E st (antirollback_key ?uid) (wire_encode (c_pins (c_book_pins c)) (advance_pins C (c_book_pins c) default_pins sr)) = (Ok (), st1)"
    using fs_put_no_faults [OF E st(1)] by blast
  have pin: "check_and_pin ?S C (c_book_pins c) st ?uid sr = (Ok True, st1)"
    using load put by (simp add: check_and_pin_def identity_rolled_back_def device_rolled_back_def default_pins_def file_ops_def)
  have "antirollback_key ?uid \<noteq> PEERBOOK_KEY" by (simp add: antirollback_key_def PEERBOOK_KEY_def str_bytes_def)
  with put_other_file [OF put] st have st1: "fs_dir st1 BOOK_FILE = None" "fs_dir st1 JOURNAL_FILE = None" by (simp_all add: BOOK_FILE_def)
  obtain st2 where "fs_put C E st1 PEERBOOK_KEY (wire_encode (c_book c) (book_insert h sr [])) = (Ok (), st2)"
    using fs_put_no_faults [OF E st1(2)] by blast
  with st1 readable fresh_load [of st1 C E M c] sr pin show ?thesis
    by (simp add: peerbook_put_def peerbook_save_def map_errS_def io_put_def file_ops_def)
qed

lemma lock_stores:
  assumes "ms_store s = \<lparr>fs_dir = Map.empty, fs_key = key, fs_tick = t\<rparr>"
  shows "\<exists>s'. store_login lock_env s session (Some (sample_signed 1)) = (Ok (), s') \<and> ms_own_record s' \<noteq> None"
proof -
  let ?E = "sample_env (\<lambda>_. NoFault)" and ?sr = "sample_signed 1"
  obtain st where put: "fs_put lock_crypto ?E (ms_store s) REGISTRY_SESSION_KEY (wire_encode (me_session lock_env) session) = (Ok (), st)"
    using fs_put_no_faults [OF sample_env_ok(2)] assms by fastforce
  have "antirollback_key uid \<noteq> REGISTRY_SESSION_KEY" for uid by (simp add: REGISTRY_SESSION_KEY_def antirollback_key_def str_bytes_def)
  with put_other_file [OF put] assms session_file_not_book have files: "fs_dir st JOURNAL_FILE = None" "fs_dir st BOOK_FILE = None"
    "fs_dir st (fs_path (antirollback_key (rec_user_id (s_record ?sr)))) = None" by (simp_all add: BOOK_FILE_def)
  have address: "address (device_reticulum (rec_device (s_record ?sr))) \<noteq> replicate 16 0"
    using lock_address by (simp add: sample_signed_def signed_record_sign_def sample_record_def device_create_def Let_def device_reticulum_def)
  have "verify_handle lock_crypto (rec_handle (s_record ?sr)) ?sr = Ok ()"
    by (simp add: verify_handle_def sample_signed_def signed_record_sign_def sample_record_def user_id_from_wallet_def)
  from peerbook_put_fresh [OF sample_env_ok(2) files this _ address, of sample_book_codecs sample_batch] sample_signed_verifies [of 1]
  obtain st2 where "peerbook_put (file_ops lock_crypto ?E sample_batch) lock_crypto sample_book_codecs st (rec_handle (s_record ?sr)) ?sr = (Ok (), st2)"
    by (auto simp: lock_verifies sample_book_codecs_def)
  with put show ?thesis
    by (simp add: store_login_def save_account_session_def io_put_def map_errS_def Let_def lock_env_def sample_client_def sample_flow_def)
      (simp add: file_ops_def)
qed

lemma lock_fails:
  "\<exists>e mb' s. confirm_email_login_inner lock_env (lock_mobile Map.empty 0) ''7'' = Some (Err e, mb') \<and> mb_session mb' = Some s
     \<and> ms_identity s = lock_identity"
proof -
  let ?m0 = "lock_mobile Map.empty 0" and ?l = "cl_session lock_login" and ?sr = "sample_signed 1"
  obtain p where made: "new_login_identity lock_env (sample_platform\<lparr>draws := 0\<rparr>) (Some (replicate 32 3)) = Some (Ok lock_identity, p)"
    using lock_identity_made by blast
  obtain s0 where opens: "open_session lock_env Map.empty 1 lock_identity = (Ok s0, Map.empty)" using sample_opens [of lock_env] by auto
  note s0 = fresh_open [OF opens]
  obtain s1 where stored: "store_login lock_env s0 ?l (Some ?sr) = (Ok (), s1)" and own: "ms_own_record s1 \<noteq> None"
    using lock_stores s0 by blast
  define m where "m = ?m0\<lparr>mb_tick := 1, mb_platform := p, mb_dir := Map.empty\<rparr>"
  define m2 where "m2 = (put_session s1 m)\<lparr>mb_account := Some ?l\<rparr>"
  have ls: "login_session lock_env k ?l (Some (replicate 32 3)) (Some ?sr) (?m0\<lparr>mb_tick := 1\<rparr>)
      = Some (Ok (s0, Some (encode_identity_secret lock_identity)), m)" for k
    using made opens lock_own by (simp add: login_session_def m_def)
  have m2: "mb_session m2 = Some s1" "mb_account m2 = Some ?l" "ag_call (me_agent lock_env (mb_tick m2)) = (\<lambda>_. Err Timeout)"
    by (simp_all add: m2_def m_def lock_agent_def)
  let ?f = "finish_login lock_env (cl_created lock_login) (Some ?sr) (Some (encode_identity_secret lock_identity)) m2"
  obtain e where e: "fst ?f = Err e" using finish_login_unreachable [OF m2(1) own m2(2,3)] by blast
  have run: "confirm_email_login_inner lock_env ?m0 ''7'' = Some (Err e, snd ?f)"
    using lock_answers [of 0 Map.empty] ls stored e
    by (cases ?f) (simp add: confirm_email_login_inner_def enter_login_def Let_def flip: m2_def)
  have "mb_identity (snd ?f) = Some lock_identity"
    using finish_login_kept [OF kept_refl, of m2] m2(1) store_login_identity [of lock_env s0 ?l "Some ?sr"] stored s0
    by (simp add: keeps_client_def mb_identity_def)
  with run show ?thesis by (auto simp: mb_identity_def)
qed

section \<open>Properties\<close>

lemma decode_secret_encodes: "decode_identity_secret C b = Ok i \<Longrightarrow> encode_identity_secret i = b"
  by (auto simp: decode_identity_secret_def encode_identity_secret_def from_wallet_secret_def dest!: identity_build_fields split: if_splits)

lemma resume_session_Ok:
  assumes "resume_session V mb secret = (Ok (session, account), mb')"
  shows "mb_session mb' = mb_session mb \<and> mb_events mb' = mb_events mb \<and> (session = None \<longrightarrow> secret = None)
    \<and> (\<forall>s b. session = Some s \<and> secret = Some b \<longrightarrow> encode_identity_secret (ms_identity s) = b)"
  using assms
  by (auto simp: resume_session_def Let_def split_beta tryE_Ok split: option.splits)
    (metis decode_secret_encodes open_session_identity prod.collapse)

lemma open_inner_kept:
  assumes "open_inner V dir p t secret url = (Ok mb, d)"
  shows "length (mb_events mb) \<le> MAX_EVENTS \<and> dir_current mb
    \<and> (\<forall>b. secret = Some b \<longrightarrow> (\<exists>i. mb_identity mb = Some i \<and> encode_identity_secret i = b))"
proof -
  define u where "u = (case url of Some u \<Rightarrow> if str_trim u = [] then DEFAULT_REGISTRY_URL else u | None \<Rightarrow> DEFAULT_REGISTRY_URL)"
  obtain session account m1 where r: "resume_session V (mobile_new u dir p (Suc t)) secret = (Ok (session, account), m1)"
    using assms by (auto simp: open_inner_def Let_def tryE_Ok split_beta simp flip: u_def) (metis prod.collapse)
  note r1 = resume_session_Ok [OF r]
  show ?thesis
  proof (cases session)
    case None
    with assms r have "mb = m1\<lparr>mb_account := account\<rparr>" by (simp add: open_inner_def Let_def tryE_Ok flip: u_def)
    with r1 None show ?thesis by (auto simp: mobile_new_def dir_current_def)
  next
    case (Some s)
    define m2 where "m2 = start_workers ((put_session s m1)\<lparr>mb_account := account\<rparr>)"
    have m2: "mb_session m2 = Some s" "mb_events m2 = []" "dir_current m2"
      using r1 by (simp_all add: m2_def start_workers_def mobile_new_def dir_current_def put_session_def)
    have "keeps_client m2 mb"
      using assms r Some republish_kept [of m2 V]
      by (auto simp: open_inner_def Let_def tryE_Ok intro!: kept_push split: if_splits prod.splits sum.splits simp flip: u_def m2_def)
    with m2 r1 Some show ?thesis by (auto simp: keeps_client_def mb_identity_def)
  qed
qed

text \<open>
  C29: what a native client keeps, whatever is asked of it.  From any start, over any sequence of calls,
  worker rounds and inbound frames, the queue of events never exceeds its limit, the session works on the
  client's directory, a client opened with a secret has a session of exactly that identity, and once there is a
  session or an account, no step changes whose it is.
\<close>

theorem mobile_run_invariant:
  assumes "open_inner V dir p t secret url = (Ok mb0, d)" "mobile_run V mb0 as mb"
  shows "length (mb_events mb) \<le> MAX_EVENTS
    \<and> (\<forall>s. mb_session mb = Some s \<longrightarrow> mb_dir mb = fs_dir (ms_store s))
    \<and> (\<forall>b. secret = Some b \<longrightarrow> (\<exists>s. mb_session mb = Some s \<and> encode_identity_secret (ms_identity s) = b))
    \<and> (\<forall>as' mb' s. mobile_run V mb as' mb' \<and> mb_session mb = Some s \<longrightarrow> (\<exists>s'. mb_session mb' = Some s' \<and> ms_identity s' = ms_identity s))
    \<and> (\<forall>as' mb' a. mobile_run V mb as' mb' \<and> mb_account mb = Some a \<longrightarrow>
         (\<exists>a'. mb_account mb' = Some a' \<and> rs_account_id a' = rs_account_id a))"
proof -
  note k0 = open_inner_kept [OF assms(1)] and k = mobile_run_kept [OF assms(2)]
  have "keeps_client mb mb'" if "mobile_run V mb as' mb'" for as' mb' using mobile_run_kept [OF that] .
  then have "\<exists>s'. mb_session mb' = Some s' \<and> ms_identity s' = ms_identity s" if "mobile_run V mb as' mb'" "mb_session mb = Some s" for as' mb' s
    using that by (fastforce simp: keeps_client_def mb_identity_def)
  moreover have "\<exists>a'. mb_account mb' = Some a' \<and> rs_account_id a' = rs_account_id a" if "mobile_run V mb as' mb'" "mb_account mb = Some a" for as' mb' a
    using that mobile_run_kept by (fastforce simp: keeps_client_def mb_account_id_def)
  moreover from k0 k have "length (mb_events mb) \<le> MAX_EVENTS" "dir_current mb"
    "\<forall>b. secret = Some b \<longrightarrow> (\<exists>i. mb_identity mb = Some i \<and> encode_identity_secret i = b)" by (auto simp: keeps_client_def)
  ultimately show ?thesis by (auto simp: dir_current_def mb_identity_def)
qed

lemma lock_resumes:
  "\<exists>mb. open_inner lock_env Map.empty sample_platform 0 (Some (encode_identity_secret lock_identity)) (Some ''https://r'') = (Ok mb, mb_dir mb)"
proof -
  obtain s0 where opens: "open_session lock_env Map.empty 1 lock_identity = (Ok s0, Map.empty)" using sample_opens [of lock_env] by auto
  note s0 = fresh_open [OF opens]
  have d: "decode_identity_secret lock_crypto (encode_identity_secret lock_identity) = Ok lock_identity"
    by (simp add: decode_identity_secret_def encode_identity_secret_def IDENTITY_SECRET_LEN_def from_wallet_secret_def identity_build_def
      derive_key_def lock_identity_def) (simp add: lock_crypto_def sample_crypto_def)
  have "load_account_session lock_env (ms_store s0) = Ok None"
    using s0 by (simp add: load_account_session_def io_get_def file_ops_def fs_get_def ensure_ready_def fs_read_def sample_env_def ok_or_def)
  with d opens have r: "resume_session lock_env (mobile_new ''https://r'' Map.empty sample_platform 1) (Some (encode_identity_secret lock_identity))
      = (Ok (Some s0, None), mobile_new ''https://r'' Map.empty sample_platform 1)"
    by (simp add: resume_session_def mobile_new_def)
  have "profile_inner lock_env mb = Ok None" if "mb_session mb = Some s0" for mb
    using that s0 by (simp add: profile_inner_def require_session_def ok_or_def local_own_record_def fresh_load own_entry_def)
  moreover have "mb_session (start_workers ((put_session s0 mb)\<lparr>mb_account := None\<rparr>)) = Some s0" for mb by (simp add: start_workers_def)
  ultimately show ?thesis using r by (simp add: open_inner_def lock_client Let_def)
qed

theorem mobile_run_invariant_witness:
  "\<exists>mb0 d mb s. open_inner lock_env Map.empty sample_platform 0 (Some (encode_identity_secret lock_identity)) (Some ''https://r'') = (Ok mb0, d)
     \<and> mobile_run lock_env mb0 [PollEvents] mb \<and> length (mb_events mb) \<le> MAX_EVENTS \<and> mb_session mb = Some s
     \<and> encode_identity_secret (ms_identity s) = replicate 32 3 @ replicate 32 1"
proof -
  obtain mb0 d where o: "open_inner lock_env Map.empty sample_platform 0 (Some (encode_identity_secret lock_identity)) (Some ''https://r'') = (Ok mb0, d)"
    using lock_resumes by blast
  have "mobile_run lock_env mb0 ([] @ [PollEvents]) (snd (poll_events mb0))" by (rule mobile_run.intros, rule mobile_run.intros) simp
  then have run: "mobile_run lock_env mb0 [PollEvents] (snd (poll_events mb0))" by simp
  from mobile_run_invariant [OF o run] o run show ?thesis
    by (auto simp: encode_identity_secret_def lock_identity_def)
qed

text \<open>
  C40: a successful login runs with the account's own identity.  Afterwards the client has a session and
  the account the registry confirmed; the wallet of the session is the one the registry keeps for recovery
  (or was stored there by this login), and a record the account publishes is of the same user.  A client
  that was logged in keeps its identity and hands out no secret; a client that was not hands the shell a
  secret that decodes to exactly the identity it runs with.
\<close>

theorem login_binds_identity:
  assumes entropy: "\<forall>i n. length (entropy (mb_platform mb) i n) = n"
    and run: "confirm_email_login_inner V mb code = Some (Ok r, mb')"
  shows "\<exists>k login recovery remote s. login_answers V mb (str_trim code) = Ok (k, login, recovery, remote) \<and> mb_session mb' = Some s
    \<and> (\<exists>a. mb_account mb' = Some a \<and> rs_account_id a = rs_account_id (cl_session login))
    \<and> (\<forall>ws. recovery = Some ws \<longrightarrow> wallet_secret (ms_identity s) = ws)
    \<and> (recovery = None \<longrightarrow> rk_put_recovery k (cl_session login) (wallet_secret (ms_identity s)) = Ok ())
    \<and> (\<forall>rd. remote = Some rd \<longrightarrow> rec_user_id (s_record rd) = own_user_id (me_crypto V) (ms_identity s))
    \<and> (case mb_session mb of
         Some s0 \<Rightarrow> ms_identity s = ms_identity s0 \<and> lr_identity_secret r = None
       | None \<Rightarrow> \<exists>b. lr_identity_secret r = Some b \<and> decode_identity_secret (me_crypto V) b = Ok (ms_identity s))"
  using run
proof (cases rule: confirm_login_cases)
  case (answered k login recovery remote opened m)
  from answered(3) [symmetric] obtain s0 secret where o: "opened = Ok (s0, secret)"
    and e: "enter_login V login remote s0 secret m = (Ok r, mb')" by (auto simp: tryE_Ok)
  note entered = enter_login_session [OF e]
  then obtain s where s: "mb_session mb' = Some s" "ms_identity s = ms_identity s0" by blast
  have "(\<forall>ws. recovery = Some ws \<longrightarrow> wallet_secret (ms_identity s) = ws)
    \<and> (recovery = None \<longrightarrow> rk_put_recovery k (cl_session login) (wallet_secret (ms_identity s)) = Ok ())
    \<and> (\<forall>rd. remote = Some rd \<longrightarrow> rec_user_id (s_record rd) = own_user_id (me_crypto V) (ms_identity s))
    \<and> (case mb_session mb of Some s0 \<Rightarrow> ms_identity s = ms_identity s0 \<and> secret = None
       | None \<Rightarrow> \<exists>b. secret = Some b \<and> decode_identity_secret (me_crypto V) b = Ok (ms_identity s))"
  proof (cases "mb_session mb")
    case None
    from login_session_new [OF _ answered(2) [unfolded o]] None obtain i p dir where
      i: "new_login_identity V (mb_platform mb) recovery = Some (Ok i, p)" "open_session V (mb_dir mb) (Suc (mb_tick mb)) i = (Ok s0, dir)"
      "secret = Some (encode_identity_secret i)" "\<forall>r. remote = Some r \<longrightarrow> rec_user_id (s_record r) = own_user_id (me_crypto V) i"
      "recovery = None \<longrightarrow> rk_put_recovery k (cl_session login) (wallet_secret i) = Ok ()" by auto
    have "\<forall>ws. recovery = Some ws \<longrightarrow> length ws = 32" using answers_recovery answered(1) by blast
    with login_identity_secret [OF i(1) entropy] open_session_identity [OF i(2)] i(3-5) s(2) None show ?thesis by simp
  next
    case (Some s1)
    with answered(2) o have "s0 = s1" "secret = None" "check_identity V k (cl_session login) (ms_identity s1) recovery remote
        ''that email belongs to a different Mycellium identity'' ''that email publishes a different Mycellium identity'' = Ok ()"
      by (auto simp: login_session_def tryR_Ok)
    with Some s(2) show ?thesis by (simp add: check_identity_Ok)
  qed
  with answered(1) s entered(2,3) show ?thesis by blast
qed simp

definition new_account :: "agent_request \<Rightarrow> agent_error + agent_response" where
  "new_account q = (if aq_method q = GET then Err (StatusCode 404) else Ok (answering []))"

definition new_env :: "unit mobile_env" where
  "new_env = lock_env\<lparr>me_agent := (\<lambda>_. lock_agent new_account)\<rparr>"

lemma new_login:
  "\<exists>r mb'. confirm_email_login_inner new_env (lock_mobile Map.empty 0) ''7'' = Some (Ok r, mb')"
proof -
  let ?m0 = "lock_mobile Map.empty 0" and ?k = "\<lparr>rk_base_url = ''https://r'', rk_agent = lock_agent new_account\<rparr>" and ?l = "cl_session lock_login"
  have env: "me_fs new_env = sample_env (\<lambda>_. NoFault)" "me_lock new_env = LockAcquired" "me_crypto new_env = lock_crypto"
    "me_agent new_env t = lock_agent new_account" for t by (simp_all add: new_env_def)
  have answers: "login_answers new_env ?m0 ''7'' = Ok (?k, lock_login, None, None)"
    by (simp add: login_answers_def env lock_client rk_confirm_login_def post_json_def read_json_def lock_agent_def constant_json_def
      new_account_def answering_def rk_get_recovery_def account_url_def rk_get_record_def rk_get_record_at_def lock_login_def ok_or_def)
  obtain i p where made: "new_login_identity new_env (sample_platform\<lparr>draws := 0\<rparr>) None = Some (Ok i, p)"
    using identity_generate_returns [of lock_crypto "sample_platform\<lparr>draws := 0\<rparr>" 0]
    by (auto simp: new_login_identity_def env map_errS_def sample_platform_def sample_crypto_def)
  obtain s0 where opens: "open_session new_env Map.empty 1 i = (Ok s0, Map.empty)" using sample_opens env by blast
  note s0 = fresh_open [OF opens]
  have put: "rk_put_recovery ?k ?l ws = Ok ()" for ws
    by (simp add: rk_put_recovery_def account_url_def lock_login_def lock_agent_def new_account_def)
  define m where "m = ?m0\<lparr>mb_tick := 1, mb_platform := p, mb_dir := Map.empty\<rparr>"
  have ls: "login_session new_env ?k ?l None None (?m0\<lparr>mb_tick := 1\<rparr>) = Some (Ok (s0, Some (encode_identity_secret i)), m)"
    using made opens put by (simp add: login_session_def m_def)
  obtain s1 where stored: "store_login new_env s0 ?l None = (Ok (), s1)"
    using fs_put_no_faults [OF sample_env_ok(2), of "ms_store s0" lock_crypto REGISTRY_SESSION_KEY "wire_encode (me_session new_env) ?l"] s0
    by (auto simp: store_login_def save_account_session_def io_put_def map_errS_def env file_ops_def Let_def)
  let ?m2 = "(put_session s1 m)\<lparr>mb_account := Some ?l\<rparr>"
  have "\<exists>r. fst (finish_login new_env (cl_created lock_login) None (Some (encode_identity_secret i)) ?m2) = Ok r"
    using finish_login_unknown [of ?m2 s1 new_env] store_login_files(2) [OF stored refl] s0 by simp
  then show ?thesis using answers ls stored
    by (cases "finish_login new_env (cl_created lock_login) None (Some (encode_identity_secret i)) ?m2")
      (auto simp: confirm_email_login_inner_def enter_login_def Let_def)
qed

theorem login_binds_identity_witness:
  "\<exists>r mb' s b. confirm_email_login_inner new_env (lock_mobile Map.empty 0) ''7'' = Some (Ok r, mb') \<and> mb_session mb' = Some s
     \<and> lr_identity_secret r = Some b \<and> decode_identity_secret lock_crypto b = Ok (ms_identity s)"
proof -
  obtain r mb' where run: "confirm_email_login_inner new_env (lock_mobile Map.empty 0) ''7'' = Some (Ok r, mb')" using new_login by blast
  have "\<forall>i n. length (entropy (mb_platform (lock_mobile Map.empty 0)) i n) = n" by (simp add: sample_platform_def)
  from login_binds_identity [OF this run] run show ?thesis by (auto simp: new_env_def)
qed

text \<open>
  C31: a login on a fresh installation that fails after it entered its session (announcing the device
  failed, for instance because the connection broke) has lost the device.  The secret of the new identity
  was made and used to encrypt the store, but the failure does not carry it to the shell, and no later
  login of the same process returns one.  After a restart the client starts without a session over the
  same directory: every login makes an identity with another device key, cannot read the book of signed
  records the failed login left, and fails, leaving things as they are, so no login ever succeeds again.
\<close>

theorem failed_login_locks_out:
  assumes "rng_ok (me_fs V)" "mb_session mb = None" "mb_dir mb = Map.empty"
    and "confirm_email_login_inner V mb code = Some (Err e, mb')" "mb_session mb' = Some s"
    and restart: "me_crypto W = me_crypto V" "mb_session m0 = None" "mb_dir m0 = mb_dir mb'"
    and other_key: "\<forall>recovery i p n n' m a. new_login_identity W (mb_platform m0) recovery = Some (Ok i, p) \<longrightarrow>
        chacha_decrypt (me_crypto V) (storage_key (me_crypto V) i) n'
          (chacha_encrypt (me_crypto V) (storage_key (me_crypto V) (ms_identity s)) n m a) PEERBOOK_KEY = None"
  shows "(mobile_run V mb' as mb1 \<and> confirm_email_login_inner V mb1 c = Some (Ok r, m) \<longrightarrow> lr_identity_secret r = None)
    \<and> (confirm_email_login_inner W m0 c' = Some (r', m') \<longrightarrow> (\<exists>e. r' = Err e) \<and> mb_session m' = None \<and> mb_dir m' = mb_dir m0)"
proof -
  note left = failed_login_store [OF assms(1-5)]
  then have "sealed_under (me_crypto V) (storage_key (me_crypto V) (ms_identity s)) (ms_store s)"
    "fs_dir (ms_store s) BOOK_FILE \<noteq> None" "mb_dir m0 = fs_dir (ms_store s)" using restart(3) by auto
  from foreign_login [OF this(1,2) restart(1,2) this(3) other_key] have "confirm_email_login_inner W m0 c' = Some (r', m') \<longrightarrow>
      (\<exists>e. r' = Err e) \<and> mb_session m' = None \<and> mb_dir m' = mb_dir m0" by blast
  moreover have "mobile_run V mb' as mb1 \<and> confirm_email_login_inner V mb1 c = Some (Ok r, m) \<longrightarrow> lr_identity_secret r = None"
    using run_keeps_session no_second_secret assms(5) by blast
  ultimately show ?thesis by blast
qed

theorem failed_login_locks_out_witness:
  "\<exists>e mb' s e2 m2. confirm_email_login_inner lock_env (lock_mobile Map.empty 0) ''7'' = Some (Err e, mb') \<and> mb_session mb' = Some s
     \<and> confirm_email_login_inner lock_env (lock_mobile (mb_dir mb') 5) ''7'' = Some (Err e2, m2) \<and> mb_session m2 = None"
proof -
  obtain e mb' s where f: "confirm_email_login_inner lock_env (lock_mobile Map.empty 0) ''7'' = Some (Err e, mb')" "mb_session mb' = Some s"
    and i: "ms_identity s = lock_identity" using lock_fails by blast
  let ?m0 = "lock_mobile (mb_dir mb') 5"
  have "login_session lock_env k session (Some ws) remote m \<noteq> None" for k session ws remote m
    by (simp add: login_session_def new_login_identity_def Let_def split_beta split: option.split)
  then have "confirm_email_login_inner lock_env ?m0 ''7'' \<noteq> None"
    using lock_answers [of 5 "mb_dir mb'"] by (simp add: confirm_email_login_inner_def Let_def split: option.split)
  then obtain r m2 where r: "confirm_email_login_inner lock_env ?m0 ''7'' = Some (r, m2)" by auto
  have other: "chacha_decrypt lock_crypto (storage_key lock_crypto j) n' (chacha_encrypt lock_crypto (storage_key lock_crypto lock_identity) n m a) PEERBOOK_KEY = None"
    if "new_login_identity lock_env (sample_platform\<lparr>draws := 5\<rparr>) recovery = Some (Ok j, p)" for recovery j p n n' m a
  proof -
    have "storage_key lock_crypto lock_identity = replicate 32 1"
      by (simp add: storage_key_def lock_crypto_def lock_identity_def)
    with lock_keys [OF that] show ?thesis by (auto simp: lock_crypto_def)
  qed
  from failed_login_locks_out [of lock_env "lock_mobile Map.empty 0" "''7''" e mb' s lock_env ?m0] f r i other
  show ?thesis by (auto simp: sample_env_ok)
qed

end
