(* ===== verification/Cli.thy ===== *)
theory Cli
  imports GroupDelivery Transport
begin

text \<open>
  The commands of the command line client (\<open>app/mod.rs\<close> and \<open>app/util.rs\<close> of \<open>mycellium-cli/src\<close>):
  discovery over the DHT, resolving and trusting people, sending, the outbox, serving, and groups.

  A command is modelled from the point where the identity is loaded and the store is open (those are
  \<open>IdentityFile\<close> and \<open>Backup\<close>), up to the value it prints; printing has no other effect.  The record
  \<open>cli\<close> is what a command works on.  What the DHT answers to the queries of \<open>libp2p_net.rs\<close>, the
  network, the configuration and the files a command reads are parameters in \<open>cli_env\<close>; \<open>cs_tick\<close>
  numbers the calls into them.  An error keeps its outermost message, and a panic is \<open>None\<close>.
\<close>

record 'n cli_env =
  cv_crypto :: crypto
  cv_fs :: fs_env
  cv_batch :: "storage_mutation list codec"
  cv_codecs :: client_codecs
  cv_network :: "'n network_env"
  cv_multiaddr :: "string \<Rightarrow> protocol list option"
  cv_sockaddr :: "string \<Rightarrow> sock_addr option"
  cv_bootstrap :: "string list"
  cv_dht_get :: "nat \<Rightarrow> bytes \<Rightarrow> protocol list option \<Rightarrow> protocol list list \<Rightarrow> bytes \<Rightarrow> any_error + bytes list"
  cv_dht_put :: "nat \<Rightarrow> bytes \<Rightarrow> protocol list option \<Rightarrow> protocol list list \<Rightarrow> bytes \<Rightarrow> bytes \<Rightarrow> any_error + unit"
  cv_read_file :: "string \<Rightarrow> bytes option"
  cv_others :: "nat \<Rightarrow> file_store \<Rightarrow> file_store"

abbreviation cv_ops :: "'n cli_env \<Rightarrow> file_store storage" where
  "cv_ops V \<equiv> file_ops (cv_crypto V) (cv_fs V) (cv_batch V)"

record 'n cli =
  cs_store :: file_store
  cs_network :: "'n direct_network"
  cs_platform :: platform
  cs_tick :: nat

text \<open>An operation on the store alone.\<close>

definition on_store :: "'n cli \<Rightarrow> (file_store \<Rightarrow> ('e + 'a) \<times> file_store) \<Rightarrow> ('e + 'a) \<times> 'n cli" where
  "on_store w f = (let (r, st) = f (cs_store w) in (r, w\<lparr>cs_store := st\<rparr>))"

section \<open>Discovery\<close>

definition MAX_DHT_RECORD_BYTES :: nat where
  "MAX_DHT_RECORD_BYTES = 64 * 1024"

definition dht_record_key :: "handle \<Rightarrow> bytes" where
  "dht_record_key h = str_bytes (''mycellium/record/'' @ h)"

definition decode_dht_record_candidate :: "crypto \<Rightarrow> peerbook_codecs \<Rightarrow> handle \<Rightarrow> bytes \<Rightarrow> any_error + signed_record" where
  "decode_dht_record_candidate C B h bs =
     (if length bs > MAX_DHT_RECORD_BYTES then Err (AnyMsg ''DHT record is too large'')
      else tryR (map_err (\<lambda>_. AnyMsg ''bad DHT record'') (wire_decode (c_signed_record B) bs)) (\<lambda>r.
        if rec_handle (s_record r) \<noteq> h then Err (AnyMsg ''DHT record belongs to a different handle'')
        else tryR (map_err (\<lambda>_. AnyMsg ''DHT record failed verification'') (signed_record_verify C (c_book_claims B) r)) (\<lambda>_. Ok r)))"

record candidate_scan =
  sc_best :: "signed_record option"
  sc_wallet :: "wallet_public_key option"
  sc_skipped :: nat
  sc_conflict :: bool

definition scan_candidate :: "crypto \<Rightarrow> peerbook_codecs \<Rightarrow> handle \<Rightarrow> candidate_scan \<Rightarrow> bytes \<Rightarrow> candidate_scan" where
  "scan_candidate C B h sc bs = (case decode_dht_record_candidate C B h bs of
      Err _ \<Rightarrow> sc\<lparr>sc_skipped := Suc (sc_skipped sc)\<rparr>
    | Ok r \<Rightarrow>
        if sc_wallet sc \<noteq> None \<and> sc_wallet sc \<noteq> Some (rec_wallet (s_record r))
        then sc\<lparr>sc_conflict := True, sc_skipped := Suc (sc_skipped sc)\<rparr>
        else let sc = sc\<lparr>sc_wallet := Some (rec_wallet (s_record r))\<rparr>;
                 replace = (case sc_best sc of
                     Some known \<Rightarrow> freshness_less (record_freshness known) (record_freshness r)
                   | None \<Rightarrow> True)
             in if replace then sc\<lparr>sc_best := Some r\<rparr> else sc)"

definition best_dht_record_candidate ::
    "crypto \<Rightarrow> peerbook_codecs \<Rightarrow> handle \<Rightarrow> bytes list \<Rightarrow> wallet_public_key option \<Rightarrow> any_error + (signed_record option \<times> nat)" where
  "best_dht_record_candidate C B h candidates trusted =
     (let sc = foldl (scan_candidate C B h) \<lparr>sc_best = None, sc_wallet = trusted, sc_skipped = 0, sc_conflict = False\<rparr> candidates
      in if trusted = None \<and> sc_conflict sc
         then Err (AnyMsg (''conflicting wallets claim '' @ quoted h @ ''; discovery cannot choose identity authority''))
         else Ok (sc_best sc, sc_skipped sc))"

definition trusted_wallet :: "'s storage \<Rightarrow> client_codecs \<Rightarrow> 's \<Rightarrow> handle \<Rightarrow> any_error + wallet_public_key option" where
  "trusted_wallet S K st h = tryR (peerbook_get S (k_book K) st h) (\<lambda>found. case found of
      None \<Rightarrow> Ok None
    | Some r \<Rightarrow>
        let level = verified_level S (fc_verified (k_flow K)) (k_contacts K) st (rec_user_id (s_record r)) (rec_wallet (s_record r))
        in Ok (if level = Pinned \<or> level = Verified then Some (rec_wallet (s_record r)) else None))"

definition effective_bootstrap :: "'n cli_env \<Rightarrow> string list \<Rightarrow> any_error + protocol list list" where
  "effective_bootstrap V extra =
     map_err AnyMsg (parse_multiaddrs (cv_multiaddr V)
       (foldl (\<lambda>addrs addr. if list_ex (\<lambda>known. known = addr) addrs then addrs else addrs @ [addr]) (cv_bootstrap V) extra))"

definition import_from_configured_dht :: "'n cli_env \<Rightarrow> identity \<Rightarrow> handle \<Rightarrow> 'n cli \<Rightarrow> (any_error + bool) \<times> 'n cli" where
  "import_from_configured_dht V identity h w =
     tryE (effective_bootstrap V []) w (\<lambda>bootstrap.
     if bootstrap = [] then (Ok False, w)
     else let t = cs_tick w; w = w\<lparr>cs_tick := Suc t\<rparr> in
       tryE (cv_dht_get V t (device_secret identity) None bootstrap (dht_record_key h)) w (\<lambda>candidates.
       tryE (trusted_wallet (cv_ops V) (cv_codecs V) (cs_store w) h) w (\<lambda>wallet.
       tryE (best_dht_record_candidate (cv_crypto V) (k_book (cv_codecs V)) h candidates wallet) w (\<lambda>(best, _). case best of
           None \<Rightarrow> (Ok False, w)
         | Some r \<Rightarrow> tryS (on_store w (\<lambda>st. peerbook_put (cv_ops V) (cv_crypto V) (k_book (cv_codecs V)) st h r)) (\<lambda>_ w. (Ok True, w))))))"

definition publish_to_configured_dht :: "'n cli_env \<Rightarrow> identity \<Rightarrow> handle \<Rightarrow> signed_record \<Rightarrow> 'n cli \<Rightarrow> (any_error + bool) \<times> 'n cli" where
  "publish_to_configured_dht V identity h r w =
     tryE (effective_bootstrap V []) w (\<lambda>bootstrap.
     if bootstrap = [] then (Ok False, w)
     else let t = cs_tick w; w = w\<lparr>cs_tick := Suc t\<rparr> in
       tryE (cv_dht_put V t (device_secret identity) None bootstrap (dht_record_key h) (wire_encode (c_signed_record (k_book (cv_codecs V))) r)) w
         (\<lambda>_. (Ok True, w)))"

text \<open>The \<open>--listen\<close> option of a DHT command.\<close>

definition listen_option :: "'n cli_env \<Rightarrow> string option \<Rightarrow> (any_error + protocol list option) option" where
  "listen_option V listen = (case listen of
      None \<Rightarrow> Some (Ok None)
    | Some addr \<Rightarrow> map_option (\<lambda>parsed. tryR (map_err (\<lambda>_. AnyMsg ''bad DHT listen address'') parsed) (\<lambda>m. Ok (Some m)))
        (listen_multiaddr (cv_sockaddr V) addr))"

definition dht_publish ::
    "'n cli_env \<Rightarrow> identity \<Rightarrow> string \<Rightarrow> string option \<Rightarrow> string list \<Rightarrow> 'n cli \<Rightarrow> ((any_error + unit) \<times> 'n cli) option" where
  "dht_publish V identity h listen extra w =
     (case tryR (map_err (\<lambda>_. AnyMsg ''invalid handle'') (handle_new h)) (\<lambda>h.
           tryR (require_own_record_for_identity (cv_ops V) (cv_crypto V) (k_book (cv_codecs V)) (cs_store w) identity h) (\<lambda>r. Ok (h, r))) of
        Err e \<Rightarrow> Some (Err e, w)
      | Ok (h, r) \<Rightarrow> map_option (\<lambda>listening.
          tryE listening w (\<lambda>listen_addr.
          tryE (effective_bootstrap V extra) w (\<lambda>bootstrap.
          (cv_dht_put V (cs_tick w) (device_secret identity) listen_addr bootstrap (dht_record_key h)
             (wire_encode (c_signed_record (k_book (cv_codecs V))) r), w\<lparr>cs_tick := Suc (cs_tick w)\<rparr>)))) (listen_option V listen))"

definition dht_lookup ::
    "'n cli_env \<Rightarrow> identity \<Rightarrow> string \<Rightarrow> string option \<Rightarrow> string list \<Rightarrow> 'n cli \<Rightarrow> ((any_error + nat) \<times> 'n cli) option" where
  "dht_lookup V identity h listen extra w = (case handle_new h of
      Err _ \<Rightarrow> Some (Err (AnyMsg ''invalid handle''), w)
    | Ok h \<Rightarrow> map_option (\<lambda>listening.
        tryE listening w (\<lambda>listen_addr.
        tryE (effective_bootstrap V extra) w (\<lambda>bootstrap.
        let t = cs_tick w; w = w\<lparr>cs_tick := Suc t\<rparr> in
        tryE (cv_dht_get V t (device_secret identity) listen_addr bootstrap (dht_record_key h)) w (\<lambda>candidates.
        tryE (trusted_wallet (cv_ops V) (cv_codecs V) (cs_store w) h) w (\<lambda>wallet.
        tryE (best_dht_record_candidate (cv_crypto V) (k_book (cv_codecs V)) h candidates wallet) w (\<lambda>(best, skipped). case best of
            None \<Rightarrow> (Err (AnyMsg (''no DHT record found for '' @ quoted h)), w)
          | Some r \<Rightarrow> tryS (on_store w (\<lambda>st. peerbook_put (cv_ops V) (cv_crypto V) (k_book (cv_codecs V)) st h r)) (\<lambda>_ w. (Ok skipped, w)))))))) (listen_option V listen))"

section \<open>Resolving people\<close>

definition identity_changed_message :: "string \<Rightarrow> any_error" where
  "identity_changed_message who = AnyMsg (''IDENTITY CHANGED for '' @ quoted who @ ''. Refusing until you verify the new record out of band.'')"

definition cli_trust_error :: "string \<Rightarrow> trust_error \<Rightarrow> any_error" where
  "cli_trust_error who e = (case e of
      BadHandle \<Rightarrow> AnyMsg (''no signed record for '' @ quoted who)
    | UnverifiedRecord \<Rightarrow> AnyMsg ''peer record failed verification''
    | IdentityChanged \<Rightarrow> identity_changed_message who
    | StaleRecord \<Rightarrow> AnyMsg (''STALE RECORD for '' @ quoted who @ ''. Refusing rollback.''))"

definition cli_resolve_record :: "'n cli_env \<Rightarrow> identity \<Rightarrow> string \<Rightarrow> 'n cli \<Rightarrow> (any_error + handle \<times> signed_record) \<times> 'n cli" where
  "cli_resolve_record V identity input w =
     (let resolve = (\<lambda>st. resolve_local_record (cv_ops V) (cv_crypto V) (k_flow (cv_codecs V)) st input);
          (found, w) = on_store w resolve
      in case found of
           Ok pair \<Rightarrow> (Ok pair, w)
         | Err BadHandle \<Rightarrow>
             tryE (contacts_resolve (cv_ops V) (k_contacts (cv_codecs V)) (cs_store w) input) w (\<lambda>resolved.
             tryE (map_err (\<lambda>_. AnyMsg (''invalid handle '' @ quoted resolved)) (handle_new resolved)) w (\<lambda>h.
             let (imported, w) = import_from_configured_dht V identity h w in case imported of
                 Ok True \<Rightarrow> map_errS (cli_trust_error resolved) (on_store w resolve)
               | Ok False \<Rightarrow> (Err (AnyMsg (''no local signed record for '' @ quoted resolved)), w)
               | Err e \<Rightarrow> (Err (AnyMsg (''no local signed record for '' @ quoted resolved @ '', and DHT lookup failed: '' @ any_display e)), w)))
         | Err e \<Rightarrow> (Err (cli_trust_error input e), w))"

definition lookup_verified :: "'n cli_env \<Rightarrow> identity \<Rightarrow> string \<Rightarrow> 'n cli \<Rightarrow> (any_error + handle \<times> signed_record) \<times> 'n cli" where
  "lookup_verified V identity input w =
     tryS (cli_resolve_record V identity input w) (\<lambda>(h, r) w.
     case verified_level (cv_ops V) (fc_verified (k_flow (cv_codecs V))) (k_contacts (cv_codecs V)) (cs_store w)
            (rec_user_id (s_record r)) (rec_wallet (s_record r)) of
       Changed \<Rightarrow> (Err (identity_changed_message h), w)
     | Unverified \<Rightarrow> (Err (AnyMsg (''first contact '' @ quoted h @ '' is unverified; run `verify '' @ h
          @ '' --confirm` after comparing its safety number, or add it as a contact to pin it'')), w)
     | _ \<Rightarrow> (Ok (h, r), w))"

definition cli_verify :: "'n cli_env \<Rightarrow> identity \<Rightarrow> string \<Rightarrow> bool \<Rightarrow> bool \<Rightarrow> 'n cli \<Rightarrow> (any_error + verification_info) \<times> 'n cli" where
  "cli_verify V identity peer confirm accept_change w =
     tryS (cli_resolve_record V identity peer w) (\<lambda>(h, r) w.
     let F = k_flow (cv_codecs V); info = verification_info_for_record (cv_ops V) (cv_crypto V) F (cs_store w) identity h r in
     if accept_change then tryS (on_store w (\<lambda>st. accept_identity_change (cv_ops V) F st info)) (\<lambda>_ w. (Ok info, w))
     else if confirm then tryS (on_store w (\<lambda>st. mark_verified (cv_ops V) F st info)) (\<lambda>_ w. (Ok info, w))
     else (Ok info, w))"

fun ensure_peer_records :: "'n cli_env \<Rightarrow> identity \<Rightarrow> string list \<Rightarrow> 'n cli \<Rightarrow> (any_error + unit) \<times> 'n cli" where
  "ensure_peer_records V identity [] w = (Ok (), w)"
| "ensure_peer_records V identity (member # members) w =
     (let S = cv_ops V; K = cv_codecs V in
      tryE (map_err (\<lambda>_. AnyMsg (''invalid handle '' @ quoted member)) (handle_new member)) w (\<lambda>h.
      tryE (peerbook_get S (k_book K) (cs_store w) h) w (\<lambda>found.
      let w = (if found = None then snd (import_from_configured_dht V identity h w) else w) in
      tryE (peerbook_get S (k_book K) (cs_store w) h) w (\<lambda>found.
      case found of
        None \<Rightarrow> (Err (AnyMsg (''no local signed record for '' @ quoted h @ '' '' @ em_dash @ '' import their record first'')), w)
      | Some r \<Rightarrow>
          let level = verified_level S (fc_verified (k_flow K)) (k_contacts K) (cs_store w) (rec_user_id (s_record r)) (rec_wallet (s_record r)) in
          if rec_wallet (s_record r) \<noteq> wallet_public (cv_crypto V) identity \<and> (level = Unverified \<or> level = Changed)
          then (Err (AnyMsg (''group member '' @ quoted h @ '' is unverified; verify or pin the contact before sharing group keys'')), w)
          else ensure_peer_records V identity members w))))"

section \<open>The outbox\<close>

text \<open>One round of the flush loop: whether the entry was delivered.\<close>

definition cli_flush_entry :: "'n cli_env \<Rightarrow> identity \<Rightarrow> u64 \<Rightarrow> outbox_entry \<Rightarrow> 'n cli \<Rightarrow> (any_error + bool) \<times> 'n cli" where
  "cli_flush_entry V identity now e w =
     (let C = cv_crypto V; K = cv_codecs V; S = cv_ops V;
          fail = (\<lambda>w. tryS (on_store w (\<lambda>st. mark_failed S (k_outbox K) st (ob_id e))) (\<lambda>_ w. (Ok False, w)))
      in case (user_id_new (ob_recipient_user_id e), handle_new (ob_recipient e)) of
           (Ok uid, Ok h) \<Rightarrow>
             (let w = snd (import_from_configured_dht V identity h w) in
              tryE (peerbook_get_by_user_id S (k_book K) (cs_store w) uid) w (\<lambda>found. case found of
                None \<Rightarrow> tryS (on_store w (\<lambda>st. record_attempt S (k_outbox K) C st (ob_id e) now False)) (\<lambda>_ w. (Ok False, w))
              | Some r \<Rightarrow>
                  if \<not> is_ok (signed_record_verify C (k_claims K) r) then fail w
                  else let d = rec_device (s_record r);
                           (readdressed, st, p) = readdress_parked_delivery S C K identity (cs_platform w) (cs_store w) e d;
                           w = w\<lparr>cs_store := st, cs_platform := p\<rparr>
                       in tryE readdressed w (\<lambda>prepared. case prepared of
                            None \<Rightarrow> fail w
                          | Some (delivery_id, item) \<Rightarrow>
                              let (path, st, nw) = deliver_direct S C K (cv_network V) (cs_network w) (cs_store w) d delivery_id item now;
                                  w = w\<lparr>cs_store := st, cs_network := nw\<rparr>
                              in tryS (on_store w (\<lambda>st. record_attempt S (k_outbox K) C st delivery_id now (is_delivered path))) (\<lambda>_ w.
                                 (Ok (is_delivered path), w)))))
         | _ \<Rightarrow> fail w)"

fun cli_flush_entries :: "'n cli_env \<Rightarrow> identity \<Rightarrow> u64 \<Rightarrow> outbox_entry list \<Rightarrow> nat \<Rightarrow> 'n cli \<Rightarrow> (any_error + nat) \<times> 'n cli" where
  "cli_flush_entries V identity now [] delivered w = (Ok delivered, w)"
| "cli_flush_entries V identity now (e # es) delivered w =
     tryS (cli_flush_entry V identity now e w) (\<lambda>ok w. cli_flush_entries V identity now es (if ok then Suc delivered else delivered) w)"

definition flush_outbox_with_network :: "'n cli_env \<Rightarrow> identity \<Rightarrow> 'n cli \<Rightarrow> (any_error + nat \<times> nat) \<times> 'n cli" where
  "flush_outbox_with_network V identity w =
     (let (now, p) = now_unix_secs (cs_platform w); w = w\<lparr>cs_platform := p\<rparr> in
      tryE (due_outbox_entries (cv_ops V) (k_outbox (cv_codecs V)) (cs_store w) now) w (\<lambda>entries.
      tryS (cli_flush_entries V identity now entries 0 w) (\<lambda>delivered w.
      tryE (outbox_len (cv_ops V) (k_outbox (cv_codecs V)) (cs_store w)) w (\<lambda>waiting. (Ok (delivered, waiting), w)))))"

definition outbox_retry :: "'n cli_env \<Rightarrow> identity \<Rightarrow> 'n cli \<Rightarrow> (any_error + nat \<times> outbox_entry list) \<times> 'n cli" where
  "outbox_retry V identity w =
     tryS (on_store w (\<lambda>st. make_all_due (cv_ops V) (k_outbox (cv_codecs V)) st)) (\<lambda>_ w.
     tryS (flush_outbox_with_network V identity (w\<lparr>cs_network := network_new (reticulum_private_bytes (cv_crypto V) identity)\<rparr>)) (\<lambda>(delivered, _) w.
     tryE (outbox_load (cv_ops V) (k_outbox (cv_codecs V)) (cs_store w)) w (\<lambda>entries. (Ok (delivered, entries), w))))"

text \<open>The worker of \<open>serve\<close>, which takes the lock of the store for each step; other threads run in between.\<close>

definition locked_store :: "'n cli_env \<Rightarrow> (file_store \<Rightarrow> ('e + 'a) \<times> file_store) \<Rightarrow> 'n cli \<Rightarrow> ('e + 'a) \<times> 'n cli" where
  "locked_store V f w = on_store (w\<lparr>cs_store := cv_others V (cs_tick w) (cs_store w), cs_tick := Suc (cs_tick w)\<rparr>) f"

datatype retry_target = TargetDevice device | RetryLater | DropEntry

definition retry_target_of :: "'n cli_env \<Rightarrow> outbox_entry \<Rightarrow> file_store \<Rightarrow> retry_target" where
  "retry_target_of V e st = (case user_id_new (ob_recipient_user_id e) of
      Err _ \<Rightarrow> DropEntry
    | Ok uid \<Rightarrow> (case peerbook_get_by_user_id (cv_ops V) (k_book (cv_codecs V)) st uid of
          Ok (Some r) \<Rightarrow> if is_ok (signed_record_verify (cv_crypto V) (k_claims (cv_codecs V)) r) then TargetDevice (rec_device (s_record r)) else DropEntry
        | Ok None \<Rightarrow> RetryLater
        | Err _ \<Rightarrow> RetryLater))"

definition retry_entry :: "'n cli_env \<Rightarrow> identity \<Rightarrow> u64 \<Rightarrow> outbox_entry \<Rightarrow> 'n cli \<Rightarrow> 'n cli" where
  "retry_entry V identity now e w =
     (let C = cv_crypto V; K = cv_codecs V; S = cv_ops V;
          fail = (\<lambda>w. snd (locked_store V (\<lambda>st. mark_failed S (k_outbox K) st (ob_id e)) w));
          (target, w) = locked_store V (\<lambda>st. (Ok (retry_target_of V e st) :: any_error + retry_target, st)) w
      in case target of
           Ok (TargetDevice d) \<Rightarrow>
             (let w = w\<lparr>cs_store := cv_others V (cs_tick w) (cs_store w), cs_tick := Suc (cs_tick w)\<rparr>;
                  (prepared, st, p) = readdress_parked_delivery S C K identity (cs_platform w) (cs_store w) e d;
                  w = w\<lparr>cs_store := st, cs_platform := p\<rparr>
              in case prepared of
                   Ok (Some (delivery_id, item)) \<Rightarrow>
                     (let (accepted, nw) = direct_push C K (cv_network V) (cs_network w) d delivery_id item
                      in snd (locked_store V (\<lambda>st.
                           record_attempt S (k_outbox K) C (snd (reachability_record S st (device_slot (device_key d)) Direct accepted now))
                             delivery_id now accepted) (w\<lparr>cs_network := nw\<rparr>)))
                 | _ \<Rightarrow> fail w)
         | Ok RetryLater \<Rightarrow> snd (locked_store V (\<lambda>st. record_attempt S (k_outbox K) C st (ob_id e) now False) w)
         | _ \<Rightarrow> fail w)"

definition retry_due_deliveries :: "'n cli_env \<Rightarrow> identity \<Rightarrow> 'n cli \<Rightarrow> 'n cli" where
  "retry_due_deliveries V identity w =
     (let (now, p) = now_unix_secs (cs_platform w);
          (due, w) = locked_store V (\<lambda>st. (due_outbox_entries (cv_ops V) (k_outbox (cv_codecs V)) st now, st)) (w\<lparr>cs_platform := p\<rparr>)
      in case due of
           Err _ \<Rightarrow> w
         | Ok entries \<Rightarrow> fold (retry_entry V identity now) entries w)"

section \<open>Peers\<close>

definition decode_discovery_response :: "client_codecs \<Rightarrow> bytes \<Rightarrow> any_error + discovery_record list" where
  "decode_discovery_response K bs = (case wire_decode (k_frame K) bs of
      Err e \<Rightarrow> Err (AnyCore e)
    | Ok (DiscoveryResponse records) \<Rightarrow> Ok records
    | Ok _ \<Rightarrow> Err (AnyMsg ''peer returned a non-discovery frame''))"

text \<open>The network parameter does not say why sending failed; one text stands for every cause.\<close>

definition request_discovery_from_device ::
    "'n cli_env \<Rightarrow> 'n direct_network \<Rightarrow> device \<Rightarrow> string list \<Rightarrow> (any_error + discovery_record list) \<times> 'n direct_network" where
  "request_discovery_from_device V nw d want =
     (let (node, nw) = reticulum (cv_network V) nw in case node of
         None \<Rightarrow> (Err (AnyMsg ''could not start Reticulum node''), nw)
       | Some node \<Rightarrow> (case nv_send (cv_network V) (dn_tick nw) node (device_reticulum d) (wire_encode (k_frame (cv_codecs V)) (DiscoveryRequest want)) of
             None \<Rightarrow> (Err (AnyMsg ''Reticulum delivery failed''), network_use (cv_network V) nw)
           | Some bs \<Rightarrow> (decode_discovery_response (cv_codecs V) bs, network_use (cv_network V) nw)))"

definition discover :: "'n cli_env \<Rightarrow> identity \<Rightarrow> string \<Rightarrow> string list \<Rightarrow> 'n cli \<Rightarrow> (any_error + import_report) \<times> 'n cli" where
  "discover V identity peer want w =
     tryS (cli_resolve_record V identity peer w) (\<lambda>(h, r) w.
     let (answer, nw) = request_discovery_from_device V (network_new (reticulum_private_bytes (cv_crypto V) identity)) (rec_device (s_record r)) want;
         w = w\<lparr>cs_network := nw\<rparr>
     in case answer of
          Ok records \<Rightarrow> (let (report, st) = import_records (cv_ops V) (cv_crypto V) (k_book (cv_codecs V)) (cs_store w) records
                         in (Ok report, w\<lparr>cs_store := st\<rparr>))
        | Err e \<Rightarrow> (Err (AnyMsg (''could not discover through '' @ quoted h @ '': '' @ any_display e)), w))"

text \<open>One inbound frame: the reply, what was shown, and the state.\<close>

definition serve_reticulum_frame ::
    "'n cli_env \<Rightarrow> identity \<Rightarrow> handle \<Rightarrow> signed_record \<Rightarrow> bytes \<Rightarrow> 'n cli \<Rightarrow> bytes option \<times> flow_event list \<times> 'n cli" where
  "serve_reticulum_frame V identity me my_record inbound w =
     (let K = cv_codecs V in case wire_decode (k_frame K) inbound of
        Err _ \<Rightarrow> (None, [], w)
      | Ok (DiscoveryRequest want) \<Rightarrow>
          (let records = (case peerbook_pack (cv_ops V) (k_book K) (cs_store w) want of Ok rs \<Rightarrow> rs | Err _ \<Rightarrow> [])
           in (Some (wire_encode (k_frame K) (DiscoveryResponse records)), [], w))
      | Ok (DiscoveryResponse records) \<Rightarrow>
          (None, [], w\<lparr>cs_store := snd (import_records (cv_ops V) (cv_crypto V) (k_book K) (cs_store w) records)\<rparr>)
      | Ok (DeliveryFrame delivery_id item) \<Rightarrow>
          (let d = accept_delivery (cv_crypto V) (cv_fs V) (cv_batch V) K identity me my_record (cs_platform w) (cs_store w) delivery_id item
           in (dl_ack d, dl_events d, w\<lparr>cs_store := dl_store d, cs_platform := dl_platform d\<rparr>))
      | Ok (AckFrame _) \<Rightarrow> (None, [], w))"

section \<open>Building messages\<close>

text \<open>\<open>str::parse::<u64>\<close> of a decimal number.\<close>

definition parse_u64 :: "string \<Rightarrow> u64 option" where
  "parse_u64 s = (let ds = (case s of c # cs \<Rightarrow> if c = CHR ''+'' then cs else s | [] \<Rightarrow> []) in
     if ds = [] \<or> \<not> list_all is_digit_char ds \<or> decimal_value ds \<ge> 2 ^ 64 then None else Some (of_nat (decimal_value ds)))"

definition strip_suffix :: "char \<Rightarrow> string \<Rightarrow> string option" where
  "strip_suffix c s = (if s \<noteq> [] \<and> last s = c then Some (butlast s) else None)"

definition duration_unit :: "string \<Rightarrow> string \<times> u64" where
  "duration_unit s = (case strip_suffix (CHR ''s'') s of Some n \<Rightarrow> (n, 1)
    | None \<Rightarrow> (case strip_suffix (CHR ''m'') s of Some n \<Rightarrow> (n, 60)
    | None \<Rightarrow> (case strip_suffix (CHR ''h'') s of Some n \<Rightarrow> (n, 3600)
    | None \<Rightarrow> (case strip_suffix (CHR ''d'') s of Some n \<Rightarrow> (n, 86400)
    | None \<Rightarrow> (s, 1)))))"

text \<open>The product wraps, as in a release build.\<close>

definition parse_duration :: "string \<Rightarrow> any_error + u64" where
  "parse_duration s =
     (let s = str_trim s; (num, mult) = duration_unit s in
      tryR (ok_or (AnyMsg (''invalid duration '' @ quoted s @ '' (use e.g. 30s, 10m, 1h, 7d)'')) (parse_u64 (str_trim num))) (\<lambda>value.
      Ok (value * mult)))"

definition resolve_expiry :: "'n cli_env \<Rightarrow> string \<Rightarrow> string option \<Rightarrow> 'n cli \<Rightarrow> (any_error + u64 option) \<times> 'n cli" where
  "resolve_expiry V key expire w =
     tryE (case expire of
         Some dur \<Rightarrow> tryR (parse_duration dur) (\<lambda>secs. Ok (Some secs))
       | None \<Rightarrow> expiry_get (cv_ops V) (k_expiry (cv_codecs V)) (cs_store w) key) w (\<lambda>ttl. case ttl of
         None \<Rightarrow> (Ok None, w)
       | Some secs \<Rightarrow> let (now, p) = now_unix_secs (cs_platform w) in (Ok (Some (now + secs)), w\<lparr>cs_platform := p\<rparr>))"

definition MAX_ATTACHMENT :: nat where
  "MAX_ATTACHMENT = 256 * 1024"

text \<open>\<open>str::rsplit_once\<close>, and \<open>Path::file_name\<close> on the paths of a Unix system.\<close>

definition rsplit_once :: "char \<Rightarrow> string \<Rightarrow> (string \<times> string) option" where
  "rsplit_once c s = map_option (\<lambda>(a, b). (rev b, rev a)) (split_once c (rev s))"

definition path_file_name :: "string \<Rightarrow> string option" where
  "path_file_name path = (case rev (filter (\<lambda>part. part \<noteq> [] \<and> part \<noteq> ''.'') (split_char (CHR ''/'') path)) of
      [] \<Rightarrow> None
    | part # _ \<Rightarrow> if part = ''..'' then None else Some part)"

definition guess_mime :: "string \<Rightarrow> string" where
  "guess_mime name =
     (let ext = to_ascii_lowercase (case rsplit_once (CHR ''.'') name of Some (_, e) \<Rightarrow> e | None \<Rightarrow> name) in
      if ext = ''txt'' \<or> ext = ''md'' then ''text/plain''
      else if ext = ''png'' then ''image/png''
      else if ext = ''jpg'' \<or> ext = ''jpeg'' then ''image/jpeg''
      else if ext = ''gif'' then ''image/gif''
      else if ext = ''pdf'' then ''application/pdf''
      else if ext = ''json'' then ''application/json''
      else ''application/octet-stream'')"

record message_flags =
  mf_message :: "string option"
  mf_reply_to :: "string option"
  mf_react :: "string option"
  mf_to :: "string option"
  mf_file :: "string option"
  mf_edit :: "string option"
  mf_delete :: "string option"

definition message_body :: "'n cli_env \<Rightarrow> message_flags \<Rightarrow> any_error + body" where
  "message_body V f = (case mf_delete f of
      Some target \<Rightarrow> Ok (BodyDelete target)
    | None \<Rightarrow> (case mf_edit f of
      Some target \<Rightarrow> tryR (ok_or (AnyMsg ''--edit requires --message'') (mf_message f)) (\<lambda>text. Ok (Edit target text))
    | None \<Rightarrow> (case mf_file f of
      Some path \<Rightarrow>
        tryR (ok_or (AnyMsg (''could not read '' @ quoted path)) (cv_read_file V path)) (\<lambda>data.
        if length data > MAX_ATTACHMENT then Err (AnyMsg (''file too large (max '' @ nat_decimal (MAX_ATTACHMENT div 1024) @ '' KiB)''))
        else let name = (case path_file_name path of Some n \<Rightarrow> n | None \<Rightarrow> ''file'') in Ok (File name (guess_mime name) data))
    | None \<Rightarrow> (case mf_react f of
      Some emoji \<Rightarrow> tryR (ok_or (AnyMsg ''--react requires --to <message-id>'') (mf_to f)) (\<lambda>to. Ok (Reaction to emoji))
    | None \<Rightarrow> (case mf_reply_to f of
      Some target \<Rightarrow> tryR (ok_or (AnyMsg ''--reply-to requires --message'') (mf_message f)) (\<lambda>text. Ok (Reply target text))
    | None \<Rightarrow> tryR (ok_or (AnyMsg ''--message is required'') (mf_message f)) (\<lambda>text. Ok (Text text)))))))"

definition build_message :: "'n cli_env \<Rightarrow> message_flags \<Rightarrow> u64 option \<Rightarrow> 'n cli \<Rightarrow> (any_error + app_message) \<times> 'n cli" where
  "build_message V f expires_at w =
     tryE (message_body V f) w (\<lambda>b.
     let (i, p) = random_id (cs_platform w); (now, p) = now_unix_secs p
     in (Ok \<lparr>msg_id = i, msg_timestamp = now, msg_expires_at = expires_at, msg_body = b\<rparr>, w\<lparr>cs_platform := p\<rparr>))"

section \<open>Saving attachments\<close>

text \<open>
  The downloads directory as a map, and what the operating system does at each call: creating a file that
  does not exist may fail, and a write may stop after part of the data.
\<close>

record download_env =
  dv_create_dir :: "io_error option"
  dv_open :: "string \<Rightarrow> io_error option"
  dv_write :: "string \<Rightarrow> (nat \<times> io_error) option"

definition safe_name :: "string \<Rightarrow> string" where
  "safe_name name = (case path_file_name name of Some n \<Rightarrow> n | None \<Rightarrow> ''file'')"

definition stem_and_ext :: "string \<Rightarrow> string \<times> string" where
  "stem_and_ext safe = (case rsplit_once (CHR ''.'') safe of
      Some (s, e) \<Rightarrow> if s \<noteq> [] then (s, ''.'' @ e) else (safe, [])
    | None \<Rightarrow> (safe, []))"

definition candidate_name :: "string \<Rightarrow> nat \<Rightarrow> string" where
  "candidate_name safe n = (if n = 0 then safe
     else let (stem, ext) = stem_and_ext safe in stem @ '' ('' @ nat_decimal n @ '')'' @ ext)"

function save_candidate ::
    "download_env \<Rightarrow> string \<Rightarrow> bytes \<Rightarrow> nat \<Rightarrow> (string \<Rightarrow> bytes option) \<Rightarrow> (any_error + string) \<times> (string \<Rightarrow> bytes option)" where
  "save_candidate D safe data n dir =
     (if n \<ge> 10000 then (Err (AnyMsg (''too many attachments named '' @ quoted safe)), dir)
      else let c = candidate_name safe n in
        if dir c \<noteq> None then save_candidate D safe data (Suc n) dir
        else case dv_open D c of
            Some e \<Rightarrow> (Err (AnyIo e), dir)
          | None \<Rightarrow> (case dv_write D c of
                None \<Rightarrow> (Ok c, dir(c \<mapsto> data))
              | Some (k, e) \<Rightarrow> (Err (AnyIo e), dir(c \<mapsto> take k data))))"
  by pat_completeness auto
termination
  by (relation "measure (\<lambda>(D, safe, data, n, dir). 10000 - n)") auto

definition save_attachment_in ::
    "download_env \<Rightarrow> string \<Rightarrow> bytes \<Rightarrow> (string \<Rightarrow> bytes option) \<Rightarrow> (any_error + string) \<times> (string \<Rightarrow> bytes option)" where
  "save_attachment_in D name data dir = (case dv_create_dir D of
      Some e \<Rightarrow> (Err (AnyIo e), dir)
    | None \<Rightarrow> save_candidate D (safe_name name) data 0 dir)"

section \<open>Sending\<close>

definition cli_flow :: "'n cli \<Rightarrow> (file_store, 'n direct_network) flow_state" where
  "cli_flow w = \<lparr>fl_store = cs_store w, fl_platform = cs_platform w, fl_host = cs_network w, fl_events = []\<rparr>"

definition from_flow :: "(file_store, 'n direct_network) flow_state \<Rightarrow> 'n cli \<Rightarrow> 'n cli" where
  "from_flow f w = w\<lparr>cs_store := fl_store f, cs_platform := fl_platform f, cs_network := fl_host f\<rparr>"

text \<open>A sending command starts with a new network, and flushes the outbox ignoring its failure.\<close>

definition start_command :: "'n cli_env \<Rightarrow> identity \<Rightarrow> 'n cli \<Rightarrow> 'n cli" where
  "start_command V identity w =
     snd (flush_outbox_with_network V identity (w\<lparr>cs_network := network_new (reticulum_private_bytes (cv_crypto V) identity)\<rparr>))"

definition cli_send :: "'n cli_env \<Rightarrow> identity \<Rightarrow> string \<Rightarrow> string \<Rightarrow> message_flags \<Rightarrow> string option \<Rightarrow> 'n cli \<Rightarrow> (any_error + send_outcome) \<times> 'n cli" where
  "cli_send V identity peer whoami f expire w =
     tryE (map_err (\<lambda>_. AnyMsg ''invalid --as handle'') (handle_new whoami)) w (\<lambda>me.
     let w = start_command V identity w in
     tryS (lookup_verified V identity peer w) (\<lambda>(h, r) w.
     tryS (resolve_expiry V h expire w) (\<lambda>expires_at w.
     tryS (build_message V f expires_at w) (\<lambda>app w.
     let (now, p) = now_unix_secs (cs_platform w);
         w = w\<lparr>cs_platform := p\<rparr>;
         (out, fl) = send_direct (cv_ops V) (cv_crypto V) (cv_codecs V) identity (cli_flow w) me h r app
           (cli_deliver_or_park (cv_ops V) (cv_crypto V) (cv_codecs V) (cv_network V) now)
     in (out, from_flow fl w)))))"

definition delivery_summary :: "string \<Rightarrow> string \<Rightarrow> nat \<Rightarrow> nat \<Rightarrow> nat \<Rightarrow> nat \<Rightarrow> string" where
  "delivery_summary peer i delivered pending failed devices =
     (if failed > 0 then ''delivery to '' @ quoted peer @ '' incomplete '' @ em_dash @ '' '' @ nat_decimal delivered @ '' accepted, ''
        @ nat_decimal pending @ '' pending locally, '' @ nat_decimal failed @ '' not saved (#'' @ i @ '')''
      else if pending = 0 then ''delivered to '' @ quoted peer @ '' '' @ em_dash @ '' '' @ nat_decimal delivered @ ''/'' @ nat_decimal devices
        @ '' active device (#'' @ i @ '')''
      else if delivered = 0 then ''saved for '' @ quoted peer @ '' '' @ em_dash @ '' waiting for direct delivery to active device (#'' @ i @ '')''
      else ''partially delivered to '' @ quoted peer @ '' '' @ em_dash @ '' '' @ nat_decimal delivered @ '' accepted, ''
        @ nat_decimal pending @ '' pending locally (#'' @ i @ '')'')"

section \<open>Groups\<close>

definition distribute_group_key_direct ::
    "'n cli_env \<Rightarrow> identity \<Rightarrow> handle \<Rightarrow> signed_record \<Rightarrow> stored_group \<Rightarrow> group_member list \<Rightarrow> 'n cli \<Rightarrow> stored_group \<times> 'n cli" where
  "distribute_group_key_direct V identity me my_record g targets w =
     (let (now, p) = now_unix_secs (cs_platform w);
          w = w\<lparr>cs_platform := p, cs_network := network_new (reticulum_private_bytes (cv_crypto V) identity)\<rparr>;
          ((_, g), fl) = client_distribute_group_key (cv_ops V) (cv_crypto V) (k_flow (cv_codecs V)) identity (cli_flow w) me my_record g targets
            (cli_deliver_or_park (cv_ops V) (cv_crypto V) (cv_codecs V) (cv_network V) now)
      in (g, from_flow fl w))"

fun group_handles :: "string list \<Rightarrow> string list \<Rightarrow> any_error + string list" where
  "group_handles [] all = Ok all"
| "group_handles (member # members) all =
     tryR (map_err (\<lambda>_. AnyMsg ''invalid member handle'') (handle_new member)) (\<lambda>h.
     group_handles members (if list_ex (\<lambda>m. m = h) all then all else all @ [h]))"

definition group_create :: "'n cli_env \<Rightarrow> identity \<Rightarrow> string \<Rightarrow> string list \<Rightarrow> string \<Rightarrow> 'n cli \<Rightarrow> (any_error + stored_group) \<times> 'n cli" where
  "group_create V identity name members whoami w =
     (let C = cv_crypto V; F = k_flow (cv_codecs V); S = cv_ops V in
      tryE (map_err (\<lambda>_. AnyMsg ''invalid --as handle'') (handle_new whoami)) w (\<lambda>me.
      tryE (require_own_record_for_identity S C (fc_book F) (cs_store w) identity me) w (\<lambda>my_record.
      tryE (group_handles members []) w (\<lambda>all.
      let all = (if list_ex (\<lambda>m. m = me) all then all else all @ [me]) in
      tryS (ensure_peer_records V identity all w) (\<lambda>_ w.
      let (created, st, p) = create_group S C F identity (cs_store w) (cs_platform w) me name all;
          w = w\<lparr>cs_store := st, cs_platform := p\<rparr>
      in tryE created w (\<lambda>g. let (g, w) = distribute_group_key_direct V identity me my_record g (sg_members g) w in (Ok g, w)))))))"

definition group_add :: "'n cli_env \<Rightarrow> identity \<Rightarrow> string \<Rightarrow> string \<Rightarrow> string \<Rightarrow> 'n cli \<Rightarrow> (any_error + stored_group) \<times> 'n cli" where
  "group_add V identity key member whoami w =
     (let C = cv_crypto V; K = cv_codecs V; S = cv_ops V in
      tryE (map_err (\<lambda>_. AnyMsg ''invalid --as handle'') (handle_new whoami)) w (\<lambda>me.
      tryE (require_own_record_for_identity S C (k_book K) (cs_store w) identity me) w (\<lambda>my_record.
      tryE (map_err (\<lambda>_. AnyMsg ''invalid member handle'') (handle_new member)) w (\<lambda>h.
      tryS (ensure_peer_records V identity [h] w) (\<lambda>_ w.
      tryE (group_with_added_member S K (cs_store w) key h) w (\<lambda>g.
      tryS (on_store w (\<lambda>st. groups_save S (k_groups K) st g)) (\<lambda>_ w.
      let (g, w) = distribute_group_key_direct V identity me my_record g (sg_members g) w in (Ok g, w))))))))"

definition cli_group_send ::
    "'n cli_env \<Rightarrow> identity \<Rightarrow> string \<Rightarrow> string \<Rightarrow> message_flags \<Rightarrow> string option \<Rightarrow> 'n cli \<Rightarrow> (any_error + send_outcome) \<times> 'n cli" where
  "cli_group_send V identity key whoami f expire w =
     tryE (map_err (\<lambda>_. AnyMsg ''invalid --as handle'') (handle_new whoami)) w (\<lambda>me.
     let w = start_command V identity w in
     tryE (resolve_group (cv_ops V) (k_groups (cv_codecs V)) (cs_store w) key) w (\<lambda>g.
     tryS (resolve_expiry V (sg_id g) expire w) (\<lambda>expires_at w.
     tryS (build_message V f expires_at w) (\<lambda>app w.
     let (now, p) = now_unix_secs (cs_platform w);
         w = w\<lparr>cs_platform := p\<rparr>;
         ((out, _), fl) = send_group (cv_ops V) (cv_crypto V) (k_flow (cv_codecs V)) identity (cli_flow w) me g app
           (cli_deliver_or_park (cv_ops V) (cv_crypto V) (cv_codecs V) (cv_network V) now)
     in (out, from_flow fl w)))))"

definition cli_group_leave :: "'n cli_env \<Rightarrow> identity \<Rightarrow> string \<Rightarrow> string \<Rightarrow> 'n cli \<Rightarrow> (any_error + unit) \<times> 'n cli" where
  "cli_group_leave V identity key whoami w =
     tryE (map_err (\<lambda>_. AnyMsg ''invalid --as handle'') (handle_new whoami)) w (\<lambda>me.
     tryE (require_own_record_for_identity (cv_ops V) (cv_crypto V) (k_book (cv_codecs V)) (cs_store w) identity me) w (\<lambda>my_record.
     tryE (resolve_group (cv_ops V) (k_groups (cv_codecs V)) (cs_store w) key) w (\<lambda>g.
     let (now, p) = now_unix_secs (cs_platform w);
         w = w\<lparr>cs_platform := p, cs_network := network_new (reticulum_private_bytes (cv_crypto V) identity)\<rparr>;
         (left, fl) = leave_group (cv_ops V) (cv_crypto V) (k_flow (cv_codecs V)) identity (cli_flow w) me my_record g
           (cli_deliver_or_park (cv_ops V) (cv_crypto V) (cv_codecs V) (cv_network V) now)
     in (left, from_flow fl w))))"

end
