(* ===== verification/CliSafety.thy ===== *)
theory CliSafety
  imports Cli
begin

text \<open>
  What is proved of the commands of \<open>Cli\<close>: what discovery may do to the people a user trusts, where
  attachments are written, and how durations and expiry times wrap.
\<close>

section \<open>Choosing among candidates\<close>

definition valid_candidates :: "crypto \<Rightarrow> peerbook_codecs \<Rightarrow> handle \<Rightarrow> bytes list \<Rightarrow> signed_record list" where
  "valid_candidates C B h cs = List.map_filter (\<lambda>bs. case decode_dht_record_candidate C B h bs of Ok r \<Rightarrow> Some r | Err _ \<Rightarrow> None) cs"

definition chosen_wallet :: "wallet_public_key option \<Rightarrow> signed_record list \<Rightarrow> wallet_public_key option" where
  "chosen_wallet trusted vs = (case trusted of Some w \<Rightarrow> Some w
     | None \<Rightarrow> (case vs of [] \<Rightarrow> None | v # _ \<Rightarrow> Some (rec_wallet (s_record v))))"

definition of_wallet :: "wallet_public_key option \<Rightarrow> signed_record list \<Rightarrow> signed_record list" where
  "of_wallet w vs = filter (\<lambda>v. Some (rec_wallet (s_record v)) = w) vs"

definition freshest :: "signed_record list \<Rightarrow> signed_record option \<Rightarrow> bool" where
  "freshest vs best \<longleftrightarrow> (case best of None \<Rightarrow> vs = []
     | Some r \<Rightarrow> r \<in> set vs \<and> (\<forall>v \<in> set vs. \<not> freshness_less (record_freshness r) (record_freshness v)))"

lemma map_filter_snoc: "List.map_filter f (xs @ [x]) = List.map_filter f xs @ (case f x of None \<Rightarrow> [] | Some y \<Rightarrow> [y])"
  by (induction xs) (auto simp: List.map_filter_simps split: option.split)

lemma freshest_snoc:
  assumes "freshest vs best"
  shows "freshest (vs @ [r]) (if (case best of Some known \<Rightarrow> freshness_less (record_freshness known) (record_freshness r) | None \<Rightarrow> True)
    then Some r else best)"
proof (cases best)
  case (Some known)
  have "\<not> freshness_less (record_freshness r) (record_freshness v)"
    if "freshness_less (record_freshness known) (record_freshness r)" "v \<in> set vs" for v
    using that assms Some freshness_less_trans by (fastforce simp: freshest_def)
  with assms Some show ?thesis by (auto simp: freshest_def)
qed (use assms in \<open>simp add: freshest_def\<close>)

lemma scan_candidates:
  assumes "sc = foldl (scan_candidate C B h) \<lparr>sc_best = None, sc_wallet = trusted, sc_skipped = 0, sc_conflict = False\<rparr> cs"
  shows "sc_wallet sc = chosen_wallet trusted (valid_candidates C B h cs)
    \<and> sc_conflict sc = (\<exists>v \<in> set (valid_candidates C B h cs). Some (rec_wallet (s_record v)) \<noteq> sc_wallet sc)
    \<and> sc_skipped sc + length (of_wallet (sc_wallet sc) (valid_candidates C B h cs)) = length cs
    \<and> freshest (of_wallet (sc_wallet sc) (valid_candidates C B h cs)) (sc_best sc)"
  using assms
proof (induction cs arbitrary: sc rule: rev_induct)
  case Nil
  then show ?case by (cases trusted) (simp_all add: valid_candidates_def List.map_filter_simps chosen_wallet_def of_wallet_def freshest_def)
next
  case (snoc bs cs)
  let ?vs = "valid_candidates C B h cs"
  define sc0 where "sc0 = foldl (scan_candidate C B h) \<lparr>sc_best = None, sc_wallet = trusted, sc_skipped = 0, sc_conflict = False\<rparr> cs"
  note IH = snoc.IH [OF sc0_def]
  have sc: "sc = scan_candidate C B h sc0 bs" using snoc.prems by (simp add: sc0_def)
  show ?case
  proof (cases "decode_dht_record_candidate C B h bs")
    case (Inl e)
    then have "valid_candidates C B h (cs @ [bs]) = ?vs" by (simp add: valid_candidates_def map_filter_snoc)
    with Inl IH show ?thesis by (auto simp: sc scan_candidate_def)
  next
    case (Inr r)
    then have vs: "valid_candidates C B h (cs @ [bs]) = ?vs @ [r]" by (simp add: valid_candidates_def map_filter_snoc)
    show ?thesis
    proof (cases "sc_wallet sc0 \<noteq> None \<and> sc_wallet sc0 \<noteq> Some (rec_wallet (s_record r))")
      case True
      then have "chosen_wallet trusted (?vs @ [r]) = sc_wallet sc0"
        using IH by (auto simp: chosen_wallet_def split: option.splits list.splits)
      moreover have "of_wallet (sc_wallet sc0) (?vs @ [r]) = of_wallet (sc_wallet sc0) ?vs"
        using True by (auto simp: of_wallet_def)
      ultimately show ?thesis using True Inr IH vs by (auto simp: sc scan_candidate_def)
    next
      case False
      define w where "w = Some (rec_wallet (s_record r))"
      have chosen: "chosen_wallet trusted (?vs @ [r]) = w" and mine: "of_wallet w ?vs = of_wallet (sc_wallet sc0) ?vs"
        and conflict: "(\<exists>v \<in> set ?vs. Some (rec_wallet (s_record v)) \<noteq> w) = sc_conflict sc0"
        using False IH by (auto simp: w_def chosen_wallet_def of_wallet_def split: option.splits list.splits)
      have fields: "sc_wallet sc = w" "sc_skipped sc = sc_skipped sc0" "sc_conflict sc = sc_conflict sc0"
        "sc_best sc = (if (case sc_best sc0 of Some known \<Rightarrow> freshness_less (record_freshness known) (record_freshness r) | None \<Rightarrow> True)
           then Some r else sc_best sc0)"
        using False Inr by (auto simp: sc scan_candidate_def w_def Let_def split: option.splits)
      have more: "of_wallet w (?vs @ [r]) = of_wallet (sc_wallet sc0) ?vs @ [r]" using mine by (simp add: of_wallet_def w_def)
      have "freshest (of_wallet w (?vs @ [r])) (sc_best sc)" unfolding more fields(4) by (rule freshest_snoc) (use IH in blast)
      moreover have "sc_skipped sc + length (of_wallet w (?vs @ [r])) = length (cs @ [bs])"
      proof -
        from IH have "sc_skipped sc0 + length (of_wallet (sc_wallet sc0) ?vs) = length cs" by blast
        then show ?thesis unfolding more fields(2) by simp
      qed
      moreover have "sc_conflict sc = (\<exists>v \<in> set (?vs @ [r]). Some (rec_wallet (s_record v)) \<noteq> w)"
        unfolding fields(3) conflict [symmetric] by (simp add: w_def)
      ultimately show ?thesis unfolding vs fields(1) using chosen by simp
    qed
  qed
qed

lemma best_candidate_spec:
  assumes "best_dht_record_candidate C B h cs trusted = Ok (best, k)"
  shows "freshest (of_wallet (chosen_wallet trusted (valid_candidates C B h cs)) (valid_candidates C B h cs)) best"
    "trusted = None \<Longrightarrow> v \<in> set (valid_candidates C B h cs) \<Longrightarrow> v' \<in> set (valid_candidates C B h cs) \<Longrightarrow>
       rec_wallet (s_record v) = rec_wallet (s_record v')"
proof -
  note scan = scan_candidates [OF refl, of C B h trusted cs]
  from assms scan show "freshest (of_wallet (chosen_wallet trusted (valid_candidates C B h cs)) (valid_candidates C B h cs)) best"
    by (auto simp: best_dht_record_candidate_def Let_def split: if_splits)
  assume t: "trusted = None" and v: "v \<in> set (valid_candidates C B h cs)" "v' \<in> set (valid_candidates C B h cs)"
  from assms t scan have "\<forall>v \<in> set (valid_candidates C B h cs). Some (rec_wallet (s_record v)) = chosen_wallet None (valid_candidates C B h cs)"
    by (simp add: best_dht_record_candidate_def Let_def split: if_splits)
  with v show "rec_wallet (s_record v) = rec_wallet (s_record v')" by (metis option.inject)
qed

lemma best_candidate_conflict:
  "best_dht_record_candidate C B h cs trusted = Err e \<longleftrightarrow>
     trusted = None \<and> (\<exists>v \<in> set (valid_candidates C B h cs). \<exists>v' \<in> set (valid_candidates C B h cs). rec_wallet (s_record v) \<noteq> rec_wallet (s_record v'))
     \<and> e = AnyMsg (''conflicting wallets claim '' @ quoted h @ ''; discovery cannot choose identity authority'')"
proof -
  let ?vs = "valid_candidates C B h cs"
  have "(\<exists>v \<in> set ?vs. Some (rec_wallet (s_record v)) \<noteq> chosen_wallet None ?vs) \<longleftrightarrow>
      (\<exists>v \<in> set ?vs. \<exists>v' \<in> set ?vs. rec_wallet (s_record v) \<noteq> rec_wallet (s_record v'))"
    by (cases ?vs) (auto simp: chosen_wallet_def, metis+)
  then show ?thesis using scan_candidates [OF refl, of C B h trusted cs]
    by (auto simp: best_dht_record_candidate_def Let_def)
qed

lemma valid_candidate_facts:
  "r \<in> set (valid_candidates C B h cs) \<Longrightarrow> rec_handle (s_record r) = h \<and> signed_record_verify C (c_book_claims B) r = Ok ()
     \<and> rec_user_id (s_record r) = user_id_from_wallet C (rec_wallet (s_record r))"
  by (induction cs)
    (auto simp: valid_candidates_def List.map_filter_simps decode_dht_record_candidate_def result_elims signed_record_verify_Ok Let_def
      split: option.splits sum.splits if_splits)

section \<open>Filing what was discovered\<close>

context kv_store_puts
begin

lemma peerbook_put_any:
  assumes "inv st" "codec_ok (c_book c)" "peerbook_load S c st = Ok records" "peerbook_put S C c st h sr = (r, st')"
  shows "inv st' \<and> (peerbook_load S c st' = Ok records \<or> peerbook_load S c st' = Ok (book_insert h sr records))
    \<and> (k \<noteq> PEERBOOK_KEY \<longrightarrow> k \<noteq> antirollback_key (rec_user_id (s_record sr)) \<longrightarrow> st_get S st' k = st_get S st k)"
proof (cases "verify_handle C h sr = Ok () \<and> signed_record_verify C (c_book_claims c) sr = Ok ()
    \<and> address (device_reticulum (rec_device (s_record sr))) \<noteq> replicate 16 0")
  case False
  then have "st' = st" using assms(4)
    by (cases "verify_handle C h sr"; cases "signed_record_verify C (c_book_claims c) sr") (auto simp: peerbook_put_def)
  with assms show ?thesis by simp
next
  case True
  obtain p st1 where pin: "check_and_pin S C (c_book_pins c) st (rec_user_id (s_record sr)) sr = (p, st1)" by fastforce
  note frame = check_and_pin_any [OF assms(1) pin]
  have l1: "peerbook_load S c st1 = Ok records" using frame [of PEERBOOK_KEY] assms(3) by (simp add: peerbook_load_def io_get_def)
  show ?thesis
  proof (cases "p = Ok True")
    case False
    with True pin assms(4) have "st' = st1" by (cases p) (auto simp: peerbook_put_def)
    with frame [of k] l1 show ?thesis by auto
  next
    case pinned: True
    with True pin l1 assms(4) have "(r, st') = peerbook_save S c st1 (book_insert h sr records)" by (simp add: peerbook_put_def)
    then obtain r' where "st_put S st1 PEERBOOK_KEY (wire_encode (c_book c) (book_insert h sr records)) = (r', st')"
      by (auto simp: peerbook_save_def io_put_def map_errS_def prod_eq_iff)
    from put_any [OF _ this] frame [of k] l1 assms(2) show ?thesis by (auto simp: peerbook_load_def io_get_def)
  qed
qed

end

lemma upd_first_split: "list_all (\<lambda>x. \<not> p x) xs \<Longrightarrow> p y \<Longrightarrow> upd_first p f (xs @ y # ys) = xs @ f y # ys"
  by (induction xs) auto

lemma book_rebind:
  assumes kept: "book_kept C K records"
    and only: "filter (\<lambda>e. pe_handle e = h \<and> rec_handle (s_record (pe_record e)) = h) records = [e0]"
    and sr: "rec_handle (s_record sr) = h" "rec_user_id (s_record sr) = user_id_from_wallet C (rec_wallet (s_record sr))"
      "rec_wallet (s_record sr) = rec_wallet (s_record (pe_record e0))"
  shows "\<exists>e. filter (\<lambda>e. pe_handle e = h \<and> rec_handle (s_record (pe_record e)) = h) (book_insert h sr records) = [e] \<and> pe_record e = sr"
proof -
  let ?P = "\<lambda>e. pe_handle e = h \<and> rec_handle (s_record (pe_record e)) = h" and ?id = "\<lambda>e. pe_user_id e = rec_user_id (s_record sr)"
  from filter_eq_ConsD [OF only] obtain xs ys where
    split0: "records = xs @ e0 # ys" "\<forall>u \<in> set xs. \<not> ?P u" "?P e0" "[] = filter ?P ys" by blast
  then have split: "records = xs @ e0 # ys" "filter ?P xs = []" "filter ?P ys = []" "?P e0"
    using filter_False [OF split0(2)] split0(4) [symmetric] by blast+
  have id: "?id e0" using kept sr split(1) by (auto simp: book_kept_def Let_def)
  have xs: "list_all (\<lambda>e. \<not> ?id e) xs" 
  proof -
    have "pe_user_id e0 \<notin> pe_user_id ` set xs" using kept split(1) by (auto simp: book_kept_def)
    then show ?thesis unfolding list_all_iff id [symmetric] by (metis image_eqI)
  qed
  have "book_insert h sr records = xs @ e0\<lparr>pe_handle := h, pe_record := sr\<rparr> # ys"
  proof -
    have "List.find ?id records \<noteq> None" unfolding find_None_all using id split(1) by auto
    then show ?thesis using upd_first_split [OF xs id, of "\<lambda>e. e\<lparr>pe_handle := h, pe_record := sr\<rparr>" ys] split(1) by (simp add: book_insert_def)
  qed
  with split(2,3) sr(1) show ?thesis by simp
qed

context kv_store_puts
begin

lemma filing_keeps_trust:
  assumes inv: "inv st" and book: "codec_ok (c_book (k_book K))" and kept: "peerbook_kept S C (k_book K) st"
    and trusted: "trusted_wallet S K st h = Ok (Some wallet)"
    and r: "r \<in> set (of_wallet (Some wallet) (valid_candidates C (k_book K) h cs))"
    and put: "peerbook_put S C (k_book K) st h r = (x, st')"
  shows "inv st' \<and> peerbook_kept S C (k_book K) st' \<and> trusted_wallet S K st' h = Ok (Some wallet)
    \<and> peerbook_get S (k_book K) st' h \<in> {peerbook_get S (k_book K) st h, Ok (Some r)}"
proof -
  let ?P = "\<lambda>e. pe_handle e = h \<and> rec_handle (s_record (pe_record e)) = h"
  obtain records where l: "peerbook_load S (k_book K) st = Ok records" and b: "book_kept C (c_book_claims (k_book K)) records"
    using kept by (auto simp: peerbook_kept_def)
  from trusted l obtain e0 where only: "filter ?P records = [e0]" and w0: "rec_wallet (s_record (pe_record e0)) = wallet"
    and level: "verified_level S (fc_verified (k_flow K)) (k_contacts K) st (rec_user_id (s_record (pe_record e0))) wallet \<in> {Pinned, Verified}"
    by (auto simp: trusted_wallet_def peerbook_get_def Let_def split: list.splits if_splits)
  have facts: "rec_handle (s_record r) = h" "rec_user_id (s_record r) = user_id_from_wallet C (rec_wallet (s_record r))"
    "rec_wallet (s_record r) = wallet" using r valid_candidate_facts [of r C "k_book K" h cs] by (auto simp: of_wallet_def)
  have "e0 \<in> set records" using arg_cong [OF only, of set] by auto
  with b have uid0: "rec_user_id (s_record (pe_record e0)) = user_id_from_wallet C wallet" by (auto simp: book_kept_def Let_def w0)
  note any = peerbook_put_any [OF inv book l put]
  have lvl: "verified_level S (fc_verified (k_flow K)) (k_contacts K) st' (user_id_from_wallet C wallet) wallet \<in> {Pinned, Verified}"
    using level any verified_level_cong [of S st' st "fc_verified (k_flow K)" "k_contacts K"] by (simp add: uid0)
  have load: "peerbook_load S (k_book K) st' \<in> {Ok records, Ok (book_insert h r records)}" using any [of undefined] by auto
  obtain e1 where e1: "filter ?P (book_insert h r records) = [e1]" "pe_record e1 = r"
    using book_rebind [OF b only facts(1,2) facts(3) [folded w0]] by blast
  have get: "peerbook_get S (k_book K) st' h = Ok (Some (pe_record e0)) \<or> peerbook_get S (k_book K) st' h = Ok (Some r)"
    "peerbook_get S (k_book K) st h = Ok (Some (pe_record e0))"
    using load only e1 l by (auto simp: peerbook_get_def)
  then have "trusted_wallet S K st' h = Ok (Some wallet)"
    using lvl facts uid0 w0 by (auto simp: trusted_wallet_def)
  with get peerbook_put_kept [OF inv book kept put] show ?thesis by auto
qed

end

lemma best_candidate_trusted:
  assumes "best_dht_record_candidate C B h cs (Some wallet) = Ok (Some r, k)"
  shows "r \<in> set (of_wallet (Some wallet) (valid_candidates C B h cs))"
    "v \<in> set (of_wallet (Some wallet) (valid_candidates C B h cs)) \<Longrightarrow> \<not> freshness_less (record_freshness r) (record_freshness v)"
  using best_candidate_spec(1) [OF assms] by (auto simp: chosen_wallet_def freshest_def)

lemma on_store_store [simp]: "cs_store (snd (on_store w f)) = snd (f (cs_store w))"
  by (simp add: on_store_def split_def Let_def)

text \<open>Both ways of filing a discovered record end in the old store, or in a put of the record chosen.\<close>

definition filed :: "'n cli_env \<Rightarrow> handle \<Rightarrow> wallet_public_key option \<Rightarrow> file_store \<Rightarrow> bytes list \<Rightarrow> any_error + unit \<Rightarrow> file_store \<Rightarrow> bool" where
  "filed V h trusted st cs res st' \<longleftrightarrow> (\<exists>r k. best_dht_record_candidate (cv_crypto V) (k_book (cv_codecs V)) h cs trusted = Ok (Some r, k)
     \<and> peerbook_put (cv_ops V) (cv_crypto V) (k_book (cv_codecs V)) st h r = (res, st'))"

lemma import_files:
  assumes "import_from_configured_dht V identity h w = (res, w')" "trusted_wallet (cv_ops V) (cv_codecs V) (cs_store w) h = Ok trusted"
  shows "(res \<noteq> Ok True \<and> cs_store w' = cs_store w) \<or> (\<exists>cs bootstrap x. cv_dht_get V (cs_tick w) (device_secret identity) None bootstrap (dht_record_key h) = Ok cs
    \<and> filed V h trusted (cs_store w) cs x (cs_store w') \<and> (res = Ok True \<longrightarrow> x = Ok ()))"
proof -
  have "(res, w') = import_from_configured_dht V identity h w" by (simp add: assms(1))
  then show ?thesis unfolding import_from_configured_dht_def filed_def Let_def
    by (auto simp: tryE_def tryS_def assms(2) on_store_def split: sum.splits if_splits option.splits prod.splits)
qed
lemma lookup_files:
  assumes "dht_lookup V identity raw listen extra w = Some (res, w')" "handle_new raw = Ok h"
    and "trusted_wallet (cv_ops V) (cv_codecs V) (cs_store w) h = Ok trusted"
  shows "((\<forall>n. res \<noteq> Ok n) \<and> cs_store w' = cs_store w) \<or> (\<exists>cs listen_addr bootstrap x.
      cv_dht_get V (cs_tick w) (device_secret identity) listen_addr bootstrap (dht_record_key h) = Ok cs
      \<and> filed V h trusted (cs_store w) cs x (cs_store w') \<and> (\<forall>n. res = Ok n \<longrightarrow> x = Ok ()))"
proof -
  obtain listening where l: "listen_option V listen = Some listening" using assms(1,2) by (auto simp: dht_lookup_def)
  have "Some (res, w') = dht_lookup V identity raw listen extra w" by (simp add: assms(1))
  then show ?thesis unfolding dht_lookup_def filed_def Let_def
    by (auto simp: tryE_def tryS_def assms(2,3) l on_store_def split: sum.splits if_splits option.splits prod.splits)
qed

lemma filed_keeps_trust:
  assumes "fs_inv (cv_crypto V) (cv_fs V) (cv_batch V) st" "codec_ok (c_book (k_book (cv_codecs V)))"
    and "peerbook_kept (cv_ops V) (cv_crypto V) (k_book (cv_codecs V)) st"
    and "trusted_wallet (cv_ops V) (cv_codecs V) st h = Ok (Some wallet)"
    and "filed V h (Some wallet) st cs x st'"
  shows "fs_inv (cv_crypto V) (cv_fs V) (cv_batch V) st' \<and> peerbook_kept (cv_ops V) (cv_crypto V) (k_book (cv_codecs V)) st'
    \<and> trusted_wallet (cv_ops V) (cv_codecs V) st' h = Ok (Some wallet)"
proof -
  from assms(5) obtain r k where best: "best_dht_record_candidate (cv_crypto V) (k_book (cv_codecs V)) h cs (Some wallet) = Ok (Some r, k)"
    and put: "peerbook_put (cv_ops V) (cv_crypto V) (k_book (cv_codecs V)) st h r = (x, st')" by (auto simp: filed_def)
  from fsp.filing_keeps_trust [OF assms(1-4) best_candidate_trusted(1) [OF best] put] show ?thesis by blast
qed

text \<open>A record that was filed is the one its handle resolves to.\<close>

lemma filed_resolves:
  assumes "fs_inv (cv_crypto V) (cv_fs V) (cv_batch V) st" "codec_ok (c_book (k_book (cv_codecs V)))"
    and "peerbook_kept (cv_ops V) (cv_crypto V) (k_book (cv_codecs V)) st"
    and "trusted_wallet (cv_ops V) (cv_codecs V) st h = Ok (Some wallet)"
    and "filed V h (Some wallet) st cs (Ok ()) st'"
  shows "\<exists>r. peerbook_get (cv_ops V) (k_book (cv_codecs V)) st' h = Ok (Some r) \<and> rec_wallet (s_record r) = wallet
    \<and> freshest (of_wallet (Some wallet) (valid_candidates (cv_crypto V) (k_book (cv_codecs V)) h cs)) (Some r)"
proof -
  let ?S = "cv_ops V" and ?C = "cv_crypto V" and ?B = "k_book (cv_codecs V)"
  let ?P = "\<lambda>e. pe_handle e = h \<and> rec_handle (s_record (pe_record e)) = h"
  from assms(5) obtain r k where best: "best_dht_record_candidate ?C ?B h cs (Some wallet) = Ok (Some r, k)"
    and put: "peerbook_put ?S ?C ?B st h r = (Ok (), st')" by (auto simp: filed_def)
  obtain records where l: "peerbook_load ?S ?B st = Ok records" and b: "book_kept ?C (c_book_claims ?B) records"
    using assms(3) by (auto simp: peerbook_kept_def)
  from assms(4) l obtain e0 where only: "filter ?P records = [e0]" and w0: "rec_wallet (s_record (pe_record e0)) = wallet"
    by (auto simp: trusted_wallet_def peerbook_get_def Let_def split: list.splits if_splits)
  note r = best_candidate_trusted(1) [OF best]
  then have facts: "rec_handle (s_record r) = h" "rec_user_id (s_record r) = user_id_from_wallet ?C (rec_wallet (s_record r))"
    "rec_wallet (s_record r) = wallet" using valid_candidate_facts [of r ?C ?B h cs] by (auto simp: of_wallet_def)
  obtain e1 where "filter ?P (book_insert h r records) = [e1]" "pe_record e1 = r"
    using book_rebind [OF b only facts(1,2) facts(3) [folded w0]] by blast
  moreover have "peerbook_load ?S ?B st' = Ok (book_insert h r records)"
    using fs.peerbook_put_spec(2) [OF assms(1,2) l put] .
  ultimately have "peerbook_get ?S ?B st' h = Ok (Some r)" by (simp add: peerbook_get_def)
  with facts(3) best_candidate_spec(1) [OF best] show ?thesis by (auto simp: chosen_wallet_def)
qed

section \<open>Properties\<close>


definition sample_rival :: signed_record where
  "sample_rival = signed_record_sign sample_crypto sample_claims (sample_record 4 9) (sample_identity 4)"

text \<open>A DHT that answers with noise, with a rival's newer record of the same handle, and with the owner's.\<close>

definition sample_cli :: "unit cli_env" where
  "sample_cli = \<lparr>cv_crypto = sample_crypto, cv_fs = sample_disk, cv_batch = sample_batch, cv_codecs = sample_client, cv_network = offline,
     cv_multiaddr = (\<lambda>_. Some []), cv_sockaddr = (\<lambda>_. None), cv_bootstrap = [''node''],
     cv_dht_get = (\<lambda>_ _ _ _ _. Ok [[1], wire_encode (c_signed_record sample_book_codecs) sample_rival,
        wire_encode (c_signed_record sample_book_codecs) (sample_signed 1)]),
     cv_dht_put = (\<lambda>_ _ _ _ _ _. Ok ()), cv_read_file = (\<lambda>_. None), cv_others = (\<lambda>_ st. st)\<rparr>"

lemma sample_cli_ops: "cv_ops sample_cli = sample_ops" "cv_codecs sample_cli = sample_client" "cv_crypto sample_cli = sample_crypto"
  "cv_fs sample_cli = sample_disk" "cv_batch sample_cli = sample_batch" "k_book sample_client = sample_book_codecs"
  by (simp_all add: sample_cli_def sample_ops_def sample_client_def sample_flow_def)

lemma sample_trusted:
  "\<exists>st. fs_inv sample_crypto sample_disk sample_batch st \<and> peerbook_kept sample_ops sample_crypto sample_book_codecs st
     \<and> trusted_wallet sample_ops sample_client st ''ari'' = Ok (Some (rec_wallet (s_record (sample_signed 1))))"
proof -
  let ?r = "s_record (sample_signed 1)"
  obtain st1 where put: "peerbook_put sample_ops sample_crypto sample_book_codecs sample_store ''ari'' (sample_signed 1) = (Ok (), st1)"
    using sample_put by blast
  note g = sample_put_get [OF put]
  have inv1: "fs_inv sample_crypto sample_disk sample_batch st1"
    using fsp.peerbook_put_kept [OF sample_fs_inv sample_book_codecs_ok(1) sample_book_kept [unfolded sample_ops_def] put [unfolded sample_ops_def]] by simp
  obtain st2 where mark: "st_put sample_ops st1 (verified_key (rec_user_id ?r)) (wire_encode (sample_codec s_bytes) (rec_wallet ?r)) = (Ok (), st2)"
    using sample_put_accepts [OF inv1] by blast
  from fs.put_ok [OF inv1 mark [unfolded sample_ops_def]] have inv2: "fs_inv sample_crypto sample_disk sample_batch st2"
    and get2: "st_get sample_ops st2 = (st_get sample_ops st1)(verified_key (rec_user_id ?r) := Ok (Some (wire_encode (sample_codec s_bytes) (rec_wallet ?r))))"
    by (simp_all add: sample_ops_def)
  have book: "peerbook_load sample_ops sample_book_codecs st2 = peerbook_load sample_ops sample_book_codecs st1"
    using trust_keys(4) [of "rec_user_id ?r", symmetric] by (simp add: peerbook_load_def io_get_def get2)
  moreover have "verified_get sample_ops (sample_codec s_bytes) st2 (rec_user_id ?r) = Ok (Some (rec_wallet ?r))"
    using sample_codec_ok [of s_bytes] by (simp add: verified_get_def io_get_def get2 load_state_def sample_ok)
  ultimately have "trusted_wallet sample_ops sample_client st2 ''ari'' = Ok (Some (rec_wallet ?r))"
    using g(1) sample_cli_ops(6) by (simp add: trusted_wallet_def peerbook_get_def verified_level_def)
  with inv2 g(2) book show ?thesis by (auto simp: peerbook_kept_def)
qed


section \<open>Saving attachments\<close>

declare save_candidate.simps [simp del]

text \<open>The first free name at or after \<open>n\<close> is the one written.\<close>

lemma save_candidate_spec:
  assumes "save_candidate D safe data n dir = (r, dir')"
  shows "(\<exists>m. n \<le> m \<and> m < 10000 \<and> dir (candidate_name safe m) = None \<and> (\<forall>i. n \<le> i \<longrightarrow> i < m \<longrightarrow> dir (candidate_name safe i) \<noteq> None)
      \<and> (case dv_open D (candidate_name safe m) of
           Some e \<Rightarrow> r = Err (AnyIo e) \<and> dir' = dir
         | None \<Rightarrow> (case dv_write D (candidate_name safe m) of
               None \<Rightarrow> r = Ok (candidate_name safe m) \<and> dir' = dir(candidate_name safe m \<mapsto> data)
             | Some (k, e) \<Rightarrow> r = Err (AnyIo e) \<and> dir' = dir(candidate_name safe m \<mapsto> take k data))))
    \<or> (\<forall>i. n \<le> i \<longrightarrow> i < 10000 \<longrightarrow> dir (candidate_name safe i) \<noteq> None) \<and> dir' = dir \<and> r = Err (AnyMsg (''too many attachments named '' @ quoted safe))"
  using assms
proof (induction D safe data n dir rule: save_candidate.induct)
  case (1 D safe data n dir)
  consider "n \<ge> 10000" | "n < 10000" "dir (candidate_name safe n) = None" | "n < 10000" "dir (candidate_name safe n) \<noteq> None" by linarith
  then show ?case
  proof cases
    case 1
    with "1.prems" show ?thesis by (simp add: save_candidate.simps [of D safe data n])
  next
    case 2
    with "1.prems" show ?thesis
      by (intro disjI1 exI [of _ n]) (auto simp: save_candidate.simps [of D safe data n] Let_def split: option.splits prod.splits)
  next
    case 3
    then have "save_candidate D safe data (Suc n) dir = (r, dir')"
      using "1.prems" by (simp add: save_candidate.simps [of D safe data n])
    moreover have "(\<forall>i. Suc n \<le> i \<longrightarrow> i < b \<longrightarrow> dir (candidate_name safe i) \<noteq> None) \<longleftrightarrow> (\<forall>i. n \<le> i \<longrightarrow> i < b \<longrightarrow> dir (candidate_name safe i) \<noteq> None)" for b
      using 3(2) by (metis Suc_leD Suc_leI le_neq_implies_less)
    ultimately show ?thesis using "1.IH" [OF _ refl] 3 Suc_leD by (smt (verit) not_le)
  qed
qed

text \<open>Names of saved files stay in the directory.\<close>

definition plain_name :: "string \<Rightarrow> bool" where
  "plain_name n \<longleftrightarrow> n \<noteq> [] \<and> n \<noteq> ''.'' \<and> n \<noteq> ''..'' \<and> CHR ''/'' \<notin> set n"

lemma split_char_parts: "part \<in> set (split_char c s) \<Longrightarrow> c \<notin> set part"
  by (induction c s arbitrary: part rule: split_char.induct) (auto split: if_splits list.splits)

lemma safe_name_plain: "plain_name (safe_name name)"
proof (cases "rev (filter (\<lambda>part. part \<noteq> [] \<and> part \<noteq> ''.'') (split_char (CHR ''/'') name))")
  case Nil
  then show ?thesis by (simp add: safe_name_def path_file_name_def plain_name_def)
next
  case (Cons part parts)
  have "part \<in> set (filter (\<lambda>part. part \<noteq> [] \<and> part \<noteq> ''.'') (split_char (CHR ''/'') name))"
    using arg_cong [OF Cons, of set] by auto
  then have "part \<noteq> []" "part \<noteq> ''.''" "CHR ''/'' \<notin> set part" using split_char_parts [of part "CHR ''/''" name] by auto
  moreover have "path_file_name name = (if part = ''..'' then None else Some part)" unfolding path_file_name_def Cons by simp
  ultimately show ?thesis by (simp add: safe_name_def plain_name_def)
qed

lemma nat_decimal_no_slash: "CHR ''/'' \<notin> set (nat_decimal n)"
  using digits_nat_decimal [of n] by (auto simp: list_all_iff is_digit_char_def)

lemma set_tl_subset: "set (tl xs) \<subseteq> set xs"
  by (cases xs) auto

lemma rsplit_once_chars:
  assumes "rsplit_once c s = Some (a, b)"
  shows "set a \<subseteq> set s \<and> set b \<subseteq> set s"
proof -
  have "set (takeWhile P (rev s)) \<subseteq> set s" "set (dropWhile P (rev s)) \<subseteq> set s" for P
    using set_takeWhileD [of _ P "rev s"] set_dropWhileD [of _ P "rev s"] by auto
  with assms set_tl_subset show ?thesis by (fastforce simp: rsplit_once_def split_once_def split: if_splits)
qed

lemma candidate_name_plain:
  assumes "plain_name safe"
  shows "plain_name (candidate_name safe n)"
proof (cases "n = 0")
  case False
  obtain stem ext where se: "stem_and_ext safe = (stem, ext)" by fastforce
  then have "set stem \<subseteq> set safe" "set ext \<subseteq> insert (CHR ''.'') (set safe)"
    by (auto simp: stem_and_ext_def split: option.splits if_splits prod.splits dest!: rsplit_once_chars)
  moreover have "CHR ''('' \<in> set (candidate_name safe n)" using False se by (simp add: candidate_name_def)
  ultimately show ?thesis using assms False se nat_decimal_no_slash [of n] by (auto simp: plain_name_def candidate_name_def)
qed (use assms in \<open>simp add: candidate_name_def\<close>)

text \<open>
  C8: an attachment is saved where it belongs and costs nothing.  Whatever name the sender gave and
  whichever system call fails, every file of the downloads directory is kept with its contents.  A file
  that is written is new, holds the data (or, when the write failed, a part of it), and its name stays
  inside the directory: no path separator, and neither empty nor a dot entry.  Saving succeeds whenever
  one of the ten thousand names tried is free and the system calls work, and it takes the first such name.
\<close>

theorem attachment_saved_safely:
  assumes "save_attachment_in D name data dir = (r, dir')"
  shows "dir \<subseteq>\<^sub>m dir'
    \<and> (\<forall>c. r = Ok c \<longrightarrow> dir c = None \<and> dir' = dir(c \<mapsto> data) \<and> plain_name c
         \<and> (\<exists>m. c = candidate_name (safe_name name) m \<and> (\<forall>i < m. dir (candidate_name (safe_name name) i) \<noteq> None)))
    \<and> (\<forall>c. c \<in> dom dir' - dom dir \<longrightarrow> plain_name c \<and> dir' = dir(c \<mapsto> the (dir' c)) \<and> (\<exists>k. dir' c = Some (take k data)))
    \<and> (dv_create_dir D = None \<longrightarrow> (\<forall>n. dv_open D n = None \<and> dv_write D n = None) \<longrightarrow>
         (\<exists>i < 10000. dir (candidate_name (safe_name name) i) = None) \<longrightarrow> (\<exists>c. r = Ok c))"
proof (cases "dv_create_dir D")
  case (Some e)
  with assms show ?thesis by (auto simp: save_attachment_in_def)
next
  case None
  with assms have "save_candidate D (safe_name name) data 0 dir = (r, dir')" by (simp add: save_attachment_in_def)
  note plain = candidate_name_plain [OF safe_name_plain] and spec = save_candidate_spec [OF this]
  have part: "\<exists>k. data = take k data" by (intro exI [of _ "length data"]) simp
  from spec show ?thesis
  proof (elim disjE exE conjE)
    fix m
    let ?c = "candidate_name (safe_name name) m"
    assume free: "dir ?c = None" and first: "\<forall>i. 0 \<le> i \<longrightarrow> i < m \<longrightarrow> dir (candidate_name (safe_name name) i) \<noteq> None"
      and wrote: "case dv_open D ?c of Some e \<Rightarrow> r = Err (AnyIo e) \<and> dir' = dir
         | None \<Rightarrow> (case dv_write D ?c of None \<Rightarrow> r = Ok ?c \<and> dir' = dir(?c \<mapsto> data) | Some (k, e) \<Rightarrow> r = Err (AnyIo e) \<and> dir' = dir(?c \<mapsto> take k data))"
    then consider "dir' = dir" "\<forall>c. r \<noteq> Ok c" "dv_open D ?c \<noteq> None"
      | "r = Ok ?c" "dir' = dir(?c \<mapsto> data)" | k where "\<forall>c. r \<noteq> Ok c" "dir' = dir(?c \<mapsto> take k data)" "dv_write D ?c \<noteq> None"
      by (auto split: option.splits prod.splits)
    then show ?thesis
      by cases (use free first plain [of name m] part in \<open>auto simp: map_le_def dom_def\<close>)
  qed auto
qed

theorem attachment_saved_safely_witness:
  "\<exists>c dir'. save_attachment_in \<lparr>dv_create_dir = None, dv_open = (\<lambda>_. None), dv_write = (\<lambda>_. None)\<rparr> ''../../etc/passwd'' [1] [''passwd'' \<mapsto> [7]]
       = (Ok c, dir') \<and> dir' ''passwd'' = Some [7] \<and> dir' c = Some [1] \<and> plain_name c"
proof -
  define D where "D = \<lparr>dv_create_dir = None, dv_open = (\<lambda>_. None), dv_write = (\<lambda>_. None)\<rparr>"
  define name where "name = ''../../etc/passwd''"
  define dir :: "string \<Rightarrow> bytes option" where "dir = [''passwd'' \<mapsto> [7]]"
  obtain r dir' where run: "save_attachment_in D name [1] dir = (r, dir')" by fastforce
  have "safe_name ''../../etc/passwd'' = ''passwd''" by code_simp
  moreover have "candidate_name ''passwd'' 1 = ''passwd (1)''" by code_simp
  ultimately have "dir (candidate_name (safe_name name) 1) = None" by (simp add: name_def dir_def)
  moreover have "dv_create_dir D = None" "\<forall>n. dv_open D n = None \<and> dv_write D n = None" by (simp_all add: D_def)
  ultimately obtain c where c: "r = Ok c" using attachment_saved_safely [OF run] one_less_numeral_iff semiring_norm(76) by blast
  with attachment_saved_safely [OF run] have "dir c = None" "dir' = dir(c \<mapsto> [1])" "plain_name c" by blast+
  with run c show ?thesis unfolding D_def name_def by (intro exI [of _ c] exI [of _ dir']) (auto simp: dir_def split: if_splits)
qed

section \<open>Durations\<close>

text \<open>
  The seconds of a duration and the expiry time are exact only below \<open>2 ^ 64\<close>; above, a release build
  wraps, and a message meant to be kept for very long expires in the past.
\<close>

lemma parse_duration_value:
  assumes "parse_duration s = Ok secs"
  shows "\<exists>value. parse_u64 (str_trim (fst (duration_unit (str_trim s)))) = Some value
    \<and> unat secs = (unat value * unat (snd (duration_unit (str_trim s)))) mod 2 ^ 64"
  using assms by (auto simp: parse_duration_def Let_def split_def ok_or_def unat_word_ariths split: option.splits)

lemma sample_trims: "str_trim ''213503982334602d'' = ''213503982334602d''" "str_trim ''213503982334602'' = ''213503982334602''"
  "str_trim ''18446744073709551615s'' = ''18446744073709551615s''" "str_trim ''18446744073709551615'' = ''18446744073709551615''"
  by (rule str_trim_graphic, simp add: is_ascii_graphic_def)+

lemma long_duration_wraps: "parse_duration ''213503982334602d'' = Ok 61184"
  by (simp add: parse_duration_def sample_trims duration_unit_def strip_suffix_def parse_u64_def is_digit_char_def decimal_value_def ok_or_def)

lemma long_expiry_in_the_past:
  assumes "clock (cs_platform w) (reads (cs_platform w)) = 1000"
  shows "fst (resolve_expiry V key (Some ''18446744073709551615s'') w) = Ok (Some 999)"
proof -
  have "parse_duration ''18446744073709551615s'' = Ok 18446744073709551615"
    by (simp add: parse_duration_def sample_trims duration_unit_def strip_suffix_def parse_u64_def is_digit_char_def decimal_value_def ok_or_def)
  with assms show ?thesis by (simp add: resolve_expiry_def now_unix_secs_def)
qed

end
