(* ===== verification/Spec2Isabelle.thy ===== *)
theory Spec2Isabelle
  imports FileStore Safety Records X3dh Delivery Message GroupSession Wireops Stores Antirollback History
    GroupStore Outbox Peerbook Flow FlowSafety RegistrySafety RegistryHttpSafety Client ClientRegistry GroupDelivery Backup Transport MobileSafety CliSafety
begin

text \<open>
  Mycellium is a serverless end-to-end encrypted messenger.  The Rust workspace under
  \<open>src/crates\<close> has a core crate (identities, signed records, the handshake, group sessions, wire
  types), a storage crate (an encrypted file store with a write-ahead journal), an engine crate
  (all local state over an abstract key-value store, plus the send and receive orchestration), a
  client crate, a registry service, and front ends.

  \<^bold>\<open>Theories and sources.\<close>
  \<^item> \<open>Prelude\<close>: result types and the question-mark combinators, saturating arithmetic, byte and
    string conversions, ordered maps, iterator idioms.
  \<^item> \<open>Wire\<close>, \<open>Crypto\<close>, \<open>Storage\<close>: \<open>mycellium-core/src/error.rs\<close>, \<open>wire.rs\<close>, \<open>cipher.rs\<close>,
    \<open>platform.rs\<close>, \<open>storage.rs\<close>, and the decoding helpers of \<open>mycellium-engine/src/lib.rs\<close>.
    \<open>Storage\<close> states the contract of a store as the locale \<open>kv_store\<close>.
  \<^item> \<open>FileStore\<close>: \<open>mycellium-storage/src/filestore.rs\<close>; the store, its journal, its transactions and
    recovery, with write faults at any point.  It interprets \<open>kv_store\<close> for the file store and for
    an open transaction, so every lemma proved for an abstract store holds for both.
  \<^item> \<open>Hex\<close>, \<open>Ident\<close>, \<open>Safety\<close>, \<open>Records\<close>, \<open>X3dh\<close>, \<open>Delivery\<close>, \<open>Message\<close>, \<open>GroupSession\<close>: the
    modules of \<open>mycellium-core/src\<close> with the corresponding names (\<open>identity.rs\<close>, \<open>userid.rs\<close>,
    \<open>safety.rs\<close>, \<open>record.rs\<close>, \<open>x3dh.rs\<close> with \<open>one_shot.rs\<close> and \<open>offline.rs\<close>, \<open>delivery.rs\<close>,
    \<open>message.rs\<close>, \<open>group.rs\<close>).
  \<^item> \<open>Wireops\<close>, \<open>Stores\<close>, \<open>Antirollback\<close>, \<open>History\<close>, \<open>GroupStore\<close>, \<open>Outbox\<close>, \<open>Peerbook\<close>: the
    modules of \<open>mycellium-engine/src\<close>; \<open>Stores\<close> holds the small ones (\<open>draft.rs\<close>, \<open>expiry.rs\<close>,
    \<open>attachments.rs\<close>, \<open>names.rs\<close>, \<open>blocklist.rs\<close>, \<open>inbox.rs\<close>, \<open>contacts.rs\<close>, \<open>verified.rs\<close>,
    \<open>reachability.rs\<close>).
  \<^item> \<open>Flow\<close>, \<open>FlowSafety\<close>: \<open>mycellium-engine/src/flow/mod.rs\<close>, the sending and receiving of messages over
    the stores above; the first holds the model, the second what is proved of it.
  \<^item> \<open>Registry\<close>, \<open>RegistrySafety\<close>: \<open>mycellium-registry/src/lib.rs\<close> and \<open>redb_store.rs\<close>; logins,
    sessions, rate limits, blob pointers and expiry cleanup as transactions on tables, and their
    invariants over any run.
  \<^item> \<open>RegistryBlobs\<close>: the blob files of \<open>lib.rs\<close>, with a fault at any system call, and \<open>recovery.rs\<close>.
  \<^item> \<open>RegistryHttp\<close>, \<open>RegistryHttpSafety\<close>: the request handlers of \<open>http.rs\<close>, each a sequence of
    atomic calls between which other requests run.  The contract between concurrent requests is the
    relation \<open>account_evolves\<close>.
  \<^item> \<open>Client\<close>, \<open>ClientRuntime\<close>, \<open>ClientRegistry\<close>: \<open>lib.rs\<close>, \<open>runtime.rs\<close> and \<open>registry.rs\<close> of
    \<open>mycellium-client/src\<close>.  \<open>StoreFrame\<close> states, as the locale \<open>store_frame\<close>, what a predicate on
    stores must promise to be kept by every engine operation a received item can reach, and is
    interpreted for the open transaction of \<open>accept_delivery\<close>; \<open>ClientSafety\<close> and \<open>GroupDelivery\<close>
    hold what is proved of delivery.
  \<^item> \<open>Mobile\<close>, \<open>MobileSafety\<close>: \<open>mycellium-mobile/src/lib.rs\<close>, the client under the Android and Apple
    shells; each call and each round of a worker thread is a step, and \<open>mobile_run\<close> is a run of them.
  \<^item> \<open>IdentityFile\<close>: \<open>mycellium-storage/src/seal.rs\<close> and \<open>store.rs\<close>.
  \<^item> \<open>Backup\<close>: \<open>mycellium-cli/src/app/backup.rs\<close> over a tree of directories in which any call may fail.
  \<^item> \<open>Cli\<close>, \<open>CliSafety\<close>: of \<open>mycellium-cli/src/app\<close>, the commands of \<open>mod.rs\<close> for discovery over the DHT, trust,
    sending, the outbox, serving and groups, and the durations, messages and attachments of \<open>util.rs\<close>.
  \<^item> \<open>Transport\<close>: of \<open>mycellium-transport/src\<close>, the framing of \<open>link.rs\<close>, the connections of \<open>net.rs\<close>, the
    address checks of \<open>libp2p_net.rs\<close> and the reply loop of \<open>reticulum_net.rs\<close>.
  \<^item> \<open>RustStr\<close>: the string and number functions of the standard library the sources use.
  \<^item> \<open>Samples\<close>, \<open>SampleCodecs\<close>: concrete parameters for the witnesses; they model no code.

  \<^bold>\<open>How the code is modelled.\<close>  A struct is a record and an enum a datatype; a \<open>u8\<close>, \<open>u32\<close> or
  \<open>u64\<close> is a word of that width and wraps or saturates where the source does; a \<open>Result\<close> is a
  sum with \<open>Ok\<close> and \<open>Err\<close>; an operation that takes \<open>&mut\<close> returns its new state next to its
  result, also on the error path.  A generic parameter \<open>S: Storage\<close> is a record of operations
  passed as an argument.  A loop is a recursive function; the rejection sampling of account
  creation and the retry loops of the registry, which need not end, are partial functions; C4 says
  when account creation returns.  A
  panic is the value \<open>None\<close>.

  Third-party crates are parameters: the cryptographic primitives (record \<open>crypto\<close>, with one named
  hypothesis per documented law, such as decryption inverting encryption), the \<open>postcard\<close>
  serializer (one \<open>codec\<close> per type, with the hypothesis \<open>codec_ok\<close> that a value deserializes from
  its own serialization), randomness and clock (record \<open>platform\<close>), and the operating system's
  file operations (record \<open>fs_env\<close>, which may fail any write before or after its effect).  No
  theorem assumes that a cryptographic problem is hard.

  \<^bold>\<open>What is shown.\<close>
  \<^item> Durability and atomicity of the store (C1 to C3): an acknowledged write survives any later
    faults and restarts, batches and transactions take effect entirely or not at all, and recovery
    completes.
  \<^item> Identities, records and statements (C4 to C7), acknowledgements (C10), envelopes (C15, C16).
  \<^item> Group sessions (C11, C12): any delivery order within the skip bound, each message once.
  \<^item> Trust levels (C20), anti-rollback (C22), transcripts (C24), the outbox (C27, C28), the account
    file (C33).
  \<^item> The command line client: what the DHT answers cannot take over a trusted person (C32), and saving an
    attachment neither overwrites a file nor leaves the downloads directory (C8).
  \<^item> Framing: what arrives of a stream of frames is a prefix of the messages, whole and in order (C23).
  \<^item> Backups: an import replaces nothing and is all or nothing (C30), and an exported backup cannot be
    imported, because it holds the lock file of the store (C9).
  \<^item> The native client: what every run keeps (C29), which identity a login runs with (C40), and a failed
    first login after which no login succeeds (C31).
  \<^item> Delivery between devices: an item is accepted once under any retries, faults and restarts (C18),
    an acknowledgement means it is stored (C19), reported outcomes are true (C26), and the sharing of
    one delivery id by all deliveries of a group message, which lets at most one member receive it
    (C13).
  \<^item> Sending and receiving (C34 to C38): a name resolves only to a trusted record, received items
    have an effect only when authentic and once, departed members are excluded, and group texts go
    to trusted devices only.
  \<^item> The registry: tokens, sessions and accounts in every reachable state (C21, C39), the requests
    that need a session (C17), what any interleaving of requests may do to an account (C25), and an
    interleaving of two uploads that loses a backup (C14).

  \<^bold>\<open>Bounds.\<close>  No operation is cut off by fuel.  Where the model numbers the operations of a component
  (ticks of the disk, answers of a registry client, draws of randomness), the number only selects what
  the environment does next, and the theorems hold for every environment.

  \<^bold>\<open>Not modelled.\<close>  The Linux desktop application, and of the command line client the parsing of commands,
  printing and the commands that only call one operation of the client crate, are widgets, terminal input
  and output over that crate.  Driving the libp2p swarm and the
  Reticulum node, the web framework and sending mail are calls into third-party stacks.  Zeroization of
  secrets and the diagnostics queue have no observable result.  A mutex poisoned by a thread that panicked
  while holding it is left out of the runtime.
\<close>

end
